(* ===== verification/Prelude.thy ===== *)
theory Prelude
  imports Main "HOL-Library.AList" "HOL-Library.Multiset"
begin

text \<open>
  Shared vocabulary of the development: Go's \<open>time.Time\<close> and \<open>time.Duration\<close>, Go maps, the
  integer helpers and the lemma collections that the component theories build on.

  \<^item> An instant is the number of nanoseconds since Go's zero time, so \<open>IsZero\<close> is \<open>t = 0\<close>.
    \<open>t.Sub u\<close> saturates at the bounds of the 64-bit \<open>Duration\<close>, as Go's does.
  \<^item> A Go map is an association list with distinct keys (\<open>gomap_ok\<close>); its length is Go's
    \<open>len\<close>. The order in which \<open>range\<close> visits a map is unspecified in Go: an operation
    whose result depends on it takes the order as an argument, a function that permutes the
    entries (\<open>range_order\<close>).
\<close>

section \<open>Lemma collections\<close>

named_theorems gomap \<open>lookups, sizes and well-formedness of Go maps after an update\<close>
named_theorems timing \<open>facts on instants and durations\<close>

section \<open>Instants and durations\<close>

type_synonym time = int
type_synonym duration = int

abbreviation (input) is_zero :: "time \<Rightarrow> bool" where
  "is_zero t \<equiv> t = 0"

abbreviation (input) t_before :: "time \<Rightarrow> time \<Rightarrow> bool" where
  "t_before t u \<equiv> t < u"

abbreviation (input) t_after :: "time \<Rightarrow> time \<Rightarrow> bool" where
  "t_after t u \<equiv> u < t"

definition min_duration :: duration where
  "min_duration = - (2 ^ 63)"

definition max_duration :: duration where
  "max_duration = 2 ^ 63 - 1"

definition t_sub :: "time \<Rightarrow> time \<Rightarrow> duration" where
  "t_sub t u = max min_duration (min max_duration (t - u))"

definition t_add :: "time \<Rightarrow> duration \<Rightarrow> time" where
  "t_add t d = t + d"

definition nanosecond :: duration where "nanosecond = 1"
definition millisecond :: duration where "millisecond = 1000000"
definition second :: duration where "second = 1000000000"
definition minute :: duration where "minute = 60 * second"
definition hour :: duration where "hour = 60 * minute"

lemmas duration_defs =
  nanosecond_def millisecond_def second_def minute_def hour_def min_duration_def max_duration_def

lemma t_sub_exact [timing]:
  "min_duration \<le> t - u \<Longrightarrow> t - u \<le> max_duration \<Longrightarrow> t_sub t u = t - u"
  by (simp add: t_sub_def)

lemma t_sub_less [timing]:
  "min_duration < d \<Longrightarrow> d \<le> max_duration \<Longrightarrow> t_sub t u < d \<longleftrightarrow> t - u < d"
  by (auto simp: t_sub_def min_def max_def)

lemma t_sub_greater [timing]:
  "min_duration \<le> d \<Longrightarrow> d < max_duration \<Longrightarrow> d < t_sub t u \<longleftrightarrow> d < t - u"
  by (auto simp: t_sub_def min_def max_def)

lemma t_sub_le [timing]: "u \<le> t \<Longrightarrow> t_sub t u \<le> t - u"
  by (simp add: t_sub_def duration_defs)

lemma t_sub_ge [timing]: "d \<le> t - u \<Longrightarrow> d \<le> max_duration \<Longrightarrow> d \<le> t_sub t u"
  by (simp add: t_sub_def)

lemma t_sub_nonneg [timing]: "0 \<le> t_sub t u \<longleftrightarrow> u \<le> t"
  by (auto simp: t_sub_def duration_defs min_def max_def)

section \<open>Go's integer division\<close>

text \<open>Go's \<open>/\<close> and \<open>%\<close> on signed integers truncate towards zero.\<close>

definition go_div :: "int \<Rightarrow> int \<Rightarrow> int" where
  "go_div a b = sgn a * sgn b * (\<bar>a\<bar> div \<bar>b\<bar>)"

definition go_mod :: "int \<Rightarrow> int \<Rightarrow> int" where
  "go_mod a b = a - b * go_div a b"

lemma go_div_nonneg: "0 \<le> a \<Longrightarrow> 0 < b \<Longrightarrow> go_div a b = a div b"
  by (cases "a = 0") (simp_all add: go_div_def)

lemma go_mod_nonneg: "0 \<le> a \<Longrightarrow> 0 < b \<Longrightarrow> go_mod a b = a mod b"
  by (simp add: go_mod_def go_div_nonneg minus_mult_div_eq_mod)

section \<open>Go maps\<close>

type_synonym ('k, 'v) gomap = "('k \<times> 'v) list"

abbreviation m_get :: "('k, 'v) gomap \<Rightarrow> 'k \<Rightarrow> 'v option" where
  "m_get m k \<equiv> map_of m k"

abbreviation m_set :: "('k, 'v) gomap \<Rightarrow> 'k \<Rightarrow> 'v \<Rightarrow> ('k, 'v) gomap" where
  "m_set m k v \<equiv> AList.update k v m"

abbreviation m_del :: "('k, 'v) gomap \<Rightarrow> 'k \<Rightarrow> ('k, 'v) gomap" where
  "m_del m k \<equiv> AList.delete k m"

abbreviation m_len :: "('k, 'v) gomap \<Rightarrow> int" where
  "m_len m \<equiv> int (length m)"

definition gomap_ok :: "('k, 'v) gomap \<Rightarrow> bool" where
  "gomap_ok m \<longleftrightarrow> distinct (map fst m)"

definition range_order :: "(('k \<times> 'v) list \<Rightarrow> ('k \<times> 'v) list) \<Rightarrow> bool" where
  "range_order ord \<longleftrightarrow> (\<forall>m. mset (ord m) = mset m)"

lemma range_order_id: "range_order (\<lambda>m. m)"
  by (simp add: range_order_def)

lemma range_order_rev: "range_order rev"
  by (simp add: range_order_def)

lemma range_order_set: "range_order ord \<Longrightarrow> set (ord m) = set m"
  unfolding range_order_def by (metis set_mset_mset)

lemma range_order_length: "range_order ord \<Longrightarrow> length (ord m) = length m"
  unfolding range_order_def by (metis size_mset)

lemma range_order_nil: "range_order ord \<Longrightarrow> ord m = [] \<longleftrightarrow> m = []"
  using range_order_length [of ord m] by fastforce

lemma gomap_ok_nil [simp]: "gomap_ok []"
  by (simp add: gomap_ok_def)

lemma gomap_ok_set [gomap]: "gomap_ok m \<Longrightarrow> gomap_ok (m_set m k v)"
  by (simp add: gomap_ok_def distinct_update)

lemma gomap_ok_del [gomap]: "gomap_ok m \<Longrightarrow> gomap_ok (m_del m k)"
  by (simp add: gomap_ok_def AList.distinct_delete)

lemma gomap_ok_filter [gomap]: "gomap_ok m \<Longrightarrow> gomap_ok (filter P m)"
  by (simp add: gomap_ok_def distinct_map_filter)

lemma m_get_set [gomap]: "m_get (m_set m k v) k' = (if k' = k then Some v else m_get m k')"
  by (simp add: update_conv')

lemma m_get_del [gomap]: "m_get (m_del m k) k' = (if k' = k then None else m_get m k')"
  by (simp add: AList.delete_conv')

lemma m_get_in: "gomap_ok m \<Longrightarrow> m_get m k = Some v \<longleftrightarrow> (k, v) \<in> set m"
  by (simp add: gomap_ok_def)

lemma m_get_none: "m_get m k = None \<longleftrightarrow> k \<notin> fst ` set m"
  by (simp add: map_of_eq_None_iff)

lemma m_get_filter:
  "gomap_ok m \<Longrightarrow>
   m_get (filter P m) k = (case m_get m k of None \<Rightarrow> None | Some v \<Rightarrow> if P (k, v) then Some v else None)"
  by (induction m) (auto simp: gomap_ok_def map_of_eq_None_iff split: option.splits
      intro!: rev_image_eqI)

lemma m_set_keys: "fst ` set (m_set m k v) = insert k (fst ` set m)"
  by (simp add: dom_update)

lemma m_del_keys: "fst ` set (m_del m k) = fst ` set m - {k}"
  by (auto simp: AList.delete_eq image_iff)

lemma length_m_set_new [gomap]: "m_get m k = None \<Longrightarrow> length (m_set m k v) = Suc (length m)"
  by (induction m) (auto split: if_splits)

lemma length_m_set_old [gomap]: "m_get m k \<noteq> None \<Longrightarrow> length (m_set m k v) = length m"
  by (induction m) (auto split: if_splits)

lemma length_m_set_le: "length (m_set m k v) \<le> Suc (length m)"
  by (cases "m_get m k = None") (simp_all add: gomap)

lemma length_m_del_le [gomap]: "length (m_del m k) \<le> length m"
  by (rule length_delete_le)

lemma length_m_del_old: "gomap_ok m \<Longrightarrow> m_get m k \<noteq> None \<Longrightarrow> Suc (length (m_del m k)) = length m"
proof (induction m)
  case Nil
  then show ?case by simp
next
  case (Cons a m)
  obtain k0 v0 where a: "a = (k0, v0)" by (cases a)
  show ?case
  proof (cases "k0 = k")
    case True
    with Cons.prems a have "k \<notin> fst ` set m" by (simp add: gomap_ok_def)
    then have "m_del m k = m" by (force simp: AList.delete_eq filter_id_conv)
    with True a show ?thesis by simp
  next
    case False
    with Cons a show ?thesis by (simp add: gomap_ok_def)
  qed
qed

text \<open>Values of a map after an update come from the map or are the new value.\<close>

lemma m_set_values: "gomap_ok m \<Longrightarrow> (k', v') \<in> set (m_set m k v) \<Longrightarrow> (k' = k \<and> v' = v) \<or> (k', v') \<in> set m"
  using m_get_in [OF gomap_ok_set, of m k v k' v'] m_get_in [of m k' v']
  by (auto simp: m_get_set split: if_splits)

lemma m_del_values: "(k', v') \<in> set (m_del m k) \<Longrightarrow> (k', v') \<in> set m \<and> k' \<noteq> k"
  by (auto simp: AList.delete_eq)

end
