(* ===== verification/OldestScan.thy ===== *)
theory OldestScan
  imports Prelude
begin

text \<open>
  The in-process breakers keep bounded observation maps. When a map is full they scan it for the
  entry touched longest ago and delete it. \<open>oldest_scan\<close> is the contract of such a scan, over the
  range order of the map; what eviction does to the map is proved once from it. The breakers
  interpret the locale on their own scan loops.
\<close>

locale oldest_scan =
  fixes scan :: "('k \<times> 'v) list \<Rightarrow> 'k option"
    and touched :: "'v \<Rightarrow> time"
    and usable :: "'k \<Rightarrow> bool"
  assumes scan_none: "scan xs = None \<Longrightarrow> \<forall>(k, v) \<in> set xs. usable k \<Longrightarrow> xs = []"
    and scan_some: "scan xs = Some k \<Longrightarrow> \<forall>(k, v) \<in> set xs. usable k \<Longrightarrow>
      \<exists>v. (k, v) \<in> set xs \<and> (\<forall>(k', v') \<in> set xs. touched v \<le> touched v')"
begin

lemma scan_total:
  assumes "xs \<noteq> []" and "\<forall>(k, v) \<in> set xs. usable k"
  shows "\<exists>k. scan xs = Some k"
  using assms scan_none by fastforce

lemma evict_length:
  assumes "range_order ord" and "gomap_ok m" and "\<forall>(k, v) \<in> set m. usable k" and "m \<noteq> []"
  shows "\<exists>k v. scan (ord m) = Some k \<and> m_get m k = Some v
    \<and> (\<forall>(k', v') \<in> set m. touched v \<le> touched v')
    \<and> Suc (length (m_del m k)) = length m"
proof -
  have us: "\<forall>(k, v) \<in> set (ord m). usable k"
    using assms by (simp add: range_order_set)
  moreover have "ord m \<noteq> []"
    using assms by (simp add: range_order_nil)
  ultimately obtain k where k: "scan (ord m) = Some k"
    using scan_total by blast
  from scan_some [OF k us] assms(1) obtain v where
    v: "(k, v) \<in> set m" "\<forall>(k', v') \<in> set m. touched v \<le> touched v'"
    by (auto simp: range_order_set)
  with assms(2) have get: "m_get m k = Some v"
    by (simp add: m_get_in)
  with assms(2) have "Suc (length (m_del m k)) = length m"
    by (intro length_m_del_old) simp_all
  with k v get show ?thesis by blast
qed

end

end
