(* ===== verification/ProxyCircuit.thy ===== *)
theory ProxyCircuit
  imports OldestScan
begin

text \<open>
  The proxy stream circuit (\<open>internal/service/openai_proxy_stream_circuit.go\<close>): a bounded,
  proxy-keyed breaker that quarantines a proxy after a threshold of stream disconnects. The
  mutex makes each method one atomic step; a method's nil receiver is \<open>None\<close>.
\<close>

section \<open>State\<close>

record circuitSettings =
  cs_disabled :: bool
  cs_failureThreshold :: int
  cs_failureWindow :: duration
  cs_quarantineTTL :: duration
  cs_collapseInterval :: duration
  cs_maxEntries :: int

record circuitEntry =
  ce_failureCount :: int
  ce_windowStart :: time
  ce_lastFailureAt :: time
  ce_blockedUntil :: time
  ce_lastTouched :: time

record proxyCircuit =
  pc_settings :: circuitSettings
  pc_entries :: "(int, circuitEntry) gomap"

text \<open>The Go zero value of an entry, which a map read of a missing key returns.\<close>

definition zero_entry :: circuitEntry where
  "zero_entry = \<lparr>ce_failureCount = 0, ce_windowStart = 0, ce_lastFailureAt = 0,
    ce_blockedUntil = 0, ce_lastTouched = 0\<rparr>"

definition defaultFailureThreshold :: int where "defaultFailureThreshold = 2"
definition defaultFailureWindow :: duration where "defaultFailureWindow = minute"
definition defaultQuarantineTTL :: duration where "defaultQuarantineTTL = 10 * minute"
definition defaultCircuitMaxEntries :: int where "defaultCircuitMaxEntries = 4096"
definition defaultFailureCollapse :: duration where "defaultFailureCollapse = 3 * second"

text \<open>
  The configuration block \<open>cfg.Gateway.OpenAIProxyStreamCircuit\<close>. \<open>time.Duration(n) * time.Second\<close>
  is a 64-bit product; configured seconds are far below the point where it wraps.
\<close>

record circuitConfig =
  cc_disabled :: bool
  cc_failureThreshold :: int
  cc_windowSeconds :: int
  cc_ttlSeconds :: int

definition resolveCircuitSettings :: "circuitConfig option \<Rightarrow> circuitSettings" where
  "resolveCircuitSettings cfgOpt =
    (let s = \<lparr>cs_disabled = False, cs_failureThreshold = defaultFailureThreshold,
        cs_failureWindow = defaultFailureWindow, cs_quarantineTTL = defaultQuarantineTTL,
        cs_collapseInterval = defaultFailureCollapse, cs_maxEntries = defaultCircuitMaxEntries\<rparr>
     in case cfgOpt of
          None \<Rightarrow> s
        | Some cfg \<Rightarrow>
            s\<lparr>cs_disabled := cc_disabled cfg,
              cs_failureThreshold := (if cc_failureThreshold cfg > 0 then cc_failureThreshold cfg
                else cs_failureThreshold s),
              cs_failureWindow := (if cc_windowSeconds cfg > 0 then cc_windowSeconds cfg * second
                else cs_failureWindow s),
              cs_quarantineTTL := (if cc_ttlSeconds cfg > 0 then cc_ttlSeconds cfg * second
                else cs_quarantineTTL s)\<rparr>)"

definition newProxyCircuit :: "circuitSettings \<Rightarrow> proxyCircuit" where
  "newProxyCircuit s =
    (let s1 = (if cs_failureThreshold s \<le> 0
               then s\<lparr>cs_failureThreshold := defaultFailureThreshold\<rparr> else s);
         s2 = (if cs_failureWindow s1 \<le> 0
               then s1\<lparr>cs_failureWindow := defaultFailureWindow\<rparr> else s1);
         s3 = (if cs_quarantineTTL s2 \<le> 0
               then s2\<lparr>cs_quarantineTTL := defaultQuarantineTTL\<rparr> else s2);
         s4 = (if cs_maxEntries s3 \<le> 0
               then s3\<lparr>cs_maxEntries := defaultCircuitMaxEntries\<rparr> else s3);
         s5 = (if cs_collapseInterval s4 < 0 then s4\<lparr>cs_collapseInterval := 0\<rparr> else s4)
     in \<lparr>pc_settings = s5, pc_entries = []\<rparr>)"

section \<open>Operations\<close>

text \<open>The loop of \<open>ensureCapacityLocked\<close> that looks for the entry touched longest ago.\<close>

fun oldestProxyLoop :: "int \<Rightarrow> time \<Rightarrow> (int \<times> circuitEntry) list \<Rightarrow> int" where
  "oldestProxyLoop oldestID oldest [] = oldestID"
| "oldestProxyLoop oldestID oldest ((proxyID, e) # es) =
    (if oldestID = 0 \<or> t_before (ce_lastTouched e) oldest
     then oldestProxyLoop proxyID (ce_lastTouched e) es
     else oldestProxyLoop oldestID oldest es)"

definition proxyEntryStale :: "circuitSettings \<Rightarrow> time \<Rightarrow> circuitEntry \<Rightarrow> bool" where
  "proxyEntryStale s now e \<longleftrightarrow>
    is_zero (ce_blockedUntil e) \<and> t_sub now (ce_lastTouched e) > cs_failureWindow s
    \<or> \<not> is_zero (ce_blockedUntil e) \<and> \<not> t_before now (ce_blockedUntil e)"

definition ensureCapacityLocked ::
  "((int \<times> circuitEntry) list \<Rightarrow> (int \<times> circuitEntry) list) \<Rightarrow> proxyCircuit \<Rightarrow> time \<Rightarrow> proxyCircuit"
where
  "ensureCapacityLocked ord c now =
    (if m_len (pc_entries c) < cs_maxEntries (pc_settings c) then c
     else
       let es = filter (\<lambda>(k, e). \<not> proxyEntryStale (pc_settings c) now e) (pc_entries c);
           c' = c\<lparr>pc_entries := es\<rparr>
       in if m_len es < cs_maxEntries (pc_settings c) then c'
          else let k = oldestProxyLoop 0 0 (ord es)
               in if k > 0 then c'\<lparr>pc_entries := m_del es k\<rparr> else c')"

definition recordFailureLocked ::
  "((int \<times> circuitEntry) list \<Rightarrow> (int \<times> circuitEntry) list) \<Rightarrow> proxyCircuit \<Rightarrow> int \<Rightarrow> time \<Rightarrow>
   proxyCircuit \<times> bool \<times> time"
where
  "recordFailureLocked ord c proxyID now =
    (let s = pc_settings c;
         found = m_get (pc_entries c) proxyID;
         exists = (found \<noteq> None);
         e0 = (case found of None \<Rightarrow> zero_entry | Some e \<Rightarrow> e)
     in if exists \<and> t_before now (ce_blockedUntil e0)
        then (c\<lparr>pc_entries := m_set (pc_entries c) proxyID (e0\<lparr>ce_lastTouched := now\<rparr>)\<rparr>,
              False, ce_blockedUntil e0)
        else
          let c1 = (if exists then c else ensureCapacityLocked ord c now);
              e1 = (if is_zero (ce_windowStart e0) \<or> t_before now (ce_windowStart e0)
                       \<or> t_sub now (ce_windowStart e0) > cs_failureWindow s
                    then e0\<lparr>ce_failureCount := 0, ce_windowStart := now, ce_blockedUntil := 0\<rparr>
                    else e0)
          in if cs_collapseInterval s > 0 \<and> \<not> is_zero (ce_lastFailureAt e1)
                \<and> t_sub now (ce_lastFailureAt e1) \<ge> 0
                \<and> t_sub now (ce_lastFailureAt e1) < cs_collapseInterval s
             then (c1\<lparr>pc_entries := m_set (pc_entries c1) proxyID (e1\<lparr>ce_lastTouched := now\<rparr>)\<rparr>,
                   False, 0)
             else
               let e2 = e1\<lparr>ce_failureCount := ce_failureCount e1 + 1, ce_lastFailureAt := now,
                            ce_lastTouched := now\<rparr>;
                   tripped = (ce_failureCount e2 \<ge> cs_failureThreshold s);
                   e3 = (if tripped then e2\<lparr>ce_blockedUntil := t_add now (cs_quarantineTTL s)\<rparr> else e2)
               in (c1\<lparr>pc_entries := m_set (pc_entries c1) proxyID e3\<rparr>, tripped, ce_blockedUntil e3))"

fun circuit_recordFailure ::
  "((int \<times> circuitEntry) list \<Rightarrow> (int \<times> circuitEntry) list) \<Rightarrow> proxyCircuit option \<Rightarrow> int \<Rightarrow> time \<Rightarrow>
   proxyCircuit option \<times> bool \<times> time"
where
  "circuit_recordFailure ord None proxyID now = (None, False, 0)"
| "circuit_recordFailure ord (Some c) proxyID now =
    (if cs_disabled (pc_settings c) \<or> proxyID \<le> 0 then (Some c, False, 0)
     else (case recordFailureLocked ord c proxyID now of (c', r) \<Rightarrow> (Some c', r)))"

fun circuit_recordSuccess :: "proxyCircuit option \<Rightarrow> int \<Rightarrow> proxyCircuit option \<times> bool" where
  "circuit_recordSuccess None proxyID = (None, False)"
| "circuit_recordSuccess (Some c) proxyID =
    (if proxyID \<le> 0 then (Some c, False)
     else if m_get (pc_entries c) proxyID = None then (Some c, False)
     else (Some (c\<lparr>pc_entries := m_del (pc_entries c) proxyID\<rparr>), True))"

fun circuit_isBlocked :: "proxyCircuit option \<Rightarrow> int \<Rightarrow> time \<Rightarrow> proxyCircuit option \<times> bool" where
  "circuit_isBlocked None proxyID now = (None, False)"
| "circuit_isBlocked (Some c) proxyID now =
    (if cs_disabled (pc_settings c) \<or> proxyID \<le> 0 then (Some c, False)
     else (case m_get (pc_entries c) proxyID of
             None \<Rightarrow> (Some c, False)
           | Some e \<Rightarrow>
               if is_zero (ce_blockedUntil e) then (Some c, False)
               else if \<not> t_before now (ce_blockedUntil e)
               then (Some (c\<lparr>pc_entries := m_del (pc_entries c) proxyID\<rparr>), False)
               else (Some c, True)))"

fun circuit_activeBlockCount :: "proxyCircuit option \<Rightarrow> time \<Rightarrow> int" where
  "circuit_activeBlockCount None now = 0"
| "circuit_activeBlockCount (Some c) now =
    (if cs_disabled (pc_settings c) then 0
     else int (length (filter (\<lambda>(k, e). \<not> is_zero (ce_blockedUntil e)
                                  \<and> t_before now (ce_blockedUntil e)) (pc_entries c))))"


section \<open>Gateway entry points\<close>

text \<open>
  The fields of an \<open>Account\<close> the circuit reads, the classes of stream errors it distinguishes
  with \<open>errors.Is\<close>, and the service methods that feed it. Logging is left out.
\<close>

record circuitAccount =
  ca_platform :: string
  ca_proxyID :: "int option"

datatype streamErr = CtxCanceled | CtxDeadlineExceeded | OtherStreamErr string

definition PlatformOpenAI :: string where "PlatformOpenAI = ''openai''"

fun circuitProxyID :: "circuitAccount option \<Rightarrow> int \<times> bool" where
  "circuitProxyID None = (0, False)"
| "circuitProxyID (Some a) =
    (if ca_platform a \<noteq> PlatformOpenAI then (0, False)
     else (case ca_proxyID a of
             None \<Rightarrow> (0, False)
           | Some p \<Rightarrow> if p \<le> 0 then (0, False) else (p, True)))"

definition recordProxyStreamDisconnect ::
  "((int \<times> circuitEntry) list \<Rightarrow> (int \<times> circuitEntry) list) \<Rightarrow> proxyCircuit option \<Rightarrow>
   circuitAccount option \<Rightarrow> streamErr option \<Rightarrow> time \<Rightarrow> proxyCircuit option"
where
  "recordProxyStreamDisconnect ord c acc err now =
    (case circuitProxyID acc of (proxyID, ok) \<Rightarrow>
      if \<not> ok \<or> err = None \<or> err = Some CtxCanceled \<or> err = Some CtxDeadlineExceeded then c
      else fst (circuit_recordFailure ord c proxyID now))"

definition clearProxyStreamDisconnect ::
  "proxyCircuit option \<Rightarrow> circuitAccount option \<Rightarrow> proxyCircuit option" where
  "clearProxyStreamDisconnect c acc =
    (case circuitProxyID acc of (proxyID, ok) \<Rightarrow>
      if \<not> ok then c else fst (circuit_recordSuccess c proxyID))"

definition isProxyStreamQuarantined ::
  "proxyCircuit option \<Rightarrow> bool \<Rightarrow> circuitAccount option \<Rightarrow> time \<Rightarrow> proxyCircuit option \<times> bool"
where
  "isProxyStreamQuarantined c bypassed acc now =
    (case circuitProxyID acc of (proxyID, ok) \<Rightarrow>
      if \<not> ok then (c, False)
      else if bypassed then (c, False)
      else circuit_isBlocked c proxyID now)"

section \<open>Eviction\<close>

lemma oldestProxyLoop_min:
  assumes "\<forall>(k, e) \<in> set es. k > 0" and "i > 0"
  shows "(oldestProxyLoop i t es = i \<and> (\<forall>(k, e) \<in> set es. t \<le> ce_lastTouched e)) \<or>
      (\<exists>e. (oldestProxyLoop i t es, e) \<in> set es \<and> ce_lastTouched e \<le> t
         \<and> (\<forall>(k', e') \<in> set es. ce_lastTouched e \<le> ce_lastTouched e'))"
  using assms
proof (induction es arbitrary: i t)
  case Nil
  then show ?case by simp
next
  case (Cons a es)
  obtain p e where a: "a = (p, e)" by (cases a)
  have pos: "\<forall>(k, e) \<in> set es. k > 0" "p > 0" and i: "i \<noteq> 0"
    using Cons.prems a by auto
  show ?case
  proof (cases "t_before (ce_lastTouched e) t")
    case True
    have "oldestProxyLoop i t (a # es) = oldestProxyLoop p (ce_lastTouched e) es"
      using True a by simp
    with Cons.IH [OF pos, of "ce_lastTouched e"] True a show ?thesis
      by (auto intro: order_trans less_imp_le)
  next
    case False
    have "oldestProxyLoop i t (a # es) = oldestProxyLoop i t es"
      using False a i by simp
    with Cons.IH [OF pos(1) Cons.prems(2), of t] False a show ?thesis
      by (auto intro: order_trans)
  qed
qed

lemma oldestProxyLoop_start:
  assumes "\<forall>(k, e) \<in> set es. k > 0" and "es \<noteq> []"
  shows "\<exists>e. (oldestProxyLoop 0 0 es, e) \<in> set es
    \<and> (\<forall>(k', e') \<in> set es. ce_lastTouched e \<le> ce_lastTouched e')"
proof (cases es)
  case Nil
  with assms show ?thesis by simp
next
  case (Cons a es')
  obtain p e where a: "a = (p, e)" by (cases a)
  have "(oldestProxyLoop p (ce_lastTouched e) es' = p
        \<and> (\<forall>(k, e') \<in> set es'. ce_lastTouched e \<le> ce_lastTouched e')) \<or>
      (\<exists>e1. (oldestProxyLoop p (ce_lastTouched e) es', e1) \<in> set es' \<and> ce_lastTouched e1 \<le> ce_lastTouched e
         \<and> (\<forall>(k', e') \<in> set es'. ce_lastTouched e1 \<le> ce_lastTouched e'))"
    using assms Cons a by (intro oldestProxyLoop_min) auto
  then show ?thesis
    using Cons a by auto
qed

definition proxyScan :: "(int \<times> circuitEntry) list \<Rightarrow> int option" where
  "proxyScan es = (let k = oldestProxyLoop 0 0 es in if k > 0 then Some k else None)"

interpretation proxy_evict: oldest_scan proxyScan ce_lastTouched "\<lambda>k. k > 0"
proof unfold_locales
  fix xs :: "(int \<times> circuitEntry) list"
  assume none: "proxyScan xs = None" and us: "\<forall>(k, v) \<in> set xs. k > 0"
  show "xs = []"
  proof (rule ccontr)
    assume "xs \<noteq> []"
    with oldestProxyLoop_start [OF us] us have "oldestProxyLoop 0 0 xs > 0" by auto
    with none show False by (simp add: proxyScan_def Let_def)
  qed
next
  fix xs :: "(int \<times> circuitEntry) list" and k
  assume some: "proxyScan xs = Some k" and us: "\<forall>(k, v) \<in> set xs. k > 0"
  from some have k: "k = oldestProxyLoop 0 0 xs" "k > 0"
    by (auto simp: proxyScan_def Let_def split: if_splits)
  from k have "xs \<noteq> []" by auto
  with oldestProxyLoop_start [OF us] k show
    "\<exists>v. (k, v) \<in> set xs \<and> (\<forall>(k', v') \<in> set xs. ce_lastTouched v \<le> ce_lastTouched v')" by auto
qed


section \<open>Invariant\<close>

definition circuit_settings_ok :: "circuitSettings \<Rightarrow> bool" where
  "circuit_settings_ok s \<longleftrightarrow> 0 < cs_failureThreshold s \<and> 0 < cs_failureWindow s
    \<and> 0 < cs_quarantineTTL s \<and> 0 < cs_maxEntries s
    \<and> 0 \<le> cs_collapseInterval s \<and> cs_collapseInterval s \<le> max_duration"

text \<open>
  An entry is quarantined exactly when its failure count has reached the threshold, and then
  until one TTL after the failure that tripped it.
\<close>

definition circuit_entry_ok :: "circuitSettings \<Rightarrow> circuitEntry \<Rightarrow> bool" where
  "circuit_entry_ok s e \<longleftrightarrow> 0 < ce_windowStart e \<and> 0 < ce_lastFailureAt e \<and> 0 \<le> ce_failureCount e
    \<and> ce_blockedUntil e = (if ce_failureCount e \<ge> cs_failureThreshold s
        then ce_lastFailureAt e + cs_quarantineTTL s else 0)"

definition circuit_ok :: "proxyCircuit \<Rightarrow> bool" where
  "circuit_ok c \<longleftrightarrow> circuit_settings_ok (pc_settings c) \<and> gomap_ok (pc_entries c)
    \<and> m_len (pc_entries c) \<le> cs_maxEntries (pc_settings c)
    \<and> (\<forall>(k, e) \<in> set (pc_entries c). 0 < k \<and> circuit_entry_ok (pc_settings c) e)"

lemma circuit_okD:
  assumes "circuit_ok c"
  shows "circuit_settings_ok (pc_settings c)" "gomap_ok (pc_entries c)"
    "m_len (pc_entries c) \<le> cs_maxEntries (pc_settings c)"
    "(k, e) \<in> set (pc_entries c) \<Longrightarrow> 0 < k"
    "(k, e) \<in> set (pc_entries c) \<Longrightarrow> circuit_entry_ok (pc_settings c) e"
  using assms by (auto simp: circuit_ok_def)

lemma circuit_ok_get: "circuit_ok c \<Longrightarrow> m_get (pc_entries c) k = Some e \<Longrightarrow> circuit_entry_ok (pc_settings c) e"
  by (auto simp: m_get_in circuit_ok_def)

lemma newProxyCircuit_ok:
  "cs_collapseInterval s \<le> max_duration \<Longrightarrow> circuit_ok (newProxyCircuit s)"
  by (auto simp: newProxyCircuit_def Let_def circuit_ok_def circuit_settings_ok_def
      defaultFailureThreshold_def defaultFailureWindow_def defaultQuarantineTTL_def
      defaultCircuitMaxEntries_def duration_defs)

lemma circuit_ok_del: "circuit_ok c \<Longrightarrow> circuit_ok (c\<lparr>pc_entries := m_del (pc_entries c) k\<rparr>)"
  using length_m_del_le [of k "pc_entries c"]
  by (fastforce simp: circuit_ok_def gomap_ok_del dest: m_del_values)

lemma circuit_ok_filter: "circuit_ok c \<Longrightarrow> circuit_ok (c\<lparr>pc_entries := filter P (pc_entries c)\<rparr>)"
  by (auto simp: circuit_ok_def gomap_ok_filter
      intro: order_trans [OF iffD2 [OF of_nat_le_iff length_filter_le]])

lemma circuit_ok_put:
  assumes "circuit_ok c" and "0 < k" and "circuit_entry_ok (pc_settings c) e"
    and "m_get (pc_entries c) k \<noteq> None \<or> m_len (pc_entries c) < cs_maxEntries (pc_settings c)"
  shows "circuit_ok (c\<lparr>pc_entries := m_set (pc_entries c) k e\<rparr>)"
proof -
  have "m_len (m_set (pc_entries c) k e) \<le> cs_maxEntries (pc_settings c)"
    using assms(4) circuit_okD(3) [OF assms(1)] length_m_set_le [of k e "pc_entries c"]
      length_m_set_old [of "pc_entries c" k e]
    by (cases "m_get (pc_entries c) k = None") auto
  with assms show ?thesis
    by (fastforce simp: circuit_ok_def gomap_ok_set dest: m_set_values)
qed

text \<open>
  What making room does: nothing below capacity; otherwise every stale entry goes, and only when
  none was stale one entry that nobody touched more recently.
\<close>

lemma ensureCapacity_cases:
  fixes now :: time
  assumes ok: "circuit_ok c" and ord: "range_order ord"
    and full: "m_len (pc_entries c) \<ge> cs_maxEntries (pc_settings c)"
  defines "es \<equiv> filter (\<lambda>(k, e). \<not> proxyEntryStale (pc_settings c) now e) (pc_entries c)"
  shows "(m_len es < cs_maxEntries (pc_settings c)
           \<and> ensureCapacityLocked ord c now = c\<lparr>pc_entries := es\<rparr>)
    \<or> (\<exists>k e. es = pc_entries c \<and> m_get es k = Some e
          \<and> (\<forall>(k', e') \<in> set es. ce_lastTouched e \<le> ce_lastTouched e')
          \<and> ensureCapacityLocked ord c now = c\<lparr>pc_entries := m_del es k\<rparr>
          \<and> Suc (length (m_del es k)) = length es)"
proof (cases "m_len es < cs_maxEntries (pc_settings c)")
  case True
  with full show ?thesis by (simp add: ensureCapacityLocked_def es_def Let_def)
next
  case False
  with circuit_okD(3) [OF ok] have "\<not> length es < length (pc_entries c)"
    by simp
  then have es: "es = pc_entries c"
    unfolding es_def using length_filter_less [of _ "pc_entries c"]
    by (metis (no_types, lifting) filter_id_conv)
  have "gomap_ok es" "\<forall>(k, v) \<in> set es. 0 < k" "es \<noteq> []"
    using es circuit_okD [OF ok] full by (auto simp: circuit_settings_ok_def)
  then obtain k e where k: "proxyScan (ord es) = Some k" "m_get es k = Some e"
    "\<forall>(k', e') \<in> set es. ce_lastTouched e \<le> ce_lastTouched e'" "Suc (length (m_del es k)) = length es"
    using proxy_evict.evict_length [OF ord, of es] by blast
  from k(1) have "oldestProxyLoop 0 0 (ord es) = k" "0 < k"
    by (auto simp: proxyScan_def Let_def split: if_splits)
  with False full have "ensureCapacityLocked ord c now = c\<lparr>pc_entries := m_del es k\<rparr>"
    by (simp add: ensureCapacityLocked_def es_def [symmetric])
  with k es show ?thesis by blast
qed

lemma ensureCapacity_settings [simp]: "pc_settings (ensureCapacityLocked ord c now) = pc_settings c"
  by (simp add: ensureCapacityLocked_def Let_def)

lemma ensureCapacity_ok:
  assumes "circuit_ok c" and "range_order ord"
  shows "circuit_ok (ensureCapacityLocked ord c now)
    \<and> m_len (pc_entries (ensureCapacityLocked ord c now)) < cs_maxEntries (pc_settings c)"
proof (cases "m_len (pc_entries c) < cs_maxEntries (pc_settings c)")
  case True
  with assms show ?thesis by (simp add: ensureCapacityLocked_def)
next
  case False
  then have "m_len (pc_entries c) = cs_maxEntries (pc_settings c)"
    using circuit_okD(3) [OF assms(1)] by simp
  with ensureCapacity_cases [OF assms, of now] False show ?thesis
    using circuit_ok_del [OF assms(1)] circuit_ok_filter [OF assms(1)] by auto
qed


lemma recordFailureLocked_settings [simp]:
  "pc_settings (fst (recordFailureLocked ord c pid now)) = pc_settings c"
  by (simp add: recordFailureLocked_def Let_def)

lemma recordFailureLocked_ok:
  assumes ok: "circuit_ok c" and ord: "range_order ord" and pid: "0 < pid" and now: "0 < now"
  shows "circuit_ok (fst (recordFailureLocked ord c pid now))"
proof (cases "m_get (pc_entries c) pid")
  case None
  let ?c1 = "ensureCapacityLocked ord c now"
  note room = ensureCapacity_ok [OF ok ord, of now]
  have thr: "0 < cs_failureThreshold (pc_settings c)"
    using circuit_okD(1) [OF ok] by (simp add: circuit_settings_ok_def)
  have put: "circuit_ok (?c1\<lparr>pc_entries := m_set (pc_entries ?c1) pid e\<rparr>)"
    if "circuit_entry_ok (pc_settings c) e" for e
    using that room pid by (intro circuit_ok_put) auto
  show ?thesis
    using None now thr
    by (auto simp: recordFailureLocked_def Let_def zero_entry_def t_add_def circuit_entry_ok_def
        intro!: put)
next
  case (Some e)
  note e = circuit_ok_get [OF ok Some]
  have sok: "0 < cs_failureThreshold (pc_settings c)" "0 < cs_quarantineTTL (pc_settings c)"
    using circuit_okD(1) [OF ok] by (simp_all add: circuit_settings_ok_def)
  have put: "circuit_ok (c\<lparr>pc_entries := m_set (pc_entries c) pid e'\<rparr>)"
    if "circuit_entry_ok (pc_settings c) e'" for e'
    using that ok pid Some by (intro circuit_ok_put) auto
  show ?thesis
    using Some e now sok
    by (auto simp: recordFailureLocked_def Let_def t_add_def circuit_entry_ok_def split: if_splits
        intro!: put)
qed

text \<open>One call on the circuit, and the circuits reachable from a new one.\<close>

inductive circuit_step :: "proxyCircuit \<Rightarrow> proxyCircuit \<Rightarrow> bool" where
  failure: "range_order ord \<Longrightarrow> 0 < now \<Longrightarrow>
    circuit_recordFailure ord (Some c) pid now = (Some c', r) \<Longrightarrow> circuit_step c c'"
| success: "circuit_recordSuccess (Some c) pid = (Some c', b) \<Longrightarrow> circuit_step c c'"
| query: "circuit_isBlocked (Some c) pid now = (Some c', b) \<Longrightarrow> circuit_step c c'"

inductive circuit_reachable :: "circuitSettings \<Rightarrow> proxyCircuit \<Rightarrow> bool" for s where
  new: "circuit_reachable s (newProxyCircuit s)"
| step: "circuit_reachable s c \<Longrightarrow> circuit_step c c' \<Longrightarrow> circuit_reachable s c'"

lemma circuit_step_ok: "circuit_step c c' \<Longrightarrow> circuit_ok c \<Longrightarrow> circuit_ok c'"
proof (induction rule: circuit_step.induct)
  case (failure ord now c pid c' r)
  then show ?case
    using recordFailureLocked_ok [of c ord pid now]
    by (auto split: if_splits prod.splits)
next
  case (success c pid c' b)
  then show ?case by (auto split: if_splits intro: circuit_ok_del)
next
  case (query c pid now c' b)
  then show ?case by (auto split: if_splits option.splits intro: circuit_ok_del)
qed

lemma circuit_reachable_ok:
  "circuit_reachable s c \<Longrightarrow> cs_collapseInterval s \<le> max_duration \<Longrightarrow> circuit_ok c"
  by (induction rule: circuit_reachable.induct) (auto intro: newProxyCircuit_ok circuit_step_ok)


section \<open>Tripping\<close>

text \<open>Disconnects of one proxy recorded at the given instants, with the reported trips.\<close>

fun circuit_failures ::
  "((int \<times> circuitEntry) list \<Rightarrow> (int \<times> circuitEntry) list) \<Rightarrow> proxyCircuit option \<Rightarrow> int \<Rightarrow> time list \<Rightarrow>
   proxyCircuit option \<times> bool list"
where
  "circuit_failures ord c pid [] = (c, [])"
| "circuit_failures ord c pid (t # ts) =
    (case circuit_recordFailure ord c pid t of (c', tripped, until) \<Rightarrow>
      case circuit_failures ord c' pid ts of (c'', bs) \<Rightarrow> (c'', tripped # bs))"

text \<open>Instants that each lie at least \<open>g\<close> after the one before, the first after \<open>l\<close>.\<close>

fun spaced :: "duration \<Rightarrow> time \<Rightarrow> time list \<Rightarrow> bool" where
  "spaced g l [] = True"
| "spaced g l (t # ts) = (l + g \<le> t \<and> spaced g t ts)"

lemma spaced_last: "spaced g t ts \<Longrightarrow> 0 \<le> g \<Longrightarrow> t \<le> last (t # ts)"
proof (induction ts arbitrary: t)
  case Nil
  then show ?case by simp
next
  case (Cons u us)
  then have "u \<le> last (u # us)" by simp
  with Cons.prems show ?case by simp
qed

lemma recordFailureLocked_first:
  assumes "m_get (pc_entries c) pid = None" and "0 < now" and "circuit_ok c"
  shows "recordFailureLocked ord c pid now =
    (let c1 = ensureCapacityLocked ord c now;
         tripped = (1 \<ge> cs_failureThreshold (pc_settings c));
         until = (if tripped then now + cs_quarantineTTL (pc_settings c) else 0)
     in (c1\<lparr>pc_entries := m_set (pc_entries c1) pid
           \<lparr>ce_failureCount = 1, ce_windowStart = now, ce_lastFailureAt = now,
            ce_blockedUntil = until, ce_lastTouched = now\<rparr>\<rparr>, tripped, until))"
  using assms by (simp add: recordFailureLocked_def Let_def zero_entry_def t_add_def)

lemma recordFailureLocked_count:
  assumes "m_get (pc_entries c) pid = Some e" and "circuit_ok c"
    and "ce_blockedUntil e = 0" and "ce_windowStart e \<le> now"
    and "now \<le> ce_windowStart e + cs_failureWindow (pc_settings c)"
    and "ce_lastFailureAt e + cs_collapseInterval (pc_settings c) \<le> now"
  shows "recordFailureLocked ord c pid now =
    (let tripped = (ce_failureCount e + 1 \<ge> cs_failureThreshold (pc_settings c));
         until = (if tripped then now + cs_quarantineTTL (pc_settings c) else 0)
     in (c\<lparr>pc_entries := m_set (pc_entries c) pid
           (e\<lparr>ce_failureCount := ce_failureCount e + 1, ce_lastFailureAt := now,
              ce_blockedUntil := until, ce_lastTouched := now\<rparr>)\<rparr>, tripped, until))"
proof -
  have sok: "0 \<le> cs_collapseInterval (pc_settings c)" "cs_collapseInterval (pc_settings c) \<le> max_duration"
    using circuit_okD(1) [OF assms(2)] by (simp_all add: circuit_settings_ok_def)
  have e: "0 < ce_windowStart e"
    using circuit_ok_get [OF assms(2,1)] by (simp add: circuit_entry_ok_def)
  have w: "\<not> t_sub now (ce_windowStart e) > cs_failureWindow (pc_settings c)"
    using t_sub_le [of "ce_windowStart e" now] assms(4,5) by linarith
  have g: "cs_collapseInterval (pc_settings c) \<le> t_sub now (ce_lastFailureAt e)"
    using assms(6) sok by (intro t_sub_ge) auto
  show ?thesis
    using assms e w g by (cases e) (simp add: recordFailureLocked_def Let_def t_add_def)
qed

lemma recordFailureLocked_collapse:
  assumes "m_get (pc_entries c) pid = Some e" and "circuit_ok c"
    and "ce_blockedUntil e = 0" and "ce_windowStart e \<le> now"
    and "now \<le> ce_windowStart e + cs_failureWindow (pc_settings c)"
    and "ce_lastFailureAt e \<le> now"
    and "now < ce_lastFailureAt e + cs_collapseInterval (pc_settings c)"
  shows "recordFailureLocked ord c pid now =
    (c\<lparr>pc_entries := m_set (pc_entries c) pid (e\<lparr>ce_lastTouched := now\<rparr>)\<rparr>, False, 0)"
proof -
  have e: "0 < ce_windowStart e" "0 < ce_lastFailureAt e"
    using circuit_ok_get [OF assms(2,1)] by (simp_all add: circuit_entry_ok_def)
  have "\<not> t_sub now (ce_windowStart e) > cs_failureWindow (pc_settings c)"
    using t_sub_le [of "ce_windowStart e" now] assms(4,5) by linarith
  moreover have "t_sub now (ce_lastFailureAt e) < cs_collapseInterval (pc_settings c)"
    using t_sub_le [of "ce_lastFailureAt e" now] assms(6,7) by linarith
  ultimately show ?thesis
    using assms e by (simp add: recordFailureLocked_def Let_def t_sub_nonneg)
qed

lemma recordFailure_step_ok:
  assumes "circuit_ok c" and "range_order ord" and "0 < pid" and "0 < now"
    and "recordFailureLocked ord c pid now = (c', r)"
  shows "circuit_ok c' \<and> pc_settings c' = pc_settings c"
  using recordFailureLocked_ok [OF assms(1-4)] recordFailureLocked_settings [of ord c pid now] assms(5)
  by simp

lemma circuit_failures_counting:
  assumes "circuit_ok c" and "range_order ord" and "0 < pid" and "\<not> cs_disabled (pc_settings c)"
    and "m_get (pc_entries c) pid = Some e" and "ce_blockedUntil e = 0"
    and "ce_windowStart e \<le> ce_lastFailureAt e"
    and "spaced (cs_collapseInterval (pc_settings c)) (ce_lastFailureAt e) ts"
    and "\<forall>t \<in> set ts. t \<le> ce_windowStart e + cs_failureWindow (pc_settings c)"
    and "ts \<noteq> []" and "ce_failureCount e + int (length ts) = cs_failureThreshold (pc_settings c)"
  shows "\<exists>c'. circuit_failures ord (Some c) pid ts = (Some c', replicate (length ts - 1) False @ [True])
    \<and> pc_settings c' = pc_settings c
    \<and> (\<exists>e'. m_get (pc_entries c') pid = Some e'
        \<and> ce_blockedUntil e' = last ts + cs_quarantineTTL (pc_settings c))"
  using assms
proof (induction ts arbitrary: c e)
  case Nil
  then show ?case by simp
next
  case (Cons t ts)
  note ok = \<open>circuit_ok c\<close>
  have sok: "0 \<le> cs_collapseInterval (pc_settings c)"
    using circuit_okD(1) [OF ok] by (simp add: circuit_settings_ok_def)
  have e: "0 < ce_windowStart e"
    using circuit_ok_get [OF ok] Cons.prems by (auto simp: circuit_entry_ok_def)
  have t: "ce_lastFailureAt e + cs_collapseInterval (pc_settings c) \<le> t"
    "ce_windowStart e \<le> t" "0 < t" "t \<le> ce_windowStart e + cs_failureWindow (pc_settings c)"
    using Cons.prems sok e by auto
  let ?e' = "e\<lparr>ce_failureCount := ce_failureCount e + 1, ce_lastFailureAt := t,
              ce_blockedUntil := (if ts = [] then t + cs_quarantineTTL (pc_settings c) else 0),
              ce_lastTouched := t\<rparr>"
  let ?c' = "c\<lparr>pc_entries := m_set (pc_entries c) pid ?e'\<rparr>"
  have trip: "ce_failureCount e + 1 \<ge> cs_failureThreshold (pc_settings c) \<longleftrightarrow> ts = []"
    using Cons.prems(11) by (cases ts) auto
  have locked: "recordFailureLocked ord c pid t =
      (?c', ts = [], if ts = [] then t + cs_quarantineTTL (pc_settings c) else 0)"
    using recordFailureLocked_count [of c pid e t ord] Cons.prems t trip
    by (simp add: Let_def)
  then have ok': "circuit_ok ?c'"
    using recordFailure_step_ok [OF ok Cons.prems(2,3) t(3)] by blast
  have step: "circuit_recordFailure ord (Some c) pid t =
      (Some ?c', ts = [], if ts = [] then t + cs_quarantineTTL (pc_settings c) else 0)"
    using locked Cons.prems by simp
  show ?case
  proof (cases "ts = []")
    case True
    with step show ?thesis by (auto simp: m_get_set)
  next
    case False
    have "\<exists>c''. circuit_failures ord (Some ?c') pid ts = (Some c'', replicate (length ts - 1) False @ [True])
        \<and> pc_settings c'' = pc_settings ?c'
        \<and> (\<exists>e'. m_get (pc_entries c'') pid = Some e'
            \<and> ce_blockedUntil e' = last ts + cs_quarantineTTL (pc_settings ?c'))"
      using Cons.prems False t by (intro Cons.IH [OF ok', of ?e']) (simp_all add: m_get_set)
    with step False show ?thesis
      by (cases ts) auto
  qed
qed


lemma circuit_failures_first:
  assumes ok: "circuit_ok c" and ord: "range_order ord" and pid: "0 < pid"
    and en: "\<not> cs_disabled (pc_settings c)" and new: "m_get (pc_entries c) pid = None" and t: "0 < t"
  defines "hit \<equiv> (1 \<ge> cs_failureThreshold (pc_settings c))"
  obtains c' where "circuit_recordFailure ord (Some c) pid t =
        (Some c', hit, if hit then t + cs_quarantineTTL (pc_settings c) else 0)"
    and "circuit_ok c'" and "pc_settings c' = pc_settings c"
    and "m_get (pc_entries c') pid = Some \<lparr>ce_failureCount = 1, ce_windowStart = t, ce_lastFailureAt = t,
          ce_blockedUntil = (if hit then t + cs_quarantineTTL (pc_settings c) else 0), ce_lastTouched = t\<rparr>"
proof -
  obtain c' where c': "recordFailureLocked ord c pid t =
        (c', hit, if hit then t + cs_quarantineTTL (pc_settings c) else 0)"
    "m_get (pc_entries c') pid = Some \<lparr>ce_failureCount = 1, ce_windowStart = t, ce_lastFailureAt = t,
          ce_blockedUntil = (if hit then t + cs_quarantineTTL (pc_settings c) else 0), ce_lastTouched = t\<rparr>"
    using recordFailureLocked_first [OF new t ok, of ord] by (auto simp: Let_def hit_def m_get_set)
  moreover have "circuit_ok c'" "pc_settings c' = pc_settings c"
    using recordFailure_step_ok [OF ok ord pid t c'(1)] by simp_all
  moreover have "circuit_recordFailure ord (Some c) pid t =
        (Some c', hit, if hit then t + cs_quarantineTTL (pc_settings c) else 0)"
    using c'(1) en pid by simp
  ultimately show thesis using that by blast
qed

lemma circuit_failures_trip:
  assumes ok: "circuit_ok c" and ord: "range_order ord" and pid: "0 < pid"
    and en: "\<not> cs_disabled (pc_settings c)" and new: "m_get (pc_entries c) pid = None" and t: "0 < t"
    and sp: "spaced (cs_collapseInterval (pc_settings c)) t ts"
    and win: "\<forall>u \<in> set ts. u \<le> t + cs_failureWindow (pc_settings c)"
    and len: "1 + int (length ts) = cs_failureThreshold (pc_settings c)"
  shows "\<exists>c'. circuit_failures ord (Some c) pid (t # ts) = (Some c', replicate (length ts) False @ [True])
    \<and> pc_settings c' = pc_settings c
    \<and> (\<exists>e'. m_get (pc_entries c') pid = Some e'
        \<and> ce_blockedUntil e' = last (t # ts) + cs_quarantineTTL (pc_settings c))"
proof -
  obtain c1 where c1: "circuit_recordFailure ord (Some c) pid t =
        (Some c1, ts = [], if ts = [] then t + cs_quarantineTTL (pc_settings c) else 0)"
    "circuit_ok c1" "pc_settings c1 = pc_settings c"
    "m_get (pc_entries c1) pid = Some \<lparr>ce_failureCount = 1, ce_windowStart = t, ce_lastFailureAt = t,
        ce_blockedUntil = (if ts = [] then t + cs_quarantineTTL (pc_settings c) else 0), ce_lastTouched = t\<rparr>"
    using len by (rule_tac circuit_failures_first [OF ok ord pid en new t]) (cases ts; simp)
  show ?thesis
  proof (cases "ts = []")
    case True
    with c1 show ?thesis by simp
  next
    case False
    then have n: "Suc (length ts - 1) = length ts" by (cases ts) auto
    have "\<exists>c'. circuit_failures ord (Some c1) pid ts = (Some c', replicate (length ts - 1) False @ [True])
      \<and> pc_settings c' = pc_settings c1
      \<and> (\<exists>e'. m_get (pc_entries c') pid = Some e'
          \<and> ce_blockedUntil e' = last ts + cs_quarantineTTL (pc_settings c1))"
      using c1 False sp win len en
      by (intro circuit_failures_counting [OF c1(2) ord pid _ c1(4)]) simp_all
    with c1(1,3) False n show ?thesis
      by (auto simp: replicate_Suc [symmetric] simp del: replicate_Suc)
  qed
qed

lemma circuit_failures_burst:
  assumes "circuit_ok c" and "range_order ord" and "0 < pid" and "\<not> cs_disabled (pc_settings c)"
    and "m_get (pc_entries c) pid = Some e" and "ce_blockedUntil e = 0"
    and "ce_windowStart e = ce_lastFailureAt e"
    and "\<forall>u \<in> set ts. ce_lastFailureAt e \<le> u
      \<and> u < ce_lastFailureAt e + cs_collapseInterval (pc_settings c)
      \<and> u \<le> ce_lastFailureAt e + cs_failureWindow (pc_settings c)"
  shows "\<exists>c' e'. circuit_failures ord (Some c) pid ts = (Some c', replicate (length ts) False)
    \<and> m_get (pc_entries c') pid = Some e' \<and> ce_failureCount e' = ce_failureCount e
    \<and> ce_blockedUntil e' = 0"
  using assms
proof (induction ts arbitrary: c e)
  case Nil
  then show ?case by simp
next
  case (Cons t ts)
  have "0 < ce_lastFailureAt e"
    using circuit_ok_get [OF Cons.prems(1,5)] by (simp add: circuit_entry_ok_def)
  then have t: "0 < t" using Cons.prems(8) by auto
  let ?c' = "c\<lparr>pc_entries := m_set (pc_entries c) pid (e\<lparr>ce_lastTouched := t\<rparr>)\<rparr>"
  have locked: "recordFailureLocked ord c pid t = (?c', False, 0)"
    using Cons.prems by (intro recordFailureLocked_collapse) auto
  then have ok': "circuit_ok ?c'"
    using recordFailure_step_ok [OF Cons.prems(1,2,3) t] by blast
  have "\<exists>c'' e'. circuit_failures ord (Some ?c') pid ts = (Some c'', replicate (length ts) False)
    \<and> m_get (pc_entries c'') pid = Some e' \<and> ce_failureCount e' = ce_failureCount (e\<lparr>ce_lastTouched := t\<rparr>)
    \<and> ce_blockedUntil e' = 0"
    using Cons.prems by (intro Cons.IH [OF ok']) (simp_all add: m_get_set)
  with locked Cons.prems(3,4) show ?case by auto
qed


section \<open>Properties\<close>

text \<open>In every circuit reachable from a new one, whatever the order of calls, the clock readings
  and the map iteration order, the observation map stays within its configured capacity, has one
  entry per positive proxy ID, and an entry is quarantined exactly when its failure count has
  reached the threshold, until one TTL after its last counted failure.\<close>

theorem circuit_bounded_invariant:
  assumes "circuit_reachable s c" and "cs_collapseInterval s \<le> max_duration"
  shows "m_len (pc_entries c) \<le> cs_maxEntries (pc_settings c) \<and> gomap_ok (pc_entries c)
    \<and> (m_get (pc_entries c) pid = Some e \<longrightarrow> 0 < pid
        \<and> ce_blockedUntil e = (if ce_failureCount e \<ge> cs_failureThreshold (pc_settings c)
            then ce_lastFailureAt e + cs_quarantineTTL (pc_settings c) else 0))"
proof -
  have ok: "circuit_ok c" using assms by (rule circuit_reachable_ok)
  then show ?thesis
    by (auto simp: circuit_entry_ok_def m_get_in circuit_okD dest: circuit_okD(4,5) [OF ok])
qed

definition demo_circuit :: proxyCircuit where
  "demo_circuit = newProxyCircuit (resolveCircuitSettings None)"

lemmas demo_circuit_simps = demo_circuit_def newProxyCircuit_def resolveCircuitSettings_def
  defaultFailureThreshold_def defaultFailureWindow_def defaultQuarantineTTL_def
  defaultCircuitMaxEntries_def defaultFailureCollapse_def duration_defs

lemma demo_circuit_reachable: "circuit_reachable (resolveCircuitSettings None) demo_circuit"
  unfolding demo_circuit_def by (rule circuit_reachable.new)

lemma demo_collapse: "cs_collapseInterval (resolveCircuitSettings None) \<le> max_duration"
  by (simp add: demo_circuit_simps)

theorem circuit_bounded_invariant_witness:
  "m_len (pc_entries demo_circuit) \<le> 4096 \<and> gomap_ok (pc_entries demo_circuit)"
  using circuit_bounded_invariant [OF demo_circuit_reachable demo_collapse, of 1 zero_entry]
  by (simp add: demo_circuit_simps)

text \<open>The circuit trips on exactly the threshold-th separate disconnect: from a reachable, enabled
  circuit that has not seen a proxy, disconnects spaced at least the collapse interval apart and
  all within the failure window report no trip until the last one, which trips. From then on the
  proxy is blocked until one quarantine TTL after the tripping failure, and at that instant
  admitted again.\<close>

theorem circuit_trips_at_threshold:
  assumes "circuit_reachable s c" and "cs_collapseInterval s \<le> max_duration"
    and "range_order ord" and "0 < pid" and "\<not> cs_disabled (pc_settings c)"
    and "m_get (pc_entries c) pid = None" and "0 < t"
    and "spaced (cs_collapseInterval (pc_settings c)) t ts"
    and "\<forall>u \<in> set ts. u \<le> t + cs_failureWindow (pc_settings c)"
    and "1 + int (length ts) = cs_failureThreshold (pc_settings c)"
  shows "\<exists>c'. circuit_failures ord (Some c) pid (t # ts) = (Some c', replicate (length ts) False @ [True])
    \<and> (\<forall>now. snd (circuit_isBlocked (Some c') pid now)
          \<longleftrightarrow> now < last (t # ts) + cs_quarantineTTL (pc_settings c))"
proof -
  have ok: "circuit_ok c" using assms(1,2) by (rule circuit_reachable_ok)
  obtain c' e' where c': "circuit_failures ord (Some c) pid (t # ts) = (Some c', replicate (length ts) False @ [True])"
    "pc_settings c' = pc_settings c" "m_get (pc_entries c') pid = Some e'"
    "ce_blockedUntil e' = last (t # ts) + cs_quarantineTTL (pc_settings c)"
    using circuit_failures_trip [OF ok assms(3-10)] by blast
  have "0 \<le> cs_collapseInterval (pc_settings c)" "0 < cs_quarantineTTL (pc_settings c)"
    using circuit_okD(1) [OF ok] by (simp_all add: circuit_settings_ok_def)
  moreover from this(1) assms(8) have "t \<le> last (t # ts)"
    by (intro spaced_last)
  ultimately have "0 < ce_blockedUntil e'" using assms(7) c'(4) by simp
  with c' assms(4,5) show ?thesis by auto
qed

theorem circuit_trips_at_threshold_witness:
  "\<exists>c'. circuit_failures rev (Some demo_circuit) 7 [10 * second, 20 * second] = (Some c', [False, True])
    \<and> (\<forall>now. snd (circuit_isBlocked (Some c') 7 now) \<longleftrightarrow> now < 20 * second + 10 * minute)"
  using circuit_trips_at_threshold [OF demo_circuit_reachable demo_collapse range_order_rev,
      of 7 "10 * second" "[20 * second]"]
  by (simp add: demo_circuit_simps)

text \<open>A burst of disconnects counts once: after the first failure of a proxy, every disconnect
  reported within the collapse interval of it (and within the failure window) is absorbed. With a
  threshold above one such a burst, of any size, never trips the circuit, so a lost connection
  that kills many multiplexed streams does not quarantine its proxy.\<close>

theorem circuit_burst_counts_once:
  assumes "circuit_reachable s c" and "cs_collapseInterval s \<le> max_duration"
    and "range_order ord" and "0 < pid" and "\<not> cs_disabled (pc_settings c)"
    and "m_get (pc_entries c) pid = None" and "0 < t" and "1 < cs_failureThreshold (pc_settings c)"
    and "\<forall>u \<in> set ts. t \<le> u \<and> u < t + cs_collapseInterval (pc_settings c)
      \<and> u \<le> t + cs_failureWindow (pc_settings c)"
  shows "\<exists>c' e'. circuit_failures ord (Some c) pid (t # ts) = (Some c', replicate (Suc (length ts)) False)
    \<and> m_get (pc_entries c') pid = Some e' \<and> ce_failureCount e' = 1
    \<and> \<not> snd (circuit_isBlocked (Some c') pid now)"
proof -
  have ok: "circuit_ok c" using assms(1,2) by (rule circuit_reachable_ok)
  obtain c1 where c1: "circuit_recordFailure ord (Some c) pid t = (Some c1, False, 0)"
    "circuit_ok c1" "pc_settings c1 = pc_settings c"
    "m_get (pc_entries c1) pid = Some \<lparr>ce_failureCount = 1, ce_windowStart = t, ce_lastFailureAt = t,
        ce_blockedUntil = 0, ce_lastTouched = t\<rparr>"
    using assms(8) by (rule_tac circuit_failures_first [OF ok assms(3-7)]) simp
  have "\<exists>c' e'. circuit_failures ord (Some c1) pid ts = (Some c', replicate (length ts) False)
    \<and> m_get (pc_entries c') pid = Some e' \<and> ce_failureCount e' = 1 \<and> ce_blockedUntil e' = 0"
    using circuit_failures_burst [OF c1(2) assms(3,4) _ c1(4)] c1(3) assms(5,9) by simp
  with c1(1) show ?thesis by fastforce
qed

theorem circuit_burst_counts_once_witness:
  "\<exists>c' e'. circuit_failures rev (Some demo_circuit) 7 [10 * second, 10 * second, 11 * second, 12 * second]
      = (Some c', replicate 4 False)
    \<and> m_get (pc_entries c') 7 = Some e' \<and> ce_failureCount e' = 1
    \<and> \<not> snd (circuit_isBlocked (Some c') 7 (12 * second))"
  using circuit_burst_counts_once [OF demo_circuit_reachable demo_collapse range_order_rev,
      of 7 "10 * second" "[10 * second, 11 * second, 12 * second]" "12 * second"]
  by (simp add: demo_circuit_simps numeral_nat)

text \<open>Recording a failure for one proxy can cost another proxy's observation only when the map is
  full: below capacity every other entry is untouched. At capacity the entries that are neither
  stale nor expired quarantines all survive, unless none was removable that way; then exactly one
  goes, and it is one that was touched no later than any other.\<close>

theorem circuit_eviction:
  assumes "circuit_reachable s c" and "cs_collapseInterval s \<le> max_duration"
    and "range_order ord" and "0 < pid" and "0 < now"
    and "recordFailureLocked ord c pid now = (c', r)"
  shows "(\<forall>k. k \<noteq> pid \<longrightarrow> m_get (pc_entries c') k = m_get (pc_entries c) k)
    \<or> (m_get (pc_entries c) pid = None \<and> m_len (pc_entries c) = cs_maxEntries (pc_settings c)
       \<and> ((\<forall>k e. k \<noteq> pid \<longrightarrow> m_get (pc_entries c) k = Some e \<longrightarrow>
              m_get (pc_entries c') k = (if proxyEntryStale (pc_settings c) now e then None else Some e))
          \<or> (\<exists>k e. m_get (pc_entries c) k = Some e
              \<and> (\<forall>(k', e') \<in> set (pc_entries c). ce_lastTouched e \<le> ce_lastTouched e')
              \<and> (\<forall>k'. k' \<noteq> pid \<longrightarrow> m_get (pc_entries c') k' = (if k' = k then None else m_get (pc_entries c) k')))))"
proof -
  have ok: "circuit_ok c" using assms(1,2) by (rule circuit_reachable_ok)
  let ?c1 = "if m_get (pc_entries c) pid = None then ensureCapacityLocked ord c now else c"
  have c': "\<forall>k. k \<noteq> pid \<longrightarrow> m_get (pc_entries c') k = m_get (pc_entries ?c1) k"
    using assms(6) by (auto simp: recordFailureLocked_def Let_def m_get_set split: if_splits)
  show ?thesis
  proof (cases "m_get (pc_entries c) pid = None \<and> m_len (pc_entries c) \<ge> cs_maxEntries (pc_settings c)")
    case False
    then have "?c1 = c" by (auto simp: ensureCapacityLocked_def)
    with c' show ?thesis by simp
  next
    case True
    then have full: "m_len (pc_entries c) = cs_maxEntries (pc_settings c)"
      using circuit_okD(3) [OF ok] by simp
    have filt: "m_get (filter (\<lambda>(k, e). \<not> proxyEntryStale (pc_settings c) now e) (pc_entries c)) k
        = (if proxyEntryStale (pc_settings c) now e then None else Some e)"
      if "m_get (pc_entries c) k = Some e" for k e
      using that by (simp add: m_get_filter [OF circuit_okD(2) [OF ok]])
    from ensureCapacity_cases [OF ok assms(3), of now] full
    consider
      (stale) "ensureCapacityLocked ord c now = c\<lparr>pc_entries :=
          filter (\<lambda>(k, e). \<not> proxyEntryStale (pc_settings c) now e) (pc_entries c)\<rparr>"
    | (oldest) k e where "m_get (pc_entries c) k = Some e"
        "\<forall>(k', e') \<in> set (pc_entries c). ce_lastTouched e \<le> ce_lastTouched e'"
        "ensureCapacityLocked ord c now = c\<lparr>pc_entries := m_del (pc_entries c) k\<rparr>"
      by fastforce
    then show ?thesis
    proof cases
      case stale
      with True c' full filt show ?thesis by auto
    next
      case oldest
      then have "\<forall>k'. k' \<noteq> pid \<longrightarrow> m_get (pc_entries c') k' = (if k' = k then None else m_get (pc_entries c) k')"
        using True c' by (auto simp: m_get_del)
      with oldest(1,2) True full show ?thesis by blast
    qed
  qed
qed

definition tiny_settings :: circuitSettings where
  "tiny_settings = \<lparr>cs_disabled = False, cs_failureThreshold = 2, cs_failureWindow = 60,
    cs_quarantineTTL = 600, cs_collapseInterval = 3, cs_maxEntries = 1\<rparr>"

definition tiny_circuit :: "int \<Rightarrow> time \<Rightarrow> proxyCircuit" where
  "tiny_circuit pid t = \<lparr>pc_settings = tiny_settings, pc_entries =
    [(pid, \<lparr>ce_failureCount = 1, ce_windowStart = t, ce_lastFailureAt = t, ce_blockedUntil = 0,
       ce_lastTouched = t\<rparr>)]\<rparr>"

lemma tiny_first: "recordFailureLocked rev (newProxyCircuit tiny_settings) 3 5 = (tiny_circuit 3 5, False, 0)"
  by (simp add: recordFailureLocked_def newProxyCircuit_def tiny_settings_def tiny_circuit_def
      zero_entry_def ensureCapacityLocked_def)

lemma tiny_second: "recordFailureLocked rev (tiny_circuit 3 5) 7 6 = (tiny_circuit 7 6, False, 0)"
  by (simp add: recordFailureLocked_def tiny_settings_def tiny_circuit_def zero_entry_def
      ensureCapacityLocked_def proxyEntryStale_def t_sub_def duration_defs)

lemma tiny_reachable: "circuit_reachable tiny_settings (tiny_circuit 3 5)"
  by (rule circuit_reachable.step [OF circuit_reachable.new],
      rule circuit_step.failure [OF range_order_rev, of 5 _ 3 _ "(False, 0)"])
     (simp_all add: tiny_first, simp add: tiny_settings_def newProxyCircuit_def)

theorem circuit_eviction_witness:
  "m_get (pc_entries (tiny_circuit 3 5)) 3 \<noteq> None
   \<and> m_get (pc_entries (fst (recordFailureLocked rev (tiny_circuit 3 5) 7 6))) 3 = None
   \<and> m_len (pc_entries (tiny_circuit 3 5)) = cs_maxEntries (pc_settings (tiny_circuit 3 5))"
proof -
  have "cs_collapseInterval tiny_settings \<le> max_duration"
    by (simp add: tiny_settings_def duration_defs)
  note ev = circuit_eviction [OF tiny_reachable this range_order_rev, of 7 6, OF _ _ tiny_second]
  have get: "m_get (pc_entries (tiny_circuit 3 5)) 3 \<noteq> None" "m_get (pc_entries (tiny_circuit 7 6)) 3 = None"
    by (simp_all add: tiny_circuit_def)
  then have "\<not> (\<forall>k. k \<noteq> 7 \<longrightarrow> m_get (pc_entries (tiny_circuit 7 6)) k = m_get (pc_entries (tiny_circuit 3 5)) k)"
    by (intro notI) (drule spec [of _ 3], simp)
  with ev have "m_len (pc_entries (tiny_circuit 3 5)) = cs_maxEntries (pc_settings (tiny_circuit 3 5))"
    by simp
  with get show ?thesis by (simp add: tiny_second)
qed

end
