(* ===== verification/GoText.thy ===== *)
theory GoText
  imports Prelude "HOL-Library.Sublist"
begin

text \<open>
  The functions of Go's \<open>strings\<close> package the modelled code uses. A string is its list of bytes,
  as \<open>len\<close>, indexing and slicing see it; white space and letter case are those of ASCII, which
  is what model names, keys, currency codes and header tokens are written in.
\<close>

section \<open>Characters\<close>

definition char_code :: "char \<Rightarrow> nat" where
  "char_code c = of_char c"

definition is_space :: "char \<Rightarrow> bool" where
  "is_space c \<longleftrightarrow> char_code c = 32 \<or> (9 \<le> char_code c \<and> char_code c \<le> 13)"

definition lower_char :: "char \<Rightarrow> char" where
  "lower_char c = (if 65 \<le> char_code c \<and> char_code c \<le> 90 then char_of (char_code c + 32) else c)"

definition upper_char :: "char \<Rightarrow> char" where
  "upper_char c = (if 97 \<le> char_code c \<and> char_code c \<le> 122 then char_of (char_code c - 32) else c)"

section \<open>Strings\<close>

definition trim_space :: "string \<Rightarrow> string" where
  "trim_space s = rev (dropWhile is_space (rev (dropWhile is_space s)))"

definition to_lower :: "string \<Rightarrow> string" where
  "to_lower s = map lower_char s"

definition to_upper :: "string \<Rightarrow> string" where
  "to_upper s = map upper_char s"

definition equal_fold :: "string \<Rightarrow> string \<Rightarrow> bool" where
  "equal_fold s t \<longleftrightarrow> to_lower s = to_lower t"

definition has_prefix :: "string \<Rightarrow> string \<Rightarrow> bool" where
  "has_prefix s p \<longleftrightarrow> take (length p) s = p"

definition has_suffix :: "string \<Rightarrow> string \<Rightarrow> bool" where
  "has_suffix s p \<longleftrightarrow> length p \<le> length s \<and> drop (length s - length p) s = p"

definition trim_prefix :: "string \<Rightarrow> string \<Rightarrow> string" where
  "trim_prefix s p = (if has_prefix s p then drop (length p) s else s)"

definition trim_suffix :: "string \<Rightarrow> string \<Rightarrow> string" where
  "trim_suffix s p = (if has_suffix s p then take (length s - length p) s else s)"

text \<open>\<open>strings.Index\<close>: the first position at which \<open>p\<close> occurs, \<open>None\<close> for Go's -1.\<close>

fun str_index :: "string \<Rightarrow> string \<Rightarrow> nat option" where
  "str_index [] p = (if p = [] then Some 0 else None)"
| "str_index (c # s) p = (if has_prefix (c # s) p then Some 0 else map_option Suc (str_index s p))"

definition str_contains :: "string \<Rightarrow> string \<Rightarrow> bool" where
  "str_contains s p \<longleftrightarrow> str_index s p \<noteq> None"

text \<open>\<open>strings.LastIndex\<close> and \<open>strings.Split\<close> for a separator of one byte.\<close>

fun last_index_char :: "string \<Rightarrow> char \<Rightarrow> nat option" where
  "last_index_char [] x = None"
| "last_index_char (c # s) x =
    (case last_index_char s x of Some i \<Rightarrow> Some (Suc i)
     | None \<Rightarrow> if c = x then Some 0 else None)"

fun split_char :: "char \<Rightarrow> string \<Rightarrow> string list" where
  "split_char x [] = [[]]"
| "split_char x (c # s) =
    (if c = x then [] # split_char x s
     else (case split_char x s of [] \<Rightarrow> [[c]] | p # ps \<Rightarrow> (c # p) # ps))"

section \<open>Facts\<close>

lemma has_prefix_iff: "has_prefix s p \<longleftrightarrow> prefix p s"
  unfolding has_prefix_def by (metis append_eq_conv_conj append_take_drop_id prefix_def)

lemma has_suffix_iff: "has_suffix s p \<longleftrightarrow> suffix p s"
proof
  assume "has_suffix s p"
  then show "suffix p s"
    unfolding has_suffix_def by (metis suffix_drop)
next
  assume "suffix p s"
  then show "has_suffix s p"
    by (auto simp: suffix_def has_suffix_def)
qed

lemma lower_char_lower [simp]: "lower_char (lower_char c) = lower_char c"
  by (auto simp: lower_char_def char_code_def)

lemma to_lower_idem [simp]: "to_lower (to_lower s) = to_lower s"
  by (simp add: to_lower_def)

lemma to_lower_length [simp]: "length (to_lower s) = length s"
  by (simp add: to_lower_def)

lemma to_lower_nil [simp]: "to_lower s = [] \<longleftrightarrow> s = []"
  by (simp add: to_lower_def)

lemma to_lower_append [simp]: "to_lower (s @ t) = to_lower s @ to_lower t"
  by (simp add: to_lower_def)

lemma dropWhile_idem: "dropWhile P (dropWhile P s) = dropWhile P s"
  by (induction s) auto

lemma dropWhile_rev_dropWhile:
  "dropWhile P (rev (dropWhile P (rev (dropWhile P s)))) = rev (dropWhile P (rev (dropWhile P s)))"
proof (cases "rev (dropWhile P (rev (dropWhile P s)))")
  case Nil
  show ?thesis unfolding Nil by simp
next
  case (Cons a t)
  have "prefix (rev (dropWhile P (rev (dropWhile P s)))) (dropWhile P s)"
    by (metis rev_rev_ident suffix_dropWhile suffix_to_prefix)
  then obtain zs where "dropWhile P s = (a # t) @ zs"
    unfolding Cons by (auto simp: prefix_def)
  then have "\<not> P a"
    by (metis append_Cons hd_dropWhile list.distinct(1) list.sel(1))
  with Cons show ?thesis by simp
qed

lemma trim_space_idem [simp]: "trim_space (trim_space s) = trim_space s"
  unfolding trim_space_def by (simp add: dropWhile_rev_dropWhile dropWhile_idem)

lemma str_index_some:
  "str_index s p = Some i \<Longrightarrow> i \<le> length s \<and> prefix p (drop i s) \<and> (\<forall>j < i. \<not> prefix p (drop j s))"
proof (induction s p arbitrary: i rule: str_index.induct)
  case (1 p)
  then show ?case by (auto split: if_splits)
next
  case (2 c s p)
  show ?case
  proof (cases "has_prefix (c # s) p")
    case True
    with "2.prems" show ?thesis by (simp add: has_prefix_iff)
  next
    case False
    with "2.prems" obtain i' where i': "i = Suc i'" "str_index s p = Some i'" by auto
    from "2.IH" [OF False i'(2)] have IH: "i' \<le> length s \<and> prefix p (drop i' s)
      \<and> (\<forall>j < i'. \<not> prefix p (drop j s))" .
    have "\<not> prefix p (drop j (c # s))" if "j < Suc i'" for j
      using that IH False by (cases j) (auto simp: has_prefix_iff)
    with IH i' show ?thesis by simp
  qed
qed

lemma str_index_none: "str_index s p = None \<Longrightarrow> \<not> prefix p (drop i s)"
proof (induction s p arbitrary: i rule: str_index.induct)
  case (1 p)
  then show ?case by (auto split: if_splits)
next
  case (2 c s p)
  then show ?case by (cases i) (auto simp: has_prefix_iff split: if_splits)
qed

lemma str_index_sublist: "str_index s p = None \<longleftrightarrow> \<not> sublist p s"
proof
  assume "str_index s p = None"
  then have "\<not> prefix p (drop i s)" for i by (rule str_index_none)
  then show "\<not> sublist p s"
    by (metis append_eq_conv_conj append.assoc prefixI sublist_def)
next
  assume ns: "\<not> sublist p s"
  show "str_index s p = None"
  proof (cases "str_index s p")
    case (Some i)
    then have "prefix p (drop i s)" using str_index_some by blast
    then obtain t where "drop i s = p @ t" by (auto simp: prefix_def)
    then have "s = take i s @ p @ t" by (metis append_take_drop_id)
    with ns show ?thesis by (metis sublist_def)
  qed simp
qed

lemma split_char_nonempty [simp]: "split_char x s \<noteq> []"
  by (induction s) (auto split: list.splits)

lemma split_char_parts: "p \<in> set (split_char x s) \<Longrightarrow> x \<notin> set p"
proof (induction s arbitrary: p)
  case Nil
  then show ?case by simp
next
  case (Cons c s)
  then show ?case by (auto split: if_splits list.splits)
qed

lemma split_char_none: "x \<notin> set s \<Longrightarrow> split_char x s = [s]"
  by (induction s) auto

section \<open>Decimal numbers\<close>

text \<open>\<open>strconv.FormatInt(n, 10)\<close> (also \<open>%d\<close>) and \<open>strconv.ParseInt(s, 10, 64)\<close>.\<close>

definition digit_char :: "nat \<Rightarrow> char" where
  "digit_char d = char_of (48 + d)"

fun nat_digits :: "nat \<Rightarrow> string" where
  "nat_digits n = (if n < 10 then [digit_char n] else nat_digits (n div 10) @ [digit_char (n mod 10)])"

declare nat_digits.simps [simp del]

definition itoa :: "int \<Rightarrow> string" where
  "itoa n = (if n < 0 then CHR ''-'' # nat_digits (nat (- n)) else nat_digits (nat n))"

definition char_digit :: "char \<Rightarrow> nat option" where
  "char_digit c = (let n = of_char c in if 48 \<le> n \<and> n < (58::nat) then Some (n - 48) else None)"

fun parse_digits :: "nat \<Rightarrow> string \<Rightarrow> nat option" where
  "parse_digits acc [] = Some acc"
| "parse_digits acc (c # cs) =
    (case char_digit c of None \<Rightarrow> None | Some d \<Rightarrow> parse_digits (10 * acc + d) cs)"

definition parse_nat :: "string \<Rightarrow> nat option" where
  "parse_nat s = (if s = [] then None else parse_digits 0 s)"

definition parse_int :: "string \<Rightarrow> int option" where
  "parse_int s =
    (case s of
       [] \<Rightarrow> None
     | c # cs \<Rightarrow>
         (case (if c = CHR ''-'' then map_option (\<lambda>n. - int n) (parse_nat cs)
                else if c = CHR ''+'' then map_option int (parse_nat cs)
                else map_option int (parse_nat s)) of
            None \<Rightarrow> None
          | Some n \<Rightarrow> if - (2 ^ 63) \<le> n \<and> n < 2 ^ 63 then Some n else None))"

lemma of_char_digit: "d < 10 \<Longrightarrow> of_char (digit_char d) = (48 + d :: nat)"
  by (simp add: digit_char_def)

lemma char_digit_digit_char: "d < 10 \<Longrightarrow> char_digit (digit_char d) = Some d"
  by (simp add: char_digit_def of_char_digit)

lemma nat_digits_nonempty: "nat_digits n \<noteq> []"
  by (subst nat_digits.simps) simp

lemma parse_digits_append:
  "parse_digits acc (s @ t) = (case parse_digits acc s of None \<Rightarrow> None | Some n \<Rightarrow> parse_digits n t)"
  by (induction s arbitrary: acc) (auto split: option.splits)

lemma parse_digits_nat_digits: "parse_digits 0 (nat_digits n) = Some n"
proof (induction n rule: nat_digits.induct)
  case (1 n)
  show ?case
    by (subst nat_digits.simps) (use 1 in \<open>simp add: parse_digits_append char_digit_digit_char\<close>)
qed

lemma nat_digits_hd: "\<exists>d cs. nat_digits n = digit_char d # cs \<and> d < 10"
proof (induction n rule: nat_digits.induct)
  case (1 n)
  show ?case by (subst nat_digits.simps) (use 1 in fastforce)
qed

lemma nat_digits_sign: "nat_digits n = c # cs \<Longrightarrow> c \<noteq> CHR ''-'' \<and> c \<noteq> CHR ''+''"
  using nat_digits_hd [of n] of_char_digit by fastforce

lemma parse_int_itoa:
  assumes "- (2 ^ 63) \<le> n" and "n < 2 ^ 63"
  shows "parse_int (itoa n) = Some n"
proof (cases "n < 0")
  case True
  then show ?thesis
    using assms by (simp add: itoa_def parse_int_def parse_nat_def nat_digits_nonempty parse_digits_nat_digits)
next
  case False
  obtain c cs where c: "nat_digits (nat n) = c # cs" using nat_digits_nonempty by (cases "nat_digits (nat n)") auto
  with parse_digits_nat_digits [of "nat n"] nat_digits_sign [OF c] False assms show ?thesis
    by (simp add: itoa_def parse_int_def parse_nat_def)
qed

lemma nat_digits_inject: "nat_digits m = nat_digits n \<longleftrightarrow> m = n"
  by (metis parse_digits_nat_digits option.inject)

lemma itoa_inject [simp]: "itoa m = itoa n \<longleftrightarrow> m = n"
  using nat_digits_sign [of "nat m"] nat_digits_sign [of "nat n"]
  by (auto simp: itoa_def nat_digits_inject dest: sym)

lemma itoa_hd: "\<exists>c cs. itoa n = c # cs \<and> (c = CHR ''-'' \<or> (\<exists>d < 10. c = digit_char d))"
  using nat_digits_hd [of "nat n"] by (auto simp: itoa_def)

end
