(* ===== verification/ModelTransient.thy ===== *)
theory ModelTransient
  imports OldestScan GoText
begin

text \<open>
  The per-account, per-model breaker for transient upstream failures
  (\<open>internal/service/openai_account_model_transient.go\<close>): a streak of failures of one account on
  one model cools the pair down for longer and longer. The mutex makes each method atomic; a nil
  receiver is \<open>None\<close>; \<open>wall\<close> is the reading of \<open>time.Now()\<close> used when the caller passes the zero
  instant. The lazily created map and the default capacity are set in the constructor already.
\<close>

section \<open>State\<close>

definition streakTTL :: duration where "streakTTL = 30 * minute"
definition shortCooldown :: duration where "shortCooldown = 10 * second"
definition longCooldown :: duration where "longCooldown = 45 * second"
definition transientDefaultMax :: int where "transientDefaultMax = 4096"
definition transientMaxModelBytes :: nat where "transientMaxModelBytes = 512"

type_synonym accountModelKey = "int \<times> string"

record transientEntry =
  te_failureStreak :: int
  te_lastFailure :: time
  te_blockUntil :: time
  te_lastTouched :: time

definition zero_transient :: transientEntry where
  "zero_transient = \<lparr>te_failureStreak = 0, te_lastFailure = 0, te_blockUntil = 0, te_lastTouched = 0\<rparr>"

record transientDecision =
  td_failureStreak :: int
  td_cooldown :: duration
  td_blockUntil :: time

definition no_decision :: transientDecision where
  "no_decision = \<lparr>td_failureStreak = 0, td_cooldown = 0, td_blockUntil = 0\<rparr>"

record transientState =
  ts_entries :: "(accountModelKey, transientEntry) gomap"
  ts_maxEntries :: int

definition newTransientState :: "int \<Rightarrow> transientState" where
  "newTransientState n = \<lparr>ts_entries = [],
    ts_maxEntries = (if n \<le> 0 then transientDefaultMax else n)\<rparr>"

section \<open>Operations\<close>

definition normalizeTransientModel :: "string \<Rightarrow> string" where
  "normalizeTransientModel model =
    (let m = trim_space model
     in if length m > transientMaxModelBytes then [] else to_lower m)"

definition transientKey :: "int \<Rightarrow> string \<Rightarrow> accountModelKey option" where
  "transientKey accountID model =
    (let m = normalizeTransientModel model
     in if accountID \<le> 0 \<or> m = [] then None else Some (accountID, m))"

fun oldestTransientLoop ::
  "(accountModelKey \<times> time) option \<Rightarrow> (accountModelKey \<times> transientEntry) list \<Rightarrow> accountModelKey option"
where
  "oldestTransientLoop best [] = map_option fst best"
| "oldestTransientLoop best ((k, e) # es) =
    (case best of
       None \<Rightarrow> oldestTransientLoop (Some (k, te_lastTouched e)) es
     | Some (k0, t0) \<Rightarrow>
         if t_before (te_lastTouched e) t0 then oldestTransientLoop (Some (k, te_lastTouched e)) es
         else oldestTransientLoop (Some (k0, t0)) es)"

type_synonym transient_order =
  "(accountModelKey \<times> transientEntry) list \<Rightarrow> (accountModelKey \<times> transientEntry) list"

definition evictOldestLocked :: "transient_order \<Rightarrow> transientState \<Rightarrow> transientState" where
  "evictOldestLocked ord s =
    (if m_len (ts_entries s) < ts_maxEntries s then s
     else (case oldestTransientLoop None (ord (ts_entries s)) of
             None \<Rightarrow> s
           | Some k \<Rightarrow> s\<lparr>ts_entries := m_del (ts_entries s) k\<rparr>))"

definition transientCooldown :: "int \<Rightarrow> duration" where
  "transientCooldown streak =
    (if streak \<ge> 3 then longCooldown else if streak = 2 then shortCooldown else 0)"

definition transientFailureLocked ::
  "transient_order \<Rightarrow> transientState \<Rightarrow> accountModelKey \<Rightarrow> time \<Rightarrow> transientState \<times> transientDecision"
where
  "transientFailureLocked ord s key now =
    (let found = m_get (ts_entries s) key;
         exists = (found \<noteq> None);
         s1 = (if exists then s else evictOldestLocked ord s);
         e0 = (case found of None \<Rightarrow> zero_transient | Some e \<Rightarrow> e);
         e1 = (if \<not> exists \<or> is_zero (te_lastFailure e0)
                  \<or> t_sub now (te_lastFailure e0) > streakTTL \<or> t_before now (te_lastFailure e0)
               then e0\<lparr>te_failureStreak := 0, te_blockUntil := 0\<rparr> else e0);
         e2 = e1\<lparr>te_failureStreak := te_failureStreak e1 + 1, te_lastFailure := now,
                 te_lastTouched := now\<rparr>;
         cooldown = transientCooldown (te_failureStreak e2);
         e3 = (if cooldown > 0 then e2\<lparr>te_blockUntil := t_add now cooldown\<rparr>
               else e2\<lparr>te_blockUntil := 0\<rparr>)
     in (s1\<lparr>ts_entries := m_set (ts_entries s1) key e3\<rparr>,
         \<lparr>td_failureStreak = te_failureStreak e3, td_cooldown = cooldown,
          td_blockUntil = te_blockUntil e3\<rparr>))"

fun transient_recordFailure ::
  "transient_order \<Rightarrow> transientState option \<Rightarrow> int \<Rightarrow> string \<Rightarrow> time \<Rightarrow> time \<Rightarrow>
   transientState option \<times> transientDecision"
where
  "transient_recordFailure ord None accountID model now wall = (None, no_decision)"
| "transient_recordFailure ord (Some s) accountID model now wall =
    (case transientKey accountID model of
       None \<Rightarrow> (Some s, no_decision)
     | Some key \<Rightarrow>
         (case transientFailureLocked ord s key (if is_zero now then wall else now) of
            (s', d) \<Rightarrow> (Some s', d)))"

fun transient_recordSuccess :: "transientState option \<Rightarrow> int \<Rightarrow> string \<Rightarrow> transientState option" where
  "transient_recordSuccess None accountID model = None"
| "transient_recordSuccess (Some s) accountID model =
    (case transientKey accountID model of
       None \<Rightarrow> Some s
     | Some key \<Rightarrow> Some (s\<lparr>ts_entries := m_del (ts_entries s) key\<rparr>))"

fun transient_isBlocked ::
  "transientState option \<Rightarrow> int \<Rightarrow> string \<Rightarrow> time \<Rightarrow> time \<Rightarrow> transientState option \<times> bool"
where
  "transient_isBlocked None accountID model now wall = (None, False)"
| "transient_isBlocked (Some s) accountID model now wall =
    (case transientKey accountID model of
       None \<Rightarrow> (Some s, False)
     | Some key \<Rightarrow>
         (let n = (if is_zero now then wall else now)
          in case m_get (ts_entries s) key of
               None \<Rightarrow> (Some s, False)
             | Some e \<Rightarrow>
                 if \<not> is_zero (te_lastFailure e) \<and> t_sub n (te_lastFailure e) > streakTTL
                 then (Some (s\<lparr>ts_entries := m_del (ts_entries s) key\<rparr>), False)
                 else (Some (s\<lparr>ts_entries := m_set (ts_entries s) key (e\<lparr>te_lastTouched := n\<rparr>)\<rparr>),
                       \<not> is_zero (te_blockUntil e) \<and> t_before n (te_blockUntil e))))"

fun transient_size :: "transientState option \<Rightarrow> int" where
  "transient_size None = 0"
| "transient_size (Some s) = m_len (ts_entries s)"

section \<open>Eviction and the size bound\<close>

lemma oldestTransientLoop_min:
  "\<exists>k' t'. oldestTransientLoop (Some (k, t)) es = Some k' \<and> t' \<le> t
     \<and> (\<forall>(k2, e2) \<in> set es. t' \<le> te_lastTouched e2)
     \<and> ((k' = k \<and> t' = t) \<or> (\<exists>e. (k', e) \<in> set es \<and> te_lastTouched e = t'))"
proof (induction es arbitrary: k t)
  case Nil
  then show ?case by simp
next
  case (Cons a es)
  obtain p e where a: "a = (p, e)" by (cases a)
  show ?case
  proof (cases "t_before (te_lastTouched e) t")
    case True
    obtain k' t' where "oldestTransientLoop (Some (p, te_lastTouched e)) es = Some k'"
      "t' \<le> te_lastTouched e" "\<forall>(k2, e2) \<in> set es. t' \<le> te_lastTouched e2"
      "(k' = p \<and> t' = te_lastTouched e) \<or> (\<exists>e. (k', e) \<in> set es \<and> te_lastTouched e = t')"
      using Cons.IH by blast
    with True a show ?thesis by (intro exI [of _ k'] exI [of _ t']) auto
  next
    case False
    obtain k' t' where "oldestTransientLoop (Some (k, t)) es = Some k'"
      "t' \<le> t" "\<forall>(k2, e2) \<in> set es. t' \<le> te_lastTouched e2"
      "(k' = k \<and> t' = t) \<or> (\<exists>e. (k', e) \<in> set es \<and> te_lastTouched e = t')"
      using Cons.IH by blast
    with False a show ?thesis by (intro exI [of _ k'] exI [of _ t']) auto
  qed
qed

interpretation transient_evict: oldest_scan "oldestTransientLoop None" te_lastTouched "\<lambda>k. True"
proof unfold_locales
  fix xs :: "(accountModelKey \<times> transientEntry) list"
  assume "oldestTransientLoop None xs = None"
  then show "xs = []"
  proof (cases xs)
    case (Cons a es)
    obtain p e where "a = (p, e)" by (cases a)
    with Cons \<open>oldestTransientLoop None xs = None\<close> oldestTransientLoop_min [of p "te_lastTouched e" es]
    show ?thesis by auto
  qed simp
next
  fix xs :: "(accountModelKey \<times> transientEntry) list" and k
  assume some: "oldestTransientLoop None xs = Some k"
  then obtain p e es where xs: "xs = (p, e) # es" by (cases xs) auto
  obtain t' where t': "t' \<le> te_lastTouched e" "\<forall>(k2, e2) \<in> set es. t' \<le> te_lastTouched e2"
    "(k = p \<and> t' = te_lastTouched e) \<or> (\<exists>e. (k, e) \<in> set es \<and> te_lastTouched e = t')"
    using oldestTransientLoop_min [of p "te_lastTouched e" es] some xs by auto
  then obtain v where "(k, v) \<in> set xs" "te_lastTouched v = t'"
    using xs by auto
  with t' xs show "\<exists>v. (k, v) \<in> set xs \<and> (\<forall>(k', v') \<in> set xs. te_lastTouched v \<le> te_lastTouched v')"
    by auto
qed

definition transient_ok :: "transientState \<Rightarrow> bool" where
  "transient_ok s \<longleftrightarrow> gomap_ok (ts_entries s) \<and> 0 < ts_maxEntries s
    \<and> m_len (ts_entries s) \<le> ts_maxEntries s"

lemma newTransientState_ok: "transient_ok (newTransientState n)"
  by (simp add: transient_ok_def newTransientState_def transientDefaultMax_def)

lemma evictOldest_max [simp]: "ts_maxEntries (evictOldestLocked ord s) = ts_maxEntries s"
  by (simp add: evictOldestLocked_def split: option.splits)

lemma evictOldest_room:
  assumes "transient_ok s" and "range_order ord"
  shows "transient_ok (evictOldestLocked ord s)
    \<and> m_len (ts_entries (evictOldestLocked ord s)) < ts_maxEntries s"
proof (cases "m_len (ts_entries s) < ts_maxEntries s")
  case True
  with assms show ?thesis by (simp add: evictOldestLocked_def)
next
  case False
  with assms(1) have full: "m_len (ts_entries s) = ts_maxEntries s" "ts_entries s \<noteq> []" "gomap_ok (ts_entries s)"
    by (auto simp: transient_ok_def)
  then obtain k where "oldestTransientLoop None (ord (ts_entries s)) = Some k"
    "Suc (length (m_del (ts_entries s) k)) = length (ts_entries s)"
    using transient_evict.evict_length [OF assms(2) full(3) _ full(2)] by auto
  with False full assms(1) show ?thesis
    by (auto simp: evictOldestLocked_def transient_ok_def gomap_ok_del)
qed

lemma transientFailureLocked_ok:
  assumes ok: "transient_ok s" and ord: "range_order ord"
  shows "transient_ok (fst (transientFailureLocked ord s key now))"
proof (cases "m_get (ts_entries s) key")
  case None
  note room = evictOldest_room [OF ok ord]
  have "m_len (m_set (ts_entries (evictOldestLocked ord s)) key e) \<le> ts_maxEntries s" for e
    using room length_m_set_le [of key e "ts_entries (evictOldestLocked ord s)"] by linarith
  with room None show ?thesis
    by (simp add: transientFailureLocked_def Let_def transient_ok_def gomap_ok_set)
next
  case (Some e)
  with ok show ?thesis
    by (simp add: transientFailureLocked_def Let_def transient_ok_def gomap_ok_set length_m_set_old)
qed


inductive transient_step :: "transientState \<Rightarrow> transientState \<Rightarrow> bool" where
  failure: "range_order ord \<Longrightarrow>
    transient_recordFailure ord (Some s) acc model now wall = (Some s', d) \<Longrightarrow> transient_step s s'"
| success: "transient_recordSuccess (Some s) acc model = Some s' \<Longrightarrow> transient_step s s'"
| query: "transient_isBlocked (Some s) acc model now wall = (Some s', b) \<Longrightarrow> transient_step s s'"

inductive transient_reachable :: "int \<Rightarrow> transientState \<Rightarrow> bool" for n where
  new: "transient_reachable n (newTransientState n)"
| step: "transient_reachable n s \<Longrightarrow> transient_step s s' \<Longrightarrow> transient_reachable n s'"

lemma transient_ok_del: "transient_ok s \<Longrightarrow> transient_ok (s\<lparr>ts_entries := m_del (ts_entries s) k\<rparr>)"
  using length_m_del_le [of k "ts_entries s"] by (simp add: transient_ok_def gomap_ok_del)

lemma transient_ok_touch:
  "transient_ok s \<Longrightarrow> m_get (ts_entries s) k \<noteq> None \<Longrightarrow> transient_ok (s\<lparr>ts_entries := m_set (ts_entries s) k e\<rparr>)"
  by (simp add: transient_ok_def gomap_ok_set length_m_set_old)

lemma transient_max_step: "transient_step s s' \<Longrightarrow> ts_maxEntries s' = ts_maxEntries s"
  by (induction rule: transient_step.induct)
     (auto simp: transientFailureLocked_def Let_def split: option.splits if_splits)

lemma transient_step_ok: "transient_step s s' \<Longrightarrow> transient_ok s \<Longrightarrow> transient_ok s'"
proof (induction rule: transient_step.induct)
  case (failure ord s acc model now wall s' d)
  have "transient_ok (fst (transientFailureLocked ord s key n))" for key n
    by (rule transientFailureLocked_ok [OF failure.prems failure.hyps(1)])
  with failure show ?case
    by (simp split: option.splits prod.splits) (metis fst_conv)
next
  case (success s acc model s')
  then show ?case by (auto split: option.splits intro: transient_ok_del)
next
  case (query s acc model now wall s' b)
  then show ?case
    by (auto simp: Let_def split: option.splits if_splits intro: transient_ok_del transient_ok_touch)
qed

lemma transient_reachable_ok: "transient_reachable n s \<Longrightarrow> transient_ok s"
  by (induction rule: transient_reachable.induct) (auto intro: newTransientState_ok transient_step_ok)

lemma transient_reachable_max:
  "transient_reachable n s \<Longrightarrow> ts_maxEntries s = (if n \<le> 0 then transientDefaultMax else n)"
  by (induction rule: transient_reachable.induct) (simp_all add: newTransientState_def transient_max_step)

section \<open>Cooldown ladder\<close>

text \<open>Failures of one account and model at the given instants, with the decisions returned.\<close>

fun transient_failures ::
  "transient_order \<Rightarrow> transientState option \<Rightarrow> int \<Rightarrow> string \<Rightarrow> time list \<Rightarrow>
   transientState option \<times> transientDecision list"
where
  "transient_failures ord s acc model [] = (s, [])"
| "transient_failures ord s acc model (t # ts) =
    (case transient_recordFailure ord s acc model t t of (s', d) \<Rightarrow>
      case transient_failures ord s' acc model ts of (s'', ds) \<Rightarrow> (s'', d # ds))"

text \<open>Each instant follows the one before by at most \<open>g\<close>.\<close>

fun within_gap :: "duration \<Rightarrow> time \<Rightarrow> time list \<Rightarrow> bool" where
  "within_gap g l [] = True"
| "within_gap g l (t # ts) = (l \<le> t \<and> t \<le> l + g \<and> within_gap g t ts)"

definition streakBlock :: "int \<Rightarrow> time \<Rightarrow> time" where
  "streakBlock n t = (if transientCooldown n > 0 then t + transientCooldown n else 0)"

text \<open>The decisions of a streak that already counts \<open>n\<close> failures.\<close>

fun ladder :: "int \<Rightarrow> time list \<Rightarrow> transientDecision list" where
  "ladder n [] = []"
| "ladder n (t # ts) =
    \<lparr>td_failureStreak = n + 1, td_cooldown = transientCooldown (n + 1),
     td_blockUntil = streakBlock (n + 1) t\<rparr>
    # ladder (n + 1) ts"

lemma transientCooldown_bounds: "0 \<le> transientCooldown n" "transientCooldown n < streakTTL"
  by (simp_all add: transientCooldown_def shortCooldown_def longCooldown_def streakTTL_def duration_defs)

lemma transient_first:
  assumes "m_get (ts_entries s) key = None"
  shows "transientFailureLocked ord s key now =
    (let s1 = evictOldestLocked ord s in
     (s1\<lparr>ts_entries := m_set (ts_entries s1) key
         \<lparr>te_failureStreak = 1, te_lastFailure = now, te_blockUntil = 0, te_lastTouched = now\<rparr>\<rparr>,
      \<lparr>td_failureStreak = 1, td_cooldown = 0, td_blockUntil = 0\<rparr>))"
  using assms by (simp add: transientFailureLocked_def Let_def zero_transient_def transientCooldown_def)

lemma transient_next:
  assumes "m_get (ts_entries s) key = Some e" and "0 < te_lastFailure e"
    and "te_lastFailure e \<le> now" and "now \<le> te_lastFailure e + streakTTL"
  shows "transientFailureLocked ord s key now =
    (let n = te_failureStreak e + 1;
         until = streakBlock n now
     in (s\<lparr>ts_entries := m_set (ts_entries s) key
         \<lparr>te_failureStreak = n, te_lastFailure = now, te_blockUntil = until, te_lastTouched = now\<rparr>\<rparr>,
      \<lparr>td_failureStreak = n, td_cooldown = transientCooldown n, td_blockUntil = until\<rparr>))"
proof -
  have "\<not> t_sub now (te_lastFailure e) > streakTTL"
    using t_sub_le [of "te_lastFailure e" now] assms(3,4) by linarith
  with assms show ?thesis
    by (cases e) (simp add: transientFailureLocked_def Let_def t_add_def streakBlock_def)
qed

lemma transient_failures_ladder:
  assumes "transientKey acc model = Some key" and "m_get (ts_entries s) key = Some e"
    and "0 < te_lastFailure e" and "within_gap streakTTL (te_lastFailure e) ts"
    and "te_blockUntil e = streakBlock (te_failureStreak e) (te_lastFailure e)"
  shows "\<exists>s' e'. transient_failures ord (Some s) acc model ts = (Some s', ladder (te_failureStreak e) ts)
    \<and> m_get (ts_entries s') key = Some e' \<and> te_lastFailure e' = last (te_lastFailure e # ts)
    \<and> te_failureStreak e' = te_failureStreak e + int (length ts)
    \<and> te_blockUntil e' = streakBlock (te_failureStreak e') (te_lastFailure e')"
  using assms
proof (induction ts arbitrary: s e)
  case Nil
  then show ?case by simp
next
  case (Cons t ts)
  let ?n = "te_failureStreak e + 1"
  let ?e' = "\<lparr>te_failureStreak = ?n, te_lastFailure = t,
      te_blockUntil = streakBlock ?n t, te_lastTouched = t\<rparr>"
  let ?s' = "s\<lparr>ts_entries := m_set (ts_entries s) key ?e'\<rparr>"
  have t: "0 < t" "te_lastFailure e \<le> t" "t \<le> te_lastFailure e + streakTTL" "within_gap streakTTL t ts"
    using Cons.prems by auto
  have "transient_recordFailure ord (Some s) acc model t t =
      (Some ?s', \<lparr>td_failureStreak = ?n, td_cooldown = transientCooldown ?n,
         td_blockUntil = streakBlock ?n t\<rparr>)"
    using Cons.prems(1) t transient_next [OF Cons.prems(2,3) t(2,3), of ord] by (simp add: Let_def)
  moreover obtain s'' e' where
    "transient_failures ord (Some ?s') acc model ts = (Some s'', ladder (te_failureStreak ?e') ts)"
    "m_get (ts_entries s'') key = Some e'" "te_lastFailure e' = last (te_lastFailure ?e' # ts)"
    "te_failureStreak e' = te_failureStreak ?e' + int (length ts)"
    "te_blockUntil e' = streakBlock (te_failureStreak e') (te_lastFailure e')"
    using Cons.IH [of ?s' ?e'] t Cons.prems(1) by (auto simp: m_get_set)
  ultimately show ?case
    by (intro exI [of _ s''] exI [of _ e']) (simp add: Let_def)
qed

section \<open>Properties\<close>

text \<open>The transient breaker never holds more entries than its capacity: in every state reachable
  from a new one by failures, successes and queries, in any order, with any clock and any map
  iteration order, the map has distinct keys and at most the configured number of entries.\<close>

theorem transient_bounded:
  assumes "transient_reachable n s"
  shows "gomap_ok (ts_entries s)
    \<and> transient_size (Some s) \<le> (if n \<le> 0 then transientDefaultMax else n)"
  using transient_reachable_ok [OF assms] transient_reachable_max [OF assms]
  by (simp add: transient_ok_def)

theorem transient_bounded_witness: "transient_size (Some (newTransientState (-1))) \<le> 4096"
  using transient_bounded [OF transient_reachable.new, of "-1"] by (simp add: transientDefaultMax_def)

text \<open>The cooldown ladder: from a reachable state that does not know an account and model, a run of
  failures each at most the streak TTL after the one before gets the decisions streak 1 without
  cooldown, streak 2 with ten seconds, then forty-five seconds for every further failure; after
  the run the pair is blocked at exactly the instants before its last failure plus that cooldown.\<close>

theorem transient_ladder:
  assumes "transient_reachable n s" and "range_order ord"
    and "transientKey acc model = Some key" and "m_get (ts_entries s) key = None"
    and "0 < t" and "within_gap streakTTL t ts" and "now \<noteq> 0"
  shows "\<exists>s'. transient_failures ord (Some s) acc model (t # ts) = (Some s', ladder 0 (t # ts))
    \<and> (snd (transient_isBlocked (Some s') acc model now wall)
        \<longleftrightarrow> ts \<noteq> [] \<and> now < last ts + transientCooldown (1 + int (length ts)))"
proof -
  let ?e = "\<lparr>te_failureStreak = 1, te_lastFailure = t, te_blockUntil = 0, te_lastTouched = t\<rparr>"
  let ?s1 = "evictOldestLocked ord s"
  let ?s = "?s1\<lparr>ts_entries := m_set (ts_entries ?s1) key ?e\<rparr>"
  have first: "transient_recordFailure ord (Some s) acc model t t =
      (Some ?s, \<lparr>td_failureStreak = 1, td_cooldown = 0, td_blockUntil = 0\<rparr>)"
    using assms(3,5) transient_first [OF assms(4), of ord t] by (simp add: Let_def)
  obtain s' e' where rest: "transient_failures ord (Some ?s) acc model ts = (Some s', ladder 1 ts)"
    "m_get (ts_entries s') key = Some e'" "te_lastFailure e' = last (t # ts)"
    "te_failureStreak e' = 1 + int (length ts)"
    "te_blockUntil e' = streakBlock (te_failureStreak e') (te_lastFailure e')"
    using transient_failures_ladder [of acc model key ?s ?e ts ord] assms(3,5,6)
    by (auto simp: m_get_set streakBlock_def transientCooldown_def)
  have c0: "transientCooldown 1 = 0" by (simp add: transientCooldown_def)
  have pos: "0 < transientCooldown (1 + int (length ts))" if "ts \<noteq> []"
  proof -
    from that have "2 \<le> 1 + int (length ts)" by (cases ts) simp_all
    then show ?thesis
      by (simp add: transientCooldown_def shortCooldown_def longCooldown_def duration_defs)
  qed
  have "t \<le> last (t # ts)"
    using assms(6) by (induction ts arbitrary: t) (auto intro: order_trans)
  then have last: "0 < last (t # ts)" using assms(5) by linarith
  have stale: "last (t # ts) + transientCooldown m \<le> now" if "streakTTL < t_sub now (last (t # ts))" for m
    using that transientCooldown_bounds(2) [of m] t_sub_greater [of streakTTL now "last (t # ts)"]
    by (simp add: streakTTL_def duration_defs)
  have "snd (transient_isBlocked (Some s') acc model now wall)
        \<longleftrightarrow> ts \<noteq> [] \<and> now < last ts + transientCooldown (1 + int (length ts))"
    using assms(3,7) rest last pos stale [of "1 + int (length ts)"] c0
    by (cases "ts = []") (auto simp: Let_def streakBlock_def)
  moreover have "ladder 0 (t # ts) = \<lparr>td_failureStreak = 1, td_cooldown = 0, td_blockUntil = 0\<rparr> # ladder 1 ts"
    by (simp add: c0 streakBlock_def)
  ultimately show ?thesis using first rest(1) by simp
qed

theorem transient_ladder_witness:
  "\<exists>s'. transient_failures rev (Some (newTransientState 8)) 5 ''GPT-5'' [second, 2 * second, 3 * second]
      = (Some s', [\<lparr>td_failureStreak = 1, td_cooldown = 0, td_blockUntil = 0\<rparr>,
          \<lparr>td_failureStreak = 2, td_cooldown = 10 * second, td_blockUntil = 12 * second\<rparr>,
          \<lparr>td_failureStreak = 3, td_cooldown = 45 * second, td_blockUntil = 48 * second\<rparr>])
    \<and> snd (transient_isBlocked (Some s') 5 ''GPT-5'' (47 * second) 0)"
proof -
  have key: "transientKey 5 ''GPT-5'' = Some (5, ''gpt-5'')" by code_simp
  show ?thesis
    using transient_ladder [OF transient_reachable.new range_order_rev key, of 8 second
        "[2 * second, 3 * second]" "47 * second" 0]
    by (simp add: newTransientState_def streakTTL_def transientCooldown_def shortCooldown_def
        longCooldown_def streakBlock_def duration_defs)
qed

text \<open>A success ends the streak: right after it the pair is not blocked at any instant, and the
  next failure, whenever it comes, is again the first of a streak and brings no cooldown.\<close>

theorem transient_success_resets:
  shows "transientKey acc model = Some key \<Longrightarrow>
    (\<exists>s'. transient_recordSuccess (Some s) acc model = Some s'
      \<and> \<not> snd (transient_isBlocked (Some s') acc model now wall)
      \<and> snd (transient_recordFailure ord (Some s') acc model now wall)
          = \<lparr>td_failureStreak = 1, td_cooldown = 0, td_blockUntil = 0\<rparr>)"
  by (simp add: transient_first m_get_del Let_def)

theorem transient_success_resets_witness:
  "\<exists>s'. transient_recordSuccess (Some (newTransientState 8)) 5 ''gpt'' = Some s'
    \<and> snd (transient_recordFailure rev (Some s') 5 ''gpt'' second 0)
        = \<lparr>td_failureStreak = 1, td_cooldown = 0, td_blockUntil = 0\<rparr>"
proof -
  have "transientKey 5 ''gpt'' = Some (5, ''gpt'')" by code_simp
  from transient_success_resets [OF this, of "newTransientState 8" second 0 rev] show ?thesis by blast
qed

end
