(* ===== verification/AbuseLimiter.thy ===== *)
theory AbuseLimiter
  imports Prelude "HOL-Library.Word"
begin

text \<open>
  The limiter for invalid API keys (\<open>internal/service/invalid_auth_abuse_limiter.go\<close>): failures per
  client are counted in sixteen shards under one global capacity; clients that no longer fit are
  counted together. A call is one atomic step: the shard mutexes, the compare-and-swap loops and the
  atomic counters are taken to run without interference from another call. \<open>now\<close> is the reading of
  the limiter's clock. Counters that wrap are words of their Go width.
\<close>

unbundle bit_operations_syntax

section \<open>State\<close>

definition invalidAuthAbuseShardCount :: nat where "invalidAuthAbuseShardCount = 16"

record abuseEntry =
  ae_failures :: int
  ae_windowStart :: time
  ae_blockedUntil :: time

type_synonym abuseShard = "(string, abuseEntry) gomap"

record abuseLimiter =
  al_threshold :: int
  al_window :: duration
  al_block :: duration
  al_capacity :: int
  al_shards :: "abuseShard list"
  al_overflow :: abuseEntry
  al_tracked :: int
  al_recorded :: "64 word"
  al_blocked :: "64 word"
  al_rejected :: "64 word"
  al_expired :: "64 word"
  al_overflowed :: "64 word"
  al_globalBlocked :: "64 word"
  al_cleanupNext :: int
  al_cleanupCursor :: "32 word"

record abuseConfig =
  ac_enabled :: bool
  ac_threshold :: int
  ac_windowSeconds :: int
  ac_blockSeconds :: int
  ac_capacity :: int

definition zero_abuse :: abuseEntry where
  "zero_abuse = \<lparr>ae_failures = 0, ae_windowStart = 0, ae_blockedUntil = 0\<rparr>"

definition newInvalidAuthAbuseLimiter :: "abuseConfig option \<Rightarrow> abuseLimiter option" where
  "newInvalidAuthAbuseLimiter cfgOpt =
    (case cfgOpt of
       None \<Rightarrow> None
     | Some c \<Rightarrow>
         if \<not> ac_enabled c then None
         else if ac_threshold c \<le> 0 \<or> ac_windowSeconds c \<le> 0 \<or> ac_blockSeconds c \<le> 0
                 \<or> ac_capacity c \<le> 0 then None
         else Some \<lparr>al_threshold = ac_threshold c, al_window = ac_windowSeconds c * second,
               al_block = ac_blockSeconds c * second, al_capacity = ac_capacity c,
               al_shards = replicate invalidAuthAbuseShardCount [], al_overflow = zero_abuse,
               al_tracked = 0, al_recorded = 0, al_blocked = 0, al_rejected = 0, al_expired = 0,
               al_overflowed = 0, al_globalBlocked = 0, al_cleanupNext = 0, al_cleanupCursor = 0\<rparr>)"

text \<open>\<open>UnixNano\<close> counts from 1970, instants here from Go's zero time.\<close>

definition unix_epoch :: time where "unix_epoch = 62135596800 * second"

definition unix_nano :: "time \<Rightarrow> int" where "unix_nano t = t - unix_epoch"

section \<open>Operations\<close>

text \<open>The FNV-1a hash that picks a client's shard.\<close>

definition fnv1a32 :: "string \<Rightarrow> 32 word" where
  "fnv1a32 s = foldl (\<lambda>h c. (h XOR of_nat (of_char c)) * 16777619) 2166136261 s"

definition abuse_shard :: "string \<Rightarrow> nat" where
  "abuse_shard key = unat (fnv1a32 key mod 16)"

definition abuse_entryExpired :: "abuseLimiter \<Rightarrow> abuseEntry \<Rightarrow> time \<Rightarrow> bool" where
  "abuse_entryExpired l e now \<longleftrightarrow> \<not> t_after (ae_blockedUntil e) now \<and> \<not> t_after (ae_windowStart e) now
    \<and> \<not> t_before now (t_add (ae_windowStart e) (al_window l))"

definition abuse_get :: "abuseLimiter \<Rightarrow> string \<Rightarrow> abuseEntry option" where
  "abuse_get l key = m_get (al_shards l ! abuse_shard key) key"

definition abuse_put :: "abuseLimiter \<Rightarrow> string \<Rightarrow> abuseEntry \<Rightarrow> abuseLimiter" where
  "abuse_put l key e = l\<lparr>al_shards := (al_shards l)[abuse_shard key :=
     m_set (al_shards l ! abuse_shard key) key e]\<rparr>"

text \<open>Deleting an expired entry, with the two counters that go with it.\<close>

definition abuse_expire :: "abuseLimiter \<Rightarrow> string \<Rightarrow> abuseLimiter" where
  "abuse_expire l key = l\<lparr>al_shards := (al_shards l)[abuse_shard key :=
       m_del (al_shards l ! abuse_shard key) key],
     al_tracked := al_tracked l - 1, al_expired := al_expired l + 1\<rparr>"

definition maybeCleanupAtCapacity :: "abuseLimiter \<Rightarrow> time \<Rightarrow> abuseLimiter" where
  "maybeCleanupAtCapacity l now =
    (if al_tracked l < al_capacity l then l
     else if unix_nano now < al_cleanupNext l then l
     else
       let i = unat (al_cleanupCursor l mod 16);
           shard = al_shards l ! i;
           kept = filter (\<lambda>(k, e). \<not> abuse_entryExpired l e now) shard;
           gone = length shard - length kept
       in l\<lparr>al_cleanupNext := unix_nano (t_add now (100 * millisecond)),
            al_cleanupCursor := al_cleanupCursor l + 1,
            al_shards := (al_shards l)[i := kept],
            al_tracked := al_tracked l - int gone,
            al_expired := al_expired l + of_nat gone\<rparr>)"

definition abuse_reserveEntry :: "abuseLimiter \<Rightarrow> abuseLimiter \<times> bool" where
  "abuse_reserveEntry l =
    (if al_tracked l \<ge> al_capacity l then (l, False)
     else (l\<lparr>al_tracked := al_tracked l + 1\<rparr>, True))"

definition abuse_recordOverflow :: "abuseLimiter \<Rightarrow> time \<Rightarrow> abuseLimiter" where
  "abuse_recordOverflow l0 now =
    (let l = l0\<lparr>al_overflowed := al_overflowed l0 + 1\<rparr>;
         o0 = al_overflow l
     in if t_after (ae_blockedUntil o0) now then l
        else
          let o1 = (if is_zero (ae_windowStart o0)
                       \<or> \<not> t_before now (t_add (ae_windowStart o0) (al_window l))
                    then o0\<lparr>ae_windowStart := now, ae_failures := 0\<rparr> else o0);
              o2 = o1\<lparr>ae_failures := ae_failures o1 + 1\<rparr>
          in if ae_failures o2 \<ge> al_threshold l
             then l\<lparr>al_overflow := \<lparr>ae_failures = 0, ae_windowStart = t_add now (al_block l),
                      ae_blockedUntil = t_add now (al_block l)\<rparr>,
                    al_blocked := al_blocked l + 1\<rparr>
             else l\<lparr>al_overflow := o2\<rparr>)"

definition abuse_checkOverflow :: "abuseLimiter \<Rightarrow> time \<Rightarrow> duration \<times> bool" where
  "abuse_checkOverflow l now =
    (if t_after (ae_blockedUntil (al_overflow l)) now
     then (t_sub (ae_blockedUntil (al_overflow l)) now, True) else (0, False))"

fun abuse_check :: "abuseLimiter option \<Rightarrow> string \<Rightarrow> time \<Rightarrow> abuseLimiter option \<times> duration \<times> bool" where
  "abuse_check None key now = (None, 0, False)"
| "abuse_check (Some l) key now =
    (if key = [] then (Some l, 0, False)
     else
       let l1 = maybeCleanupAtCapacity l now;
           l2 = (case abuse_get l1 key of
                   Some e \<Rightarrow> if abuse_entryExpired l1 e now then abuse_expire l1 key else l1
                 | None \<Rightarrow> l1);
           entry = abuse_get l2 key
       in case entry of
            Some e \<Rightarrow>
              if t_after (ae_blockedUntil e) now
              then (Some (l2\<lparr>al_rejected := al_rejected l2 + 1\<rparr>), t_sub (ae_blockedUntil e) now, True)
              else (Some l2, 0, False)
          | None \<Rightarrow>
              if al_tracked l2 \<ge> al_capacity l2
              then (case abuse_checkOverflow l2 now of (retry, blocked) \<Rightarrow>
                      if blocked
                      then (Some (l2\<lparr>al_rejected := al_rejected l2 + 1,
                                    al_globalBlocked := al_globalBlocked l2 + 1\<rparr>), retry, True)
                      else (Some l2, 0, False))
              else (Some l2, 0, False))"

text \<open>The part of \<open>record\<close> after the client's entry was found or created.\<close>

definition abuse_count :: "abuseLimiter \<Rightarrow> string \<Rightarrow> abuseEntry \<Rightarrow> time \<Rightarrow> abuseLimiter" where
  "abuse_count l key e0 now =
    (if t_after (ae_blockedUntil e0) now then abuse_put l key e0
     else
       let e1 = (if t_after (ae_windowStart e0) now
                    \<or> \<not> t_before now (t_add (ae_windowStart e0) (al_window l))
                 then e0\<lparr>ae_windowStart := now, ae_failures := 0\<rparr> else e0);
           e2 = e1\<lparr>ae_failures := ae_failures e1 + 1\<rparr>
       in if ae_failures e2 \<ge> al_threshold l
          then (abuse_put l key \<lparr>ae_failures = 0, ae_windowStart = t_add now (al_block l),
                  ae_blockedUntil = t_add now (al_block l)\<rparr>)\<lparr>al_blocked := al_blocked l + 1\<rparr>
          else abuse_put l key e2)"

fun abuse_record :: "abuseLimiter option \<Rightarrow> string \<Rightarrow> time \<Rightarrow> abuseLimiter option" where
  "abuse_record None key now = None"
| "abuse_record (Some l) key now =
    (if key = [] then Some l
     else
       let l0 = l\<lparr>al_recorded := al_recorded l + 1\<rparr>;
           l1 = maybeCleanupAtCapacity l0 now;
           l2 = (case abuse_get l1 key of
                   Some e \<Rightarrow> if abuse_entryExpired l1 e now then abuse_expire l1 key else l1
                 | None \<Rightarrow> l1)
       in case abuse_get l2 key of
            Some e \<Rightarrow> Some (abuse_count l2 key e now)
          | None \<Rightarrow>
              (case abuse_reserveEntry l2 of (l3, ok) \<Rightarrow>
                 if \<not> ok then Some (abuse_recordOverflow l3 now)
                 else Some (abuse_count l3 key
                        \<lparr>ae_failures = 0, ae_windowStart = now, ae_blockedUntil = 0\<rparr> now)))"

record abuseHealth =
  ah_enabled :: bool
  ah_tracked :: int
  ah_capacity :: int
  ah_recorded :: "64 word"
  ah_blocks :: "64 word"
  ah_rejected :: "64 word"
  ah_expired :: "64 word"
  ah_overflowed :: "64 word"
  ah_globalBlocked :: "64 word"

definition abuse_health :: "abuseLimiter \<Rightarrow> abuseHealth" where
  "abuse_health l = \<lparr>ah_enabled = True, ah_tracked = al_tracked l, ah_capacity = al_capacity l,
    ah_recorded = al_recorded l, ah_blocks = al_blocked l, ah_rejected = al_rejected l,
    ah_expired = al_expired l, ah_overflowed = al_overflowed l, ah_globalBlocked = al_globalBlocked l\<rparr>"

section \<open>Invariant\<close>

definition abuse_total :: "abuseShard list \<Rightarrow> int" where
  "abuse_total shards = int (sum_list (map length shards))"

definition abuse_ok :: "abuseLimiter \<Rightarrow> bool" where
  "abuse_ok l \<longleftrightarrow> 0 < al_threshold l \<and> 0 < al_window l \<and> 0 < al_block l \<and> 0 < al_capacity l
    \<and> length (al_shards l) = 16
    \<and> (\<forall>i < 16. gomap_ok (al_shards l ! i) \<and> (\<forall>(k, e) \<in> set (al_shards l ! i).
          abuse_shard k = i \<and> 0 \<le> ae_failures e \<and> ae_failures e < al_threshold l))
    \<and> al_tracked l = abuse_total (al_shards l) \<and> al_tracked l \<le> al_capacity l
    \<and> 0 \<le> ae_failures (al_overflow l) \<and> ae_failures (al_overflow l) < al_threshold l"

lemma abuse_shard_less: "abuse_shard key < 16"
proof -
  have "fnv1a32 key mod 16 < 16" by (rule word_mod_less_divisor) simp
  then show ?thesis unfolding abuse_shard_def by (simp add: word_less_nat_alt)
qed

lemma cursor_less: "unat (c mod 16 :: 32 word) < 16"
proof -
  have "c mod 16 < 16" by (rule word_mod_less_divisor) simp
  then show ?thesis by (simp add: word_less_nat_alt)
qed

lemma abuse_total_update:
  "i < length ss \<Longrightarrow> abuse_total (ss[i := s]) = abuse_total ss - int (length (ss ! i)) + int (length s)"
proof (induction ss arbitrary: i)
  case Nil
  then show ?case by simp
next
  case (Cons a ss)
  then show ?case by (cases i) (simp_all add: abuse_total_def)
qed


text \<open>The invariant without the counters, which the operations change in matching ways.\<close>

definition abuse_shards_ok :: "abuseLimiter \<Rightarrow> bool" where
  "abuse_shards_ok l \<longleftrightarrow> length (al_shards l) = 16
    \<and> (\<forall>i < 16. gomap_ok (al_shards l ! i) \<and> (\<forall>(k, e) \<in> set (al_shards l ! i).
          abuse_shard k = i \<and> 0 \<le> ae_failures e \<and> ae_failures e < al_threshold l))"

lemma abuse_okD:
  assumes "abuse_ok l"
  shows "abuse_shards_ok l" "0 < al_threshold l" "0 < al_window l" "0 < al_block l" "0 < al_capacity l"
    "al_tracked l = abuse_total (al_shards l)" "al_tracked l \<le> al_capacity l"
    "0 \<le> ae_failures (al_overflow l)" "ae_failures (al_overflow l) < al_threshold l"
    "length (al_shards l) = 16"
  using assms by (simp_all add: abuse_ok_def abuse_shards_ok_def)

lemma abuse_ok_alt:
  "abuse_ok l \<longleftrightarrow> abuse_shards_ok l \<and> 0 < al_threshold l \<and> 0 < al_window l \<and> 0 < al_block l
    \<and> 0 < al_capacity l \<and> al_tracked l = abuse_total (al_shards l) \<and> al_tracked l \<le> al_capacity l
    \<and> 0 \<le> ae_failures (al_overflow l) \<and> ae_failures (al_overflow l) < al_threshold l"
  by (auto simp: abuse_ok_def abuse_shards_ok_def)

lemma abuse_shards_ok_upd:
  assumes "abuse_shards_ok l" and "i < 16" and "gomap_ok s"
    and "\<forall>(k, e) \<in> set s. abuse_shard k = i \<and> 0 \<le> ae_failures e \<and> ae_failures e < al_threshold l"
  shows "abuse_shards_ok (l\<lparr>al_shards := (al_shards l)[i := s]\<rparr>)"
  using assms unfolding abuse_shards_ok_def by (simp add: nth_list_update)

lemma abuse_shards_ok_cong:
  "al_shards l' = al_shards l \<Longrightarrow> al_threshold l' = al_threshold l \<Longrightarrow> abuse_shards_ok l' = abuse_shards_ok l"
  by (simp add: abuse_shards_ok_def)

lemma abuse_get_ok:
  assumes "abuse_shards_ok l" and "abuse_get l key = Some e"
  shows "0 \<le> ae_failures e" "ae_failures e < al_threshold l"
proof -
  have "(key, e) \<in> set (al_shards l ! abuse_shard key)"
    using assms(2) by (simp add: abuse_get_def map_of_SomeD)
  with assms(1) abuse_shard_less [of key] show "0 \<le> ae_failures e" "ae_failures e < al_threshold l"
    by (auto simp: abuse_shards_ok_def)
qed

lemma abuse_put_ok:
  assumes "abuse_shards_ok l" and "0 \<le> ae_failures e" and "ae_failures e < al_threshold l"
  shows "abuse_shards_ok (abuse_put l key e)"
  unfolding abuse_put_def
proof (rule abuse_shards_ok_upd [OF assms(1) abuse_shard_less])
  have g: "gomap_ok (al_shards l ! abuse_shard key)"
    using assms(1) abuse_shard_less [of key] by (simp add: abuse_shards_ok_def)
  then show "gomap_ok (m_set (al_shards l ! abuse_shard key) key e)"
    by (rule gomap_ok_set)
  have "abuse_shard k = abuse_shard key \<and> 0 \<le> ae_failures e' \<and> ae_failures e' < al_threshold l"
    if "(k, e') \<in> set (m_set (al_shards l ! abuse_shard key) key e)" for k e'
    using m_set_values [OF g that] assms abuse_shard_less [of key] by (auto simp: abuse_shards_ok_def)
  then show "\<forall>(k, e') \<in> set (m_set (al_shards l ! abuse_shard key) key e).
      abuse_shard k = abuse_shard key \<and> 0 \<le> ae_failures e' \<and> ae_failures e' < al_threshold l"
    by blast
qed

lemma abuse_put_total:
  assumes "abuse_shards_ok l"
  shows "abuse_total (al_shards (abuse_put l key e))
    = abuse_total (al_shards l) + (if abuse_get l key = None then 1 else 0)"
  using assms abuse_shard_less [of key]
  by (auto simp: abuse_put_def abuse_total_update abuse_shards_ok_def abuse_get_def
      length_m_set_new length_m_set_old)

lemma abuse_put_fields [simp]:
  "al_threshold (abuse_put l k e) = al_threshold l" "al_window (abuse_put l k e) = al_window l"
  "al_block (abuse_put l k e) = al_block l" "al_capacity (abuse_put l k e) = al_capacity l"
  "al_tracked (abuse_put l k e) = al_tracked l" "al_overflow (abuse_put l k e) = al_overflow l"
  by (simp_all add: abuse_put_def)

lemma abuse_get_put:
  assumes "length (al_shards l) = 16"
  shows "abuse_get (abuse_put l key e) k = (if k = key then Some e else abuse_get l k)"
  using assms abuse_shard_less [of key]
  by (auto simp: abuse_get_def abuse_put_def nth_list_update m_get_set)

lemma abuse_expire_ok:
  assumes "abuse_ok l" and "abuse_get l key = Some e"
  shows "abuse_ok (abuse_expire l key)"
proof -
  let ?m = "al_shards l ! abuse_shard key"
  have so: "abuse_shards_ok l" using assms(1) by (rule abuse_okD)
  then have g: "gomap_ok ?m" using abuse_shard_less [of key] by (simp add: abuse_shards_ok_def)
  have "abuse_shards_ok (l\<lparr>al_shards := (al_shards l)[abuse_shard key := m_del ?m key]\<rparr>)"
    using so abuse_shard_less [of key]
    by (intro abuse_shards_ok_upd [OF so abuse_shard_less] gomap_ok_del [OF g])
       (auto simp: abuse_shards_ok_def dest!: m_del_values)
  then have "abuse_shards_ok (abuse_expire l key)"
    by (simp add: abuse_expire_def abuse_shards_ok_def)
  moreover have "Suc (length (m_del ?m key)) = length ?m"
    using g assms(2) by (intro length_m_del_old) (simp_all add: abuse_get_def)
  ultimately show ?thesis
    using abuse_okD [OF assms(1)] abuse_shard_less [of key]
    by (simp add: abuse_ok_alt abuse_expire_def abuse_total_update)
qed

lemma abuse_get_expire:
  assumes "length (al_shards l) = 16"
  shows "abuse_get (abuse_expire l key) k = (if k = key then None else abuse_get l k)"
  using assms abuse_shard_less [of key]
  by (auto simp: abuse_get_def abuse_expire_def nth_list_update m_get_del)

lemma cleanup_ok:
  assumes "abuse_ok l"
  shows "abuse_ok (maybeCleanupAtCapacity l now)"
proof -
  let ?i = "unat (al_cleanupCursor l mod 16)"
  let ?kept = "filter (\<lambda>(k, e). \<not> abuse_entryExpired l e now) (al_shards l ! ?i)"
  have i: "?i < 16" by (rule cursor_less)
  have so: "abuse_shards_ok l" using assms by (rule abuse_okD)
  have "abuse_shards_ok (l\<lparr>al_shards := (al_shards l)[?i := ?kept]\<rparr>)"
    using so i by (intro abuse_shards_ok_upd [OF so i] gomap_ok_filter) (auto simp: abuse_shards_ok_def)
  moreover have "length ?kept \<le> length (al_shards l ! ?i)" by simp
  ultimately show ?thesis
    using abuse_okD [OF assms] i
    by (simp add: maybeCleanupAtCapacity_def Let_def abuse_ok_alt abuse_total_update
        abuse_shards_ok_def)
qed

text \<open>What cleanup leaves of a client: its entry, unless that has expired.\<close>

lemma cleanup_get:
  assumes "abuse_ok l"
  shows "abuse_get (maybeCleanupAtCapacity l now) key = abuse_get l key
    \<or> (abuse_get (maybeCleanupAtCapacity l now) key = None
       \<and> (\<exists>e. abuse_get l key = Some e \<and> abuse_entryExpired l e now))"
proof -
  have "gomap_ok (al_shards l ! abuse_shard key)"
    using abuse_okD(1) [OF assms] abuse_shard_less [of key] by (simp add: abuse_shards_ok_def)
  from m_get_filter [OF this, of "\<lambda>(k, e). \<not> abuse_entryExpired l e now" key] show ?thesis
    using abuse_okD(10) [OF assms] cursor_less
    by (auto simp: maybeCleanupAtCapacity_def Let_def abuse_get_def nth_list_update
        split: option.splits if_splits)
qed

lemma cleanup_fields [simp]:
  "al_threshold (maybeCleanupAtCapacity l now) = al_threshold l"
  "al_window (maybeCleanupAtCapacity l now) = al_window l"
  "al_block (maybeCleanupAtCapacity l now) = al_block l"
  "al_capacity (maybeCleanupAtCapacity l now) = al_capacity l"
  "al_overflow (maybeCleanupAtCapacity l now) = al_overflow l"
  by (simp_all add: maybeCleanupAtCapacity_def Let_def)

lemma abuse_expire_fields [simp]:
  "al_threshold (abuse_expire l k) = al_threshold l" "al_window (abuse_expire l k) = al_window l"
  "al_block (abuse_expire l k) = al_block l" "al_capacity (abuse_expire l k) = al_capacity l"
  "al_overflow (abuse_expire l k) = al_overflow l"
  by (simp_all add: abuse_expire_def)

lemma entryExpired_cong:
  "al_window l' = al_window l \<Longrightarrow> abuse_entryExpired l' e now = abuse_entryExpired l e now"
  by (simp add: abuse_entryExpired_def)

text \<open>The common prefix of \<open>check\<close> and \<open>record\<close>: cleanup, then dropping the client's expired entry.\<close>

definition abuse_settle :: "abuseLimiter \<Rightarrow> string \<Rightarrow> time \<Rightarrow> abuseLimiter" where
  "abuse_settle l key now =
    (let l1 = maybeCleanupAtCapacity l now
     in case abuse_get l1 key of
          Some e \<Rightarrow> if abuse_entryExpired l1 e now then abuse_expire l1 key else l1
        | None \<Rightarrow> l1)"

lemma abuse_settle_ok: "abuse_ok l \<Longrightarrow> abuse_ok (abuse_settle l key now)"
  by (auto simp: abuse_settle_def Let_def cleanup_ok abuse_expire_ok split: option.splits)

lemma abuse_settle_fields [simp]:
  "al_threshold (abuse_settle l k now) = al_threshold l" "al_window (abuse_settle l k now) = al_window l"
  "al_block (abuse_settle l k now) = al_block l" "al_capacity (abuse_settle l k now) = al_capacity l"
  "al_overflow (abuse_settle l k now) = al_overflow l"
  by (simp_all add: abuse_settle_def Let_def split: option.splits)

lemma abuse_settle_get:
  assumes "abuse_ok l"
  shows "abuse_get (abuse_settle l key now) key =
    (case abuse_get l key of None \<Rightarrow> None
     | Some e \<Rightarrow> if abuse_entryExpired l e now then None else Some e)"
proof (cases "abuse_get l key")
  case None
  then have "abuse_get (maybeCleanupAtCapacity l now) key = None"
    using cleanup_get [OF assms, of now key] by auto
  with None show ?thesis by (simp add: abuse_settle_def)
next
  case (Some e)
  then show ?thesis
    using cleanup_get [OF assms, of now key] abuse_okD(10) [OF cleanup_ok [OF assms, of now]]
    by (auto simp: abuse_settle_def Let_def abuse_get_expire
        entryExpired_cong [of "maybeCleanupAtCapacity l now" l])
qed

lemma abuse_settle_other:
  assumes "abuse_ok l" and "k \<noteq> key"
  shows "abuse_get (abuse_settle l key now) k = abuse_get l k
    \<or> (abuse_get (abuse_settle l key now) k = None
       \<and> (\<exists>e. abuse_get l k = Some e \<and> abuse_entryExpired l e now))"
  using cleanup_get [OF assms(1), of now k] abuse_okD(10) [OF cleanup_ok [OF assms(1), of now]] assms(2)
  by (auto simp: abuse_settle_def Let_def abuse_get_expire split: option.splits)

text \<open>Both operations as settling followed by the operation proper.\<close>

lemma abuse_record_settle:
  assumes "key \<noteq> []"
  shows "abuse_record (Some l) key now =
    (let l2 = abuse_settle (l\<lparr>al_recorded := al_recorded l + 1\<rparr>) key now
     in case abuse_get l2 key of
          Some e \<Rightarrow> Some (abuse_count l2 key e now)
        | None \<Rightarrow> if al_tracked l2 \<ge> al_capacity l2 then Some (abuse_recordOverflow l2 now)
            else Some (abuse_count (l2\<lparr>al_tracked := al_tracked l2 + 1\<rparr>) key
                   \<lparr>ae_failures = 0, ae_windowStart = now, ae_blockedUntil = 0\<rparr> now))"
  using assms
  by (simp only: abuse_record.simps Let_def abuse_settle_def abuse_reserveEntry_def if_False prod.case
      split: option.split) (simp split: option.split)

lemma abuse_check_settle:
  assumes "key \<noteq> []"
  shows "abuse_check (Some l) key now =
    (let l2 = abuse_settle l key now
     in case abuse_get l2 key of
          Some e \<Rightarrow>
            if t_after (ae_blockedUntil e) now
            then (Some (l2\<lparr>al_rejected := al_rejected l2 + 1\<rparr>), t_sub (ae_blockedUntil e) now, True)
            else (Some l2, 0, False)
        | None \<Rightarrow>
            if al_tracked l2 \<ge> al_capacity l2 \<and> t_after (ae_blockedUntil (al_overflow l2)) now
            then (Some (l2\<lparr>al_rejected := al_rejected l2 + 1, al_globalBlocked := al_globalBlocked l2 + 1\<rparr>),
                  t_sub (ae_blockedUntil (al_overflow l2)) now, True)
            else (Some l2, 0, False))"
  using assms
  by (simp only: abuse_check.simps Let_def abuse_settle_def abuse_checkOverflow_def if_False prod.case
      split: option.split) (simp split: option.split)

lemma abuse_ok_counters [simp]:
  "abuse_ok (l\<lparr>al_recorded := a\<rparr>) = abuse_ok l" "abuse_ok (l\<lparr>al_rejected := a\<rparr>) = abuse_ok l"
  "abuse_ok (l\<lparr>al_globalBlocked := a\<rparr>) = abuse_ok l" "abuse_ok (l\<lparr>al_blocked := a\<rparr>) = abuse_ok l"
  "abuse_ok (l\<lparr>al_overflowed := a\<rparr>) = abuse_ok l"
  by (simp_all add: abuse_ok_def)

lemma abuse_get_counters [simp]:
  "abuse_get (l\<lparr>al_recorded := a\<rparr>) k = abuse_get l k" "abuse_get (l\<lparr>al_rejected := a\<rparr>) k = abuse_get l k"
  "abuse_get (l\<lparr>al_globalBlocked := a\<rparr>) k = abuse_get l k"
  "abuse_get (l\<lparr>al_blocked := a\<rparr>) k = abuse_get l k" "abuse_get (l\<lparr>al_tracked := t\<rparr>) k = abuse_get l k"
  "abuse_get (l\<lparr>al_overflow := ov\<rparr>) k = abuse_get l k" "abuse_get (l\<lparr>al_overflowed := a\<rparr>) k = abuse_get l k"
  by (simp_all add: abuse_get_def)

lemma abuse_expired_counters [simp]:
  "abuse_entryExpired (l\<lparr>al_recorded := a\<rparr>) e now = abuse_entryExpired l e now"
  by (simp add: abuse_entryExpired_def)

text \<open>The entry that counting a failure leaves.\<close>

definition abuse_counted :: "abuseLimiter \<Rightarrow> abuseEntry \<Rightarrow> time \<Rightarrow> abuseEntry" where
  "abuse_counted l e now =
    (if now < ae_blockedUntil e then e
     else
       let stale = now < ae_windowStart e \<or> ae_windowStart e + al_window l \<le> now;
           n = (if stale then 1 else ae_failures e + 1)
       in if n \<ge> al_threshold l
          then \<lparr>ae_failures = 0, ae_windowStart = now + al_block l, ae_blockedUntil = now + al_block l\<rparr>
          else \<lparr>ae_failures = n, ae_windowStart = (if stale then now else ae_windowStart e),
                ae_blockedUntil = ae_blockedUntil e\<rparr>)"

lemma abuse_count_put:
  "\<exists>b. abuse_count l key e now = (abuse_put l key (abuse_counted l e now))\<lparr>al_blocked := b\<rparr>"
proof -
  have same: "x = x\<lparr>al_blocked := al_blocked x\<rparr>" for x :: abuseLimiter by simp
  show ?thesis
    by (cases e) (auto simp: abuse_count_def abuse_counted_def Let_def t_add_def
        intro: same)
qed

lemma abuse_counted_range:
  assumes "0 < al_threshold l" and "0 \<le> ae_failures e" and "ae_failures e < al_threshold l"
  shows "0 \<le> ae_failures (abuse_counted l e now)" "ae_failures (abuse_counted l e now) < al_threshold l"
  using assms by (auto simp: abuse_counted_def Let_def)

lemma abuse_count_old_ok:
  assumes "abuse_ok l" and "abuse_get l key = Some e"
  shows "abuse_ok (abuse_count l key e now)"
proof -
  obtain b where b: "abuse_count l key e now = (abuse_put l key (abuse_counted l e now))\<lparr>al_blocked := b\<rparr>"
    using abuse_count_put by blast
  note r = abuse_counted_range [OF abuse_okD(2) [OF assms(1)] abuse_get_ok [OF abuse_okD(1) [OF assms(1)] assms(2)]]
  show ?thesis
    using abuse_okD [OF assms(1)] abuse_put_ok [OF abuse_okD(1) [OF assms(1)] r]
      abuse_put_total [of l key "abuse_counted l e now"] assms(2)
    by (simp add: b) (simp add: abuse_ok_alt)
qed

lemma abuse_count_new_ok:
  assumes "abuse_ok l" and "abuse_get l key = None" and "al_tracked l < al_capacity l"
    and "ae_failures e = 0"
  shows "abuse_ok (abuse_count (l\<lparr>al_tracked := al_tracked l + 1\<rparr>) key e now)"
proof -
  let ?l = "l\<lparr>al_tracked := al_tracked l + 1\<rparr>"
  obtain b where b: "abuse_count ?l key e now = (abuse_put ?l key (abuse_counted ?l e now))\<lparr>al_blocked := b\<rparr>"
    using abuse_count_put by blast
  have so: "abuse_shards_ok ?l"
    using abuse_okD(1) [OF assms(1)] by (simp add: abuse_shards_ok_def)
  have r: "0 \<le> ae_failures (abuse_counted ?l e now)" "ae_failures (abuse_counted ?l e now) < al_threshold ?l"
    using abuse_counted_range [of ?l e now] abuse_okD(2) [OF assms(1)] assms(4) by simp_all
  show ?thesis
    using abuse_okD [OF assms(1)] abuse_put_ok [OF so r] abuse_put_total [OF so, of key "abuse_counted ?l e now"]
      assms(2,3)
    unfolding b by simp (simp add: abuse_ok_alt)
qed

lemma abuse_overflow_ok: "abuse_ok l \<Longrightarrow> abuse_ok (abuse_recordOverflow l now)"
  by (auto simp: abuse_recordOverflow_def abuse_ok_def Let_def)

lemma abuse_record_ok: "abuse_ok l \<Longrightarrow> \<exists>l'. abuse_record (Some l) key now = Some l' \<and> abuse_ok l'"
proof (cases "key = []")
  case False
  assume "abuse_ok l"
  then have "abuse_ok (abuse_settle (l\<lparr>al_recorded := al_recorded l + 1\<rparr>) key now)"
    by (simp add: abuse_settle_ok)
  then show ?thesis
    unfolding abuse_record_settle [OF False] Let_def
    by (auto simp del: abuse_settle_fields split: option.splits
        intro: abuse_count_old_ok abuse_count_new_ok abuse_overflow_ok)
qed simp

lemma abuse_check_ok: "abuse_ok l \<Longrightarrow> \<exists>l'. fst (abuse_check (Some l) key now) = Some l' \<and> abuse_ok l'"
proof (cases "key = []")
  case False
  assume "abuse_ok l"
  then have "abuse_ok (abuse_settle l key now)"
    by (simp add: abuse_settle_ok)
  then show ?thesis
    unfolding abuse_check_settle [OF False] Let_def
    by (auto simp del: abuse_settle_fields split: option.splits)
qed simp

section \<open>Runs of the limiter\<close>

datatype abuseOp = AbuseCheck string time | AbuseRecord string time

fun abuse_step :: "abuseLimiter option \<Rightarrow> abuseOp \<Rightarrow> abuseLimiter option" where
  "abuse_step l (AbuseCheck key now) = fst (abuse_check l key now)"
| "abuse_step l (AbuseRecord key now) = abuse_record l key now"

definition abuse_run :: "abuseLimiter option \<Rightarrow> abuseOp list \<Rightarrow> abuseLimiter option" where
  "abuse_run = foldl abuse_step"

lemma abuse_step_ok: "abuse_ok l \<Longrightarrow> \<exists>l'. abuse_step (Some l) op = Some l' \<and> abuse_ok l'"
  using abuse_record_ok [of l] abuse_check_ok [of l] by (cases op) simp_all

lemma abuse_run_ok: "abuse_ok l \<Longrightarrow> \<exists>l'. abuse_run (Some l) ops = Some l' \<and> abuse_ok l'"
proof (induction ops arbitrary: l)
  case (Cons op ops)
  then obtain l1 where "abuse_step (Some l) op = Some l1" "abuse_ok l1"
    using abuse_step_ok by blast
  with Cons.IH [of l1] show ?case by (simp add: abuse_run_def)
qed (simp add: abuse_run_def)

lemma newInvalidAuthAbuseLimiter_ok:
  "newInvalidAuthAbuseLimiter cfg = Some l \<Longrightarrow> abuse_ok l"
  by (auto simp: newInvalidAuthAbuseLimiter_def abuse_ok_def invalidAuthAbuseShardCount_def second_def
      abuse_total_def sum_list_replicate zero_abuse_def split: option.splits if_splits)

text \<open>The counters of a step do not influence any client's entry.\<close>

lemma abuse_count_get:
  assumes "length (al_shards l) = 16"
  shows "abuse_get (abuse_count l key e now) k = (if k = key then Some (abuse_counted l e now) else abuse_get l k)"
proof -
  obtain b where "abuse_count l key e now = (abuse_put l key (abuse_counted l e now))\<lparr>al_blocked := b\<rparr>"
    using abuse_count_put by blast
  then show ?thesis using assms by (simp add: abuse_get_put)
qed

lemma abuse_counted_tracked [simp]:
  "abuse_counted (l\<lparr>al_tracked := n\<rparr>) e now = abuse_counted l e now"
  by (simp add: abuse_counted_def Let_def)

lemma abuse_overflow_get [simp]: "abuse_get (abuse_recordOverflow l now) k = abuse_get l k"
  by (simp add: abuse_recordOverflow_def Let_def)

text \<open>A client's entry as the operations see it: an expired one counts as absent.\<close>

definition abuse_live :: "abuseLimiter \<Rightarrow> string \<Rightarrow> time \<Rightarrow> abuseEntry option" where
  "abuse_live l key now = (case abuse_get l key of None \<Rightarrow> None
     | Some e \<Rightarrow> if abuse_entryExpired l e now then None else Some e)"

lemma abuse_record_self:
  assumes ok: "abuse_ok l" and key: "key \<noteq> []" and rec: "abuse_record (Some l) key now = Some l'"
  shows "abuse_live l key now = Some e \<Longrightarrow> abuse_get l' key = Some (abuse_counted l e now)"
    and "abuse_live l key now = None \<Longrightarrow>
      (if al_tracked (abuse_settle l key now) < al_capacity l
       then abuse_get l' key = Some (abuse_counted l
              \<lparr>ae_failures = 0, ae_windowStart = now, ae_blockedUntil = 0\<rparr> now)
       else abuse_get l' key = None)"
proof -
  let ?l0 = "l\<lparr>al_recorded := al_recorded l + 1\<rparr>"
  let ?l2 = "abuse_settle ?l0 key now"
  have ok0: "abuse_ok ?l0" using ok by simp
  have ok2: "abuse_ok ?l2" by (rule abuse_settle_ok [OF ok0])
  have get: "abuse_get ?l2 key = abuse_live l key now"
    by (simp add: abuse_settle_get [OF ok0] abuse_live_def split: option.split)
  have cnt: "abuse_counted ?l2 e now = abuse_counted l e now" for e
    by (simp add: abuse_counted_def Let_def)
  have tr: "al_tracked ?l2 = al_tracked (abuse_settle l key now)"
    by (simp add: abuse_settle_def maybeCleanupAtCapacity_def Let_def abuse_expire_def abuse_get_def
        abuse_entryExpired_def split: option.split)
  note len = abuse_okD(10) [OF ok2]
  show "abuse_live l key now = Some e \<Longrightarrow> abuse_get l' key = Some (abuse_counted l e now)"
    using rec len by (auto simp del: abuse_record.simps simp: abuse_record_settle [OF key] get abuse_count_get cnt)
  show "abuse_live l key now = None \<Longrightarrow>
      (if al_tracked (abuse_settle l key now) < al_capacity l
       then abuse_get l' key = Some (abuse_counted l
              \<lparr>ae_failures = 0, ae_windowStart = now, ae_blockedUntil = 0\<rparr> now)
       else abuse_get l' key = None)"
    using rec len by (auto simp del: abuse_record.simps simp: abuse_record_settle [OF key] get abuse_count_get cnt tr)
qed

lemma abuse_step_other:
  assumes ok: "abuse_ok l" and ne: "k \<noteq> key" and op: "op = AbuseRecord key now \<or> op = AbuseCheck key now"
    and st: "abuse_step (Some l) op = Some l'"
  shows "abuse_get l' k = abuse_get l k
    \<or> (abuse_get l' k = None \<and> (\<exists>e. abuse_get l k = Some e \<and> abuse_entryExpired l e now))"
proof (cases "key = []")
  case True
  with op st show ?thesis by auto
next
  case False
  let ?l0 = "l\<lparr>al_recorded := al_recorded l + 1\<rparr>"
  have ok0: "abuse_ok ?l0" using ok by simp
  note len = abuse_okD(10) [OF abuse_settle_ok [OF ok0]]
  from op show ?thesis
  proof
    assume "op = AbuseRecord key now"
    then have "abuse_get l' k = abuse_get (abuse_settle ?l0 key now) k"
      using st ne len by (auto simp del: abuse_record.simps simp: abuse_record_settle [OF False] Let_def abuse_count_get
          split: option.splits if_splits)
    with abuse_settle_other [OF ok0 ne, of now] show ?thesis by simp
  next
    assume "op = AbuseCheck key now"
    then have "abuse_get l' k = abuse_get (abuse_settle l key now) k"
      using st by (auto simp del: abuse_check.simps simp: abuse_check_settle [OF False] Let_def split: option.splits if_splits)
    with abuse_settle_other [OF ok ne, of now] show ?thesis by simp
  qed
qed

section \<open>Properties\<close>

text \<open>A burst of failures of one client, at the instants \<open>ts\<close>.\<close>

definition abuse_burst :: "abuseLimiter option \<Rightarrow> string \<Rightarrow> time list \<Rightarrow> abuseLimiter option" where
  "abuse_burst l key ts = foldl (\<lambda>l t. abuse_record l key t) l ts"

lemma abuse_burst_snoc:
  "abuse_burst l key (ts @ [t]) = abuse_record (abuse_burst l key ts) key t"
  by (simp add: abuse_burst_def)

lemma abuse_record_fields:
  assumes "abuse_record (Some l) key now = Some l'"
  shows "al_threshold l' = al_threshold l \<and> al_window l' = al_window l \<and> al_block l' = al_block l"
proof (cases "key = []")
  case False
  have cnt: "al_threshold (abuse_count m k e now) = al_threshold m \<and> al_window (abuse_count m k e now) = al_window m
      \<and> al_block (abuse_count m k e now) = al_block m" for m k e
    using abuse_count_put [of m k e now] by auto
  have ovf: "al_threshold (abuse_recordOverflow m now) = al_threshold m \<and> al_window (abuse_recordOverflow m now) = al_window m
      \<and> al_block (abuse_recordOverflow m now) = al_block m" for m
    by (simp add: abuse_recordOverflow_def Let_def)
  show ?thesis
    using assms cnt ovf by (auto simp del: abuse_record.simps simp: abuse_record_settle [OF False] Let_def
        split: option.splits if_splits)
qed (use assms in simp)

text \<open>Below the threshold the burst leaves a counting entry, at the threshold a blocking one.\<close>

lemma abuse_burst_counts:
  assumes ok: "abuse_ok l" and key: "key \<noteq> []" and room: "al_tracked (abuse_settle l key t0) < al_capacity l"
    and fresh: "abuse_live l key t0 = None" and pos: "0 < t0"
    and ts: "\<forall>t \<in> set ts. t0 \<le> t \<and> t < t0 + al_window l"
  shows "int (length ts) + 1 < al_threshold l \<Longrightarrow>
    \<exists>l'. abuse_burst (Some l) key (t0 # ts) = Some l' \<and> abuse_ok l' \<and> al_threshold l' = al_threshold l
      \<and> al_window l' = al_window l \<and> al_block l' = al_block l
      \<and> abuse_get l' key = Some \<lparr>ae_failures = int (length ts) + 1, ae_windowStart = t0, ae_blockedUntil = 0\<rparr>"
  using ts
proof (induction ts rule: rev_induct)
  case Nil
  obtain l' where l': "abuse_record (Some l) key t0 = Some l'" "abuse_ok l'"
    using abuse_record_ok [OF ok] by blast
  show ?case
    using abuse_record_self(2) [OF ok key l'(1) fresh] room Nil pos l' abuse_okD(3) [OF ok]
      abuse_record_fields [OF l'(1)]
    by (simp add: abuse_burst_def abuse_counted_def Let_def)
next
  case (snoc t ts)
  then obtain l1 where l1: "abuse_burst (Some l) key (t0 # ts) = Some l1" "abuse_ok l1"
    "al_threshold l1 = al_threshold l" "al_window l1 = al_window l" "al_block l1 = al_block l"
    "abuse_get l1 key = Some \<lparr>ae_failures = int (length ts) + 1, ae_windowStart = t0, ae_blockedUntil = 0\<rparr>"
    by auto
  obtain l' where l': "abuse_record (Some l1) key t = Some l'" "abuse_ok l'"
    using abuse_record_ok [OF l1(2)] by blast
  have "abuse_live l1 key t = Some \<lparr>ae_failures = int (length ts) + 1, ae_windowStart = t0, ae_blockedUntil = 0\<rparr>"
    using l1 snoc.prems by (simp add: abuse_live_def abuse_entryExpired_def t_add_def)
  from abuse_record_self(1) [OF l1(2) key l'(1) this] l1 l' snoc.prems pos abuse_record_fields [OF l'(1)]
  show ?case
    using abuse_burst_snoc [of "Some l" key "t0 # ts" t]
    by (simp add: abuse_counted_def Let_def)
qed

lemma abuse_burst_blocks:
  assumes ok: "abuse_ok l" and key: "key \<noteq> []" and room: "al_tracked (abuse_settle l key t0) < al_capacity l"
    and fresh: "abuse_live l key t0 = None" and pos: "0 < t0"
    and ts: "\<forall>t \<in> set (ts @ [tn]). t0 \<le> t \<and> t < t0 + al_window l"
    and n: "int (length ts) + 2 = al_threshold l"
  shows "\<exists>l'. abuse_burst (Some l) key (t0 # ts @ [tn]) = Some l' \<and> abuse_ok l'
    \<and> abuse_get l' key = Some \<lparr>ae_failures = 0, ae_windowStart = tn + al_block l, ae_blockedUntil = tn + al_block l\<rparr>"
proof -
  obtain l1 where l1: "abuse_burst (Some l) key (t0 # ts) = Some l1" "abuse_ok l1"
    "al_threshold l1 = al_threshold l" "al_window l1 = al_window l" "al_block l1 = al_block l"
    "abuse_get l1 key = Some \<lparr>ae_failures = int (length ts) + 1, ae_windowStart = t0, ae_blockedUntil = 0\<rparr>"
    using abuse_burst_counts [OF ok key room fresh pos, of ts] ts n by auto
  obtain l' where l': "abuse_record (Some l1) key tn = Some l'" "abuse_ok l'"
    using abuse_record_ok [OF l1(2)] by blast
  have "abuse_live l1 key tn = Some \<lparr>ae_failures = int (length ts) + 1, ae_windowStart = t0, ae_blockedUntil = 0\<rparr>"
    using l1 ts by (simp add: abuse_live_def abuse_entryExpired_def t_add_def)
  from abuse_record_self(1) [OF l1(2) key l'(1) this] l1 l' ts n pos
  show ?thesis
    using abuse_burst_snoc [of "Some l" key "t0 # ts" tn]
    by (simp add: abuse_counted_def Let_def)
qed

lemma abuse_check_entry:
  assumes "abuse_ok l" and "key \<noteq> []" and "abuse_get l key = Some e" and "\<not> abuse_entryExpired l e t"
  shows "snd (abuse_check (Some l) key t) =
    (if t < ae_blockedUntil e then (t_sub (ae_blockedUntil e) t, True) else (0, False))"
  using abuse_settle_get [OF assms(1), of key t] assms(3,4)
  by (simp del: abuse_check.simps add: abuse_check_settle [OF assms(2)] Let_def)

lemma abuse_room_total:
  assumes "abuse_ok l" and "al_tracked l < al_capacity l"
  shows "al_tracked (abuse_settle l key now) < al_capacity l"
  using assms abuse_okD(5) [OF assms(1)]
  by (auto simp: abuse_settle_def maybeCleanupAtCapacity_def Let_def abuse_expire_def split: option.splits)

lemma newInvalidAuthAbuseLimiter_fields:
  assumes "newInvalidAuthAbuseLimiter (Some c) = Some l"
  shows "al_threshold l = ac_threshold c" "al_window l = ac_windowSeconds c * second"
    "al_block l = ac_blockSeconds c * second" "al_capacity l = ac_capacity c" "al_tracked l = 0"
    "abuse_get l key = None"
  using assms abuse_shard_less [of key]
  by (auto simp: newInvalidAuthAbuseLimiter_def abuse_get_def invalidAuthAbuseShardCount_def split: if_splits)

text \<open>Whatever sequence of checks and failure reports the limiter sees, at any instants, it never
  holds more client entries than its capacity, its tracked counter is exactly the number of entries
  in the sixteen shards, every entry sits in the shard its key hashes to, and no stored failure
  count (per client or overflow) reaches the threshold.\<close>

theorem abuse_bounded_invariant:
  assumes "newInvalidAuthAbuseLimiter (Some c) = Some l0"
  shows "\<exists>l. abuse_run (Some l0) ops = Some l
    \<and> al_tracked l = int (sum_list (map length (al_shards l)))
    \<and> int (sum_list (map length (al_shards l))) \<le> al_capacity l
    \<and> length (al_shards l) = 16
    \<and> (\<forall>i k e. i < 16 \<and> m_get (al_shards l ! i) k = Some e \<longrightarrow>
          abuse_shard k = i \<and> 0 \<le> ae_failures e \<and> ae_failures e < al_threshold l)
    \<and> ae_failures (al_overflow l) < al_threshold l"
proof -
  obtain l where l: "abuse_run (Some l0) ops = Some l" "abuse_ok l"
    using abuse_run_ok [OF newInvalidAuthAbuseLimiter_ok [OF assms]] by blast
  moreover have "abuse_shard k = i \<and> 0 \<le> ae_failures e \<and> ae_failures e < al_threshold l"
    if "i < 16 \<and> m_get (al_shards l ! i) k = Some e" for i k e
    using abuse_okD(1) [OF l(2)] map_of_SomeD [of "al_shards l ! i" k e] that
    by (auto simp: abuse_shards_ok_def)
  ultimately show ?thesis
    using abuse_okD [OF l(2)] by (auto simp: abuse_total_def)
qed

definition abuse_cfg :: abuseConfig where
  "abuse_cfg = \<lparr>ac_enabled = True, ac_threshold = 3, ac_windowSeconds = 60, ac_blockSeconds = 120, ac_capacity = 2\<rparr>"

lemma abuse_cfg_new:
  "newInvalidAuthAbuseLimiter (Some abuse_cfg) = Some (the (newInvalidAuthAbuseLimiter (Some abuse_cfg)))"
  by (simp add: newInvalidAuthAbuseLimiter_def abuse_cfg_def)

theorem abuse_bounded_invariant_witness:
  "\<exists>l. abuse_run (Some (the (newInvalidAuthAbuseLimiter (Some abuse_cfg))))
         [AbuseRecord ''a'' 5, AbuseRecord ''b'' 6, AbuseRecord ''c'' 7] = Some l
    \<and> al_tracked l \<le> al_capacity l"
  using abuse_bounded_invariant [OF abuse_cfg_new, of "[AbuseRecord ''a'' 5, AbuseRecord ''b'' 6, AbuseRecord ''c'' 7]"]
  by auto

text \<open>A client that is not on record and for which there is room is blocked exactly at the
  threshold: fewer failures than the threshold inside one window never block it, at any later check
  inside that window; the failure that reaches the threshold blocks it until the block duration
  has passed, and each check before that reports the exact remaining time.\<close>

theorem abuse_threshold_blocks:
  assumes ok: "abuse_ok l" and key: "key \<noteq> []" and room: "al_tracked l < al_capacity l"
    and fresh: "abuse_get l key = None" and pos: "0 < t0"
    and ts: "\<forall>t \<in> set ts. t0 \<le> t \<and> t < t0 + al_window l"
  shows "(int (length ts) + 1 < al_threshold l \<and> t0 \<le> u \<and> u < t0 + al_window l \<longrightarrow>
      snd (abuse_check (abuse_burst (Some l) key (t0 # ts)) key u) = (0, False))
    \<and> (int (length ts) + 1 = al_threshold l \<and> ts \<noteq> [] \<and> u < last ts + al_block l \<longrightarrow>
      snd (abuse_check (abuse_burst (Some l) key (t0 # ts)) key u) = (t_sub (last ts + al_block l) u, True))"
proof -
  have live: "abuse_live l key t0 = None" using fresh by (simp add: abuse_live_def)
  note room' = abuse_room_total [OF ok room]
  have "snd (abuse_check (abuse_burst (Some l) key (t0 # ts)) key u) = (0, False)"
    if below: "int (length ts) + 1 < al_threshold l" and u: "t0 \<le> u" "u < t0 + al_window l"
  proof -
    from abuse_burst_counts [OF ok key room' live pos ts below] obtain l' where
      l': "abuse_burst (Some l) key (t0 # ts) = Some l'" "abuse_ok l'" "al_window l' = al_window l"
        "abuse_get l' key = Some \<lparr>ae_failures = int (length ts) + 1, ae_windowStart = t0, ae_blockedUntil = 0\<rparr>"
      by blast
    with abuse_check_entry [OF l'(2) key l'(4), of u] u pos show ?thesis
      by (simp del: abuse_check.simps add: abuse_entryExpired_def t_add_def)
  qed
  moreover have "snd (abuse_check (abuse_burst (Some l) key (t0 # ts)) key u) = (t_sub (last ts + al_block l) u, True)"
    if at: "int (length ts) + 1 = al_threshold l" and ne: "ts \<noteq> []" and u: "u < last ts + al_block l"
  proof -
    have split: "ts = butlast ts @ [last ts]" using ne by simp
    then have "int (length (butlast ts)) + 2 = al_threshold l"
      using at by (metis add.assoc int_Suc length_append_singleton one_add_one add.commute)
    with abuse_burst_blocks [OF ok key room' live pos, of "butlast ts" "last ts"] ts split obtain l' where
      l': "abuse_burst (Some l) key (t0 # ts) = Some l'" "abuse_ok l'"
        "abuse_get l' key = Some \<lparr>ae_failures = 0, ae_windowStart = last ts + al_block l,
           ae_blockedUntil = last ts + al_block l\<rparr>"
      by (metis append_Cons)
    with abuse_check_entry [OF l'(2) key l'(3), of u] u show ?thesis
      by (simp del: abuse_check.simps add: abuse_entryExpired_def)
  qed
  ultimately show ?thesis by blast
qed

theorem abuse_threshold_blocks_witness:
  "snd (abuse_check (abuse_burst (newInvalidAuthAbuseLimiter (Some abuse_cfg)) ''a'' [10, 20]) ''a'' 30) = (0, False)
   \<and> snd (abuse_check (abuse_burst (newInvalidAuthAbuseLimiter (Some abuse_cfg)) ''a'' [10, 20, 30]) ''a'' 40)
       = (119999999990, True)"
proof -
  note new = newInvalidAuthAbuseLimiter_fields [OF abuse_cfg_new]
  note ok = newInvalidAuthAbuseLimiter_ok [OF abuse_cfg_new]
  let ?l = "the (newInvalidAuthAbuseLimiter (Some abuse_cfg))"
  have room: "al_tracked ?l < al_capacity ?l" using new(4,5) by (simp add: abuse_cfg_def)
  have w: "al_window ?l = 60000000000" "al_threshold ?l = 3" "al_block ?l = 120000000000"
    using new(1-3) by (simp_all add: abuse_cfg_def second_def)
  have "snd (abuse_check (abuse_burst (Some ?l) ''a'' (10 # [20])) ''a'' 30) = (0, False)"
    using abuse_threshold_blocks [OF ok, of "''a''" 10 "[20]" 30] room new(6) w by simp
  moreover have "snd (abuse_check (abuse_burst (Some ?l) ''a'' (10 # [20, 30])) ''a'' 40)
      = (t_sub (30 + 120000000000) 40, True)"
    using abuse_threshold_blocks [OF ok, of "''a''" 10 "[20, 30]" 40] room new(6) w by simp
  ultimately show ?thesis
    by (subst (1 2) abuse_cfg_new) (simp add: t_sub_def duration_defs)
qed

text \<open>Clients are isolated: a check or a failure report of one client leaves the entry of every other
  client as it was, except that cleanup may drop an entry that has already expired; in particular
  a client that is blocked stays blocked until its own block has passed.\<close>

theorem abuse_clients_isolated:
  assumes "abuse_ok l" and "k \<noteq> key" and "op = AbuseRecord key now \<or> op = AbuseCheck key now"
    and "abuse_get l k = Some e" and "\<not> abuse_entryExpired l e now"
  shows "abuse_get (the (abuse_step (Some l) op)) k = Some e"
proof -
  obtain l' where l': "abuse_step (Some l) op = Some l'" using abuse_step_ok [OF assms(1)] by blast
  from abuse_step_other [OF assms(1-3) l'] assms(4,5) l' show ?thesis by auto
qed

theorem abuse_clients_isolated_witness:
  "abuse_get (the (abuse_step (Some (abuse_put (the (newInvalidAuthAbuseLimiter (Some abuse_cfg)))
       ''a'' \<lparr>ae_failures = 2, ae_windowStart = 5, ae_blockedUntil = 0\<rparr>\<lparr>al_tracked := 1\<rparr>))
     (AbuseRecord ''b'' 10))) ''a'' = Some \<lparr>ae_failures = 2, ae_windowStart = 5, ae_blockedUntil = 0\<rparr>"
proof -
  let ?l = "the (newInvalidAuthAbuseLimiter (Some abuse_cfg))"
  let ?e = "\<lparr>ae_failures = 2, ae_windowStart = 5, ae_blockedUntil = 0\<rparr>"
  note new = newInvalidAuthAbuseLimiter_fields [OF abuse_cfg_new]
  note ok = newInvalidAuthAbuseLimiter_ok [OF abuse_cfg_new]
  have th: "al_threshold ?l = 3" using new(1) by (simp add: abuse_cfg_def)
  have "abuse_shards_ok (abuse_put ?l ''a'' ?e)"
    by (rule abuse_put_ok [OF abuse_okD(1) [OF ok]]) (simp_all add: th)
  then have "abuse_ok (abuse_put ?l ''a'' ?e\<lparr>al_tracked := 1\<rparr>)"
    using abuse_okD [OF ok] abuse_put_total [OF abuse_okD(1) [OF ok], of "''a''" ?e] new(5,6)
    by (simp add: abuse_ok_alt abuse_shards_ok_def)
  moreover have "abuse_get (abuse_put ?l ''a'' ?e\<lparr>al_tracked := 1\<rparr>) ''a'' = Some ?e"
    using abuse_okD(10) [OF ok] by (simp add: abuse_get_put)
  moreover have "\<not> abuse_entryExpired (abuse_put ?l ''a'' ?e\<lparr>al_tracked := 1\<rparr>) ?e 10"
    using new(2) by (simp add: abuse_entryExpired_def t_add_def abuse_cfg_def second_def)
  ultimately show ?thesis
    by (intro abuse_clients_isolated [where key = "''b''" and now = 10]) simp_all
qed

end
