(* ===== verification/Redis.thy ===== *)
theory Redis
  imports GoText
begin

text \<open>
  Redis, as the code uses it through \<open>go-redis\<close>: a parameter of the model. A record holds one
  function per command, on an arbitrary type of server states; \<open>redis_laws\<close> states the documented
  behaviour of the commands that the theorems rely on.

  \<^item> A sorted set is seen through \<open>ZSCORE\<close>; scores are the integers the code stores (Unix seconds,
    exact in a float64). Counters are seen through \<open>GET\<close> and are decimal integers.
  \<^item> A call over the network (\<open>Script.Run\<close>, a pipeline, a single command) is one round trip: it
    first consults \<open>rd_link\<close>, which may report an error, and then runs atomically. A failed
    round trip has had no effect on the data. Inside one operation no key expires by its TTL;
    the time between operations is an arbitrary change of the server state.
\<close>

section \<open>Commands\<close>

record 'r redis =
  rd_link :: "'r \<Rightarrow> 'r \<times> string option"
  rd_time :: "'r \<Rightarrow> int"
  zadd :: "'r \<Rightarrow> string \<Rightarrow> int \<Rightarrow> string \<Rightarrow> 'r"
  zrem :: "'r \<Rightarrow> string \<Rightarrow> string \<Rightarrow> 'r"
  zremrange :: "'r \<Rightarrow> string \<Rightarrow> int \<Rightarrow> 'r"
  zcard :: "'r \<Rightarrow> string \<Rightarrow> int"
  zscore :: "'r \<Rightarrow> string \<Rightarrow> string \<Rightarrow> int option"
  zrange :: "'r \<Rightarrow> string \<Rightarrow> string list"
  zrangebyscore :: "'r \<Rightarrow> string \<Rightarrow> int \<Rightarrow> nat \<Rightarrow> string list"
  rd_get :: "'r \<Rightarrow> string \<Rightarrow> int option"
  rd_incr :: "'r \<Rightarrow> string \<Rightarrow> 'r"
  rd_decr :: "'r \<Rightarrow> string \<Rightarrow> 'r"
  rd_del :: "'r \<Rightarrow> string \<Rightarrow> 'r"
  rd_expire :: "'r \<Rightarrow> string \<Rightarrow> int \<Rightarrow> 'r"
  rd_scan :: "'r \<Rightarrow> nat \<Rightarrow> string \<Rightarrow> nat \<Rightarrow> string list \<times> nat"
  rd_exists :: "'r \<Rightarrow> string \<Rightarrow> bool"
  rd_set :: "'r \<Rightarrow> string \<Rightarrow> int \<Rightarrow> 'r"

text \<open>One round trip: the error of the connection, or the value and the new state.\<close>

definition round_trip :: "'r redis \<Rightarrow> ('r \<Rightarrow> 'a \<times> 'r) \<Rightarrow> 'r \<Rightarrow> (string + 'a) \<times> 'r" where
  "round_trip R f r =
    (case rd_link R r of
       (r', Some err) \<Rightarrow> (Inl err, r')
     | (r', None) \<Rightarrow> (case f r' of (a, r'') \<Rightarrow> (Inr a, r'')))"

section \<open>Documented behaviour\<close>

definition redis_laws :: "'r redis \<Rightarrow> bool" where
  "redis_laws R \<longleftrightarrow>
    (\<forall>r k m s k' m'. zscore R (zadd R r k s m) k' m' = (if k' = k \<and> m' = m then Some s else zscore R r k' m'))
    \<and> (\<forall>r k m k' m'. zscore R (zrem R r k m) k' m' = (if k' = k \<and> m' = m then None else zscore R r k' m'))
    \<and> (\<forall>r k h k' m'. zscore R (zremrange R r k h) k' m' =
         (if k' = k then (case zscore R r k' m' of None \<Rightarrow> None | Some s \<Rightarrow> if s \<le> h then None else Some s)
          else zscore R r k' m'))
    \<and> (\<forall>r k k' m'. zscore R (rd_incr R r k) k' m' = zscore R r k' m')
    \<and> (\<forall>r k k' m'. zscore R (rd_decr R r k) k' m' = zscore R r k' m')
    \<and> (\<forall>r k k' m'. zscore R (rd_del R r k) k' m' = (if k' = k then None else zscore R r k' m'))
    \<and> (\<forall>r k t k' m'. 0 < t \<longrightarrow> zscore R (rd_expire R r k t) k' m' = zscore R r k' m')
    \<and> (\<forall>r k' m'. zscore R (fst (rd_link R r)) k' m' = zscore R r k' m')
    \<and> (\<forall>r k. finite {m. zscore R r k m \<noteq> None} \<and> zcard R r k = int (card {m. zscore R r k m \<noteq> None}))
    \<and> (\<forall>r k. set (zrange R r k) = {m. zscore R r k m \<noteq> None} \<and> distinct (zrange R r k))
    \<and> (\<forall>r k h n. set (zrangebyscore R r k h n) \<subseteq> {m. \<exists>s. zscore R r k m = Some s \<and> s \<le> h}
         \<and> distinct (zrangebyscore R r k h n))
    \<and> (\<forall>r k k'. rd_get R (rd_incr R r k) k' =
         (if k' = k then Some (1 + (case rd_get R r k of None \<Rightarrow> 0 | Some n \<Rightarrow> n)) else rd_get R r k'))
    \<and> (\<forall>r k k'. rd_get R (rd_decr R r k) k' =
         (if k' = k then Some ((case rd_get R r k of None \<Rightarrow> 0 | Some n \<Rightarrow> n) - 1) else rd_get R r k'))
    \<and> (\<forall>r k k'. rd_get R (rd_del R r k) k' = (if k' = k then None else rd_get R r k'))
    \<and> (\<forall>r k t k'. 0 < t \<longrightarrow> rd_get R (rd_expire R r k t) k' = rd_get R r k')
    \<and> (\<forall>r k s m k'. rd_get R (zadd R r k s m) k' = rd_get R r k')
    \<and> (\<forall>r k m k'. rd_get R (zrem R r k m) k' = rd_get R r k')
    \<and> (\<forall>r k h k'. rd_get R (zremrange R r k h) k' = rd_get R r k')
    \<and> (\<forall>r k'. rd_get R (fst (rd_link R r)) k' = rd_get R r k')
    \<and> (\<forall>r k v k' m'. zscore R (rd_set R r k v) k' m' = (if k' = k then None else zscore R r k' m'))
    \<and> (\<forall>r k v k'. rd_get R (rd_set R r k v) k' = (if k' = k then Some v else rd_get R r k'))"

lemma redis_lawsD:
  assumes "redis_laws R"
  shows "zscore R (zadd R r k s m) k' m' = (if k' = k \<and> m' = m then Some s else zscore R r k' m')"
    "zscore R (zrem R r k m) k' m' = (if k' = k \<and> m' = m then None else zscore R r k' m')"
    "zscore R (zremrange R r k h) k' m' =
         (if k' = k then (case zscore R r k' m' of None \<Rightarrow> None | Some s \<Rightarrow> if s \<le> h then None else Some s)
          else zscore R r k' m')"
    "zscore R (rd_incr R r k) k' m' = zscore R r k' m'"
    "zscore R (rd_decr R r k) k' m' = zscore R r k' m'"
    "zscore R (rd_del R r k) k' m' = (if k' = k then None else zscore R r k' m')"
    "0 < t \<Longrightarrow> zscore R (rd_expire R r k t) k' m' = zscore R r k' m'"
    "zscore R (fst (rd_link R r)) k' m' = zscore R r k' m'"
    "finite {m. zscore R r k m \<noteq> None}"
    "zcard R r k = int (card {m. zscore R r k m \<noteq> None})"
    "set (zrange R r k) = {m. zscore R r k m \<noteq> None}"
    "distinct (zrange R r k)"
    "set (zrangebyscore R r k h n) \<subseteq> {m. \<exists>s. zscore R r k m = Some s \<and> s \<le> h}"
    "distinct (zrangebyscore R r k h n)"
    "rd_get R (rd_incr R r k) k' =
         (if k' = k then Some (1 + (case rd_get R r k of None \<Rightarrow> 0 | Some n \<Rightarrow> n)) else rd_get R r k')"
    "rd_get R (rd_decr R r k) k' =
         (if k' = k then Some ((case rd_get R r k of None \<Rightarrow> 0 | Some n \<Rightarrow> n) - 1) else rd_get R r k')"
    "rd_get R (rd_del R r k) k' = (if k' = k then None else rd_get R r k')"
    "0 < t \<Longrightarrow> rd_get R (rd_expire R r k t) k' = rd_get R r k'"
    "rd_get R (zadd R r k s m) k' = rd_get R r k'"
    "rd_get R (zrem R r k m) k' = rd_get R r k'"
    "rd_get R (zremrange R r k h) k' = rd_get R r k'"
    "rd_get R (fst (rd_link R r)) k' = rd_get R r k'"
    "zscore R (rd_set R r k v) k' m' = (if k' = k then None else zscore R r k' m')"
    "rd_get R (rd_set R r k v) k' = (if k' = k then Some v else rd_get R r k')"
  using assms unfolding redis_laws_def by (simp_all del: not_None_eq)

lemma rd_linkD:
  assumes "redis_laws R" and "rd_link R r = (r', x)"
  shows "zscore R r' k m = zscore R r k m" "rd_get R r' k = rd_get R r k"
  using redis_lawsD(8,22) [OF assms(1), of r] assms(2) by simp_all

text \<open>The members of a sorted set.\<close>

definition zmembers :: "'r redis \<Rightarrow> 'r \<Rightarrow> string \<Rightarrow> string set" where
  "zmembers R r k = {m. zscore R r k m \<noteq> None}"

lemma zcard_members: "redis_laws R \<Longrightarrow> zcard R r k = int (card (zmembers R r k))"
  by (simp add: zmembers_def redis_lawsD(10) del: not_None_eq)

lemma finite_zmembers: "redis_laws R \<Longrightarrow> finite (zmembers R r k)"
  unfolding zmembers_def by (rule redis_lawsD(9))

lemma zmembers_score: "m \<in> zmembers R r k \<longleftrightarrow> zscore R r k m \<noteq> None"
  by (simp add: zmembers_def)

lemma zcard_cong:
  "redis_laws R \<Longrightarrow> (\<And>m. zscore R r k m = zscore R r' k' m) \<Longrightarrow> zcard R r k = zcard R r' k'"
  by (simp add: redis_lawsD(10))

lemma zmembers_zadd:
  "redis_laws R \<Longrightarrow> zmembers R (zadd R r k s m) k' = (if k' = k then insert m (zmembers R r k') else zmembers R r k')"
  by (auto simp: zmembers_def redis_lawsD(1))

lemma zmembers_zrem:
  "redis_laws R \<Longrightarrow> zmembers R (zrem R r k m) k' = (if k' = k then zmembers R r k' - {m} else zmembers R r k')"
  by (auto simp: zmembers_def redis_lawsD(2))

lemma zmembers_zremrange:
  "redis_laws R \<Longrightarrow> zmembers R (zremrange R r k h) k' =
    (if k' = k then {m. \<exists>s. zscore R r k' m = Some s \<and> h < s} else zmembers R r k')"
  by (auto simp: zmembers_def redis_lawsD(3) split: option.splits) (metis linorder_not_le)

lemma zcard_zadd:
  assumes "redis_laws R"
  shows "zcard R (zadd R r k s m) k' =
    (if k' = k \<and> zscore R r k m = None then zcard R r k' + 1 else zcard R r k')"
  using finite_zmembers [OF assms, of r k]
  by (auto simp: zcard_members [OF assms] zmembers_zadd [OF assms] card_insert_if zmembers_score)

lemma zcard_zremrange_le:
  assumes "redis_laws R" shows "zcard R (zremrange R r k h) k' \<le> zcard R r k'"
  using finite_zmembers [OF assms, of r k']
  by (auto simp: zcard_members [OF assms] zmembers_zremrange [OF assms] zmembers_score intro!: card_mono)

lemma zcard_zrem_le:
  assumes "redis_laws R" shows "zcard R (zrem R r k m) k' \<le> zcard R r k'"
  using finite_zmembers [OF assms, of r k']
  by (auto simp: zcard_members [OF assms] zmembers_zrem [OF assms] intro!: card_mono)

lemma zcard_other:
  assumes "redis_laws R"
  shows "zcard R (rd_incr R r k) k' = zcard R r k'" "zcard R (rd_decr R r k) k' = zcard R r k'"
    "0 < t \<Longrightarrow> zcard R (rd_expire R r k t) k' = zcard R r k'"
    "zcard R (fst (rd_link R r)) k' = zcard R r k'"
    "k' \<noteq> k \<Longrightarrow> zcard R (rd_del R r k) k' = zcard R r k'"
  using redis_lawsD [OF assms] by (auto intro!: zcard_cong [OF assms])

lemma zcard_zero: "redis_laws R \<Longrightarrow> zcard R r k = 0 \<longleftrightarrow> zmembers R r k = {}"
  using finite_zmembers [of R r k] by (simp add: zcard_members)

lemma zcard_nonneg: "redis_laws R \<Longrightarrow> 0 \<le> zcard R r k"
  by (simp add: zcard_members)

section \<open>A store in memory\<close>

text \<open>A Redis server that answers every call, for closed instances of the theorems.\<close>

record memRedis =
  mr_now :: int
  mr_sets :: "(string, (string, int) gomap) gomap"
  mr_ints :: "(string, int) gomap"

definition mem_zset :: "memRedis \<Rightarrow> string \<Rightarrow> (string, int) gomap" where
  "mem_zset r k = (case m_get (mr_sets r) k of None \<Rightarrow> [] | Some z \<Rightarrow> z)"

definition mem_put :: "memRedis \<Rightarrow> string \<Rightarrow> (string, int) gomap \<Rightarrow> memRedis" where
  "mem_put r k z = r\<lparr>mr_sets := m_set (mr_sets r) k z\<rparr>"

definition mem_counter :: "memRedis \<Rightarrow> string \<Rightarrow> int" where
  "mem_counter r k = (case m_get (mr_ints r) k of None \<Rightarrow> 0 | Some n \<Rightarrow> n)"

definition mem_keys :: "(string, int) gomap \<Rightarrow> string list" where
  "mem_keys z = remdups (map fst z)"

definition mem_redis :: "memRedis redis" where
  "mem_redis = \<lparr>rd_link = \<lambda>r. (r, None), rd_time = mr_now,
    zadd = \<lambda>r k s m. mem_put r k (m_set (mem_zset r k) m s),
    zrem = \<lambda>r k m. mem_put r k (m_del (mem_zset r k) m),
    zremrange = \<lambda>r k h. mem_put r k (filter (\<lambda>(m, s). h < s)
        (map (\<lambda>m. (m, the (m_get (mem_zset r k) m))) (mem_keys (mem_zset r k)))),
    zcard = \<lambda>r k. int (length (mem_keys (mem_zset r k))),
    zscore = \<lambda>r k. m_get (mem_zset r k),
    zrange = \<lambda>r k. mem_keys (mem_zset r k),
    zrangebyscore = \<lambda>r k h n. take n (filter (\<lambda>m. case m_get (mem_zset r k) m of None \<Rightarrow> False | Some s \<Rightarrow> s \<le> h)
        (mem_keys (mem_zset r k))),
    rd_get = \<lambda>r. m_get (mr_ints r),
    rd_incr = \<lambda>r k. r\<lparr>mr_ints := m_set (mr_ints r) k (mem_counter r k + 1)\<rparr>,
    rd_decr = \<lambda>r k. r\<lparr>mr_ints := m_set (mr_ints r) k (mem_counter r k - 1)\<rparr>,
    rd_del = \<lambda>r k. r\<lparr>mr_sets := m_del (mr_sets r) k, mr_ints := m_del (mr_ints r) k\<rparr>,
    rd_expire = \<lambda>r k t. r,
    rd_scan = \<lambda>r c p n. ([], 0),
    rd_exists = \<lambda>r k. m_get (mr_ints r) k \<noteq> None \<or> mem_zset r k \<noteq> [],
    rd_set = \<lambda>r k v. r\<lparr>mr_sets := m_del (mr_sets r) k, mr_ints := m_set (mr_ints r) k v\<rparr>\<rparr>"

lemma mem_zset_put [simp]: "mem_zset (mem_put r k z) k' = (if k' = k then z else mem_zset r k')"
  by (simp add: mem_zset_def mem_put_def m_get_set)

lemma mem_zset_ints [simp]: "mem_zset (r\<lparr>mr_ints := x\<rparr>) k = mem_zset r k"
  by (simp add: mem_zset_def)

lemma mem_zset_sets [simp]: "mem_zset (r\<lparr>mr_sets := m_del (mr_sets r) k\<rparr>) k' = (if k' = k then [] else mem_zset r k')"
  by (simp add: mem_zset_def m_get_del)

lemma mem_ints_put [simp]: "mr_ints (mem_put r k z) = mr_ints r"
  by (simp add: mem_put_def)

lemma set_mem_keys: "set (mem_keys z) = {m. m_get z m \<noteq> None}"
  by (simp add: mem_keys_def dom_map_of_conv_image_fst [symmetric] dom_def)

lemma mem_get_pruned:
  "m_get (filter (\<lambda>(m, s). h < s) (map (\<lambda>m. (m, the (m_get z m))) (mem_keys z))) m =
    (case m_get z m of None \<Rightarrow> None | Some s \<Rightarrow> if s \<le> h then None else Some s)"
proof -
  let ?l = "map (\<lambda>m. (m, the (m_get z m))) (mem_keys z)"
  have ok: "gomap_ok ?l" by (simp add: gomap_ok_def mem_keys_def comp_def)
  have "m_get ?l m = m_get z m"
    by (simp add: map_of_map_restrict restrict_map_def set_mem_keys)
  then show ?thesis
    by (subst m_get_filter [OF ok]) (auto split: option.split)
qed

lemma mem_redis_laws: "redis_laws mem_redis"
proof -
  have fin: "finite {m. m_get z m \<noteq> None}" for z :: "(string, int) gomap"
    by (metis set_mem_keys List.finite_set)
  have card: "length (mem_keys z) = card {m. m_get z m \<noteq> None}" for z :: "(string, int) gomap"
    by (metis set_mem_keys distinct_card distinct_remdups mem_keys_def)
  have sub: "set (take n (filter P xs)) \<subseteq> {x \<in> set xs. P x}" for n P and xs :: "string list"
    using set_take_subset [of n "filter P xs"] by auto
  have keys: "distinct (mem_keys z)" for z :: "(string, int) gomap" by (simp add: mem_keys_def)
  have range: "set (take n (filter (\<lambda>m. case m_get z m of None \<Rightarrow> False | Some s \<Rightarrow> s \<le> h) (mem_keys z)))
      \<subseteq> {m. \<exists>s. m_get z m = Some s \<and> s \<le> h}" for z :: "(string, int) gomap" and h n
    by (rule order_trans [OF sub]) (auto split: option.splits)
  show ?thesis
    unfolding redis_laws_def
    by (intro conjI allI impI)
       (simp_all add: mem_redis_def m_get_set m_get_del mem_get_pruned fin card set_mem_keys
        mem_counter_def distinct_take keys range del: not_None_eq)
qed

end
