(* ===== verification/ConcurrencyCache.thy ===== *)
theory ConcurrencyCache
  imports Redis
begin

text \<open>
  The distributed concurrency cache (\<open>internal/repository/concurrency_cache.go\<close>): request slots of
  accounts, users and API keys as sorted sets scored by time, live leases, WebSocket ingress leases,
  wait counters, and the active index that finds keys to clean up. Each Lua script is a function
  on the server state, each method runs its script or pipeline as one round trip (theory Redis). The
  receiver is non-nil and holds a client.
\<close>

section \<open>Keys\<close>

definition accountSlotKeyPrefix :: string where "accountSlotKeyPrefix = ''concurrency:account:''"
definition userSlotKeyPrefix :: string where "userSlotKeyPrefix = ''concurrency:user:''"
definition apiKeySlotKeyPrefix :: string where "apiKeySlotKeyPrefix = ''concurrency:api_key:''"
definition liveAccountSlotKeyPrefix :: string where "liveAccountSlotKeyPrefix = ''concurrency:live:account:''"
definition liveUserSlotKeyPrefix :: string where "liveUserSlotKeyPrefix = ''concurrency:live:user:''"
definition liveAPIKeySlotKeyPrefix :: string where "liveAPIKeySlotKeyPrefix = ''concurrency:live:api_key:''"
definition openAIWSIngressLeaseKeyPrefix :: string where
  "openAIWSIngressLeaseKeyPrefix = ''concurrency:openai_ws_ingress:api_key:''"
definition waitQueueKeyPrefix :: string where "waitQueueKeyPrefix = ''concurrency:wait:''"
definition accountWaitKeyPrefix :: string where "accountWaitKeyPrefix = ''wait:account:''"
definition accountActiveIndexKey :: string where "accountActiveIndexKey = ''concurrency:account:active_index''"
definition userActiveIndexKey :: string where "userActiveIndexKey = ''concurrency:user:active_index''"
definition legacyWaitSweepMarkerKey :: string where
  "legacyWaitSweepMarkerKey = ''concurrency:startup:legacy_wait_sweep:v1''"

definition openAIWSIngressLeaseTTLSeconds :: int where "openAIWSIngressLeaseTTLSeconds = 60"
definition liveLeaseTTLSeconds :: int where "liveLeaseTTLSeconds = 60"
definition defaultSlotTTLMinutes :: int where "defaultSlotTTLMinutes = 15"
definition activeIndexCleanupBatchSize :: nat where "activeIndexCleanupBatchSize = 1000"
definition activeIndexPipelineChunkSize :: nat where "activeIndexPipelineChunkSize = 500"

definition accountSlotKey :: "int \<Rightarrow> string" where "accountSlotKey i = accountSlotKeyPrefix @ itoa i"
definition userSlotKey :: "int \<Rightarrow> string" where "userSlotKey i = userSlotKeyPrefix @ itoa i"
definition apiKeySlotKey :: "int \<Rightarrow> string" where "apiKeySlotKey i = apiKeySlotKeyPrefix @ itoa i"
definition liveAccountSlotKey :: "int \<Rightarrow> string" where "liveAccountSlotKey i = liveAccountSlotKeyPrefix @ itoa i"
definition liveUserSlotKey :: "int \<Rightarrow> string" where "liveUserSlotKey i = liveUserSlotKeyPrefix @ itoa i"
definition liveAPIKeySlotKey :: "int \<Rightarrow> string" where "liveAPIKeySlotKey i = liveAPIKeySlotKeyPrefix @ itoa i"
definition openAIWSIngressLeaseKey :: "int \<Rightarrow> string" where
  "openAIWSIngressLeaseKey i = openAIWSIngressLeaseKeyPrefix @ itoa i"
definition waitQueueKey :: "int \<Rightarrow> string" where "waitQueueKey i = waitQueueKeyPrefix @ itoa i"
definition accountWaitKey :: "int \<Rightarrow> string" where "accountWaitKey i = accountWaitKeyPrefix @ itoa i"

lemmas key_defs = accountSlotKey_def userSlotKey_def apiKeySlotKey_def liveAccountSlotKey_def
  liveUserSlotKey_def liveAPIKeySlotKey_def openAIWSIngressLeaseKey_def waitQueueKey_def
  accountWaitKey_def accountSlotKeyPrefix_def userSlotKeyPrefix_def apiKeySlotKeyPrefix_def
  liveAccountSlotKeyPrefix_def liveUserSlotKeyPrefix_def liveAPIKeySlotKeyPrefix_def
  openAIWSIngressLeaseKeyPrefix_def waitQueueKeyPrefix_def accountWaitKeyPrefix_def
  accountActiveIndexKey_def userActiveIndexKey_def

section \<open>Lua scripts\<close>

definition acquireScript ::
  "'r redis \<Rightarrow> string \<Rightarrow> string \<Rightarrow> int \<Rightarrow> int \<Rightarrow> string \<Rightarrow> 'r \<Rightarrow> (int \<times> int) \<times> 'r" where
  "acquireScript R key liveKey maxConcurrency ttl requestID r =
    (let now = rd_time R r;
         expireBefore = now - ttl;
         r1 = zremrange R r key expireBefore;
         r2 = zremrange R r1 liveKey (now - 60)
     in if zscore R r2 key requestID \<noteq> None
        then ((1, now), rd_expire R (zadd R r2 key now requestID) key ttl)
        else
          let count = zcard R r2 key + zcard R r2 liveKey
          in if count < maxConcurrency
             then ((1, now), rd_expire R (zadd R r2 key now requestID) key ttl)
             else ((0, now), r2))"

definition getCountScript :: "'r redis \<Rightarrow> string \<Rightarrow> string \<Rightarrow> int \<Rightarrow> 'r \<Rightarrow> int \<times> 'r" where
  "getCountScript R key liveKey ttl r =
    (let now = rd_time R r;
         expireBefore = now - ttl;
         r1 = zremrange R r key expireBefore;
         r2 = zremrange R r1 liveKey (now - 60)
     in (zcard R r2 key + zcard R r2 liveKey, r2))"

definition acquireLiveLeaseScript ::
  "'r redis \<Rightarrow> string \<Rightarrow> string \<Rightarrow> string \<Rightarrow> string \<Rightarrow> string \<Rightarrow> int \<Rightarrow> int \<Rightarrow> int \<Rightarrow> string \<Rightarrow> int
    \<Rightarrow> 'r \<Rightarrow> int \<times> 'r" where
  "acquireLiveLeaseScript R accountRegular accountLive userRegular userLive apiLive
      accountMax userMax ttl leaseID replacing r =
    (let now = rd_time R r;
         liveExpireBefore = now - ttl;
         r1 = zremrange R r accountLive liveExpireBefore;
         r2 = zremrange R r1 userLive liveExpireBefore;
         r3 = zremrange R r2 apiLive liveExpireBefore
     in if zscore R r3 accountLive leaseID \<noteq> None then (1, r3)
        else
          let accountCount = zcard R r3 accountRegular + zcard R r3 accountLive;
              userCount = zcard R r3 userRegular + zcard R r3 userLive;
              allowance = (if replacing = 1 then 1 else 0)
          in if accountMax > 0 \<and> accountCount \<ge> accountMax + allowance then (0, r3)
             else if userMax > 0 \<and> userCount \<ge> userMax + allowance then (0, r3)
             else
               let r4 = zadd R r3 accountLive now leaseID;
                   r5 = zadd R r4 userLive now leaseID;
                   r6 = zadd R r5 apiLive now leaseID;
                   r7 = rd_expire R r6 accountLive ttl;
                   r8 = rd_expire R r7 userLive ttl;
                   r9 = rd_expire R r8 apiLive ttl
               in (1, r9))"

text \<open>The two loops of \<open>refreshLiveLeaseScript\<close>: the check of every key, then the refresh.\<close>

fun refreshCheck :: "'r redis \<Rightarrow> string list \<Rightarrow> int \<Rightarrow> string \<Rightarrow> 'r \<Rightarrow> bool \<times> 'r" where
  "refreshCheck R [] expireBefore leaseID r = (True, r)"
| "refreshCheck R (key # keys) expireBefore leaseID r =
    (let r1 = zremrange R r key expireBefore
     in if zscore R r1 key leaseID = None then (False, r1)
        else refreshCheck R keys expireBefore leaseID r1)"

fun refreshTouch :: "'r redis \<Rightarrow> string list \<Rightarrow> int \<Rightarrow> int \<Rightarrow> string \<Rightarrow> 'r \<Rightarrow> 'r" where
  "refreshTouch R [] now ttl leaseID r = r"
| "refreshTouch R (key # keys) now ttl leaseID r =
    refreshTouch R keys now ttl leaseID (rd_expire R (zadd R r key now leaseID) key ttl)"

definition refreshLiveLeaseScript :: "'r redis \<Rightarrow> string list \<Rightarrow> int \<Rightarrow> string \<Rightarrow> 'r \<Rightarrow> int \<times> 'r" where
  "refreshLiveLeaseScript R keys ttl leaseID r =
    (let now = rd_time R r
     in case refreshCheck R keys (now - ttl) leaseID r of
          (False, r1) \<Rightarrow> (0, r1)
        | (True, r1) \<Rightarrow> (1, refreshTouch R keys now ttl leaseID r1))"

definition trackSlotScript :: "'r redis \<Rightarrow> string \<Rightarrow> int \<Rightarrow> string \<Rightarrow> 'r \<Rightarrow> int \<times> 'r" where
  "trackSlotScript R key ttl requestID r =
    (let now = rd_time R r;
         r1 = zremrange R r key (now - ttl)
     in (1, rd_expire R (zadd R r1 key now requestID) key ttl))"

definition acquireOpenAIWSIngressLeaseScript ::
  "'r redis \<Rightarrow> string \<Rightarrow> int \<Rightarrow> int \<Rightarrow> string \<Rightarrow> 'r \<Rightarrow> int \<times> 'r" where
  "acquireOpenAIWSIngressLeaseScript R key maxConnections ttl leaseID r =
    (let now = rd_time R r;
         r1 = zremrange R r key (now - ttl)
     in if zscore R r1 key leaseID \<noteq> None
        then (1, rd_expire R (zadd R r1 key now leaseID) key ttl)
        else if zcard R r1 key < maxConnections
        then (1, rd_expire R (zadd R r1 key now leaseID) key ttl)
        else (0, r1))"

definition refreshOpenAIWSIngressLeaseScript ::
  "'r redis \<Rightarrow> string \<Rightarrow> int \<Rightarrow> string \<Rightarrow> 'r \<Rightarrow> int \<times> 'r" where
  "refreshOpenAIWSIngressLeaseScript R key ttl leaseID r =
    (let now = rd_time R r;
         r1 = zremrange R r key (now - ttl)
     in if zscore R r1 key leaseID = None then (0, r1)
        else (1, rd_expire R (zadd R r1 key now leaseID) key ttl))"

definition incrementWaitScript :: "'r redis \<Rightarrow> string \<Rightarrow> int \<Rightarrow> int \<Rightarrow> 'r \<Rightarrow> (int \<times> int) \<times> 'r" where
  "incrementWaitScript R key maxWait ttl r =
    (let current = (case rd_get R r key of None \<Rightarrow> 0 | Some n \<Rightarrow> n);
         now = rd_time R r
     in if current \<ge> maxWait then ((0, now), r)
        else ((1, now), rd_expire R (rd_incr R r key) key ttl))"

definition incrementAccountWaitScript :: "'r redis \<Rightarrow> string \<Rightarrow> int \<Rightarrow> int \<Rightarrow> 'r \<Rightarrow> (int \<times> int) \<times> 'r" where
  "incrementAccountWaitScript R key maxWait ttl r =
    (let current = (case rd_get R r key of None \<Rightarrow> 0 | Some n \<Rightarrow> n);
         now = rd_time R r
     in if current \<ge> maxWait then ((0, now), r)
        else ((1, now), rd_expire R (rd_incr R r key) key ttl))"

definition decrementWaitScript :: "'r redis \<Rightarrow> string \<Rightarrow> 'r \<Rightarrow> int \<times> 'r" where
  "decrementWaitScript R key r =
    (case rd_get R r key of
       Some current \<Rightarrow> (1, if current > 0 then rd_decr R r key else r)
     | None \<Rightarrow> (1, r))"

definition cleanupExpiredSlotsScript :: "'r redis \<Rightarrow> string \<Rightarrow> int \<Rightarrow> 'r \<Rightarrow> int \<times> 'r" where
  "cleanupExpiredSlotsScript R key ttl r =
    (let now = rd_time R r;
         r1 = zremrange R r key (now - ttl)
     in (1, if zcard R r1 key = 0 then rd_del R r1 key else rd_expire R r1 key ttl))"

text \<open>The loop of \<open>startupCleanupSlotScript\<close> over the members; \<open>ZREM\<close> returns how many it removed.\<close>

fun startupRemove :: "'r redis \<Rightarrow> string \<Rightarrow> string \<Rightarrow> string list \<Rightarrow> int \<Rightarrow> 'r \<Rightarrow> int \<times> 'r" where
  "startupRemove R key activePrefix [] removed r = (removed, r)"
| "startupRemove R key activePrefix (m # ms) removed r =
    (if take (length activePrefix) m \<noteq> activePrefix
     then startupRemove R key activePrefix ms
            (removed + (if zscore R r key m = None then 0 else 1)) (zrem R r key m)
     else startupRemove R key activePrefix ms removed r)"

definition startupCleanupSlotScript ::
  "'r redis \<Rightarrow> string \<Rightarrow> string \<Rightarrow> int \<Rightarrow> 'r \<Rightarrow> (int \<times> int) \<times> 'r" where
  "startupCleanupSlotScript R key activePrefix slotTTL r =
    (case startupRemove R key activePrefix (zrange R r key) 0 r of
       (removed, r1) \<Rightarrow>
         let remaining = zcard R r1 key
         in ((removed, remaining),
             if remaining = 0 then rd_del R r1 key else rd_expire R r1 key slotTTL))"

section \<open>The cache and its helpers\<close>

record 'r concurrencyCache =
  rdb :: "'r redis"
  slotTTLSeconds :: int
  waitQueueTTLSeconds :: int

definition NewConcurrencyCache :: "'r redis \<Rightarrow> int \<Rightarrow> int \<Rightarrow> 'r concurrencyCache" where
  "NewConcurrencyCache R slotTTLMinutes0 waitTTL0 =
    (let slotTTLMinutes = (if slotTTLMinutes0 \<le> 0 then defaultSlotTTLMinutes else slotTTLMinutes0);
         waitTTL = (if waitTTL0 \<le> 0 then slotTTLMinutes * 60 else waitTTL0)
     in \<lparr>rdb = R, slotTTLSeconds = slotTTLMinutes * 60, waitQueueTTLSeconds = waitTTL\<rparr>)"

definition redisUnixSeconds :: "'r concurrencyCache \<Rightarrow> 'r \<Rightarrow> (string + int) \<times> 'r" where
  "redisUnixSeconds c r =
    (case round_trip (rdb c) (\<lambda>r. (rd_time (rdb c) r, r)) r of
       (Inl e, r1) \<Rightarrow> (Inl (''redis TIME: '' @ e), r1)
     | (Inr t, r1) \<Rightarrow> (Inr t, r1))"

record slotIndexSpec =
  sp_indexKey :: string
  sp_slotKey :: "int \<Rightarrow> string"
  sp_waitKey :: "int \<Rightarrow> string"

definition accountSlotIndex :: slotIndexSpec where
  "accountSlotIndex = \<lparr>sp_indexKey = accountActiveIndexKey, sp_slotKey = accountSlotKey, sp_waitKey = accountWaitKey\<rparr>"

definition userSlotIndex :: slotIndexSpec where
  "userSlotIndex = \<lparr>sp_indexKey = userActiveIndexKey, sp_slotKey = userSlotKey, sp_waitKey = waitQueueKey\<rparr>"

text \<open>Best-effort operations return only the server state: their errors are logged.\<close>

definition touchActiveIndexAt :: "'r concurrencyCache \<Rightarrow> string \<Rightarrow> int \<Rightarrow> int \<Rightarrow> 'r \<Rightarrow> 'r" where
  "touchActiveIndexAt c indexKey i expireAt r =
    (if i \<le> 0 \<or> expireAt \<le> 0 then r
     else snd (round_trip (rdb c) (\<lambda>r. ((), zadd (rdb c) r indexKey expireAt (itoa i))) r))"

record activeIndexLoad =
  il_id :: int
  il_member :: string
  il_slotCount :: int
  il_waitCount :: int

definition activeIndexTTL :: "'r concurrencyCache \<Rightarrow> int \<Rightarrow> int \<Rightarrow> int" where
  "activeIndexTTL c slotCount waitCount =
    (let ttlSeconds = (if slotCount > 0 then slotTTLSeconds c else 0)
     in if waitCount > 0 \<and> waitQueueTTLSeconds c > ttlSeconds then waitQueueTTLSeconds c else ttlSeconds)"

text \<open>The three commands that read the load of one ID, in one pipeline.\<close>

definition loadCommands ::
  "'r concurrencyCache \<Rightarrow> int \<Rightarrow> string \<Rightarrow> string \<Rightarrow> string \<Rightarrow> int \<Rightarrow> 'r \<Rightarrow> activeIndexLoad \<times> 'r" where
  "loadCommands c i member slotKey waitKey cutoffTime r =
    (let r1 = zremrange (rdb c) r slotKey cutoffTime;
         waitCount = (case rd_get (rdb c) r1 waitKey of Some v \<Rightarrow> if v > 0 then v else 0 | None \<Rightarrow> 0)
     in (\<lparr>il_id = i, il_member = member, il_slotCount = zcard (rdb c) r1 slotKey, il_waitCount = waitCount\<rparr>, r1))"

definition readActiveLoadForKey ::
  "'r concurrencyCache \<Rightarrow> int \<Rightarrow> string \<Rightarrow> string \<Rightarrow> int \<Rightarrow> 'r \<Rightarrow> (string + activeIndexLoad) \<times> 'r" where
  "readActiveLoadForKey c i slotKey waitKey now r =
    (case round_trip (rdb c) (loadCommands c i (itoa i) slotKey waitKey (now - slotTTLSeconds c)) r of
       (Inl e, r1) \<Rightarrow> (Inl (''pipeline exec: '' @ e), r1)
     | (Inr load, r1) \<Rightarrow> (Inr load, r1))"

definition refreshActiveIndex :: "'r concurrencyCache \<Rightarrow> string \<Rightarrow> int \<Rightarrow> string \<Rightarrow> string \<Rightarrow> 'r \<Rightarrow> 'r" where
  "refreshActiveIndex c indexKey i slotKey waitKey r =
    (if i \<le> 0 then r
     else
       case redisUnixSeconds c r of
         (Inl _, r1) \<Rightarrow> r1
       | (Inr now, r1) \<Rightarrow>
           (case readActiveLoadForKey c i slotKey waitKey now r1 of
              (Inl _, r2) \<Rightarrow> r2
            | (Inr load, r2) \<Rightarrow>
                if il_slotCount load = 0 \<and> il_waitCount load \<le> 0
                then snd (round_trip (rdb c) (\<lambda>r. ((), zrem (rdb c) r indexKey (itoa i))) r2)
                else
                  let ttlSeconds = activeIndexTTL c (il_slotCount load) (il_waitCount load)
                  in if ttlSeconds \<le> 0 then r2
                     else touchActiveIndexAt c indexKey i (now + ttlSeconds) r2))"

definition refreshAccountActiveIndex :: "'r concurrencyCache \<Rightarrow> int \<Rightarrow> 'r \<Rightarrow> 'r" where
  "refreshAccountActiveIndex c i = refreshActiveIndex c accountActiveIndexKey i (accountSlotKey i) (accountWaitKey i)"

definition refreshUserActiveIndex :: "'r concurrencyCache \<Rightarrow> int \<Rightarrow> 'r \<Rightarrow> 'r" where
  "refreshUserActiveIndex c i = refreshActiveIndex c userActiveIndexKey i (userSlotKey i) (waitQueueKey i)"

text \<open>Threading the server state through a list of pipelined commands.\<close>

fun pipe_list :: "('x \<Rightarrow> 'r \<Rightarrow> 'a \<times> 'r) \<Rightarrow> 'x list \<Rightarrow> 'r \<Rightarrow> 'a list \<times> 'r" where
  "pipe_list f [] r = ([], r)"
| "pipe_list f (x # xs) r = (case f x r of (a, r1) \<Rightarrow> case pipe_list f xs r1 of (as, r2) \<Rightarrow> (a # as, r2))"

fun indexCandidates :: "string list \<Rightarrow> (int \<times> string) list \<times> string list" where
  "indexCandidates [] = ([], [])"
| "indexCandidates (m # ms) =
    (case indexCandidates ms of (cands, stale) \<Rightarrow>
       (case parse_int m of
          Some i \<Rightarrow> if i \<le> 0 then (cands, m # stale) else ((i, m) # cands, stale)
        | None \<Rightarrow> (cands, m # stale)))"

function readChunks ::
  "'r concurrencyCache \<Rightarrow> slotIndexSpec \<Rightarrow> int \<Rightarrow> (int \<times> string) list \<Rightarrow> 'r \<Rightarrow> (string + activeIndexLoad list) \<times> 'r" where
  "readChunks c spec cutoffTime cands r =
    (if cands = [] then (Inr [], r)
     else
       case round_trip (rdb c)
              (pipe_list (\<lambda>(i, m). loadCommands c i m (sp_slotKey spec i) (sp_waitKey spec i) cutoffTime)
                (take activeIndexPipelineChunkSize cands)) r of
         (Inl e, r1) \<Rightarrow> (Inl (''pipeline exec: '' @ e), r1)
       | (Inr loads, r1) \<Rightarrow>
           (case readChunks c spec cutoffTime (drop activeIndexPipelineChunkSize cands) r1 of
              (Inl e, r2) \<Rightarrow> (Inl e, r2)
            | (Inr rest, r2) \<Rightarrow> (Inr (loads @ rest), r2)))"
  by pat_completeness auto
termination
  by (relation "measure (\<lambda>(c, spec, t, cands, r). length cands)")
     (auto simp: activeIndexPipelineChunkSize_def)

declare readChunks.simps [simp del]

definition readIndexLoads ::
  "'r concurrencyCache \<Rightarrow> slotIndexSpec \<Rightarrow> string list \<Rightarrow> int \<Rightarrow> 'r
    \<Rightarrow> (string + activeIndexLoad list \<times> string list) \<times> 'r" where
  "readIndexLoads c spec members now r =
    (case indexCandidates members of (cands, stale) \<Rightarrow>
       (case readChunks c spec (now - slotTTLSeconds c) cands r of
          (Inl e, r1) \<Rightarrow> (Inl e, r1)
        | (Inr loads, r1) \<Rightarrow> (Inr (loads, stale), r1)))"

definition removeActiveIndexMembers :: "'r concurrencyCache \<Rightarrow> string \<Rightarrow> string list \<Rightarrow> 'r \<Rightarrow> 'r" where
  "removeActiveIndexMembers c indexKey members r =
    (if members = [] then r
     else snd (round_trip (rdb c) (\<lambda>r. ((), foldl (\<lambda>r m. zrem (rdb c) r indexKey m) r members)) r))"

definition addActiveIndexMembers :: "'r concurrencyCache \<Rightarrow> string \<Rightarrow> (int \<times> string) list \<Rightarrow> 'r \<Rightarrow> 'r" where
  "addActiveIndexMembers c indexKey zs r =
    (if zs = [] then r
     else snd (round_trip (rdb c) (\<lambda>r. ((), foldl (\<lambda>r (s, m). zadd (rdb c) r indexKey s m) r zs)) r))"

section \<open>Slots of accounts and users\<close>

definition AcquireAccountSlot ::
  "'r concurrencyCache \<Rightarrow> int \<Rightarrow> int \<Rightarrow> string \<Rightarrow> 'r \<Rightarrow> (string + bool) \<times> 'r" where
  "AcquireAccountSlot c accountID maxConcurrency requestID r =
    (case round_trip (rdb c) (acquireScript (rdb c) (accountSlotKey accountID) (liveAccountSlotKey accountID)
            maxConcurrency (slotTTLSeconds c) requestID) r of
       (Inl e, r1) \<Rightarrow> (Inl e, r1)
     | (Inr (result, now), r1) \<Rightarrow>
         (Inr (result = 1),
          if result = 1 then touchActiveIndexAt c accountActiveIndexKey accountID (now + slotTTLSeconds c) r1
          else r1))"

definition ReleaseAccountSlot :: "'r concurrencyCache \<Rightarrow> int \<Rightarrow> string \<Rightarrow> 'r \<Rightarrow> (string + unit) \<times> 'r" where
  "ReleaseAccountSlot c accountID requestID r =
    (case round_trip (rdb c) (\<lambda>r. ((), zrem (rdb c) r (accountSlotKey accountID) requestID)) r of
       (Inl e, r1) \<Rightarrow> (Inl e, r1)
     | (Inr _, r1) \<Rightarrow> (Inr (), refreshAccountActiveIndex c accountID r1))"

definition GetAccountConcurrency :: "'r concurrencyCache \<Rightarrow> int \<Rightarrow> 'r \<Rightarrow> (string + int) \<times> 'r" where
  "GetAccountConcurrency c accountID r =
    round_trip (rdb c) (getCountScript (rdb c) (accountSlotKey accountID) (liveAccountSlotKey accountID)
      (slotTTLSeconds c)) r"

definition AcquireUserSlot ::
  "'r concurrencyCache \<Rightarrow> int \<Rightarrow> int \<Rightarrow> string \<Rightarrow> 'r \<Rightarrow> (string + bool) \<times> 'r" where
  "AcquireUserSlot c userID maxConcurrency requestID r =
    (case round_trip (rdb c) (acquireScript (rdb c) (userSlotKey userID) (liveUserSlotKey userID)
            maxConcurrency (slotTTLSeconds c) requestID) r of
       (Inl e, r1) \<Rightarrow> (Inl e, r1)
     | (Inr (result, now), r1) \<Rightarrow>
         (Inr (result = 1),
          if result = 1 then touchActiveIndexAt c userActiveIndexKey userID (now + slotTTLSeconds c) r1
          else r1))"

definition ReleaseUserSlot :: "'r concurrencyCache \<Rightarrow> int \<Rightarrow> string \<Rightarrow> 'r \<Rightarrow> (string + unit) \<times> 'r" where
  "ReleaseUserSlot c userID requestID r =
    (case round_trip (rdb c) (\<lambda>r. ((), zrem (rdb c) r (userSlotKey userID) requestID)) r of
       (Inl e, r1) \<Rightarrow> (Inl e, r1)
     | (Inr _, r1) \<Rightarrow> (Inr (), refreshUserActiveIndex c userID r1))"

definition GetUserConcurrency :: "'r concurrencyCache \<Rightarrow> int \<Rightarrow> 'r \<Rightarrow> (string + int) \<times> 'r" where
  "GetUserConcurrency c userID r =
    round_trip (rdb c) (getCountScript (rdb c) (userSlotKey userID) (liveUserSlotKey userID)
      (slotTTLSeconds c)) r"

definition TrackAPIKeySlot :: "'r concurrencyCache \<Rightarrow> int \<Rightarrow> string \<Rightarrow> 'r \<Rightarrow> (string + unit) \<times> 'r" where
  "TrackAPIKeySlot c apiKeyID requestID r =
    (case round_trip (rdb c) (trackSlotScript (rdb c) (apiKeySlotKey apiKeyID) (slotTTLSeconds c) requestID) r of
       (Inl e, r1) \<Rightarrow> (Inl e, r1)
     | (Inr _, r1) \<Rightarrow> (Inr (), r1))"

definition ReleaseAPIKeySlot :: "'r concurrencyCache \<Rightarrow> int \<Rightarrow> string \<Rightarrow> 'r \<Rightarrow> (string + unit) \<times> 'r" where
  "ReleaseAPIKeySlot c apiKeyID requestID =
    round_trip (rdb c) (\<lambda>r. ((), zrem (rdb c) r (apiKeySlotKey apiKeyID) requestID))"

section \<open>Leases\<close>

definition AcquireOpenAIWSIngressLease ::
  "'r concurrencyCache \<Rightarrow> int \<Rightarrow> int \<Rightarrow> string \<Rightarrow> 'r \<Rightarrow> (string + bool) \<times> 'r" where
  "AcquireOpenAIWSIngressLease c apiKeyID maxConnections leaseID r =
    (if apiKeyID \<le> 0 \<or> maxConnections \<le> 0 \<or> leaseID = [] then (Inr False, r)
     else
       case round_trip (rdb c) (acquireOpenAIWSIngressLeaseScript (rdb c) (openAIWSIngressLeaseKey apiKeyID)
              maxConnections openAIWSIngressLeaseTTLSeconds leaseID) r of
         (Inl e, r1) \<Rightarrow> (Inl e, r1)
       | (Inr result, r1) \<Rightarrow> (Inr (result = 1), r1))"

definition RefreshOpenAIWSIngressLease ::
  "'r concurrencyCache \<Rightarrow> int \<Rightarrow> string \<Rightarrow> 'r \<Rightarrow> (string + bool) \<times> 'r" where
  "RefreshOpenAIWSIngressLease c apiKeyID leaseID r =
    (if apiKeyID \<le> 0 \<or> leaseID = [] then (Inr False, r)
     else
       case round_trip (rdb c) (refreshOpenAIWSIngressLeaseScript (rdb c) (openAIWSIngressLeaseKey apiKeyID)
              openAIWSIngressLeaseTTLSeconds leaseID) r of
         (Inl e, r1) \<Rightarrow> (Inl e, r1)
       | (Inr result, r1) \<Rightarrow> (Inr (result = 1), r1))"

definition ReleaseOpenAIWSIngressLease ::
  "'r concurrencyCache \<Rightarrow> int \<Rightarrow> string \<Rightarrow> 'r \<Rightarrow> (string + unit) \<times> 'r" where
  "ReleaseOpenAIWSIngressLease c apiKeyID leaseID r =
    (if apiKeyID \<le> 0 \<or> leaseID = [] then (Inr (), r)
     else round_trip (rdb c) (\<lambda>r. ((), zrem (rdb c) r (openAIWSIngressLeaseKey apiKeyID) leaseID)) r)"

text \<open>On an error the Go methods return \<open>false\<close> with it; here the error stands for both.\<close>

definition AcquireLiveLease ::
  "'r concurrencyCache \<Rightarrow> int \<Rightarrow> int \<Rightarrow> int \<Rightarrow> int \<Rightarrow> int \<Rightarrow> string \<Rightarrow> bool \<Rightarrow> 'r \<Rightarrow> (string + bool) \<times> 'r" where
  "AcquireLiveLease c accountID accountMax userID userMax apiKeyID leaseID replacingRegularSlots r =
    (if accountID \<le> 0 \<or> userID \<le> 0 \<or> apiKeyID \<le> 0 \<or> leaseID = [] then (Inr False, r)
     else
       let replacing = (if replacingRegularSlots then 1 else 0)
       in case round_trip (rdb c) (acquireLiveLeaseScript (rdb c) (accountSlotKey accountID)
              (liveAccountSlotKey accountID) (userSlotKey userID) (liveUserSlotKey userID)
              (liveAPIKeySlotKey apiKeyID) accountMax userMax liveLeaseTTLSeconds leaseID replacing) r of
         (Inl e, r1) \<Rightarrow> (Inl e, r1)
       | (Inr result, r1) \<Rightarrow> (Inr (result = 1), r1))"

definition RefreshLiveLease ::
  "'r concurrencyCache \<Rightarrow> int \<Rightarrow> int \<Rightarrow> int \<Rightarrow> string \<Rightarrow> 'r \<Rightarrow> (string + bool) \<times> 'r" where
  "RefreshLiveLease c accountID userID apiKeyID leaseID r =
    (if leaseID = [] then (Inr False, r)
     else
       case round_trip (rdb c) (refreshLiveLeaseScript (rdb c) [liveAccountSlotKey accountID,
              liveUserSlotKey userID, liveAPIKeySlotKey apiKeyID] liveLeaseTTLSeconds leaseID) r of
         (Inl e, r1) \<Rightarrow> (Inl e, r1)
       | (Inr result, r1) \<Rightarrow> (Inr (result = 1), r1))"

definition ReleaseLiveLease ::
  "'r concurrencyCache \<Rightarrow> int \<Rightarrow> int \<Rightarrow> int \<Rightarrow> string \<Rightarrow> 'r \<Rightarrow> (string + unit) \<times> 'r" where
  "ReleaseLiveLease c accountID userID apiKeyID leaseID r =
    (if leaseID = [] then (Inr (), r)
     else round_trip (rdb c) (\<lambda>r.
       (let r1 = zrem (rdb c) r (liveAccountSlotKey accountID) leaseID;
            r2 = zrem (rdb c) r1 (liveUserSlotKey userID) leaseID
        in ((), zrem (rdb c) r2 (liveAPIKeySlotKey apiKeyID) leaseID))) r)"

section \<open>Wait counters\<close>

definition IncrementWaitCount :: "'r concurrencyCache \<Rightarrow> int \<Rightarrow> int \<Rightarrow> 'r \<Rightarrow> (string + bool) \<times> 'r" where
  "IncrementWaitCount c userID maxWait r =
    (case round_trip (rdb c) (incrementWaitScript (rdb c) (waitQueueKey userID) maxWait (waitQueueTTLSeconds c)) r of
       (Inl e, r1) \<Rightarrow> (Inl e, r1)
     | (Inr (result, now), r1) \<Rightarrow>
         (Inr (result = 1),
          if result = 1 then touchActiveIndexAt c userActiveIndexKey userID (now + waitQueueTTLSeconds c) r1
          else r1))"

definition DecrementWaitCount :: "'r concurrencyCache \<Rightarrow> int \<Rightarrow> 'r \<Rightarrow> (string + unit) \<times> 'r" where
  "DecrementWaitCount c userID r =
    (case round_trip (rdb c) (decrementWaitScript (rdb c) (waitQueueKey userID)) r of
       (Inl e, r1) \<Rightarrow> (Inl e, r1)
     | (Inr _, r1) \<Rightarrow> (Inr (), refreshUserActiveIndex c userID r1))"

definition IncrementAccountWaitCount :: "'r concurrencyCache \<Rightarrow> int \<Rightarrow> int \<Rightarrow> 'r \<Rightarrow> (string + bool) \<times> 'r" where
  "IncrementAccountWaitCount c accountID maxWait r =
    (case round_trip (rdb c) (incrementAccountWaitScript (rdb c) (accountWaitKey accountID) maxWait (waitQueueTTLSeconds c)) r of
       (Inl e, r1) \<Rightarrow> (Inl e, r1)
     | (Inr (result, now), r1) \<Rightarrow>
         (Inr (result = 1),
          if result = 1 then touchActiveIndexAt c accountActiveIndexKey accountID (now + waitQueueTTLSeconds c) r1
          else r1))"

definition DecrementAccountWaitCount :: "'r concurrencyCache \<Rightarrow> int \<Rightarrow> 'r \<Rightarrow> (string + unit) \<times> 'r" where
  "DecrementAccountWaitCount c accountID r =
    (case round_trip (rdb c) (decrementWaitScript (rdb c) (accountWaitKey accountID)) r of
       (Inl e, r1) \<Rightarrow> (Inl e, r1)
     | (Inr _, r1) \<Rightarrow> (Inr (), refreshAccountActiveIndex c accountID r1))"

definition GetAccountWaitingCount :: "'r concurrencyCache \<Rightarrow> int \<Rightarrow> 'r \<Rightarrow> (string + int) \<times> 'r" where
  "GetAccountWaitingCount c accountID =
    round_trip (rdb c) (\<lambda>r. (case rd_get (rdb c) r (accountWaitKey accountID) of None \<Rightarrow> 0 | Some v \<Rightarrow> v, r))"

section \<open>Batch reads\<close>

definition concurrencyCount :: "'r concurrencyCache \<Rightarrow> (int \<Rightarrow> string) \<Rightarrow> (int \<Rightarrow> string) \<Rightarrow> int \<Rightarrow> int \<Rightarrow> 'r \<Rightarrow> (int \<times> int) \<times> 'r" where
  "concurrencyCount c slotKey liveKey now i r =
    (let r1 = zremrange (rdb c) r (slotKey i) (now - slotTTLSeconds c);
         r2 = zremrange (rdb c) r1 (liveKey i) (now - liveLeaseTTLSeconds)
     in ((i, zcard (rdb c) r2 (slotKey i) + zcard (rdb c) r2 (liveKey i)), r2))"

definition concurrencyBatch ::
  "'r concurrencyCache \<Rightarrow> (int \<Rightarrow> string) \<Rightarrow> (int \<Rightarrow> string) \<Rightarrow> int list \<Rightarrow> 'r
    \<Rightarrow> (string + (int, int) gomap) \<times> 'r" where
  "concurrencyBatch c slotKey liveKey ids r =
    (if ids = [] then (Inr [], r)
     else
       case redisUnixSeconds c r of
         (Inl e, r1) \<Rightarrow> (Inl e, r1)
       | (Inr now, r1) \<Rightarrow>
           (case round_trip (rdb c) (pipe_list (concurrencyCount c slotKey liveKey now) ids) r1 of
              (Inl e, r2) \<Rightarrow> (Inl (''pipeline exec: '' @ e), r2)
            | (Inr cmds, r2) \<Rightarrow> (Inr (foldl (\<lambda>m (i, n). m_set m i n) [] cmds), r2)))"

definition GetAccountConcurrencyBatch ::
  "'r concurrencyCache \<Rightarrow> int list \<Rightarrow> 'r \<Rightarrow> (string + (int, int) gomap) \<times> 'r" where
  "GetAccountConcurrencyBatch c = concurrencyBatch c accountSlotKey liveAccountSlotKey"

definition GetAPIKeyConcurrencyBatch ::
  "'r concurrencyCache \<Rightarrow> int list \<Rightarrow> 'r \<Rightarrow> (string + (int, int) gomap) \<times> 'r" where
  "GetAPIKeyConcurrencyBatch c = concurrencyBatch c apiKeySlotKey liveAPIKeySlotKey"

record withConcurrency =
  wc_ID :: int
  wc_MaxConcurrency :: int

record loadInfo =
  li_ID :: int
  li_CurrentConcurrency :: int
  li_WaitingCount :: int
  li_LoadRate :: int

definition loadOf ::
  "'r concurrencyCache \<Rightarrow> (int \<Rightarrow> string) \<Rightarrow> (int \<Rightarrow> string) \<Rightarrow> (int \<Rightarrow> string) \<Rightarrow> int \<Rightarrow> withConcurrency
    \<Rightarrow> 'r \<Rightarrow> loadInfo \<times> 'r" where
  "loadOf c slotKey liveKey waitKey now a r =
    (let r1 = zremrange (rdb c) r (slotKey (wc_ID a)) (now - slotTTLSeconds c);
         r2 = zremrange (rdb c) r1 (liveKey (wc_ID a)) (now - liveLeaseTTLSeconds);
         currentConcurrency = zcard (rdb c) r2 (slotKey (wc_ID a)) + zcard (rdb c) r2 (liveKey (wc_ID a));
         waitingCount = (case rd_get (rdb c) r2 (waitKey (wc_ID a)) of None \<Rightarrow> 0 | Some v \<Rightarrow> v);
         loadRate = (if wc_MaxConcurrency a > 0
                     then go_div ((currentConcurrency + waitingCount) * 100) (wc_MaxConcurrency a) else 0)
     in (\<lparr>li_ID = wc_ID a, li_CurrentConcurrency = currentConcurrency, li_WaitingCount = waitingCount,
          li_LoadRate = loadRate\<rparr>, r2))"

definition loadBatch ::
  "'r concurrencyCache \<Rightarrow> (int \<Rightarrow> string) \<Rightarrow> (int \<Rightarrow> string) \<Rightarrow> (int \<Rightarrow> string) \<Rightarrow> withConcurrency list \<Rightarrow> 'r
    \<Rightarrow> (string + (int, loadInfo) gomap) \<times> 'r" where
  "loadBatch c slotKey liveKey waitKey accounts r =
    (if accounts = [] then (Inr [], r)
     else
       case redisUnixSeconds c r of
         (Inl e, r1) \<Rightarrow> (Inl e, r1)
       | (Inr now, r1) \<Rightarrow>
           (case round_trip (rdb c) (pipe_list (loadOf c slotKey liveKey waitKey now) accounts) r1 of
              (Inl e, r2) \<Rightarrow> (Inl (''pipeline exec: '' @ e), r2)
            | (Inr cmds, r2) \<Rightarrow> (Inr (foldl (\<lambda>m li. m_set m (li_ID li) li) [] cmds), r2)))"

definition GetAccountsLoadBatch ::
  "'r concurrencyCache \<Rightarrow> withConcurrency list \<Rightarrow> 'r \<Rightarrow> (string + (int, loadInfo) gomap) \<times> 'r" where
  "GetAccountsLoadBatch c = loadBatch c accountSlotKey liveAccountSlotKey accountWaitKey"

definition GetUsersLoadBatch ::
  "'r concurrencyCache \<Rightarrow> withConcurrency list \<Rightarrow> 'r \<Rightarrow> (string + (int, loadInfo) gomap) \<times> 'r" where
  "GetUsersLoadBatch c = loadBatch c userSlotKey liveUserSlotKey waitQueueKey"

section \<open>Cleanup\<close>

definition CleanupExpiredAccountSlots :: "'r concurrencyCache \<Rightarrow> int \<Rightarrow> 'r \<Rightarrow> (string + unit) \<times> 'r" where
  "CleanupExpiredAccountSlots c accountID r =
    (case round_trip (rdb c) (cleanupExpiredSlotsScript (rdb c) (accountSlotKey accountID) (slotTTLSeconds c)) r of
       (Inl e, r1) \<Rightarrow> (Inl e, r1)
     | (Inr _, r1) \<Rightarrow> (Inr (), refreshAccountActiveIndex c accountID r1))"

definition indexLoadGone :: "activeIndexLoad \<Rightarrow> bool" where
  "indexLoadGone load \<longleftrightarrow> il_slotCount load = 0 \<and> il_waitCount load \<le> 0"

definition reconcileExpiredIndexCandidates ::
  "'r concurrencyCache \<Rightarrow> slotIndexSpec \<Rightarrow> 'r \<Rightarrow> (string + unit) \<times> 'r" where
  "reconcileExpiredIndexCandidates c spec r =
    (case redisUnixSeconds c r of
       (Inl e, r1) \<Rightarrow> (Inl e, r1)
     | (Inr now, r1) \<Rightarrow>
         (case round_trip (rdb c) (\<lambda>r. (zrangebyscore (rdb c) r (sp_indexKey spec) now activeIndexCleanupBatchSize, r)) r1 of
            (Inl e, r2) \<Rightarrow> (Inl (''read expired index '' @ sp_indexKey spec @ '': '' @ e), r2)
          | (Inr members, r2) \<Rightarrow>
              (case readIndexLoads c spec members now r2 of
                 (Inl e, r3) \<Rightarrow> (Inl e, r3)
               | (Inr (loads, stale), r3) \<Rightarrow>
                   let staleMembers = stale @ map il_member (filter indexLoadGone loads);
                       refreshed = map (\<lambda>l. (now + activeIndexTTL c (il_slotCount l) (il_waitCount l), il_member l))
                         (filter (\<lambda>l. \<not> indexLoadGone l) loads);
                       r4 = addActiveIndexMembers c (sp_indexKey spec) refreshed r3
                   in (Inr (), removeActiveIndexMembers c (sp_indexKey spec) staleMembers r4))))"

definition CleanupExpiredAccountSlotKeys :: "'r concurrencyCache \<Rightarrow> 'r \<Rightarrow> (string + unit) \<times> 'r" where
  "CleanupExpiredAccountSlotKeys c r =
    (case reconcileExpiredIndexCandidates c accountSlotIndex r of
       (Inl e, r1) \<Rightarrow> (Inl e, r1)
     | (Inr _, r1) \<Rightarrow> reconcileExpiredIndexCandidates c userSlotIndex r1)"

text \<open>The \<open>SCAN\<close> loop for one pattern. It ends when the server returns cursor 0; that is the server's
  doing, so the loop is partial: \<open>None\<close> is a scan that never ends.\<close>

partial_function (option) sweepPattern ::
  "'r concurrencyCache \<Rightarrow> string \<Rightarrow> nat \<Rightarrow> 'r \<Rightarrow> ((string + unit) \<times> 'r) option" where
  "sweepPattern c pattern cursor r =
    (case round_trip (rdb c) (\<lambda>r. (rd_scan (rdb c) r cursor pattern 200, r)) r of
       (Inl e, r1) \<Rightarrow> Some (Inl (''scan legacy wait keys '' @ pattern @ '': '' @ e), r1)
     | (Inr (keys, cont), r1) \<Rightarrow>
         (case (if keys = [] then (Inr (), r1)
                else round_trip (rdb c) (\<lambda>r. ((), foldl (rd_del (rdb c)) r keys)) r1) of
            (Inl e, r2) \<Rightarrow> Some (Inl (''delete legacy wait keys: '' @ e), r2)
          | (Inr _, r2) \<Rightarrow> if cont = 0 then Some (Inr (), r2) else sweepPattern c pattern cont r2))"

definition sweepLegacyWaitKeysOnce :: "'r concurrencyCache \<Rightarrow> 'r \<Rightarrow> ((string + unit) \<times> 'r) option" where
  "sweepLegacyWaitKeysOnce c r =
    (case round_trip (rdb c) (\<lambda>r. (rd_exists (rdb c) r legacyWaitSweepMarkerKey, r)) r of
       (Inl e, r1) \<Rightarrow> Some (Inl (''check legacy wait sweep marker: '' @ e), r1)
     | (Inr ex, r1) \<Rightarrow>
         if ex then Some (Inr (), r1)
         else
           (case sweepPattern c (accountWaitKeyPrefix @ ''*'') 0 r1 of
             None \<Rightarrow> None
           | Some (Inl e, r2) \<Rightarrow> Some (Inl e, r2)
           | Some (Inr _, r2) \<Rightarrow>
               (case sweepPattern c (waitQueueKeyPrefix @ ''*'') 0 r2 of
                  None \<Rightarrow> None
                | Some (Inl e, r3) \<Rightarrow> Some (Inl e, r3)
                | Some (Inr _, r3) \<Rightarrow>
                    (case round_trip (rdb c) (\<lambda>r. ((), rd_set (rdb c) r legacyWaitSweepMarkerKey 1)) r3 of
                       (Inl e, r4) \<Rightarrow> Some (Inl (''set legacy wait sweep marker: '' @ e), r4)
                     | (Inr _, r4) \<Rightarrow> Some (Inr (), r4)))))"

definition allIndexMembers :: "'r concurrencyCache \<Rightarrow> string \<Rightarrow> 'r \<Rightarrow> (string + string list) \<times> 'r" where
  "allIndexMembers c indexKey r =
    (case round_trip (rdb c) (\<lambda>r. (zrange (rdb c) r indexKey, r)) r of
       (Inl e, r1) \<Rightarrow> (Inl (''read active index '' @ indexKey @ '': '' @ e), r1)
     | (Inr ms, r1) \<Rightarrow> (Inr ms, r1))"

text \<open>One member of an index: its slots are cleaned, its wait counter is deleted; the result is the number
  of slots that remain.\<close>

definition staleMember ::
  "'r concurrencyCache \<Rightarrow> slotIndexSpec \<Rightarrow> string \<Rightarrow> int \<Rightarrow> 'r \<Rightarrow> (string + int) \<times> 'r" where
  "staleMember c spec activePrefix i r =
    (case round_trip (rdb c) (startupCleanupSlotScript (rdb c) (sp_slotKey spec i) activePrefix (slotTTLSeconds c)) r of
       (Inl e, r1) \<Rightarrow> (Inl (''cleanup stale process slots '' @ sp_slotKey spec i @ '': '' @ e), r1)
     | (Inr (_, remaining), r1) \<Rightarrow>
         (case round_trip (rdb c) (\<lambda>r. ((), rd_del (rdb c) r (sp_waitKey spec i))) r1 of
            (Inl e, r2) \<Rightarrow> (Inl (''delete stale wait key '' @ sp_waitKey spec i @ '': '' @ e), r2)
          | (Inr _, r2) \<Rightarrow> (Inr remaining, r2)))"

text \<open>The loop over the members of an index: their verdicts, as (refreshed, stale).\<close>

fun staleLoop ::
  "'r concurrencyCache \<Rightarrow> slotIndexSpec \<Rightarrow> string \<Rightarrow> int \<Rightarrow> string list \<Rightarrow> (int \<times> string) list \<Rightarrow> string list \<Rightarrow> 'r
    \<Rightarrow> (string + (int \<times> string) list \<times> string list) \<times> 'r" where
  "staleLoop c spec activePrefix now [] refreshed stale r = (Inr (refreshed, stale), r)"
| "staleLoop c spec activePrefix now (m # ms) refreshed stale r =
    (case parse_int m of
       None \<Rightarrow> staleLoop c spec activePrefix now ms refreshed (stale @ [m]) r
     | Some i \<Rightarrow>
         if i \<le> 0 then staleLoop c spec activePrefix now ms refreshed (stale @ [m]) r
         else
           (case staleMember c spec activePrefix i r of
              (Inl e, r1) \<Rightarrow> (Inl e, r1)
            | (Inr remaining, r1) \<Rightarrow>
                if remaining > 0
                then staleLoop c spec activePrefix now ms (refreshed @ [(now + slotTTLSeconds c, m)]) stale r1
                else staleLoop c spec activePrefix now ms refreshed (stale @ [m]) r1))"

definition cleanupStaleProcessSlotsForIndex ::
  "'r concurrencyCache \<Rightarrow> slotIndexSpec \<Rightarrow> string list \<Rightarrow> string \<Rightarrow> int \<Rightarrow> 'r \<Rightarrow> (string + unit) \<times> 'r" where
  "cleanupStaleProcessSlotsForIndex c spec members activePrefix now r =
    (case staleLoop c spec activePrefix now members [] [] r of
       (Inl e, r1) \<Rightarrow> (Inl e, r1)
     | (Inr (refreshed, stale), r1) \<Rightarrow>
         (Inr (), removeActiveIndexMembers c (sp_indexKey spec) stale
            (addActiveIndexMembers c (sp_indexKey spec) refreshed r1)))"

definition cleanupStaleIndex ::
  "'r concurrencyCache \<Rightarrow> slotIndexSpec \<Rightarrow> string \<Rightarrow> int \<Rightarrow> 'r \<Rightarrow> (string + unit) \<times> 'r" where
  "cleanupStaleIndex c spec activePrefix now r =
    (case allIndexMembers c (sp_indexKey spec) r of
       (Inl e, r1) \<Rightarrow> (Inl e, r1)
     | (Inr ms, r1) \<Rightarrow> cleanupStaleProcessSlotsForIndex c spec ms activePrefix now r1)"

definition CleanupStaleProcessSlots :: "'r concurrencyCache \<Rightarrow> string \<Rightarrow> 'r \<Rightarrow> ((string + unit) \<times> 'r) option" where
  "CleanupStaleProcessSlots c activePrefix r =
    (if activePrefix = [] then Some (Inr (), r)
     else
       case sweepLegacyWaitKeysOnce c r of
         None \<Rightarrow> None
       | Some (Inl e, r1) \<Rightarrow> Some (Inl e, r1)
       | Some (Inr _, r1) \<Rightarrow>
           (case redisUnixSeconds c r1 of
              (Inl e, r2) \<Rightarrow> Some (Inl e, r2)
            | (Inr now, r2) \<Rightarrow>
                (case cleanupStaleIndex c accountSlotIndex activePrefix now r2 of
                   (Inl e, r3) \<Rightarrow> Some (Inl e, r3)
                 | (Inr _, r3) \<Rightarrow> Some (cleanupStaleIndex c userSlotIndex activePrefix now r3))))"

end
