(* ===== verification/ConcurrencyFacts.thy ===== *)
theory ConcurrencyFacts
  imports ConcurrencyCache
begin

text \<open>
  What the concurrency cache guarantees (the model is in theory ConcurrencyCache): key spaces are
  disjoint, no operation except an admission adds a member to a slot set, so the load of an account
  stays within its limit; leases that were lost are not recreated; wait counters stay in range; a
  startup cleanup leaves exactly the slots of the running process.
\<close>

section \<open>Key spaces\<close>

lemma itoa_not_index [simp]: "itoa n \<noteq> ''active_index''"
proof
  assume a: "itoa n = ''active_index''"
  obtain c cs where "itoa n = c # cs" "c = CHR ''-'' \<or> (\<exists>d < 10. c = digit_char d)"
    using itoa_hd by blast
  with a have "\<exists>d < 10. CHR ''a'' = digit_char d" by auto
  then obtain d where "d < 10" "CHR ''a'' = digit_char d" by blast
  then have "of_char (CHR ''a'') = (48 + d :: nat)" using of_char_digit by metis
  with \<open>d < 10\<close> show False by simp
qed

lemma itoa_not_index' [simp]: "''active_index'' \<noteq> itoa n"
  using itoa_not_index [of n] by metis

lemma keys_inject [simp]:
  "accountSlotKey i = accountSlotKey j \<longleftrightarrow> i = j" "userSlotKey i = userSlotKey j \<longleftrightarrow> i = j"
  "liveAccountSlotKey i = liveAccountSlotKey j \<longleftrightarrow> i = j" "liveUserSlotKey i = liveUserSlotKey j \<longleftrightarrow> i = j"
  "liveAPIKeySlotKey i = liveAPIKeySlotKey j \<longleftrightarrow> i = j" "apiKeySlotKey i = apiKeySlotKey j \<longleftrightarrow> i = j"
  "openAIWSIngressLeaseKey i = openAIWSIngressLeaseKey j \<longleftrightarrow> i = j"
  "waitQueueKey i = waitQueueKey j \<longleftrightarrow> i = j" "accountWaitKey i = accountWaitKey j \<longleftrightarrow> i = j"
  by (simp_all add: key_defs)

lemma account_key_distinct [simp]:
  "accountSlotKey i \<noteq> liveAccountSlotKey j" "accountSlotKey i \<noteq> userSlotKey j"
  "accountSlotKey i \<noteq> liveUserSlotKey j" "accountSlotKey i \<noteq> apiKeySlotKey j"
  "accountSlotKey i \<noteq> liveAPIKeySlotKey j" "accountSlotKey i \<noteq> openAIWSIngressLeaseKey j"
  "accountSlotKey i \<noteq> accountActiveIndexKey" "accountSlotKey i \<noteq> userActiveIndexKey"
  "accountSlotKey i \<noteq> waitQueueKey j" "accountSlotKey i \<noteq> accountWaitKey j"
  by (simp_all add: key_defs)

lemma live_account_key_distinct [simp]:
  "liveAccountSlotKey i \<noteq> accountSlotKey j" "liveAccountSlotKey i \<noteq> userSlotKey j"
  "liveAccountSlotKey i \<noteq> liveUserSlotKey j" "liveAccountSlotKey i \<noteq> apiKeySlotKey j"
  "liveAccountSlotKey i \<noteq> liveAPIKeySlotKey j" "liveAccountSlotKey i \<noteq> openAIWSIngressLeaseKey j"
  "liveAccountSlotKey i \<noteq> accountActiveIndexKey" "liveAccountSlotKey i \<noteq> userActiveIndexKey"
  "liveAccountSlotKey i \<noteq> waitQueueKey j" "liveAccountSlotKey i \<noteq> accountWaitKey j"
  by (simp_all add: key_defs)

lemma user_key_distinct [simp]:
  "userSlotKey i \<noteq> accountSlotKey j" "userSlotKey i \<noteq> liveAccountSlotKey j" "userSlotKey i \<noteq> liveUserSlotKey j"
  "userSlotKey i \<noteq> accountActiveIndexKey" "userSlotKey i \<noteq> userActiveIndexKey"
  "userSlotKey i \<noteq> waitQueueKey j" "userSlotKey i \<noteq> accountWaitKey j" "userSlotKey i \<noteq> liveAPIKeySlotKey j"
  "liveUserSlotKey i \<noteq> userSlotKey j" "liveUserSlotKey i \<noteq> accountSlotKey j"
  "liveUserSlotKey i \<noteq> liveAccountSlotKey j" "liveUserSlotKey i \<noteq> liveAPIKeySlotKey j"
  "liveAPIKeySlotKey i \<noteq> liveUserSlotKey j" "liveAPIKeySlotKey i \<noteq> liveAccountSlotKey j"
  "waitQueueKey i \<noteq> accountWaitKey j" "accountWaitKey i \<noteq> waitQueueKey j"
  "waitQueueKey i \<noteq> userSlotKey j" "accountWaitKey i \<noteq> accountSlotKey j"
  by (simp_all add: key_defs)

lemmas keys_distinct_sym [simp] = account_key_distinct [symmetric] live_account_key_distinct [symmetric]

section \<open>Members only leave, except where a key is written\<close>

definition grows :: "'r redis \<Rightarrow> string set \<Rightarrow> 'r \<Rightarrow> 'r \<Rightarrow> bool" where
  "grows R K r r' \<longleftrightarrow> (\<forall>k. k \<notin> K \<longrightarrow> zmembers R r' k \<subseteq> zmembers R r k)"

named_theorems growth \<open>which keys an operation can add members to\<close>

lemma grows_refl [growth]: "grows R K r r"
  by (simp add: grows_def)

lemma grows_trans: "grows R K r r' \<Longrightarrow> grows R K r' r'' \<Longrightarrow> grows R K r r''"
  unfolding grows_def by blast

lemma grows_mono: "grows R K r r' \<Longrightarrow> K \<subseteq> K' \<Longrightarrow> grows R K' r r'"
  unfolding grows_def by blast

lemma grows_members: "grows R K r r' \<Longrightarrow> k \<notin> K \<Longrightarrow> zmembers R r' k \<subseteq> zmembers R r k"
  by (simp add: grows_def)

lemma grows_card: "redis_laws R \<Longrightarrow> grows R K r r' \<Longrightarrow> k \<notin> K \<Longrightarrow> zcard R r' k \<le> zcard R r k"
  by (simp add: zcard_members card_mono finite_zmembers grows_members)

lemma grows_commands:
  assumes "redis_laws R"
  shows "k \<in> K \<Longrightarrow> grows R K r (zadd R r k s m)" "grows R K r (zrem R r k m)"
    "grows R K r (zremrange R r k h)" "grows R K r (rd_incr R r k)" "grows R K r (rd_decr R r k)"
    "grows R K r (rd_del R r k)" "0 < t \<Longrightarrow> grows R K r (rd_expire R r k t)"
    "grows R K r (fst (rd_link R r))"
  using redis_lawsD [OF assms] by (auto simp: grows_def zmembers_def split: option.splits if_splits)

lemma grows_add_old:
  "redis_laws R \<Longrightarrow> m \<in> zmembers R r k \<Longrightarrow> grows R K r (zadd R r k s m)"
  by (auto simp: grows_def zmembers_zadd)

text \<open>A command after another one: the form in which the scripts nest them.\<close>

lemma grows_after:
  assumes "redis_laws R" and "grows R K r r'"
  shows "k \<in> K \<Longrightarrow> grows R K r (zadd R r' k s m)" "grows R K r (zrem R r' k m)"
    "grows R K r (zremrange R r' k h)" "grows R K r (rd_incr R r' k)" "grows R K r (rd_decr R r' k)"
    "grows R K r (rd_del R r' k)" "0 < t \<Longrightarrow> grows R K r (rd_expire R r' k t)"
    "grows R K r (fst (rd_link R r'))"
  using grows_trans [OF assms(2)] grows_commands [OF assms(1)] by metis+

lemma grows_round_trip:
  assumes "redis_laws R" and "\<And>r'. grows R K r' (snd (f r'))"
  shows "grows R K r (snd (round_trip R f r))"
  using grows_trans [OF grows_commands(8) [OF assms(1), of K r] assms(2) [of "fst (rd_link R r)"]]
    grows_commands(8) [OF assms(1), of K r]
  by (auto simp: round_trip_def split: prod.splits option.splits)

lemma grows_foldl:
  assumes "\<And>r x. x \<in> set xs \<Longrightarrow> grows R K r (f r x)"
  shows "grows R K r (foldl f r xs)"
  using assms
proof (induction xs arbitrary: r)
  case (Cons x xs)
  have "grows R K (f r x) (foldl f (f r x) xs)" using Cons by simp
  with Cons.prems [of x r] show ?case by (auto intro: grows_trans)
qed (simp add: growth)

section \<open>Growth of each operation\<close>

definition cache_ok :: "'r concurrencyCache \<Rightarrow> bool" where
  "cache_ok c \<longleftrightarrow> redis_laws (rdb c) \<and> 0 < slotTTLSeconds c \<and> 0 < waitQueueTTLSeconds c"

lemma NewConcurrencyCache_ok: "redis_laws R \<Longrightarrow> cache_ok (NewConcurrencyCache R a b)"
  by (auto simp: cache_ok_def NewConcurrencyCache_def Let_def defaultSlotTTLMinutes_def)

lemma cache_okD: "cache_ok c \<Longrightarrow> redis_laws (rdb c)" "cache_ok c \<Longrightarrow> 0 < slotTTLSeconds c"
  "cache_ok c \<Longrightarrow> 0 < waitQueueTTLSeconds c"
  by (simp_all add: cache_ok_def)

lemma grows_touch:
  "cache_ok c \<Longrightarrow> k \<in> K \<Longrightarrow> grows (rdb c) K r (touchActiveIndexAt c k i e r)"
  unfolding touchActiveIndexAt_def
  by (auto intro!: growth grows_round_trip grows_commands cache_okD)

lemma grows_unix: "cache_ok c \<Longrightarrow> redisUnixSeconds c r = (x, r') \<Longrightarrow> grows (rdb c) K r r'"
  using grows_round_trip [of "rdb c" K "\<lambda>r. (rd_time (rdb c) r, r)" r]
  by (auto simp: redisUnixSeconds_def cache_okD growth split: prod.splits sum.splits)

lemma grows_loadCommands: "cache_ok c \<Longrightarrow> grows (rdb c) K r (snd (loadCommands c i m k w t r))"
  by (auto simp: loadCommands_def Let_def intro!: grows_commands cache_okD)

lemma grows_round_trip':
  "redis_laws R \<Longrightarrow> round_trip R f r = (x, r') \<Longrightarrow> (\<And>r'. grows R K r' (snd (f r'))) \<Longrightarrow> grows R K r r'"
  using grows_round_trip [of R K f r] by simp

lemma grows_readLoad:
  "cache_ok c \<Longrightarrow> readActiveLoadForKey c i k w t r = (x, r') \<Longrightarrow> grows (rdb c) K r r'"
  using grows_round_trip' [OF cache_okD(1), of c "loadCommands c i (itoa i) k w (t - slotTTLSeconds c)" r]
  by (auto simp: readActiveLoadForKey_def grows_loadCommands split: prod.splits sum.splits)

lemma grows_refreshIndex:
  assumes "cache_ok c" and "idx \<in> K"
  shows "grows (rdb c) K r (refreshActiveIndex c idx i k w r)"
proof -
  have rem: "grows (rdb c) K r (snd (round_trip (rdb c) (\<lambda>r. ((), zrem (rdb c) r idx m)) r))" for r m
    using assms by (auto intro!: grows_round_trip grows_commands cache_okD)
  have read: "grows (rdb c) K r (snd (readActiveLoadForKey c i k w t r))" for r t
    using grows_readLoad [OF assms(1)] by (metis prod.collapse)
  show ?thesis
  proof (cases "i \<le> 0")
    case False
    show ?thesis
    proof (cases "redisUnixSeconds c r")
      case (Pair x r1)
      note g1 = grows_unix [OF assms(1) Pair, of K]
      show ?thesis
      proof (cases x)
        case (Inr now)
        obtain y r2 where y: "readActiveLoadForKey c i k w now r1 = (y, r2)" by force
        note g2 = grows_trans [OF g1 grows_readLoad [OF assms(1) y]]
        show ?thesis
          using False Pair Inr y g2 grows_trans [OF g2 rem] grows_trans [OF g2 grows_touch [OF assms]]
          by (auto simp: refreshActiveIndex_def Let_def split: sum.splits)
      qed (use False Pair g1 in \<open>simp add: refreshActiveIndex_def\<close>)
    qed
  qed (simp add: refreshActiveIndex_def growth)
qed

lemma grows_refreshAccount:
  "cache_ok c \<Longrightarrow> accountActiveIndexKey \<in> K \<Longrightarrow> grows (rdb c) K r (refreshAccountActiveIndex c i r)"
  by (simp add: refreshAccountActiveIndex_def grows_refreshIndex)

lemma grows_refreshUser:
  "cache_ok c \<Longrightarrow> userActiveIndexKey \<in> K \<Longrightarrow> grows (rdb c) K r (refreshUserActiveIndex c i r)"
  by (simp add: refreshUserActiveIndex_def grows_refreshIndex)

lemma grows_acquireScript:
  assumes "redis_laws R" and "0 < ttl" and "k \<in> K"
  shows "grows R K r (snd (acquireScript R k l mx ttl q r))"
  using assms by (auto simp: acquireScript_def Let_def intro!: grows_after growth)

lemma grows_countScript:
  assumes "redis_laws R" shows "grows R K r (snd (getCountScript R k l ttl r))"
  using assms by (auto simp: getCountScript_def Let_def intro!: grows_after growth)

lemma grows_liveScript:
  assumes "redis_laws R" and "0 < ttl" and "{al, ul, kl} \<subseteq> K"
  shows "grows R K r (snd (acquireLiveLeaseScript R ar al ur ul kl am um ttl q rep r))"
  using assms by (auto simp: acquireLiveLeaseScript_def Let_def intro!: grows_after growth)

text \<open>A refresh adds nothing: the check loop has seen the lease under every key.\<close>

lemma refreshCheck_keeps:
  assumes "redis_laws R"
  shows "refreshCheck R keys eb q r = (ok, r') \<Longrightarrow> zscore R r k m = Some s \<Longrightarrow> eb < s \<Longrightarrow> zscore R r' k m = Some s"
proof (induction keys arbitrary: r)
  case (Cons key keys)
  have "zscore R (zremrange R r key eb) k m = Some s"
    using Cons.prems by (auto simp: redis_lawsD(3) [OF assms])
  with Cons show ?case by (auto simp: Let_def split: if_splits)
qed simp

lemma refreshCheck_holds:
  assumes "redis_laws R"
  shows "refreshCheck R keys eb q r = (True, r') \<Longrightarrow> key \<in> set keys \<Longrightarrow> \<exists>s. zscore R r' key q = Some s \<and> eb < s"
proof (induction keys arbitrary: r)
  case (Cons k keys)
  let ?r1 = "zremrange R r k eb"
  have c: "zscore R ?r1 k q \<noteq> None" "refreshCheck R keys eb q ?r1 = (True, r')"
    using Cons.prems(1) by (auto simp: Let_def split: if_splits)
  show ?case
  proof (cases "key = k")
    case True
    obtain s where "zscore R ?r1 k q = Some s" "eb < s"
      using c(1) by (auto simp: redis_lawsD(3) [OF assms] split: option.splits if_splits)
    with refreshCheck_keeps [OF assms c(2)] True show ?thesis by blast
  next
    case False
    with Cons c show ?thesis by simp
  qed
qed simp

lemma grows_refreshCheck:
  assumes "redis_laws R"
  shows "grows R K r (snd (refreshCheck R keys eb q r))"
proof (induction keys arbitrary: r)
  case (Cons k keys)
  show ?case
    using grows_trans [OF grows_commands(3) [OF assms] Cons.IH] grows_commands(3) [OF assms]
    by (simp add: Let_def)
qed (simp add: growth)

lemma grows_refreshTouch:
  assumes "redis_laws R" and "0 < ttl"
  shows "(\<And>k. k \<in> set keys \<Longrightarrow> q \<in> zmembers R r k) \<Longrightarrow> grows R K r (refreshTouch R keys now ttl q r)"
proof (induction keys arbitrary: r)
  case (Cons k keys)
  let ?r = "rd_expire R (zadd R r k now q) k ttl"
  have g: "grows R K r ?r"
    using assms Cons.prems [of k] by (auto intro: grows_after(7) grows_add_old)
  have "q \<in> zmembers R ?r k'" if "k' \<in> set keys" for k'
    using assms Cons.prems [of k'] that by (simp add: zmembers_def redis_lawsD)
  then have "grows R K ?r (refreshTouch R keys now ttl q ?r)" by (rule Cons.IH)
  with g show ?case by (auto intro: grows_trans)
qed (simp add: growth)

lemma grows_refreshScript:
  assumes "redis_laws R" and "0 < ttl"
  shows "grows R K r (snd (refreshLiveLeaseScript R keys ttl q r))"
proof -
  obtain ok r1 where c: "refreshCheck R keys (rd_time R r - ttl) q r = (ok, r1)" by force
  have g1: "grows R K r r1" using grows_refreshCheck [OF assms(1), of K r keys] c by (metis snd_conv)
  show ?thesis
  proof (cases ok)
    case True
    then have "grows R K r1 (refreshTouch R keys (rd_time R r) ttl q r1)"
      using refreshCheck_holds [OF assms(1)] c
      by (intro grows_refreshTouch [OF assms]) (fastforce simp: zmembers_def)
    with g1 True c show ?thesis by (auto simp: refreshLiveLeaseScript_def Let_def intro: grows_trans)
  next
    case False
    with g1 c show ?thesis by (simp add: refreshLiveLeaseScript_def Let_def)
  qed
qed

lemma grows_otherScripts:
  assumes "redis_laws R" and "0 < ttl"
  shows "k \<in> K \<Longrightarrow> grows R K r (snd (trackSlotScript R k ttl q r))"
    "k \<in> K \<Longrightarrow> grows R K r (snd (acquireOpenAIWSIngressLeaseScript R k n ttl q r))"
    "grows R K r (snd (incrementWaitScript R k n ttl r))"
    "grows R K r (snd (incrementAccountWaitScript R k n ttl r))"
    "grows R K r (snd (decrementWaitScript R k r))"
    "grows R K r (snd (cleanupExpiredSlotsScript R k ttl r))"
  using assms
  by (auto simp: trackSlotScript_def acquireOpenAIWSIngressLeaseScript_def incrementWaitScript_def
      incrementAccountWaitScript_def decrementWaitScript_def cleanupExpiredSlotsScript_def Let_def
      split: option.splits intro!: grows_after growth)

lemma grows_ingressRefresh:
  assumes "redis_laws R" and "0 < ttl"
  shows "grows R K r (snd (refreshOpenAIWSIngressLeaseScript R k ttl q r))"
proof (cases "zscore R (zremrange R r k (rd_time R r - ttl)) k q")
  case None
  then show ?thesis using assms by (simp add: refreshOpenAIWSIngressLeaseScript_def grows_commands)
next
  case (Some s)
  then have "q \<in> zmembers R (zremrange R r k (rd_time R r - ttl)) k" by (simp add: zmembers_def)
  from grows_trans [OF grows_commands(3) [OF assms(1)] grows_add_old [OF assms(1) this]] Some assms
  show ?thesis by (auto simp: refreshOpenAIWSIngressLeaseScript_def Let_def intro: grows_after(7))
qed

lemma grows_startupRemove:
  assumes "redis_laws R"
  shows "grows R K r (snd (startupRemove R k p ms n r))"
proof (induction ms arbitrary: n r)
  case (Cons m ms)
  then show ?case
    using grows_trans [OF grows_commands(2) [OF assms] Cons.IH] by simp
qed (simp add: growth)

lemma grows_startupScript:
  assumes "redis_laws R" and "0 < ttl"
  shows "grows R K r (snd (startupCleanupSlotScript R k p ttl r))"
  using assms grows_startupRemove [OF assms(1), of K r k p "zrange R r k" 0]
  by (auto simp: startupCleanupSlotScript_def Let_def split: prod.splits intro!: grows_after)

text \<open>A method that runs one round trip and continues on its outcome.\<close>

lemma grows_case:
  assumes "redis_laws R" and "\<And>r'. grows R K r' (snd (f r'))"
    and "\<And>e r1. grows R K r r1 \<Longrightarrow> grows R K r (snd (h e r1))"
    and "\<And>a r1. grows R K r r1 \<Longrightarrow> grows R K r (snd (g a r1))"
  shows "grows R K r (snd (case round_trip R f r of (x, r1) \<Rightarrow> case x of Inl e \<Rightarrow> h e r1 | Inr a \<Rightarrow> g a r1))"
  using grows_round_trip' [OF assms(1), of f r _ _ K] assms(2-4)
  by (cases "round_trip R f r") (auto split: sum.split)

lemma grows_if:
  "(\<not> b \<Longrightarrow> grows R K r (snd x)) \<Longrightarrow> grows R K r (snd (if b then (v, r) else x))"
  by (simp add: growth)

text \<open>The methods: each leaves every set but the ones it writes without new members.\<close>

lemma grows_methods:
  assumes "cache_ok c"
  shows "{accountSlotKey a, accountActiveIndexKey} \<subseteq> K \<Longrightarrow> grows (rdb c) K r (snd (AcquireAccountSlot c a mx q r))"
    "{userSlotKey u, userActiveIndexKey} \<subseteq> K \<Longrightarrow> grows (rdb c) K r (snd (AcquireUserSlot c u mx q r))"
    "accountActiveIndexKey \<in> K \<Longrightarrow> grows (rdb c) K r (snd (ReleaseAccountSlot c a q r))"
    "userActiveIndexKey \<in> K \<Longrightarrow> grows (rdb c) K r (snd (ReleaseUserSlot c u q r))"
    "grows (rdb c) K r (snd (GetAccountConcurrency c a r))"
    "grows (rdb c) K r (snd (GetUserConcurrency c u r))"
    "apiKeySlotKey k \<in> K \<Longrightarrow> grows (rdb c) K r (snd (TrackAPIKeySlot c k q r))"
    "grows (rdb c) K r (snd (ReleaseAPIKeySlot c k q r))"
    "openAIWSIngressLeaseKey k \<in> K \<Longrightarrow> grows (rdb c) K r (snd (AcquireOpenAIWSIngressLease c k n q r))"
    "grows (rdb c) K r (snd (RefreshOpenAIWSIngressLease c k q r))"
    "grows (rdb c) K r (snd (ReleaseOpenAIWSIngressLease c k q r))"
    "{liveAccountSlotKey a, liveUserSlotKey u, liveAPIKeySlotKey k} \<subseteq> K \<Longrightarrow>
      grows (rdb c) K r (snd (AcquireLiveLease c a am u um k q rep r))"
    "grows (rdb c) K r (snd (RefreshLiveLease c a u k q r))"
    "grows (rdb c) K r (snd (ReleaseLiveLease c a u k q r))"
    "userActiveIndexKey \<in> K \<Longrightarrow> grows (rdb c) K r (snd (IncrementWaitCount c u n r))"
    "userActiveIndexKey \<in> K \<Longrightarrow> grows (rdb c) K r (snd (DecrementWaitCount c u r))"
    "accountActiveIndexKey \<in> K \<Longrightarrow> grows (rdb c) K r (snd (IncrementAccountWaitCount c a n r))"
    "accountActiveIndexKey \<in> K \<Longrightarrow> grows (rdb c) K r (snd (DecrementAccountWaitCount c a r))"
    "grows (rdb c) K r (snd (GetAccountWaitingCount c a r))"
    "accountActiveIndexKey \<in> K \<Longrightarrow> grows (rdb c) K r (snd (CleanupExpiredAccountSlots c a r))"
proof -
  note ok = cache_okD [OF assms]
  have ttl: "0 < openAIWSIngressLeaseTTLSeconds" "0 < liveLeaseTTLSeconds"
    by (simp_all add: openAIWSIngressLeaseTTLSeconds_def liveLeaseTTLSeconds_def)
  have then_touch: "grows (rdb c) K r (touchActiveIndexAt c k i e r1)"
    if "grows (rdb c) K r r1" "k \<in> K" for k i e r1
    using grows_trans [OF that(1) grows_touch [OF assms that(2)]] .
  have then_acc: "grows (rdb c) K r (refreshAccountActiveIndex c i r1)"
    if "grows (rdb c) K r r1" "accountActiveIndexKey \<in> K" for i r1
    using grows_trans [OF that(1) grows_refreshAccount [OF assms that(2)]] .
  have then_user: "grows (rdb c) K r (refreshUserActiveIndex c i r1)"
    if "grows (rdb c) K r r1" "userActiveIndexKey \<in> K" for i r1
    using grows_trans [OF that(1) grows_refreshUser [OF assms that(2)]] .
  note scripts = grows_acquireScript [OF ok(1)] grows_countScript [OF ok(1)] grows_liveScript [OF ok(1)]
    grows_refreshScript [OF ok(1)] grows_otherScripts [OF ok(1)] grows_ingressRefresh [OF ok(1)]
    grows_commands [OF ok(1)]
  note follow = then_touch then_acc then_user scripts ok ttl
  have rem3: "grows (rdb c) K r' (zrem (rdb c) (zrem (rdb c) (zrem (rdb c) r' k1 q) k2 q) k3 q)" for r' k1 k2 k3
    by (intro grows_after growth ok)
  show "{accountSlotKey a, accountActiveIndexKey} \<subseteq> K \<Longrightarrow> grows (rdb c) K r (snd (AcquireAccountSlot c a mx q r))"
    unfolding AcquireAccountSlot_def Let_def
    by (rule grows_case [OF ok(1)], auto simp: ok ttl split: prod.splits intro!: follow)+
  show "{userSlotKey u, userActiveIndexKey} \<subseteq> K \<Longrightarrow> grows (rdb c) K r (snd (AcquireUserSlot c u mx q r))"
    unfolding AcquireUserSlot_def Let_def
    by (rule grows_case [OF ok(1)], auto simp: ok ttl split: prod.splits intro!: follow)+
  show "accountActiveIndexKey \<in> K \<Longrightarrow> grows (rdb c) K r (snd (ReleaseAccountSlot c a q r))"
    unfolding ReleaseAccountSlot_def Let_def
    by (rule grows_case [OF ok(1)], auto simp: ok ttl split: prod.splits intro!: follow)+
  show "userActiveIndexKey \<in> K \<Longrightarrow> grows (rdb c) K r (snd (ReleaseUserSlot c u q r))"
    unfolding ReleaseUserSlot_def Let_def
    by (rule grows_case [OF ok(1)], auto simp: ok ttl split: prod.splits intro!: follow)+
  show "grows (rdb c) K r (snd (GetAccountConcurrency c a r))"
    "grows (rdb c) K r (snd (GetUserConcurrency c u r))"
    unfolding GetAccountConcurrency_def GetUserConcurrency_def by (auto intro!: grows_round_trip scripts ok)
  show "apiKeySlotKey k \<in> K \<Longrightarrow> grows (rdb c) K r (snd (TrackAPIKeySlot c k q r))"
    unfolding TrackAPIKeySlot_def Let_def
    by (rule grows_case [OF ok(1)], auto simp: ok ttl split: prod.splits intro!: follow)+
  show "grows (rdb c) K r (snd (ReleaseAPIKeySlot c k q r))"
    unfolding ReleaseAPIKeySlot_def by (auto intro!: grows_round_trip scripts ok)
  show "openAIWSIngressLeaseKey k \<in> K \<Longrightarrow> grows (rdb c) K r (snd (AcquireOpenAIWSIngressLease c k n q r))"
    unfolding AcquireOpenAIWSIngressLease_def Let_def
    by (rule grows_if, rule grows_case [OF ok(1)])
       (auto simp: ok ttl split: prod.splits intro!: follow)
  show "grows (rdb c) K r (snd (RefreshOpenAIWSIngressLease c k q r))"
    unfolding RefreshOpenAIWSIngressLease_def Let_def
    by (rule grows_if, rule grows_case [OF ok(1)])
       (auto simp: ok ttl split: prod.splits intro!: follow)
  show "grows (rdb c) K r (snd (ReleaseOpenAIWSIngressLease c k q r))"
    by (auto simp: ReleaseOpenAIWSIngressLease_def growth intro!: grows_round_trip scripts ok)
  show "{liveAccountSlotKey a, liveUserSlotKey u, liveAPIKeySlotKey k} \<subseteq> K \<Longrightarrow>
      grows (rdb c) K r (snd (AcquireLiveLease c a am u um k q rep r))"
    unfolding AcquireLiveLease_def Let_def
    by (rule grows_if, rule grows_case [OF ok(1)])
       (auto simp: ok ttl split: prod.splits intro!: follow)
  show "grows (rdb c) K r (snd (RefreshLiveLease c a u k q r))"
    unfolding RefreshLiveLease_def Let_def
    by (rule grows_if, rule grows_case [OF ok(1)])
       (auto simp: ok ttl split: prod.splits intro!: follow)
  show "grows (rdb c) K r (snd (ReleaseLiveLease c a u k q r))"
    by (auto simp: ReleaseLiveLease_def growth intro!: grows_round_trip ok rem3)
  show "userActiveIndexKey \<in> K \<Longrightarrow> grows (rdb c) K r (snd (IncrementWaitCount c u n r))"
    unfolding IncrementWaitCount_def Let_def
    by (rule grows_case [OF ok(1)]) (auto simp: ok ttl split: prod.splits intro!: follow)
  show "userActiveIndexKey \<in> K \<Longrightarrow> grows (rdb c) K r (snd (DecrementWaitCount c u r))"
    unfolding DecrementWaitCount_def Let_def
    by (rule grows_case [OF ok(1)]) (auto simp: ok ttl split: prod.splits intro!: follow)
  show "accountActiveIndexKey \<in> K \<Longrightarrow> grows (rdb c) K r (snd (IncrementAccountWaitCount c a n r))"
    unfolding IncrementAccountWaitCount_def Let_def
    by (rule grows_case [OF ok(1)]) (auto simp: ok ttl split: prod.splits intro!: follow)
  show "accountActiveIndexKey \<in> K \<Longrightarrow> grows (rdb c) K r (snd (DecrementAccountWaitCount c a r))"
    unfolding DecrementAccountWaitCount_def Let_def
    by (rule grows_case [OF ok(1)]) (auto simp: ok ttl split: prod.splits intro!: follow)
  show "grows (rdb c) K r (snd (GetAccountWaitingCount c a r))"
    unfolding GetAccountWaitingCount_def by (auto intro!: grows_round_trip growth ok)
  show "accountActiveIndexKey \<in> K \<Longrightarrow> grows (rdb c) K r (snd (CleanupExpiredAccountSlots c a r))"
    unfolding CleanupExpiredAccountSlots_def Let_def
    by (rule grows_case [OF ok(1)]) (auto simp: ok ttl split: prod.splits intro!: follow)
qed

lemma grows_pipe:
  assumes "\<And>x r. grows R K r (snd (f x r))"
  shows "grows R K r (snd (pipe_list f xs r))"
proof (induction xs arbitrary: r)
  case (Cons x xs)
  show ?case
    using grows_trans [OF assms [of r x] Cons.IH] by (simp add: case_prod_unfold)
qed (simp add: growth)

lemma grows_batch:
  assumes "cache_ok c"
  shows "grows (rdb c) K r (snd (concurrencyBatch c f g ids r))"
    and "grows (rdb c) K r (snd (loadBatch c f g w accs r))"
proof -
  note ok = cache_okD [OF assms]
  have step: "grows (rdb c) K r (snd (case redisUnixSeconds c r of (x, r1) \<Rightarrow>
      case x of Inl e \<Rightarrow> (Inl e, r1) | Inr now \<Rightarrow> k now r1))"
    if "\<And>now r. grows (rdb c) K r (snd (k now r))" for k :: "int \<Rightarrow> _ \<Rightarrow> (string + 'b) \<times> _" and r
    using grows_unix [OF assms, of r _ _ K] that
    by (cases "redisUnixSeconds c r") (auto split: sum.split intro: grows_trans)
  have n: "grows (rdb c) K r (snd (concurrencyCount c f g now i r))"
    "grows (rdb c) K r (snd (loadOf c f g w now a r))" for now i a r
    by (auto simp: concurrencyCount_def loadOf_def Let_def intro!: grows_after growth ok)
  have p: "grows (rdb c) K r (snd (case round_trip (rdb c) (pipe_list h xs) r of (x, r1) \<Rightarrow>
      case x of Inl e \<Rightarrow> (Inl (u e), r1) | Inr cmds \<Rightarrow> (Inr (v cmds), r1)))"
    if "\<And>x r. grows (rdb c) K r (snd (h x r))" for h xs u v r
    by (rule grows_case [OF ok(1) grows_pipe [OF that]]) simp_all
  show "grows (rdb c) K r (snd (concurrencyBatch c f g ids r))"
    unfolding concurrencyBatch_def by (rule grows_if, rule step, rule p, rule n)
  show "grows (rdb c) K r (snd (loadBatch c f g w accs r))"
    unfolding loadBatch_def by (rule grows_if, rule step, rule p, rule n)
qed

lemma grows_indexMembers:
  assumes "cache_ok c"
  shows "grows (rdb c) K r (removeActiveIndexMembers c k ms r)"
    and "k \<in> K \<Longrightarrow> grows (rdb c) K r (addActiveIndexMembers c k zs r)"
proof -
  note ok = cache_okD [OF assms]
  show "grows (rdb c) K r (removeActiveIndexMembers c k ms r)"
    by (auto simp: removeActiveIndexMembers_def growth
        intro!: grows_round_trip ok grows_foldl grows_commands)
  show "k \<in> K \<Longrightarrow> grows (rdb c) K r (addActiveIndexMembers c k zs r)"
    by (auto simp: addActiveIndexMembers_def growth
        intro!: grows_round_trip ok grows_foldl grows_commands)
qed

lemma grows_readChunks:
  assumes "cache_ok c"
  shows "grows (rdb c) K r (snd (readChunks c spec t cands r))"
proof (induction cands arbitrary: r rule: length_induct)
  case (1 cands)
  note ok = cache_okD [OF assms]
  let ?f = "\<lambda>(i, m). loadCommands c i m (sp_slotKey spec i) (sp_waitKey spec i) t"
  have f: "grows (rdb c) K r (snd (?f x r))" for x r
    by (cases x) (simp add: grows_loadCommands [OF assms])
  have rest: "grows (rdb c) K r (snd (case readChunks c spec t (drop activeIndexPipelineChunkSize cands) r1 of
      (x, r2) \<Rightarrow> case x of Inl e \<Rightarrow> (Inl e, r2) | Inr rest \<Rightarrow> (Inr (loads @ rest), r2)))"
    if "cands \<noteq> []" "grows (rdb c) K r r1" for r r1 loads
  proof -
    have "length (drop activeIndexPipelineChunkSize cands) < length cands"
      using that(1) by (simp add: activeIndexPipelineChunkSize_def)
    with 1 grows_trans [OF that(2)]
    have "grows (rdb c) K r (snd (readChunks c spec t (drop activeIndexPipelineChunkSize cands) r1))" by blast
    then show ?thesis by (auto split: prod.splits sum.splits)
  qed
  show ?case
    unfolding readChunks.simps [of c spec t cands r]
    by (rule grows_if, rule grows_case [OF ok(1)]) (auto intro!: grows_pipe f rest grows_loadCommands [OF assms])
qed

lemma grows_reconcile:
  assumes "cache_ok c" and "sp_indexKey spec \<in> K"
  shows "grows (rdb c) K r (snd (reconcileExpiredIndexCandidates c spec r))"
proof -
  note ok = cache_okD [OF assms(1)]
  have loads: "grows (rdb c) K r (snd (readIndexLoads c spec ms now r))" for ms now r
    using grows_readChunks [OF assms(1), of K r spec "now - slotTTLSeconds c" "fst (indexCandidates ms)"]
    by (auto simp: readIndexLoads_def case_prod_unfold split: prod.splits sum.splits)
  obtain x r1 where x: "redisUnixSeconds c r = (x, r1)" by force
  note g1 = grows_unix [OF assms(1) x, of K]
  show ?thesis
  proof (cases x)
    case (Inl e)
    with x g1 show ?thesis by (simp add: reconcileExpiredIndexCandidates_def)
  next
    case (Inr now)
    let ?q = "round_trip (rdb c) (\<lambda>r. (zrangebyscore (rdb c) r (sp_indexKey spec) now activeIndexCleanupBatchSize, r)) r1"
    obtain y r2 where y: "?q = (y, r2)" by force
    have g2: "grows (rdb c) K r r2"
      using grows_trans [OF g1 grows_round_trip' [OF ok(1) y]] by (simp add: growth)
    show ?thesis
    proof (cases y)
      case (Inl e)
      with x y Inr g2 show ?thesis by (simp add: reconcileExpiredIndexCandidates_def)
    next
      fix ms assume ms: "y = Inr ms"
      obtain z r3 where z: "readIndexLoads c spec ms now r2 = (z, r3)" by force
      have g3: "grows (rdb c) K r r3"
        using grows_trans [OF g2 loads, of ms now] z by simp
      have "grows (rdb c) K r (removeActiveIndexMembers c (sp_indexKey spec) stale
          (addActiveIndexMembers c (sp_indexKey spec) zs r3))" for stale zs
        using g3 grows_indexMembers [OF assms(1)] assms(2) by (meson grows_trans)
      with x y z Inr ms g3 show ?thesis
        by (auto simp: reconcileExpiredIndexCandidates_def Let_def split: sum.splits)
    qed
  qed
qed

lemma grows_cleanupKeys:
  assumes "cache_ok c" and "{accountActiveIndexKey, userActiveIndexKey} \<subseteq> K"
  shows "grows (rdb c) K r (snd (CleanupExpiredAccountSlotKeys c r))"
proof -
  obtain x r1 where x: "reconcileExpiredIndexCandidates c accountSlotIndex r = (x, r1)" by force
  have "sp_indexKey accountSlotIndex \<in> K" "sp_indexKey userSlotIndex \<in> K"
    using assms(2) by (simp_all add: accountSlotIndex_def userSlotIndex_def)
  with grows_reconcile [OF assms(1)] x
  have "grows (rdb c) K r r1" "\<And>r. grows (rdb c) K r (snd (reconcileExpiredIndexCandidates c userSlotIndex r))"
    by (metis snd_conv) (use grows_reconcile [OF assms(1)] \<open>sp_indexKey userSlotIndex \<in> K\<close> in blast)
  then show ?thesis using x by (auto simp: CleanupExpiredAccountSlotKeys_def split: sum.split intro: grows_trans)
qed

lemma grows_staleMember:
  assumes "cache_ok c"
  shows "grows (rdb c) K r (snd (staleMember c spec p i r))"
proof -
  note ok = cache_okD [OF assms]
  have after: "grows (rdb c) K r (snd (case p of (_, n) \<Rightarrow> (case round_trip (rdb c) (\<lambda>r. ((), rd_del (rdb c) r k)) r1 of (x, r2) \<Rightarrow>
      case x of Inl e \<Rightarrow> (Inl (u e), r2) | Inr _ \<Rightarrow> (Inr n, r2))))"
    if "grows (rdb c) K r r1" for k u r1 and p :: "int \<times> int"
  proof (cases p)
    case (Pair a n)
    have "grows (rdb c) K r1 (snd (case round_trip (rdb c) (\<lambda>r. ((), rd_del (rdb c) r k)) r1 of (x, r2) \<Rightarrow>
      case x of Inl e \<Rightarrow> (Inl (u e), r2) | Inr _ \<Rightarrow> (Inr n, r2)))"
      by (rule grows_case [OF ok(1)]) (simp_all add: grows_commands ok)
    with Pair grows_trans [OF that] show ?thesis by simp
  qed
  show ?thesis
    unfolding staleMember_def
    by (rule grows_case [OF ok(1) grows_startupScript [OF ok(1,2)]])
       (simp, rule after)
qed

lemma grows_staleLoop:
  assumes "cache_ok c"
  shows "grows (rdb c) K r (snd (staleLoop c spec p now ms zs st r))"
proof (induction ms arbitrary: zs st r)
  case (Cons m ms)
  have "grows (rdb c) K r r1" if "staleMember c spec p i r = (x, r1)" for i x r1
    using grows_staleMember [OF assms, of K r spec p i] that by simp
  then have "grows (rdb c) K r (snd (staleLoop c spec p now ms zs st r1))"
    if "staleMember c spec p i r = (x, r1)" for i x r1 zs st
    using grows_trans [OF _ Cons.IH] that by blast
  then show ?case
    using Cons.IH grows_staleMember [OF assms, of K r spec p]
    by (auto split: option.split sum.split prod.split) (metis snd_conv)
qed (simp add: growth)

lemma grows_startup:
  assumes "cache_ok c" and "sp_indexKey spec \<in> K"
  shows "grows (rdb c) K r (snd (cleanupStaleIndex c spec p now r))"
proof -
  note ok = cache_okD [OF assms(1)]
  have idx: "grows (rdb c) K r (snd (cleanupStaleProcessSlotsForIndex c spec ms p now r))" for ms r
    using grows_staleLoop [OF assms(1), of K r spec p now ms "[]" "[]"]
      grows_trans [OF grows_trans [OF _ grows_indexMembers(2) [OF assms]] grows_indexMembers(1) [OF assms(1)]]
    by (auto simp: cleanupStaleProcessSlotsForIndex_def split: sum.split prod.split)
  obtain x r1 where x: "allIndexMembers c (sp_indexKey spec) r = (x, r1)" by force
  have "grows (rdb c) K r r1"
    using grows_round_trip [OF ok(1), of K "\<lambda>r. (zrange (rdb c) r (sp_indexKey spec), r)" r] x
    by (auto simp: allIndexMembers_def growth split: sum.splits prod.splits)
  with x idx show ?thesis by (auto simp: cleanupStaleIndex_def split: sum.split intro: grows_trans)
qed

lemma grows_sweepPattern:
  assumes "cache_ok c" and "sweepPattern c pat cur r = Some (x, r')"
  shows "grows (rdb c) K r r'"
proof -
  note ok = cache_okD [OF assms(1)]
  have "cache_ok c \<longrightarrow> grows (rdb c) K r (snd y)" if "sweepPattern c pat cur r = Some y" for c :: "'a concurrencyCache" and pat cur r y
  proof (rule sweepPattern.raw_induct [OF _ that, of "\<lambda>c pat cur r y. cache_ok c \<longrightarrow> grows (rdb c) K r (snd y)"], intro impI)
    fix sw c pat cur r y
    assume IH: "\<And>c pat cur r y. sw c pat cur r = Some y \<Longrightarrow> cache_ok c \<longrightarrow> grows (rdb c) K r (snd y)"
      and ok: "cache_ok (c :: 'a concurrencyCache)"
      and y: "(case round_trip (rdb c) (\<lambda>r. (rd_scan (rdb c) r cur pat 200, r)) r of
         (Inl e, r1) \<Rightarrow> Some (Inl (''scan legacy wait keys '' @ pat @ '': '' @ e), r1)
       | (Inr (keys, cont), r1) \<Rightarrow>
           (case (if keys = [] then (Inr (), r1)
                  else round_trip (rdb c) (\<lambda>r. ((), foldl (rd_del (rdb c)) r keys)) r1) of
              (Inl e, r2) \<Rightarrow> Some (Inl (''delete legacy wait keys: '' @ e), r2)
            | (Inr _, r2) \<Rightarrow> if cont = 0 then Some (Inr (), r2) else sw c pat cont r2)) = Some y"
    note R = cache_okD(1) [OF ok]
    obtain s r1 where s: "round_trip (rdb c) (\<lambda>r. (rd_scan (rdb c) r cur pat 200, r)) r = (s, r1)" by force
    have g1: "grows (rdb c) K r r1" using grows_round_trip' [OF R s] by (simp add: growth)
    show "grows (rdb c) K r (snd y)"
    proof (cases s)
      case (Inl e)
      with s y g1 show ?thesis by auto
    next
      case (Inr kc)
      obtain keys cont where kc: "kc = (keys, cont)" by force
      obtain d r2 where d: "(if keys = [] then (Inr (), r1)
          else round_trip (rdb c) (\<lambda>r. ((), foldl (rd_del (rdb c)) r keys)) r1) = (d, r2)" by force
      have "grows (rdb c) K r1 r2"
      proof (cases "keys = []")
        case False
        with d have "round_trip (rdb c) (\<lambda>r. ((), foldl (rd_del (rdb c)) r keys)) r1 = (d, r2)" by simp
        from grows_round_trip' [OF R this] show ?thesis by (simp add: grows_foldl grows_commands R)
      qed (use d in \<open>simp add: growth\<close>)
      with g1 have g2: "grows (rdb c) K r r2" by (rule grows_trans)
      show ?thesis
        using y [unfolded s Inr kc sum.case prod.case d] g2 IH ok grows_trans [OF g2]
        by (auto split: sum.splits if_splits)
    qed
  qed
  from this [OF assms(2)] assms(1) show ?thesis by simp
qed

lemma grows_sweep:
  assumes "cache_ok c" and "sweepLegacyWaitKeysOnce c r = Some (x, r')"
  shows "grows (rdb c) K r r'"
proof -
  note R = cache_okD(1) [OF assms(1)]
  obtain e r1 where e: "round_trip (rdb c) (\<lambda>r. (rd_exists (rdb c) r legacyWaitSweepMarkerKey, r)) r = (e, r1)" by force
  have g1: "grows (rdb c) K r r1" using grows_round_trip' [OF R e] by (simp add: growth)
  note g2 = grows_trans [OF g1 grows_sweepPattern [OF assms(1)]]
  note g3 = grows_trans [OF g2 grows_sweepPattern [OF assms(1)]]
  have "grows (rdb c) K r0 (rd_set (rdb c) r0 k v)" for r0 k v
    by (auto simp: grows_def zmembers_def redis_lawsD(23) [OF R] split: if_splits)
  then have "grows (rdb c) K r0 r4"
    if "round_trip (rdb c) (\<lambda>r. ((), rd_set (rdb c) r k v)) r0 = (y, r4)" for r0 k v y r4
    using grows_round_trip' [OF R that] by simp
  note g4 = grows_trans [OF g3 this]
  show ?thesis
    using assms(2) [unfolded sweepLegacyWaitKeysOnce_def e prod.case] g1 g2 g3 g4
    by (auto split: sum.splits if_splits option.splits prod.splits)
qed

lemma grows_cleanupStale:
  assumes "cache_ok c" and "CleanupStaleProcessSlots c p r = Some (x, r')"
    and "{accountActiveIndexKey, userActiveIndexKey} \<subseteq> K"
  shows "grows (rdb c) K r r'"
proof -
  note g1 = grows_sweep [OF assms(1), of r _ _ K]
  note g2 = grows_trans [OF g1 grows_unix [OF assms(1)]]
  have s: "grows (rdb c) K r r'" if "cleanupStaleIndex c spec p now r = (x, r')" "sp_indexKey spec \<in> K" for spec now r x r'
    using grows_startup [OF assms(1) that(2), of r p now] that(1) by simp
  have i: "sp_indexKey accountSlotIndex \<in> K" "sp_indexKey userSlotIndex \<in> K"
    using assms(3) by (simp_all add: accountSlotIndex_def userSlotIndex_def)
  note g3 = grows_trans [OF g2 s [OF _ i(1)]]
  note g4 = grows_trans [OF g3 s [OF _ i(2)]]
  show ?thesis
    using assms(2) [unfolded CleanupStaleProcessSlots_def] g1 g2 g3 g4
    by (auto simp: growth split: sum.splits if_splits option.splits prod.splits)
qed

section \<open>The load of an account\<close>

definition accountLoad :: "'r concurrencyCache \<Rightarrow> 'r \<Rightarrow> int \<Rightarrow> int" where
  "accountLoad c r a = zcard (rdb c) r (accountSlotKey a) + zcard (rdb c) r (liveAccountSlotKey a)"

lemma accountLoad_grows:
  assumes "cache_ok c" and "grows (rdb c) K r r'" and "accountSlotKey a \<notin> K" and "liveAccountSlotKey a \<notin> K"
  shows "accountLoad c r' a \<le> accountLoad c r a"
  using grows_card [OF cache_okD(1) [OF assms(1)] assms(2,3)] grows_card [OF cache_okD(1) [OF assms(1)] assms(2,4)]
  by (simp add: accountLoad_def)

lemma zcard_pruned_twice:
  assumes "redis_laws R"
  shows "zcard R (zremrange R (zremrange R r k h) l h') m \<le> zcard R r m"
  using zcard_zremrange_le [OF assms, of "zremrange R r k h" l h' m] zcard_zremrange_le [OF assms, of r k h m]
  by simp

text \<open>An admission adds at most one member, and only below the limit.\<close>

lemma acquireScript_load:
  assumes "redis_laws R" and "0 < ttl" and "k \<noteq> l"
  shows "zcard R (snd (acquireScript R k l mx ttl q r)) k + zcard R (snd (acquireScript R k l mx ttl q r)) l
    \<le> max (zcard R r k + zcard R r l) mx"
proof -
  let ?r2 = "zremrange R (zremrange R r k (rd_time R r - ttl)) l (rd_time R r - 60)"
  have le: "zcard R ?r2 k + zcard R ?r2 l \<le> zcard R r k + zcard R r l"
    using zcard_pruned_twice [OF assms(1)] by (meson add_mono)
  show ?thesis
  proof (cases "zscore R ?r2 k q = None")
    case False
    with le assms show ?thesis
      by (auto simp: acquireScript_def Let_def zcard_other zcard_zadd)
  next
    case True
    with le assms show ?thesis
      by (auto simp: acquireScript_def Let_def zcard_other zcard_zadd)
  qed
qed

lemma liveScript_load:
  assumes "redis_laws R" and "0 < ttl" and "distinct [ar, al, ur, ul, kl]" and "0 < am"
  shows "zcard R (snd (acquireLiveLeaseScript R ar al ur ul kl am um ttl q rep r)) ar
      + zcard R (snd (acquireLiveLeaseScript R ar al ur ul kl am um ttl q rep r)) al
    \<le> max (zcard R r ar + zcard R r al) (am + (if rep = 1 then 1 else 0))"
proof -
  let ?h = "rd_time R r - ttl"
  let ?r3 = "zremrange R (zremrange R (zremrange R r al ?h) ul ?h) kl ?h"
  have le: "zcard R ?r3 m \<le> zcard R r m" for m
    using zcard_pruned_twice [OF assms(1), of "zremrange R r al ?h" ul ?h kl ?h m]
      zcard_zremrange_le [OF assms(1), of r al ?h m] by simp
  from add_mono [OF le [of ar] le [of al]] assms show ?thesis
    by (auto simp: acquireLiveLeaseScript_def Let_def zcard_other zcard_zadd redis_lawsD(1))
qed

section \<open>Runs against one server\<close>

text \<open>Every method that changes the server, from any process, and what time does to the sets. The
  limits with which callers admit to an account are at most \<open>M\<close>; \<open>rep\<close> says whether live leases
  may replace a regular slot.\<close>

inductive cache_step :: "'r concurrencyCache \<Rightarrow> (int \<Rightarrow> int) \<Rightarrow> bool \<Rightarrow> 'r \<Rightarrow> 'r \<Rightarrow> bool" for c M rep where
  acquireAccount: "mx \<le> M a \<Longrightarrow> cache_step c M rep r (snd (AcquireAccountSlot c a mx q r))"
| acquireLive: "0 < am \<Longrightarrow> am \<le> M a \<Longrightarrow> replacing \<longrightarrow> rep \<Longrightarrow>
    cache_step c M rep r (snd (AcquireLiveLease c a am u um k q replacing r))"
| acquireUser: "cache_step c M rep r (snd (AcquireUserSlot c u mx q r))"
| releaseAccount: "cache_step c M rep r (snd (ReleaseAccountSlot c a q r))"
| releaseUser: "cache_step c M rep r (snd (ReleaseUserSlot c u q r))"
| countAccount: "cache_step c M rep r (snd (GetAccountConcurrency c a r))"
| countUser: "cache_step c M rep r (snd (GetUserConcurrency c u r))"
| track: "cache_step c M rep r (snd (TrackAPIKeySlot c k q r))"
| untrack: "cache_step c M rep r (snd (ReleaseAPIKeySlot c k q r))"
| ingress: "cache_step c M rep r (snd (AcquireOpenAIWSIngressLease c k n q r))"
| ingressRefresh: "cache_step c M rep r (snd (RefreshOpenAIWSIngressLease c k q r))"
| ingressRelease: "cache_step c M rep r (snd (ReleaseOpenAIWSIngressLease c k q r))"
| refreshLive: "cache_step c M rep r (snd (RefreshLiveLease c a u k q r))"
| releaseLive: "cache_step c M rep r (snd (ReleaseLiveLease c a u k q r))"
| waitUp: "cache_step c M rep r (snd (IncrementWaitCount c u n r))"
| waitDown: "cache_step c M rep r (snd (DecrementWaitCount c u r))"
| accountWaitUp: "cache_step c M rep r (snd (IncrementAccountWaitCount c a n r))"
| accountWaitDown: "cache_step c M rep r (snd (DecrementAccountWaitCount c a r))"
| cleanup: "cache_step c M rep r (snd (CleanupExpiredAccountSlots c a r))"
| cleanupKeys: "cache_step c M rep r (snd (CleanupExpiredAccountSlotKeys c r))"
| startup: "CleanupStaleProcessSlots c p r = Some (x, r') \<Longrightarrow> cache_step c M rep r r'"
| accountBatch: "cache_step c M rep r (snd (GetAccountConcurrencyBatch c ids r))"
| apiKeyBatch: "cache_step c M rep r (snd (GetAPIKeyConcurrencyBatch c ids r))"
| accountLoads: "cache_step c M rep r (snd (GetAccountsLoadBatch c accs r))"
| userLoads: "cache_step c M rep r (snd (GetUsersLoadBatch c users r))"
| expiry: "(\<forall>k. zmembers (rdb c) r' k \<subseteq> zmembers (rdb c) r k) \<Longrightarrow> cache_step c M rep r r'"

lemma round_trip_load:
  assumes "redis_laws R" and "round_trip R f r = (x, r')"
  shows "zcard R r' k = (case x of Inl e \<Rightarrow> zcard R r k | Inr a \<Rightarrow> zcard R (snd (f (fst (rd_link R r)))) k)"
    and "x = Inr a \<Longrightarrow> f (fst (rd_link R r)) = (a, r')"
  using assms(2) zcard_other(4) [OF assms(1), of r k]
  by (auto simp: round_trip_def split: prod.splits option.splits)

lemma acquireAccount_load:
  assumes ok: "cache_ok c"
  shows "accountLoad c (snd (AcquireAccountSlot c a mx q r)) a \<le> max (accountLoad c r a) mx"
proof -
  note R = cache_okD(1) [OF ok]
  let ?s = "acquireScript (rdb c) (accountSlotKey a) (liveAccountSlotKey a) mx (slotTTLSeconds c) q"
  obtain x r1 where x: "round_trip (rdb c) ?s r = (x, r1)" by force
  have load1: "accountLoad c r1 a \<le> max (accountLoad c r a) mx"
    using round_trip_load(1) [OF R x] acquireScript_load [OF R cache_okD(2) [OF ok], where k = "accountSlotKey a"
        and l = "liveAccountSlotKey a" and r = "fst (rd_link (rdb c) r)" and mx = mx and q = q] zcard_other(4) [OF R, of r]
    by (auto simp: accountLoad_def split: sum.splits)
  have "accountLoad c (touchActiveIndexAt c accountActiveIndexKey a e r1) a \<le> accountLoad c r1 a" for e
    by (rule accountLoad_grows [OF ok grows_touch [OF ok, of _ "{accountActiveIndexKey}"]]) simp_all
  with load1 x show ?thesis
    by (auto simp: AcquireAccountSlot_def split: sum.splits prod.splits intro: order_trans)
qed

lemma acquireLive_load:
  assumes ok: "cache_ok c" and "0 < am"
  shows "accountLoad c (snd (AcquireLiveLease c a am u um k q replacing r)) a
    \<le> max (accountLoad c r a) (am + (if replacing then 1 else 0))"
proof (cases "a \<le> 0 \<or> u \<le> 0 \<or> k \<le> 0 \<or> q = []")
  case False
  note R = cache_okD(1) [OF ok]
  let ?s = "acquireLiveLeaseScript (rdb c) (accountSlotKey a) (liveAccountSlotKey a) (userSlotKey u)
     (liveUserSlotKey u) (liveAPIKeySlotKey k) am um liveLeaseTTLSeconds q (if replacing then 1 else 0)"
  obtain x r1 where x: "round_trip (rdb c) ?s r = (x, r1)" by force
  have "accountLoad c r1 a \<le> max (accountLoad c r a) (am + (if replacing then 1 else 0))"
    using round_trip_load(1) [OF R x] liveScript_load [OF R, where ttl = liveLeaseTTLSeconds and ar = "accountSlotKey a"
        and al = "liveAccountSlotKey a" and ur = "userSlotKey u" and ul = "liveUserSlotKey u"
        and kl = "liveAPIKeySlotKey k" and am = am and um = um and q = q
        and r = "fst (rd_link (rdb c) r)" and rep = "if replacing then 1 else 0"] zcard_other(4) [OF R, of r] assms(2)
    by (auto simp: accountLoad_def liveLeaseTTLSeconds_def split: sum.splits if_splits)
  with x False show ?thesis
    by (auto simp: AcquireLiveLease_def split: sum.splits)
qed (simp add: AcquireLiveLease_def)

lemma cache_step_load:
  assumes ok: "cache_ok c" and "cache_step c M rep r r'"
  shows "accountLoad c r' b \<le> max (accountLoad c r b) (M b + (if rep then 1 else 0))"
proof -
  let ?K = "UNIV - {accountSlotKey b, liveAccountSlotKey b}"
  have le: "accountLoad c r' b \<le> max (accountLoad c r b) (M b + (if rep then 1 else 0))"
    if "grows (rdb c) ?K r r'"
    using accountLoad_grows [OF ok that, of b] by simp
  note batch = grows_batch [OF ok, of ?K] grows_cleanupKeys [OF ok, of ?K]
  from assms(2) show ?thesis
  proof (cases rule: cache_step.cases)
    case (acquireAccount mx a q)
    show ?thesis
    proof (cases "a = b")
      case True
      with acquireAccount acquireAccount_load [OF ok, of a mx q r] show ?thesis by auto
    next
      case False
      then show ?thesis by (intro le) (auto simp: acquireAccount intro!: grows_methods [OF ok])
    qed
  next
    case (acquireLive am a replacing u um k q)
    show ?thesis
    proof (cases "a = b")
      case True
      with acquireLive acquireLive_load [OF ok, of am a u um k q replacing r] show ?thesis
        by (auto split: if_splits)
    next
      case False
      then show ?thesis by (intro le) (auto simp: acquireLive intro!: grows_methods [OF ok])
    qed
  next
    case (startup p x)
    then show ?thesis by (intro le grows_cleanupStale [OF ok]) auto
  next
    case expiry
    then have "grows (rdb c) ?K r r'" by (simp add: grows_def)
    then show ?thesis by (rule le)
  qed (rule le, (auto simp: GetAccountConcurrencyBatch_def GetAPIKeyConcurrencyBatch_def GetAccountsLoadBatch_def
      GetUsersLoadBatch_def intro!: grows_methods [OF ok] batch) [1])+
qed

text \<open>C1. However many processes use the cache, and in whatever order their calls reach the server or
  keys expire, the number of requests and live leases in flight for an account never exceeds the
  limit that callers admit with, plus the single extra member a lease may add while it replaces a
  regular slot.\<close>

theorem account_load_bounded:
  assumes "cache_ok c" and "(cache_step c M rep)\<^sup>*\<^sup>* r r'"
    and "accountLoad c r a \<le> M a + (if rep then 1 else 0)"
  shows "accountLoad c r' a \<le> M a + (if rep then 1 else 0)"
  using assms(2,3)
proof (induction rule: rtranclp_induct)
  case (step r1 r2)
  with cache_step_load [OF assms(1) step(2), of a] show ?case by auto
qed simp

text \<open>A small instance: a fresh store in memory, the default times to live.\<close>

definition cache0 :: "memRedis concurrencyCache" where
  "cache0 = NewConcurrencyCache mem_redis 0 0"

definition store0 :: memRedis where
  "store0 = \<lparr>mr_now = 1000, mr_sets = [], mr_ints = []\<rparr>"

lemma cache0_ok: "cache_ok cache0"
  unfolding cache0_def by (rule NewConcurrencyCache_ok [OF mem_redis_laws])

lemma store0_empty: "accountLoad cache0 store0 a = 0"
  by (simp add: accountLoad_def cache0_def NewConcurrencyCache_def Let_def mem_redis_def store0_def
      mem_keys_def mem_zset_def)

theorem account_load_bounded_witness:
  "accountLoad cache0 (snd (AcquireAccountSlot cache0 7 1 ''b'' (snd (AcquireAccountSlot cache0 7 1 ''a'' store0)))) 7 \<le> 1"
proof -
  have "cache_step cache0 (\<lambda>_. 1) False store0 (snd (AcquireAccountSlot cache0 7 1 ''a'' store0))"
    by (rule cache_step.acquireAccount) simp
  moreover have "cache_step cache0 (\<lambda>_. 1) False (snd (AcquireAccountSlot cache0 7 1 ''a'' store0))
      (snd (AcquireAccountSlot cache0 7 1 ''b'' (snd (AcquireAccountSlot cache0 7 1 ''a'' store0))))"
    by (rule cache_step.acquireAccount) simp
  ultimately have "(cache_step cache0 (\<lambda>_. 1) False)\<^sup>*\<^sup>* store0
      (snd (AcquireAccountSlot cache0 7 1 ''b'' (snd (AcquireAccountSlot cache0 7 1 ''a'' store0))))"
    by (meson rtranclp.rtrancl_into_rtrancl rtranclp.rtrancl_refl)
  from account_load_bounded [OF cache0_ok this, of 7] show ?thesis by (simp add: store0_empty)
qed

section \<open>What one call decides\<close>

text \<open>The members of a set that a script run at the server's time would keep.\<close>

definition unexpired :: "'r redis \<Rightarrow> 'r \<Rightarrow> string \<Rightarrow> int \<Rightarrow> string set" where
  "unexpired R r k ttl = {m. \<exists>s. zscore R r k m = Some s \<and> rd_time R r - ttl < s}"

lemma touch_members:
  assumes "redis_laws (rdb c)" and "k \<noteq> idx"
  shows "zmembers (rdb c) (touchActiveIndexAt c idx i e r) k = zmembers (rdb c) r k"
    and "zscore (rdb c) (touchActiveIndexAt c idx i e r) k m = zscore (rdb c) r k m"
proof -
  have "zscore (rdb c) (touchActiveIndexAt c idx i e r) k m = zscore (rdb c) r k m" for m
    using redis_lawsD(1) [OF assms(1)] rd_linkD(1) [OF assms(1)] assms(2)
    by (auto simp: touchActiveIndexAt_def round_trip_def split: prod.splits option.splits)
  then show "zscore (rdb c) (touchActiveIndexAt c idx i e r) k m = zscore (rdb c) r k m"
    "zmembers (rdb c) (touchActiveIndexAt c idx i e r) k = zmembers (rdb c) r k"
    by (simp_all add: zmembers_def)
qed

lemma acquireScript_decides:
  fixes r :: 'r and R :: "'r redis"
  assumes R: "redis_laws R" and "0 < ttl" and "k \<noteq> l"
  defines "A \<equiv> unexpired R r k ttl" and "B \<equiv> unexpired R r l 60"
  shows "fst (fst (acquireScript R k l mx ttl q r)) = (if q \<in> A \<or> int (card A + card B) < mx then 1 else 0)"
    and "snd (fst (acquireScript R k l mx ttl q r)) = rd_time R r"
    and "zmembers R (snd (acquireScript R k l mx ttl q r)) k =
      (if q \<in> A \<or> int (card A + card B) < mx then insert q A else A)"
    and "zmembers R (snd (acquireScript R k l mx ttl q r)) l = B"
    and "q \<in> A \<or> int (card A + card B) < mx \<Longrightarrow> zscore R (snd (acquireScript R k l mx ttl q r)) k q = Some (rd_time R r)"
proof -
  let ?r2 = "zremrange R (zremrange R r k (rd_time R r - ttl)) l (rd_time R r - 60)"
  have m: "zmembers R ?r2 k = A" "zmembers R ?r2 l = B"
    using assms(3) by (auto simp: zmembers_zremrange [OF R] redis_lawsD(3) [OF R] A_def B_def unexpired_def
        split: option.splits if_splits)
  have s: "zscore R ?r2 k q \<noteq> None \<longleftrightarrow> q \<in> A" using m(1) zmembers_score [of q R ?r2 k] by blast
  have n: "zcard R ?r2 k + zcard R ?r2 l = int (card A + card B)"
    using m by (simp add: zcard_members [OF R])
  have ex: "zmembers R (rd_expire R r' k' ttl) k'' = zmembers R r' k''" for r' k' k''
    using assms(2) by (simp add: zmembers_def redis_lawsD(7) [OF R])
  have unf: "acquireScript R k l mx ttl q r =
      (if q \<in> A \<or> int (card A + card B) < mx
       then ((1, rd_time R r), rd_expire R (zadd R ?r2 k (rd_time R r) q) k ttl) else ((0, rd_time R r), ?r2))"
    by (simp only: acquireScript_def Let_def s n) simp
  show "fst (fst (acquireScript R k l mx ttl q r)) = (if q \<in> A \<or> int (card A + card B) < mx then 1 else 0)"
    "snd (fst (acquireScript R k l mx ttl q r)) = rd_time R r"
    "zmembers R (snd (acquireScript R k l mx ttl q r)) k =
      (if q \<in> A \<or> int (card A + card B) < mx then insert q A else A)"
    "zmembers R (snd (acquireScript R k l mx ttl q r)) l = B"
    "q \<in> A \<or> int (card A + card B) < mx \<Longrightarrow> zscore R (snd (acquireScript R k l mx ttl q r)) k q = Some (rd_time R r)"
    using assms(2,3) by (simp_all add: unf ex zmembers_zadd [OF R] m redis_lawsD [OF R])
qed

lemma account_admission_facts:
  assumes "cache_ok c" and "rd_link (rdb c) r = (r0, None)"
  shows "let A = unexpired (rdb c) r0 (accountSlotKey a) (slotTTLSeconds c);
             B = unexpired (rdb c) r0 (liveAccountSlotKey a) 60;
             granted = (q \<in> A \<or> int (card A + card B) < mx);
             r' = snd (AcquireAccountSlot c a mx q r)
         in fst (AcquireAccountSlot c a mx q r) = Inr granted
          \<and> zmembers (rdb c) r' (accountSlotKey a) = (if granted then insert q A else A)
          \<and> zmembers (rdb c) r' (liveAccountSlotKey a) = B
          \<and> (granted \<longrightarrow> zscore (rdb c) r' (accountSlotKey a) q = Some (rd_time (rdb c) r0))"
proof -
  note R = cache_okD(1) [OF assms(1)] and T = cache_okD(2) [OF assms(1)]
  obtain res now r1 where s: "acquireScript (rdb c) (accountSlotKey a) (liveAccountSlotKey a) mx (slotTTLSeconds c) q r0
      = ((res, now), r1)" by (metis prod.collapse)
  have d: "accountSlotKey a \<noteq> liveAccountSlotKey a" by simp
  from acquireScript_decides [OF R T d, where r = r0 and q = q and mx = mx] show ?thesis
    using assms(2) touch_members [OF R]
    by (simp add: AcquireAccountSlot_def round_trip_def s Let_def)
qed

text \<open>C2. An admission to an account is decided exactly by the unexpired members: it succeeds if the
  request already holds a slot (a retry refreshes it and takes no second one) or if slots and live
  leases together are below the limit; a success leaves the request as a member stamped with
  the server's time, a refusal adds nothing, and expired members are gone either way.\<close>

theorem account_admission_decided:
  assumes "cache_ok c" and "rd_link (rdb c) r = (r0, None)"
  shows "let A = unexpired (rdb c) r0 (accountSlotKey a) (slotTTLSeconds c);
             B = unexpired (rdb c) r0 (liveAccountSlotKey a) 60;
             granted = (q \<in> A \<or> int (card A + card B) < mx);
             r' = snd (AcquireAccountSlot c a mx q r)
         in fst (AcquireAccountSlot c a mx q r) = Inr granted
          \<and> zmembers (rdb c) r' (accountSlotKey a) = (if granted then insert q A else A)
          \<and> zmembers (rdb c) r' (liveAccountSlotKey a) = B
          \<and> (granted \<longrightarrow> zscore (rdb c) r' (accountSlotKey a) q = Some (rd_time (rdb c) r0))"
  by (rule account_admission_facts [OF assms])

theorem account_admission_decided_witness:
  "fst (AcquireAccountSlot cache0 7 1 ''b'' (snd (AcquireAccountSlot cache0 7 1 ''a'' store0))) = Inr False"
proof -
  let ?r = "snd (AcquireAccountSlot cache0 7 1 ''a'' store0)"
  have link: "rd_link (rdb cache0) r = (r, None)" for r
    by (simp add: cache0_def NewConcurrencyCache_def Let_def mem_redis_def)
  have A: "unexpired (rdb cache0) ?r (accountSlotKey 7) (slotTTLSeconds cache0) = {''a''}"
    "unexpired (rdb cache0) ?r (liveAccountSlotKey 7) 60 = {}"
    by (auto simp: unexpired_def cache0_def NewConcurrencyCache_def Let_def mem_redis_def
        AcquireAccountSlot_def acquireScript_def round_trip_def touchActiveIndexAt_def store0_def
        defaultSlotTTLMinutes_def mem_keys_def mem_zset_def mem_put_def key_defs split: if_splits)
  show ?thesis
    using account_admission_decided [OF cache0_ok link, of ?r 7 "''b''" 1] by (simp add: A Let_def)
qed

lemma refreshCheck_iff:
  assumes "redis_laws R" and "distinct keys"
  shows "fst (refreshCheck R keys eb q r) \<longleftrightarrow> (\<forall>key \<in> set keys. \<exists>s. zscore R r key q = Some s \<and> eb < s)"
  using assms(2)
proof (induction keys arbitrary: r)
  case (Cons k keys)
  let ?r1 = "zremrange R r k eb"
  have 1: "zscore R ?r1 k q \<noteq> None \<longleftrightarrow> (\<exists>s. zscore R r k q = Some s \<and> eb < s)"
    by (auto simp: redis_lawsD(3) [OF assms(1)] split: option.splits)
  have "zscore R ?r1 key q = zscore R r key q" if "key \<in> set keys" for key
    using that Cons.prems by (auto simp: redis_lawsD(3) [OF assms(1)])
  then have 2: "fst (refreshCheck R keys eb q ?r1) \<longleftrightarrow> (\<forall>key \<in> set keys. \<exists>s. zscore R r key q = Some s \<and> eb < s)"
    using Cons.IH [of ?r1] Cons.prems by simp
  show ?case
  proof (cases "zscore R ?r1 k q = None")
    case True
    with 1 show ?thesis by (auto simp: Let_def)
  next
    case False
    with 1 2 show ?thesis by (auto simp: Let_def)
  qed
qed simp

lemma refreshTouch_score:
  assumes "redis_laws R" and "0 < ttl"
  shows "zscore R (refreshTouch R keys now ttl q r) key m =
    (if key \<in> set keys \<and> m = q then Some now else zscore R r key m)"
  using assms(2) by (induction keys arbitrary: r) (auto simp: redis_lawsD [OF assms(1)])

text \<open>Refreshing a live lease confirms it only if it is still present and unexpired under its
  account, its user and its API key; then all three are stamped with the server's time. A lease
  that was lost anywhere is reported as lost, and no refresh, whatever its outcome, makes any
  process a member of a set it was not in.\<close>

theorem live_lease_refresh:
  assumes "cache_ok c" and "rd_link (rdb c) r = (r0, None)" and "q \<noteq> []"
  shows "let keys = [liveAccountSlotKey a, liveUserSlotKey u, liveAPIKeySlotKey k];
             r' = snd (RefreshLiveLease c a u k q r);
             alive = (\<forall>key \<in> set keys. q \<in> unexpired (rdb c) r0 key 60)
         in fst (RefreshLiveLease c a u k q r) = Inr alive
          \<and> (\<forall>key. zmembers (rdb c) r' key \<subseteq> zmembers (rdb c) r key)
          \<and> (alive \<longrightarrow> (\<forall>key \<in> set keys. zscore (rdb c) r' key q = Some (rd_time (rdb c) r0)))"
proof -
  note R = cache_okD(1) [OF assms(1)]
  let ?keys = "[liveAccountSlotKey a, liveUserSlotKey u, liveAPIKeySlotKey k]"
  let ?eb = "rd_time (rdb c) r0 - 60"
  obtain alive r1 where s: "refreshCheck (rdb c) ?keys ?eb q r0 = (alive, r1)" by (metis prod.collapse)
  have "alive \<longleftrightarrow> (\<forall>key \<in> set ?keys. q \<in> unexpired (rdb c) r0 key 60)"
    using refreshCheck_iff [OF R, of ?keys ?eb q r0] s by (simp add: unexpired_def)
  moreover have "fst (RefreshLiveLease c a u k q r) = Inr alive"
    "alive \<Longrightarrow> snd (RefreshLiveLease c a u k q r) = refreshTouch (rdb c) ?keys (rd_time (rdb c) r0) 60 q r1"
    using assms(2,3) s
    by (auto simp: RefreshLiveLease_def round_trip_def refreshLiveLeaseScript_def liveLeaseTTLSeconds_def
        simp del: refreshCheck.simps refreshTouch.simps split: bool.splits)
  moreover have "\<forall>key. zmembers (rdb c) (snd (RefreshLiveLease c a u k q r)) key \<subseteq> zmembers (rdb c) r key"
    using grows_methods(13) [OF assms(1), of "{}" r a u k q] by (simp add: grows_def)
  ultimately show ?thesis
    using refreshTouch_score [OF R, of 60 ?keys "rd_time (rdb c) r0" q r1]
    by (auto simp: Let_def simp del: refreshTouch.simps)
qed

theorem live_lease_refresh_witness:
  "fst (RefreshLiveLease cache0 7 8 9 ''lease'' store0) = Inr False"
proof -
  have link: "rd_link (rdb cache0) r = (r, None)" for r
    by (simp add: cache0_def NewConcurrencyCache_def Let_def mem_redis_def)
  have "''lease'' \<notin> unexpired (rdb cache0) store0 (liveAccountSlotKey 7) 60"
    by (simp add: unexpired_def cache0_def NewConcurrencyCache_def Let_def mem_redis_def store0_def mem_zset_def)
  with live_lease_refresh [OF cache0_ok link, where q = "''lease''" and r = store0 and a = 7 and u = 8 and k = 9] show ?thesis
    by (simp add: Let_def)
qed

section \<open>Wait counters\<close>

definition waitCount :: "'r concurrencyCache \<Rightarrow> 'r \<Rightarrow> string \<Rightarrow> int" where
  "waitCount c r k = (case rd_get (rdb c) r k of None \<Rightarrow> 0 | Some n \<Rightarrow> n)"

lemma round_trip_get:
  assumes "redis_laws R" and "round_trip R f r = (x, r')" and "\<And>r. rd_get R (snd (f r)) k = rd_get R r k"
  shows "rd_get R r' k = rd_get R r k"
  using assms(2,3) rd_linkD(2) [OF assms(1)]
  by (auto simp: round_trip_def split: prod.splits option.splits) (metis snd_conv)

lemma touch_get:
  assumes "redis_laws (rdb c)"
  shows "rd_get (rdb c) (touchActiveIndexAt c idx i e r) k = rd_get (rdb c) r k"
proof -
  obtain x r' where t: "round_trip (rdb c) (\<lambda>r. ((), zadd (rdb c) r idx e (itoa i))) r = (x, r')" by force
  from round_trip_get [OF assms t] t show ?thesis
    by (simp add: touchActiveIndexAt_def redis_lawsD(19) [OF assms])
qed

lemma refreshIndex_get:
  assumes "redis_laws (rdb c)"
  shows "rd_get (rdb c) (refreshActiveIndex c idx i k w r) key = rd_get (rdb c) r key"
proof (cases "i \<le> 0")
  case False
  obtain x r1 where x: "round_trip (rdb c) (\<lambda>r. (rd_time (rdb c) r, r)) r = (x, r1)" by force
  have 1: "rd_get (rdb c) r1 key = rd_get (rdb c) r key" using round_trip_get [OF assms x] by simp
  show ?thesis
  proof (cases x)
    case (Inl e)
    with x False 1 show ?thesis by (simp add: refreshActiveIndex_def redisUnixSeconds_def)
  next
    case (Inr now)
    obtain y r2 where y: "round_trip (rdb c) (loadCommands c i (itoa i) k w (now - slotTTLSeconds c)) r1 = (y, r2)" by force
    have 2: "rd_get (rdb c) r2 key = rd_get (rdb c) r key"
      using round_trip_get [OF assms y] 1 by (simp add: loadCommands_def Let_def redis_lawsD(21) [OF assms])
    obtain z r3 where z: "round_trip (rdb c) (\<lambda>r. ((), zrem (rdb c) r idx (itoa i))) r2 = (z, r3)" by force
    have 3: "rd_get (rdb c) r3 key = rd_get (rdb c) r key"
      using round_trip_get [OF assms z] 2 by (simp add: redis_lawsD(20) [OF assms])
    from x y z False Inr 2 3 show ?thesis
      by (auto simp: refreshActiveIndex_def redisUnixSeconds_def readActiveLoadForKey_def Let_def
          touch_get [OF assms] split: sum.splits)
  qed
qed (simp add: refreshActiveIndex_def)

text \<open>The counters of users and accounts under the four operations, failed round trips included.\<close>

datatype waitOp = UserUp int int | UserDown int | AccountUp int int | AccountDown int

fun wait_step :: "'r concurrencyCache \<Rightarrow> 'r \<Rightarrow> waitOp \<Rightarrow> 'r" where
  "wait_step c r (UserUp u mx) = snd (IncrementWaitCount c u mx r)"
| "wait_step c r (UserDown u) = snd (DecrementWaitCount c u r)"
| "wait_step c r (AccountUp a mx) = snd (IncrementAccountWaitCount c a mx r)"
| "wait_step c r (AccountDown a) = snd (DecrementAccountWaitCount c a r)"

lemma incrementScripts_get:
  assumes "redis_laws R" and "0 < ttl"
  shows "rd_get R (snd (incrementWaitScript R k mx ttl r)) k' =
      (if k' = k \<and> (case rd_get R r k of None \<Rightarrow> 0 | Some n \<Rightarrow> n) < mx
       then Some (1 + (case rd_get R r k of None \<Rightarrow> 0 | Some n \<Rightarrow> n)) else rd_get R r k')"
    and "incrementAccountWaitScript R k mx ttl r = incrementWaitScript R k mx ttl r"
    and "fst (fst (incrementWaitScript R k mx ttl r)) =
      (if (case rd_get R r k of None \<Rightarrow> 0 | Some n \<Rightarrow> n) < mx then 1 else 0)"
    and "rd_get R (snd (decrementWaitScript R k r)) k' =
      (if k' = k \<and> 0 < (case rd_get R r k of None \<Rightarrow> 0 | Some n \<Rightarrow> n)
       then Some ((case rd_get R r k of None \<Rightarrow> 0 | Some n \<Rightarrow> n) - 1) else rd_get R r k')"
  using assms(2)
  by (auto simp: incrementWaitScript_def incrementAccountWaitScript_def decrementWaitScript_def Let_def
      redis_lawsD [OF assms(1)] split: option.split)

lemma increment_get:
  assumes ok: "cache_ok c"
  shows "rd_get (rdb c) (snd (IncrementWaitCount c u mx r)) k =
      (if snd (rd_link (rdb c) r) = None \<and> k = waitQueueKey u \<and> waitCount c r k < mx
       then Some (waitCount c r k + 1) else rd_get (rdb c) r k)"
    and "rd_get (rdb c) (snd (IncrementAccountWaitCount c u mx r)) k =
      (if snd (rd_link (rdb c) r) = None \<and> k = accountWaitKey u \<and> waitCount c r k < mx
       then Some (waitCount c r k + 1) else rd_get (rdb c) r k)"
    and "rd_get (rdb c) (snd (DecrementWaitCount c u r)) k =
      (if snd (rd_link (rdb c) r) = None \<and> k = waitQueueKey u \<and> 0 < waitCount c r k
       then Some (waitCount c r k - 1) else rd_get (rdb c) r k)"
    and "rd_get (rdb c) (snd (DecrementAccountWaitCount c u r)) k =
      (if snd (rd_link (rdb c) r) = None \<and> k = accountWaitKey u \<and> 0 < waitCount c r k
       then Some (waitCount c r k - 1) else rd_get (rdb c) r k)"
proof -
  note R = cache_okD(1) [OF ok] and T = cache_okD(3) [OF ok]
  note sc = incrementScripts_get [OF R T]
  obtain r0 e where l: "rd_link (rdb c) r = (r0, e)" by force
  note g = rd_linkD(2) [OF R l]
  have up: "rd_get (rdb c) r1 k = (if k = key \<and> waitCount c r k < mx then Some (waitCount c r k + 1)
      else rd_get (rdb c) r k)"
    if "incrementWaitScript (rdb c) key mx (waitQueueTTLSeconds c) r0 = ((res, t), r1)" for key res t r1
    using sc(1) [of key mx r0 k] that by (auto simp: g waitCount_def)
  have down: "rd_get (rdb c) r1 k = (if k = key \<and> 0 < waitCount c r k then Some (waitCount c r k - 1)
      else rd_get (rdb c) r k)"
    if "decrementWaitScript (rdb c) key r0 = (res, r1)" for key res r1
    using sc(4) [of key r0 k] that by (auto simp: g waitCount_def)
  show "rd_get (rdb c) (snd (IncrementWaitCount c u mx r)) k =
      (if snd (rd_link (rdb c) r) = None \<and> k = waitQueueKey u \<and> waitCount c r k < mx
       then Some (waitCount c r k + 1) else rd_get (rdb c) r k)"
    using up [of "waitQueueKey u"] g
    by (auto simp: IncrementWaitCount_def round_trip_def l touch_get [OF R] split: option.splits prod.splits)
  show "rd_get (rdb c) (snd (IncrementAccountWaitCount c u mx r)) k =
      (if snd (rd_link (rdb c) r) = None \<and> k = accountWaitKey u \<and> waitCount c r k < mx
       then Some (waitCount c r k + 1) else rd_get (rdb c) r k)"
    using up [of "accountWaitKey u"] g
    by (auto simp: IncrementAccountWaitCount_def sc(2) round_trip_def l touch_get [OF R] split: option.splits prod.splits)
  show "rd_get (rdb c) (snd (DecrementWaitCount c u r)) k =
      (if snd (rd_link (rdb c) r) = None \<and> k = waitQueueKey u \<and> 0 < waitCount c r k
       then Some (waitCount c r k - 1) else rd_get (rdb c) r k)"
    using down [of "waitQueueKey u"] g
    by (auto simp: DecrementWaitCount_def round_trip_def l refreshUserActiveIndex_def refreshIndex_get [OF R]
        split: option.splits prod.splits)
  show "rd_get (rdb c) (snd (DecrementAccountWaitCount c u r)) k =
      (if snd (rd_link (rdb c) r) = None \<and> k = accountWaitKey u \<and> 0 < waitCount c r k
       then Some (waitCount c r k - 1) else rd_get (rdb c) r k)"
    using down [of "accountWaitKey u"] g
    by (auto simp: DecrementAccountWaitCount_def round_trip_def l refreshAccountActiveIndex_def refreshIndex_get [OF R]
        split: option.splits prod.splits)
qed

lemma wait_step_range:
  assumes "cache_ok c" and "0 \<le> waitCount c r k" and "waitCount c r k \<le> W"
    and "\<And>i mx. op = UserUp i mx \<or> op = AccountUp i mx \<Longrightarrow> mx \<le> W"
  shows "0 \<le> waitCount c (wait_step c r op) k \<and> waitCount c (wait_step c r op) k \<le> W"
  using assms(2-4) by (cases op) (auto simp: waitCount_def increment_get [OF assms(1)] split: option.splits if_splits)

text \<open>The wait counter of a user or an account stays between zero and the largest queue length any
  caller passes: an increment at the bound is refused and a decrement at zero does nothing, in any
  order of increments and decrements by any processes, also when round trips fail.\<close>

theorem wait_counters_bounded:
  assumes "cache_ok c" and "0 \<le> waitCount c r (waitQueueKey u)" and "waitCount c r (waitQueueKey u) \<le> W"
    and "\<forall>op \<in> set ops. \<forall>i mx. op = UserUp i mx \<or> op = AccountUp i mx \<longrightarrow> mx \<le> W"
  shows "0 \<le> waitCount c (foldl (wait_step c) r ops) (waitQueueKey u)
    \<and> waitCount c (foldl (wait_step c) r ops) (waitQueueKey u) \<le> W"
  using assms(2-4)
proof (induction ops arbitrary: r)
  case (Cons op ops)
  then have "0 \<le> waitCount c (wait_step c r op) (waitQueueKey u) \<and> waitCount c (wait_step c r op) (waitQueueKey u) \<le> W"
    by (intro wait_step_range [OF assms(1)]) auto
  with Cons show ?case by simp
qed simp

theorem wait_counters_bounded_witness:
  "waitCount cache0 (foldl (wait_step cache0) store0 [UserUp 5 2, UserUp 5 2, UserUp 5 1, UserDown 5, AccountUp 5 2]) (waitQueueKey 5) \<le> 2"
  using wait_counters_bounded [OF cache0_ok, of store0 5 2 "[UserUp 5 2, UserUp 5 2, UserUp 5 1, UserDown 5, AccountUp 5 2]"]
  by (simp del: foldl_Cons add: waitCount_def store0_def cache0_def NewConcurrencyCache_def Let_def mem_redis_def)

end
