(* ===== verification/ConcurrencyStartup.thy ===== *)
theory ConcurrencyStartup
  imports ConcurrencyFacts
begin

text \<open>
  The startup cleanup of the concurrency cache (\<open>CleanupStaleProcessSlots\<close> and its loop over an active
  index in \<open>internal/repository/concurrency_cache.go\<close>): what remains of the slots, wait counters
  and index members of crashed processes.
\<close>

definition own :: "string \<Rightarrow> string \<Rightarrow> bool" where
  "own p x \<longleftrightarrow> take (length p) x = p"

definition spec_ok :: "slotIndexSpec \<Rightarrow> bool" where
  "spec_ok spec \<longleftrightarrow> spec = accountSlotIndex \<or> spec = userSlotIndex"

lemma spec_keys:
  assumes "spec_ok spec"
  shows "sp_slotKey spec i = sp_slotKey spec j \<longleftrightarrow> i = j" "sp_waitKey spec i = sp_waitKey spec j \<longleftrightarrow> i = j"
    "sp_slotKey spec i \<noteq> sp_waitKey spec j" "sp_slotKey spec i \<noteq> sp_indexKey spec"
    "sp_waitKey spec i \<noteq> sp_slotKey spec j" "sp_indexKey spec \<noteq> sp_slotKey spec i"
    "sp_waitKey spec i \<noteq> sp_indexKey spec" "sp_indexKey spec \<noteq> sp_waitKey spec i"
  using assms by (auto simp: spec_ok_def accountSlotIndex_def userSlotIndex_def)
    (auto simp: key_defs)

lemma startupRemove_score:
  assumes "redis_laws R"
  shows "zscore R (snd (startupRemove R k p ms n r)) k' x =
    (if k' = k \<and> x \<in> set ms \<and> \<not> own p x then None else zscore R r k' x)"
  by (induction ms arbitrary: n r) (auto simp: redis_lawsD [OF assms] own_def)

lemma startupRemove_get:
  assumes "redis_laws R"
  shows "rd_get R (snd (startupRemove R k p ms n r)) k' = rd_get R r k'"
  by (induction ms arbitrary: n r) (auto simp: redis_lawsD [OF assms])

lemma startupScript_effect:
  assumes R: "redis_laws R" and "0 < ttl" and s: "startupCleanupSlotScript R k p ttl r = ((removed, remaining), r')"
  shows "zscore R r' k' x = (if k' = k \<and> \<not> own p x then None else zscore R r k' x)"
    and "k' \<noteq> k \<Longrightarrow> rd_get R r' k' = rd_get R r k'"
    and "0 < remaining \<longleftrightarrow> (\<exists>x \<in> zmembers R r k. own p x)"
proof -
  let ?q = "startupRemove R k p (zrange R r k) 0 r"
  let ?r1 = "snd ?q"
  have 1: "zscore R ?r1 k' x = (if k' = k \<and> \<not> own p x then None else zscore R r k' x)" for k' x
    using redis_lawsD(11) [OF R, of r k] by (auto simp: startupRemove_score [OF R])
  have rem: "remaining = zcard R ?r1 k"
    and r': "r' = (if zcard R ?r1 k = 0 then rd_del R ?r1 k else rd_expire R ?r1 k ttl)"
    using s by (auto simp: startupCleanupSlotScript_def Let_def split: prod.splits)
  have zero: "zcard R ?r1 k = 0 \<longleftrightarrow> \<not> (\<exists>x \<in> zmembers R r k. own p x)"
    by (auto simp: zcard_zero [OF R] zmembers_def 1)
  have none: "zscore R ?r1 k x = None" if "zcard R ?r1 k = 0" for x
    using that by (auto simp: zcard_zero [OF R] zmembers_def)
  show "zscore R r' k' x = (if k' = k \<and> \<not> own p x then None else zscore R r k' x)"
    using assms(2) none [of x] 1 [of k x] 1 [of k' x] by (auto simp: r' redis_lawsD [OF R] split: if_splits)
  show "k' \<noteq> k \<Longrightarrow> rd_get R r' k' = rd_get R r k'"
    using assms(2) by (simp add: r' redis_lawsD [OF R] startupRemove_get [OF R])
  show "0 < remaining \<longleftrightarrow> (\<exists>x \<in> zmembers R r k. own p x)"
    using zero zcard_nonneg [OF R, of ?r1 k] rem by auto
qed

definition links_up :: "'r redis \<Rightarrow> bool" where
  "links_up R \<longleftrightarrow> (\<forall>r. snd (rd_link R r) = None)"

lemma round_trip_up:
  "links_up R \<Longrightarrow> round_trip R f r = (Inr (fst (f (fst (rd_link R r)))), snd (f (fst (rd_link R r))))"
  by (simp add: links_up_def round_trip_def split: prod.split option.split) (metis snd_conv option.distinct(1))

lemma staleMember_effect:
  assumes ok: "cache_ok c" and up: "links_up (rdb c)" and sp: "spec_ok spec"
  shows "\<exists>remaining r'. staleMember c spec p i r = (Inr remaining, r')
    \<and> (0 < remaining \<longleftrightarrow> (\<exists>x \<in> zmembers (rdb c) r (sp_slotKey spec i). own p x))
    \<and> (\<forall>j x. zscore (rdb c) r' (sp_slotKey spec j) x =
         (if j = i \<and> \<not> own p x then None else zscore (rdb c) r (sp_slotKey spec j) x))
    \<and> (\<forall>x. zscore (rdb c) r' (sp_indexKey spec) x = zscore (rdb c) r (sp_indexKey spec) x)
    \<and> (\<forall>j. rd_get (rdb c) r' (sp_waitKey spec j) =
         (if j = i then None else rd_get (rdb c) r (sp_waitKey spec j)))"
proof -
  note R = cache_okD(1) [OF ok]
  obtain r0 where l0: "rd_link (rdb c) r = (r0, None)"
    using up by (metis links_up_def prod.collapse)
  obtain removed remaining r1 where s: "startupCleanupSlotScript (rdb c) (sp_slotKey spec i) p (slotTTLSeconds c) r0
      = ((removed, remaining), r1)" by (metis prod.collapse)
  note eff = startupScript_effect [OF R cache_okD(2) [OF ok] s]
  obtain r2 where l2: "rd_link (rdb c) r1 = (r2, None)"
    using up by (metis links_up_def prod.collapse)
  have e: "staleMember c spec p i r = (Inr remaining, rd_del (rdb c) r2 (sp_waitKey spec i))"
    by (simp add: staleMember_def round_trip_def l0 s l2)
  show ?thesis
    unfolding e
    using spec_keys [OF sp] eff rd_linkD [OF R l0] rd_linkD [OF R l2]
    by (auto simp: redis_lawsD [OF R] zmembers_def)
qed

text \<open>An index member whose ID still has a slot of this process.\<close>

definition memberLive :: "'r concurrencyCache \<Rightarrow> slotIndexSpec \<Rightarrow> string \<Rightarrow> 'r \<Rightarrow> string \<Rightarrow> bool" where
  "memberLive c spec p r m \<longleftrightarrow>
    (\<exists>i > 0. parse_int m = Some i \<and> (\<exists>x \<in> zmembers (rdb c) r (sp_slotKey spec i). own p x))"

definition cleaned :: "string list \<Rightarrow> int \<Rightarrow> bool" where
  "cleaned ms i \<longleftrightarrow> 0 < i \<and> Some i \<in> parse_int ` set ms"

lemma staleLoop_effect:
  assumes ok: "cache_ok c" and up: "links_up (rdb c)" and sp: "spec_ok spec"
  shows "\<exists>zs' st' r'. staleLoop c spec p now ms zs st r = (Inr (zs @ zs', st @ st'), r')
    \<and> set zs' = (\<lambda>m. (now + slotTTLSeconds c, m)) ` {m \<in> set ms. memberLive c spec p r m}
    \<and> set st' = {m \<in> set ms. \<not> memberLive c spec p r m}
    \<and> (\<forall>j x. zscore (rdb c) r' (sp_slotKey spec j) x =
         (if cleaned ms j \<and> \<not> own p x then None else zscore (rdb c) r (sp_slotKey spec j) x))
    \<and> (\<forall>x. zscore (rdb c) r' (sp_indexKey spec) x = zscore (rdb c) r (sp_indexKey spec) x)
    \<and> (\<forall>j. rd_get (rdb c) r' (sp_waitKey spec j) =
         (if cleaned ms j then None else rd_get (rdb c) r (sp_waitKey spec j)))"
proof (induction ms arbitrary: zs st r)
  case Nil
  show ?case by (intro exI [of _ "[]"] exI [of _ r]) (simp add: cleaned_def)
next
  case (Cons m ms)
  show ?case
  proof (cases "\<exists>i > 0. parse_int m = Some i")
    case False
    then have skip: "staleLoop c spec p now (m # ms) zs st r = staleLoop c spec p now ms zs (st @ [m]) r"
      by (auto split: option.split)
    have cl: "cleaned (m # ms) j \<longleftrightarrow> cleaned ms j" for j
      using False by (auto simp: cleaned_def)
    have "\<not> memberLive c spec p r m" using False by (auto simp: memberLive_def)
    moreover obtain zs' st' r' where IH: "staleLoop c spec p now ms zs (st @ [m]) r = (Inr (zs @ zs', (st @ [m]) @ st'), r')"
      "set zs' = (\<lambda>m. (now + slotTTLSeconds c, m)) ` {m \<in> set ms. memberLive c spec p r m}"
      "set st' = {m \<in> set ms. \<not> memberLive c spec p r m}"
      "\<forall>j x. zscore (rdb c) r' (sp_slotKey spec j) x =
         (if cleaned ms j \<and> \<not> own p x then None else zscore (rdb c) r (sp_slotKey spec j) x)"
      "\<forall>x. zscore (rdb c) r' (sp_indexKey spec) x = zscore (rdb c) r (sp_indexKey spec) x"
      "\<forall>j. rd_get (rdb c) r' (sp_waitKey spec j) =
         (if cleaned ms j then None else rd_get (rdb c) r (sp_waitKey spec j))"
      using Cons.IH [of zs "st @ [m]" r] by blast
    ultimately show ?thesis
      by (intro exI [of _ zs'] exI [of _ "m # st'"] exI [of _ r']) (auto simp del: staleLoop.simps simp: skip cl)
  next
    case True
    then obtain i where i: "0 < i" "parse_int m = Some i" by blast
    obtain remaining r1 where s: "staleMember c spec p i r = (Inr remaining, r1)"
      "0 < remaining \<longleftrightarrow> (\<exists>x \<in> zmembers (rdb c) r (sp_slotKey spec i). own p x)"
      "\<And>j x. zscore (rdb c) r1 (sp_slotKey spec j) x =
         (if j = i \<and> \<not> own p x then None else zscore (rdb c) r (sp_slotKey spec j) x)"
      "\<And>x. zscore (rdb c) r1 (sp_indexKey spec) x = zscore (rdb c) r (sp_indexKey spec) x"
      "\<And>j. rd_get (rdb c) r1 (sp_waitKey spec j) = (if j = i then None else rd_get (rdb c) r (sp_waitKey spec j))"
      using staleMember_effect [OF ok up sp, of p i r] by blast
    have live: "memberLive c spec p r m \<longleftrightarrow> 0 < remaining"
      using i s(2) by (auto simp: memberLive_def)
    have live': "memberLive c spec p r1 m' \<longleftrightarrow> memberLive c spec p r m'" for m'
      using s(3) by (auto simp: memberLive_def zmembers_def split: if_splits)
    have cl: "cleaned (m # ms) j \<longleftrightarrow> j = i \<or> cleaned ms j" for j
      using i by (auto simp: cleaned_def)
    let ?zs = "if 0 < remaining then zs @ [(now + slotTTLSeconds c, m)] else zs"
    let ?st = "if 0 < remaining then st else st @ [m]"
    have step: "staleLoop c spec p now (m # ms) zs st r = staleLoop c spec p now ms ?zs ?st r1"
      using i s(1) by simp
    obtain zs' st' r' where IH: "staleLoop c spec p now ms ?zs ?st r1 = (Inr (?zs @ zs', ?st @ st'), r')"
      "set zs' = (\<lambda>m. (now + slotTTLSeconds c, m)) ` {m \<in> set ms. memberLive c spec p r1 m}"
      "set st' = {m \<in> set ms. \<not> memberLive c spec p r1 m}"
      "\<forall>j x. zscore (rdb c) r' (sp_slotKey spec j) x =
         (if cleaned ms j \<and> \<not> own p x then None else zscore (rdb c) r1 (sp_slotKey spec j) x)"
      "\<forall>x. zscore (rdb c) r' (sp_indexKey spec) x = zscore (rdb c) r1 (sp_indexKey spec) x"
      "\<forall>j. rd_get (rdb c) r' (sp_waitKey spec j) =
         (if cleaned ms j then None else rd_get (rdb c) r1 (sp_waitKey spec j))"
      using Cons.IH [of ?zs ?st r1] by blast
    show ?thesis
    proof (intro exI conjI)
      show "staleLoop c spec p now (m # ms) zs st r =
          (Inr (zs @ ((if 0 < remaining then [(now + slotTTLSeconds c, m)] else []) @ zs'),
                st @ ((if 0 < remaining then [] else [m]) @ st')), r')"
        unfolding step IH(1) by simp
      show "set ((if 0 < remaining then [(now + slotTTLSeconds c, m)] else []) @ zs')
          = (\<lambda>m. (now + slotTTLSeconds c, m)) ` {m' \<in> set (m # ms). memberLive c spec p r m'}"
        using IH(2) live live' by auto
      show "set ((if 0 < remaining then [] else [m]) @ st') = {m' \<in> set (m # ms). \<not> memberLive c spec p r m'}"
        using IH(3) live live' by auto
    qed (use IH(4-6) s(3-5) cl in auto)
  qed
qed

lemma foldl_zadd_score:
  assumes "redis_laws R"
  shows "(\<forall>(s, m) \<in> set zs. s = t) \<Longrightarrow> zscore R (foldl (\<lambda>r (s, m). zadd R r k s m) r zs) k' x =
    (if k' = k \<and> x \<in> snd ` set zs then Some t else zscore R r k' x)"
  by (induction zs arbitrary: r) (auto simp: redis_lawsD [OF assms])

lemma foldl_zadd_get:
  assumes "redis_laws R"
  shows "rd_get R (foldl (\<lambda>r (s, m). zadd R r k s m) r zs) k' = rd_get R r k'"
  by (induction zs arbitrary: r) (auto simp: redis_lawsD [OF assms])

lemma foldl_zrem_score:
  assumes "redis_laws R"
  shows "zscore R (foldl (\<lambda>r m. zrem R r k m) r ms) k' x = (if k' = k \<and> x \<in> set ms then None else zscore R r k' x)"
  by (induction ms arbitrary: r) (auto simp: redis_lawsD [OF assms])

lemma foldl_zrem_get:
  assumes "redis_laws R"
  shows "rd_get R (foldl (\<lambda>r m. zrem R r k m) r ms) k' = rd_get R r k'"
  by (induction ms arbitrary: r) (auto simp: redis_lawsD [OF assms])

lemma indexMembers_effect:
  assumes ok: "cache_ok c" and up: "links_up (rdb c)" and zs: "\<forall>(s, m) \<in> set zs. s = t"
  shows "zscore (rdb c) (addActiveIndexMembers c k zs r) k' x =
      (if k' = k \<and> x \<in> snd ` set zs then Some t else zscore (rdb c) r k' x)"
    and "rd_get (rdb c) (addActiveIndexMembers c k zs r) k' = rd_get (rdb c) r k'"
    and "zscore (rdb c) (removeActiveIndexMembers c k ms r) k' x =
      (if k' = k \<and> x \<in> set ms then None else zscore (rdb c) r k' x)"
    and "rd_get (rdb c) (removeActiveIndexMembers c k ms r) k' = rd_get (rdb c) r k'"
proof -
  note R = cache_okD(1) [OF ok]
  show "zscore (rdb c) (addActiveIndexMembers c k zs r) k' x =
      (if k' = k \<and> x \<in> snd ` set zs then Some t else zscore (rdb c) r k' x)"
    using foldl_zadd_score [OF R zs] redis_lawsD(8) [OF R]
    by (simp add: addActiveIndexMembers_def round_trip_up [OF up])
  show "rd_get (rdb c) (addActiveIndexMembers c k zs r) k' = rd_get (rdb c) r k'"
    using foldl_zadd_get [OF R] redis_lawsD(22) [OF R]
    by (simp add: addActiveIndexMembers_def round_trip_up [OF up])
  show "zscore (rdb c) (removeActiveIndexMembers c k ms r) k' x =
      (if k' = k \<and> x \<in> set ms then None else zscore (rdb c) r k' x)"
    using foldl_zrem_score [OF R] redis_lawsD(8) [OF R]
    by (simp add: removeActiveIndexMembers_def round_trip_up [OF up])
  show "rd_get (rdb c) (removeActiveIndexMembers c k ms r) k' = rd_get (rdb c) r k'"
    using foldl_zrem_get [OF R] redis_lawsD(22) [OF R]
    by (simp add: removeActiveIndexMembers_def round_trip_up [OF up])
qed

text \<open>A startup cleanup of an index leaves no trace of other processes: of every account (or user) the
  index names, exactly the slots whose request ID carries this process's prefix remain, its wait
  counter is gone, and the index keeps exactly the members that still have such a slot, with their
  expiry renewed. The slots and counters of IDs outside the index are untouched.\<close>

theorem startup_cleanup_exact:
  assumes "cache_ok c" and "links_up (rdb c)" and "spec_ok spec"
  shows "\<exists>r'. cleanupStaleIndex c spec p now r = (Inr (), r')
    \<and> (\<forall>j. zmembers (rdb c) r' (sp_slotKey spec j) =
         {x \<in> zmembers (rdb c) r (sp_slotKey spec j).
            own p x \<or> \<not> (0 < j \<and> (\<exists>m \<in> zmembers (rdb c) r (sp_indexKey spec). parse_int m = Some j))})
    \<and> (\<forall>j. rd_get (rdb c) r' (sp_waitKey spec j) =
         (if 0 < j \<and> (\<exists>m \<in> zmembers (rdb c) r (sp_indexKey spec). parse_int m = Some j) then None
          else rd_get (rdb c) r (sp_waitKey spec j)))
    \<and> (\<forall>m. zscore (rdb c) r' (sp_indexKey spec) m =
         (if m \<in> zmembers (rdb c) r (sp_indexKey spec) \<and> memberLive c spec p r m
          then Some (now + slotTTLSeconds c) else None))"
proof -
  note R = cache_okD(1) [OF assms(1)]
  obtain r0 where l0: "rd_link (rdb c) r = (r0, None)"
    using assms(2) by (metis links_up_def prod.collapse)
  let ?ms = "zrange (rdb c) r0 (sp_indexKey spec)"
  have ms: "set ?ms = zmembers (rdb c) r (sp_indexKey spec)"
    using redis_lawsD(11) [OF R, of r0] rd_linkD(1) [OF R l0] by (simp add: zmembers_def)
  have live0: "memberLive c spec p r0 m = memberLive c spec p r m" for m
    using rd_linkD(1) [OF R l0] by (simp add: memberLive_def zmembers_def)
  obtain zs st r1 where L: "staleLoop c spec p now ?ms [] [] r0 = (Inr (zs, st), r1)"
    "set zs = (\<lambda>m. (now + slotTTLSeconds c, m)) ` {m \<in> set ?ms. memberLive c spec p r m}"
    "set st = {m \<in> set ?ms. \<not> memberLive c spec p r m}"
    "\<And>j x. zscore (rdb c) r1 (sp_slotKey spec j) x =
         (if cleaned ?ms j \<and> \<not> own p x then None else zscore (rdb c) r (sp_slotKey spec j) x)"
    "\<And>x. zscore (rdb c) r1 (sp_indexKey spec) x = zscore (rdb c) r (sp_indexKey spec) x"
    "\<And>j. rd_get (rdb c) r1 (sp_waitKey spec j) =
         (if cleaned ?ms j then None else rd_get (rdb c) r (sp_waitKey spec j))"
    using staleLoop_effect [OF assms, of p now ?ms "[]" "[]" r0] live0 rd_linkD [OF R l0] by auto
  have cl: "cleaned ?ms j \<longleftrightarrow> 0 < j \<and> (\<exists>m \<in> zmembers (rdb c) r (sp_indexKey spec). parse_int m = Some j)" for j
    unfolding ms [symmetric] cleaned_def by force
  let ?r' = "removeActiveIndexMembers c (sp_indexKey spec) st (addActiveIndexMembers c (sp_indexKey spec) zs r1)"
  have zs: "\<forall>(s, m) \<in> set zs. s = now + slotTTLSeconds c" using L(2) by auto
  note eff = indexMembers_effect [OF assms(1,2) zs]
  have "cleanupStaleIndex c spec p now r = (Inr (), ?r')"
    by (simp add: cleanupStaleIndex_def allIndexMembers_def round_trip_def l0 cleanupStaleProcessSlotsForIndex_def L(1))
  moreover have "zscore (rdb c) ?r' (sp_slotKey spec j) x =
      (if cleaned ?ms j \<and> \<not> own p x then None else zscore (rdb c) r (sp_slotKey spec j) x)" for j x
    using spec_keys [OF assms(3)] by (simp add: eff L(4))
  then have "zmembers (rdb c) ?r' (sp_slotKey spec j) =
      {x \<in> zmembers (rdb c) r (sp_slotKey spec j). own p x \<or> \<not> cleaned ?ms j}" for j
    by (auto simp: zmembers_def split: if_splits)
  moreover have "rd_get (rdb c) ?r' (sp_waitKey spec j) =
      (if cleaned ?ms j then None else rd_get (rdb c) r (sp_waitKey spec j))" for j
    by (simp add: eff L(6))
  moreover have "zscore (rdb c) ?r' (sp_indexKey spec) m =
      (if m \<in> zmembers (rdb c) r (sp_indexKey spec) \<and> memberLive c spec p r m
       then Some (now + slotTTLSeconds c) else None)" for m
    using L(2,3) by (auto simp: eff L(5) ms image_iff) (auto simp: zmembers_def)
  ultimately show ?thesis unfolding cl by blast
qed

theorem startup_cleanup_exact_witness:
  "\<exists>r'. cleanupStaleIndex cache0 accountSlotIndex ''r1'' 2000
      (snd (AcquireAccountSlot cache0 7 3 ''r0-1'' store0)) = (Inr (), r')
    \<and> zmembers (rdb cache0) r' (accountSlotKey 7) = {}"
proof -
  have up: "links_up (rdb cache0)"
    by (simp add: links_up_def cache0_def NewConcurrencyCache_def Let_def mem_redis_def)
  let ?r = "snd (AcquireAccountSlot cache0 7 3 ''r0-1'' store0)"
  have r: "zmembers (rdb cache0) ?r (accountSlotKey 7) = {''r0-1''}"
    "itoa 7 \<in> zmembers (rdb cache0) ?r accountActiveIndexKey"
    by (auto simp: zmembers_def cache0_def NewConcurrencyCache_def Let_def mem_redis_def
        AcquireAccountSlot_def acquireScript_def round_trip_def touchActiveIndexAt_def store0_def
        defaultSlotTTLMinutes_def mem_keys_def mem_zset_def mem_put_def key_defs split: if_splits)
  have sp: "sp_slotKey accountSlotIndex = accountSlotKey" "sp_indexKey accountSlotIndex = accountActiveIndexKey"
    by (simp_all add: accountSlotIndex_def)
  obtain r' where r': "cleanupStaleIndex cache0 accountSlotIndex ''r1'' 2000 ?r = (Inr (), r')"
    "zmembers (rdb cache0) r' (accountSlotKey 7) = {x \<in> zmembers (rdb cache0) ?r (accountSlotKey 7).
       own ''r1'' x \<or> \<not> (0 < (7::int) \<and> (\<exists>m \<in> zmembers (rdb cache0) ?r accountActiveIndexKey. parse_int m = Some 7))}"
    using startup_cleanup_exact [OF cache0_ok up, of accountSlotIndex "''r1''" 2000 ?r] sp
    by (auto simp: spec_ok_def)
  have "parse_int (itoa 7) = Some 7" by (rule parse_int_itoa) simp_all
  then have "zmembers (rdb cache0) r' (accountSlotKey 7) = {}"
    using r' r by (auto simp: own_def)
  with r'(1) show ?thesis by blast
qed

section \<open>The startup cleanup returns\<close>

text \<open>What Redis promises of \<open>SCAN\<close>: an iteration that starts with cursor 0 comes back to it. \<open>rank\<close>
counts the rounds that are left; commands in between do not prolong it.\<close>

definition scan_ends :: "'r redis \<Rightarrow> (nat \<Rightarrow> nat) \<Rightarrow> bool" where
  "scan_ends R rank \<longleftrightarrow> (\<forall>r cursor pattern n keys cont.
     rd_scan R r cursor pattern n = (keys, cont) \<longrightarrow> cont = 0 \<or> rank cont < rank cursor)"

lemma sweep_returns:
  assumes "scan_ends (rdb c) rank"
  shows "\<exists>y. sweepPattern c pattern cursor r = Some y"
proof (induction "rank cursor" arbitrary: cursor r rule: less_induct)
  case less
  obtain q r1 where q: "round_trip (rdb c) (\<lambda>r. (rd_scan (rdb c) r cursor pattern 200, r)) r = (q, r1)" by fastforce
  show ?case
  proof (cases q)
    case (Inl e)
    with q show ?thesis by (subst sweepPattern.simps) simp
  next
    case (Inr page)
    obtain keys cont where page: "page = (keys, cont)" by (cases page)
    obtain x r2 where x: "(if keys = [] then (Inr (), r1)
        else round_trip (rdb c) (\<lambda>r. ((), foldl (rd_del (rdb c)) r keys)) r1) = (x, r2)" by fastforce
    have "\<exists>r0. rd_scan (rdb c) r0 cursor pattern 200 = (keys, cont)"
      using q Inr page by (auto simp: round_trip_def split: prod.splits option.splits)
    then have "cont = 0 \<or> rank cont < rank cursor" using assms unfolding scan_ends_def by blast
    with less x q Inr page show ?thesis
      by (subst sweepPattern.simps) (auto split: sum.split)
  qed
qed

text \<open>C6. The startup cleanup returns, with success or an error, on every server whose scans end, whatever
the server answers and however many keys of old versions it holds.\<close>

theorem startup_cleanup_returns:
  assumes "scan_ends (rdb c) rank"
  shows "\<exists>result r1. CleanupStaleProcessSlots c activePrefix r = Some (result, r1)"
proof -
  have sweep: "\<exists>x r1. sweepLegacyWaitKeysOnce c s = Some (x, r1)" for s
  proof -
    obtain y1 where y1: "\<And>s. sweepPattern c (accountWaitKeyPrefix @ ''*'') 0 s = Some (y1 s)"
      using sweep_returns [OF assms] by metis
    obtain y2 where y2: "\<And>s. sweepPattern c (waitQueueKeyPrefix @ ''*'') 0 s = Some (y2 s)"
      using sweep_returns [OF assms] by metis
    show ?thesis
      unfolding sweepLegacyWaitKeysOnce_def y1 y2 by (auto split: prod.split sum.split)
  qed
  then obtain x s where "sweepLegacyWaitKeysOnce c r = Some (x, s)" by blast
  then show ?thesis
    unfolding CleanupStaleProcessSlots_def by (auto split: prod.split sum.split)
qed

text \<open>A server that reports its counters in two pages.\<close>

definition pagedCache :: "memRedis concurrencyCache" where
  "pagedCache = cache0\<lparr>rdb := (rdb cache0)\<lparr>rd_scan := \<lambda>r cursor pattern n.
     if cursor = 0 then (map fst (mr_ints r), 7) else ([], 0)\<rparr>\<rparr>"

lemma startup_cleanup_returns_witness:
  "\<exists>result r1. CleanupStaleProcessSlots pagedCache ''r1'' store0 = Some (result, r1)"
  by (rule startup_cleanup_returns [of pagedCache "\<lambda>cursor. if cursor = 0 then 1 else 0"])
    (auto simp: scan_ends_def pagedCache_def split: if_splits)

end
