(* ===== verification/ConcurrencyService.thy ===== *)
theory ConcurrencyService
  imports ConcurrencyStartup OldestScan "HOL-Library.Word"
begin

text \<open>
  The concurrency service (\<open>internal/service/concurrency_service.go\<close>), the client of the cache
  interface \<open>ConcurrencyCache\<close>. The interface value is a record of the methods the service calls, on
  an arbitrary type of cache states; the locale \<open>slot_cache\<close> states what the service relies on and
  is interpreted on the Redis cache of theory ConcurrencyCache. Release functions are data; contexts,
  timeouts and log lines are left out; \<open>time.Now()\<close> is an argument.
\<close>

section \<open>The cache interface\<close>

record 'c cacheIface =
  ci_AcquireAccountSlot :: "int \<Rightarrow> int \<Rightarrow> string \<Rightarrow> 'c \<Rightarrow> (string + bool) \<times> 'c"
  ci_ReleaseAccountSlot :: "int \<Rightarrow> string \<Rightarrow> 'c \<Rightarrow> (string + unit) \<times> 'c"
  ci_AcquireUserSlot :: "int \<Rightarrow> int \<Rightarrow> string \<Rightarrow> 'c \<Rightarrow> (string + bool) \<times> 'c"
  ci_ReleaseUserSlot :: "int \<Rightarrow> string \<Rightarrow> 'c \<Rightarrow> (string + unit) \<times> 'c"
  ci_TrackAPIKeySlot :: "int \<Rightarrow> string \<Rightarrow> 'c \<Rightarrow> (string + unit) \<times> 'c"
  ci_ReleaseAPIKeySlot :: "int \<Rightarrow> string \<Rightarrow> 'c \<Rightarrow> (string + unit) \<times> 'c"
  ci_GetAPIKeyConcurrencyBatch :: "int list \<Rightarrow> 'c \<Rightarrow> (string + (int, int) gomap) \<times> 'c"
  ci_IncrementWaitCount :: "int \<Rightarrow> int \<Rightarrow> 'c \<Rightarrow> (string + bool) \<times> 'c"
  ci_DecrementWaitCount :: "int \<Rightarrow> 'c \<Rightarrow> (string + unit) \<times> 'c"
  ci_IncrementAccountWaitCount :: "int \<Rightarrow> int \<Rightarrow> 'c \<Rightarrow> (string + bool) \<times> 'c"
  ci_DecrementAccountWaitCount :: "int \<Rightarrow> 'c \<Rightarrow> (string + unit) \<times> 'c"
  ci_GetAccountWaitingCount :: "int \<Rightarrow> 'c \<Rightarrow> (string + int) \<times> 'c"
  ci_GetAccountsLoadBatch :: "withConcurrency list \<Rightarrow> 'c \<Rightarrow> (string + (int, loadInfo) gomap) \<times> 'c"
  ci_AcquireIngress :: "int \<Rightarrow> int \<Rightarrow> string \<Rightarrow> 'c \<Rightarrow> (string + bool) \<times> 'c"
  ci_RefreshIngress :: "int \<Rightarrow> string \<Rightarrow> 'c \<Rightarrow> (string + bool) \<times> 'c"
  ci_ReleaseIngress :: "int \<Rightarrow> string \<Rightarrow> 'c \<Rightarrow> (string + unit) \<times> 'c"

text \<open>The Redis cache as an implementation of the interface.\<close>

definition redisIface :: "'r concurrencyCache \<Rightarrow> 'r cacheIface" where
  "redisIface c = \<lparr>
    ci_AcquireAccountSlot = AcquireAccountSlot c, ci_ReleaseAccountSlot = ReleaseAccountSlot c,
    ci_AcquireUserSlot = AcquireUserSlot c, ci_ReleaseUserSlot = ReleaseUserSlot c,
    ci_TrackAPIKeySlot = TrackAPIKeySlot c, ci_ReleaseAPIKeySlot = ReleaseAPIKeySlot c,
    ci_GetAPIKeyConcurrencyBatch = GetAPIKeyConcurrencyBatch c,
    ci_IncrementWaitCount = IncrementWaitCount c, ci_DecrementWaitCount = DecrementWaitCount c,
    ci_IncrementAccountWaitCount = IncrementAccountWaitCount c,
    ci_DecrementAccountWaitCount = DecrementAccountWaitCount c,
    ci_GetAccountWaitingCount = GetAccountWaitingCount c,
    ci_GetAccountsLoadBatch = GetAccountsLoadBatch c,
    ci_AcquireIngress = AcquireOpenAIWSIngressLease c, ci_RefreshIngress = RefreshOpenAIWSIngressLease c,
    ci_ReleaseIngress = ReleaseOpenAIWSIngressLease c\<rparr>"

section \<open>State\<close>

record cachedLoadBatch =
  cl_loadMap :: "(int, loadInfo) gomap"
  cl_expiresAt :: time

record 'c service =
  sv_cache :: "'c option"
  sv_counter :: "64 word"
  sv_loadTTL :: duration
  sv_loadCache :: "(string, cachedLoadBatch) gomap"

definition defaultExtraWaitSlots :: int where "defaultExtraWaitSlots = 20"
definition defaultAccountLoadBatchCacheTTL :: duration where
  "defaultAccountLoadBatchCacheTTL = 200 * millisecond"
definition maxAccountLoadBatchCacheEntries :: nat where "maxAccountLoadBatchCacheEntries = 256"
definition openAIWSIngressLeaseTTL :: duration where "openAIWSIngressLeaseTTL = 60 * second"

definition SetAccountLoadBatchCacheTTL :: "duration \<Rightarrow> 'c service \<Rightarrow> 'c service" where
  "SetAccountLoadBatchCacheTTL ttl s =
    (let s1 = s\<lparr>sv_loadTTL := ttl\<rparr> in if ttl \<le> 0 then s1\<lparr>sv_loadCache := []\<rparr> else s1)"

definition NewConcurrencyService :: "'c option \<Rightarrow> 'c service" where
  "NewConcurrencyService cache =
    SetAccountLoadBatchCacheTTL defaultAccountLoadBatchCacheTTL
      \<lparr>sv_cache = cache, sv_counter = 0, sv_loadTTL = 0, sv_loadCache = []\<rparr>"

text \<open>\<open>strconv.FormatUint(n, 36)\<close>.\<close>

definition digit36 :: "nat \<Rightarrow> char" where
  "digit36 d = (if d < 10 then char_of (48 + d) else char_of (87 + d))"

fun base36 :: "nat \<Rightarrow> string" where
  "base36 n = (if n < 36 then [digit36 n] else base36 (n div 36) @ [digit36 (n mod 36)])"

declare base36.simps [simp del]

definition generateRequestID :: "string \<Rightarrow> 'c service \<Rightarrow> string \<times> 'c service" where
  "generateRequestID requestIDPrefix s =
    (let seq = sv_counter s + 1
     in (requestIDPrefix @ ''-'' @ base36 (unat seq), s\<lparr>sv_counter := seq\<rparr>))"

section \<open>Slots\<close>

datatype releaseFunc = NoRelease | ReleaseAccount int string | ReleaseUser int string | ReleaseKey int string

record acquireResult =
  ar_Acquired :: bool
  ar_ReleaseFunc :: "releaseFunc option"

text \<open>A call of an interface method on the service's cache; a nil cache panics in the source, and the
  callers below test for it where the source does.\<close>

definition with_cache :: "('c \<Rightarrow> 'a \<times> 'c) \<Rightarrow> 'c \<Rightarrow> 'c service \<Rightarrow> 'a \<times> 'c service" where
  "with_cache f c s = (case f c of (a, c1) \<Rightarrow> (a, s\<lparr>sv_cache := Some c1\<rparr>))"

fun runRelease :: "'c cacheIface \<Rightarrow> releaseFunc \<Rightarrow> 'c service \<Rightarrow> 'c service" where
  "runRelease I NoRelease s = s"
| "runRelease I (ReleaseAccount a q) s =
    (case sv_cache s of None \<Rightarrow> s | Some c \<Rightarrow> snd (with_cache (ci_ReleaseAccountSlot I a q) c s))"
| "runRelease I (ReleaseUser u q) s =
    (case sv_cache s of None \<Rightarrow> s | Some c \<Rightarrow> snd (with_cache (ci_ReleaseUserSlot I u q) c s))"
| "runRelease I (ReleaseKey k q) s =
    (case sv_cache s of None \<Rightarrow> s | Some c \<Rightarrow> snd (with_cache (ci_ReleaseAPIKeySlot I k q) c s))"

text \<open>\<open>None\<close> is the panic of a nil cache, which the source does not guard against here.\<close>

definition svcAcquireAccountSlot ::
  "'c cacheIface \<Rightarrow> string \<Rightarrow> int \<Rightarrow> int \<Rightarrow> 'c service \<Rightarrow> ((string + acquireResult) \<times> 'c service) option" where
  "svcAcquireAccountSlot I pre accountID maxConcurrency s =
    (if maxConcurrency \<le> 0 then Some (Inr \<lparr>ar_Acquired = True, ar_ReleaseFunc = Some NoRelease\<rparr>, s)
     else
       case generateRequestID pre s of (requestID, s1) \<Rightarrow>
         (case sv_cache s1 of
            None \<Rightarrow> None
          | Some c \<Rightarrow>
              (case with_cache (ci_AcquireAccountSlot I accountID maxConcurrency requestID) c s1 of
                 (Inl e, s2) \<Rightarrow> Some (Inl e, s2)
               | (Inr True, s2) \<Rightarrow>
                   Some (Inr \<lparr>ar_Acquired = True, ar_ReleaseFunc = Some (ReleaseAccount accountID requestID)\<rparr>, s2)
               | (Inr False, s2) \<Rightarrow> Some (Inr \<lparr>ar_Acquired = False, ar_ReleaseFunc = None\<rparr>, s2))))"

definition svcAcquireUserSlot ::
  "'c cacheIface \<Rightarrow> string \<Rightarrow> int \<Rightarrow> int \<Rightarrow> 'c service \<Rightarrow> ((string + acquireResult) \<times> 'c service) option" where
  "svcAcquireUserSlot I pre userID maxConcurrency s =
    (if maxConcurrency \<le> 0 then Some (Inr \<lparr>ar_Acquired = True, ar_ReleaseFunc = Some NoRelease\<rparr>, s)
     else
       case generateRequestID pre s of (requestID, s1) \<Rightarrow>
         (case sv_cache s1 of
            None \<Rightarrow> None
          | Some c \<Rightarrow>
              (case with_cache (ci_AcquireUserSlot I userID maxConcurrency requestID) c s1 of
                 (Inl e, s2) \<Rightarrow> Some (Inl e, s2)
               | (Inr True, s2) \<Rightarrow>
                   Some (Inr \<lparr>ar_Acquired = True, ar_ReleaseFunc = Some (ReleaseUser userID requestID)\<rparr>, s2)
               | (Inr False, s2) \<Rightarrow> Some (Inr \<lparr>ar_Acquired = False, ar_ReleaseFunc = None\<rparr>, s2))))"

definition svcTrackAPIKeySlot :: "'c cacheIface \<Rightarrow> string \<Rightarrow> int \<Rightarrow> 'c service \<Rightarrow> releaseFunc \<times> 'c service" where
  "svcTrackAPIKeySlot I pre apiKeyID s =
    (case sv_cache s of
       None \<Rightarrow> (NoRelease, s)
     | Some c \<Rightarrow>
         if apiKeyID \<le> 0 then (NoRelease, s)
         else
           case generateRequestID pre s of (requestID, s1) \<Rightarrow>
             (case with_cache (ci_TrackAPIKeySlot I apiKeyID requestID) c s1 of
                (Inl e, s2) \<Rightarrow> (NoRelease, s2)
              | (Inr _, s2) \<Rightarrow> (ReleaseKey apiKeyID requestID, s2)))"

definition zeroAPIKeyConcurrencyMap :: "int list \<Rightarrow> (int, int) gomap" where
  "zeroAPIKeyConcurrencyMap ids = foldl (\<lambda>m i. m_set m i 0) [] ids"

definition svcGetAPIKeyConcurrencyBatch ::
  "'c cacheIface \<Rightarrow> int list \<Rightarrow> 'c service \<Rightarrow> (int, int) gomap \<times> 'c service" where
  "svcGetAPIKeyConcurrencyBatch I ids s =
    (let result = zeroAPIKeyConcurrencyMap ids
     in if ids = [] then (result, s)
        else
          case sv_cache s of
            None \<Rightarrow> (result, s)
          | Some c \<Rightarrow>
              (case with_cache (ci_GetAPIKeyConcurrencyBatch I ids) c s of
                 (Inl e, s1) \<Rightarrow> (result, s1)
               | (Inr counts, s1) \<Rightarrow>
                   (foldl (\<lambda>m i. m_set m i (case m_get counts i of None \<Rightarrow> 0 | Some n \<Rightarrow> n)) result ids, s1)))"

section \<open>Wait counts\<close>

definition svcIncrementWaitCount :: "'c cacheIface \<Rightarrow> int \<Rightarrow> int \<Rightarrow> 'c service \<Rightarrow> bool \<times> 'c service" where
  "svcIncrementWaitCount I userID maxWait s =
    (case sv_cache s of
       None \<Rightarrow> (True, s)
     | Some c \<Rightarrow>
         (case with_cache (ci_IncrementWaitCount I userID maxWait) c s of
            (Inl e, s1) \<Rightarrow> (True, s1)
          | (Inr result, s1) \<Rightarrow> (result, s1)))"

definition svcDecrementWaitCount :: "'c cacheIface \<Rightarrow> int \<Rightarrow> 'c service \<Rightarrow> 'c service" where
  "svcDecrementWaitCount I userID s =
    (case sv_cache s of None \<Rightarrow> s | Some c \<Rightarrow> snd (with_cache (ci_DecrementWaitCount I userID) c s))"

definition svcIncrementAccountWaitCount :: "'c cacheIface \<Rightarrow> int \<Rightarrow> int \<Rightarrow> 'c service \<Rightarrow> bool \<times> 'c service" where
  "svcIncrementAccountWaitCount I accountID maxWait s =
    (case sv_cache s of
       None \<Rightarrow> (True, s)
     | Some c \<Rightarrow>
         (case with_cache (ci_IncrementAccountWaitCount I accountID maxWait) c s of
            (Inl e, s1) \<Rightarrow> (True, s1)
          | (Inr result, s1) \<Rightarrow> (result, s1)))"

definition svcDecrementAccountWaitCount :: "'c cacheIface \<Rightarrow> int \<Rightarrow> 'c service \<Rightarrow> 'c service" where
  "svcDecrementAccountWaitCount I accountID s =
    (case sv_cache s of None \<Rightarrow> s | Some c \<Rightarrow> snd (with_cache (ci_DecrementAccountWaitCount I accountID) c s))"

definition svcGetAccountWaitingCount :: "'c cacheIface \<Rightarrow> int \<Rightarrow> 'c service \<Rightarrow> (string + int) \<times> 'c service" where
  "svcGetAccountWaitingCount I accountID s =
    (case sv_cache s of None \<Rightarrow> (Inr 0, s) | Some c \<Rightarrow> with_cache (ci_GetAccountWaitingCount I accountID) c s)"

definition CalculateMaxWait :: "int \<Rightarrow> int" where
  "CalculateMaxWait userConcurrency =
    (if userConcurrency \<le> 0 then 1 else userConcurrency) + defaultExtraWaitSlots"

section \<open>The cache of load batches\<close>

text \<open>The bytes of an account list; \<open>digest\<close> is the hexadecimal SHA-256 of its argument.\<close>

definition le64 :: "int \<Rightarrow> 8 word list" where
  "le64 n = map (\<lambda>i. word_of_int (n div 256 ^ i)) [0..<8]"

definition accountLoadBatchCacheKey :: "(8 word list \<Rightarrow> string) \<Rightarrow> withConcurrency list \<Rightarrow> string" where
  "accountLoadBatchCacheKey digest accounts =
    itoa (int (length accounts)) @ '':'' @
      digest (concat (map (\<lambda>a. le64 (wc_ID a) @ le64 (wc_MaxConcurrency a)) accounts))"

definition getCachedAccountLoadBatch ::
  "string \<Rightarrow> time \<Rightarrow> 'c service \<Rightarrow> (int, loadInfo) gomap option \<times> 'c service" where
  "getCachedAccountLoadBatch key now s =
    (case m_get (sv_loadCache s) key of
       None \<Rightarrow> (None, s)
     | Some cached \<Rightarrow>
         if \<not> t_before now (cl_expiresAt cached)
         then (None, s\<lparr>sv_loadCache := m_del (sv_loadCache s) key\<rparr>)
         else (Some (cl_loadMap cached), s))"

text \<open>The loop that deletes the entry \<open>range\<close> yields first until there is room; the size of the map
  bounds its number of rounds.\<close>

fun evictAny ::
  "((string \<times> cachedLoadBatch) list \<Rightarrow> (string \<times> cachedLoadBatch) list) \<Rightarrow> nat
    \<Rightarrow> (string, cachedLoadBatch) gomap \<Rightarrow> (string, cachedLoadBatch) gomap" where
  "evictAny ord 0 m = m"
| "evictAny ord (Suc n) m =
    (if length m \<ge> maxAccountLoadBatchCacheEntries
     then evictAny ord n (m_del m (fst (hd (ord m)))) else m)"

definition storeCachedAccountLoadBatch ::
  "((string \<times> cachedLoadBatch) list \<Rightarrow> (string \<times> cachedLoadBatch) list) \<Rightarrow> string
    \<Rightarrow> (int, loadInfo) gomap \<Rightarrow> time \<Rightarrow> time \<Rightarrow> 'c service \<Rightarrow> 'c service" where
  "storeCachedAccountLoadBatch ord key loadMap expiresAt now s =
    (let m0 = sv_loadCache s;
         m1 = (if length m0 \<ge> maxAccountLoadBatchCacheEntries
               then let live = filter (\<lambda>(k, e). t_before now (cl_expiresAt e)) m0
                    in evictAny ord (length live) live
               else m0)
     in s\<lparr>sv_loadCache := m_set m1 key \<lparr>cl_loadMap = loadMap, cl_expiresAt = expiresAt\<rparr>\<rparr>)"

definition fetchAccountsLoadBatch ::
  "'c cacheIface \<Rightarrow> withConcurrency list \<Rightarrow> 'c service \<Rightarrow> (string + (int, loadInfo) gomap) \<times> 'c service" where
  "fetchAccountsLoadBatch I accounts s =
    (case sv_cache s of None \<Rightarrow> (Inr [], s) | Some c \<Rightarrow> with_cache (ci_GetAccountsLoadBatch I accounts) c s)"

text \<open>\<open>now\<close>, \<open>now'\<close> and \<open>now''\<close> are the clock readings before, inside and after the fetch of the single
  flight. Its clone of the map is the map itself: the model has no aliasing.\<close>

definition getAccountsLoadBatch ::
  "'c cacheIface \<Rightarrow> (8 word list \<Rightarrow> string) \<Rightarrow> ((string \<times> cachedLoadBatch) list \<Rightarrow> (string \<times> cachedLoadBatch) list)
    \<Rightarrow> withConcurrency list \<Rightarrow> bool \<Rightarrow> time \<Rightarrow> time \<Rightarrow> time \<Rightarrow> 'c service
    \<Rightarrow> (string + (int, loadInfo) gomap) \<times> 'c service" where
  "getAccountsLoadBatch I digest ord accounts allowCache now now' now'' s =
    (if accounts = [] then (Inr [], s)
     else if sv_cache s = None then (Inr [], s)
     else
       let ttl = sv_loadTTL s
       in if \<not> allowCache \<or> ttl \<le> 0 then fetchAccountsLoadBatch I accounts s
          else
            let key = accountLoadBatchCacheKey digest accounts
            in case getCachedAccountLoadBatch key now s of
                 (Some cached, s1) \<Rightarrow> (Inr cached, s1)
               | (None, s1) \<Rightarrow>
                   (case getCachedAccountLoadBatch key now' s1 of
                      (Some cached, s2) \<Rightarrow> (Inr cached, s2)
                    | (None, s2) \<Rightarrow>
                        (case fetchAccountsLoadBatch I accounts s2 of
                           (Inl e, s3) \<Rightarrow> (Inl e, s3)
                         | (Inr loadMap, s3) \<Rightarrow>
                             (Inr loadMap,
                              storeCachedAccountLoadBatch ord key loadMap (t_add now' ttl) now'' s3))))"

section \<open>Ingress leases\<close>

record ingressLease =
  lg_apiKeyID :: int
  lg_leaseID :: string

definition svcAcquireIngressLease ::
  "'c cacheIface \<Rightarrow> string \<Rightarrow> int \<Rightarrow> int \<Rightarrow> 'c service \<Rightarrow> (string + ingressLease option \<times> bool) \<times> 'c service" where
  "svcAcquireIngressLease I pre apiKeyID maxConnections s =
    (if maxConnections \<le> 0 then (Inr (None, True), s)
     else
       case sv_cache s of
         None \<Rightarrow> (Inl ''openai websocket ingress lease cache is unavailable'', s)
       | Some c \<Rightarrow>
           if apiKeyID \<le> 0 then (Inl ''openai websocket ingress lease cache is unavailable'', s)
           else
             case generateRequestID pre s of (leaseID, s1) \<Rightarrow>
               (case with_cache (ci_AcquireIngress I apiKeyID maxConnections leaseID) c s1 of
                  (Inl e, s2) \<Rightarrow> (Inl e, s2)
                | (Inr acquired, s2) \<Rightarrow>
                    if \<not> acquired then (Inr (None, False), s2)
                    else (Inr (Some \<lparr>lg_apiKeyID = apiKeyID, lg_leaseID = leaseID\<rparr>, True), s2)))"

text \<open>One refresh: \<open>now\<close> is the clock after the call; the result is the last confirmed instant and
  whether the lease is lost.\<close>

definition leaseRefresh ::
  "'c cacheIface \<Rightarrow> ingressLease \<Rightarrow> time \<Rightarrow> time \<Rightarrow> 'c \<Rightarrow> (time \<times> bool) \<times> 'c" where
  "leaseRefresh I l lastConfirmedAt now c =
    (case ci_RefreshIngress I (lg_apiKeyID l) (lg_leaseID l) c of
       (Inr True, c1) \<Rightarrow> ((now, False), c1)
     | (Inr False, c1) \<Rightarrow> ((lastConfirmedAt, True), c1)
     | (Inl e, c1) \<Rightarrow> ((lastConfirmedAt, t_sub now lastConfirmedAt \<ge> openAIWSIngressLeaseTTL), c1))"

text \<open>The refresh loop over its ticks: the instant at which the session is cancelled, if it is.\<close>

fun refreshLoop :: "'c cacheIface \<Rightarrow> ingressLease \<Rightarrow> time \<Rightarrow> time list \<Rightarrow> 'c \<Rightarrow> time option \<times> 'c" where
  "refreshLoop I l lastConfirmedAt [] c = (None, c)"
| "refreshLoop I l lastConfirmedAt (now # ticks) c =
    (case leaseRefresh I l lastConfirmedAt now c of
       ((confirmed, lost), c1) \<Rightarrow> if lost then (Some now, c1) else refreshLoop I l confirmed ticks c1)"

definition leaseRelease :: "'c cacheIface \<Rightarrow> ingressLease \<Rightarrow> 'c \<Rightarrow> 'c" where
  "leaseRelease I l c =
    (if lg_apiKeyID l \<le> 0 \<or> lg_leaseID l = [] then c
     else snd (ci_ReleaseIngress I (lg_apiKeyID l) (lg_leaseID l) c))"

section \<open>The contract of the cache\<close>

text \<open>\<open>holds c a q\<close>: request \<open>q\<close> is a member of account \<open>a\<close>'s slots. \<open>load\<close> counts an account's members.\<close>

locale slot_cache =
  fixes I :: "'c cacheIface" and inv :: "'c \<Rightarrow> bool"
    and holds :: "'c \<Rightarrow> int \<Rightarrow> string \<Rightarrow> bool" and load :: "'c \<Rightarrow> int \<Rightarrow> int"
  assumes acquire_granted: "inv c \<Longrightarrow> ci_AcquireAccountSlot I a mx q c = (Inr True, c') \<Longrightarrow>
      inv c' \<and> holds c' a q \<and> load c' a \<le> max (load c a) mx"
    and acquire_refused: "inv c \<Longrightarrow> ci_AcquireAccountSlot I a mx q c = (Inr False, c') \<Longrightarrow>
      inv c' \<and> \<not> holds c' a q \<and> load c' a \<le> load c a"
    and release_frees: "inv c \<Longrightarrow> ci_ReleaseAccountSlot I a q c = (Inr (), c') \<Longrightarrow>
      inv c' \<and> \<not> holds c' a q \<and> load c' a \<le> load c a"
begin

lemma lifecycle:
  assumes "inv c" and "sv_cache s = Some c" and "0 < mx"
    and "svcAcquireAccountSlot I pre a mx s = Some (Inr res, s1)"
  shows "\<exists>c1. sv_cache s1 = Some c1 \<and> inv c1
    \<and> (let q = fst (generateRequestID pre s)
       in (ar_Acquired res \<longrightarrow> ar_ReleaseFunc res = Some (ReleaseAccount a q) \<and> holds c1 a q
             \<and> load c1 a \<le> max (load c a) mx
             \<and> (\<forall>c2. ci_ReleaseAccountSlot I a q c1 = (Inr (), c2) \<longrightarrow>
                  sv_cache (runRelease I (ReleaseAccount a q) s1) = Some c2 \<and> \<not> holds c2 a q \<and> load c2 a \<le> load c1 a))
        \<and> (\<not> ar_Acquired res \<longrightarrow> ar_ReleaseFunc res = None \<and> \<not> holds c1 a q \<and> load c1 a \<le> load c a))"
proof -
  let ?q = "fst (generateRequestID pre s)"
  obtain x c1 where x: "ci_AcquireAccountSlot I a mx ?q c = (x, c1)" by force
  have g: "generateRequestID pre s = (?q, snd (generateRequestID pre s))"
    "sv_cache (snd (generateRequestID pre s)) = Some c"
    using assms(2) by (simp_all add: generateRequestID_def Let_def)
  show ?thesis
  proof (cases x)
    case (Inl e)
    with assms(3,4) g x show ?thesis by (simp add: svcAcquireAccountSlot_def with_cache_def split: prod.splits)
  next
    case (Inr b)
    show ?thesis
    proof (cases b)
      case True
      with Inr x have r: "ci_AcquireAccountSlot I a mx ?q c = (Inr True, c1)" by simp
      have res: "res = \<lparr>ar_Acquired = True, ar_ReleaseFunc = Some (ReleaseAccount a ?q)\<rparr>" "sv_cache s1 = Some c1"
        using assms(3,4) g r by (auto simp: svcAcquireAccountSlot_def with_cache_def split: prod.splits)
      note gr = acquire_granted [OF assms(1) r]
      have "sv_cache (runRelease I (ReleaseAccount a ?q) s1) = Some c2 \<and> \<not> holds c2 a ?q \<and> load c2 a \<le> load c1 a"
        if "ci_ReleaseAccountSlot I a ?q c1 = (Inr (), c2)" for c2
        using release_frees [of c1 a ?q c2] gr that res(2) by (simp add: with_cache_def)
      with gr res show ?thesis by (simp add: Let_def)
    next
      case False
      with Inr x have r: "ci_AcquireAccountSlot I a mx ?q c = (Inr False, c1)" by simp
      have res: "res = \<lparr>ar_Acquired = False, ar_ReleaseFunc = None\<rparr>" "sv_cache s1 = Some c1"
        using assms(3,4) g r by (auto simp: svcAcquireAccountSlot_def with_cache_def split: prod.splits)
      with acquire_refused [OF assms(1) r] show ?thesis by (simp add: Let_def)
    qed
  qed
qed

end

lemma acquireAccount_outcome:
  assumes ok: "cache_ok c" and "AcquireAccountSlot c a mx q r = (Inr g, r')"
  shows "g \<longleftrightarrow> q \<in> zmembers (rdb c) r' (accountSlotKey a)" "\<not> g \<Longrightarrow> accountLoad c r' a \<le> accountLoad c r a"
proof -
  note R = cache_okD(1) [OF ok]
  obtain r0 where l: "rd_link (rdb c) r = (r0, None)"
    using assms(2) by (auto simp: AcquireAccountSlot_def round_trip_def split: prod.splits option.splits)
  let ?A = "unexpired (rdb c) r0 (accountSlotKey a) (slotTTLSeconds c)"
  let ?B = "unexpired (rdb c) r0 (liveAccountSlotKey a) 60"
  have d: "g = (q \<in> ?A \<or> int (card ?A + card ?B) < mx)"
    "zmembers (rdb c) r' (accountSlotKey a) = (if g then insert q ?A else ?A)"
    "zmembers (rdb c) r' (liveAccountSlotKey a) = ?B"
    using account_admission_facts [OF ok l, of a q mx] assms(2) by (simp_all add: Let_def)
  show "g \<longleftrightarrow> q \<in> zmembers (rdb c) r' (accountSlotKey a)" using d(1,2) by auto
  have "?A \<subseteq> zmembers (rdb c) r (accountSlotKey a)" "?B \<subseteq> zmembers (rdb c) r (liveAccountSlotKey a)"
    using rd_linkD(1) [OF R l] by (auto simp: unexpired_def zmembers_def)
  then have "card ?A \<le> card (zmembers (rdb c) r (accountSlotKey a))"
    "card ?B \<le> card (zmembers (rdb c) r (liveAccountSlotKey a))"
    by (simp_all add: card_mono finite_zmembers [OF R])
  then show "\<not> g \<Longrightarrow> accountLoad c r' a \<le> accountLoad c r a"
    using d(2,3) by (simp add: accountLoad_def zcard_members [OF R])
qed

lemma releaseAccount_outcome:
  assumes ok: "cache_ok c" and "ReleaseAccountSlot c a q r = (Inr (), r')"
  shows "q \<notin> zmembers (rdb c) r' (accountSlotKey a)" "accountLoad c r' a \<le> accountLoad c r a"
proof -
  note R = cache_okD(1) [OF ok]
  obtain r0 where l: "rd_link (rdb c) r = (r0, None)"
    and r': "r' = refreshAccountActiveIndex c a (zrem (rdb c) r0 (accountSlotKey a) q)"
    using assms(2) by (auto simp: ReleaseAccountSlot_def round_trip_def split: prod.splits option.splits)
  have "grows (rdb c) {accountActiveIndexKey} (zrem (rdb c) r0 (accountSlotKey a) q) r'"
    unfolding r' by (rule grows_refreshAccount [OF ok]) simp
  from grows_members [OF this, of "accountSlotKey a"] show "q \<notin> zmembers (rdb c) r' (accountSlotKey a)"
    by (auto simp: zmembers_zrem [OF R])
  have "grows (rdb c) {accountActiveIndexKey} r r'"
    using grows_methods(3) [OF ok, of "{accountActiveIndexKey}" r a q] assms(2) by simp
  then show "accountLoad c r' a \<le> accountLoad c r a"
    by (rule accountLoad_grows [OF ok]) simp_all
qed

interpretation redis_slots: slot_cache "redisIface c" "\<lambda>r. cache_ok c"
  "\<lambda>r a q. q \<in> zmembers (rdb c) r (accountSlotKey a)" "accountLoad c" for c
proof
  fix r a mx q r'
  assume ok: "cache_ok c"
  show "cache_ok c \<and> q \<in> zmembers (rdb c) r' (accountSlotKey a) \<and> accountLoad c r' a \<le> max (accountLoad c r a) mx"
    if "ci_AcquireAccountSlot (redisIface c) a mx q r = (Inr True, r')"
    using acquireAccount_outcome [OF ok, of a mx q r] acquireAccount_load [OF ok, of a mx q r] that ok
    by (simp add: redisIface_def)
  show "cache_ok c \<and> q \<notin> zmembers (rdb c) r' (accountSlotKey a) \<and> accountLoad c r' a \<le> accountLoad c r a"
    if "ci_AcquireAccountSlot (redisIface c) a mx q r = (Inr False, r')"
    using acquireAccount_outcome [OF ok, of a mx q r False r'] that ok by (simp add: redisIface_def)
  show "cache_ok c \<and> q \<notin> zmembers (rdb c) r' (accountSlotKey a) \<and> accountLoad c r' a \<le> accountLoad c r a"
    if "ci_ReleaseAccountSlot (redisIface c) a q r = (Inr (), r')"
    using releaseAccount_outcome [OF ok, of a q r] that ok by (simp add: redisIface_def)
qed

section \<open>Properties\<close>


lemma cache0_acquire_a:
  "fst (AcquireAccountSlot cache0 7 1 q store0) = Inr True"
  by (simp add: AcquireAccountSlot_def acquireScript_def round_trip_def Let_def cache0_def store0_def
      NewConcurrencyCache_def mem_redis_def mem_zset_def mem_put_def mem_keys_def)


text \<open>When every refresh of an ingress lease fails with an error.\<close>

definition refresh_fails :: "'c cacheIface \<Rightarrow> ingressLease \<Rightarrow> bool" where
  "refresh_fails I l \<longleftrightarrow> (\<forall>c. \<exists>e c'. ci_RefreshIngress I (lg_apiKeyID l) (lg_leaseID l) c = (Inl e, c'))"

text \<open>A WebSocket session whose lease refreshes only ever fail with errors is kept through errors for
  less than one lease lifetime after the last confirmation and is cancelled at the first tick that
  is a full lifetime (60 seconds) after it: the session never outlives the lease it cannot confirm
  by more than one tick.\<close>

theorem lease_loop_tolerates_one_ttl:
  assumes "refresh_fails I l"
  shows "fst (refreshLoop I l t0 ticks c) = find (\<lambda>t. 60 * second \<le> t_sub t t0) ticks"
proof (induction ticks arbitrary: c)
  case (Cons t ticks)
  obtain e c' where "ci_RefreshIngress I (lg_apiKeyID l) (lg_leaseID l) c = (Inl e, c')"
    using assms by (metis refresh_fails_def)
  with Cons show ?case by (simp add: leaseRefresh_def openAIWSIngressLeaseTTL_def)
qed simp

theorem lease_loop_tolerates_one_ttl_witness:
  "fst (refreshLoop (redisIface (cache0\<lparr>rdb := mem_redis\<lparr>rd_link := \<lambda>r. (r, Some ''down'')\<rparr>\<rparr>))
      \<lparr>lg_apiKeyID = 3, lg_leaseID = ''x''\<rparr> 0 [20 * second, 40 * second, 60 * second, 80 * second] store0)
   = Some (60 * second)"
proof -
  have "refresh_fails (redisIface (cache0\<lparr>rdb := mem_redis\<lparr>rd_link := \<lambda>r. (r, Some ''down'')\<rparr>\<rparr>))
      \<lparr>lg_apiKeyID = 3, lg_leaseID = ''x''\<rparr>"
    by (simp add: refresh_fails_def redisIface_def RefreshOpenAIWSIngressLease_def round_trip_def)
  from lease_loop_tolerates_one_ttl [OF this] show ?thesis
    by (simp del: refreshLoop.simps add: t_sub_def duration_defs)
qed

text \<open>Lookups never enlarge the load cache and a store keeps it within its bound.\<close>

lemma evictAny_size:
  "range_order ord \<Longrightarrow> gomap_ok m \<Longrightarrow> length m \<le> n \<Longrightarrow>
   gomap_ok (evictAny ord n m) \<and> length (evictAny ord n m) < maxAccountLoadBatchCacheEntries"
proof (induction n arbitrary: m)
  case 0
  then show ?case by (simp add: maxAccountLoadBatchCacheEntries_def)
next
  case (Suc n)
  show ?case
  proof (cases "maxAccountLoadBatchCacheEntries \<le> length m")
    case True
    then have "m \<noteq> []" by (auto simp: maxAccountLoadBatchCacheEntries_def)
    then have "hd (ord m) \<in> set m"
      using Suc.prems(1) by (metis range_order_set range_order_nil hd_in_set)
    then have "m_get m (fst (hd (ord m))) \<noteq> None"
      by (metis image_eqI m_get_none)
    with Suc.prems have "length (m_del m (fst (hd (ord m)))) \<le> n"
      using length_m_del_old [of m "fst (hd (ord m))"] by simp
    with Suc True show ?thesis by (simp add: gomap_ok_del)
  qed (use Suc.prems in simp)
qed

definition load_cache_ok :: "'c service \<Rightarrow> bool" where
  "load_cache_ok s \<longleftrightarrow> gomap_ok (sv_loadCache s) \<and> length (sv_loadCache s) \<le> maxAccountLoadBatchCacheEntries"

lemma getCached_ok:
  "load_cache_ok s \<Longrightarrow> load_cache_ok (snd (getCachedAccountLoadBatch key now s))"
  using length_m_del_le [of key "sv_loadCache s"]
  by (auto simp: getCachedAccountLoadBatch_def load_cache_ok_def gomap_ok_del split: option.splits)

lemma storeCached_ok:
  assumes "range_order ord" and "load_cache_ok s"
  shows "load_cache_ok (storeCachedAccountLoadBatch ord key m e now s)"
proof -
  let ?live = "filter (\<lambda>(k, e). t_before now (cl_expiresAt e)) (sv_loadCache s)"
  have "gomap_ok ?live" using assms(2) by (simp add: load_cache_ok_def gomap_ok_filter)
  from evictAny_size [OF assms(1) this, of "length ?live"] assms(2) show ?thesis
    using length_m_set_le by (fastforce simp: storeCachedAccountLoadBatch_def load_cache_ok_def Let_def gomap_ok_set
        intro: order_trans)
qed

lemma fetch_ok: "load_cache_ok s \<Longrightarrow> load_cache_ok (snd (fetchAccountsLoadBatch I accs s))"
  by (auto simp: fetchAccountsLoadBatch_def with_cache_def load_cache_ok_def split: option.splits prod.splits)

lemma getAccountsLoadBatch_ok:
  assumes "range_order ord" and "load_cache_ok s"
  shows "load_cache_ok (snd (getAccountsLoadBatch I digest ord accs allow t t' t'' s))"
  using assms
  by (simp add: getAccountsLoadBatch_def Let_def case_prod_unfold getCached_ok fetch_ok storeCached_ok
      split: option.split sum.split)

record loadCall =
  lc_accounts :: "withConcurrency list"
  lc_allowCache :: bool
  lc_times :: "time \<times> time \<times> time"

definition loadCall_step ::
  "'c cacheIface \<Rightarrow> (8 word list \<Rightarrow> string) \<Rightarrow> ((string \<times> cachedLoadBatch) list \<Rightarrow> (string \<times> cachedLoadBatch) list)
    \<Rightarrow> 'c service \<Rightarrow> loadCall \<Rightarrow> 'c service" where
  "loadCall_step I digest ord s k = (case lc_times k of (t, t', t'') \<Rightarrow>
     snd (getAccountsLoadBatch I digest ord (lc_accounts k) (lc_allowCache k) t t' t'' s))"

text \<open>The cache of load batches never exceeds its 256 entries: whatever calls a new service gets, at
  whatever times, and in whatever order Go ranges over the map when it evicts.\<close>

theorem load_cache_bounded:
  assumes "range_order ord"
  shows "length (sv_loadCache (foldl (loadCall_step I digest ord) (NewConcurrencyService c) calls)) \<le> 256"
proof -
  have "load_cache_ok (foldl (loadCall_step I digest ord) s calls)" if "load_cache_ok s" for s
    using that
  proof (induction calls arbitrary: s)
    case (Cons k calls)
    then have "load_cache_ok (loadCall_step I digest ord s k)"
      by (auto simp: loadCall_step_def getAccountsLoadBatch_ok [OF assms] split: prod.split)
    with Cons.IH show ?case by simp
  qed simp
  moreover have "load_cache_ok (NewConcurrencyService c)"
    by (simp add: NewConcurrencyService_def SetAccountLoadBatchCacheTTL_def load_cache_ok_def Let_def
        maxAccountLoadBatchCacheEntries_def)
  ultimately show ?thesis by (simp add: load_cache_ok_def maxAccountLoadBatchCacheEntries_def)
qed

theorem load_cache_bounded_witness:
  "length (sv_loadCache (foldl (loadCall_step (redisIface cache0) (\<lambda>_. ''d'') rev) (NewConcurrencyService (Some store0))
     [\<lparr>lc_accounts = [\<lparr>wc_ID = 7, wc_MaxConcurrency = 1\<rparr>], lc_allowCache = True, lc_times = (1, 2, 3)\<rparr>])) \<le> 256"
  by (rule load_cache_bounded [OF range_order_rev])

end
