(* ===== verification/AnthropicStream.thy ===== *)
theory AnthropicStream
  imports GoText
begin

text \<open>
  The converter from the Responses API to the Anthropic Messages API
  (\<open>internal/pkg/apicompat/responses_to_anthropic.go\<close>): the whole-response conversion and the
  stateful conversion of a stream of events. Structs are records with the fields the converter
  reads or writes (pointers that may be nil are options); a handler returns the events it emits and
  the new state. \<open>encoding/json\<close> enters as a record of the four calls the code makes.
\<close>

section \<open>Data\<close>

record jsonLib =
  j_valid :: "string \<Rightarrow> bool"
  j_object :: "string \<Rightarrow> (string, string) gomap option"
  j_encode :: "(string, string) gomap \<Rightarrow> string option"
  j_encodeStrings :: "(string, string) gomap \<Rightarrow> string"

record respPart =
  rp_Type :: string
  rp_Text :: string

record respOutput =
  ro_Type :: string
  ro_ID :: string
  ro_Content :: "respPart list"
  ro_Status :: string
  ro_EncryptedContent :: string
  ro_Summary :: "respPart list"
  ro_CallID :: string
  ro_Name :: string
  ro_Arguments :: string
  ro_Action :: "string option"

record respUsage =
  ru_InputTokens :: int
  ru_OutputTokens :: int
  ru_CacheCreationInputTokens :: int
  ru_CachedTokens :: "int option"

record respResponse =
  rr_ID :: string
  rr_Model :: string
  rr_Status :: string
  rr_Output :: "respOutput list"
  rr_Usage :: "respUsage option"
  rr_IncompleteReason :: "string option"

record streamEvent =
  se_Type :: string
  se_Response :: "respResponse option"
  se_Usage :: "respUsage option"
  se_Item :: "respOutput option"
  se_OutputIndex :: int
  se_ContentIndex :: int
  se_Delta :: string
  se_Text :: string
  se_Arguments :: string

record contentBlock =
  cb_Type :: string
  cb_Text :: string
  cb_Thinking :: string
  cb_Signature :: string
  cb_ID :: string
  cb_Name :: string
  cb_Input :: string
  cb_ToolUseID :: string
  cb_Content :: string

definition block :: "string \<Rightarrow> contentBlock" where
  "block ty = \<lparr>cb_Type = ty, cb_Text = [], cb_Thinking = [], cb_Signature = [], cb_ID = [],
     cb_Name = [], cb_Input = [], cb_ToolUseID = [], cb_Content = []\<rparr>"

record anthUsage =
  au_InputTokens :: int
  au_OutputTokens :: int
  au_CacheReadInputTokens :: int
  au_CacheCreationInputTokens :: int

record anthResponse =
  an_ID :: string
  an_Model :: string
  an_Content :: "contentBlock list"
  an_StopReason :: "string option"
  an_Usage :: anthUsage

definition zero_usage :: anthUsage where
  "zero_usage = \<lparr>au_InputTokens = 0, au_OutputTokens = 0, au_CacheReadInputTokens = 0,
     au_CacheCreationInputTokens = 0\<rparr>"

datatype anthDelta = TextDelta string | ThinkingDelta string | InputJSONDelta string | SignatureDelta string

datatype anthEvent = MessageStart anthResponse | BlockStart int contentBlock | BlockDelta int anthDelta
  | BlockStop int | MessageDelta string anthUsage | MessageStop

section \<open>Whole responses\<close>

definition fromResponsesCallID :: "string \<Rightarrow> string" where
  "fromResponsesCallID i =
    (if has_prefix i ''fc_''
     then let after = drop 3 i
          in if has_prefix after ''toolu_'' \<or> has_prefix after ''call_'' then after else i
     else i)"

definition anthropicUsageFromResponsesUsage :: "respUsage option \<Rightarrow> anthUsage" where
  "anthropicUsageFromResponsesUsage u =
    (case u of
       None \<Rightarrow> zero_usage
     | Some usage \<Rightarrow>
         let cachedTokens = (case ru_CachedTokens usage of None \<Rightarrow> 0 | Some n \<Rightarrow> n);
             inputTokens = ru_InputTokens usage - cachedTokens - ru_CacheCreationInputTokens usage
         in \<lparr>au_InputTokens = (if inputTokens < 0 then 0 else inputTokens),
             au_OutputTokens = ru_OutputTokens usage, au_CacheReadInputTokens = cachedTokens,
             au_CacheCreationInputTokens = ru_CacheCreationInputTokens usage\<rparr>)"

definition containsAnthropicToolUseBlock :: "contentBlock list \<Rightarrow> bool" where
  "containsAnthropicToolUseBlock blocks \<longleftrightarrow> list_ex (\<lambda>b. cb_Type b = ''tool_use'') blocks"

definition responsesStatusToAnthropicStopReason :: "string \<Rightarrow> string option \<Rightarrow> contentBlock list \<Rightarrow> string" where
  "responsesStatusToAnthropicStopReason status reason blocks =
    (if status = ''incomplete'' then
       (if reason = Some ''max_output_tokens'' then ''max_tokens'' else ''end_turn'')
     else if status = ''completed'' then
       (if containsAnthropicToolUseBlock blocks then ''tool_use'' else ''end_turn'')
     else ''end_turn'')"

definition sanitizeAnthropicToolUseInput :: "jsonLib \<Rightarrow> string \<Rightarrow> string \<Rightarrow> string" where
  "sanitizeAnthropicToolUseInput J name raw =
    (if name \<noteq> ''Read'' \<or> raw = [] then raw
     else
       case j_object J raw of
         None \<Rightarrow> raw
       | Some input \<Rightarrow>
           (case m_get input ''pages'' of
              None \<Rightarrow> raw
            | Some pages \<Rightarrow>
                if pages \<noteq> [CHR 0x22, CHR 0x22] then raw
                else case j_encode J (m_del input ''pages'') of None \<Rightarrow> raw | Some s \<Rightarrow> s))"

definition webSearchBlocks :: "jsonLib \<Rightarrow> respOutput \<Rightarrow> contentBlock list" where
  "webSearchBlocks J item =
    (let toolUseID = ''srvtoolu_'' @ ro_ID item;
         query = (case ro_Action item of None \<Rightarrow> [] | Some q \<Rightarrow> q)
     in [(block ''server_tool_use'')\<lparr>cb_ID := toolUseID, cb_Name := ''web_search'',
           cb_Input := j_encodeStrings J [(''query'', query)]\<rparr>,
         (block ''web_search_tool_result'')\<lparr>cb_ToolUseID := toolUseID, cb_Content := ''[]''\<rparr>])"

definition outputItemBlocks :: "jsonLib \<Rightarrow> respOutput \<Rightarrow> contentBlock list" where
  "outputItemBlocks J item =
    (if ro_Type item = ''reasoning'' then
       let summaryText = concat (map rp_Text (filter (\<lambda>s. rp_Type s = ''summary_text'') (ro_Summary item)))
       in if summaryText \<noteq> [] \<or> trim_space (ro_EncryptedContent item) \<noteq> []
          then [(block ''thinking'')\<lparr>cb_Thinking := summaryText, cb_Signature := ro_EncryptedContent item\<rparr>]
          else []
     else if ro_Type item = ''message'' then
       map (\<lambda>p. (block ''text'')\<lparr>cb_Text := rp_Text p\<rparr>)
         (filter (\<lambda>p. rp_Type p = ''output_text'' \<and> rp_Text p \<noteq> []) (ro_Content item))
     else if ro_Type item = ''function_call'' then
       [(block ''tool_use'')\<lparr>cb_ID := fromResponsesCallID (ro_CallID item), cb_Name := ro_Name item,
          cb_Input := sanitizeAnthropicToolUseInput J (ro_Name item) (ro_Arguments item)\<rparr>]
     else if ro_Type item = ''web_search_call'' then webSearchBlocks J item
     else [])"

definition ResponsesToAnthropic :: "jsonLib \<Rightarrow> respResponse \<Rightarrow> string \<Rightarrow> anthResponse" where
  "ResponsesToAnthropic J resp model =
    (let blocks0 = concat (map (outputItemBlocks J) (rr_Output resp));
         blocks = (if blocks0 = [] then [block ''text''] else blocks0)
     in \<lparr>an_ID = rr_ID resp, an_Model = model, an_Content = blocks,
         an_StopReason = Some (responsesStatusToAnthropicStopReason (rr_Status resp) (rr_IncompleteReason resp) blocks),
         an_Usage = (case rr_Usage resp of None \<Rightarrow> zero_usage
           | Some u \<Rightarrow> anthropicUsageFromResponsesUsage (Some u))\<rparr>)"

section \<open>Streaming state\<close>

type_synonym textPart = "int \<times> int"

record streamState =
  ss_MessageStartSent :: bool
  ss_MessageStopSent :: bool
  ss_ContentBlockIndex :: int
  ss_ContentBlockOpen :: bool
  ss_CurrentBlockType :: string
  ss_CurrentToolName :: string
  ss_CurrentToolArgs :: string
  ss_CurrentToolHadDelta :: bool
  ss_PendingThinkingSignature :: string
  ss_HasToolCall :: bool
  ss_OutputIndexToBlockIdx :: "(int, int) gomap"
  ss_textByPart :: "(textPart, string) gomap"
  ss_textDelivered :: bool
  ss_usage :: anthUsage
  ss_ResponseID :: string
  ss_Model :: string

definition NewResponsesEventToAnthropicState :: streamState where
  "NewResponsesEventToAnthropicState = \<lparr>ss_MessageStartSent = False, ss_MessageStopSent = False,
     ss_ContentBlockIndex = 0, ss_ContentBlockOpen = False, ss_CurrentBlockType = [],
     ss_CurrentToolName = [], ss_CurrentToolArgs = [], ss_CurrentToolHadDelta = False,
     ss_PendingThinkingSignature = [], ss_HasToolCall = False, ss_OutputIndexToBlockIdx = [],
     ss_textByPart = [], ss_textDelivered = False, ss_usage = zero_usage, ss_ResponseID = [], ss_Model = []\<rparr>"

type_synonym emitted = "anthEvent list \<times> streamState"

section \<open>Handlers\<close>

definition closeCurrentBlock :: "streamState \<Rightarrow> emitted" where
  "closeCurrentBlock s =
    (if \<not> ss_ContentBlockOpen s then ([], s)
     else
       let idx = ss_ContentBlockIndex s;
           thinking = (ss_CurrentBlockType s = ''thinking'');
           sig = trim_space (ss_PendingThinkingSignature s);
           events = (if thinking \<and> sig \<noteq> [] then [BlockDelta idx (SignatureDelta sig)] else []);
           s1 = (if thinking then s\<lparr>ss_PendingThinkingSignature := []\<rparr> else s)
       in (events @ [BlockStop idx],
           s1\<lparr>ss_ContentBlockOpen := False, ss_ContentBlockIndex := idx + 1, ss_CurrentToolName := [],
              ss_CurrentToolArgs := [], ss_CurrentToolHadDelta := False\<rparr>))"

definition handleCreated :: "streamEvent \<Rightarrow> streamState \<Rightarrow> emitted" where
  "handleCreated evt s =
    (let s1 = (case se_Response evt of
                 None \<Rightarrow> s
               | Some r \<Rightarrow> s\<lparr>ss_ResponseID := rr_ID r,
                    ss_Model := (if ss_Model s = [] then rr_Model r else ss_Model s)\<rparr>)
     in if ss_MessageStartSent s1 then ([], s1)
        else ([MessageStart \<lparr>an_ID = ss_ResponseID s1, an_Model = ss_Model s1, an_Content = [],
                 an_StopReason = None, an_Usage = zero_usage\<rparr>],
              s1\<lparr>ss_MessageStartSent := True\<rparr>))"

definition handleOutputItemAdded :: "streamEvent \<Rightarrow> streamState \<Rightarrow> emitted" where
  "handleOutputItemAdded evt s =
    (case se_Item evt of
       None \<Rightarrow> ([], s)
     | Some item \<Rightarrow>
         if ro_Type item = ''function_call'' \<or> ro_Type item = ''custom_tool_call'' then
           case closeCurrentBlock s of (events, s1) \<Rightarrow>
             let idx = ss_ContentBlockIndex s1
             in (events @ [BlockStart idx ((block ''tool_use'')\<lparr>cb_ID := fromResponsesCallID (ro_CallID item),
                   cb_Name := ro_Name item, cb_Input := ''{}''\<rparr>)],
                 s1\<lparr>ss_OutputIndexToBlockIdx := m_set (ss_OutputIndexToBlockIdx s1) (se_OutputIndex evt) idx,
                    ss_ContentBlockOpen := True, ss_CurrentBlockType := ''tool_use'',
                    ss_CurrentToolName := ro_Name item, ss_CurrentToolArgs := [],
                    ss_CurrentToolHadDelta := False, ss_HasToolCall := True\<rparr>)
         else if ro_Type item = ''reasoning'' then
           case closeCurrentBlock s of (events, s1) \<Rightarrow>
             let idx = ss_ContentBlockIndex s1
             in (events @ [BlockStart idx (block ''thinking'')],
                 s1\<lparr>ss_OutputIndexToBlockIdx := m_set (ss_OutputIndexToBlockIdx s1) (se_OutputIndex evt) idx,
                    ss_ContentBlockOpen := True, ss_CurrentBlockType := ''thinking'',
                    ss_PendingThinkingSignature := trim_space (ro_EncryptedContent item)\<rparr>)
         else ([], s))"

definition textPartOf :: "streamEvent \<Rightarrow> textPart" where
  "textPartOf evt = (se_OutputIndex evt, se_ContentIndex evt)"

definition deliveredText :: "streamState \<Rightarrow> textPart \<Rightarrow> string" where
  "deliveredText s part = (case m_get (ss_textByPart s) part of None \<Rightarrow> [] | Some t \<Rightarrow> t)"

definition emitText :: "string \<Rightarrow> textPart \<Rightarrow> streamState \<Rightarrow> emitted" where
  "emitText txt part s =
    (if txt = [] then ([], s)
     else
       case (if \<not> ss_ContentBlockOpen s \<or> ss_CurrentBlockType s \<noteq> ''text''
             then case closeCurrentBlock s of (events, s1) \<Rightarrow>
                    (events @ [BlockStart (ss_ContentBlockIndex s1) (block ''text'')],
                     s1\<lparr>ss_ContentBlockOpen := True, ss_CurrentBlockType := ''text''\<rparr>)
             else ([], s)) of
         (events, s1) \<Rightarrow>
           (events @ [BlockDelta (ss_ContentBlockIndex s1) (TextDelta txt)],
            s1\<lparr>ss_textByPart := m_set (ss_textByPart s1) part (deliveredText s1 part @ txt),
               ss_textDelivered := True\<rparr>))"

definition handleTextDelta :: "streamEvent \<Rightarrow> streamState \<Rightarrow> emitted" where
  "handleTextDelta evt s = emitText (se_Delta evt) (textPartOf evt) s"

definition recoverText :: "string \<Rightarrow> textPart \<Rightarrow> streamState \<Rightarrow> emitted" where
  "recoverText txt part s =
    (let known = (m_get (ss_textByPart s) part \<noteq> None)
     in if \<not> known \<and> ss_textDelivered s then ([], s)
        else
          let delivered = deliveredText s part
          in if txt = delivered \<or> \<not> has_prefix txt delivered then ([], s)
             else emitText (drop (length delivered) txt) part s)"

definition handleBlockDone :: "streamState \<Rightarrow> emitted" where
  "handleBlockDone s = (if \<not> ss_ContentBlockOpen s then ([], s) else closeCurrentBlock s)"

definition handleTextDone :: "streamEvent \<Rightarrow> streamState \<Rightarrow> emitted" where
  "handleTextDone evt s =
    (if ss_MessageStopSent s then handleBlockDone s
     else
       case recoverText (se_Text evt) (textPartOf evt) s of (events, s1) \<Rightarrow>
         case handleBlockDone s1 of (events', s2) \<Rightarrow> (events @ events', s2))"

definition handleFuncArgsDelta :: "jsonLib \<Rightarrow> streamEvent \<Rightarrow> streamState \<Rightarrow> emitted" where
  "handleFuncArgsDelta J evt s =
    (if se_Delta evt = [] then ([], s)
     else if ss_CurrentBlockType s = ''tool_use'' \<and> ss_CurrentToolName s = ''Read'' then
       let s1 = s\<lparr>ss_CurrentToolArgs := ss_CurrentToolArgs s @ se_Delta evt\<rparr>
       in if ss_CurrentToolHadDelta s1 \<or> \<not> j_valid J (ss_CurrentToolArgs s1) then ([], s1)
          else
            case m_get (ss_OutputIndexToBlockIdx s1) (se_OutputIndex evt) of
              None \<Rightarrow> ([], s1)
            | Some blockIdx \<Rightarrow>
                ([BlockDelta blockIdx (InputJSONDelta
                    (sanitizeAnthropicToolUseInput J (ss_CurrentToolName s1) (ss_CurrentToolArgs s1)))],
                 s1\<lparr>ss_CurrentToolHadDelta := True\<rparr>)
     else
       let s1 = (if ss_CurrentBlockType s = ''tool_use'' then s\<lparr>ss_CurrentToolHadDelta := True\<rparr> else s)
       in case m_get (ss_OutputIndexToBlockIdx s1) (se_OutputIndex evt) of
            None \<Rightarrow> ([], s1)
          | Some blockIdx \<Rightarrow> ([BlockDelta blockIdx (InputJSONDelta (se_Delta evt))], s1))"

definition handleFuncArgsDone :: "jsonLib \<Rightarrow> streamEvent \<Rightarrow> streamState \<Rightarrow> emitted" where
  "handleFuncArgsDone J evt s =
    (if \<not> ss_ContentBlockOpen s then ([], s)
     else if ss_CurrentBlockType s \<noteq> ''tool_use'' then handleBlockDone s
     else
       let raw = (if se_Arguments evt = [] then ss_CurrentToolArgs s else se_Arguments evt)
       in if raw = [] \<or> ss_CurrentToolHadDelta s then closeCurrentBlock s
          else
            let read = (ss_CurrentToolName s = ''Read'');
                sanitized = sanitizeAnthropicToolUseInput J (ss_CurrentToolName s) raw
            in if read \<and> sanitized = [] then closeCurrentBlock s
               else
                 let raw' = (if read then sanitized else raw);
                     blockIdx = (case m_get (ss_OutputIndexToBlockIdx s) (se_OutputIndex evt) of
                        None \<Rightarrow> ss_ContentBlockIndex s | Some b \<Rightarrow> b)
                 in if \<not> ss_ContentBlockOpen s \<or> blockIdx \<noteq> ss_ContentBlockIndex s then ([], s)
                    else case closeCurrentBlock s of (events, s1) \<Rightarrow>
                      (BlockDelta blockIdx (InputJSONDelta raw') # events, s1))"

definition handleReasoningDelta :: "streamEvent \<Rightarrow> streamState \<Rightarrow> emitted" where
  "handleReasoningDelta evt s =
    (if se_Delta evt = [] then ([], s)
     else
       case m_get (ss_OutputIndexToBlockIdx s) (se_OutputIndex evt) of
         None \<Rightarrow> ([], s)
       | Some blockIdx \<Rightarrow> ([BlockDelta blockIdx (ThinkingDelta (se_Delta evt))], s))"

definition handleWebSearchDone :: "jsonLib \<Rightarrow> respOutput \<Rightarrow> streamState \<Rightarrow> emitted" where
  "handleWebSearchDone J item s =
    (case closeCurrentBlock s of (events, s1) \<Rightarrow>
       let idx1 = ss_ContentBlockIndex s1; idx2 = idx1 + 1; blocks = webSearchBlocks J item
       in (events @ [BlockStart idx1 (blocks ! 0), BlockStop idx1, BlockStart idx2 (blocks ! 1), BlockStop idx2],
           s1\<lparr>ss_ContentBlockIndex := idx2 + 1\<rparr>))"

definition handleOutputItemDone :: "jsonLib \<Rightarrow> streamEvent \<Rightarrow> streamState \<Rightarrow> emitted" where
  "handleOutputItemDone J evt s =
    (case se_Item evt of
       None \<Rightarrow> ([], s)
     | Some item \<Rightarrow>
         if ro_Type item = ''web_search_call'' \<and> ro_Status item = ''completed''
         then handleWebSearchDone J item s
         else
           let sig = trim_space (ro_EncryptedContent item);
               s1 = (if ro_Type item = ''reasoning'' \<and> sig \<noteq> []
                     then s\<lparr>ss_PendingThinkingSignature := sig\<rparr> else s)
           in if ss_ContentBlockOpen s1 then closeCurrentBlock s1 else ([], s1))"

text \<open>The text parts of a terminal response, with their positions, in order.\<close>

definition terminalParts :: "respResponse \<Rightarrow> (textPart \<times> string) list" where
  "terminalParts r = concat (map (\<lambda>(outputIndex, item).
     if ro_Type item \<noteq> ''message'' then []
     else map (\<lambda>(contentIndex, content). ((int outputIndex, int contentIndex), rp_Text content))
            (filter (\<lambda>(contentIndex, content). rp_Type content = ''output_text'') (enumerate 0 (ro_Content item))))
     (enumerate 0 (rr_Output r)))"

fun emitParts :: "(textPart \<times> string) list \<Rightarrow> streamState \<Rightarrow> emitted" where
  "emitParts [] s = ([], s)"
| "emitParts ((part, txt) # ps) s =
    (case emitText txt part s of (events, s1) \<Rightarrow>
       case emitParts ps s1 of (events', s2) \<Rightarrow> (events @ events', s2))"

definition recoverTerminalText :: "streamEvent \<Rightarrow> streamState \<Rightarrow> emitted" where
  "recoverTerminalText evt s =
    (case se_Response evt of
       None \<Rightarrow> ([], s)
     | Some r \<Rightarrow>
         if ss_textDelivered s then ([], s)
         else
           case emitParts (terminalParts r) s of (events, s1) \<Rightarrow>
             if events \<noteq> [] then case closeCurrentBlock s1 of (events', s2) \<Rightarrow> (events @ events', s2)
             else (events, s1))"

definition terminalStopReason :: "streamEvent \<Rightarrow> bool \<Rightarrow> string" where
  "terminalStopReason evt hasToolCall =
    (case se_Response evt of
       None \<Rightarrow> ''end_turn''
     | Some r \<Rightarrow>
         if rr_Status r = ''incomplete'' then
           (if rr_IncompleteReason r = Some ''max_output_tokens'' then ''max_tokens'' else ''end_turn'')
         else if rr_Status r = ''completed'' then (if hasToolCall then ''tool_use'' else ''end_turn'')
         else ''end_turn'')"

definition terminalUsage :: "streamEvent \<Rightarrow> anthUsage \<Rightarrow> anthUsage" where
  "terminalUsage evt u0 =
    (let u1 = (case se_Usage evt of None \<Rightarrow> u0 | Some u \<Rightarrow> anthropicUsageFromResponsesUsage (Some u))
     in case se_Response evt of
          None \<Rightarrow> u1
        | Some r \<Rightarrow> (case rr_Usage r of None \<Rightarrow> u1 | Some u \<Rightarrow> anthropicUsageFromResponsesUsage (Some u)))"

definition handleCompleted :: "streamEvent \<Rightarrow> streamState \<Rightarrow> emitted" where
  "handleCompleted evt s =
    (if ss_MessageStopSent s then ([], s)
     else
       case closeCurrentBlock s of (events, s1) \<Rightarrow>
         case recoverTerminalText evt s1 of (events', s2) \<Rightarrow>
           let usage = terminalUsage evt (ss_usage s2)
           in (events @ events' @ [MessageDelta (terminalStopReason evt (ss_HasToolCall s2)) usage, MessageStop],
               s2\<lparr>ss_usage := usage, ss_MessageStopSent := True\<rparr>))"

definition FinalizeResponsesAnthropicStream :: "streamState \<Rightarrow> emitted" where
  "FinalizeResponsesAnthropicStream s =
    (if \<not> ss_MessageStartSent s \<or> ss_MessageStopSent s then ([], s)
     else
       case closeCurrentBlock s of (events, s1) \<Rightarrow>
         (events @ [MessageDelta (if ss_HasToolCall s1 then ''tool_use'' else ''end_turn'') (ss_usage s1), MessageStop],
          s1\<lparr>ss_MessageStopSent := True\<rparr>))"

definition ResponsesEventToAnthropicEvents :: "jsonLib \<Rightarrow> streamEvent \<Rightarrow> streamState \<Rightarrow> emitted" where
  "ResponsesEventToAnthropicEvents J evt s =
    (let ty = se_Type evt
     in if ty = ''response.created'' then handleCreated evt s
        else if ty = ''response.output_item.added'' then handleOutputItemAdded evt s
        else if ty = ''response.output_text.delta'' then handleTextDelta evt s
        else if ty = ''response.output_text.done'' then handleTextDone evt s
        else if ty = ''response.function_call_arguments.delta''
             \<or> ty = ''response.custom_tool_call_input.delta'' then handleFuncArgsDelta J evt s
        else if ty = ''response.function_call_arguments.done'' then handleFuncArgsDone J evt s
        else if ty = ''response.output_item.done'' then handleOutputItemDone J evt s
        else if ty = ''response.reasoning_summary_text.delta''
             \<or> ty = ''response.reasoning_text.delta'' then handleReasoningDelta evt s
        else if ty = ''response.reasoning_summary_text.done'' then ([], s)
        else if ty \<in> {''response.completed'', ''response.done'', ''response.incomplete'', ''response.failed''}
             then handleCompleted evt s
        else ([], s))"

text \<open>A stream: its events one after the other.\<close>

fun convertStream :: "jsonLib \<Rightarrow> streamEvent list \<Rightarrow> streamState \<Rightarrow> emitted" where
  "convertStream J [] s = ([], s)"
| "convertStream J (e # es) s =
    (case ResponsesEventToAnthropicEvents J e s of (out, s1) \<Rightarrow>
       case convertStream J es s1 of (out', s2) \<Rightarrow> (out @ out', s2))"

section \<open>Framing of the emitted events\<close>

text \<open>What a client accepts: blocks start and stop alternately with consecutive indices, text and signature
  deltas go to the open block, the message ends with no open block. A tool or thinking delta goes
  to a block that was started; under \<open>strict\<close>, to the open one.\<close>

fun frame_step :: "bool \<Rightarrow> int \<times> bool \<Rightarrow> anthEvent \<Rightarrow> (int \<times> bool) option" where
  "frame_step strict (n, opened) (BlockStart i b) = (if \<not> opened \<and> i = n then Some (n, True) else None)"
| "frame_step strict (n, opened) (BlockStop i) = (if opened \<and> i = n then Some (n + 1, False) else None)"
| "frame_step strict (n, opened) (BlockDelta i d) =
    (case d of
       TextDelta _ \<Rightarrow> if opened \<and> i = n then Some (n, opened) else None
     | SignatureDelta _ \<Rightarrow> if opened \<and> i = n then Some (n, opened) else None
     | _ \<Rightarrow> if opened \<and> i = n \<or> \<not> strict \<and> 0 \<le> i \<and> i < n then Some (n, opened) else None)"
| "frame_step strict (n, opened) (MessageStart m) = Some (n, opened)"
| "frame_step strict (n, opened) (MessageDelta r u) = (if opened then None else Some (n, opened))"
| "frame_step strict (n, opened) MessageStop = (if opened then None else Some (n, opened))"

fun frame_run :: "bool \<Rightarrow> (int \<times> bool) option \<Rightarrow> anthEvent list \<Rightarrow> (int \<times> bool) option" where
  "frame_run strict None es = None"
| "frame_run strict (Some f) [] = Some f"
| "frame_run strict (Some f) (e # es) = frame_run strict (frame_step strict f e) es"

lemma frame_run_append: "frame_run st f (xs @ ys) = frame_run st (frame_run st f xs) ys"
proof (induction xs arbitrary: f)
  case Nil
  then show ?case by (cases f) auto
next
  case (Cons x xs)
  then show ?case by (cases f) simp_all
qed

definition stream_frame :: "streamState \<Rightarrow> int \<times> bool" where
  "stream_frame s = (ss_ContentBlockIndex s, ss_ContentBlockOpen s)"

text \<open>The indices on record belong to blocks that were started.\<close>

definition indices_ok :: "streamState \<Rightarrow> bool" where
  "indices_ok s \<longleftrightarrow> 0 \<le> ss_ContentBlockIndex s
    \<and> (\<forall>k i. m_get (ss_OutputIndexToBlockIdx s) k = Some i \<longrightarrow>
         0 \<le> i \<and> i \<le> ss_ContentBlockIndex s \<and> (i = ss_ContentBlockIndex s \<longrightarrow> ss_ContentBlockOpen s))"

text \<open>A handler keeps the frame: its events lead from the frame of the old state to that of the new one.\<close>

definition framed :: "bool \<Rightarrow> streamState \<Rightarrow> emitted \<Rightarrow> bool" where
  "framed st s r \<longleftrightarrow> frame_run st (Some (stream_frame s)) (fst r) = Some (stream_frame (snd r)) \<and> indices_ok (snd r)"

lemma framed_refl: "indices_ok s \<Longrightarrow> framed st s ([], s)"
  by (simp add: framed_def)

lemma framed_trans: "framed st s (es, s1) \<Longrightarrow> framed st s1 (es', s2) \<Longrightarrow> framed st s (es @ es', s2)"
  by (simp add: framed_def frame_run_append)

lemma framed_close: "indices_ok s \<Longrightarrow> framed st s (closeCurrentBlock s)"
  by (auto simp: framed_def closeCurrentBlock_def stream_frame_def indices_ok_def Let_def) fastforce+

lemma close_fields:
  assumes "closeCurrentBlock s = (es, s1)"
  shows "\<not> ss_ContentBlockOpen s1" "ss_OutputIndexToBlockIdx s1 = ss_OutputIndexToBlockIdx s"
    "ss_textByPart s1 = ss_textByPart s" "ss_textDelivered s1 = ss_textDelivered s"
    "ss_MessageStartSent s1 = ss_MessageStartSent s" "ss_MessageStopSent s1 = ss_MessageStopSent s"
    "ss_HasToolCall s1 = ss_HasToolCall s" "ss_usage s1 = ss_usage s"
  using assms by (auto simp: closeCurrentBlock_def Let_def split: if_splits)

lemma framed_open:
  assumes "indices_ok s" and "\<not> ss_ContentBlockOpen s" and "i = ss_ContentBlockIndex s"
    and "ss_ContentBlockIndex s' = i" and "ss_ContentBlockOpen s'"
    and "ss_OutputIndexToBlockIdx s' = ss_OutputIndexToBlockIdx s
         \<or> (\<exists>k. ss_OutputIndexToBlockIdx s' = m_set (ss_OutputIndexToBlockIdx s) k i)"
  shows "framed st s ([BlockStart i b], s')"
  using assms by (auto simp: framed_def stream_frame_def indices_ok_def m_get_set split: if_splits)

lemma framed_indices: "framed st s (es, s1) \<Longrightarrow> indices_ok s1"
  by (simp add: framed_def)

lemma framed_emitText: "indices_ok s \<Longrightarrow> framed st s (emitText txt part s)"
proof (cases "txt = []")
  case False
  assume ok: "indices_ok s"
  let ?o = "if \<not> ss_ContentBlockOpen s \<or> ss_CurrentBlockType s \<noteq> ''text''
             then case closeCurrentBlock s of (events, s1) \<Rightarrow>
                    (events @ [BlockStart (ss_ContentBlockIndex s1) (block ''text'')],
                     s1\<lparr>ss_ContentBlockOpen := True, ss_CurrentBlockType := ''text''\<rparr>)
             else ([], s)"
  obtain es1 s1 where o: "?o = (es1, s1)" by force
  have "framed st s (es1, s1) \<and> ss_ContentBlockOpen s1"
  proof (cases "\<not> ss_ContentBlockOpen s \<or> ss_CurrentBlockType s \<noteq> ''text''")
    case True
    obtain es0 s0 where c: "closeCurrentBlock s = (es0, s0)" by force
    have "framed st s (es0, s0)" using framed_close [OF ok] c by metis
    moreover have "framed st s0 ([BlockStart (ss_ContentBlockIndex s0) (block ''text'')],
        s0\<lparr>ss_ContentBlockOpen := True, ss_CurrentBlockType := ''text''\<rparr>)"
      using framed_indices [OF calculation] close_fields [OF c] by (intro framed_open) auto
    ultimately show ?thesis using True o c framed_trans by auto
  next
    case False
    with o ok show ?thesis by (auto simp: framed_refl)
  qed
  moreover from this have "framed st s1 ([BlockDelta (ss_ContentBlockIndex s1) (TextDelta txt)],
      s1\<lparr>ss_textByPart := m_set (ss_textByPart s1) part (deliveredText s1 part @ txt), ss_textDelivered := True\<rparr>)"
    by (auto simp: framed_def stream_frame_def indices_ok_def)
  ultimately show ?thesis
    using False o framed_trans by (auto simp: emitText_def)
qed (simp add: emitText_def framed_refl)

lemma framed_blockDone: "indices_ok s \<Longrightarrow> framed st s (handleBlockDone s)"
  by (simp add: handleBlockDone_def framed_refl framed_close)

lemma framed_recoverText: "indices_ok s \<Longrightarrow> framed st s (recoverText txt part s)"
  by (simp add: recoverText_def Let_def framed_refl framed_emitText)

lemma framed_emitParts: "indices_ok s \<Longrightarrow> framed st s (emitParts ps s)"
proof (induction ps arbitrary: s)
  case (Cons p ps)
  obtain part t where p: "p = (part, t)" by (cases p)
  obtain es1 s1 where 1: "emitText t part s = (es1, s1)" by force
  obtain es2 s2 where 2: "emitParts ps s1 = (es2, s2)" by force
  have f1: "framed st s (es1, s1)" using framed_emitText [OF Cons.prems] 1 by metis
  with Cons.IH [of s1] 2 have "framed st s1 (es2, s2)" by (metis framed_indices)
  with f1 p 1 2 show ?case by (simp add: framed_trans)
qed (simp add: framed_refl)

text \<open>The upstream refers to the block that is open when it sends a tool or thinking delta.\<close>

definition refersOpen :: "streamEvent \<Rightarrow> streamState \<Rightarrow> bool" where
  "refersOpen evt s \<longleftrightarrow>
    (case m_get (ss_OutputIndexToBlockIdx s) (se_OutputIndex evt) of
       None \<Rightarrow> True
     | Some i \<Rightarrow> ss_ContentBlockOpen s \<and> i = ss_ContentBlockIndex s)"

lemma framed_delta:
  assumes "indices_ok s" and "m_get (ss_OutputIndexToBlockIdx s) (se_OutputIndex evt) = Some i"
    and "st \<longrightarrow> refersOpen evt s" and "stream_frame s' = stream_frame s"
    and "ss_OutputIndexToBlockIdx s' = ss_OutputIndexToBlockIdx s"
  shows "framed st s ([BlockDelta i (InputJSONDelta x)], s')" "framed st s ([BlockDelta i (ThinkingDelta x)], s')"
proof -
  have i: "0 \<le> i" "i \<le> ss_ContentBlockIndex s" "i = ss_ContentBlockIndex s \<Longrightarrow> ss_ContentBlockOpen s"
    using assms(1,2) by (auto simp: indices_ok_def)
  have ok: "indices_ok s'" using assms(1,4,5) by (simp add: indices_ok_def stream_frame_def)
  have "ss_ContentBlockOpen s \<and> i = ss_ContentBlockIndex s \<or> \<not> st \<and> 0 \<le> i \<and> i < ss_ContentBlockIndex s"
    using i assms(2,3) by (auto simp: refersOpen_def)
  with ok assms(4) show "framed st s ([BlockDelta i (InputJSONDelta x)], s')" "framed st s ([BlockDelta i (ThinkingDelta x)], s')"
    by (auto simp: framed_def stream_frame_def)
qed

lemma framed_same:
  assumes "indices_ok s" and "stream_frame s' = stream_frame s"
    and "ss_OutputIndexToBlockIdx s' = ss_OutputIndexToBlockIdx s"
  shows "framed st s ([], s')"
  using assms by (auto simp: framed_def stream_frame_def indices_ok_def)

text \<open>Every handler keeps the frame.\<close>

lemma framed_added: "indices_ok s \<Longrightarrow> framed st s (handleOutputItemAdded evt s)"
proof (cases "se_Item evt")
  case (Some item)
  assume ok: "indices_ok s"
  obtain es1 s1 where c: "closeCurrentBlock s = (es1, s1)" by force
  have f1: "framed st s (es1, s1)" using framed_close [OF ok] c by metis
  note ok1 = framed_indices [OF f1] and shut = close_fields(1) [OF c]
  have opens: "framed st s (es1 @ [BlockStart (ss_ContentBlockIndex s1) b], s')"
    if "ss_ContentBlockIndex s' = ss_ContentBlockIndex s1" "ss_ContentBlockOpen s'"
      "ss_OutputIndexToBlockIdx s' = m_set (ss_OutputIndexToBlockIdx s1) k (ss_ContentBlockIndex s1)" for b s' k
    using framed_trans [OF f1 framed_open [OF ok1 shut refl that(1,2)]] that(3) by blast
  show ?thesis
    using Some c ok by (auto simp: handleOutputItemAdded_def Let_def framed_refl intro!: opens)
qed (simp add: handleOutputItemAdded_def framed_refl)

lemma framed_created: "indices_ok s \<Longrightarrow> framed st s (handleCreated evt s)"
  by (auto simp: handleCreated_def Let_def framed_def stream_frame_def indices_ok_def split: option.splits)

lemma framed_textDone: "indices_ok s \<Longrightarrow> framed st s (handleTextDone evt s)"
proof (cases "ss_MessageStopSent s")
  case False
  assume ok: "indices_ok s"
  obtain es1 s1 where 1: "recoverText (se_Text evt) (textPartOf evt) s = (es1, s1)" by force
  obtain es2 s2 where 2: "handleBlockDone s1 = (es2, s2)" by force
  have f1: "framed st s (es1, s1)" using framed_recoverText [OF ok] 1 by metis
  with 2 have "framed st s1 (es2, s2)" using framed_blockDone [of s1] framed_indices by metis
  with f1 False 1 2 show ?thesis by (simp add: handleTextDone_def framed_trans)
qed (simp add: handleTextDone_def framed_blockDone)

lemma framed_funcDelta:
  "indices_ok s \<Longrightarrow> st \<longrightarrow> refersOpen evt s \<Longrightarrow> framed st s (handleFuncArgsDelta J evt s)"
  by (auto simp: handleFuncArgsDelta_def Let_def framed_refl stream_frame_def split: option.splits
      intro!: framed_delta framed_same)

lemma framed_reasoningDelta:
  "indices_ok s \<Longrightarrow> st \<longrightarrow> refersOpen evt s \<Longrightarrow> framed st s (handleReasoningDelta evt s)"
  by (auto simp: handleReasoningDelta_def framed_refl split: option.splits intro!: framed_delta)

lemma framed_funcDone: "indices_ok s \<Longrightarrow> framed st s (handleFuncArgsDone J evt s)"
proof -
  assume ok: "indices_ok s"
  have "framed st s (BlockDelta (ss_ContentBlockIndex s) (InputJSONDelta x) # es, s')"
    if "closeCurrentBlock s = (es, s')" "ss_ContentBlockOpen s" for x es s'
    using framed_close [OF ok, of st] that by (simp add: framed_def stream_frame_def)
  with ok show ?thesis
    by (auto simp: handleFuncArgsDone_def Let_def framed_refl framed_close framed_blockDone
        split: option.splits prod.splits)
qed

lemma framed_webSearch: "indices_ok s \<Longrightarrow> framed st s (handleWebSearchDone J item s)"
proof -
  assume ok: "indices_ok s"
  obtain es1 s1 where c: "closeCurrentBlock s = (es1, s1)" by force
  have f1: "framed st s (es1, s1)" using framed_close [OF ok] c by metis
  have "framed st s1 ([BlockStart (ss_ContentBlockIndex s1) b, BlockStop (ss_ContentBlockIndex s1),
      BlockStart (ss_ContentBlockIndex s1 + 1) b', BlockStop (ss_ContentBlockIndex s1 + 1)],
      s1\<lparr>ss_ContentBlockIndex := ss_ContentBlockIndex s1 + 1 + 1\<rparr>)" for b b'
    using framed_indices [OF f1] close_fields(1) [OF c]
    by (auto simp: framed_def stream_frame_def indices_ok_def) fastforce+
  from framed_trans [OF f1 this] c show ?thesis by (simp add: handleWebSearchDone_def Let_def)
qed

lemma framed_itemDone: "indices_ok s \<Longrightarrow> framed st s (handleOutputItemDone J evt s)"
proof (cases "se_Item evt")
  case (Some item)
  assume ok: "indices_ok s"
  define s1 where "s1 = (if ro_Type item = ''reasoning'' \<and> trim_space (ro_EncryptedContent item) \<noteq> []
      then s\<lparr>ss_PendingThinkingSignature := trim_space (ro_EncryptedContent item)\<rparr> else s)"
  have f1: "framed st s ([], s1)"
    by (rule framed_same [OF ok]) (simp_all add: s1_def stream_frame_def)
  have h: "handleOutputItemDone J evt s =
      (if ro_Type item = ''web_search_call'' \<and> ro_Status item = ''completed'' then handleWebSearchDone J item s
       else if ss_ContentBlockOpen s1 then closeCurrentBlock s1 else ([], s1))"
    unfolding handleOutputItemDone_def Some option.case Let_def s1_def by (rule refl)
  have "framed st s1 (closeCurrentBlock s1)" by (rule framed_close [OF framed_indices [OF f1]])
  then have "framed st s (closeCurrentBlock s1)"
    using framed_trans [OF f1, of "fst (closeCurrentBlock s1)" "snd (closeCurrentBlock s1)"] by simp
  with f1 show ?thesis unfolding h by (simp add: framed_webSearch [OF ok])
qed (simp add: handleOutputItemDone_def framed_refl)

lemma framed_terminalText: "indices_ok s \<Longrightarrow> framed st s (recoverTerminalText evt s)"
proof -
  assume ok: "indices_ok s"
  have "framed st s (es1 @ es2, s2)"
    if "emitParts ps s = (es1, s1)" "closeCurrentBlock s1 = (es2, s2)" for ps es1 s1 es2 s2
    using framed_emitParts [OF ok, of st ps] framed_close [of s1 st] that
    by (metis framed_trans framed_indices)
  moreover have "framed st s (es1, s1)" if "emitParts ps s = (es1, s1)" for ps es1 s1
    using framed_emitParts [OF ok, of st ps] that by simp
  ultimately show ?thesis
    using ok by (auto simp: recoverTerminalText_def framed_refl split: option.splits prod.splits)
qed

lemma terminalText_closed:
  assumes "\<not> ss_ContentBlockOpen s" and "recoverTerminalText evt s = (es, s')"
  shows "\<not> ss_ContentBlockOpen s'"
proof -
  have parts: "s1 = s" if "emitParts ps s = ([], s1)" for ps s1
    using that
  proof (induction ps arbitrary: s s1)
    case (Cons p ps)
    obtain part t where p: "p = (part, t)" by (cases p)
    with Cons.prems have "t = []"
      by (auto simp: emitText_def split: prod.splits if_splits)
    with Cons p show ?case by (auto simp: emitText_def split: prod.splits)
  qed simp
  show ?thesis
    using assms parts close_fields(1)
    by (auto simp: recoverTerminalText_def split: option.splits prod.splits if_splits)
qed

lemma framed_completed: "indices_ok s \<Longrightarrow> framed st s (handleCompleted evt s)"
proof (cases "ss_MessageStopSent s")
  case False
  assume ok: "indices_ok s"
  obtain es1 s1 where 1: "closeCurrentBlock s = (es1, s1)" by force
  obtain es2 s2 where 2: "recoverTerminalText evt s1 = (es2, s2)" by force
  have f1: "framed st s (es1, s1)" using framed_close [OF ok] 1 by metis
  have f2: "framed st s1 (es2, s2)" using framed_terminalText [OF framed_indices [OF f1]] 2 by metis
  note shut = terminalText_closed [OF close_fields(1) [OF 1] 2]
  let ?s3 = "s2\<lparr>ss_usage := terminalUsage evt (ss_usage s2), ss_MessageStopSent := True\<rparr>"
  have "framed st s2 ([MessageDelta r u, MessageStop], ?s3)" for r u
    using shut framed_indices [OF f2] by (simp add: framed_def stream_frame_def indices_ok_def)
  from framed_trans [OF f1 framed_trans [OF f2 this]] False 1 2 show ?thesis
    by (simp add: handleCompleted_def Let_def)
qed (simp add: handleCompleted_def framed_refl)

lemma framed_finalize: "indices_ok s \<Longrightarrow> framed st s (FinalizeResponsesAnthropicStream s)"
proof -
  assume ok: "indices_ok s"
  obtain es1 s1 where 1: "closeCurrentBlock s = (es1, s1)" by force
  have f1: "framed st s (es1, s1)" using framed_close [OF ok] 1 by metis
  have "framed st s1 ([MessageDelta r u, MessageStop], s1\<lparr>ss_MessageStopSent := True\<rparr>)" for r u
    using close_fields(1) [OF 1] framed_indices [OF f1] by (simp add: framed_def stream_frame_def indices_ok_def)
  from framed_trans [OF f1 this] 1 ok show ?thesis
    by (auto simp: FinalizeResponsesAnthropicStream_def framed_refl)
qed

definition isDelta :: "streamEvent \<Rightarrow> bool" where
  "isDelta evt \<longleftrightarrow> se_Type evt \<in> {''response.function_call_arguments.delta'',
     ''response.custom_tool_call_input.delta'', ''response.reasoning_summary_text.delta'',
     ''response.reasoning_text.delta''}"

lemma framed_event:
  assumes "indices_ok s" and "st \<and> isDelta evt \<longrightarrow> refersOpen evt s"
  shows "framed st s (ResponsesEventToAnthropicEvents J evt s)"
proof -
  note ok = assms(1)
  show ?thesis
    using assms(2) unfolding ResponsesEventToAnthropicEvents_def Let_def isDelta_def
    by (auto simp: handleTextDelta_def framed_emitText [OF ok] framed_created [OF ok] framed_added [OF ok]
        framed_textDone [OF ok] framed_funcDone [OF ok] framed_itemDone [OF ok] framed_completed [OF ok]
        framed_refl [OF ok] intro!: framed_funcDelta [OF ok] framed_reasoningDelta [OF ok])
qed

section \<open>Streams\<close>

fun inOrder :: "jsonLib \<Rightarrow> streamEvent list \<Rightarrow> streamState \<Rightarrow> bool" where
  "inOrder J [] s = True"
| "inOrder J (e # es) s \<longleftrightarrow>
    (isDelta e \<longrightarrow> refersOpen e s) \<and> inOrder J es (snd (ResponsesEventToAnthropicEvents J e s))"

lemma framed_stream:
  "indices_ok s \<Longrightarrow> st \<longrightarrow> inOrder J es s \<Longrightarrow> framed st s (convertStream J es s)"
proof (induction es arbitrary: s)
  case (Cons e es)
  obtain out s1 where 1: "ResponsesEventToAnthropicEvents J e s = (out, s1)" by force
  obtain out' s2 where 2: "convertStream J es s1 = (out', s2)" by force
  have f1: "framed st s (out, s1)" using framed_event [OF Cons.prems(1), of st e J] Cons.prems(2) 1 by auto
  moreover have "framed st s1 (out', s2)"
    using Cons.IH [OF framed_indices [OF f1]] Cons.prems(2) 1 2 by auto
  ultimately show ?case using 1 2 by (simp add: framed_trans)
qed (simp add: framed_refl)

lemma framed_whole:
  assumes "st \<longrightarrow> inOrder J es NewResponsesEventToAnthropicState"
    and "convertStream J es NewResponsesEventToAnthropicState = (out, s)"
    and "FinalizeResponsesAnthropicStream s = (fin, s')"
  shows "frame_run st (Some (0, False)) (out @ fin) = Some (stream_frame s')"
proof -
  have "framed st NewResponsesEventToAnthropicState (out, s)"
    using framed_stream [of NewResponsesEventToAnthropicState st J es] assms(1,2)
    by (simp add: indices_ok_def NewResponsesEventToAnthropicState_def)
  moreover from this have "framed st s (fin, s')"
    using framed_finalize [OF framed_indices] assms(3) by metis
  ultimately show ?thesis
    using framed_trans by (fastforce simp: framed_def stream_frame_def NewResponsesEventToAnthropicState_def)
qed

text \<open>C8. Whatever the upstream sends, in whatever order, the blocks of the emitted message are properly
  framed: they start and stop alternately with the consecutive indices 0, 1, 2 and so on, no block
  starts while another is open, text and signatures go to the open block, a tool or thinking delta
  only to a block that has started, and the final message_delta and message_stop come when no
  block is open.\<close>

theorem stream_blocks_framed:
  "frame_run False (Some (0, False))
     (fst (convertStream J es NewResponsesEventToAnthropicState)
      @ fst (FinalizeResponsesAnthropicStream (snd (convertStream J es NewResponsesEventToAnthropicState)))) \<noteq> None"
proof -
  obtain out s where 1: "convertStream J es NewResponsesEventToAnthropicState = (out, s)" by force
  obtain fin s' where 2: "FinalizeResponsesAnthropicStream s = (fin, s')" by force
  from framed_whole [OF _ 1 2, of False] 1 2 show ?thesis by simp
qed

text \<open>If every tool and thinking delta of the upstream refers to the item whose block is open when it
  arrives, each delta the client sees goes to the block that is open at that point.\<close>

theorem stream_blocks_framed_strictly:
  assumes "inOrder J es NewResponsesEventToAnthropicState"
  shows "frame_run True (Some (0, False))
     (fst (convertStream J es NewResponsesEventToAnthropicState)
      @ fst (FinalizeResponsesAnthropicStream (snd (convertStream J es NewResponsesEventToAnthropicState)))) \<noteq> None"
proof -
  obtain out s where 1: "convertStream J es NewResponsesEventToAnthropicState = (out, s)" by force
  obtain fin s' where 2: "FinalizeResponsesAnthropicStream s = (fin, s')" by force
  from framed_whole [OF _ 1 2, of True] assms 1 2 show ?thesis by simp
qed

definition no_item :: respOutput where
  "no_item = \<lparr>ro_Type = [], ro_ID = [], ro_Content = [], ro_Status = [], ro_EncryptedContent = [],
     ro_Summary = [], ro_CallID = [], ro_Name = [], ro_Arguments = [], ro_Action = None\<rparr>"

definition ev :: "string \<Rightarrow> streamEvent" where
  "ev ty = \<lparr>se_Type = ty, se_Response = None, se_Usage = None, se_Item = None, se_OutputIndex = 0,
     se_ContentIndex = 0, se_Delta = [], se_Text = [], se_Arguments = []\<rparr>"

definition ev_tool :: "int \<Rightarrow> string \<Rightarrow> streamEvent" where
  "ev_tool i name = (ev ''response.output_item.added'')\<lparr>se_OutputIndex := i,
     se_Item := Some (no_item\<lparr>ro_Type := ''function_call'', ro_Name := name\<rparr>)\<rparr>"

definition ev_args :: "int \<Rightarrow> string \<Rightarrow> streamEvent" where
  "ev_args i d = (ev ''response.function_call_arguments.delta'')\<lparr>se_OutputIndex := i, se_Delta := d\<rparr>"

definition json0 :: jsonLib where
  "json0 = \<lparr>j_valid = \<lambda>_. True, j_object = \<lambda>_. None, j_encode = \<lambda>_. None, j_encodeStrings = \<lambda>_. ''{}''\<rparr>"

theorem stream_blocks_framed_strictly_witness:
  "frame_run True (Some (0, False))
     (fst (convertStream json0 [ev ''response.created'', ev_tool 0 ''ls'', ev_args 0 ''{}'', ev ''response.completed'']
        NewResponsesEventToAnthropicState)
      @ fst (FinalizeResponsesAnthropicStream (snd (convertStream json0
          [ev ''response.created'', ev_tool 0 ''ls'', ev_args 0 ''{}'', ev ''response.completed'']
          NewResponsesEventToAnthropicState)))) \<noteq> None"
  by (rule stream_blocks_framed_strictly, code_simp)


section \<open>One message, one ending\<close>

definition starts :: "anthEvent list \<Rightarrow> nat" where
  "starts es = length (filter (\<lambda>e. case e of MessageStart _ \<Rightarrow> True | _ \<Rightarrow> False) es)"

definition stops :: "anthEvent list \<Rightarrow> nat" where
  "stops es = length (filter (\<lambda>e. e = MessageStop) es)"

definition endings :: "anthEvent list \<Rightarrow> nat" where
  "endings es = length (filter (\<lambda>e. case e of MessageDelta _ _ \<Rightarrow> True | _ \<Rightarrow> False) es)"

lemmas tally_defs = starts_def stops_def endings_def

text \<open>A result whose message events match the change of the two flags.\<close>

definition tallied :: "streamState \<Rightarrow> emitted \<Rightarrow> bool" where
  "tallied s r \<longleftrightarrow>
    starts (fst r) + (if ss_MessageStartSent s then 1 else 0) = (if ss_MessageStartSent (snd r) then 1 else 0)
    \<and> stops (fst r) + (if ss_MessageStopSent s then 1 else 0) = (if ss_MessageStopSent (snd r) then 1 else 0)
    \<and> endings (fst r) = stops (fst r)"

lemma tallied_refl: "tallied s ([], s)"
  by (simp add: tallied_def tally_defs)

lemma tallied_trans: "tallied s (es, s1) \<Longrightarrow> tallied s1 (es', s2) \<Longrightarrow> tallied s (es @ es', s2)"
  by (auto simp: tallied_def tally_defs)

definition quiet :: "streamState \<Rightarrow> emitted \<Rightarrow> bool" where
  "quiet s r \<longleftrightarrow> starts (fst r) = 0 \<and> stops (fst r) = 0 \<and> endings (fst r) = 0
    \<and> ss_MessageStartSent (snd r) = ss_MessageStartSent s \<and> ss_MessageStopSent (snd r) = ss_MessageStopSent s"

lemma tallied_quiet: "quiet s r \<Longrightarrow> tallied s r"
  by (simp add: tallied_def quiet_def)

lemma tally_close: "closeCurrentBlock s = (es, s') \<Longrightarrow> starts es = 0 \<and> stops es = 0 \<and> endings es = 0"
  by (auto simp: closeCurrentBlock_def Let_def tally_defs split: if_splits)

lemma tally_append:
  "starts (xs @ ys) = starts xs + starts ys" "stops (xs @ ys) = stops xs + stops ys"
  "endings (xs @ ys) = endings xs + endings ys"
  by (simp_all add: tally_defs)

lemma tally_event [simp]:
  "starts [] = 0" "stops [] = 0" "endings [] = 0"
  "starts (BlockStart i b # es) = starts es" "stops (BlockStart i b # es) = stops es" "endings (BlockStart i b # es) = endings es"
  "starts (BlockStop i # es) = starts es" "stops (BlockStop i # es) = stops es" "endings (BlockStop i # es) = endings es"
  "starts (BlockDelta i d # es) = starts es" "stops (BlockDelta i d # es) = stops es" "endings (BlockDelta i d # es) = endings es"
  "starts (MessageStop # es) = starts es" "stops (MessageStop # es) = Suc (stops es)" "endings (MessageStop # es) = endings es"
  "starts (MessageDelta r u # es) = starts es" "stops (MessageDelta r u # es) = stops es" "endings (MessageDelta r u # es) = Suc (endings es)"
  "starts (MessageStart m # es) = Suc (starts es)" "stops (MessageStart m # es) = stops es" "endings (MessageStart m # es) = endings es"
  by (simp_all add: tally_defs)

lemma quiet_refl: "quiet s ([], s)"
  by (simp add: quiet_def)

lemma quiet_trans: "quiet s (es, s1) \<Longrightarrow> quiet s1 (es', s2) \<Longrightarrow> quiet s (es @ es', s2)"
  by (simp add: quiet_def tally_append)

lemma quiet_close: "quiet s (closeCurrentBlock s)"
proof -
  obtain es s' where c: "closeCurrentBlock s = (es, s')" by force
  with tally_close [OF c] close_fields(5,6) [OF c] show ?thesis by (simp add: quiet_def)
qed

lemma quiet_emitText: "quiet s (emitText t part s)"
proof -
  obtain es s' where c: "closeCurrentBlock s = (es, s')" by force
  with tally_close [OF c] close_fields(5,6) [OF c] show ?thesis
    by (auto simp: emitText_def tally_append quiet_def)
qed

lemma quiet_emitParts: "quiet s (emitParts ps s)"
proof (induction ps arbitrary: s)
  case (Cons p ps)
  obtain part t where p: "p = (part, t)" by (cases p)
  obtain es1 s1 where 1: "emitText t part s = (es1, s1)" by force
  obtain es2 s2 where 2: "emitParts ps s1 = (es2, s2)" by force
  from quiet_trans [of s es1 s1 es2 s2] quiet_emitText [of s t part] Cons.IH [of s1] p 1 2 show ?case by simp
qed (simp add: quiet_refl)

lemma quiet_terminalText: "quiet s (recoverTerminalText evt s)"
proof -
  have "quiet s (if es \<noteq> [] then case closeCurrentBlock s1 of (es', s2) \<Rightarrow> (es @ es', s2) else (es, s1))"
    if "emitParts ps s = (es, s1)" for ps es s1
    using quiet_emitParts [of s ps] quiet_close [of s1] that quiet_trans [of s es s1]
    by (auto split: prod.split)
  then show ?thesis by (simp add: recoverTerminalText_def quiet_refl split: option.split prod.split)
qed

lemmas tallied_close = tallied_quiet [OF quiet_close]
lemmas tallied_emitText = tallied_quiet [OF quiet_emitText]

lemma tallied_then:
  assumes "\<And>s. tallied s (f s)" and "\<And>s. tallied s (g s)"
  shows "tallied s (case f s of (es, s1) \<Rightarrow> case g s1 of (es', s2) \<Rightarrow> (es @ es', s2))"
  using tallied_trans assms by (metis (mono_tags, lifting) case_prod_beta prod.collapse)

lemma tallied_handlers:
  "tallied s (handleCreated evt s)" "tallied s (handleOutputItemAdded evt s)" "tallied s (handleTextDone evt s)"
  "tallied s (handleFuncArgsDelta J evt s)" "tallied s (handleFuncArgsDone J evt s)"
  "tallied s (handleReasoningDelta evt s)" "tallied s (handleOutputItemDone J evt s)"
  "tallied s (handleCompleted evt s)" "tallied s (FinalizeResponsesAnthropicStream s)"
proof -
  have bdone: "tallied s (handleBlockDone s)" for s
    by (simp add: handleBlockDone_def tallied_close tallied_refl)
  have recov: "tallied s (recoverText t part s)" for t part s
    by (simp add: recoverText_def Let_def tallied_refl tallied_emitText)
  obtain es s' where c: "closeCurrentBlock s = (es, s')" by force
  note cl = tally_close [OF c] close_fields(5,6) [OF c]
  show "tallied s (handleCreated evt s)"
    by (auto simp: handleCreated_def Let_def tallied_def split: option.splits)
  show "tallied s (handleOutputItemAdded evt s)"
    using c cl by (auto simp: handleOutputItemAdded_def Let_def tally_append tallied_refl split: option.splits simp: quiet_def intro!: tallied_quiet)
  show "tallied s (handleTextDone evt s)"
    using tallied_then [of "recoverText (se_Text evt) (textPartOf evt)" handleBlockDone s] recov bdone
    by (simp add: handleTextDone_def)
  show "tallied s (handleFuncArgsDelta J evt s)"
    by (auto simp: handleFuncArgsDelta_def Let_def tallied_refl split: option.splits simp: quiet_def intro!: tallied_quiet)
  show "tallied s (handleFuncArgsDone J evt s)"
    using c cl tallied_close [of s] bdone by (auto simp: handleFuncArgsDone_def Let_def tallied_refl split: option.splits simp: quiet_def intro!: tallied_quiet)
  show "tallied s (handleReasoningDelta evt s)"
    by (auto simp: handleReasoningDelta_def tallied_refl split: option.splits simp: quiet_def intro!: tallied_quiet)
  have sig: "tallied s (closeCurrentBlock (s\<lparr>ss_PendingThinkingSignature := x\<rparr>))" for x
    using tallied_close [of "s\<lparr>ss_PendingThinkingSignature := x\<rparr>"] by (simp add: tallied_def)
  have web: "tallied s (handleWebSearchDone J item s)" for item
    using c cl by (auto simp: handleWebSearchDone_def Let_def tally_append simp: quiet_def intro!: tallied_quiet)
  show "tallied s (handleOutputItemDone J evt s)"
    using tallied_close [of s] sig web
    by (simp add: handleOutputItemDone_def Let_def tallied_refl split: option.split)
       (simp add: tallied_def)
  obtain es1 s1 where t: "recoverTerminalText evt s' = (es1, s1)" by force
  have "quiet s' (es1, s1)" using quiet_terminalText [of s' evt] t by simp
  then show "tallied s (handleCompleted evt s)"
    using c t cl by (auto simp: handleCompleted_def Let_def tallied_def quiet_def tally_append)
  show "tallied s (FinalizeResponsesAnthropicStream s)"
    using c cl by (auto simp: FinalizeResponsesAnthropicStream_def tallied_def tally_append)
qed

lemma tallied_event: "tallied s (ResponsesEventToAnthropicEvents J e s)"
  unfolding ResponsesEventToAnthropicEvents_def Let_def
  by (simp add: handleTextDelta_def tallied_emitText tallied_handlers tallied_refl)

lemma tallied_stream: "tallied s (convertStream J es s)"
proof (induction es arbitrary: s)
  case (Cons e es)
  show ?case using tallied_then [OF tallied_event Cons.IH] by simp
qed (simp add: tallied_refl)

text \<open>C9. A converted stream, after finalisation, is one message: however often the upstream repeats its
  creation or terminal events, in any order with the rest, there is at most one message_start; once
  it was sent there is exactly one message_delta and exactly one message_stop, whether or not the
  upstream ever sent a terminal event; and nothing is finalised twice.\<close>

theorem stream_is_one_message:
  "let r = convertStream J es NewResponsesEventToAnthropicState;
       f = FinalizeResponsesAnthropicStream (snd r);
       out = fst r @ fst f
   in starts out \<le> 1 \<and> endings out = stops out \<and> stops out \<le> 1
      \<and> starts out \<le> stops out
      \<and> FinalizeResponsesAnthropicStream (snd f) = ([], snd f)"
proof -
  obtain out s where 1: "convertStream J es NewResponsesEventToAnthropicState = (out, s)" by force
  obtain fin s' where 2: "FinalizeResponsesAnthropicStream s = (fin, s')" by force
  have t1: "tallied NewResponsesEventToAnthropicState (out, s)" using tallied_stream [of _ J es] 1 by metis
  have t2: "tallied s (fin, s')" using tallied_handlers(9) [of s] 2 by metis
  have ended: "ss_MessageStopSent s' \<or> \<not> ss_MessageStartSent s'"
    using 2 close_fields(5) [of s] by (auto simp: FinalizeResponsesAnthropicStream_def split: if_splits prod.splits)
  then have "FinalizeResponsesAnthropicStream s' = ([], s')"
    by (auto simp: FinalizeResponsesAnthropicStream_def)
  with tallied_trans [OF t1 t2] ended 1 2 show ?thesis
    by (auto simp: tallied_def NewResponsesEventToAnthropicState_def Let_def split: if_splits)
qed

section \<open>Text is delivered once\<close>

definition textEmitted :: "anthEvent list \<Rightarrow> string" where
  "textEmitted es = concat (map (\<lambda>e. case e of BlockDelta _ (TextDelta t) \<Rightarrow> t | _ \<Rightarrow> []) es)"

lemma textEmitted_simps [simp]:
  "textEmitted [] = []" "textEmitted (xs @ ys) = textEmitted xs @ textEmitted ys"
  "textEmitted (BlockDelta i (TextDelta t) # es) = t @ textEmitted es"
  "textEmitted (BlockStart i b # es) = textEmitted es" "textEmitted (BlockStop i # es) = textEmitted es"
  "textEmitted (MessageStart m # es) = textEmitted es" "textEmitted (MessageDelta r u # es) = textEmitted es"
  "textEmitted (MessageStop # es) = textEmitted es"
  "textEmitted (BlockDelta i (SignatureDelta x) # es) = textEmitted es"
  by (simp_all add: textEmitted_def)

lemma close_text: "closeCurrentBlock s = (es, s') \<Longrightarrow> textEmitted es = []"
  by (auto simp: closeCurrentBlock_def Let_def split: if_splits)

lemma emitText_effect:
  assumes "emitText t part s = (es, s')"
  shows "textEmitted es = t"
    and "deliveredText s' p = (if p = part then deliveredText s p @ t else deliveredText s p)"
    and "ss_textDelivered s' = (ss_textDelivered s \<or> t \<noteq> [])"
    and "m_get (ss_textByPart s') p \<noteq> None \<longleftrightarrow> m_get (ss_textByPart s) p \<noteq> None \<or> p = part \<and> t \<noteq> []"
    and "ss_MessageStopSent s' = ss_MessageStopSent s"
proof -
  obtain es0 s0 where c: "closeCurrentBlock s = (es0, s0)" by force
  note cl = close_text [OF c] close_fields [OF c]
  have dl: "deliveredText (s0\<lparr>ss_ContentBlockOpen := b, ss_CurrentBlockType := x\<rparr>) q = deliveredText s q" for b x q
    using cl by (simp add: deliveredText_def)
  show "textEmitted es = t"
    using assms c cl by (auto simp: emitText_def split: if_splits)
  show "deliveredText s' p = (if p = part then deliveredText s p @ t else deliveredText s p)"
    using assms c cl dl by (auto simp: emitText_def deliveredText_def m_get_set split: if_splits)
  show "ss_textDelivered s' = (ss_textDelivered s \<or> t \<noteq> [])"
    using assms c cl by (auto simp: emitText_def split: if_splits)
  show "m_get (ss_textByPart s') p \<noteq> None \<longleftrightarrow> m_get (ss_textByPart s) p \<noteq> None \<or> p = part \<and> t \<noteq> []"
    using assms c cl by (auto simp: emitText_def m_get_set split: if_splits)
  show "ss_MessageStopSent s' = ss_MessageStopSent s"
    using assms c cl by (auto simp: emitText_def split: if_splits)
qed

lemma emitParts_text: "textEmitted (fst (emitParts ps s)) = concat (map snd ps)"
proof (induction ps arbitrary: s)
  case (Cons p ps)
  obtain part t where p: "p = (part, t)" by (cases p)
  obtain es1 s1 where 1: "emitText t part s = (es1, s1)" by force
  from Cons.IH [of s1] emitText_effect(1) [OF 1] p 1 show ?case by (simp add: case_prod_unfold)
qed simp

definition ev_delta :: "textPart \<Rightarrow> string \<Rightarrow> streamEvent" where
  "ev_delta p t = (ev ''response.output_text.delta'')\<lparr>se_OutputIndex := fst p, se_ContentIndex := snd p, se_Delta := t\<rparr>"

definition ev_done :: "textPart \<Rightarrow> string \<Rightarrow> streamEvent" where
  "ev_done p t = (ev ''response.output_text.done'')\<lparr>se_OutputIndex := fst p, se_ContentIndex := snd p, se_Text := t\<rparr>"

definition ev_completed :: "respResponse \<Rightarrow> streamEvent" where
  "ev_completed r = (ev ''response.completed'')\<lparr>se_Response := Some r\<rparr>"

lemma convert_delta:
  "ResponsesEventToAnthropicEvents J (ev_delta p t) s = emitText t p s"
  by (simp add: ResponsesEventToAnthropicEvents_def ev_delta_def ev_def handleTextDelta_def textPartOf_def)

lemma convert_deltas:
  "convertStream J (map (ev_delta p) ds) s = (es, s') \<Longrightarrow>
    textEmitted es = concat ds \<and> deliveredText s' p = deliveredText s p @ concat ds
    \<and> ss_textDelivered s' = (ss_textDelivered s \<or> concat ds \<noteq> [])
    \<and> (m_get (ss_textByPart s') p \<noteq> None \<longleftrightarrow> m_get (ss_textByPart s) p \<noteq> None \<or> concat ds \<noteq> [])
    \<and> ss_MessageStopSent s' = ss_MessageStopSent s"
proof (induction ds arbitrary: s es s')
  case (Cons d ds)
  obtain es1 s1 where 1: "emitText d p s = (es1, s1)" by force
  obtain es2 s2 where 2: "convertStream J (map (ev_delta p) ds) s1 = (es2, s2)" by force
  from Cons.prems 1 2 have "es = es1 @ es2" "s' = s2" by (simp_all add: convert_delta)
  with Cons.IH [OF 2] emitText_effect [OF 1] show ?case by auto
qed simp

lemma convert_done:
  assumes "\<not> ss_MessageStopSent s" and "m_get (ss_textByPart s) p \<noteq> None \<or> \<not> ss_textDelivered s"
    and "has_prefix t (deliveredText s p)"
    and "ResponsesEventToAnthropicEvents J (ev_done p t) s = (es, s')"
  shows "textEmitted es = drop (length (deliveredText s p)) t"
    and "ss_textDelivered s' = (ss_textDelivered s \<or> drop (length (deliveredText s p)) t \<noteq> [])"
    and "ss_MessageStopSent s' = ss_MessageStopSent s"
proof -
  obtain es1 s1 where 1: "recoverText t p s = (es1, s1)" by force
  obtain es2 s2 where 2: "handleBlockDone s1 = (es2, s2)" by force
  have r: "es = es1 @ es2" "s' = s2"
    using assms(1,4) 1 2
    by (simp_all add: ResponsesEventToAnthropicEvents_def ev_done_def ev_def handleTextDone_def textPartOf_def)
  have q: "textEmitted es2 = []" "ss_textDelivered s2 = ss_textDelivered s1" "ss_MessageStopSent s2 = ss_MessageStopSent s1"
    using 2 close_text close_fields by (auto simp: handleBlockDone_def split: if_splits)
  have p: "textEmitted es1 = drop (length (deliveredText s p)) t
      \<and> ss_textDelivered s1 = (ss_textDelivered s \<or> drop (length (deliveredText s p)) t \<noteq> [])
      \<and> ss_MessageStopSent s1 = ss_MessageStopSent s"
  proof (cases "t = deliveredText s p")
    case True
    with 1 show ?thesis by (auto simp: recoverText_def Let_def split: if_splits)
  next
    case False
    with 1 assms(2,3) have "emitText (drop (length (deliveredText s p)) t) p s = (es1, s1)"
      by (auto simp: recoverText_def Let_def split: if_splits)
    from emitText_effect [OF this] show ?thesis by simp
  qed
  from p q r show "textEmitted es = drop (length (deliveredText s p)) t"
    "ss_textDelivered s' = (ss_textDelivered s \<or> drop (length (deliveredText s p)) t \<noteq> [])"
    "ss_MessageStopSent s' = ss_MessageStopSent s" by auto
qed

lemma convert_completed:
  assumes "\<not> ss_MessageStopSent s"
  shows "textEmitted (fst (ResponsesEventToAnthropicEvents J (ev_completed r) s)) =
    (if ss_textDelivered s then [] else concat (map snd (terminalParts r)))"
proof -
  obtain es1 s1 where 1: "closeCurrentBlock s = (es1, s1)" by force
  obtain es2 s2 where 2: "emitParts (terminalParts r) s1 = (es2, s2)" by force
  obtain es3 s3 where 3: "closeCurrentBlock s2 = (es3, s3)" by force
  have "textEmitted es2 = concat (map snd (terminalParts r))"
    using emitParts_text [of "terminalParts r" s1] 2 by simp
  moreover have "textEmitted (fst (recoverTerminalText (ev_completed r) s1)) =
      (if ss_textDelivered s1 then [] else textEmitted es2)"
    using 2 3 close_text [OF 3] by (auto simp: recoverTerminalText_def ev_completed_def ev_def)
  ultimately show ?thesis
    using assms 1 close_text [OF 1] close_fields(4) [OF 1]
    by (auto simp: ResponsesEventToAnthropicEvents_def handleCompleted_def Let_def case_prod_unfold)
       (simp_all add: ev_completed_def ev_def)
qed



section \<open>Whole responses\<close>

lemma outputItem_tool:
  "containsAnthropicToolUseBlock (outputItemBlocks J item) \<longleftrightarrow> ro_Type item = ''function_call''"
  by (auto simp: containsAnthropicToolUseBlock_def outputItemBlocks_def webSearchBlocks_def block_def Let_def list_ex_iff)

lemma contains_concat:
  "containsAnthropicToolUseBlock (concat bs) \<longleftrightarrow> (\<exists>b \<in> set bs. containsAnthropicToolUseBlock b)"
  by (auto simp: containsAnthropicToolUseBlock_def list_ex_iff)


text \<open>The conversion of a whole response leaves out items the stream conversion turns into tool calls.\<close>

lemma custom_tool_call_dropped:
  "an_Content (ResponsesToAnthropic J \<lparr>rr_ID = i, rr_Model = [], rr_Status = ''completed'',
      rr_Output = [no_item\<lparr>ro_Type := ''custom_tool_call'', ro_Name := ''apply_patch''\<rparr>], rr_Usage = None,
      rr_IncompleteReason = None\<rparr> m) = [block ''text'']
   \<and> an_StopReason (ResponsesToAnthropic J \<lparr>rr_ID = i, rr_Model = [], rr_Status = ''completed'',
      rr_Output = [no_item\<lparr>ro_Type := ''custom_tool_call'', ro_Name := ''apply_patch''\<rparr>], rr_Usage = None,
      rr_IncompleteReason = None\<rparr> m) = Some ''end_turn''"
  by (simp add: ResponsesToAnthropic_def outputItemBlocks_def no_item_def Let_def
      responsesStatusToAnthropicStopReason_def containsAnthropicToolUseBlock_def block_def)

end
