(* ===== verification/Idempotency.thy ===== *)
theory Idempotency
  imports GoText
begin

text \<open>
  The idempotency coordinator of \<open>internal/service/idempotency.go\<close>: keys, fingerprints, stored
  responses and \<open>Execute\<close>, over a repository that is an argument (\<open>idemRepo\<close>, the Go interface
  \<open>IdempotencyRepository\<close>) with a state of its own.

  \<^item> \<open>time.Now()\<close> is an argument: the instant of the claim, of the end of the execution and of
    the backoff. The renewal goroutine runs while the execution does, so its ticks come before
    the statements that store the outcome.
  \<^item> \<open>encoding/json\<close>, SHA-256 and the log redaction are arguments (\<open>idemLib\<close>).
  \<^item> Metrics, audit log lines, contexts and the cause attached to an error are left out.
\<close>

section \<open>Application errors\<close>

record appError =
  ae_Code :: int
  ae_Reason :: string
  ae_Message :: string
  ae_Metadata :: "(string, string) gomap option"

datatype goError = AppError appError | PlainError string

definition newError :: "int \<Rightarrow> string \<Rightarrow> string \<Rightarrow> appError" where
  "newError code reason message =
    \<lparr>ae_Code = code, ae_Reason = reason, ae_Message = message, ae_Metadata = None\<rparr>"

definition WithMetadata :: "appError \<Rightarrow> (string, string) gomap \<Rightarrow> appError" where
  "WithMetadata e md = e\<lparr>ae_Metadata := Some md\<rparr>"

definition FromError :: "goError \<Rightarrow> appError" where
  "FromError err = (case err of AppError e \<Rightarrow> e | PlainError _ \<Rightarrow> newError 500 [] ''internal error'')"

definition Reason :: "goError \<Rightarrow> string" where
  "Reason err = ae_Reason (FromError err)"

definition ErrIdempotencyKeyRequired :: appError where
  "ErrIdempotencyKeyRequired = newError 400 ''IDEMPOTENCY_KEY_REQUIRED'' ''idempotency key is required''"

definition ErrIdempotencyKeyInvalid :: appError where
  "ErrIdempotencyKeyInvalid = newError 400 ''IDEMPOTENCY_KEY_INVALID'' ''idempotency key is invalid''"

definition ErrIdempotencyKeyConflict :: appError where
  "ErrIdempotencyKeyConflict =
     newError 409 ''IDEMPOTENCY_KEY_CONFLICT'' ''idempotency key reused with different payload''"

definition ErrIdempotencyInProgress :: appError where
  "ErrIdempotencyInProgress =
     newError 409 ''IDEMPOTENCY_IN_PROGRESS'' ''idempotent request is still processing''"

definition ErrIdempotencyRetryBackoff :: appError where
  "ErrIdempotencyRetryBackoff =
     newError 409 ''IDEMPOTENCY_RETRY_BACKOFF'' ''idempotent request is in retry backoff window''"

definition ErrIdempotencyStoreUnavail :: appError where
  "ErrIdempotencyStoreUnavail =
     newError 503 ''IDEMPOTENCY_STORE_UNAVAILABLE'' ''idempotency store unavailable''"

definition ErrIdempotencyInvalidPayload :: appError where
  "ErrIdempotencyInvalidPayload =
     newError 400 ''IDEMPOTENCY_PAYLOAD_INVALID'' ''failed to normalize request payload''"

lemmas idemErrors =
  ErrIdempotencyKeyRequired_def ErrIdempotencyKeyInvalid_def ErrIdempotencyKeyConflict_def
  ErrIdempotencyInProgress_def ErrIdempotencyRetryBackoff_def ErrIdempotencyStoreUnavail_def
  ErrIdempotencyInvalidPayload_def newError_def

section \<open>Records, repository and options\<close>

definition IdempotencyStatusProcessing :: string where
  "IdempotencyStatusProcessing = ''processing''"

definition IdempotencyStatusSucceeded :: string where
  "IdempotencyStatusSucceeded = ''succeeded''"

definition IdempotencyStatusFailedRetryable :: string where
  "IdempotencyStatusFailedRetryable = ''failed_retryable''"

lemmas idemStatuses =
  IdempotencyStatusProcessing_def IdempotencyStatusSucceeded_def IdempotencyStatusFailedRetryable_def

record idemRecord =
  ir_ID :: int
  ir_Scope :: string
  ir_KeyHash :: string
  ir_Fingerprint :: string
  ir_Status :: string
  ir_ResponseStatus :: "int option"
  ir_ResponseBody :: "string option"
  ir_ErrorReason :: "string option"
  ir_LockedUntil :: "time option"
  ir_ExpiresAt :: time
  ir_CreatedAt :: time
  ir_UpdatedAt :: time

text \<open>The Go interface; a failed call is \<open>Inl\<close>. \<open>CreateProcessing\<close> also writes its record.\<close>

record 'r idemRepo =
  CreateProcessing :: "idemRecord \<Rightarrow> 'r \<Rightarrow> (string + bool \<times> idemRecord) \<times> 'r"
  GetByScopeAndKeyHash :: "string \<Rightarrow> string \<Rightarrow> 'r \<Rightarrow> (string + idemRecord option) \<times> 'r"
  TryReclaim :: "int \<Rightarrow> string \<Rightarrow> time \<Rightarrow> time \<Rightarrow> time \<Rightarrow> 'r \<Rightarrow> (string + bool) \<times> 'r"
  ExtendProcessingLock :: "int \<Rightarrow> string \<Rightarrow> time \<Rightarrow> time \<Rightarrow> 'r \<Rightarrow> (string + bool) \<times> 'r"
  MarkSucceeded :: "int \<Rightarrow> int \<Rightarrow> string \<Rightarrow> time \<Rightarrow> 'r \<Rightarrow> (string + unit) \<times> 'r"
  MarkFailedRetryable :: "int \<Rightarrow> string \<Rightarrow> time \<Rightarrow> time \<Rightarrow> 'r \<Rightarrow> (string + unit) \<times> 'r"
  DeleteExpired :: "time \<Rightarrow> int \<Rightarrow> 'r \<Rightarrow> (string + int) \<times> 'r"

record idemConfig =
  ic_DefaultTTL :: duration
  ic_SystemOperationTTL :: duration
  ic_ProcessingTimeout :: duration
  ic_FailedRetryBackoff :: duration
  ic_MaxStoredResponseLen :: int
  ic_ObserveOnly :: bool

definition DefaultIdempotencyConfig :: idemConfig where
  "DefaultIdempotencyConfig = \<lparr>ic_DefaultTTL = 24 * hour, ic_SystemOperationTTL = 1 * hour,
     ic_ProcessingTimeout = 30 * second, ic_FailedRetryBackoff = 5 * second,
     ic_MaxStoredResponseLen = 64 * 1024, ic_ObserveOnly = True\<rparr>"

record 'd idemOptions =
  io_Scope :: string
  io_ActorScope :: string
  io_Method :: string
  io_Route :: string
  io_IdempotencyKey :: string
  io_Payload :: 'd
  io_TTL :: duration
  io_RequireKey :: bool
  io_ExecutionTimeout :: duration

record 'd idemResult =
  er_Data :: 'd
  er_Replayed :: bool

record 'd idemLib =
  lib_Sha256 :: "string \<Rightarrow> string"
  lib_Marshal :: "'d \<Rightarrow> string option"
  lib_Unmarshal :: "string \<Rightarrow> 'd option"
  lib_EmptyObject :: 'd
  lib_RedactText :: "string \<Rightarrow> string"

text \<open>The TTLs the handlers use, from the process-wide coordinator when one is set.\<close>

definition DefaultWriteIdempotencyTTL :: "idemConfig option \<Rightarrow> duration" where
  "DefaultWriteIdempotencyTTL coordinator =
    (case coordinator of
       Some cfg \<Rightarrow> if ic_DefaultTTL cfg > 0 then ic_DefaultTTL cfg
                   else ic_DefaultTTL DefaultIdempotencyConfig
     | None \<Rightarrow> ic_DefaultTTL DefaultIdempotencyConfig)"

definition DefaultSystemOperationIdempotencyTTL :: "idemConfig option \<Rightarrow> duration" where
  "DefaultSystemOperationIdempotencyTTL coordinator =
    (case coordinator of
       Some cfg \<Rightarrow> if ic_SystemOperationTTL cfg > 0 then ic_SystemOperationTTL cfg
                   else ic_SystemOperationTTL DefaultIdempotencyConfig
     | None \<Rightarrow> ic_SystemOperationTTL DefaultIdempotencyConfig)"

section \<open>Keys and fingerprints\<close>

definition NormalizeIdempotencyKey :: "string \<Rightarrow> goError + string" where
  "NormalizeIdempotencyKey raw =
    (let key = trim_space raw
     in if key = [] then Inr []
        else if length key > 128 then Inl (AppError ErrIdempotencyKeyInvalid)
        else if (\<exists>r\<in>set key. char_code r < 33 \<or> char_code r > 126)
          then Inl (AppError ErrIdempotencyKeyInvalid)
        else Inr key)"

definition hex_digit :: "nat \<Rightarrow> char" where
  "hex_digit n = (if n < 10 then char_of (48 + n) else char_of (87 + n))"

definition hex_encode :: "string \<Rightarrow> string" where
  "hex_encode s = concat (map (\<lambda>c. [hex_digit (char_code c div 16), hex_digit (char_code c mod 16)]) s)"

definition HashIdempotencyKey :: "'d idemLib \<Rightarrow> string \<Rightarrow> string" where
  "HashIdempotencyKey L key = hex_encode (lib_Sha256 L key)"

definition newline :: string where
  "newline = [char_of (10::nat)]"

definition BuildIdempotencyFingerprint ::
  "'d idemLib \<Rightarrow> string \<Rightarrow> string \<Rightarrow> string \<Rightarrow> 'd \<Rightarrow> goError + string" where
  "BuildIdempotencyFingerprint L method0 route0 actorScope0 payload =
    (let method = (if method0 = [] then ''POST'' else method0);
         route = (if route0 = [] then ''/'' else route0);
         actorScope = (if actorScope0 = [] then ''anonymous'' else actorScope0)
     in case lib_Marshal L payload of
          None \<Rightarrow> Inl (AppError ErrIdempotencyInvalidPayload)
        | Some raw \<Rightarrow>
            Inr (hex_encode (lib_Sha256 L
              (to_upper method @ newline @ route @ newline @ actorScope @ newline @ raw))))"

definition RetryAfterSecondsFromError :: "goError \<Rightarrow> int" where
  "RetryAfterSecondsFromError err =
    (case err of
       PlainError _ \<Rightarrow> 0
     | AppError e \<Rightarrow>
         (case ae_Metadata e of
            None \<Rightarrow> 0
          | Some md \<Rightarrow>
              (let v = trim_space (case m_get md ''retry_after'' of None \<Rightarrow> [] | Some s \<Rightarrow> s)
               in if v = [] then 0
                  else (case parse_int v of None \<Rightarrow> 0 | Some seconds \<Rightarrow> if seconds \<le> 0 then 0 else seconds))))"

text \<open>\<open>Duration.Seconds\<close> is a \<open>float64\<close>; its integer part is the truncated quotient.\<close>

definition conflictWithRetryAfter :: "appError \<Rightarrow> time option \<Rightarrow> time \<Rightarrow> appError" where
  "conflictWithRetryAfter base lockedUntil now =
    (case lockedUntil of
       None \<Rightarrow> base
     | Some l \<Rightarrow>
         (let sec0 = go_div (t_sub l now) second;
              sec = (if sec0 \<le> 0 then 1 else sec0)
          in WithMetadata base [(''retry_after'', itoa sec)]))"

section \<open>Stored responses\<close>

text \<open>\<open>utf8.ValidString\<close>: the well-formed byte sequences of RFC 3629.\<close>

definition in_range :: "nat \<Rightarrow> nat \<Rightarrow> char \<Rightarrow> bool" where
  "in_range lo hi c \<longleftrightarrow> lo \<le> char_code c \<and> char_code c \<le> hi"

abbreviation cont_byte :: "char \<Rightarrow> bool" where
  "cont_byte \<equiv> in_range 0x80 0xBF"

text \<open>The length of the well-formed sequence at the head of a string, 0 when there is none.\<close>

definition utf8_head :: "string \<Rightarrow> nat" where
  "utf8_head s =
    (case s of
       [] \<Rightarrow> 0
     | a # t \<Rightarrow>
         if char_code a < 0x80 then 1
         else (case t of
             [] \<Rightarrow> 0
           | b # u \<Rightarrow>
               if in_range 0xC2 0xDF a then (if cont_byte b then 2 else 0)
               else (case u of
                   [] \<Rightarrow> 0
                 | c # v \<Rightarrow>
                     if in_range 0xE0 0xEF a then
                       (if in_range (if char_code a = 0xE0 then 0xA0 else 0x80)
                                    (if char_code a = 0xED then 0x9F else 0xBF) b
                           \<and> cont_byte c then 3 else 0)
                     else (case v of
                         [] \<Rightarrow> 0
                       | d # w \<Rightarrow>
                           if in_range 0xF0 0xF4 a
                              \<and> in_range (if char_code a = 0xF0 then 0x90 else 0x80)
                                         (if char_code a = 0xF4 then 0x8F else 0xBF) b
                              \<and> cont_byte c \<and> cont_byte d then 4 else 0))))"

function utf8_valid :: "string \<Rightarrow> bool" where
  "utf8_valid s =
    (if s = [] then True else if utf8_head s = 0 then False else utf8_valid (drop (utf8_head s) s))"
  by pat_completeness auto
termination
proof (relation "measure length")
  fix s :: string
  assume "s \<noteq> []" and "utf8_head s \<noteq> 0"
  then show "(drop (utf8_head s) s, s) \<in> measure length" by (cases s) simp_all
qed simp

declare utf8_valid.simps [simp del]

text \<open>The loop of \<open>truncateUTF8\<close> on \<open>maxBytes\<close>, which counts down to at least 0.\<close>

fun truncateLoop :: "string \<Rightarrow> nat \<Rightarrow> nat" where
  "truncateLoop s 0 = 0"
| "truncateLoop s (Suc n) = (if utf8_valid (take (Suc n) s) then Suc n else truncateLoop s n)"

definition truncateUTF8 :: "string \<Rightarrow> int \<Rightarrow> string" where
  "truncateUTF8 s maxBytes =
    (if maxBytes \<le> 0 \<or> int (length s) \<le> maxBytes then s
     else take (truncateLoop s (nat maxBytes)) s)"

definition marshalStoredResponse :: "'d idemLib \<Rightarrow> idemConfig \<Rightarrow> 'd \<Rightarrow> string option" where
  "marshalStoredResponse L cfg d =
    (case lib_Marshal L d of
       None \<Rightarrow> None
     | Some raw \<Rightarrow>
         (let redacted = lib_RedactText L raw
          in if 0 < ic_MaxStoredResponseLen cfg \<and> ic_MaxStoredResponseLen cfg < int (length redacted)
             then Some (truncateUTF8 redacted (ic_MaxStoredResponseLen cfg) @ ''...(truncated)'')
             else Some redacted))"

definition decodeStoredResponse :: "'d idemLib \<Rightarrow> string option \<Rightarrow> 'd option" where
  "decodeStoredResponse L stored =
    (case stored of
       None \<Rightarrow> Some (lib_EmptyObject L)
     | Some s \<Rightarrow> if trim_space s = [] then Some (lib_EmptyObject L) else lib_Unmarshal L s)"

section \<open>Claiming the record\<close>

datatype 'd claim = Claimed int | Answer "goError + 'd idemResult"

text \<open>The fields of one call that its statements use, fixed before the first of them.\<close>

record idemCall =
  ca_Scope :: string
  ca_KeyHash :: string
  ca_Fingerprint :: string
  ca_Now :: time
  ca_LockedUntil :: time
  ca_ExpiresAt :: time

definition callRecord :: "idemCall \<Rightarrow> idemRecord" where
  "callRecord c = \<lparr>ir_ID = 0, ir_Scope = ca_Scope c, ir_KeyHash = ca_KeyHash c,
     ir_Fingerprint = ca_Fingerprint c, ir_Status = IdempotencyStatusProcessing,
     ir_ResponseStatus = None, ir_ResponseBody = None, ir_ErrorReason = None,
     ir_LockedUntil = Some (ca_LockedUntil c), ir_ExpiresAt = ca_ExpiresAt c,
     ir_CreatedAt = 0, ir_UpdatedAt = 0\<rparr>"

abbreviation fails :: "appError \<Rightarrow> 'd claim" where
  "fails e \<equiv> Answer (Inl (AppError e))"

abbreviation unavailable :: "'d claim" where
  "unavailable \<equiv> fails ErrIdempotencyStoreUnavail"

text \<open>The \<open>switch existing.Status\<close>.\<close>

definition answerExisting ::
  "'d idemLib \<Rightarrow> 'r idemRepo \<Rightarrow> idemCall \<Rightarrow> idemRecord \<Rightarrow> 'r \<Rightarrow> 'd claim \<times> 'r" where
  "answerExisting L R c existing r =
    (if ir_Status existing = IdempotencyStatusSucceeded then
       (case decodeStoredResponse L (ir_ResponseBody existing) of
          None \<Rightarrow> (unavailable, r)
        | Some d \<Rightarrow> (Answer (Inr \<lparr>er_Data = d, er_Replayed = True\<rparr>), r))
     else if ir_Status existing = IdempotencyStatusProcessing then
       (fails (conflictWithRetryAfter ErrIdempotencyInProgress (ir_LockedUntil existing) (ca_Now c)), r)
     else if ir_Status existing = IdempotencyStatusFailedRetryable then
       (if (case ir_LockedUntil existing of None \<Rightarrow> False | Some l \<Rightarrow> t_after l (ca_Now c)) then
          (fails (conflictWithRetryAfter ErrIdempotencyRetryBackoff (ir_LockedUntil existing) (ca_Now c)), r)
        else
          (case TryReclaim R (ir_ID existing) IdempotencyStatusFailedRetryable (ca_Now c)
                  (ca_LockedUntil c) (ca_ExpiresAt c) r of
             (Inl _, r1) \<Rightarrow> (unavailable, r1)
           | (Inr taken, r1) \<Rightarrow>
               if \<not> taken then
                 (fails (conflictWithRetryAfter ErrIdempotencyInProgress (ir_LockedUntil existing) (ca_Now c)), r1)
               else (Claimed (ir_ID existing), r1)))
     else (fails ErrIdempotencyKeyConflict, r))"

text \<open>The branch in which another call created the record.\<close>

definition claimExisting ::
  "'d idemLib \<Rightarrow> 'r idemRepo \<Rightarrow> idemCall \<Rightarrow> 'r \<Rightarrow> 'd claim \<times> 'r" where
  "claimExisting L R c r =
    (case GetByScopeAndKeyHash R (ca_Scope c) (ca_KeyHash c) r of
       (Inl _, r1) \<Rightarrow> (unavailable, r1)
     | (Inr None, r1) \<Rightarrow> (unavailable, r1)
     | (Inr (Some existing), r1) \<Rightarrow>
         if ir_Fingerprint existing \<noteq> ca_Fingerprint c then (fails ErrIdempotencyKeyConflict, r1)
         else if \<not> t_after (ir_ExpiresAt existing) (ca_Now c) then
           (case TryReclaim R (ir_ID existing) (ir_Status existing) (ca_Now c)
                   (ca_LockedUntil c) (ca_ExpiresAt c) r1 of
              (Inl _, r2) \<Rightarrow> (unavailable, r2)
            | (Inr taken, r2) \<Rightarrow>
                if taken then (Claimed (ir_ID existing), r2)
                else
                  (case GetByScopeAndKeyHash R (ca_Scope c) (ca_KeyHash c) r2 of
                     (Inl _, r3) \<Rightarrow> (unavailable, r3)
                   | (Inr None, r3) \<Rightarrow> (unavailable, r3)
                   | (Inr (Some latest), r3) \<Rightarrow>
                       if ir_Fingerprint latest \<noteq> ca_Fingerprint c
                       then (fails ErrIdempotencyKeyConflict, r3)
                       else answerExisting L R c latest r3))
         else answerExisting L R c existing r1)"

definition claimRecord ::
  "'d idemLib \<Rightarrow> 'r idemRepo \<Rightarrow> idemCall \<Rightarrow> 'r \<Rightarrow> 'd claim \<times> 'r" where
  "claimRecord L R c r =
    (let (res, r') =
       (case CreateProcessing R (callRecord c) r of
          (Inl _, r1) \<Rightarrow> (unavailable, r1)
        | (Inr (owner, record1), r1) \<Rightarrow>
            if owner then (Claimed (ir_ID record1), r1) else claimExisting L R c r1)
     in if res = Claimed 0 then (unavailable, r') else (res, r'))"

section \<open>Execution\<close>

text \<open>
  The loop of the renewal goroutine over its ticks: a failed renewal is retried at the next tick,
  a renewal that found nothing to extend ends it.
\<close>

definition renewalLease :: "idemConfig \<Rightarrow> duration" where
  "renewalLease cfg =
    (if ic_ProcessingTimeout cfg \<le> 0 then ic_ProcessingTimeout DefaultIdempotencyConfig
     else ic_ProcessingTimeout cfg)"

fun renewProcessingLease ::
  "'r idemRepo \<Rightarrow> duration \<Rightarrow> int \<Rightarrow> string \<Rightarrow> duration \<Rightarrow> time list \<Rightarrow> 'r \<Rightarrow> 'r" where
  "renewProcessingLease R lease rid fp ttl [] r = r"
| "renewProcessingLease R lease rid fp ttl (now # ticks) r =
    (case ExtendProcessingLock R rid fp (t_add now lease) (t_add now ttl) r of
       (Inl _, r1) \<Rightarrow> renewProcessingLease R lease rid fp ttl ticks r1
     | (Inr ok, r1) \<Rightarrow> if \<not> ok then r1 else renewProcessingLease R lease rid fp ttl ticks r1)"

record callTimes =
  ct_Start :: time
  ct_Ticks :: "time list"
  ct_Finish :: time
  ct_Backoff :: time

text \<open>The end of \<open>Execute\<close>: the outcome of the execution is stored and returned.\<close>

definition storeOutcome ::
  "'d idemLib \<Rightarrow> 'r idemRepo \<Rightarrow> idemConfig \<Rightarrow> int \<Rightarrow> time \<Rightarrow> time \<Rightarrow> goError + 'd \<Rightarrow> 'r
   \<Rightarrow> (goError + 'd idemResult) \<times> 'r" where
  "storeOutcome L R cfg rid expiresAt tBackoff outcome r =
    (case outcome of
       Inl execErr \<Rightarrow>
         (let backoffUntil = t_add tBackoff (ic_FailedRetryBackoff cfg);
              reason = (if Reason execErr = [] then ''EXECUTION_FAILED'' else Reason execErr)
          in (Inl execErr, snd (MarkFailedRetryable R rid reason backoffUntil expiresAt r)))
     | Inr d \<Rightarrow>
         (case marshalStoredResponse L cfg d of
            None \<Rightarrow> (Inl (AppError ErrIdempotencyStoreUnavail), r)
          | Some storedBody \<Rightarrow>
              (case MarkSucceeded R rid 200 storedBody expiresAt r of
                 (Inl _, r1) \<Rightarrow> (Inl (AppError ErrIdempotencyStoreUnavail), r1)
               | (Inr _, r1) \<Rightarrow> (Inr \<lparr>er_Data = d, er_Replayed = False\<rparr>, r1))))"

definition effectiveTTL :: "idemConfig \<Rightarrow> 'd idemOptions \<Rightarrow> duration" where
  "effectiveTTL cfg opts = (if io_TTL opts \<le> 0 then ic_DefaultTTL cfg else io_TTL opts)"

definition idemCallOf ::
  "'d idemLib \<Rightarrow> idemConfig \<Rightarrow> 'd idemOptions \<Rightarrow> time \<Rightarrow> string \<Rightarrow> string \<Rightarrow> idemCall" where
  "idemCallOf L cfg opts now key fingerprint =
    \<lparr>ca_Scope = io_Scope opts, ca_KeyHash = HashIdempotencyKey L key, ca_Fingerprint = fingerprint,
     ca_Now = now, ca_LockedUntil = t_add now (ic_ProcessingTimeout cfg),
     ca_ExpiresAt = t_add now (effectiveTTL cfg opts)\<rparr>"

definition Execute ::
  "'d idemLib \<Rightarrow> 'r idemRepo option \<Rightarrow> idemConfig \<Rightarrow> 'd idemOptions \<Rightarrow> callTimes
   \<Rightarrow> ('w \<Rightarrow> (goError + 'd) \<times> 'w) option \<Rightarrow> 'r \<Rightarrow> 'w
   \<Rightarrow> (goError + 'd idemResult) \<times> 'r \<times> 'w" where
  "Execute L repo cfg opts tm execute r w =
    (case execute of
       None \<Rightarrow> (Inl (AppError (newError 500 ''IDEMPOTENCY_EXECUTOR_NIL'' ''idempotency executor is nil'')), r, w)
     | Some run \<Rightarrow>
    (case NormalizeIdempotencyKey (io_IdempotencyKey opts) of
       Inl err \<Rightarrow> (Inl err, r, w)
     | Inr key \<Rightarrow>
     if key = [] then
       (if io_RequireKey opts \<and> \<not> ic_ObserveOnly cfg
        then (Inl (AppError ErrIdempotencyKeyRequired), r, w)
        else (case run w of
                (Inl execErr, w1) \<Rightarrow> (Inl execErr, r, w1)
              | (Inr d, w1) \<Rightarrow> (Inr \<lparr>er_Data = d, er_Replayed = False\<rparr>, r, w1)))
     else
    (case repo of
       None \<Rightarrow> (Inl (AppError ErrIdempotencyStoreUnavail), r, w)
     | Some R \<Rightarrow>
     if io_Scope opts = [] then
       (Inl (AppError (newError 400 ''IDEMPOTENCY_SCOPE_REQUIRED'' ''idempotency scope is required'')), r, w)
     else
    (case BuildIdempotencyFingerprint L (io_Method opts) (io_Route opts) (io_ActorScope opts) (io_Payload opts) of
       Inl err \<Rightarrow> (Inl err, r, w)
     | Inr fingerprint \<Rightarrow>
         (let ttl = effectiveTTL cfg opts;
              c = idemCallOf L cfg opts (ct_Start tm) key fingerprint
          in case claimRecord L R c r of
               (Answer a, r1) \<Rightarrow> (a, r1, w)
             | (Claimed rid, r1) \<Rightarrow>
                 (let detached = (0 < io_ExecutionTimeout opts);
                      r2 = (if detached then
                              renewProcessingLease R (renewalLease cfg) rid fingerprint ttl (ct_Ticks tm) r1
                            else r1);
                      (outcome, w1) = run w;
                      expiresAt = (if detached then t_add (ct_Finish tm) ttl else ca_ExpiresAt c);
                      (res, r3) = storeOutcome L R cfg rid expiresAt (ct_Backoff tm) outcome r2
                  in (res, r3, w1)))))))"

section \<open>Cleanup\<close>

text \<open>\<open>idempotency_cleanup_service.go\<close>: the batch of a configuration and one round of the loop.\<close>

definition cleanupBatch :: "int option \<Rightarrow> int" where
  "cleanupBatch configured =
    (case configured of Some b \<Rightarrow> if b > 0 then b else 500 | None \<Rightarrow> 500)"

definition cleanupOnce :: "'r idemRepo \<Rightarrow> int \<Rightarrow> time \<Rightarrow> 'r \<Rightarrow> 'r" where
  "cleanupOnce R batch now r = snd (DeleteExpired R now batch r)"

end
