(* ===== verification/IdempotencyStore.thy ===== *)
theory IdempotencyStore
  imports Idempotency
begin

text \<open>
  The contract of the idempotency repository as a locale, what \<open>Execute\<close> does on every branch
  under it, and the statements of \<open>internal/repository/idempotency_repo.go\<close> on a table of rows,
  which provide the contract.

  \<^item> A statement reads and writes the table \<open>idempotency_records\<close> at once, as one SQL statement
    does. It may fail, before or after it took effect: \<open>tb_faults\<close> decides statement by statement.
  \<^item> The widths of the columns are not modelled: an overlong value is a statement that fails.
\<close>

section \<open>The table and its statements\<close>

datatype fault = Succeeds | NotRun | ReplyLost

record idemTable =
  tb_rows :: "idemRecord list"
  tb_nextID :: int
  tb_now :: time
  tb_faults :: "fault list"

definition sqlRun :: "(idemTable \<Rightarrow> 'a \<times> idemTable) \<Rightarrow> idemTable \<Rightarrow> (string + 'a) \<times> idemTable" where
  "sqlRun stmt t =
    (case tb_faults t of
       [] \<Rightarrow> (Inr (fst (stmt t)), snd (stmt t))
     | f # fs \<Rightarrow>
         (let t1 = t\<lparr>tb_faults := fs\<rparr>
          in case f of
               Succeeds \<Rightarrow> (Inr (fst (stmt t1)), snd (stmt t1))
             | NotRun \<Rightarrow> (Inl ''not run'', t1)
             | ReplyLost \<Rightarrow> (Inl ''reply lost'', snd (stmt t1))))"

definition hasKey :: "string \<Rightarrow> string \<Rightarrow> idemRecord \<Rightarrow> bool" where
  "hasKey scope keyHash x \<longleftrightarrow> ir_Scope x = scope \<and> ir_KeyHash x = keyHash"

text \<open>\<open>INSERT ... ON CONFLICT (scope, idempotency_key_hash) DO NOTHING RETURNING id, ...\<close>\<close>

definition insertProcessing :: "idemRecord \<Rightarrow> idemTable \<Rightarrow> (bool \<times> idemRecord) \<times> idemTable" where
  "insertProcessing rec t =
    (let t1 = t\<lparr>tb_nextID := tb_nextID t + 1\<rparr>;
         x = rec\<lparr>ir_ID := tb_nextID t, ir_ResponseStatus := None, ir_ResponseBody := None,
               ir_ErrorReason := None, ir_CreatedAt := tb_now t, ir_UpdatedAt := tb_now t\<rparr>
     in if find (hasKey (ir_Scope rec) (ir_KeyHash rec)) (tb_rows t) \<noteq> None then ((False, rec), t1)
        else ((True, rec\<lparr>ir_ID := tb_nextID t, ir_CreatedAt := tb_now t, ir_UpdatedAt := tb_now t\<rparr>),
              t1\<lparr>tb_rows := tb_rows t @ [x]\<rparr>))"

definition selectByKey :: "string \<Rightarrow> string \<Rightarrow> idemTable \<Rightarrow> idemRecord option \<times> idemTable" where
  "selectByKey scope keyHash t = (find (hasKey scope keyHash) (tb_rows t), t)"

text \<open>\<open>UPDATE ... SET ..., updated_at = NOW() WHERE ...\<close>, with the number of affected rows.\<close>

definition updateWhere ::
  "(idemRecord \<Rightarrow> bool) \<Rightarrow> (idemRecord \<Rightarrow> idemRecord) \<Rightarrow> idemTable \<Rightarrow> int \<times> idemTable" where
  "updateWhere P upd t =
    (int (length (filter P (tb_rows t))),
     t\<lparr>tb_rows := map (\<lambda>x. if P x then (upd x)\<lparr>ir_UpdatedAt := tb_now t\<rparr> else x) (tb_rows t)\<rparr>)"

definition reclaimable :: "int \<Rightarrow> string \<Rightarrow> time \<Rightarrow> idemRecord \<Rightarrow> bool" where
  "reclaimable rid fromStatus now x \<longleftrightarrow>
    ir_ID x = rid \<and> ir_Status x = fromStatus
    \<and> (case ir_LockedUntil x of None \<Rightarrow> True | Some l \<Rightarrow> l \<le> now)"

definition reclaimed :: "time \<Rightarrow> time \<Rightarrow> idemRecord \<Rightarrow> idemRecord" where
  "reclaimed lock expires x = x\<lparr>ir_Status := IdempotencyStatusProcessing, ir_LockedUntil := Some lock,
     ir_ErrorReason := None, ir_ExpiresAt := expires\<rparr>"

definition extendable :: "int \<Rightarrow> string \<Rightarrow> idemRecord \<Rightarrow> bool" where
  "extendable rid fp x \<longleftrightarrow>
    ir_ID x = rid \<and> ir_Status x = IdempotencyStatusProcessing \<and> ir_Fingerprint x = fp"

definition extended :: "time \<Rightarrow> time \<Rightarrow> idemRecord \<Rightarrow> idemRecord" where
  "extended lock expires x = x\<lparr>ir_LockedUntil := Some lock, ir_ExpiresAt := expires\<rparr>"

definition succeeded :: "int \<Rightarrow> string \<Rightarrow> time \<Rightarrow> idemRecord \<Rightarrow> idemRecord" where
  "succeeded respStatus body expires x = x\<lparr>ir_Status := IdempotencyStatusSucceeded,
     ir_ResponseStatus := Some respStatus, ir_ResponseBody := Some body, ir_ErrorReason := None,
     ir_LockedUntil := None, ir_ExpiresAt := expires\<rparr>"

definition failedRetryable :: "string \<Rightarrow> time \<Rightarrow> time \<Rightarrow> idemRecord \<Rightarrow> idemRecord" where
  "failedRetryable reason lock expires x = x\<lparr>ir_Status := IdempotencyStatusFailedRetryable,
     ir_ErrorReason := Some reason, ir_LockedUntil := Some lock, ir_ExpiresAt := expires\<rparr>"

text \<open>The victims: the expired rows, oldest expiry first, up to the limit.\<close>

definition deleteExpiredRows :: "time \<Rightarrow> int \<Rightarrow> idemTable \<Rightarrow> int \<times> idemTable" where
  "deleteExpiredRows now limit0 t =
    (let limit = (if limit0 \<le> 0 then 500 else limit0);
         victims = map ir_ID (take (nat limit)
           (sort_key ir_ExpiresAt (filter (\<lambda>x. ir_ExpiresAt x \<le> now) (tb_rows t))));
         gone = (\<lambda>x. ir_ID x \<in> set victims)
     in (int (length (filter gone (tb_rows t))), t\<lparr>tb_rows := filter (\<lambda>x. \<not> gone x) (tb_rows t)\<rparr>))"

text \<open>A result of the driver is mapped to the result of the method.\<close>

definition affected :: "(string + int) \<times> 'r \<Rightarrow> (string + bool) \<times> 'r" where
  "affected a = (map_sum id (\<lambda>n. n > 0) (fst a), snd a)"

definition errorOnly :: "(string + int) \<times> 'r \<Rightarrow> (string + unit) \<times> 'r" where
  "errorOnly a = (map_sum id (\<lambda>_. ()) (fst a), snd a)"

definition sqlRepo :: "idemTable idemRepo" where
  "sqlRepo = \<lparr>
     CreateProcessing = (\<lambda>rec. sqlRun (insertProcessing rec)),
     GetByScopeAndKeyHash = (\<lambda>scope keyHash. sqlRun (selectByKey scope keyHash)),
     TryReclaim = (\<lambda>rid fromStatus now lock expires t.
       affected (sqlRun (updateWhere (reclaimable rid fromStatus now) (reclaimed lock expires)) t)),
     ExtendProcessingLock = (\<lambda>rid fp lock expires t.
       affected (sqlRun (updateWhere (extendable rid fp) (extended lock expires)) t)),
     MarkSucceeded = (\<lambda>rid respStatus body expires t.
       errorOnly (sqlRun (updateWhere (\<lambda>x. ir_ID x = rid) (succeeded respStatus body expires)) t)),
     MarkFailedRetryable = (\<lambda>rid reason lock expires t.
       errorOnly (sqlRun (updateWhere (\<lambda>x. ir_ID x = rid) (failedRetryable reason lock expires)) t)),
     DeleteExpired = (\<lambda>now limit. sqlRun (deleteExpiredRows now limit))\<rparr>"

section \<open>The contract\<close>

text \<open>A row without the time stamps the database sets.\<close>

definition core :: "idemRecord \<Rightarrow> idemRecord" where
  "core x = x\<lparr>ir_CreatedAt := 0, ir_UpdatedAt := 0\<rparr>"

type_synonym idemView = "string \<times> string \<Rightarrow> idemRecord option"

definition callKey :: "idemCall \<Rightarrow> string \<times> string" where
  "callKey c = (ca_Scope c, ca_KeyHash c)"

definition newRow :: "idemCall \<Rightarrow> int \<Rightarrow> idemRecord" where
  "newRow c i = (callRecord c)\<lparr>ir_ID := i\<rparr>"

lemma core_fields:
  "ir_ID (core x) = ir_ID x" "ir_Status (core x) = ir_Status x" "ir_Scope (core x) = ir_Scope x"
  "ir_KeyHash (core x) = ir_KeyHash x" "ir_Fingerprint (core x) = ir_Fingerprint x"
  "ir_ResponseBody (core x) = ir_ResponseBody x" "ir_LockedUntil (core x) = ir_LockedUntil x"
  "ir_ExpiresAt (core x) = ir_ExpiresAt x"
  by (simp_all add: core_def)

locale idem_store =
  fixes R :: "'r idemRepo" and ok :: "'r \<Rightarrow> bool" and view :: "'r \<Rightarrow> idemView"
  assumes create_new: "ok r \<Longrightarrow> view r (callKey c) = None \<Longrightarrow>
      \<exists>x r' i. CreateProcessing R (callRecord c) r = (Inr (True, x), r') \<and> ir_ID x = i \<and> i \<noteq> 0
        \<and> ok r' \<and> view r' = (view r)(callKey c \<mapsto> newRow c i)"
    and create_dup: "ok r \<Longrightarrow> view r (callKey c) \<noteq> None \<Longrightarrow>
      \<exists>r'. CreateProcessing R (callRecord c) r = (Inr (False, callRecord c), r') \<and> ok r' \<and> view r' = view r"
    and get_row: "ok r \<Longrightarrow>
      \<exists>x r'. GetByScopeAndKeyHash R s h r = (Inr x, r') \<and> ok r' \<and> view r' = view r
        \<and> map_option core x = view r (s, h)"
    and reclaim_row: "ok r \<Longrightarrow> view r k = Some x \<Longrightarrow> ir_ID x = i \<Longrightarrow> reclaimable i from now x \<Longrightarrow>
      \<exists>r'. TryReclaim R i from now l e r = (Inr True, r') \<and> ok r' \<and> view r' = (view r)(k \<mapsto> reclaimed l e x)"
    and extend_row: "ok r \<Longrightarrow> view r k = Some x \<Longrightarrow> ir_ID x = i \<Longrightarrow> extendable i fp x \<Longrightarrow>
      \<exists>r'. ExtendProcessingLock R i fp l e r = (Inr True, r') \<and> ok r' \<and> view r' = (view r)(k \<mapsto> extended l e x)"
    and succeed_row: "ok r \<Longrightarrow> view r k = Some x \<Longrightarrow> ir_ID x = i \<Longrightarrow>
      \<exists>r'. MarkSucceeded R i st b e r = (Inr (), r') \<and> ok r' \<and> view r' = (view r)(k \<mapsto> succeeded st b e x)"
    and fail_row: "ok r \<Longrightarrow> view r k = Some x \<Longrightarrow> ir_ID x = i \<Longrightarrow>
      \<exists>r'. MarkFailedRetryable R i rs l e r = (Inr (), r') \<and> ok r'
        \<and> view r' = (view r)(k \<mapsto> failedRetryable rs l e x)"
    and row_id: "ok r \<Longrightarrow> view r k = Some x \<Longrightarrow> ir_ID x \<noteq> 0"
begin

lemma claim_new:
  assumes "ok r" and "view r (callKey c) = None"
  shows "\<exists>i r'. claimRecord L R c r = (Claimed i, r') \<and> ok r' \<and> i \<noteq> 0
    \<and> view r' = (view r)(callKey c \<mapsto> newRow c i)"
  using create_new [OF assms] by (auto simp: claimRecord_def)

text \<open>A call that finds a row: it is read without its time stamps, which no branch looks at.\<close>

lemma answer_core: "answerExisting L R c (core x) r = answerExisting L R c x r"
  unfolding answerExisting_def core_fields ..

lemma claim_found:
  assumes "ok r" and "view r (callKey c) = Some y"
  shows "\<exists>r1. ok r1 \<and> view r1 = view r \<and>
    (ir_Fingerprint y \<noteq> ca_Fingerprint c \<longrightarrow> claimRecord L R c r = (fails ErrIdempotencyKeyConflict, r1)) \<and>
    (ir_Fingerprint y = ca_Fingerprint c \<and> ca_Now c < ir_ExpiresAt y \<longrightarrow>
      claimRecord L R c r = (let (res, r') = answerExisting L R c y r1
        in if res = Claimed 0 then (unavailable, r') else (res, r')))"
proof -
  from create_dup [OF assms(1)] assms(2) obtain r0 where
    r0: "CreateProcessing R (callRecord c) r = (Inr (False, callRecord c), r0)" "ok r0" "view r0 = view r"
    by auto
  from get_row [OF r0(2), of "ca_Scope c" "ca_KeyHash c"] r0(3) assms(2) obtain x r1 where
    r1: "GetByScopeAndKeyHash R (ca_Scope c) (ca_KeyHash c) r0 = (Inr (Some x), r1)"
      "ok r1" "view r1 = view r" "core x = y"
    by (auto simp: callKey_def)
  have y: "ir_Fingerprint y = ir_Fingerprint x" "ir_ExpiresAt y = ir_ExpiresAt x"
    using r1(4) by (auto simp: core_def)
  have "claimRecord L R c r = (let (res, r') =
      (if ir_Fingerprint x \<noteq> ca_Fingerprint c then (fails ErrIdempotencyKeyConflict, r1)
       else answerExisting L R c x r1) in if res = Claimed 0 then (unavailable, r') else (res, r'))"
    if "ir_Fingerprint x \<noteq> ca_Fingerprint c \<or> ca_Now c < ir_ExpiresAt x"
    using that r0(1) r1(1) by (auto simp: claimRecord_def claimExisting_def)
  with r1 y show ?thesis by (auto simp: answer_core intro!: exI [of _ r1])
qed

lemma claim_replay:
  assumes "ok r" and "view r (callKey c) = Some y" and "ir_Fingerprint y = ca_Fingerprint c"
    and "ca_Now c < ir_ExpiresAt y" and "ir_Status y = IdempotencyStatusSucceeded"
    and "decodeStoredResponse L (ir_ResponseBody y) = d"
  shows "\<exists>r'. ok r' \<and> view r' = view r \<and> claimRecord L R c r =
    ((case d of None \<Rightarrow> unavailable | Some d \<Rightarrow> Answer (Inr \<lparr>er_Data = d, er_Replayed = True\<rparr>)), r')"
  using claim_found [OF assms(1,2), of L] assms(3-6)
  by (auto simp: answerExisting_def idemStatuses split: option.splits)

lemma claim_in_progress:
  assumes "ok r" and "view r (callKey c) = Some y" and "ir_Fingerprint y = ca_Fingerprint c"
    and "ca_Now c < ir_ExpiresAt y" and "ir_Status y = IdempotencyStatusProcessing"
  shows "\<exists>r'. ok r' \<and> view r' = view r \<and> claimRecord L R c r =
    (fails (conflictWithRetryAfter ErrIdempotencyInProgress (ir_LockedUntil y) (ca_Now c)), r')"
  using claim_found [OF assms(1,2), of L] assms(3-5)
  by (auto simp: answerExisting_def idemStatuses)

lemma claim_backoff:
  assumes "ok r" and "view r (callKey c) = Some y" and "ir_Fingerprint y = ca_Fingerprint c"
    and "ca_Now c < ir_ExpiresAt y" and "ir_Status y = IdempotencyStatusFailedRetryable"
    and "ir_LockedUntil y = Some l" and "ca_Now c < l"
  shows "\<exists>r'. ok r' \<and> view r' = view r \<and> claimRecord L R c r =
    (fails (conflictWithRetryAfter ErrIdempotencyRetryBackoff (Some l) (ca_Now c)), r')"
  using claim_found [OF assms(1,2), of L] assms(3-7)
  by (auto simp: answerExisting_def idemStatuses)

lemma claim_retry:
  assumes "ok r" and "view r (callKey c) = Some y" and "ir_Fingerprint y = ca_Fingerprint c"
    and "ca_Now c < ir_ExpiresAt y" and "ir_Status y = IdempotencyStatusFailedRetryable"
    and "ir_LockedUntil y = Some l" and "l \<le> ca_Now c"
  shows "\<exists>r'. ok r' \<and> view r' = (view r)(callKey c \<mapsto> reclaimed (ca_LockedUntil c) (ca_ExpiresAt c) y)
    \<and> claimRecord L R c r = (Claimed (ir_ID y), r')"
proof -
  from claim_found [OF assms(1,2), of L] obtain r1 where r1: "ok r1" "view r1 = view r"
    "claimRecord L R c r = (let (res, r') = answerExisting L R c y r1
        in if res = Claimed 0 then (unavailable, r') else (res, r'))"
    using assms(3,4) by auto
  have "reclaimable (ir_ID y) IdempotencyStatusFailedRetryable (ca_Now c) y"
    using assms(5-7) by (simp add: reclaimable_def)
  from reclaim_row [OF r1(1) _ refl this, of "callKey c" "ca_LockedUntil c" "ca_ExpiresAt c"]
  obtain r2 where "TryReclaim R (ir_ID y) IdempotencyStatusFailedRetryable (ca_Now c) (ca_LockedUntil c)
      (ca_ExpiresAt c) r1 = (Inr True, r2)" "ok r2"
    "view r2 = (view r)(callKey c \<mapsto> reclaimed (ca_LockedUntil c) (ca_ExpiresAt c) y)"
    using assms(2) r1(2) by auto
  then show ?thesis
    using r1(3) assms(3-7) row_id [OF assms(1,2)] by (auto simp: answerExisting_def idemStatuses)
qed

lemma claim_expired:
  assumes "ok r" and "view r (callKey c) = Some y" and "ir_Fingerprint y = ca_Fingerprint c"
    and "ir_ExpiresAt y \<le> ca_Now c" and "case ir_LockedUntil y of None \<Rightarrow> True | Some l \<Rightarrow> l \<le> ca_Now c"
  shows "\<exists>r'. ok r' \<and> view r' = (view r)(callKey c \<mapsto> reclaimed (ca_LockedUntil c) (ca_ExpiresAt c) y)
    \<and> claimRecord L R c r = (Claimed (ir_ID y), r')"
proof -
  from create_dup [OF assms(1)] assms(2) obtain r0 where
    r0: "CreateProcessing R (callRecord c) r = (Inr (False, callRecord c), r0)" "ok r0" "view r0 = view r"
    by auto
  from get_row [OF r0(2), of "ca_Scope c" "ca_KeyHash c"] r0(3) assms(2) obtain x r1 where
    r1: "GetByScopeAndKeyHash R (ca_Scope c) (ca_KeyHash c) r0 = (Inr (Some x), r1)"
      "ok r1" "view r1 = view r" "core x = y"
    by (auto simp: callKey_def)
  have y: "ir_Fingerprint y = ir_Fingerprint x" "ir_ExpiresAt y = ir_ExpiresAt x" "ir_ID y = ir_ID x"
      "ir_Status y = ir_Status x"
    using r1(4) by (auto simp: core_def)
  have "reclaimable (ir_ID y) (ir_Status y) (ca_Now c) y"
    using assms(5) by (simp add: reclaimable_def)
  from reclaim_row [OF r1(2) _ refl this, of "callKey c" "ca_LockedUntil c" "ca_ExpiresAt c"]
  obtain r2 where "TryReclaim R (ir_ID y) (ir_Status y) (ca_Now c) (ca_LockedUntil c)
      (ca_ExpiresAt c) r1 = (Inr True, r2)" "ok r2"
    "view r2 = (view r)(callKey c \<mapsto> reclaimed (ca_LockedUntil c) (ca_ExpiresAt c) y)"
    using assms(2) r1(3) by auto
  then show ?thesis
    using r0(1) r1(1) y assms(3,4) row_id [OF assms(1,2)]
    by (auto simp: claimRecord_def claimExisting_def)
qed

text \<open>Renewal keeps the row the owner's.\<close>

lemma renewal_keeps_row:
  assumes "ok r" and "view r k = Some x" and "extendable i fp x"
  shows "\<exists>r' x'. renewProcessingLease R lease i fp ttl ticks r = r' \<and> ok r'
    \<and> view r' = (view r)(k \<mapsto> x') \<and> extendable i fp x'"
  using assms
proof (induction ticks arbitrary: r x)
  case Nil
  then show ?case by (auto intro!: exI [of _ x])
next
  case (Cons now ticks)
  have i: "ir_ID x = i" using Cons.prems(3) by (simp add: extendable_def)
  from extend_row [OF Cons.prems(1,2) i Cons.prems(3), of "t_add now lease" "t_add now ttl"] obtain r1 where
    r1: "ExtendProcessingLock R i fp (t_add now lease) (t_add now ttl) r = (Inr True, r1)" "ok r1"
      "view r1 = (view r)(k \<mapsto> extended (t_add now lease) (t_add now ttl) x)"
    by auto
  have "extendable i fp (extended (t_add now lease) (t_add now ttl) x)"
    using Cons.prems(3) by (simp add: extendable_def extended_def)
  moreover have "view r1 k = Some (extended (t_add now lease) (t_add now ttl) x)"
    using r1(3) by simp
  ultimately obtain x' where "ok (renewProcessingLease R lease i fp ttl ticks r1)"
      "view (renewProcessingLease R lease i fp ttl ticks r1) = (view r1)(k \<mapsto> x')" "extendable i fp x'"
    using Cons.IH [OF r1(2)] by blast
  then show ?case using r1(1,3) by (auto intro!: exI [of _ x'])
qed

end

section \<open>The table provides the contract\<close>

definition rowKey :: "idemRecord \<Rightarrow> string \<times> string" where
  "rowKey x = (ir_Scope x, ir_KeyHash x)"

definition table_ok :: "idemTable \<Rightarrow> bool" where
  "table_ok t \<longleftrightarrow> 0 < tb_nextID t \<and> distinct (map ir_ID (tb_rows t)) \<and> distinct (map rowKey (tb_rows t))
    \<and> (\<forall>x\<in>set (tb_rows t). 0 < ir_ID x \<and> ir_ID x < tb_nextID t)"

definition tableView :: "idemTable \<Rightarrow> idemView" where
  "tableView t k = map_option core (find (hasKey (fst k) (snd k)) (tb_rows t))"

definition faultFree :: "idemTable \<Rightarrow> bool" where
  "faultFree t \<longleftrightarrow> table_ok t \<and> tb_faults t = []"

lemma find_row: "find P xs = Some x \<Longrightarrow> x \<in> set xs \<and> P x"
  by (induction xs) (auto split: if_splits)

lemma find_mapped: "(\<And>x. P (g x) = P x) \<Longrightarrow> find P (map g xs) = map_option g (find P xs)"
  by (induction xs) auto

lemma find_append_none: "find P xs = None \<Longrightarrow> find P (xs @ ys) = find P ys"
  by (induction xs) (auto split: if_splits)

lemma find_append_some: "find P xs = Some x \<Longrightarrow> find P (xs @ ys) = Some x"
  by (induction xs) (auto split: if_splits)

lemma hasKey_rowKey: "hasKey s h x \<longleftrightarrow> rowKey x = (s, h)"
  by (auto simp: hasKey_def rowKey_def)

lemma rows_inj:
  assumes "table_ok t" and "x \<in> set (tb_rows t)" and "y \<in> set (tb_rows t)"
  shows "ir_ID x = ir_ID y \<longleftrightarrow> x = y" "rowKey x = rowKey y \<longleftrightarrow> x = y"
  using assms by (auto simp: table_ok_def distinct_map dest: inj_onD)

lemma table_ok_update:
  assumes "table_ok t" and "\<And>x. ir_ID (upd x) = ir_ID x" and "\<And>x. rowKey (upd x) = rowKey x"
  shows "table_ok (snd (updateWhere P upd t))"
proof -
  have 1: "ir_ID \<circ> (\<lambda>x. if P x then (upd x)\<lparr>ir_UpdatedAt := tb_now t\<rparr> else x) = ir_ID"
    and 2: "rowKey \<circ> (\<lambda>x. if P x then (upd x)\<lparr>ir_UpdatedAt := tb_now t\<rparr> else x) = rowKey"
    using assms(2,3) by (auto simp: fun_eq_iff rowKey_def)
  show ?thesis
    using assms(1,2) unfolding table_ok_def updateWhere_def by (auto simp: 1 2)
qed

lemma table_ok_insert: "table_ok t \<Longrightarrow> table_ok (snd (insertProcessing rec t))"
  by (fastforce simp: table_ok_def insertProcessing_def Let_def rowKey_def find_None_iff hasKey_def)

lemma table_ok_delete: "table_ok t \<Longrightarrow> table_ok (snd (deleteExpiredRows now lim t))"
  by (auto simp: table_ok_def deleteExpiredRows_def Let_def distinct_map_filter)

lemma view_row:
  assumes "tableView t k = Some x"
  obtains y where "y \<in> set (tb_rows t)" and "core y = x" and "rowKey y = k"
  using assms find_row [of "hasKey (fst k) (snd k)" "tb_rows t"] by (auto simp: tableView_def hasKey_rowKey)

lemma view_update:
  assumes t: "table_ok t" "tableView t k = Some x"
    and P: "P x" "\<And>y. P (core y) = P y" "\<And>y. P y \<Longrightarrow> ir_ID y = ir_ID x"
    and upd: "\<And>y. core (upd y) = upd (core y)" "\<And>y. ir_ID (upd y) = ir_ID y" "\<And>y. rowKey (upd y) = rowKey y"
  shows "tableView (snd (updateWhere P upd t)) = (tableView t)(k \<mapsto> upd x)"
    and "0 < fst (updateWhere P upd t)"
proof -
  let ?g = "\<lambda>x. if P x then (upd x)\<lparr>ir_UpdatedAt := tb_now t\<rparr> else x"
  obtain y where y: "y \<in> set (tb_rows t)" "core y = x" "rowKey y = k"
    by (rule view_row [OF t(2)])
  have Py: "P y" using P(1,2) y(2) by blast
  have idx: "ir_ID x = ir_ID y" using y(2) by (auto simp: core_def)
  show "0 < fst (updateWhere P upd t)"
    using y(1) Py by (auto simp: updateWhere_def filter_empty_conv)
  have g: "hasKey s h (?g z) = hasKey s h z" for s h z
    using upd(3) [of z] by (auto simp: hasKey_def rowKey_def)
  show "tableView (snd (updateWhere P upd t)) = (tableView t)(k \<mapsto> upd x)"
  proof
    fix k'
    have *: "tableView (snd (updateWhere P upd t)) k' =
        map_option (core \<circ> ?g) (find (hasKey (fst k') (snd k')) (tb_rows t))"
      unfolding tableView_def updateWhere_def
      by (simp add: find_mapped [of "hasKey (fst k') (snd k')" ?g, OF g] option.map_comp)
    show "tableView (snd (updateWhere P upd t)) k' = ((tableView t)(k \<mapsto> upd x)) k'"
    proof (cases "find (hasKey (fst k') (snd k')) (tb_rows t)")
      case None
      then have "k' \<noteq> k" using t(2) by (auto simp: tableView_def)
      with None * show ?thesis by (simp add: tableView_def)
    next
      case (Some z)
      from find_row [OF Some] have z: "z \<in> set (tb_rows t)" "rowKey z = k'"
        by (auto simp: hasKey_rowKey)
      show ?thesis
      proof (cases "k' = k")
        case True
        with z y rows_inj(2) [OF t(1)] have "z = y" by metis
        have "core ((upd y)\<lparr>ir_UpdatedAt := u\<rparr>) = upd x" for u
          using upd(1) [of y] y(2) by (simp add: core_def)
        with \<open>z = y\<close> True * Some Py show ?thesis by simp
      next
        case False
        with z y have "z \<noteq> y" by auto
        with z(1) y(1) rows_inj(1) [OF t(1)] idx P(3) [of z] have "\<not> P z" by metis
        with False * Some show ?thesis by (simp add: tableView_def)
      qed
    qed
  qed
qed

lemmas rowUpdates = reclaimed_def extended_def succeeded_def failedRetryable_def

lemma upd_core:
  "core (reclaimed l e y) = reclaimed l e (core y)" "core (extended l e y) = extended l e (core y)"
  "core (succeeded st b e y) = succeeded st b e (core y)"
  "core (failedRetryable rs l e y) = failedRetryable rs l e (core y)"
  by (simp_all add: core_def rowUpdates)

lemma upd_ID [simp]:
  "ir_ID (reclaimed l e y) = ir_ID y" "ir_ID (extended l e y) = ir_ID y"
  "ir_ID (succeeded st b e y) = ir_ID y" "ir_ID (failedRetryable rs l e y) = ir_ID y"
  by (simp_all add: rowUpdates)

lemma upd_rowKey [simp]:
  "rowKey (reclaimed l e y) = rowKey y" "rowKey (extended l e y) = rowKey y"
  "rowKey (succeeded st b e y) = rowKey y" "rowKey (failedRetryable rs l e y) = rowKey y"
  by (simp_all add: rowUpdates rowKey_def)

lemma sqlRun_ok: "tb_faults t = [] \<Longrightarrow> sqlRun stmt t = (Inr (fst (stmt t)), snd (stmt t))"
  by (simp add: sqlRun_def)

lemma updateWhere_faults: "tb_faults (snd (updateWhere P upd t)) = tb_faults t"
  by (simp add: updateWhere_def)

lemma update_effect:
  assumes "faultFree t" "tableView t k = Some x"
    and "P x" "\<And>y. P (core y) = P y" "\<And>y. P y \<Longrightarrow> ir_ID y = ir_ID x"
    and "\<And>y. core (upd y) = upd (core y)" "\<And>y. ir_ID (upd y) = ir_ID y" "\<And>y. rowKey (upd y) = rowKey y"
  shows "\<exists>n t'. sqlRun (updateWhere P upd) t = (Inr n, t') \<and> 0 < n \<and> faultFree t'
    \<and> tableView t' = (tableView t)(k \<mapsto> upd x)"
proof -
  have t: "table_ok t" "tb_faults t = []" using assms(1) by (auto simp: faultFree_def)
  have 1: "tableView (snd (updateWhere P upd t)) = (tableView t)(k \<mapsto> upd x)"
    by (rule view_update(1) [where P = P and upd = upd, OF t(1) assms(2-8)])
  have 2: "0 < fst (updateWhere P upd t)"
    by (rule view_update(2) [where P = P and upd = upd, OF t(1) assms(2-8)])
  have 3: "table_ok (snd (updateWhere P upd t))"
    by (rule table_ok_update [OF t(1) assms(7,8)])
  from 1 2 3 show ?thesis
    using t(2) by (simp add: sqlRun_ok faultFree_def updateWhere_faults)
qed

lemma insert_new:
  assumes "faultFree t" and "tableView t (callKey c) = None"
  shows "\<exists>x t' i. CreateProcessing sqlRepo (callRecord c) t = (Inr (True, x), t') \<and> ir_ID x = i \<and> i \<noteq> 0
    \<and> faultFree t' \<and> tableView t' = (tableView t)(callKey c \<mapsto> newRow c i)"
proof -
  let ?i = "tb_nextID t"
  let ?t' = "snd (insertProcessing (callRecord c) t)"
  have t: "table_ok t" "tb_faults t = []" using assms(1) by (auto simp: faultFree_def)
  have none: "find (hasKey (ca_Scope c) (ca_KeyHash c)) (tb_rows t) = None"
    using assms(2) by (simp add: tableView_def callKey_def)
  let ?x = "(callRecord c)\<lparr>ir_ID := ?i, ir_CreatedAt := tb_now t, ir_UpdatedAt := tb_now t\<rparr>"
  have run: "CreateProcessing sqlRepo (callRecord c) t = (Inr (True, ?x), ?t')"
    using none t(2) by (simp add: sqlRepo_def sqlRun_ok insertProcessing_def Let_def callRecord_def)
  have rows: "tb_rows ?t' = tb_rows t @ [?x]"
    using none by (simp add: insertProcessing_def Let_def callRecord_def)
  have view: "tableView ?t' k = ((tableView t)(callKey c \<mapsto> newRow c ?i)) k" for k
  proof (cases "k = callKey c")
    case True
    with none rows show ?thesis
      by (simp add: tableView_def find_append_none hasKey_def callKey_def newRow_def callRecord_def core_def)
  next
    case False
    then have "\<not> hasKey (fst k) (snd k) ?x"
      by (auto simp: hasKey_def callKey_def callRecord_def prod_eq_iff)
    then have "find (hasKey (fst k) (snd k)) (tb_rows t @ [?x]) = find (hasKey (fst k) (snd k)) (tb_rows t)"
      by (cases "find (hasKey (fst k) (snd k)) (tb_rows t)") (simp_all add: find_append_none find_append_some)
    with False rows show ?thesis by (simp add: tableView_def)
  qed
  have "faultFree ?t'"
    using table_ok_insert [OF t(1), of "callRecord c"] t(2) by (simp add: faultFree_def insertProcessing_def Let_def)
  with run view t(1) show ?thesis
    by (intro exI [of _ ?x] exI [of _ ?t'] exI [of _ ?i]) (simp add: table_ok_def fun_eq_iff)
qed

lemma insert_dup:
  assumes "faultFree t" and "tableView t (callKey c) \<noteq> None"
  shows "\<exists>t'. CreateProcessing sqlRepo (callRecord c) t = (Inr (False, callRecord c), t') \<and> faultFree t'
    \<and> tableView t' = tableView t"
proof -
  have "find (hasKey (ca_Scope c) (ca_KeyHash c)) (tb_rows t) \<noteq> None"
    using assms(2) by (simp add: tableView_def callKey_def)
  then have "insertProcessing (callRecord c) t = ((False, callRecord c), t\<lparr>tb_nextID := tb_nextID t + 1\<rparr>)"
    by (simp add: insertProcessing_def Let_def callRecord_def)
  moreover have "tableView (t\<lparr>tb_nextID := tb_nextID t + 1\<rparr>) = tableView t"
    by (simp add: tableView_def fun_eq_iff)
  moreover have "faultFree (t\<lparr>tb_nextID := tb_nextID t + 1\<rparr>)"
    using assms(1) by (auto simp: faultFree_def table_ok_def)
  ultimately show ?thesis
    using assms(1) by (simp add: sqlRepo_def sqlRun_ok faultFree_def)
qed

interpretation sql_store: idem_store sqlRepo faultFree tableView
proof unfold_locales
  fix t :: idemTable and c
  assume "faultFree t" "tableView t (callKey c) = None"
  then show "\<exists>x r' i. CreateProcessing sqlRepo (callRecord c) t = (Inr (True, x), r') \<and> ir_ID x = i \<and> i \<noteq> 0
        \<and> faultFree r' \<and> tableView r' = (tableView t)(callKey c \<mapsto> newRow c i)"
    by (rule insert_new)
next
  fix t :: idemTable and c
  assume "faultFree t" "tableView t (callKey c) \<noteq> None"
  then show "\<exists>r'. CreateProcessing sqlRepo (callRecord c) t = (Inr (False, callRecord c), r')
      \<and> faultFree r' \<and> tableView r' = tableView t"
    by (rule insert_dup)
next
  fix t :: idemTable and s h
  assume "faultFree t"
  then show "\<exists>x r'. GetByScopeAndKeyHash sqlRepo s h t = (Inr x, r') \<and> faultFree r' \<and> tableView r' = tableView t
        \<and> map_option core x = tableView t (s, h)"
    by (simp add: sqlRepo_def sqlRun_ok faultFree_def selectByKey_def tableView_def)
next
  fix t :: idemTable and k x i st n l e
  assume *: "faultFree t" "tableView t k = Some x" "ir_ID x = i" "reclaimable i st n x"
  have "\<exists>m t'. sqlRun (updateWhere (reclaimable i st n) (reclaimed l e)) t = (Inr m, t') \<and> 0 < m
      \<and> faultFree t' \<and> tableView t' = (tableView t)(k \<mapsto> reclaimed l e x)"
    using * by (intro update_effect) (auto simp: core_fields upd_core reclaimable_def)
  then show "\<exists>r'. TryReclaim sqlRepo i st n l e t = (Inr True, r') \<and> faultFree r'
      \<and> tableView r' = (tableView t)(k \<mapsto> reclaimed l e x)"
    by (auto simp: sqlRepo_def affected_def)
next
  fix t :: idemTable and k x i fp l e
  assume *: "faultFree t" "tableView t k = Some x" "ir_ID x = i" "extendable i fp x"
  have "\<exists>n t'. sqlRun (updateWhere (extendable i fp) (extended l e)) t = (Inr n, t') \<and> 0 < n
      \<and> faultFree t' \<and> tableView t' = (tableView t)(k \<mapsto> extended l e x)"
    using * by (intro update_effect) (auto simp: core_fields upd_core extendable_def)
  then show "\<exists>r'. ExtendProcessingLock sqlRepo i fp l e t = (Inr True, r') \<and> faultFree r'
      \<and> tableView r' = (tableView t)(k \<mapsto> extended l e x)"
    by (auto simp: sqlRepo_def affected_def)
next
  fix t :: idemTable and k x i st b e
  assume *: "faultFree t" "tableView t k = Some x" "ir_ID x = i"
  have "\<exists>n t'. sqlRun (updateWhere (\<lambda>x. ir_ID x = i) (succeeded st b e)) t = (Inr n, t') \<and> 0 < n
      \<and> faultFree t' \<and> tableView t' = (tableView t)(k \<mapsto> succeeded st b e x)"
    using * by (intro update_effect) (auto simp: core_fields upd_core)
  then show "\<exists>r'. MarkSucceeded sqlRepo i st b e t = (Inr (), r') \<and> faultFree r'
      \<and> tableView r' = (tableView t)(k \<mapsto> succeeded st b e x)"
    by (auto simp: sqlRepo_def errorOnly_def)
next
  fix t :: idemTable and k x i rs l e
  assume *: "faultFree t" "tableView t k = Some x" "ir_ID x = i"
  have "\<exists>n t'. sqlRun (updateWhere (\<lambda>x. ir_ID x = i) (failedRetryable rs l e)) t = (Inr n, t') \<and> 0 < n
      \<and> faultFree t' \<and> tableView t' = (tableView t)(k \<mapsto> failedRetryable rs l e x)"
    using * by (intro update_effect) (auto simp: core_fields upd_core)
  then show "\<exists>r'. MarkFailedRetryable sqlRepo i rs l e t = (Inr (), r') \<and> faultFree r'
      \<and> tableView r' = (tableView t)(k \<mapsto> failedRetryable rs l e x)"
    by (auto simp: sqlRepo_def errorOnly_def)
next
  fix t :: idemTable and k x
  assume "faultFree t" "tableView t k = Some x"
  then show "ir_ID x \<noteq> 0"
    by (auto simp: faultFree_def table_ok_def core_fields elim!: view_row)
qed

end
