(* ===== verification/IdempotencyFacts.thy ===== *)
theory IdempotencyFacts
  imports IdempotencyStore
begin

text \<open>
  What a caller of the coordinator may rely on: an execution per key, replays, conflicts, backoff,
  \<open>Retry-After\<close>, and the stored text of a response.
\<close>

section \<open>A call that reaches the store\<close>

definition callOf ::
  "'d idemLib \<Rightarrow> idemConfig \<Rightarrow> 'd idemOptions \<Rightarrow> time \<Rightarrow> idemCall option" where
  "callOf L cfg opts now =
    (case NormalizeIdempotencyKey (io_IdempotencyKey opts) of
       Inl _ \<Rightarrow> None
     | Inr key \<Rightarrow>
         if key = [] \<or> io_Scope opts = [] then None
         else (case BuildIdempotencyFingerprint L (io_Method opts) (io_Route opts) (io_ActorScope opts)
                 (io_Payload opts) of
             Inl _ \<Rightarrow> None
           | Inr fp \<Rightarrow> Some (idemCallOf L cfg opts now key fp)))"

text \<open>The expiry under which the outcome of a call is stored.\<close>

definition outcomeExpiry :: "idemConfig \<Rightarrow> 'd idemOptions \<Rightarrow> callTimes \<Rightarrow> time" where
  "outcomeExpiry cfg opts tm =
    t_add (if 0 < io_ExecutionTimeout opts then ct_Finish tm else ct_Start tm) (effectiveTTL cfg opts)"

definition failureReason :: "goError \<Rightarrow> string" where
  "failureReason err = (if Reason err = [] then ''EXECUTION_FAILED'' else Reason err)"

lemma callOf_fields:
  assumes "callOf L cfg opts now = Some c"
  shows "ca_Now c = now" "ca_LockedUntil c = t_add now (ic_ProcessingTimeout cfg)"
    "ca_ExpiresAt c = t_add now (effectiveTTL cfg opts)"
  using assms by (auto simp: callOf_def idemCallOf_def split: sum.splits if_splits)

lemma execute_answered:
  assumes "callOf L cfg opts (ct_Start tm) = Some c" and "claimRecord L R c r = (Answer a, r1)"
  shows "Execute L (Some R) cfg opts tm (Some run) r w = (a, r1, w)"
  using assms by (auto simp: Execute_def callOf_def split: sum.splits if_splits)

lemma execute_claimed:
  assumes "callOf L cfg opts (ct_Start tm) = Some c" and "claimRecord L R c r = (Claimed i, r1)"
    and "run w = (outcome, w1)"
    and "(if 0 < io_ExecutionTimeout opts
          then renewProcessingLease R (renewalLease cfg) i (ca_Fingerprint c) (effectiveTTL cfg opts) (ct_Ticks tm) r1
          else r1) = r2"
    and "storeOutcome L R cfg i (outcomeExpiry cfg opts tm) (ct_Backoff tm) outcome r2 = (res, r3)"
  shows "Execute L (Some R) cfg opts tm (Some run) r w = (res, r3, w1)"
  using assms
  by (auto simp: Execute_def callOf_def outcomeExpiry_def idemCallOf_def split: sum.splits if_splits)

context idem_store
begin

lemma claimed_row:
  assumes "ok r1" and "view r1 k = Some x" and "extendable i fp x"
  shows "\<exists>x2. ok (if detached then renewProcessingLease R lease i fp ttl ticks r1 else r1)
    \<and> view (if detached then renewProcessingLease R lease i fp ttl ticks r1 else r1) = (view r1)(k \<mapsto> x2)
    \<and> extendable i fp x2"
proof (cases detached)
  case True
  with renewal_keeps_row [OF assms, of lease ttl ticks] show ?thesis by simp
next
  case False
  with assms show ?thesis by (intro exI [of _ x]) (simp add: fun_upd_idem)
qed

lemma claimed_success:
  assumes c: "callOf L cfg opts (ct_Start tm) = Some c" and cl: "claimRecord L R c r = (Claimed i, r1)"
    and r1: "ok r1" "view r1 k = Some x" "extendable i (ca_Fingerprint c) x"
    and run: "run w = (Inr d, w1)" and body: "marshalStoredResponse L cfg d = Some b"
  shows "\<exists>r' x'. Execute L (Some R) cfg opts tm (Some run) r w = (Inr \<lparr>er_Data = d, er_Replayed = False\<rparr>, r', w1)
    \<and> ok r' \<and> view r' = (view r1)(k \<mapsto> succeeded 200 b (outcomeExpiry cfg opts tm) x')
    \<and> ir_ID x' = i \<and> ir_Fingerprint x' = ca_Fingerprint c"
proof -
  let ?r2 = "if 0 < io_ExecutionTimeout opts
    then renewProcessingLease R (renewalLease cfg) i (ca_Fingerprint c) (effectiveTTL cfg opts) (ct_Ticks tm) r1
    else r1"
  obtain x2 where r2: "ok ?r2" "view ?r2 = (view r1)(k \<mapsto> x2)" "extendable i (ca_Fingerprint c) x2"
    using claimed_row [OF r1] by blast
  have i: "ir_ID x2 = i" using r2(3) by (simp add: extendable_def)
  from succeed_row [OF r2(1) _ i, of k 200 b "outcomeExpiry cfg opts tm"] r2(2) obtain r3 where
    r3: "MarkSucceeded R i 200 b (outcomeExpiry cfg opts tm) ?r2 = (Inr (), r3)" "ok r3"
      "view r3 = (view r1)(k \<mapsto> succeeded 200 b (outcomeExpiry cfg opts tm) x2)"
    by auto
  have "storeOutcome L R cfg i (outcomeExpiry cfg opts tm) (ct_Backoff tm) (Inr d) ?r2
      = (Inr \<lparr>er_Data = d, er_Replayed = False\<rparr>, r3)"
    using body r3(1) by (simp add: storeOutcome_def)
  from execute_claimed [where run = run, OF c cl run refl this] r3 i r2(3) show ?thesis
    by (auto simp: extendable_def)
qed

lemma claimed_failure:
  assumes c: "callOf L cfg opts (ct_Start tm) = Some c" and cl: "claimRecord L R c r = (Claimed i, r1)"
    and r1: "ok r1" "view r1 k = Some x" "extendable i (ca_Fingerprint c) x"
    and run: "run w = (Inl err, w1)"
  shows "\<exists>r' x'. Execute L (Some R) cfg opts tm (Some run) r w = (Inl err, r', w1)
    \<and> ok r' \<and> view r' = (view r1)(k \<mapsto> failedRetryable (failureReason err)
          (t_add (ct_Backoff tm) (ic_FailedRetryBackoff cfg)) (outcomeExpiry cfg opts tm) x')
    \<and> ir_ID x' = i \<and> ir_Fingerprint x' = ca_Fingerprint c"
proof -
  let ?r2 = "if 0 < io_ExecutionTimeout opts
    then renewProcessingLease R (renewalLease cfg) i (ca_Fingerprint c) (effectiveTTL cfg opts) (ct_Ticks tm) r1
    else r1"
  let ?l = "t_add (ct_Backoff tm) (ic_FailedRetryBackoff cfg)"
  obtain x2 where r2: "ok ?r2" "view ?r2 = (view r1)(k \<mapsto> x2)" "extendable i (ca_Fingerprint c) x2"
    using claimed_row [OF r1] by blast
  have i: "ir_ID x2 = i" using r2(3) by (simp add: extendable_def)
  from fail_row [OF r2(1) _ i, of k "failureReason err" ?l "outcomeExpiry cfg opts tm"] r2(2) obtain r3 where
    r3: "MarkFailedRetryable R i (failureReason err) ?l (outcomeExpiry cfg opts tm) ?r2 = (Inr (), r3)" "ok r3"
      "view r3 = (view r1)(k \<mapsto> failedRetryable (failureReason err) ?l (outcomeExpiry cfg opts tm) x2)"
    by auto
  have "storeOutcome L R cfg i (outcomeExpiry cfg opts tm) (ct_Backoff tm) (Inl err) ?r2 = (Inl err, r3)"
    using r3(1) by (simp add: storeOutcome_def failureReason_def)
  from execute_claimed [where run = run, OF c cl run refl this] r3 i r2(3) show ?thesis
    by (auto simp: extendable_def)
qed

text \<open>A first call, and a call that reclaims a row, own a row they may extend.\<close>

lemma new_extendable: "extendable i (ca_Fingerprint c) (newRow c i)"
  by (simp add: extendable_def newRow_def callRecord_def)

lemma reclaimed_extendable:
  "ir_Fingerprint y = ca_Fingerprint c \<Longrightarrow> extendable (ir_ID y) (ca_Fingerprint c) (reclaimed l e y)"
  by (simp add: extendable_def reclaimed_def)

end

section \<open>Sequences of calls\<close>

fun runCalls ::
  "'d idemLib \<Rightarrow> 'r idemRepo \<Rightarrow> idemConfig \<Rightarrow> ('w \<Rightarrow> (goError + 'd) \<times> 'w) \<Rightarrow> ('d idemOptions \<times> callTimes) list
   \<Rightarrow> 'r \<Rightarrow> 'w \<Rightarrow> (goError + 'd idemResult) list \<times> 'r \<times> 'w" where
  "runCalls L R cfg run [] r w = ([], r, w)"
| "runCalls L R cfg run ((opts, tm) # calls) r w =
    (let (res, r1, w1) = Execute L (Some R) cfg opts tm (Some run) r w;
         (rest, r2, w2) = runCalls L R cfg run calls r1 w1
     in (res # rest, r2, w2))"

text \<open>The answer to a repeated call, from its decoded stored response.\<close>

definition replayOf :: "'d option \<Rightarrow> goError + 'd idemResult" where
  "replayOf stored =
    (case stored of None \<Rightarrow> Inl (AppError ErrIdempotencyStoreUnavail)
     | Some d \<Rightarrow> Inr \<lparr>er_Data = d, er_Replayed = True\<rparr>)"

text \<open>A call with the key and the payload of \<open>c\<close> that starts before \<open>e\<close>.\<close>

definition repeats :: "'d idemLib \<Rightarrow> idemConfig \<Rightarrow> idemCall \<Rightarrow> time \<Rightarrow> 'd idemOptions \<times> callTimes \<Rightarrow> bool" where
  "repeats L cfg c e call =
    (case callOf L cfg (fst call) (ct_Start (snd call)) of
       None \<Rightarrow> False
     | Some c' \<Rightarrow> callKey c' = callKey c \<and> ca_Fingerprint c' = ca_Fingerprint c \<and> ct_Start (snd call) < e)"

lemma repeatsE:
  assumes "repeats L cfg c e (opts, tm)"
  obtains c' where "callOf L cfg opts (ct_Start tm) = Some c'" and "callKey c' = callKey c"
    and "ca_Fingerprint c' = ca_Fingerprint c" and "ca_Now c' < e"
  using assms callOf_fields(1) [of L cfg opts "ct_Start tm"] by (auto simp: repeats_def split: option.splits)

context idem_store
begin

lemma replays:
  assumes "ok r" and "view r (callKey c) = Some y" and "ir_Fingerprint y = ca_Fingerprint c"
    and "ir_Status y = IdempotencyStatusSucceeded"
    and "decodeStoredResponse L (ir_ResponseBody y) = d" and "list_all (repeats L cfg c (ir_ExpiresAt y)) calls"
  shows "\<exists>r'. runCalls L R cfg run calls r w
      = (replicate (length calls) (replayOf d), r', w) \<and> ok r' \<and> view r' = view r"
  using assms
proof (induction calls arbitrary: r)
  case Nil
  then show ?case by simp
next
  case (Cons call calls)
  obtain opts tm where call: "call = (opts, tm)" by (cases call)
  obtain c' where c': "callOf L cfg opts (ct_Start tm) = Some c'" "callKey c' = callKey c"
      "ca_Fingerprint c' = ca_Fingerprint c" "ca_Now c' < ir_ExpiresAt y"
    using Cons.prems(6) call by (auto elim!: repeatsE)
  obtain r1 where r1: "ok r1" "view r1 = view r"
      "claimRecord L R c' r = (Answer (replayOf d), r1)"
    using claim_replay [OF Cons.prems(1), of c' y L d] c' Cons.prems(2-5)
    by (cases d) (auto simp: replayOf_def)
  have "Execute L (Some R) cfg opts tm (Some run) r w = (replayOf d, r1, w)"
    by (rule execute_answered [OF c'(1) r1(3)])
  with Cons.IH [OF r1(1)] r1(2) Cons.prems(2-6) call show ?case by auto
qed

lemma executed_once:
  assumes "ok r" and "callOf L cfg opts (ct_Start tm) = Some c" and "view r (callKey c) = None"
    and "run w = (Inr d, w1)" and "marshalStoredResponse L cfg d = Some b"
    and "decodeStoredResponse L (Some b) = d'"
    and "list_all (repeats L cfg c (outcomeExpiry cfg opts tm)) calls"
  shows "\<exists>r'. runCalls L R cfg run ((opts, tm) # calls) r w
      = (Inr \<lparr>er_Data = d, er_Replayed = False\<rparr>
           # replicate (length calls) (replayOf d'), r', w1)"
proof -
  obtain i r1 where r1: "claimRecord L R c r = (Claimed i, r1)" "ok r1" "i \<noteq> 0"
      "view r1 = (view r)(callKey c \<mapsto> newRow c i)"
    using claim_new [OF assms(1,3)] by blast
  have "view r1 (callKey c) = Some (newRow c i)" using r1(4) by simp
  from claimed_success [where run = run, OF assms(2) r1(1,2) this new_extendable assms(4,5)] obtain r2 x where
    r2: "Execute L (Some R) cfg opts tm (Some run) r w = (Inr \<lparr>er_Data = d, er_Replayed = False\<rparr>, r2, w1)"
      "ok r2" "view r2 = (view r1)(callKey c \<mapsto> succeeded 200 b (outcomeExpiry cfg opts tm) x)"
      "ir_Fingerprint x = ca_Fingerprint c"
    by blast
  let ?y = "succeeded 200 b (outcomeExpiry cfg opts tm) x"
  have y: "view r2 (callKey c) = Some ?y" "ir_Fingerprint ?y = ca_Fingerprint c"
      "ir_Status ?y = IdempotencyStatusSucceeded" "decodeStoredResponse L (ir_ResponseBody ?y) = d'"
      "list_all (repeats L cfg c (ir_ExpiresAt ?y)) calls"
    using r2(3,4) assms(6,7) by (simp_all add: succeeded_def)
  from replays [OF r2(2) y, of run w1] r2(1) show ?thesis by auto
qed

lemma other_payload_conflicts:
  assumes "ok r" and "callOf L cfg opts (ct_Start tm) = Some c" and "view r (callKey c) = Some y"
    and "ir_Fingerprint y \<noteq> ca_Fingerprint c"
  shows "\<exists>r'. Execute L (Some R) cfg opts tm (Some run) r w = (Inl (AppError ErrIdempotencyKeyConflict), r', w)
    \<and> view r' = view r"
  using claim_found [OF assms(1,3), of L] assms(4) execute_answered [OF assms(2)] by metis

lemma processing_conflicts:
  assumes "ok r" and "callOf L cfg opts (ct_Start tm) = Some c" and "view r (callKey c) = Some y"
    and "ir_Fingerprint y = ca_Fingerprint c" and "ir_Status y = IdempotencyStatusProcessing"
    and "ct_Start tm < ir_ExpiresAt y"
  shows "\<exists>r'. Execute L (Some R) cfg opts tm (Some run) r w
      = (Inl (AppError (conflictWithRetryAfter ErrIdempotencyInProgress (ir_LockedUntil y) (ct_Start tm))), r', w)
    \<and> view r' = view r"
  using claim_in_progress [OF assms(1,3,4) _ assms(5), of L] assms(6) execute_answered [OF assms(2)]
  by (metis callOf_fields(1) [OF assms(2)])

lemma expired_processing_reclaimed:
  assumes "ok r" and "callOf L cfg opts (ct_Start tm) = Some c" and "view r (callKey c) = Some y"
    and "ir_Fingerprint y = ca_Fingerprint c" and "ir_ExpiresAt y \<le> ct_Start tm"
    and "case ir_LockedUntil y of None \<Rightarrow> True | Some l \<Rightarrow> l \<le> ct_Start tm"
    and "run w = (Inr d, w1)" and "marshalStoredResponse L cfg d = Some b"
  shows "\<exists>r'. Execute L (Some R) cfg opts tm (Some run) r w = (Inr \<lparr>er_Data = d, er_Replayed = False\<rparr>, r', w1)"
proof -
  have now: "ca_Now c = ct_Start tm" by (rule callOf_fields [OF assms(2)])
  obtain r1 where r1: "ok r1" "claimRecord L R c r = (Claimed (ir_ID y), r1)"
      "view r1 = (view r)(callKey c \<mapsto> reclaimed (ca_LockedUntil c) (ca_ExpiresAt c) y)"
    using claim_expired [OF assms(1,3,4), of L] assms(5,6) unfolding now by blast
  have "view r1 (callKey c) = Some (reclaimed (ca_LockedUntil c) (ca_ExpiresAt c) y)" using r1(3) by simp
  from claimed_success [where run = run, OF assms(2) r1(2,1) this reclaimed_extendable [OF assms(4)] assms(7,8)]
  show ?thesis by blast
qed

text \<open>After a failed execution: conflicts during the backoff, a new execution after it.\<close>

lemma failure_then_retry:
  assumes "ok r" and "callOf L cfg opts (ct_Start tm) = Some c" and "view r (callKey c) = None"
    and "run w = (Inl err, w1)"
    and "repeats L cfg c (outcomeExpiry cfg opts tm) (opts2, tm2)"
    and "until = t_add (ct_Backoff tm) (ic_FailedRetryBackoff cfg)"
  shows "\<exists>r1. Execute L (Some R) cfg opts tm (Some run) r w = (Inl err, r1, w1)
    \<and> (ct_Start tm2 < until \<longrightarrow> (\<exists>r2. Execute L (Some R) cfg opts2 tm2 (Some run2) r1 w1
        = (Inl (AppError (conflictWithRetryAfter ErrIdempotencyRetryBackoff (Some until) (ct_Start tm2))), r2, w1)))
    \<and> (until \<le> ct_Start tm2 \<and> run2 w1 = (Inr d, w2) \<and> marshalStoredResponse L cfg d = Some b
        \<longrightarrow> (\<exists>r2. Execute L (Some R) cfg opts2 tm2 (Some run2) r1 w1
          = (Inr \<lparr>er_Data = d, er_Replayed = False\<rparr>, r2, w2)))"
proof -
  obtain i r1 where r1: "claimRecord L R c r = (Claimed i, r1)" "ok r1" "i \<noteq> 0"
      "view r1 = (view r)(callKey c \<mapsto> newRow c i)"
    using claim_new [OF assms(1,3)] by blast
  have "view r1 (callKey c) = Some (newRow c i)" using r1(4) by simp
  from claimed_failure [where run = run, OF assms(2) r1(1,2) this new_extendable assms(4)] obtain r2 x where
    r2: "Execute L (Some R) cfg opts tm (Some run) r w = (Inl err, r2, w1)" "ok r2"
      "view r2 = (view r1)(callKey c \<mapsto> failedRetryable (failureReason err) until (outcomeExpiry cfg opts tm) x)"
      "ir_Fingerprint x = ca_Fingerprint c"
    unfolding assms(6) by blast
  let ?y = "failedRetryable (failureReason err) until (outcomeExpiry cfg opts tm) x"
  obtain c2 where c2: "callOf L cfg opts2 (ct_Start tm2) = Some c2" "callKey c2 = callKey c"
      "ca_Fingerprint c2 = ca_Fingerprint c" "ca_Now c2 < outcomeExpiry cfg opts tm"
    using assms(5) by (rule repeatsE)
  have now: "ca_Now c2 = ct_Start tm2" by (rule callOf_fields [OF c2(1)])
  have y: "view r2 (callKey c2) = Some ?y" "ir_Fingerprint ?y = ca_Fingerprint c2" "ca_Now c2 < ir_ExpiresAt ?y"
      "ir_Status ?y = IdempotencyStatusFailedRetryable" "ir_LockedUntil ?y = Some until"
    using r2(3,4) c2 by (simp_all add: failedRetryable_def)
  have 1: "\<exists>r3. Execute L (Some R) cfg opts2 tm2 (Some run2) r2 w1
        = (Inl (AppError (conflictWithRetryAfter ErrIdempotencyRetryBackoff (Some until) (ct_Start tm2))), r3, w1)"
    if "ct_Start tm2 < until"
    using claim_backoff [OF r2(2) y, of L] that now execute_answered [OF c2(1)] by metis
  have 2: "\<exists>r3. Execute L (Some R) cfg opts2 tm2 (Some run2) r2 w1
          = (Inr \<lparr>er_Data = d, er_Replayed = False\<rparr>, r3, w2)"
    if h: "until \<le> ct_Start tm2" "run2 w1 = (Inr d, w2)" "marshalStoredResponse L cfg d = Some b"
  proof -
    obtain r3 where r3: "ok r3" "claimRecord L R c2 r2 = (Claimed (ir_ID ?y), r3)"
        "view r3 = (view r2)(callKey c2 \<mapsto> reclaimed (ca_LockedUntil c2) (ca_ExpiresAt c2) ?y)"
      using claim_retry [OF r2(2) y, of L] h(1) now by auto
    have "view r3 (callKey c2) = Some (reclaimed (ca_LockedUntil c2) (ca_ExpiresAt c2) ?y)" using r3(3) by simp
    from claimed_success [where run = run2, OF c2(1) r3(2,1) this reclaimed_extendable [OF y(2)] h(2,3)]
    show ?thesis by blast
  qed
  from r2(1) 1 2 show ?thesis by blast
qed

end

section \<open>Text\<close>

lemma utf8_valid_nil [simp]: "utf8_valid []"
  by (simp add: utf8_valid.simps)

lemma utf8_head_le: "utf8_head s \<le> 4" "utf8_head s \<le> length s"
  by (auto simp: utf8_head_def split: list.splits)

lemma utf8_head_take:
  assumes "utf8_head s \<le> n" and "0 < utf8_head s"
  shows "utf8_head (take n s) = utf8_head s"
proof -
  have "s = [] \<or> (\<exists>a. s = [a]) \<or> (\<exists>a b. s = [a, b]) \<or> (\<exists>a b c. s = [a, b, c]) \<or> (\<exists>a b c d w. s = a # b # c # d # w)"
    by (metis list.exhaust)
  then show ?thesis
    using assms by (elim disjE exE) (simp_all add: utf8_head_def take_Cons' split: if_splits)
qed

lemma utf8_valid_take:
  assumes "utf8_valid s" and "n \<le> length s"
  shows "\<exists>k \<le> n. n < k + 4 \<and> utf8_valid (take k s)"
  using assms
proof (induction s arbitrary: n rule: utf8_valid.induct)
  case (1 s)
  show ?case
  proof (cases "n < utf8_head s")
    case True
    then show ?thesis using utf8_head_le(1) [of s] by (intro exI [of _ 0]) simp
  next
    case False
    show ?thesis
    proof (cases "s = []")
      case True
      with "1.prems" show ?thesis by simp
    next
      case s: False
      from "1.prems"(1) s have h: "0 < utf8_head s" "utf8_valid (drop (utf8_head s) s)"
        using utf8_valid.simps [of s] by (auto split: if_splits)
      have "utf8_head s \<noteq> 0" using h(1) by simp
      moreover have "n - utf8_head s \<le> length (drop (utf8_head s) s)" using "1.prems"(2) by simp
      ultimately obtain k where
        k: "k \<le> n - utf8_head s" "n - utf8_head s < k + 4" "utf8_valid (take k (drop (utf8_head s) s))"
        using "1.IH" [OF s _ h(2)] by blast
      have "utf8_head (take (utf8_head s + k) s) = utf8_head s"
        by (rule utf8_head_take) (simp_all add: h(1))
      with k(3) h(1) have "utf8_valid (take (utf8_head s + k) s)"
        using utf8_valid.simps [of "take (utf8_head s + k) s"] by (simp add: drop_take add.commute)
      with k(1,2) False show ?thesis by (intro exI [of _ "utf8_head s + k"]) auto
    qed
  qed
qed

lemma truncateLoop_le: "truncateLoop s n \<le> n"
  by (induction n) (auto intro: le_SucI)

lemma truncateLoop_valid: "utf8_valid (take (truncateLoop s n) s)"
  by (induction n) auto

lemma truncateLoop_longest: "k \<le> n \<Longrightarrow> utf8_valid (take k s) \<Longrightarrow> k \<le> truncateLoop s n"
proof (induction n)
  case (Suc n)
  then show ?case by (cases "k = Suc n") auto
qed simp

text \<open>Truncation never cuts a character: the result is a prefix within the limit, is valid
UTF-8, no longer prefix within the limit is, and a valid text loses at most three more bytes than
the limit asks for.\<close>

theorem truncate_keeps_characters:
  assumes "0 < n" and "n < int (length s)"
  shows "(let out = truncateUTF8 s n in
      out = take (length out) s \<and> int (length out) \<le> n \<and> utf8_valid out
      \<and> (\<forall>k. int k \<le> n \<longrightarrow> utf8_valid (take k s) \<longrightarrow> k \<le> length out)
      \<and> (utf8_valid s \<longrightarrow> n < int (length out) + 4))"
proof -
  define m where "m = truncateLoop s (nat n)"
  have out: "truncateUTF8 s n = take m s" using assms by (simp add: truncateUTF8_def m_def)
  have m: "m \<le> nat n" "m \<le> length s"
    using truncateLoop_le [of s "nat n"] assms by (auto simp: m_def)
  have longest: "k \<le> m" if "int k \<le> n" "utf8_valid (take k s)" for k
    unfolding m_def by (rule truncateLoop_longest) (use that in auto)
  have "n < int m + 4" if "utf8_valid s"
  proof -
    have "nat n \<le> length s" using assms by simp
    from utf8_valid_take [OF that this] obtain k where
      k: "k \<le> nat n" "nat n < k + 4" "utf8_valid (take k s)" by blast
    have "k \<le> m" by (rule longest) (use k assms in auto)
    with k(2) assms(1) show ?thesis by linarith
  qed
  with m longest truncateLoop_valid [of s "nat n"] assms show ?thesis
    unfolding Let_def out by (auto simp: m_def)
qed

theorem truncate_keeps_characters_witness:
  "truncateUTF8 [CHR ''a'', CHR 0xC3, CHR 0xA9] 2 = ''a'' \<and> utf8_valid [CHR ''a'', CHR 0xC3, CHR 0xA9]
   \<and> utf8_valid (truncateUTF8 [CHR ''a'', CHR 0xC3, CHR 0xA9] 2)"
proof -
  have 1: "truncateUTF8 [CHR ''a'', CHR 0xC3, CHR 0xA9] 2 = ''a''" by code_simp
  have 2: "utf8_valid [CHR ''a'', CHR 0xC3, CHR 0xA9]" by code_simp
  have "utf8_valid (truncateUTF8 [CHR ''a'', CHR 0xC3, CHR 0xA9] 2)"
    using truncate_keeps_characters [of 2 "[CHR ''a'', CHR 0xC3, CHR 0xA9]"] by (simp add: Let_def)
  with 1 2 show ?thesis by blast
qed

lemma trim_space_nonspace:
  assumes "\<not> (\<exists>c\<in>set s. is_space c)"
  shows "trim_space s = s"
proof -
  have d: "dropWhile is_space t = t" if "set t \<subseteq> set s" for t
    using that assms by (cases t) auto
  show ?thesis using d [of s] d [of "rev s"] by (simp add: trim_space_def)
qed

lemma trim_space_not_nil: "c \<in> set s \<Longrightarrow> \<not> is_space c \<Longrightarrow> trim_space s \<noteq> []"
proof -
  assume c: "c \<in> set s" "\<not> is_space c"
  have "set s = set (takeWhile is_space s) \<union> set (dropWhile is_space s)"
    by (metis set_append takeWhile_dropWhile_id)
  with c have "c \<in> set (dropWhile is_space s)" using set_takeWhileD [of c is_space s] by blast
  with c(2) show ?thesis by (auto simp: trim_space_def dropWhile_eq_Nil_conv)
qed

lemma digit_char_not_space: "d < 10 \<Longrightarrow> \<not> is_space (digit_char d)"
  by (simp add: is_space_def char_code_def of_char_digit)

lemma nat_digits_not_space: "c \<in> set (nat_digits n) \<Longrightarrow> \<not> is_space c"
proof (induction n rule: nat_digits.induct)
  case (1 n)
  then show ?case
    by (subst (asm) (2) nat_digits.simps) (auto simp: digit_char_not_space split: if_splits)
qed

lemma t_sub_range: "min_duration \<le> t_sub t u" "t_sub t u \<le> max_duration"
  by (auto simp: t_sub_def duration_defs)

text \<open>The seconds a conflict asks the client to wait are read back from the error as they were
written: the whole seconds to the end of the lock, and at least one.\<close>

theorem retry_after_read_back:
  "RetryAfterSecondsFromError (AppError (conflictWithRetryAfter base (Some l) now))
     = max 1 (go_div (t_sub l now) second)"
proof -
  let ?q = "go_div (t_sub l now) second"
  define s where "s = max 1 ?q"
  have "\<bar>t_sub l now\<bar> \<le> 2 ^ 63"
    using t_sub_range [of l now] by (auto simp: duration_defs abs_le_iff)
  then have "\<bar>t_sub l now\<bar> div second \<le> 2 ^ 63 div second"
    by (simp add: zdiv_mono1 second_def)
  moreover have "0 \<le> \<bar>t_sub l now\<bar> div second" by (simp add: second_def pos_imp_zdiv_nonneg_iff)
  ultimately have "?q \<le> 2 ^ 63 div second"
    unfolding go_div_def by (auto simp: sgn_if second_def abs_if split: if_splits)
  then have s: "1 \<le> s" "s < 2 ^ 63" by (auto simp: s_def second_def)
  have "itoa s = nat_digits (nat s)" using s(1) by (simp add: itoa_def)
  then have "trim_space (itoa s) = itoa s" "itoa s \<noteq> []"
    using trim_space_nonspace [of "itoa s"] nat_digits_not_space nat_digits_nonempty by auto
  moreover have "conflictWithRetryAfter base (Some l) now = WithMetadata base [(''retry_after'', itoa s)]"
    by (simp add: conflictWithRetryAfter_def Let_def s_def max_def)
  ultimately show ?thesis
    using parse_int_itoa [of s] s
    by (simp add: RetryAfterSecondsFromError_def WithMetadata_def s_def)
qed

section \<open>The coordinator on the table\<close>

text \<open>C36. One execution per key: on a store without the key, the first call executes, and every
later call with the same key and payload that starts before the stored expiry answers with the
decoded stored response, marked as replayed, and executes nothing.\<close>

theorem one_execution_per_key:
  assumes "faultFree t" and "callOf L cfg opts (ct_Start tm) = Some c"
    and "tableView t (callKey c) = None" and "run w = (Inr d, w1)"
    and "marshalStoredResponse L cfg d = Some b" and "decodeStoredResponse L (Some b) = Some d'"
    and "list_all (repeats L cfg c (outcomeExpiry cfg opts tm)) calls"
  shows "\<exists>t'. runCalls L sqlRepo cfg run ((opts, tm) # calls) t w
      = (Inr \<lparr>er_Data = d, er_Replayed = False\<rparr>
           # replicate (length calls) (Inr \<lparr>er_Data = d', er_Replayed = True\<rparr>), t', w1)"
  using sql_store.executed_once [where run = run, OF assms] by (simp add: replayOf_def)

text \<open>A store, a library and calls to apply the properties to.\<close>

definition table0 :: idemTable where
  "table0 = \<lparr>tb_rows = [], tb_nextID = 1, tb_now = 5, tb_faults = []\<rparr>"

definition plainLib :: "string idemLib" where
  "plainLib = \<lparr>lib_Sha256 = (\<lambda>s. s), lib_Marshal = Some,
     lib_Unmarshal = (\<lambda>s. if has_suffix s '')'' then None else Some s),
     lib_EmptyObject = ''{}'', lib_RedactText = (\<lambda>s. s)\<rparr>"

definition opts0 :: "string idemOptions" where
  "opts0 = \<lparr>io_Scope = ''s'', io_ActorScope = ''u'', io_Method = ''post'', io_Route = ''/r'',
     io_IdempotencyKey = '' k '', io_Payload = ''1'', io_TTL = 0, io_RequireKey = True,
     io_ExecutionTimeout = 0\<rparr>"

definition at :: "time \<Rightarrow> callTimes" where
  "at t = \<lparr>ct_Start = t, ct_Ticks = [], ct_Finish = t + second, ct_Backoff = t + second\<rparr>"

lemma at_start [simp]: "ct_Start (at t) = t"
  by (simp add: at_def)

definition call0 :: "time \<Rightarrow> idemCall" where
  "call0 t = idemCallOf plainLib DefaultIdempotencyConfig opts0 t ''k'' (hex_encode (''POST'' @ newline @ ''/r'' @ newline @ ''u'' @ newline @ ''1''))"

lemma call0: "callOf plainLib DefaultIdempotencyConfig opts0 t = Some (call0 t)"
proof -
  have "NormalizeIdempotencyKey (io_IdempotencyKey opts0) = Inr ''k''" by code_simp
  moreover have "BuildIdempotencyFingerprint plainLib (io_Method opts0) (io_Route opts0) (io_ActorScope opts0)
      (io_Payload opts0) = Inr (hex_encode (''POST'' @ newline @ ''/r'' @ newline @ ''u'' @ newline @ ''1''))"
    by code_simp
  ultimately show ?thesis by (simp add: callOf_def call0_def opts0_def)
qed

lemma call0_same: "callKey (call0 t) = callKey (call0 u)" "ca_Fingerprint (call0 t) = ca_Fingerprint (call0 u)"
  by (simp_all add: call0_def idemCallOf_def callKey_def)

lemma table0: "faultFree table0" "tableView table0 k = None"
  by (simp_all add: table0_def faultFree_def table_ok_def tableView_def)

lemma expiry0: "outcomeExpiry DefaultIdempotencyConfig opts0 (at t) = t + 24 * hour"
  by (simp add: outcomeExpiry_def opts0_def at_def effectiveTTL_def DefaultIdempotencyConfig_def t_add_def)

lemma repeats0: "u < t + 24 * hour \<Longrightarrow>
    repeats plainLib DefaultIdempotencyConfig (call0 t) (t + 24 * hour) (opts0, at u)"
  by (simp add: repeats_def at_def call0 call0_same [of u t])

lemma stored0: "marshalStoredResponse plainLib DefaultIdempotencyConfig ''ok'' = Some ''ok''"
  "decodeStoredResponse plainLib (Some ''ok'') = Some ''ok''"
  by code_simp+

theorem one_execution_per_key_witness:
  "\<exists>t'. runCalls plainLib sqlRepo DefaultIdempotencyConfig (\<lambda>n. (Inr ''ok'', n + 1))
      ((opts0, at 0) # [(opts0, at 10), (opts0, at (12 * hour))]) table0 (0::int)
    = (Inr \<lparr>er_Data = ''ok'', er_Replayed = False\<rparr>
         # replicate 2 (Inr \<lparr>er_Data = ''ok'', er_Replayed = True\<rparr>), t', 1)"
proof -
  let ?run = "\<lambda>n. (Inr ''ok'', n + 1)" and ?calls = "[(opts0, at 10), (opts0, at (12 * hour))]"
  have c: "callOf plainLib DefaultIdempotencyConfig opts0 (ct_Start (at 0)) = Some (call0 0)"
    by (simp add: call0)
  have l: "list_all (repeats plainLib DefaultIdempotencyConfig (call0 0)
      (outcomeExpiry DefaultIdempotencyConfig opts0 (at 0))) ?calls"
    unfolding expiry0 using repeats0 [of 10 0] repeats0 [of "12 * hour" 0] by (simp add: duration_defs)
  have n: "length ?calls = 2" "?run (0::int) = (Inr ''ok'', 1)" by simp_all
  from one_execution_per_key [where run = ?run, OF table0(1) c table0(2) n(2) stored0 l] show ?thesis
    unfolding n(1) .
qed

text \<open>A key reused with another payload is refused before anything runs, and no row changes.\<close>

theorem other_payload_refused:
  assumes "faultFree t" and "callOf L cfg opts (ct_Start tm) = Some c"
    and "tableView t (callKey c) = Some y" and "ir_Fingerprint y \<noteq> ca_Fingerprint c"
  shows "\<exists>t'. Execute L (Some sqlRepo) cfg opts tm (Some run) t w
      = (Inl (AppError ErrIdempotencyKeyConflict), t', w) \<and> tableView t' = tableView t"
  using sql_store.other_payload_conflicts [OF assms] .

definition table1 :: "idemRecord \<Rightarrow> idemTable" where
  "table1 x = \<lparr>tb_rows = [x], tb_nextID = 2, tb_now = 5, tb_faults = []\<rparr>"

lemma table1:
  assumes "ir_ID x = 1" and "ir_CreatedAt x = 0" and "ir_UpdatedAt x = 0"
  shows "faultFree (table1 x)" "tableView (table1 x) (rowKey x) = Some x"
  using assms by (auto simp: table1_def faultFree_def table_ok_def tableView_def hasKey_def rowKey_def core_def)

lemma row0: "rowKey (newRow (call0 t) i) = callKey (call0 u)" "ir_ID (newRow c i) = i"
  "ir_CreatedAt (newRow c i) = 0" "ir_UpdatedAt (newRow c i) = 0"
  "ir_Fingerprint (newRow c i) = ca_Fingerprint c" "ir_Status (newRow c i) = IdempotencyStatusProcessing"
  "ir_LockedUntil (newRow c i) = Some (ca_LockedUntil c)" "ir_ExpiresAt (newRow c i) = ca_ExpiresAt c"
  by (simp_all add: newRow_def callRecord_def rowKey_def callKey_def call0_def idemCallOf_def)

theorem other_payload_refused_witness:
  "\<exists>t'. Execute plainLib (Some sqlRepo) DefaultIdempotencyConfig opts0 (at 7) (Some (\<lambda>n. (Inr ''ok'', n + 1)))
      (table1 ((newRow (call0 0) 1)\<lparr>ir_Fingerprint := []\<rparr>)) (0::int)
    = (Inl (AppError ErrIdempotencyKeyConflict), t', 0)"
proof -
  let ?x = "(newRow (call0 0) 1)\<lparr>ir_Fingerprint := []\<rparr>"
  have "rowKey ?x = callKey (call0 7)" using row0(1) [of 0 1 7] by (simp add: rowKey_def)
  with table1 [of ?x] have t: "faultFree (table1 ?x)" "tableView (table1 ?x) (callKey (call0 7)) = Some ?x"
    by (simp_all add: row0)
  have c: "callOf plainLib DefaultIdempotencyConfig opts0 (ct_Start (at 7)) = Some (call0 7)"
    by (simp add: call0)
  have "ir_Fingerprint ?x \<noteq> ca_Fingerprint (call0 7)"
    by (simp add: call0_def idemCallOf_def hex_encode_def)
  from other_payload_refused [OF t(1) c t(2) this, where run = "\<lambda>n. (Inr ''ok'', n + 1)" and w = "0::int"]
  show ?thesis by (elim exE conjE) (rule exI)
qed

text \<open>After a failed execution the client is told to back off until the backoff ends, and the
first call after it executes again.\<close>

theorem failure_backs_off_then_retries:
  assumes "faultFree t" and "callOf L cfg opts (ct_Start tm) = Some c"
    and "tableView t (callKey c) = None" and "run w = (Inl err, w1)"
    and "repeats L cfg c (outcomeExpiry cfg opts tm) (opts2, tm2)"
    and "until = t_add (ct_Backoff tm) (ic_FailedRetryBackoff cfg)"
  shows "\<exists>t1. Execute L (Some sqlRepo) cfg opts tm (Some run) t w = (Inl err, t1, w1)
    \<and> (ct_Start tm2 < until \<longrightarrow> (\<exists>t2. Execute L (Some sqlRepo) cfg opts2 tm2 (Some run2) t1 w1
        = (Inl (AppError (conflictWithRetryAfter ErrIdempotencyRetryBackoff (Some until) (ct_Start tm2))), t2, w1)))
    \<and> (until \<le> ct_Start tm2 \<and> run2 w1 = (Inr d, w2) \<and> marshalStoredResponse L cfg d = Some b
        \<longrightarrow> (\<exists>t2. Execute L (Some sqlRepo) cfg opts2 tm2 (Some run2) t1 w1
          = (Inr \<lparr>er_Data = d, er_Replayed = False\<rparr>, t2, w2)))"
  by (rule sql_store.failure_then_retry [where run = run, OF assms])

theorem failure_backs_off_then_retries_witness:
  "\<exists>t1 t2. Execute plainLib (Some sqlRepo) DefaultIdempotencyConfig opts0 (at 0)
       (Some (\<lambda>n. (Inl (PlainError ''boom''), n + 1))) table0 (0::int) = (Inl (PlainError ''boom''), t1, 1)
     \<and> Execute plainLib (Some sqlRepo) DefaultIdempotencyConfig opts0 (at (7 * second))
       (Some (\<lambda>n. (Inr ''ok'', n + 1))) t1 (1::int) = (Inr \<lparr>er_Data = ''ok'', er_Replayed = False\<rparr>, t2, 2)"
proof -
  let ?bad = "\<lambda>n. (Inl (PlainError ''boom''), n + 1)" and ?good = "\<lambda>n. (Inr ''ok'', n + 1)"
  let ?until = "t_add (ct_Backoff (at 0)) (ic_FailedRetryBackoff DefaultIdempotencyConfig)"
  have c: "callOf plainLib DefaultIdempotencyConfig opts0 (ct_Start (at 0)) = Some (call0 0)"
    by (simp add: call0)
  have r: "repeats plainLib DefaultIdempotencyConfig (call0 0)
      (outcomeExpiry DefaultIdempotencyConfig opts0 (at 0)) (opts0, at (7 * second))"
    unfolding expiry0 using repeats0 [of "7 * second" 0] by (simp add: duration_defs)
  have run: "?bad (0::int) = (Inl (PlainError ''boom''), 1)" "?good (1::int) = (Inr ''ok'', 2)" by simp_all
  have u: "?until \<le> ct_Start (at (7 * second))"
    by (simp add: at_def t_add_def DefaultIdempotencyConfig_def duration_defs)
  from failure_backs_off_then_retries [where run = ?bad and ?run2.0 = ?good and d = "''ok''" and b = "''ok''"
      and ?w2.0 = "2::int", OF table0(1) c table0(2) run(1) r refl]
  obtain t1 where 1: "Execute plainLib (Some sqlRepo) DefaultIdempotencyConfig opts0 (at 0) (Some ?bad) table0 (0::int)
        = (Inl (PlainError ''boom''), t1, 1)"
    and 2: "?until \<le> ct_Start (at (7 * second)) \<and> ?good (1::int) = (Inr ''ok'', 2)
        \<and> marshalStoredResponse plainLib DefaultIdempotencyConfig ''ok'' = Some ''ok''
      \<longrightarrow> (\<exists>t2. Execute plainLib (Some sqlRepo) DefaultIdempotencyConfig opts0 (at (7 * second)) (Some ?good) t1 (1::int)
        = (Inr \<lparr>er_Data = ''ok'', er_Replayed = False\<rparr>, t2, (2::int)))"
    by blast
  from mp [OF 2] u run(2) stored0(1) obtain t2 where
    "Execute plainLib (Some sqlRepo) DefaultIdempotencyConfig opts0 (at (7 * second)) (Some ?good) t1 (1::int)
        = (Inr \<lparr>er_Data = ''ok'', er_Replayed = False\<rparr>, t2, 2)" by blast
  with 1 show ?thesis by (intro exI conjI)
qed

text \<open>A row whose owner never finished answers every call with the in-progress conflict until
the row expires, although its lock ran out long before; the first call at or after the expiry
executes.\<close>

theorem processing_until_expiry:
  assumes "faultFree t" and "callOf L cfg opts (ct_Start tm) = Some c"
    and "tableView t (callKey c) = Some y" and "ir_Fingerprint y = ca_Fingerprint c"
    and "ir_Status y = IdempotencyStatusProcessing" and "ir_LockedUntil y = Some l" and "l \<le> ir_ExpiresAt y"
    and "run w = (Inr d, w1)" and "marshalStoredResponse L cfg d = Some b"
  shows "if ct_Start tm < ir_ExpiresAt y
    then \<exists>t'. Execute L (Some sqlRepo) cfg opts tm (Some run) t w
      = (Inl (AppError (conflictWithRetryAfter ErrIdempotencyInProgress (Some l) (ct_Start tm))), t', w)
      \<and> tableView t' = tableView t
    else \<exists>t'. Execute L (Some sqlRepo) cfg opts tm (Some run) t w
      = (Inr \<lparr>er_Data = d, er_Replayed = False\<rparr>, t', w1)"
proof (cases "ct_Start tm < ir_ExpiresAt y")
  case True
  with sql_store.processing_conflicts [OF assms(1-5), of run w] assms(6) show ?thesis by simp
next
  case False
  with sql_store.expired_processing_reclaimed [where run = run, OF assms(1-4) _ _ assms(8,9)] assms(6,7)
  show ?thesis by simp
qed

theorem processing_until_expiry_witness:
  "\<exists>t'. Execute plainLib (Some sqlRepo) DefaultIdempotencyConfig opts0 (at (23 * hour))
      (Some (\<lambda>n. (Inr ''ok'', n + 1))) (table1 (newRow (call0 0) 1)) (0::int)
    = (Inl (AppError (conflictWithRetryAfter ErrIdempotencyInProgress (Some (30 * second)) (23 * hour))), t', 0)"
proof -
  let ?x = "newRow (call0 0) 1" and ?c = "call0 (23 * hour)" and ?run = "\<lambda>n. (Inr ''ok'', n + 1)"
  have t: "faultFree (table1 ?x)" "tableView (table1 ?x) (callKey ?c) = Some ?x"
    using table1 [of ?x] row0(1) [of 0 1 "23 * hour"] by (simp_all add: row0(2-4))
  have c: "callOf plainLib DefaultIdempotencyConfig opts0 (ct_Start (at (23 * hour))) = Some ?c"
    by (simp add: call0)
  have x: "ir_LockedUntil ?x = Some (30 * second)" "ir_ExpiresAt ?x = 24 * hour"
    by (simp_all add: row0 call0_def idemCallOf_def t_add_def effectiveTTL_def opts0_def DefaultIdempotencyConfig_def)
  have run: "?run (0::int) = (Inr ''ok'', 1)" "30 * second \<le> ir_ExpiresAt ?x"
    by (simp_all add: x duration_defs)
  have "ct_Start (at (23 * hour)) < ir_ExpiresAt ?x" by (simp add: x at_def duration_defs)
  moreover have "ct_Start (at (23 * hour)) = 23 * hour" by (simp add: at_def)
  moreover have "ir_Fingerprint ?x = ca_Fingerprint ?c" by (simp add: row0 call0_same)
  ultimately show ?thesis
    using processing_until_expiry [where run = ?run, OF t(1) c t(2) _ row0(6) x(1) run(2,1) stored0(1)] by auto
qed

text \<open>A response too long to store is stored cut and marked, so its text is no JSON value any
more: the first call returns its data, and every repetition of it until the expiry fails with the
store-unavailable error instead of a replay.\<close>

theorem oversized_response_not_replayed:
  assumes "faultFree t" and "callOf L cfg opts (ct_Start tm) = Some c"
    and "tableView t (callKey c) = None" and "run w = (Inr d, w1)"
    and "lib_Marshal L d = Some raw" and "0 < ic_MaxStoredResponseLen cfg"
    and "ic_MaxStoredResponseLen cfg < int (length (lib_RedactText L raw))"
    and "\<And>s. has_suffix s ''...(truncated)'' \<Longrightarrow> lib_Unmarshal L s = None"
    and "list_all (repeats L cfg c (outcomeExpiry cfg opts tm)) calls"
  shows "\<exists>t'. runCalls L sqlRepo cfg run ((opts, tm) # calls) t w
      = (Inr \<lparr>er_Data = d, er_Replayed = False\<rparr>
           # replicate (length calls) (Inl (AppError ErrIdempotencyStoreUnavail)), t', w1)"
proof -
  define b where "b = truncateUTF8 (lib_RedactText L raw) (ic_MaxStoredResponseLen cfg) @ ''...(truncated)''"
  have m: "marshalStoredResponse L cfg d = Some b"
    using assms(5-7) by (simp add: marshalStoredResponse_def b_def)
  have "has_suffix b ''...(truncated)''" by (simp add: b_def has_suffix_def)
  moreover have "CHR '')'' \<in> set b" "\<not> is_space (CHR '')'')"
    by (simp_all add: b_def is_space_def char_code_def)
  then have "trim_space b \<noteq> []" by (rule trim_space_not_nil)
  ultimately have "decodeStoredResponse L (Some b) = None"
    using assms(8) by (simp add: decodeStoredResponse_def)
  from sql_store.executed_once [where run = run, OF assms(1-4) m this assms(9)] show ?thesis
    by (simp add: replayOf_def)
qed


definition tinyConfig :: idemConfig where
  "tinyConfig = DefaultIdempotencyConfig\<lparr>ic_MaxStoredResponseLen := 4\<rparr>"

theorem oversized_response_not_replayed_witness:
  "\<exists>t'. runCalls plainLib sqlRepo tinyConfig (\<lambda>n. (Inr ''0123456789'', n + 1))
      ((opts0, at 0) # [(opts0, at hour)]) table0 (0::int)
    = (Inr \<lparr>er_Data = ''0123456789'', er_Replayed = False\<rparr>
         # replicate 1 (Inl (AppError ErrIdempotencyStoreUnavail)), t', 1)"
proof -
  let ?run = "\<lambda>n. (Inr ''0123456789'', n + 1)" and ?calls = "[(opts0, at hour)]"
  have tiny: "callOf plainLib tinyConfig opts0 t = Some (call0 t)" for t
  proof -
    have "callOf plainLib tinyConfig opts0 t = callOf plainLib DefaultIdempotencyConfig opts0 t"
    proof -
      have eq: "idemCallOf plainLib tinyConfig opts0 = idemCallOf plainLib DefaultIdempotencyConfig opts0"
        by (simp add: fun_eq_iff idemCallOf_def effectiveTTL_def tinyConfig_def)
      show ?thesis unfolding callOf_def eq ..
    qed
    then show ?thesis by (simp add: call0)
  qed
  have c: "callOf plainLib tinyConfig opts0 (ct_Start (at 0)) = Some (call0 0)" by (simp add: tiny)
  have "outcomeExpiry tinyConfig opts0 (at 0) = 24 * hour"
    by (simp add: outcomeExpiry_def opts0_def at_def effectiveTTL_def tinyConfig_def DefaultIdempotencyConfig_def t_add_def)
  then have l: "list_all (repeats plainLib tinyConfig (call0 0) (outcomeExpiry tinyConfig opts0 (at 0))) ?calls"
    using call0_same [of hour 0] by (simp add: repeats_def tiny hour_def minute_def second_def)
  have n: "length ?calls = 1" "?run (0::int) = (Inr ''0123456789'', 1)" by simp_all
  have m: "lib_Marshal plainLib ''0123456789'' = Some ''0123456789''" "0 < ic_MaxStoredResponseLen tinyConfig"
      "ic_MaxStoredResponseLen tinyConfig < int (length (lib_RedactText plainLib ''0123456789''))"
    by (simp_all add: plainLib_def tinyConfig_def)
  have u: "lib_Unmarshal plainLib s = None" if "has_suffix s ''...(truncated)''" for s
  proof -
    have "has_suffix ''...(truncated)'' '')''" by code_simp
    with that have "suffix '')'' s" unfolding has_suffix_iff by (rule suffix_order.trans [rotated])
    then show ?thesis by (simp add: plainLib_def has_suffix_iff)
  qed
  from oversized_response_not_replayed [where run = ?run and w = "0::int" and ?w1.0 = 1 and t = table0
      and L = plainLib and cfg = tinyConfig and opts = opts0 and tm = "at 0" and c = "call0 0"
      and d = "''0123456789''" and raw = "''0123456789''" and calls = ?calls, OF table0(1) c table0(2) n(2) m u l] show ?thesis
    unfolding n(1) .
qed

end
