(* ===== verification/IdempotencyRace.thy ===== *)
theory IdempotencyRace
  imports IdempotencyFacts
begin

text \<open>
  Concurrent calls of the coordinator, interleaved statement by statement.

  \<^item> \<open>claimStep\<close> cuts the claim of \<open>Execute\<close> at its statements; run alone it is \<open>claimRecord\<close>.
  \<^item> \<open>sys_step\<close> interleaves any number of calls, renewals, clean-up rounds and clock ticks over one
    table. A statement may fail before or after it took effect.
  \<^item> The clock is shared. \<open>timely\<close> is what the deployment has to provide: a claim's statements run
    within the processing timeout of its \<open>time.Now()\<close>, and an execution is over before its row
    expires. Under it no key is ever executed twice at a time.
\<close>

section \<open>The claim, statement by statement\<close>

datatype 'd pc =
    AtCreate
  | AtGet
  | AtReclaimExpired idemRecord
  | AtGetLatest
  | AtReclaimFailed idemRecord
  | Decided "'d claim"
  | AtStore int "goError + 'd"

definition decide :: "'d idemLib \<Rightarrow> idemCall \<Rightarrow> idemRecord \<Rightarrow> 'd pc" where
  "decide L c existing =
    (if ir_Status existing = IdempotencyStatusSucceeded then
       (case decodeStoredResponse L (ir_ResponseBody existing) of
          None \<Rightarrow> Decided unavailable
        | Some d \<Rightarrow> Decided (Answer (Inr \<lparr>er_Data = d, er_Replayed = True\<rparr>)))
     else if ir_Status existing = IdempotencyStatusProcessing then
       Decided (fails (conflictWithRetryAfter ErrIdempotencyInProgress (ir_LockedUntil existing) (ca_Now c)))
     else if ir_Status existing = IdempotencyStatusFailedRetryable then
       (if (case ir_LockedUntil existing of None \<Rightarrow> False | Some l \<Rightarrow> t_after l (ca_Now c)) then
          Decided (fails (conflictWithRetryAfter ErrIdempotencyRetryBackoff (ir_LockedUntil existing) (ca_Now c)))
        else AtReclaimFailed existing)
     else Decided (fails ErrIdempotencyKeyConflict))"

definition claimedPC :: "int \<Rightarrow> 'd pc" where
  "claimedPC i = Decided (if i = 0 then unavailable else Claimed i)"

fun claimStep :: "'d idemLib \<Rightarrow> 'r idemRepo \<Rightarrow> idemCall \<Rightarrow> 'd pc \<Rightarrow> 'r \<Rightarrow> 'd pc \<times> 'r" where
  "claimStep L R c AtCreate r =
    (case CreateProcessing R (callRecord c) r of
       (Inl _, r1) \<Rightarrow> (Decided unavailable, r1)
     | (Inr (owner, record1), r1) \<Rightarrow> (if owner then claimedPC (ir_ID record1) else AtGet, r1))"
| "claimStep L R c AtGet r =
    (case GetByScopeAndKeyHash R (ca_Scope c) (ca_KeyHash c) r of
       (Inl _, r1) \<Rightarrow> (Decided unavailable, r1)
     | (Inr None, r1) \<Rightarrow> (Decided unavailable, r1)
     | (Inr (Some existing), r1) \<Rightarrow>
         (if ir_Fingerprint existing \<noteq> ca_Fingerprint c then Decided (fails ErrIdempotencyKeyConflict)
          else if \<not> t_after (ir_ExpiresAt existing) (ca_Now c) then AtReclaimExpired existing
          else decide L c existing, r1))"
| "claimStep L R c (AtReclaimExpired existing) r =
    (case TryReclaim R (ir_ID existing) (ir_Status existing) (ca_Now c) (ca_LockedUntil c) (ca_ExpiresAt c) r of
       (Inl _, r1) \<Rightarrow> (Decided unavailable, r1)
     | (Inr taken, r1) \<Rightarrow> (if taken then claimedPC (ir_ID existing) else AtGetLatest, r1))"
| "claimStep L R c AtGetLatest r =
    (case GetByScopeAndKeyHash R (ca_Scope c) (ca_KeyHash c) r of
       (Inl _, r1) \<Rightarrow> (Decided unavailable, r1)
     | (Inr None, r1) \<Rightarrow> (Decided unavailable, r1)
     | (Inr (Some latest), r1) \<Rightarrow>
         (if ir_Fingerprint latest \<noteq> ca_Fingerprint c then Decided (fails ErrIdempotencyKeyConflict)
          else decide L c latest, r1))"
| "claimStep L R c (AtReclaimFailed existing) r =
    (case TryReclaim R (ir_ID existing) IdempotencyStatusFailedRetryable (ca_Now c) (ca_LockedUntil c)
            (ca_ExpiresAt c) r of
       (Inl _, r1) \<Rightarrow> (Decided unavailable, r1)
     | (Inr taken, r1) \<Rightarrow>
         (if taken then claimedPC (ir_ID existing)
          else Decided (fails (conflictWithRetryAfter ErrIdempotencyInProgress (ir_LockedUntil existing) (ca_Now c))), r1))"
| "claimStep L R c (Decided a) r = (Decided a, r)"
| "claimStep L R c (AtStore i out) r = (AtStore i out, r)"

fun claimSteps :: "nat \<Rightarrow> 'd idemLib \<Rightarrow> 'r idemRepo \<Rightarrow> idemCall \<Rightarrow> 'd pc \<Rightarrow> 'r \<Rightarrow> 'd pc \<times> 'r" where
  "claimSteps 0 L R c p r = (p, r)"
| "claimSteps (Suc n) L R c p r = (let (p', r') = claimStep L R c p r in claimSteps n L R c p' r')"

definition stepsTo :: "nat \<Rightarrow> 'd idemLib \<Rightarrow> 'r idemRepo \<Rightarrow> idemCall \<Rightarrow> 'd pc \<Rightarrow> 'r \<Rightarrow> 'd claim \<times> 'r \<Rightarrow> bool" where
  "stepsTo n L R c p r a \<longleftrightarrow>
    claimSteps n L R c p r = (Decided (if fst a = Claimed 0 then unavailable else fst a), snd a)"

lemma decided_steps [simp]: "claimSteps n L R c (Decided a) r = (Decided a, r)"
  by (induction n) auto

lemma stepsTo_answer: "stepsTo 1 L R c (decide L c x) r (answerExisting L R c x r)"
  by (auto simp: stepsTo_def decide_def answerExisting_def claimedPC_def split: sum.splits option.splits prod.splits)

lemma stepsTo_more: "stepsTo n L R c p r a \<Longrightarrow> stepsTo (n + m) L R c p r a"
proof (induction n arbitrary: p r)
  case 0
  then show ?case by (simp add: stepsTo_def)
next
  case (Suc n)
  then show ?case by (auto simp: stepsTo_def split: prod.splits)
qed

lemma stepsTo_step: "claimStep L R c p r = (p', r') \<Longrightarrow> stepsTo n L R c p' r' a \<Longrightarrow> stepsTo (Suc n) L R c p r a"
  by (simp add: stepsTo_def)

lemma stepsTo_decided [simp]: "b = (if fst a = Claimed 0 then unavailable else fst a) \<Longrightarrow> r = snd a
    \<Longrightarrow> stepsTo n L R c (Decided b) r a"
  by (simp add: stepsTo_def)

lemma stepsTo_decide: "stepsTo (Suc n) L R c (decide L c x) r (answerExisting L R c x r)"
  using stepsTo_more [OF stepsTo_answer, where m = n] by simp

lemma stepsTo_claimed: "stepsTo n L R c (claimedPC i) r (Claimed i, r)"
  by (simp add: claimedPC_def)

lemma stepsTo_latest: "stepsTo 2 L R c AtGetLatest r
  (case GetByScopeAndKeyHash R (ca_Scope c) (ca_KeyHash c) r of
     (Inl _, r3) \<Rightarrow> (unavailable, r3)
   | (Inr None, r3) \<Rightarrow> (unavailable, r3)
   | (Inr (Some latest), r3) \<Rightarrow>
       if ir_Fingerprint latest \<noteq> ca_Fingerprint c then (fails ErrIdempotencyKeyConflict, r3)
       else answerExisting L R c latest r3)"
  unfolding numeral_2_eq_2
  by (rule stepsTo_step [OF prod.collapse [symmetric]])
    (auto simp: stepsTo_decide split: sum.splits option.splits prod.splits)

lemma stepsTo_existing: "stepsTo 4 L R c AtGet r (claimExisting L R c r)"
proof -
  have 4: "(4::nat) = Suc 3" "(3::nat) = Suc 2" by simp_all
  have expired: "stepsTo 3 L R c (AtReclaimExpired x) r1
     (case TryReclaim R (ir_ID x) (ir_Status x) (ca_Now c) (ca_LockedUntil c) (ca_ExpiresAt c) r1 of
        (Inl _, r2) \<Rightarrow> (unavailable, r2)
      | (Inr taken, r2) \<Rightarrow>
          if taken then (Claimed (ir_ID x), r2)
          else (case GetByScopeAndKeyHash R (ca_Scope c) (ca_KeyHash c) r2 of
             (Inl _, r3) \<Rightarrow> (unavailable, r3)
           | (Inr None, r3) \<Rightarrow> (unavailable, r3)
           | (Inr (Some latest), r3) \<Rightarrow>
               if ir_Fingerprint latest \<noteq> ca_Fingerprint c then (fails ErrIdempotencyKeyConflict, r3)
               else answerExisting L R c latest r3))" for x r1
    unfolding 4(2)
    by (rule stepsTo_step [OF prod.collapse [symmetric]])
      (auto simp: stepsTo_claimed stepsTo_latest split: sum.splits prod.splits)
  have live: "stepsTo 3 L R c (decide L c x) r1 (answerExisting L R c x r1)" for x r1
    unfolding 4(2) by (rule stepsTo_decide)
  show ?thesis
    unfolding 4(1) claimExisting_def
    by (rule stepsTo_step [OF prod.collapse [symmetric]])
      (auto simp: expired live split: sum.splits option.splits prod.splits)
qed


section \<open>Interleaved calls\<close>

record 'd client =
  cl_call :: idemCall
  cl_ttl :: duration
  cl_detached :: bool
  cl_pc :: "'d pc"
  cl_expiry :: time

record 'd system =
  sy_table :: idemTable
  sy_clock :: time
  sy_clients :: "'d client list"

fun holding :: "'d pc \<Rightarrow> int option" where
  "holding (Decided (Claimed i)) = Some i"
| "holding (AtStore i _) = Some i"
| "holding _ = None"

fun claiming :: "'d pc \<Rightarrow> bool" where
  "claiming (Decided _) = False"
| "claiming (AtStore _ _) = False"
| "claiming _ = True"

text \<open>The clock may advance to \<open>now\<close> without a claim or an execution being overtaken.\<close>

definition timely :: "'d client list \<Rightarrow> time \<Rightarrow> bool" where
  "timely cs now \<longleftrightarrow> (\<forall>cl\<in>set cs.
     (claiming (cl_pc cl) \<longrightarrow> now < ca_LockedUntil (cl_call cl))
     \<and> (holding (cl_pc cl) \<noteq> None \<longrightarrow> now < cl_expiry cl))"

definition atClock :: "'d system \<Rightarrow> fault list \<Rightarrow> idemTable" where
  "atClock s fs = (sy_table s)\<lparr>tb_now := sy_clock s, tb_faults := fs\<rparr>"

definition setClient :: "'d system \<Rightarrow> nat \<Rightarrow> 'd client \<Rightarrow> idemTable \<Rightarrow> 'd system" where
  "setClient s i cl t = s\<lparr>sy_table := t, sy_clients := (sy_clients s)[i := cl]\<rparr>"

text \<open>A new call takes the times of \<open>idemCallOf\<close> from the clock.\<close>

definition arriving :: "idemConfig \<Rightarrow> time \<Rightarrow> idemCall \<Rightarrow> duration \<Rightarrow> bool" where
  "arriving cfg now c ttl \<longleftrightarrow> ca_Now c = now \<and> ca_LockedUntil c = t_add now (ic_ProcessingTimeout cfg)
     \<and> ca_ExpiresAt c = t_add now ttl \<and> ic_ProcessingTimeout cfg \<le> ttl"

inductive sys_step :: "'d idemLib \<Rightarrow> idemConfig \<Rightarrow> 'd system \<Rightarrow> 'd system \<Rightarrow> bool"
  for L :: "'d idemLib" and cfg :: idemConfig where
  arrive: "arriving cfg (sy_clock s) c ttl \<Longrightarrow>
    sys_step L cfg s (s\<lparr>sy_clients := sy_clients s @
      [\<lparr>cl_call = c, cl_ttl = ttl, cl_detached = d, cl_pc = AtCreate, cl_expiry = 0\<rparr>]\<rparr>)"
| claim: "i < length (sy_clients s) \<Longrightarrow> cl = sy_clients s ! i \<Longrightarrow> claiming (cl_pc cl) \<Longrightarrow>
    claimStep L sqlRepo (cl_call cl) (cl_pc cl) (atClock s fs) = (p, t) \<Longrightarrow>
    sys_step L cfg s (setClient s i (cl\<lparr>cl_pc := p, cl_expiry := ca_ExpiresAt (cl_call cl)\<rparr>) t)"
| renew: "i < length (sy_clients s) \<Longrightarrow> cl = sy_clients s ! i \<Longrightarrow> cl_detached cl \<Longrightarrow>
    cl_pc cl = Decided (Claimed k) \<Longrightarrow>
    ExtendProcessingLock sqlRepo k (ca_Fingerprint (cl_call cl)) (t_add (sy_clock s) (renewalLease cfg))
      (t_add (sy_clock s) (cl_ttl cl)) (atClock s fs) = (res, t) \<Longrightarrow>
    sys_step L cfg s (setClient s i
      (cl\<lparr>cl_expiry := (if res = Inr True then t_add (sy_clock s) (cl_ttl cl) else cl_expiry cl)\<rparr>) t)"
| finish: "i < length (sy_clients s) \<Longrightarrow> cl = sy_clients s ! i \<Longrightarrow> cl_pc cl = Decided (Claimed k) \<Longrightarrow>
    sys_step L cfg s (setClient s i (cl\<lparr>cl_pc := AtStore k outcome\<rparr>) (sy_table s))"
| store: "i < length (sy_clients s) \<Longrightarrow> cl = sy_clients s ! i \<Longrightarrow> cl_pc cl = AtStore k outcome \<Longrightarrow>
    storeOutcome L sqlRepo cfg k (if cl_detached cl then t_add (sy_clock s) (cl_ttl cl) else ca_ExpiresAt (cl_call cl))
      (sy_clock s) outcome (atClock s fs) = (res, t) \<Longrightarrow>
    sys_step L cfg s (setClient s i (cl\<lparr>cl_pc := Decided (Answer res)\<rparr>) t)"
| cleanup: "sys_step L cfg s (s\<lparr>sy_table := cleanupOnce sqlRepo batch (sy_clock s) (atClock s fs)\<rparr>)"
| tick: "sy_clock s \<le> now \<Longrightarrow> timely (sy_clients s) now \<Longrightarrow> sys_step L cfg s (s\<lparr>sy_clock := now\<rparr>)"

inductive sys_reach :: "'d idemLib \<Rightarrow> idemConfig \<Rightarrow> 'd system \<Rightarrow> bool" for L :: "'d idemLib" and cfg :: idemConfig where
  start: "table_ok t \<Longrightarrow> sys_reach L cfg \<lparr>sy_table = t, sy_clock = now, sy_clients = []\<rparr>"
| next_step: "sys_reach L cfg s \<Longrightarrow> sys_step L cfg s s' \<Longrightarrow> sys_reach L cfg s'"

section \<open>The invariant\<close>

definition owns :: "idemTable \<Rightarrow> time \<Rightarrow> 'd client \<Rightarrow> int \<Rightarrow> bool" where
  "owns t now cl k \<longleftrightarrow> (\<exists>x\<in>set (tb_rows t). ir_ID x = k \<and> rowKey x = callKey (cl_call cl)
     \<and> ir_Status x = IdempotencyStatusProcessing \<and> now < cl_expiry cl \<and> cl_expiry cl \<le> ir_ExpiresAt x)"

text \<open>The row a claim is about to reclaim still has the key it was read with, if it is there.\<close>

definition sameRow :: "idemTable \<Rightarrow> 'd client \<Rightarrow> int \<Rightarrow> bool" where
  "sameRow t cl k \<longleftrightarrow> k < tb_nextID t \<and> (\<forall>x\<in>set (tb_rows t). ir_ID x = k \<longrightarrow> rowKey x = callKey (cl_call cl))"

fun reclaims :: "'d pc \<Rightarrow> int option" where
  "reclaims (AtReclaimExpired x) = Some (ir_ID x)"
| "reclaims (AtReclaimFailed x) = Some (ir_ID x)"
| "reclaims _ = None"

definition client_ok :: "idemTable \<Rightarrow> time \<Rightarrow> 'd client \<Rightarrow> bool" where
  "client_ok t now cl \<longleftrightarrow>
     (claiming (cl_pc cl) \<longrightarrow> ca_Now (cl_call cl) \<le> now \<and> now < ca_LockedUntil (cl_call cl)
        \<and> ca_LockedUntil (cl_call cl) \<le> ca_ExpiresAt (cl_call cl)
        \<and> ca_ExpiresAt (cl_call cl) \<le> now + cl_ttl cl)
   \<and> (\<forall>k. reclaims (cl_pc cl) = Some k \<longrightarrow> sameRow t cl k)
   \<and> (\<forall>k. holding (cl_pc cl) = Some k \<longrightarrow> owns t now cl k \<and> cl_expiry cl \<le> now + cl_ttl cl)"

text \<open>Two clients never hold the same row, and the lock of a held row is later than the instant of
any claim that might take it for abandoned.\<close>

fun abandoned :: "'d pc \<Rightarrow> int option" where
  "abandoned (AtReclaimExpired x) = (if ir_Status x = IdempotencyStatusProcessing then Some (ir_ID x) else None)"
| "abandoned _ = None"

definition pair_ok :: "idemTable \<Rightarrow> 'd client \<Rightarrow> 'd client \<Rightarrow> bool" where
  "pair_ok t a b \<longleftrightarrow> (\<forall>k. holding (cl_pc a) = Some k \<longrightarrow>
     holding (cl_pc b) \<noteq> Some k
     \<and> (abandoned (cl_pc b) = Some k \<longrightarrow>
          (\<forall>x\<in>set (tb_rows t). ir_ID x = k \<longrightarrow> (\<exists>l. ir_LockedUntil x = Some l \<and> ca_Now (cl_call b) < l))))"

definition sys_inv :: "'d system \<Rightarrow> bool" where
  "sys_inv s \<longleftrightarrow> table_ok (sy_table s)
   \<and> (\<forall>cl\<in>set (sy_clients s). client_ok (sy_table s) (sy_clock s) cl)
   \<and> (\<forall>i < length (sy_clients s). \<forall>j < length (sy_clients s). i \<noteq> j \<longrightarrow>
        pair_ok (sy_table s) (sy_clients s ! i) (sy_clients s ! j))"

text \<open>Changes of the table that leave the rows of the other clients alone.\<close>

definition keepsRow :: "idemTable \<Rightarrow> idemTable \<Rightarrow> int \<Rightarrow> bool" where
  "keepsRow t t' k \<longleftrightarrow> (\<forall>x. ir_ID x = k \<longrightarrow> x \<in> set (tb_rows t') \<longleftrightarrow> x \<in> set (tb_rows t))"

definition evolves :: "idemTable \<Rightarrow> idemTable \<Rightarrow> bool" where
  "evolves t t' \<longleftrightarrow> tb_nextID t \<le> tb_nextID t' \<and>
     (\<forall>x\<in>set (tb_rows t'). tb_nextID t \<le> ir_ID x \<or> (\<exists>y\<in>set (tb_rows t). ir_ID y = ir_ID x \<and> rowKey y = rowKey x))"

lemma owns_frame: "owns t now b k \<Longrightarrow> keepsRow t t' k \<Longrightarrow> owns t' now b k"
  unfolding owns_def keepsRow_def by metis

lemma sameRow_frame: "sameRow t b k \<Longrightarrow> evolves t t' \<Longrightarrow> sameRow t' b k"
  unfolding sameRow_def evolves_def by (metis linorder_not_less order_less_le_trans)

lemma client_ok_frame:
  assumes "client_ok t now b" and "evolves t t'" and "\<And>k. holding (cl_pc b) = Some k \<Longrightarrow> keepsRow t t' k"
  shows "client_ok t' now b"
  using assms owns_frame [of t now b _ t'] sameRow_frame [of t b _ t'] unfolding client_ok_def by blast

lemma pair_ok_frame:
  assumes "pair_ok t a b" and "\<And>k. holding (cl_pc a) = Some k \<Longrightarrow> keepsRow t t' k"
  shows "pair_ok t' a b"
  using assms unfolding pair_ok_def keepsRow_def by metis

lemma sys_inv_update:
  assumes inv: "sys_inv s" and i: "i < length (sy_clients s)"
    and t: "table_ok t'" "evolves (sy_table s) t'"
    and kept: "\<And>j k. j < length (sy_clients s) \<Longrightarrow> j \<noteq> i \<Longrightarrow> holding (cl_pc (sy_clients s ! j)) = Some k
      \<Longrightarrow> keepsRow (sy_table s) t' k"
    and cl: "client_ok t' (sy_clock s) cl"
    and pair: "\<And>j. j < length (sy_clients s) \<Longrightarrow> j \<noteq> i \<Longrightarrow>
      pair_ok t' cl (sy_clients s ! j) \<and> pair_ok t' (sy_clients s ! j) cl"
  shows "sys_inv (setClient s i cl t')"
proof -
  have ok: "client_ok t' (sy_clock s) (sy_clients s ! j)" if "j < length (sy_clients s)" "j \<noteq> i" for j
  proof (rule client_ok_frame [OF _ t(2)])
    show "client_ok (sy_table s) (sy_clock s) (sy_clients s ! j)"
      using inv that(1) by (simp add: sys_inv_def)
  qed (rule kept [OF that])
  have pairs: "pair_ok t' (sy_clients s ! j) (sy_clients s ! k)"
    if "j < length (sy_clients s)" "j \<noteq> i" "k < length (sy_clients s)" "j \<noteq> k" for j k
  proof (rule pair_ok_frame)
    show "pair_ok (sy_table s) (sy_clients s ! j) (sy_clients s ! k)"
      using inv that(1,3,4) by (simp add: sys_inv_def)
  qed (rule kept [OF that(1,2)])
  have 1: "client_ok t' (sy_clock s) b" if b: "b \<in> set ((sy_clients s)[i := cl])" for b
  proof -
    obtain j where "j < length (sy_clients s)" "b = (sy_clients s)[i := cl] ! j"
      using b unfolding in_set_conv_nth length_list_update by blast
    then show ?thesis using ok [of j] cl i by (cases "j = i") simp_all
  qed
  have 2: "pair_ok t' ((sy_clients s)[i := cl] ! j) ((sy_clients s)[i := cl] ! k)"
    if "j < length (sy_clients s)" "k < length (sy_clients s)" "j \<noteq> k" for j k
    using that i pair [of j] pair [of k] pairs [of j k] by (cases "j = i"; cases "k = i") simp_all
  from t(1) 1 2 show ?thesis by (simp add: sys_inv_def setClient_def)
qed

section \<open>Statements and the invariant\<close>

lemma sqlRun_cases:
  assumes "sqlRun stmt t = (res, t')"
  obtains (lost) e fs where "res = Inl e" and "t' = t\<lparr>tb_faults := fs\<rparr>"
  | (ran) fs where "t' = snd (stmt (t\<lparr>tb_faults := fs\<rparr>))"
      and "res = Inr (fst (stmt (t\<lparr>tb_faults := fs\<rparr>))) \<or> (\<exists>e. res = Inl e)"
  using assms unfolding sqlRun_def Let_def
  by (cases t) (auto split: list.splits fault.splits)

lemma keepsRow_refl: "tb_rows t' = tb_rows t \<Longrightarrow> keepsRow t t' k"
  by (simp add: keepsRow_def)

lemma evolves_refl: "tb_rows t' = tb_rows t \<Longrightarrow> tb_nextID t \<le> tb_nextID t' \<Longrightarrow> evolves t t'"
  by (auto simp: evolves_def)

lemma update_rows:
  "set (tb_rows (snd (updateWhere P upd t))) = (\<lambda>x. if P x then (upd x)\<lparr>ir_UpdatedAt := tb_now t\<rparr> else x) ` set (tb_rows t)"
  "tb_nextID (snd (updateWhere P upd t)) = tb_nextID t"
  by (simp_all add: updateWhere_def)

lemma update_keeps:
  assumes "\<And>x. ir_ID (upd x) = ir_ID x" and "\<And>x. x \<in> set (tb_rows t) \<Longrightarrow> P x \<Longrightarrow> ir_ID x \<noteq> k"
  shows "keepsRow t (snd (updateWhere P upd t)) k"
  using assms unfolding keepsRow_def update_rows by (fastforce simp: image_iff)

lemma update_evolves:
  assumes "\<And>x. ir_ID (upd x) = ir_ID x" and "\<And>x. rowKey (upd x) = rowKey x"
  shows "evolves t (snd (updateWhere P upd t))"
  using assms unfolding evolves_def update_rows by (auto simp: rowKey_def)

lemma insert_keeps:
  assumes "table_ok t" and "k < tb_nextID t"
  shows "keepsRow t (snd (insertProcessing rec t)) k"
  using assms by (auto simp: keepsRow_def insertProcessing_def Let_def)

lemma insert_evolves: "evolves t (snd (insertProcessing rec t))"
  by (auto simp: evolves_def insertProcessing_def Let_def)

lemma delete_keeps:
  assumes "table_ok t" and "x \<in> set (tb_rows t)" and "ir_ID x = k" and "now < ir_ExpiresAt x"
  shows "keepsRow t (snd (deleteExpiredRows now lim t)) k"
proof -
  have "ir_ID y \<noteq> k" if "y \<in> set (tb_rows t)" "ir_ExpiresAt y \<le> now" for y
    using rows_inj(1) [OF assms(1) that(1) assms(2)] that assms(3,4) by auto
  then have "k \<notin> ir_ID ` {y \<in> set (tb_rows t). ir_ExpiresAt y \<le> now}" by blast
  then have "k \<notin> ir_ID ` set (take n (sort_key ir_ExpiresAt (filter (\<lambda>x. ir_ExpiresAt x \<le> now) (tb_rows t))))" for n
    using set_take_subset [of n "sort_key ir_ExpiresAt (filter (\<lambda>x. ir_ExpiresAt x \<le> now) (tb_rows t))"]
    by (fastforce simp: image_iff)
  then show ?thesis by (auto simp: keepsRow_def deleteExpiredRows_def Let_def)
qed

lemma delete_evolves: "evolves t (snd (deleteExpiredRows now lim t))"
  by (auto simp: evolves_def deleteExpiredRows_def Let_def)

lemma decide_pc:
  "holding (decide L c x) = None" "abandoned (decide L c x) = None"
  "reclaims (decide L c x) = Some k \<Longrightarrow> k = ir_ID x"
  "claiming (decide L c x) \<Longrightarrow> reclaims (decide L c x) = Some (ir_ID x)"
  by (auto simp: decide_def split: option.splits if_splits)

lemma holding_not_claiming: "holding p = Some k \<Longrightarrow> \<not> claiming p"
  by (cases p rule: holding.cases) auto

lemma abandoned_reclaims: "abandoned p = Some k \<Longrightarrow> reclaims p = Some k \<and> claiming p"
  by (cases p rule: abandoned.cases) (auto split: if_splits)

section \<open>Every step keeps the invariant\<close>

text \<open>A client that neither holds nor reclaims anything needs no more than its times.\<close>

lemma pair_ok_idle: "holding (cl_pc a) = None \<Longrightarrow> pair_ok t a b"
  by (simp add: pair_ok_def)

lemma inv_client:
  "sys_inv s \<Longrightarrow> i < length (sy_clients s) \<Longrightarrow> client_ok (sy_table s) (sy_clock s) (sy_clients s ! i)"
  by (simp add: sys_inv_def)

lemma inv_pair:
  "sys_inv s \<Longrightarrow> i < length (sy_clients s) \<Longrightarrow> j < length (sy_clients s) \<Longrightarrow> i \<noteq> j
   \<Longrightarrow> pair_ok (sy_table s) (sy_clients s ! i) (sy_clients s ! j)"
  by (simp add: sys_inv_def)

lemma inv_held:
  assumes "sys_inv s" and "j < length (sy_clients s)" and "holding (cl_pc (sy_clients s ! j)) = Some k"
  shows "owns (sy_table s) (sy_clock s) (sy_clients s ! j) k" "k < tb_nextID (sy_table s)"
proof -
  show "owns (sy_table s) (sy_clock s) (sy_clients s ! j) k"
    using inv_client [OF assms(1,2)] assms(3) by (simp add: client_ok_def)
  then show "k < tb_nextID (sy_table s)"
    using assms(1) by (auto simp: sys_inv_def table_ok_def owns_def)
qed

text \<open>A step after which the client holds nothing, on a table that keeps the rows of the others.\<close>

lemma inv_release:
  assumes inv: "sys_inv s" and i: "i < length (sy_clients s)"
    and t: "table_ok t'" "evolves (sy_table s) t'"
    and kept: "\<And>j k. j < length (sy_clients s) \<Longrightarrow> j \<noteq> i \<Longrightarrow> holding (cl_pc (sy_clients s ! j)) = Some k
      \<Longrightarrow> keepsRow (sy_table s) t' k"
    and cl: "holding (cl_pc cl) = None" "client_ok t' (sy_clock s) cl"
    and ab: "abandoned (cl_pc cl) = None"
  shows "sys_inv (setClient s i cl t')"
proof (rule sys_inv_update [OF inv i t kept cl(2)])
  fix j assume j: "j < length (sy_clients s)" "j \<noteq> i"
  have "pair_ok t' (sy_clients s ! j) cl"
    unfolding pair_ok_def using cl(1) ab by simp
  with pair_ok_idle [OF cl(1)] show "pair_ok t' cl (sy_clients s ! j) \<and> pair_ok t' (sy_clients s ! j) cl" by simp
qed

text \<open>A step that leaves the rows alone.\<close>

lemma inv_same:
  assumes inv: "sys_inv s" and i: "i < length (sy_clients s)"
    and t: "tb_rows t' = tb_rows (sy_table s)" "tb_nextID (sy_table s) \<le> tb_nextID t'"
    and cl: "holding (cl_pc cl) = None" "client_ok t' (sy_clock s) cl"
    and ab: "abandoned (cl_pc cl) = None"
  shows "sys_inv (setClient s i cl t')"
proof (rule inv_release [OF inv i _ _ _ cl ab])
  show "table_ok t'" using inv t by (fastforce simp: sys_inv_def table_ok_def)
  show "evolves (sy_table s) t'" by (rule evolves_refl [OF t])
qed (rule keepsRow_refl [OF t(1)])

text \<open>A step after which the client holds a row that nobody else holds, locked into the future.\<close>

lemma inv_acquire:
  assumes inv: "sys_inv s" and i: "i < length (sy_clients s)"
    and t: "table_ok t'" "evolves (sy_table s) t'"
    and kept: "\<And>j k. j < length (sy_clients s) \<Longrightarrow> j \<noteq> i \<Longrightarrow> holding (cl_pc (sy_clients s ! j)) = Some k
      \<Longrightarrow> k \<noteq> m \<and> keepsRow (sy_table s) t' k"
    and cl: "holding (cl_pc cl) = Some m" "client_ok t' (sy_clock s) cl"
    and lock: "\<And>x. x \<in> set (tb_rows t') \<Longrightarrow> ir_ID x = m \<Longrightarrow> \<exists>l. ir_LockedUntil x = Some l \<and> sy_clock s < l"
  shows "sys_inv (setClient s i cl t')"
proof (rule sys_inv_update [OF inv i t _ cl(2)])
  fix j k assume "j < length (sy_clients s)" "j \<noteq> i" "holding (cl_pc (sy_clients s ! j)) = Some k"
  then show "keepsRow (sy_table s) t' k" using kept by blast
next
  fix j assume j: "j < length (sy_clients s)" "j \<noteq> i"
  have now: "ca_Now (cl_call (sy_clients s ! j)) \<le> sy_clock s" if "claiming (cl_pc (sy_clients s ! j))"
    using inv_client [OF inv j(1)] that by (simp add: client_ok_def)
  have "pair_ok t' cl (sy_clients s ! j)"
    unfolding pair_ok_def
  proof (intro allI impI conjI ballI)
    fix k assume k: "holding (cl_pc cl) = Some k"
    with cl(1) kept [OF j] show "holding (cl_pc (sy_clients s ! j)) \<noteq> Some k" by auto
    fix x assume "abandoned (cl_pc (sy_clients s ! j)) = Some k" "x \<in> set (tb_rows t')" "ir_ID x = k"
    with lock [of x] k cl(1) now show "\<exists>l. ir_LockedUntil x = Some l \<and> ca_Now (cl_call (sy_clients s ! j)) < l"
      using abandoned_reclaims by fastforce
  qed
  moreover have "pair_ok t' (sy_clients s ! j) cl"
    unfolding pair_ok_def using cl(1) kept [OF j] abandoned_reclaims [of "cl_pc cl"] holding_not_claiming [OF cl(1)]
    by fastforce
  ultimately show "pair_ok t' cl (sy_clients s ! j) \<and> pair_ok t' (sy_clients s ! j) cl" by simp
qed

text \<open>After a refused or lost statement the client has its answer.\<close>

lemma client_ok_decided [simp]: "cl_pc cl = Decided (Answer a) \<Longrightarrow> client_ok t now cl"
  by (simp add: client_ok_def)

lemma atClock_fields [simp]:
  "tb_rows (atClock s fs) = tb_rows (sy_table s)" "tb_nextID (atClock s fs) = tb_nextID (sy_table s)"
  by (simp_all add: atClock_def)

lemma table_ok_atClock: "table_ok (atClock s fs) = table_ok (sy_table s)"
  "table_ok ((atClock s fs)\<lparr>tb_faults := gs\<rparr>) = table_ok (sy_table s)"
  by (simp_all add: table_ok_def)

lemma frame_atClock:
  "keepsRow ((atClock s fs)\<lparr>tb_faults := gs\<rparr>) t' k = keepsRow (sy_table s) t' k"
  "evolves ((atClock s fs)\<lparr>tb_faults := gs\<rparr>) t' = evolves (sy_table s) t'"
  by (simp_all add: keepsRow_def evolves_def)

lemma inv_answered:
  assumes "sys_inv s" and "i < length (sy_clients s)" and "tb_rows t' = tb_rows (sy_table s)"
    and "tb_nextID (sy_table s) \<le> tb_nextID t'" and "cl_pc cl = Decided (Answer a)"
  shows "sys_inv (setClient s i cl t')"
  by (rule inv_same [OF assms(1-4)]) (use assms(5) in simp_all)

text \<open>The statement that reads the row.\<close>

lemma read_row:
  assumes "selectByKey sc h t = (Some x, t1)"
  shows "x \<in> set (tb_rows t)" "rowKey x = (sc, h)"
  using assms find_row [of "hasKey sc h" "tb_rows t" x] by (auto simp: selectByKey_def hasKey_rowKey)

lemma inv_read:
  assumes inv: "sys_inv s" and i: "i < length (sy_clients s)"
    and cl: "cl = sy_clients s ! i" "claiming (cl_pc cl)"
    and x: "x \<in> set (tb_rows (sy_table s))" "rowKey x = callKey (cl_call cl)"
    and p: "p = AtReclaimExpired x \<and> ir_ExpiresAt x \<le> ca_Now (cl_call cl) \<or> p = decide L (cl_call cl) x"
    and t: "tb_rows t' = tb_rows (sy_table s)" "tb_nextID t' = tb_nextID (sy_table s)"
  shows "sys_inv (setClient s i (cl\<lparr>cl_pc := p, cl_expiry := e\<rparr>) t')"
proof -
  have tok: "table_ok (sy_table s)" using inv by (simp add: sys_inv_def)
  have c: "client_ok (sy_table s) (sy_clock s) cl" using inv_client [OF inv i] cl(1) by simp
  have same: "sameRow t' (cl\<lparr>cl_pc := p, cl_expiry := e\<rparr>) (ir_ID x)"
    using x t tok rows_inj(1) [OF tok _ x(1)] by (auto simp: sameRow_def table_ok_def)
  have h: "holding p = None" using p decide_pc(1) [of L "cl_call cl" x] by auto
  have r: "reclaims p = Some k \<Longrightarrow> k = ir_ID x" for k using p decide_pc(3) [of L "cl_call cl" x] by auto
  have ok: "client_ok t' (sy_clock s) (cl\<lparr>cl_pc := p, cl_expiry := e\<rparr>)"
    using c cl(2) h same r by (auto simp: client_ok_def)
  show ?thesis
  proof (rule sys_inv_update [OF inv i _ _ _ ok])
    show "table_ok t'" using tok t by (simp add: table_ok_def)
    show "evolves (sy_table s) t'" by (rule evolves_refl) (simp_all add: t)
  next
    fix j assume j: "j < length (sy_clients s)" "j \<noteq> i"
    have "abandoned p \<noteq> Some k" if k: "holding (cl_pc (sy_clients s ! j)) = Some k" for k
    proof
      assume "abandoned p = Some k"
      then have px: "ir_ID x = k" "ir_ExpiresAt x \<le> ca_Now (cl_call cl)"
        using p decide_pc(2) [of L "cl_call cl" x] by (auto split: if_splits)
      obtain y where y: "y \<in> set (tb_rows (sy_table s))" "ir_ID y = k" "sy_clock s < ir_ExpiresAt y"
        using inv_held(1) [OF inv j(1) k] by (auto simp: owns_def)
      then have "y = x" using rows_inj(1) [OF tok y(1) x(1)] px by simp
      moreover have "ca_Now (cl_call cl) \<le> sy_clock s" using c cl(2) by (simp add: client_ok_def)
      ultimately show False using y(3) px(2) by simp
    qed
    then show "pair_ok t' (cl\<lparr>cl_pc := p, cl_expiry := e\<rparr>) (sy_clients s ! j)
        \<and> pair_ok t' (sy_clients s ! j) (cl\<lparr>cl_pc := p, cl_expiry := e\<rparr>)"
      using h by (simp add: pair_ok_def)
  qed (rule keepsRow_refl [OF t(1)])
qed

text \<open>An update of the row \<open>m\<close> by a statement of client \<open>i\<close>.\<close>

lemma update_facts:
  assumes "table_ok t" and "\<And>x. ir_ID (upd x) = ir_ID x" and "\<And>x. rowKey (upd x) = rowKey x"
    and "t1 = t\<lparr>tb_now := n, tb_faults := fs\<rparr>"
  shows "table_ok (snd (updateWhere P upd t1))" "evolves t (snd (updateWhere P upd t1))"
    "(\<And>x. x \<in> set (tb_rows t) \<Longrightarrow> P x \<Longrightarrow> ir_ID x \<noteq> k) \<Longrightarrow> keepsRow t (snd (updateWhere P upd t1)) k"
proof -
  have t1: "table_ok t1" "tb_rows t1 = tb_rows t" "tb_nextID t1 = tb_nextID t"
    using assms(1,4) by (simp_all add: table_ok_def)
  show "table_ok (snd (updateWhere P upd t1))" by (rule table_ok_update [OF t1(1) assms(2,3)])
  show "evolves t (snd (updateWhere P upd t1))"
    using update_evolves [of upd t1 P, OF assms(2,3)] t1(2,3) by (simp add: evolves_def)
  show "keepsRow t (snd (updateWhere P upd t1)) k" if "\<And>x. x \<in> set (tb_rows t) \<Longrightarrow> P x \<Longrightarrow> ir_ID x \<noteq> k"
    using update_keeps [of upd t1 P k, OF assms(2)] that t1(2) by (simp add: keepsRow_def)
qed

lemma updated_row:
  assumes "table_ok t" and "x \<in> set (tb_rows t)" and "P x" and "ir_ID x = m"
    and "\<And>x. ir_ID (upd x) = ir_ID x" and "t1 = t\<lparr>tb_now := n, tb_faults := fs\<rparr>"
  shows "z \<in> set (tb_rows (snd (updateWhere P upd t1))) \<and> ir_ID z = m \<longleftrightarrow> z = (upd x)\<lparr>ir_UpdatedAt := n\<rparr>"
proof -
  let ?f = "\<lambda>x. if P x then (upd x)\<lparr>ir_UpdatedAt := tb_now t1\<rparr> else x"
  have set: "set (tb_rows (snd (updateWhere P upd t1))) = ?f ` set (tb_rows t)"
    unfolding update_rows using assms(6) by simp
  have now: "tb_now t1 = n" using assms(6) by simp
  have same: "y = x" if "y \<in> set (tb_rows t)" "ir_ID y = m" for y
    using rows_inj(1) [OF assms(1) that(1) assms(2)] that(2) assms(4) by simp
  show ?thesis
  proof
    assume z: "z \<in> set (tb_rows (snd (updateWhere P upd t1))) \<and> ir_ID z = m"
    then obtain y where y: "y \<in> set (tb_rows t)" "z = ?f y" unfolding set by blast
    then have "ir_ID y = m" using z assms(5) by (cases "P y") auto
    with same y assms(3) now show "z = (upd x)\<lparr>ir_UpdatedAt := n\<rparr>" by simp
  next
    assume "z = (upd x)\<lparr>ir_UpdatedAt := n\<rparr>"
    then have "z = ?f x" "ir_ID z = m" using assms(3-5) now by simp_all
    with assms(2) show "z \<in> set (tb_rows (snd (updateWhere P upd t1))) \<and> ir_ID z = m" unfolding set by blast
  qed
qed

text \<open>The statement that reclaims a row, from a status under which nobody can hold it.\<close>

lemma inv_reclaim:
  assumes inv: "sys_inv s" and i: "i < length (sy_clients s)"
    and cl: "cl = sy_clients s ! i" "reclaims (cl_pc cl) = Some m" "claiming (cl_pc cl)"
    and free: "\<And>j x. j < length (sy_clients s) \<Longrightarrow> j \<noteq> i \<Longrightarrow> holding (cl_pc (sy_clients s ! j)) = Some m
      \<Longrightarrow> x \<in> set (tb_rows (sy_table s)) \<Longrightarrow> \<not> reclaimable m st (ca_Now (cl_call cl)) x"
    and run: "TryReclaim sqlRepo m st (ca_Now (cl_call cl)) (ca_LockedUntil (cl_call cl)) (ca_ExpiresAt (cl_call cl))
      (atClock s fs) = (res, t')"
    and p: "(case res of Inl _ \<Rightarrow> p = Decided unavailable
       | Inr taken \<Rightarrow> if taken then p = claimedPC m else p = AtGetLatest \<or> (\<exists>a. p = Decided (Answer a)))"
  shows "sys_inv (setClient s i (cl\<lparr>cl_pc := p, cl_expiry := ca_ExpiresAt (cl_call cl)\<rparr>) t')"
proof -
  let ?P = "reclaimable m st (ca_Now (cl_call cl))"
  let ?upd = "reclaimed (ca_LockedUntil (cl_call cl)) (ca_ExpiresAt (cl_call cl))"
  have tok: "table_ok (sy_table s)" using inv by (simp add: sys_inv_def)
  have c: "client_ok (sy_table s) (sy_clock s) cl" using inv_client [OF inv i] cl(1) by simp
  have idle: "client_ok t (sy_clock s) (cl\<lparr>cl_pc := AtGetLatest, cl_expiry := e\<rparr>)" for t e
    using c cl(3) by (auto simp: client_ok_def)
  define r where "r = fst (sqlRun (updateWhere ?P ?upd) (atClock s fs))"
  have r: "sqlRun (updateWhere ?P ?upd) (atClock s fs) = (r, t')" "res = map_sum id (\<lambda>n. n > 0) r"
    using run by (auto simp: sqlRepo_def affected_def r_def prod_eq_iff)
  from r(1) show ?thesis
  proof (cases rule: sqlRun_cases)
    case (lost e gs)
    then have "p = Decided unavailable" using r(2) p by simp
    with lost(2) show ?thesis by (intro inv_answered [OF inv i]) simp_all
  next
    case (ran gs)
    let ?t1 = "(sy_table s)\<lparr>tb_now := sy_clock s, tb_faults := gs\<rparr>"
    have t': "t' = snd (updateWhere ?P ?upd ?t1)" using ran(1) by (simp add: atClock_def)
    have facts: "table_ok t'" "evolves (sy_table s) t'"
      unfolding t' by (rule update_facts [OF tok upd_ID(1) upd_rowKey(1) refl])+
    have kept: "k \<noteq> m \<or> \<not> (\<exists>x\<in>set (tb_rows (sy_table s)). ?P x)" "keepsRow (sy_table s) t' k"
      if j: "j < length (sy_clients s)" "j \<noteq> i" "holding (cl_pc (sy_clients s ! j)) = Some k" for j k
    proof -
      show 1: "k \<noteq> m \<or> \<not> (\<exists>x\<in>set (tb_rows (sy_table s)). ?P x)" using free j by blast
      show "keepsRow (sy_table s) t' k"
        unfolding t'
        by (rule update_facts(3) [OF tok upd_ID(1) upd_rowKey(1) refl]) (use 1 in \<open>auto simp: reclaimable_def\<close>)
    qed
    show ?thesis
    proof (cases "\<exists>a. p = Decided (Answer a) \<or> p = AtGetLatest")
      case True
      then show ?thesis
        using kept(2) idle by (intro inv_release [OF inv i facts]) (auto simp: client_ok_def)
    next
      case False
      then have "res = Inr True" "p = claimedPC m" using p by (auto split: sum.splits if_splits)
      moreover from this(1) have "\<exists>x\<in>set (tb_rows (sy_table s)). ?P x"
        using r(2) ran(2) by (auto simp: updateWhere_def atClock_def filter_empty_conv)
      ultimately obtain x where x: "x \<in> set (tb_rows (sy_table s))" "?P x" "ir_ID x = m" and res: "p = Decided (Claimed m)"
        using tok by (auto simp: reclaimable_def claimedPC_def table_ok_def)
      have row: "z \<in> set (tb_rows t') \<and> ir_ID z = m \<longleftrightarrow> z = (?upd x)\<lparr>ir_UpdatedAt := sy_clock s\<rparr>" for z
        unfolding t' by (rule updated_row [where P = ?P and upd = ?upd, OF tok x upd_ID(1) refl])
      let ?x = "(?upd x)\<lparr>ir_UpdatedAt := sy_clock s\<rparr>"
      have "rowKey x = callKey (cl_call cl)" using c cl(2) x by (auto simp: client_ok_def sameRow_def)
      moreover have "?x \<in> set (tb_rows t')" "ir_ID ?x = m" using row [of ?x] by blast+
      moreover have "rowKey ?x = rowKey x" "ir_Status ?x = IdempotencyStatusProcessing"
          "ir_ExpiresAt ?x = ca_ExpiresAt (cl_call cl)" "ir_LockedUntil ?x = Some (ca_LockedUntil (cl_call cl))"
        by (simp_all add: reclaimed_def rowKey_def)
      moreover have times: "sy_clock s < ca_LockedUntil (cl_call cl)"
          "ca_LockedUntil (cl_call cl) \<le> ca_ExpiresAt (cl_call cl)"
          "ca_ExpiresAt (cl_call cl) \<le> sy_clock s + cl_ttl cl"
        using c cl(3) by (auto simp: client_ok_def)
      ultimately have ok: "client_ok t' (sy_clock s) (cl\<lparr>cl_pc := p, cl_expiry := ca_ExpiresAt (cl_call cl)\<rparr>)"
        unfolding res by (auto simp: client_ok_def owns_def intro!: bexI [of _ ?x])
      show ?thesis
      proof (rule inv_acquire [OF inv i facts _ _ ok])
        show "holding (cl_pc (cl\<lparr>cl_pc := p, cl_expiry := ca_ExpiresAt (cl_call cl)\<rparr>)) = Some m" by (simp add: res)
      next
        fix z assume "z \<in> set (tb_rows t')" "ir_ID z = m"
        then have "z = ?x" using row by blast
        then show "\<exists>l. ir_LockedUntil z = Some l \<and> sy_clock s < l" using times(1) by (simp add: reclaimed_def)
      next
        fix j k assume "j < length (sy_clients s)" "j \<noteq> i" "holding (cl_pc (sy_clients s ! j)) = Some k"
        with kept x show "k \<noteq> m \<and> keepsRow (sy_table s) t' k" by blast
      qed
    qed
  qed
qed

text \<open>The statement that inserts the row.\<close>

lemma inv_create:
  assumes inv: "sys_inv s" and i: "i < length (sy_clients s)"
    and cl: "cl = sy_clients s ! i" "cl_pc cl = AtCreate"
    and run: "claimStep L sqlRepo (cl_call cl) AtCreate (atClock s fs) = (p, t')"
  shows "sys_inv (setClient s i (cl\<lparr>cl_pc := p, cl_expiry := ca_ExpiresAt (cl_call cl)\<rparr>) t')"
proof -
  let ?c = "cl_call cl" and ?m = "tb_nextID (sy_table s)"
  have tok: "table_ok (sy_table s)" using inv by (simp add: sys_inv_def)
  have c: "client_ok (sy_table s) (sy_clock s) cl" using inv_client [OF inv i] cl(1) by simp
  have times: "sy_clock s < ca_LockedUntil ?c" "ca_LockedUntil ?c \<le> ca_ExpiresAt ?c"
      "ca_ExpiresAt ?c \<le> sy_clock s + cl_ttl cl"
    using c cl(2) by (auto simp: client_ok_def)
  define r where "r = fst (sqlRun (insertProcessing (callRecord ?c)) (atClock s fs))"
  have r: "sqlRun (insertProcessing (callRecord ?c)) (atClock s fs) = (r, t')"
      "p = (case r of Inl _ \<Rightarrow> Decided unavailable
            | Inr (owner, rec1) \<Rightarrow> if owner then claimedPC (ir_ID rec1) else AtGet)"
    using run by (auto simp: sqlRepo_def r_def prod_eq_iff split: sum.splits prod.splits)
  from r(1) show ?thesis
  proof (cases rule: sqlRun_cases)
    case (lost e gs)
    then show ?thesis using r(2) by (intro inv_answered [OF inv i]) simp_all
  next
    case (ran gs)
    let ?t1 = "(sy_table s)\<lparr>tb_now := sy_clock s, tb_faults := gs\<rparr>"
    have t': "t' = snd (insertProcessing (callRecord ?c) ?t1)" using ran(1) by (simp add: atClock_def)
    show ?thesis
    proof (cases "find (hasKey (ca_Scope ?c) (ca_KeyHash ?c)) (tb_rows (sy_table s)) = None")
      case False
      then have "tb_rows t' = tb_rows (sy_table s)" "tb_nextID (sy_table s) \<le> tb_nextID t'"
          "p = Decided unavailable \<or> p = AtGet"
        using t' ran(2) r(2) by (auto simp: insertProcessing_def Let_def callRecord_def atClock_def)
      moreover have "client_ok t' (sy_clock s) (cl\<lparr>cl_pc := AtGet, cl_expiry := e\<rparr>)" for e
        using c cl(2) by (auto simp: client_ok_def)
      ultimately show ?thesis
        by (intro inv_same [OF inv i]) (auto simp: client_ok_def)
    next
      case True
      let ?x = "(callRecord ?c)\<lparr>ir_ID := ?m, ir_CreatedAt := sy_clock s, ir_UpdatedAt := sy_clock s\<rparr>"
      have rows: "tb_rows t' = tb_rows (sy_table s) @ [?x]" "tb_nextID t' = ?m + 1"
        using True t' by (auto simp: insertProcessing_def Let_def callRecord_def)
      have "insertProcessing (callRecord ?c) ((atClock s fs)\<lparr>tb_faults := gs\<rparr>) = ((True, ?x), t')"
        using True ran(1) by (auto simp: insertProcessing_def Let_def callRecord_def atClock_def)
      then have p: "p = Decided unavailable \<or> p = Decided (Claimed ?m)"
        using ran(2) r(2) tok by (auto simp: claimedPC_def table_ok_def)
      have "table_ok ?t1" using tok by (simp add: table_ok_def)
      from table_ok_insert [OF this, of "callRecord ?c"] have t_ok: "table_ok t'" unfolding t' .
      have ev: "evolves (sy_table s) t'" by (auto simp: evolves_def rows)
      have kept: "k \<noteq> ?m \<and> keepsRow (sy_table s) t' k"
        if "j < length (sy_clients s)" "holding (cl_pc (sy_clients s ! j)) = Some k" for j k
        using inv_held(2) [OF inv that] by (auto simp: keepsRow_def rows)
      have only: "z = ?x" if "z \<in> set (tb_rows t')" "ir_ID z = ?m" for z
        using that tok by (auto simp: rows table_ok_def)
      from p show ?thesis
      proof
        assume "p = Decided unavailable"
        then show ?thesis
          using kept by (intro inv_release [OF inv i t_ok ev]) (auto simp: client_ok_def)
      next
        assume res: "p = Decided (Claimed ?m)"
        have "rowKey ?x = callKey ?c" "ir_Status ?x = IdempotencyStatusProcessing" "ir_ExpiresAt ?x = ca_ExpiresAt ?c"
          by (simp_all add: callRecord_def rowKey_def callKey_def)
        then have ok: "client_ok t' (sy_clock s) (cl\<lparr>cl_pc := p, cl_expiry := ca_ExpiresAt ?c\<rparr>)"
          using times unfolding res by (auto simp: client_ok_def owns_def rows)
        show ?thesis
        proof (rule inv_acquire [OF inv i t_ok ev _ _ ok])
          show "holding (cl_pc (cl\<lparr>cl_pc := p, cl_expiry := ca_ExpiresAt ?c\<rparr>)) = Some ?m" by (simp add: res)
        next
          fix z assume "z \<in> set (tb_rows t')" "ir_ID z = ?m"
          then have "z = ?x" by (rule only)
          then show "\<exists>l. ir_LockedUntil z = Some l \<and> sy_clock s < l" using times(1) by (simp add: callRecord_def)
        qed (use kept in blast)
      qed
    qed
  qed
qed

text \<open>Statements of a client that holds its row.\<close>

lemma held_once:
  assumes "sys_inv s" and "i < length (sy_clients s)" and "holding (cl_pc (sy_clients s ! i)) = Some k"
    and "j < length (sy_clients s)" and "j \<noteq> i"
  shows "holding (cl_pc (sy_clients s ! j)) \<noteq> Some k"
  using inv_pair [OF assms(1,2,4)] assms(3,5) by (auto simp: pair_ok_def)

lemma inv_touch:
  assumes inv: "sys_inv s" and i: "i < length (sy_clients s)" and cl: "cl = sy_clients s ! i"
    and t: "tb_rows t' = tb_rows (sy_table s)" "tb_nextID t' = tb_nextID (sy_table s)"
    and h: "holding (cl_pc cl) = Some k" "holding p = Some k"
  shows "sys_inv (setClient s i (cl\<lparr>cl_pc := p\<rparr>) t')"
proof -
  let ?cl = "cl\<lparr>cl_pc := p\<rparr>"
  have tok: "table_ok (sy_table s)" using inv by (simp add: sys_inv_def)
  have np: "\<not> claiming p" "reclaims p = None" "abandoned p = None"
    using h(2) by (cases p rule: holding.cases; simp)+
  have c: "client_ok (sy_table s) (sy_clock s) cl" using inv_client [OF inv i] cl by simp
  show ?thesis
  proof (rule sys_inv_update [OF inv i])
    show "table_ok t'" using tok t by (simp add: table_ok_def)
    show "evolves (sy_table s) t'" by (rule evolves_refl) (simp_all add: t)
    show "client_ok t' (sy_clock s) ?cl" using c h np t(1) by (simp add: client_ok_def owns_def)
  next
    fix j assume j: "j < length (sy_clients s)" "j \<noteq> i"
    have "pair_ok (sy_table s) cl (sy_clients s ! j)" using inv_pair [OF inv i j(1)] j(2) cl by simp
    moreover have "pair_ok (sy_table s) (sy_clients s ! j) cl" using inv_pair [OF inv j(1) i j(2)] cl by simp
    ultimately show "pair_ok t' ?cl (sy_clients s ! j) \<and> pair_ok t' (sy_clients s ! j) ?cl"
      using h np t(1) by (auto simp: pair_ok_def)
  qed (rule keepsRow_refl [OF t(1)])
qed

lemma inv_mark:
  assumes inv: "sys_inv s" and i: "i < length (sy_clients s)" and cl: "cl = sy_clients s ! i"
    and h: "holding (cl_pc cl) = Some k"
    and upd: "\<And>x. ir_ID (upd x) = ir_ID x" "\<And>x. rowKey (upd x) = rowKey x"
    and run: "sqlRun (updateWhere (\<lambda>x. ir_ID x = k) upd) (atClock s fs) = (r, t')"
  shows "sys_inv (setClient s i (cl\<lparr>cl_pc := Decided (Answer a)\<rparr>) t')"
  using run
proof (cases rule: sqlRun_cases)
  case (lost e gs)
  then show ?thesis by (intro inv_answered [OF inv i]) simp_all
next
  case (ran gs)
  have tok: "table_ok (sy_table s)" using inv by (simp add: sys_inv_def)
  let ?t1 = "(sy_table s)\<lparr>tb_now := sy_clock s, tb_faults := gs\<rparr>"
  have t': "t' = snd (updateWhere (\<lambda>x. ir_ID x = k) upd ?t1)" using ran(1) by (simp add: atClock_def)
  have f: "table_ok t'" "evolves (sy_table s) t'"
    unfolding t' by (rule update_facts [OF tok upd refl])+
  show ?thesis
  proof (rule inv_release [OF inv i f])
    fix j m assume j: "j < length (sy_clients s)" "j \<noteq> i" "holding (cl_pc (sy_clients s ! j)) = Some m"
    then have "m \<noteq> k" using held_once [OF inv i _ j(1,2), of k] h cl by auto
    then show "keepsRow (sy_table s) t' m"
      unfolding t' by (intro update_facts(3) [OF tok upd refl]) simp
  qed simp_all
qed

lemma renewalLease_pos: "0 < renewalLease cfg"
  by (simp add: renewalLease_def DefaultIdempotencyConfig_def duration_defs)

lemma inv_renew:
  assumes inv: "sys_inv s" and i: "i < length (sy_clients s)" and cl: "cl = sy_clients s ! i"
    and h: "holding (cl_pc cl) = Some k"
    and run: "ExtendProcessingLock sqlRepo k fp (t_add (sy_clock s) (renewalLease cfg))
      (t_add (sy_clock s) (cl_ttl cl)) (atClock s fs) = (res, t')"
  shows "sys_inv (setClient s i
      (cl\<lparr>cl_expiry := (if res = Inr True then t_add (sy_clock s) (cl_ttl cl) else cl_expiry cl)\<rparr>) t')"
proof -
  let ?P = "extendable k fp" and ?upd = "extended (t_add (sy_clock s) (renewalLease cfg)) (t_add (sy_clock s) (cl_ttl cl))"
  let ?cl = "cl\<lparr>cl_expiry := (if res = Inr True then t_add (sy_clock s) (cl_ttl cl) else cl_expiry cl)\<rparr>"
  have tok: "table_ok (sy_table s)" using inv by (simp add: sys_inv_def)
  define r where "r = fst (sqlRun (updateWhere ?P ?upd) (atClock s fs))"
  have r: "sqlRun (updateWhere ?P ?upd) (atClock s fs) = (r, t')" "res = map_sum id (\<lambda>n. n > 0) r"
    using run by (auto simp: sqlRepo_def affected_def r_def prod_eq_iff)
  have same: "sys_inv (setClient s i cl t)"
    if "tb_rows t = tb_rows (sy_table s)" "tb_nextID t = tb_nextID (sy_table s)" for t
    using inv_touch [OF inv i cl that h h] by simp
  from r(1) show ?thesis
  proof (cases rule: sqlRun_cases)
    case (lost e gs)
    then show ?thesis using r(2) same [of t'] by simp
  next
    case (ran gs)
    let ?t1 = "(sy_table s)\<lparr>tb_now := sy_clock s, tb_faults := gs\<rparr>"
    have t': "t' = snd (updateWhere ?P ?upd ?t1)" using ran(1) by (simp add: atClock_def)
    show ?thesis
    proof (cases "\<exists>x\<in>set (tb_rows (sy_table s)). ?P x")
      case False
      then have "tb_rows t' = tb_rows (sy_table s)" "tb_nextID t' = tb_nextID (sy_table s)" "res \<noteq> Inr True"
        using ran r(2) by (auto simp: updateWhere_def atClock_def filter_empty_conv intro!: map_idI)
      then show ?thesis using same [of t'] by simp
    next
      case True
      then obtain x where x: "x \<in> set (tb_rows (sy_table s))" "?P x" "ir_ID x = k"
        by (auto simp: extendable_def)
      have row: "z \<in> set (tb_rows t') \<and> ir_ID z = k \<longleftrightarrow> z = (?upd x)\<lparr>ir_UpdatedAt := sy_clock s\<rparr>" for z
        unfolding t' by (rule updated_row [where P = ?P and upd = ?upd, OF tok x upd_ID(2) refl])
      let ?x = "(?upd x)\<lparr>ir_UpdatedAt := sy_clock s\<rparr>"
      have f: "table_ok t'" "evolves (sy_table s) t'"
        unfolding t' by (rule update_facts [OF tok upd_ID(2) upd_rowKey(2) refl])+
      have "client_ok (sy_table s) (sy_clock s) cl" using inv_client [OF inv i] cl by simp
      then have own: "owns (sy_table s) (sy_clock s) cl k" "cl_expiry cl \<le> sy_clock s + cl_ttl cl"
        using h by (auto simp: client_ok_def)
      then have ox: "rowKey x = callKey (cl_call cl)" "ir_Status x = IdempotencyStatusProcessing" "sy_clock s < cl_expiry cl"
        using rows_inj(1) [OF tok _ x(1)] x(3) by (auto simp: owns_def)
      have "?x \<in> set (tb_rows t')" "ir_ID ?x = k" using row [of ?x] by blast+
      moreover have "rowKey ?x = rowKey x" "ir_Status ?x = ir_Status x"
          "ir_ExpiresAt ?x = sy_clock s + cl_ttl cl" "ir_LockedUntil ?x = Some (sy_clock s + renewalLease cfg)"
        by (simp_all add: extended_def rowKey_def t_add_def)
      ultimately have "owns t' (sy_clock s) ?cl k"
        unfolding owns_def using ox own(2) by (intro bexI [of _ ?x]) (auto simp: t_add_def)
      then have ok: "client_ok t' (sy_clock s) ?cl"
        using h own(2) holding_not_claiming [OF h] abandoned_reclaims
        by (cases "cl_pc cl" rule: holding.cases) (auto simp: client_ok_def t_add_def)
      show ?thesis
      proof (rule inv_acquire [OF inv i f _ _ ok])
        show "holding (cl_pc ?cl) = Some k" using h by simp
      next
        fix j m assume j: "j < length (sy_clients s)" "j \<noteq> i" "holding (cl_pc (sy_clients s ! j)) = Some m"
        then have "m \<noteq> k" using held_once [OF inv i _ j(1,2), of k] h cl by auto
        moreover from this have "keepsRow (sy_table s) t' m"
          unfolding t' by (intro update_facts(3) [OF tok upd_ID(2) upd_rowKey(2) refl]) (simp add: extendable_def)
        ultimately show "m \<noteq> k \<and> keepsRow (sy_table s) t' m" by simp
      next
        fix z assume "z \<in> set (tb_rows t')" "ir_ID z = k"
        then have "z = ?x" using row by blast
        then show "\<exists>l. ir_LockedUntil z = Some l \<and> sy_clock s < l"
          using renewalLease_pos [of cfg] by (simp add: extended_def t_add_def)
      qed
    qed
  qed
qed

section \<open>Reachable states\<close>

text \<open>A statement of a claim that reads the row of the key.\<close>

lemma inv_get:
  assumes inv: "sys_inv s" and i: "i < length (sy_clients s)"
    and cl: "cl = sy_clients s ! i" "claiming (cl_pc cl)"
    and run: "GetByScopeAndKeyHash sqlRepo (ca_Scope (cl_call cl)) (ca_KeyHash (cl_call cl)) (atClock s fs) = (res, t')"
    and p: "(case res of Inr (Some x) \<Rightarrow>
          (\<exists>a. p = Decided (Answer a)) \<or> p = decide L (cl_call cl) x
          \<or> p = AtReclaimExpired x \<and> ir_ExpiresAt x \<le> ca_Now (cl_call cl)
        | _ \<Rightarrow> \<exists>a. p = Decided (Answer a))"
  shows "sys_inv (setClient s i (cl\<lparr>cl_pc := p, cl_expiry := e\<rparr>) t')"
proof -
  have run': "sqlRun (selectByKey (ca_Scope (cl_call cl)) (ca_KeyHash (cl_call cl))) (atClock s fs) = (res, t')"
    using run by (simp add: sqlRepo_def)
  then have t: "tb_rows t' = tb_rows (sy_table s)" "tb_nextID t' = tb_nextID (sy_table s)"
    by (cases rule: sqlRun_cases, simp_all add: selectByKey_def atClock_def)+
  show ?thesis
  proof (cases "\<exists>a. p = Decided (Answer a)")
    case True
    then show ?thesis by (elim exE, intro inv_answered [OF inv i]) (simp_all add: t)
  next
    case False
    then obtain x where x: "res = Inr (Some x)"
        "p = AtReclaimExpired x \<and> ir_ExpiresAt x \<le> ca_Now (cl_call cl) \<or> p = decide L (cl_call cl) x"
      using p by (cases res; cases "projr res") (auto split: option.splits)
    from run' x(1) have "find (hasKey (ca_Scope (cl_call cl)) (ca_KeyHash (cl_call cl))) (tb_rows (sy_table s)) = Some x"
      by (cases rule: sqlRun_cases) (simp_all add: selectByKey_def atClock_def)
    then have "x \<in> set (tb_rows (sy_table s))" "rowKey x = callKey (cl_call cl)"
      using find_row by (fastforce simp: hasKey_rowKey callKey_def)+
    from inv_read [OF inv i cl this x(2) t] show ?thesis .
  qed
qed

lemma inv_claim:
  assumes inv: "sys_inv s" and i: "i < length (sy_clients s)" and cl: "cl = sy_clients s ! i"
    and pc: "claiming (cl_pc cl)"
    and run: "claimStep L sqlRepo (cl_call cl) (cl_pc cl) (atClock s fs) = (p, t')"
  shows "sys_inv (setClient s i (cl\<lparr>cl_pc := p, cl_expiry := ca_ExpiresAt (cl_call cl)\<rparr>) t')"
proof (cases "cl_pc cl")
  case AtCreate
  with run show ?thesis by (intro inv_create [OF inv i cl]) simp_all
next
  case AtGet
  let ?get = "GetByScopeAndKeyHash sqlRepo (ca_Scope (cl_call cl)) (ca_KeyHash (cl_call cl)) (atClock s fs)"
  have "?get = (fst ?get, t')" using run AtGet by (auto simp: prod_eq_iff split: sum.splits option.splits prod.splits)
  from inv_get [OF inv i cl pc this, where L = L and p = p] show ?thesis
    using run AtGet by (fastforce split: sum.splits option.splits prod.splits if_splits)
next
  case AtGetLatest
  let ?get = "GetByScopeAndKeyHash sqlRepo (ca_Scope (cl_call cl)) (ca_KeyHash (cl_call cl)) (atClock s fs)"
  have "?get = (fst ?get, t')" using run AtGetLatest by (auto simp: prod_eq_iff split: sum.splits option.splits prod.splits)
  from inv_get [OF inv i cl pc this, where L = L and p = p] show ?thesis
    using run AtGetLatest by (fastforce split: sum.splits option.splits prod.splits if_splits)
next
  case (AtReclaimExpired x)
  let ?attempt = "TryReclaim sqlRepo (ir_ID x) (ir_Status x) (ca_Now (cl_call cl)) (ca_LockedUntil (cl_call cl))
      (ca_ExpiresAt (cl_call cl)) (atClock s fs)"
  have tok: "table_ok (sy_table s)" using inv by (simp add: sys_inv_def)
  have attempt: "?attempt = (fst ?attempt, t')" using run AtReclaimExpired by (auto simp: prod_eq_iff split: sum.splits prod.splits)
  show ?thesis
  proof (rule inv_reclaim [OF inv i cl _ pc _ attempt])
    show "reclaims (cl_pc cl) = Some (ir_ID x)" by (simp add: AtReclaimExpired)
  next
    fix j y assume j: "j < length (sy_clients s)" "j \<noteq> i" "holding (cl_pc (sy_clients s ! j)) = Some (ir_ID x)"
      and y: "y \<in> set (tb_rows (sy_table s))"
    show "\<not> reclaimable (ir_ID x) (ir_Status x) (ca_Now (cl_call cl)) y"
    proof
      assume r: "reclaimable (ir_ID x) (ir_Status x) (ca_Now (cl_call cl)) y"
      then have "ir_Status y = IdempotencyStatusProcessing"
        using inv_held(1) [OF inv j(1,3)] rows_inj(1) [OF tok _ y] by (auto simp: owns_def reclaimable_def)
      then have "abandoned (cl_pc cl) = Some (ir_ID x)" using r AtReclaimExpired by (simp add: reclaimable_def)
      moreover have "pair_ok (sy_table s) (sy_clients s ! j) cl" using inv_pair [OF inv j(1) i j(2)] cl by simp
      ultimately have "\<exists>l. ir_LockedUntil y = Some l \<and> ca_Now (cl_call cl) < l"
        using j(3) y r by (auto simp: pair_ok_def reclaimable_def)
      with r show False by (auto simp: reclaimable_def)
    qed
  qed (use run AtReclaimExpired in \<open>auto split: sum.splits prod.splits\<close>)
next
  case (AtReclaimFailed x)
  let ?attempt = "TryReclaim sqlRepo (ir_ID x) IdempotencyStatusFailedRetryable (ca_Now (cl_call cl))
      (ca_LockedUntil (cl_call cl)) (ca_ExpiresAt (cl_call cl)) (atClock s fs)"
  have tok: "table_ok (sy_table s)" using inv by (simp add: sys_inv_def)
  have attempt: "?attempt = (fst ?attempt, t')" using run AtReclaimFailed by (auto simp: prod_eq_iff split: sum.splits prod.splits)
  show ?thesis
  proof (rule inv_reclaim [OF inv i cl _ pc _ attempt])
    show "reclaims (cl_pc cl) = Some (ir_ID x)" by (simp add: AtReclaimFailed)
  next
    fix j y assume j: "j < length (sy_clients s)" "j \<noteq> i" "holding (cl_pc (sy_clients s ! j)) = Some (ir_ID x)"
      and y: "y \<in> set (tb_rows (sy_table s))"
    show "\<not> reclaimable (ir_ID x) IdempotencyStatusFailedRetryable (ca_Now (cl_call cl)) y"
      using inv_held(1) [OF inv j(1,3)] rows_inj(1) [OF tok _ y]
      by (auto simp: owns_def reclaimable_def idemStatuses)
  qed (use run AtReclaimFailed in \<open>auto split: sum.splits prod.splits if_splits\<close>)
qed (use pc in simp_all)

lemma sys_inv_table:
  assumes inv: "sys_inv s" and t: "table_ok t'" "evolves (sy_table s) t'"
    and kept: "\<And>j k. j < length (sy_clients s) \<Longrightarrow> holding (cl_pc (sy_clients s ! j)) = Some k
      \<Longrightarrow> keepsRow (sy_table s) t' k"
  shows "sys_inv (s\<lparr>sy_table := t'\<rparr>)"
proof -
  have "client_ok t' (sy_clock s) b" if b: "b \<in> set (sy_clients s)" for b
  proof (rule client_ok_frame [OF _ t(2)])
    show "client_ok (sy_table s) (sy_clock s) b" using inv b by (simp add: sys_inv_def)
    show "keepsRow (sy_table s) t' k" if "holding (cl_pc b) = Some k" for k
      using b kept that by (auto simp: in_set_conv_nth)
  qed
  moreover have "pair_ok t' (sy_clients s ! j) (sy_clients s ! k)"
    if "j < length (sy_clients s)" "k < length (sy_clients s)" "j \<noteq> k" for j k
    by (rule pair_ok_frame [OF inv_pair [OF inv that] kept [OF that(1)]])
  ultimately show ?thesis using t(1) by (simp add: sys_inv_def)
qed

lemma inv_step: "sys_step L cfg s s' \<Longrightarrow> 0 < ic_ProcessingTimeout cfg \<Longrightarrow> sys_inv s \<Longrightarrow> sys_inv s'"
proof (induction rule: sys_step.induct)
  case (arrive s c ttl d)
  let ?new = "\<lparr>cl_call = c, cl_ttl = ttl, cl_detached = d, cl_pc = AtCreate, cl_expiry = 0\<rparr>"
  have "client_ok (sy_table s) (sy_clock s) ?new"
    using arrive.hyps arrive.prems(1) by (simp add: client_ok_def arriving_def t_add_def)
  moreover have "pair_ok (sy_table s) ?new b" "pair_ok (sy_table s) b ?new" for b
    by (simp_all add: pair_ok_def)
  ultimately show ?case
    using arrive.prems(2) by (auto simp: sys_inv_def nth_append less_Suc_eq)
next
  case (claim i s cl fs p t)
  then show ?case by (intro inv_claim) simp_all
next
  case (renew i s cl k fs res t)
  then show ?case by (intro inv_renew) simp_all
next
  case (finish i s cl k outcome)
  then show ?case by (intro inv_touch) simp_all
next
  case (store i s cl k outcome fs res t)
  let ?e = "if cl_detached cl then t_add (sy_clock s) (cl_ttl cl) else ca_ExpiresAt (cl_call cl)"
  have h: "holding (cl_pc cl) = Some k" using store.hyps(3) by simp
  show ?case
  proof (cases outcome)
    case (Inl err)
    let ?run = "sqlRun (updateWhere (\<lambda>x. ir_ID x = k) (failedRetryable (failureReason err)
        (t_add (sy_clock s) (ic_FailedRetryBackoff cfg)) ?e)) (atClock s fs)"
    have "?run = (fst ?run, t)"
      using store.hyps(4) Inl
      by (auto simp: storeOutcome_def sqlRepo_def errorOnly_def failureReason_def prod_eq_iff)
    from inv_mark [OF store.prems(2) store.hyps(1,2) h upd_ID(4) upd_rowKey(4) this] show ?thesis .
  next
    case (Inr d)
    show ?thesis
    proof (cases "marshalStoredResponse L cfg d")
      case None
      then have "t = atClock s fs" using store.hyps(4) Inr by (simp add: storeOutcome_def)
      then show ?thesis by (intro inv_answered [OF store.prems(2) store.hyps(1)]) simp_all
    next
      case (Some b)
      let ?run = "sqlRun (updateWhere (\<lambda>x. ir_ID x = k) (succeeded 200 b ?e)) (atClock s fs)"
      have "?run = (fst ?run, t)"
        using store.hyps(4) Inr Some
        by (auto simp: storeOutcome_def sqlRepo_def errorOnly_def prod_eq_iff map_sum_def split: sum.splits prod.splits)
      from inv_mark [OF store.prems(2) store.hyps(1,2) h upd_ID(3) upd_rowKey(3) this] show ?thesis .
    qed
  qed
next
  case (cleanup s batch fs)
  let ?run = "sqlRun (deleteExpiredRows (sy_clock s) batch) (atClock s fs)"
  have inv: "sys_inv s" by (rule cleanup.prems)
  then have tok: "table_ok (sy_table s)" by (simp add: sys_inv_def)
  have "?run = (fst ?run, cleanupOnce sqlRepo batch (sy_clock s) (atClock s fs))"
    by (simp add: cleanupOnce_def sqlRepo_def)
  then show ?case
  proof (cases rule: sqlRun_cases)
    case (lost e gs)
    then show ?thesis
      using tok by (intro sys_inv_table [OF inv] evolves_refl keepsRow_refl) (simp_all add: table_ok_def)
  next
    case (ran gs)
    let ?t1 = "(atClock s fs)\<lparr>tb_faults := gs\<rparr>"
    have tok1: "table_ok ?t1" using tok by (simp add: table_ok_def)
    show ?thesis
      unfolding ran(1)
    proof (rule sys_inv_table [OF inv table_ok_delete [OF tok1]])
      show "evolves (sy_table s) (snd (deleteExpiredRows (sy_clock s) batch ?t1))"
        using delete_evolves [of ?t1] by (simp add: evolves_def)
    next
      fix j k assume "j < length (sy_clients s)" "holding (cl_pc (sy_clients s ! j)) = Some k"
      from inv_held(1) [OF inv this] obtain x where
        "x \<in> set (tb_rows ?t1)" "ir_ID x = k" "sy_clock s < ir_ExpiresAt x" by (auto simp: owns_def)
      from delete_keeps [OF tok1 this, of batch]
      show "keepsRow (sy_table s) (snd (deleteExpiredRows (sy_clock s) batch ?t1)) k"
        by (simp add: keepsRow_def)
    qed
  qed
next
  case (tick s now)
  have "client_ok (sy_table s) now b" if b: "b \<in> set (sy_clients s)" for b
  proof -
    have "client_ok (sy_table s) (sy_clock s) b" using tick.prems(2) b by (simp add: sys_inv_def)
    moreover have "claiming (cl_pc b) \<Longrightarrow> now < ca_LockedUntil (cl_call b)"
      "holding (cl_pc b) \<noteq> None \<Longrightarrow> now < cl_expiry b"
      using tick.hyps(2) b by (auto simp: timely_def)
    ultimately show ?thesis using tick.hyps(1) by (auto simp: client_ok_def owns_def)
  qed
  then show ?case using tick.prems(2) by (simp add: sys_inv_def)
qed

lemma reach_inv: "sys_reach L cfg s \<Longrightarrow> 0 < ic_ProcessingTimeout cfg \<Longrightarrow> sys_inv s"
proof (induction rule: sys_reach.induct)
  case (start t now)
  then show ?case by (simp add: sys_inv_def)
qed (rule inv_step)

text \<open>C37. However the statements of concurrent calls, renewals and clean-up rounds interleave and
fail, no two calls execute the same key at the same time.\<close>

theorem executions_exclusive:
  assumes "sys_reach L cfg s" and "0 < ic_ProcessingTimeout cfg"
    and "i < length (sy_clients s)" and "j < length (sy_clients s)" and "i \<noteq> j"
    and "holding (cl_pc (sy_clients s ! i)) = Some k" and "holding (cl_pc (sy_clients s ! j)) = Some m"
  shows "callKey (cl_call (sy_clients s ! i)) \<noteq> callKey (cl_call (sy_clients s ! j))"
proof
  assume key: "callKey (cl_call (sy_clients s ! i)) = callKey (cl_call (sy_clients s ! j))"
  have inv: "sys_inv s" by (rule reach_inv [OF assms(1,2)])
  then have tok: "table_ok (sy_table s)" by (simp add: sys_inv_def)
  have "k = m"
    using inv_held(1) [OF inv assms(3,6)] inv_held(1) [OF inv assms(4,7)] key rows_inj(2) [OF tok]
    unfolding owns_def by metis
  then show False using held_once [OF inv assms(3,6,4)] assms(5,7) by simp
qed

text \<open>Two calls with different scopes, both executing.\<close>

definition newClient :: "idemCall \<Rightarrow> string client" where
  "newClient c = \<lparr>cl_call = c, cl_ttl = 24 * hour, cl_detached = False, cl_pc = AtCreate, cl_expiry = 0\<rparr>"

definition race2 :: "string system" where
  "race2 = \<lparr>sy_table = table0, sy_clock = 100,
     sy_clients = [newClient (call0 100), newClient ((call0 100)\<lparr>ca_Scope := ''other''\<rparr>)]\<rparr>"

definition claimAt :: "nat \<Rightarrow> string system \<Rightarrow> string system" where
  "claimAt i s = (let cl = sy_clients s ! i;
       r = claimStep plainLib sqlRepo (cl_call cl) (cl_pc cl) (atClock s [])
     in setClient s i (cl\<lparr>cl_pc := fst r, cl_expiry := ca_ExpiresAt (cl_call cl)\<rparr>) (snd r))"

lemma claimAt_reach:
  "sys_reach plainLib cfg s \<Longrightarrow> i < length (sy_clients s) \<Longrightarrow> claiming (cl_pc (sy_clients s ! i))
   \<Longrightarrow> sys_reach plainLib cfg (claimAt i s)"
  unfolding claimAt_def Let_def by (rule next_step, assumption, rule sys_step.claim) simp_all

lemma race2_reach: "sys_reach plainLib DefaultIdempotencyConfig race2"
proof -
  let ?s0 = "\<lparr>sy_table = table0, sy_clock = 100, sy_clients = []\<rparr> :: string system"
  let ?s1 = "?s0\<lparr>sy_clients := [newClient (call0 100)]\<rparr>"
  have 0: "sys_reach plainLib DefaultIdempotencyConfig ?s0"
    by (rule sys_reach.start) (use table0(1) in \<open>simp add: faultFree_def\<close>)
  have a: "arriving DefaultIdempotencyConfig 100 (call0 100) (24 * hour)"
    "arriving DefaultIdempotencyConfig 100 ((call0 100)\<lparr>ca_Scope := ''other''\<rparr>) (24 * hour)"
    by (simp_all add: arriving_def call0_def idemCallOf_def effectiveTTL_def opts0_def
        DefaultIdempotencyConfig_def t_add_def duration_defs)
  have "sys_step plainLib DefaultIdempotencyConfig ?s0 ?s1"
    using sys_step.arrive [of DefaultIdempotencyConfig ?s0 "call0 100" "24 * hour" plainLib False] a(1)
    by (simp add: newClient_def)
  then have 1: "sys_reach plainLib DefaultIdempotencyConfig ?s1" by (rule next_step [OF 0])
  have "sys_step plainLib DefaultIdempotencyConfig ?s1 race2"
    using sys_step.arrive [of DefaultIdempotencyConfig ?s1 "(call0 100)\<lparr>ca_Scope := ''other''\<rparr>" "24 * hour" plainLib False]
      a(2) by (simp add: newClient_def race2_def)
  then show ?thesis by (rule next_step [OF 1])
qed

theorem executions_exclusive_witness:
  "holding (cl_pc (sy_clients (claimAt 1 (claimAt 0 race2)) ! 0)) = Some 1
   \<and> holding (cl_pc (sy_clients (claimAt 1 (claimAt 0 race2)) ! 1)) = Some 2
   \<and> callKey (cl_call (sy_clients (claimAt 1 (claimAt 0 race2)) ! 0))
     \<noteq> callKey (cl_call (sy_clients (claimAt 1 (claimAt 0 race2)) ! 1))"
proof -
  let ?s = "claimAt 1 (claimAt 0 race2)"
  have len: "length (sy_clients race2) = 2" "length (sy_clients (claimAt 0 race2)) = 2" "length (sy_clients ?s) = 2"
    by (simp_all add: race2_def claimAt_def Let_def setClient_def)
  have pc: "claiming (cl_pc (sy_clients race2 ! 0))" "claiming (cl_pc (sy_clients (claimAt 0 race2) ! 1))"
    by (simp_all add: race2_def newClient_def claimAt_def Let_def setClient_def)
  have reach: "sys_reach plainLib DefaultIdempotencyConfig ?s"
    by (intro claimAt_reach race2_reach) (use len pc in simp_all)
  have h: "holding (cl_pc (sy_clients ?s ! 0)) = Some 1" "holding (cl_pc (sy_clients ?s ! 1)) = Some 2"
    by code_simp+
  have "0 < ic_ProcessingTimeout DefaultIdempotencyConfig"
    by (simp add: DefaultIdempotencyConfig_def duration_defs)
  moreover have "0 < length (sy_clients ?s)" "1 < length (sy_clients ?s)" "(0::nat) \<noteq> 1"
    unfolding len(3) by simp_all
  ultimately have "callKey (cl_call (sy_clients ?s ! 0)) \<noteq> callKey (cl_call (sy_clients ?s ! 1))"
    using executions_exclusive [OF reach _ _ _ _ h] by blast
  with h show ?thesis by blast
qed

end
