(* ===== verification/SubscriptionWindows.thy ===== *)
theory SubscriptionWindows
  imports GoText
begin

text \<open>
  A subscription's term, its usage windows and its limits: \<open>user_subscription.go\<close>,
  \<open>timezone.go\<close> (\<open>StartOfDay\<close>) and the limits of \<open>group.go\<close>.

  \<^item> A time zone is the function that gives the offset in force at an instant; \<open>dateIn\<close> is how
    \<open>time.Date\<close> turns a wall clock into an instant. Rows read from the database and the clock are
    in the configured location, as \<open>timezone.Init\<close> makes it the process's local one.
  \<^item> Usage, costs and limits are whole numbers of 1e-10 USD, the scale of the usage columns; the
    \<open>float64\<close> rounding of the loaded values is not modelled.
  \<^item> Of a row, \<open>created_at\<close>, \<open>updated_at\<close> and the loaded user and group are left out.
\<close>

section \<open>Calendar days in a time zone\<close>

type_synonym zone = "time \<Rightarrow> duration"

definition day :: duration where "day = 24 * hour"

definition wallClock :: "zone \<Rightarrow> time \<Rightarrow> time" where
  "wallClock z t = t + z t"

definition dateIn :: "zone \<Rightarrow> time \<Rightarrow> time" where
  "dateIn z wall = wall - z (wall - z wall)"

definition StartOfDay :: "zone \<Rightarrow> time \<Rightarrow> time" where
  "StartOfDay z t = dateIn z (wallClock z t div day * day)"

text \<open>\<open>AddDate(0, 0, n)\<close> keeps the wall clock and moves the date.\<close>

definition AddDays :: "zone \<Rightarrow> time \<Rightarrow> int \<Rightarrow> time" where
  "AddDays z t n = dateIn z (wallClock z t + n * day)"

text \<open>A zone whose offset never changes, such as UTC or (since 1991) Asia/Shanghai, the default.\<close>

definition fixed_zone :: "zone \<Rightarrow> bool" where
  "fixed_zone z \<longleftrightarrow> (\<forall>t. z t = z 0)"

definition shanghai :: zone where "shanghai t = 8 * hour"

lemma day_pos: "0 < day"
  by (simp add: day_def hour_def minute_def second_def)

lemma fixed_shanghai: "fixed_zone shanghai"
  by (simp add: fixed_zone_def shanghai_def)

lemma fixed_zoneD: "fixed_zone z \<Longrightarrow> z t = z 0"
  by (simp add: fixed_zone_def)

lemma dateIn_fixed: "fixed_zone z \<Longrightarrow> dateIn z w = w - z 0"
  using fixed_zoneD [of z "w - z w"] by (simp add: dateIn_def)

lemma StartOfDay_fixed: "fixed_zone z \<Longrightarrow> StartOfDay z t = (t + z 0) div day * day - z 0"
  using fixed_zoneD [of z t] by (simp add: StartOfDay_def dateIn_fixed wallClock_def)

lemma AddDays_fixed [timing]: "fixed_zone z \<Longrightarrow> AddDays z t n = t + n * day"
  using fixed_zoneD [of z t] by (simp add: AddDays_def dateIn_fixed wallClock_def)

lemma StartOfDay_le: "fixed_zone z \<Longrightarrow> StartOfDay z t \<le> t"
  using minus_mod_eq_div_mult [of "t + z 0" day] pos_mod_sign [OF day_pos, of "t + z 0"]
  by (simp only: StartOfDay_fixed)

lemma StartOfDay_next: "fixed_zone z \<Longrightarrow> t < StartOfDay z t + day"
  using minus_mod_eq_div_mult [of "t + z 0" day] pos_mod_bound [OF day_pos, of "t + z 0"]
  by (simp only: StartOfDay_fixed)

lemma StartOfDay_mono: "fixed_zone z \<Longrightarrow> t \<le> u \<Longrightarrow> StartOfDay z t \<le> StartOfDay z u"
  using day_pos by (simp add: StartOfDay_fixed zdiv_mono1 mult_right_mono)

lemma StartOfDay_idem: "fixed_zone z \<Longrightarrow> StartOfDay z (StartOfDay z t) = StartOfDay z t"
  using day_pos by (simp add: StartOfDay_fixed)

text \<open>An instant is past the first midnight after \<open>t\<close> exactly when its day starts later.\<close>

lemma StartOfDay_less:
  assumes z: "fixed_zone z"
  shows "StartOfDay z t < StartOfDay z u \<longleftrightarrow> StartOfDay z t + day \<le> u"
proof
  assume lt: "StartOfDay z t < StartOfDay z u"
  have "(t + z 0) div day < (u + z 0) div day"
    using lt day_pos by (simp add: StartOfDay_fixed [OF z])
  then have "(t + z 0) div day + 1 \<le> (u + z 0) div day" by simp
  then have "((t + z 0) div day + 1) * day \<le> (u + z 0) div day * day"
    using day_pos by (simp add: mult_right_mono)
  then have "StartOfDay z t + day \<le> StartOfDay z u"
    by (simp add: StartOfDay_fixed [OF z] ring_distribs)
  then show "StartOfDay z t + day \<le> u" using StartOfDay_le [OF z, of u] by simp
next
  assume le: "StartOfDay z t + day \<le> u"
  have "StartOfDay z (StartOfDay z t + day) \<le> StartOfDay z u" by (rule StartOfDay_mono [OF z le])
  moreover have "StartOfDay z (StartOfDay z t + day) = StartOfDay z t + day"
    using day_pos by (simp add: StartOfDay_fixed [OF z]) (simp add: distrib_right)
  ultimately show "StartOfDay z t < StartOfDay z u" using day_pos by simp
qed

section \<open>Subscriptions and groups\<close>

definition SubscriptionStatusActive :: string where "SubscriptionStatusActive = ''active''"
definition SubscriptionStatusExpired :: string where "SubscriptionStatusExpired = ''expired''"
definition SubscriptionStatusSuspended :: string where "SubscriptionStatusSuspended = ''suspended''"
definition SubscriptionStatusRevoked :: string where "SubscriptionStatusRevoked = ''revoked''"
definition SubscriptionTypeSubscription :: string where "SubscriptionTypeSubscription = ''subscription''"

lemmas subStatuses =
  SubscriptionStatusActive_def SubscriptionStatusExpired_def SubscriptionStatusSuspended_def
  SubscriptionStatusRevoked_def

record userSub =
  us_ID :: int
  us_UserID :: int
  us_GroupID :: int
  us_StartsAt :: time
  us_ExpiresAt :: time
  us_Status :: string
  us_DailyWindowStart :: "time option"
  us_WeeklyWindowStart :: "time option"
  us_MonthlyWindowStart :: "time option"
  us_DailyUsageUSD :: int
  us_WeeklyUsageUSD :: int
  us_MonthlyUsageUSD :: int
  us_AssignedBy :: "int option"
  us_AssignedAt :: time
  us_Notes :: string
  us_DeletedAt :: "time option"

record subGroup =
  sg_SubscriptionType :: string
  sg_DailyLimitUSD :: "int option"
  sg_WeeklyLimitUSD :: "int option"
  sg_MonthlyLimitUSD :: "int option"

definition IsSubscriptionType :: "subGroup \<Rightarrow> bool" where
  "IsSubscriptionType g \<longleftrightarrow> sg_SubscriptionType g = SubscriptionTypeSubscription"

definition HasDailyLimit :: "subGroup \<Rightarrow> bool" where
  "HasDailyLimit g = (case sg_DailyLimitUSD g of None \<Rightarrow> False | Some l \<Rightarrow> 0 < l)"
definition HasWeeklyLimit :: "subGroup \<Rightarrow> bool" where
  "HasWeeklyLimit g = (case sg_WeeklyLimitUSD g of None \<Rightarrow> False | Some l \<Rightarrow> 0 < l)"
definition HasMonthlyLimit :: "subGroup \<Rightarrow> bool" where
  "HasMonthlyLimit g = (case sg_MonthlyLimitUSD g of None \<Rightarrow> False | Some l \<Rightarrow> 0 < l)"

definition SubIsActive :: "userSub \<Rightarrow> time \<Rightarrow> bool" where
  "SubIsActive s now \<longleftrightarrow> us_Status s = SubscriptionStatusActive \<and> t_before now (us_ExpiresAt s)"

definition SubIsExpired :: "userSub \<Rightarrow> time \<Rightarrow> bool" where
  "SubIsExpired s now \<longleftrightarrow> t_after now (us_ExpiresAt s)"

definition daysRemainingAt :: "userSub \<Rightarrow> time \<Rightarrow> int" where
  "daysRemainingAt s now =
    (let remaining = t_sub (us_ExpiresAt s) now
     in if remaining \<le> 0 then 0
        else (let days = go_div remaining day
              in if go_mod remaining day \<noteq> 0 then days + 1 else days))"

definition IsWindowActivated :: "userSub \<Rightarrow> bool" where
  "IsWindowActivated s \<longleftrightarrow>
     us_DailyWindowStart s \<noteq> None \<or> us_WeeklyWindowStart s \<noteq> None \<or> us_MonthlyWindowStart s \<noteq> None"

definition HasOneTimeDailyQuota :: "zone \<Rightarrow> userSub \<Rightarrow> bool" where
  "HasOneTimeDailyQuota z s \<longleftrightarrow>
     \<not> (is_zero (us_StartsAt s) \<or> is_zero (us_ExpiresAt s))
     \<and> \<not> t_after (us_ExpiresAt s) (AddDays z (us_StartsAt s) 1)"

section \<open>Windows\<close>

abbreviation (input) week :: duration where "week \<equiv> 7 * 24 * hour"
abbreviation (input) month :: duration where "month \<equiv> 30 * 24 * hour"

definition NeedsWeeklyResetAt :: "userSub \<Rightarrow> time \<Rightarrow> bool" where
  "NeedsWeeklyResetAt s now =
    (case us_WeeklyWindowStart s of None \<Rightarrow> False | Some w \<Rightarrow> \<not> t_before now (t_add w week))"

definition NeedsMonthlyResetAt :: "userSub \<Rightarrow> time \<Rightarrow> bool" where
  "NeedsMonthlyResetAt s now =
    (case us_MonthlyWindowStart s of None \<Rightarrow> False | Some w \<Rightarrow> \<not> t_before now (t_add w month))"

definition automaticDailyWindowStartAt :: "zone \<Rightarrow> userSub \<Rightarrow> time \<Rightarrow> time option" where
  "automaticDailyWindowStartAt z s now =
    (case us_DailyWindowStart s of
       None \<Rightarrow> None
     | Some w \<Rightarrow>
         if HasOneTimeDailyQuota z s then None
         else (let today = StartOfDay z now
               in if \<not> t_after today (StartOfDay z w) then None else Some today))"

definition canAutomaticallyResetDailyAt :: "zone \<Rightarrow> userSub \<Rightarrow> time \<Rightarrow> bool" where
  "canAutomaticallyResetDailyAt z s now \<longleftrightarrow> automaticDailyWindowStartAt z s now \<noteq> None"

definition NeedsDailyResetAt :: "zone \<Rightarrow> userSub \<Rightarrow> time \<Rightarrow> bool" where
  "NeedsDailyResetAt z s now \<longleftrightarrow> automaticDailyWindowStartAt z s now \<noteq> None"

definition windowResetAnchor :: "zone \<Rightarrow> userSub \<Rightarrow> time \<Rightarrow> time" where
  "windowResetAnchor z s previous =
    (let legacyAnchor = StartOfDay z (us_StartsAt s)
     in if t_before legacyAnchor (us_StartsAt s) \<and> previous = legacyAnchor then us_StartsAt s else previous)"

definition automaticWindowStartAt ::
  "zone \<Rightarrow> userSub \<Rightarrow> time option \<Rightarrow> duration \<Rightarrow> time \<Rightarrow> time option" where
  "automaticWindowStartAt z s previous period now =
    (case previous of
       None \<Rightarrow> None
     | Some p \<Rightarrow>
         (let anchor = windowResetAnchor z s p;
              nxt = t_add anchor period
          in if t_before now nxt \<or> \<not> t_before nxt (us_ExpiresAt s) then None
             else (let periods = go_div (t_sub now anchor) period;
                       lastPeriodBeforeExpiry = go_div (t_sub (us_ExpiresAt s) anchor - 1) period;
                       n = (if lastPeriodBeforeExpiry < periods then lastPeriodBeforeExpiry else periods)
                   in Some (t_add anchor (n * period)))))"

definition canAutomaticallyResetWeeklyAt :: "zone \<Rightarrow> userSub \<Rightarrow> time \<Rightarrow> bool" where
  "canAutomaticallyResetWeeklyAt z s now \<longleftrightarrow>
     automaticWindowStartAt z s (us_WeeklyWindowStart s) week now \<noteq> None"

definition canAutomaticallyResetMonthlyAt :: "zone \<Rightarrow> userSub \<Rightarrow> time \<Rightarrow> bool" where
  "canAutomaticallyResetMonthlyAt z s now \<longleftrightarrow>
     automaticWindowStartAt z s (us_MonthlyWindowStart s) month now \<noteq> None"

definition DailyResetTime :: "zone \<Rightarrow> userSub \<Rightarrow> time option" where
  "DailyResetTime z s =
    (case us_DailyWindowStart s of
       None \<Rightarrow> None
     | Some w \<Rightarrow> if HasOneTimeDailyQuota z s then Some (us_ExpiresAt s)
                 else Some (AddDays z (StartOfDay z w) 1))"

definition WeeklyResetTime :: "zone \<Rightarrow> userSub \<Rightarrow> time option" where
  "WeeklyResetTime z s =
    (case us_WeeklyWindowStart s of
       None \<Rightarrow> None | Some w \<Rightarrow> Some (t_add (windowResetAnchor z s w) week))"

definition MonthlyResetTime :: "zone \<Rightarrow> userSub \<Rightarrow> time option" where
  "MonthlyResetTime z s =
    (case us_MonthlyWindowStart s of
       None \<Rightarrow> None | Some w \<Rightarrow> Some (t_add (windowResetAnchor z s w) month))"

definition demoSub :: userSub where
  "demoSub = \<lparr>us_ID = 1, us_UserID = 7, us_GroupID = 3, us_StartsAt = 1000 * day + 9 * hour,
     us_ExpiresAt = 1030 * day + 9 * hour, us_Status = SubscriptionStatusActive,
     us_DailyWindowStart = Some (1000 * day - 8 * hour), us_WeeklyWindowStart = Some (1000 * day - 8 * hour),
     us_MonthlyWindowStart = Some (1000 * day + 9 * hour), us_DailyUsageUSD = 5, us_WeeklyUsageUSD = 6,
     us_MonthlyUsageUSD = 7, us_AssignedBy = None, us_AssignedAt = 1000 * day + 9 * hour, us_Notes = [],
     us_DeletedAt = None\<rparr>"

section \<open>The window start computed is the one a step-by-step roll reaches\<close>

lemma whole_periods:
  fixes N T P :: int
  assumes "0 < P" "P \<le> N" "P \<le> T"
  defines "n \<equiv> min (N div P) (T div P)"
  shows "1 \<le> n" "n * P \<le> N" "n * P \<le> T" "N < n * P + P \<or> T < n * P + P"
proof -
  have q: "1 \<le> X div P" "X div P * P \<le> X" "X < X div P * P + P" if x: "P \<le> X" for X
    using x assms(1) minus_mod_eq_div_mult [of X P] pos_mod_sign [OF assms(1), of X]
      pos_mod_bound [OF assms(1), of X] zdiv_mono1 [OF x assms(1)] by auto
  have n: "n = N div P \<or> n = T div P" "n \<le> N div P" "n \<le> T div P" by (auto simp: n_def)
  show "1 \<le> n" using n(1) q(1) [OF assms(2)] q(1) [OF assms(3)] by auto
  show "n * P \<le> N" using mult_right_mono [OF n(2), of P] q(2) [OF assms(2)] assms(1) by linarith
  show "n * P \<le> T" using mult_right_mono [OF n(3), of P] q(2) [OF assms(3)] assms(1) by linarith
  show "N < n * P + P \<or> T < n * P + P" using n(1) q(3) [OF assms(2)] q(3) [OF assms(3)] by auto
qed

text \<open>What an automatic advance yields: a whole number of periods past the anchor, reached by now,
before the term ends, and the last such unless a difference exceeds a \<open>Duration\<close> (292 years).\<close>

lemma auto_window_none [simp]: "automaticWindowStartAt z s None period now = None"
  by (simp add: automaticWindowStartAt_def)

lemma auto_window_some:
  assumes w: "automaticWindowStartAt z s (Some p) period now = Some w"
    and per: "0 < period" "period < max_duration"
  obtains n where "1 \<le> n" "w = windowResetAnchor z s p + n * period" "w \<le> now" "w < us_ExpiresAt s"
    "now - windowResetAnchor z s p \<le> max_duration \<Longrightarrow>
     us_ExpiresAt s - windowResetAnchor z s p \<le> max_duration \<Longrightarrow>
     now < w + period \<or> us_ExpiresAt s \<le> w + period"
proof -
  let ?a = "windowResetAnchor z s p"
  let ?N = "t_sub now ?a" and ?T = "t_sub (us_ExpiresAt s) ?a - 1"
  let ?n = "min (?N div period) (?T div period)"
  from w have reach: "?a + period \<le> now" "?a + period < us_ExpiresAt s"
    by (auto simp: automaticWindowStartAt_def Let_def t_add_def not_less split: if_splits)
  have N: "period \<le> ?N" using reach per by (intro t_sub_ge) simp_all
  have T: "period \<le> ?T" using reach per t_sub_ge [of "period + 1" "us_ExpiresAt s" ?a] by simp
  have le: "?N \<le> now - ?a" "?T < us_ExpiresAt s - ?a"
    using t_sub_le [of ?a now] t_sub_le [of ?a "us_ExpiresAt s"] reach per by simp_all
  from w reach have eq: "w = ?a + ?n * period"
    using N T per by (simp add: automaticWindowStartAt_def Let_def t_add_def go_div_nonneg min_def
        not_less split: if_splits)
  note n = whole_periods [OF per(1) N T]
  show thesis
  proof (rule that [OF n(1) eq])
    show "w \<le> now" "w < us_ExpiresAt s" using eq n(2,3) le by linarith+
    assume "now - ?a \<le> max_duration" "us_ExpiresAt s - ?a \<le> max_duration"
    then have "?N = now - ?a" "?T = us_ExpiresAt s - ?a - 1"
      using reach per by (simp_all add: t_sub_exact duration_defs)
    with n(4) eq show "now < w + period \<or> us_ExpiresAt s \<le> w + period" by auto
  qed
qed

lemma auto_window_iff:
  "automaticWindowStartAt z s (Some p) period now \<noteq> None \<longleftrightarrow>
     windowResetAnchor z s p + period \<le> now \<and> windowResetAnchor z s p + period < us_ExpiresAt s"
  by (auto simp: automaticWindowStartAt_def Let_def t_add_def not_less)

text \<open>The specification: roll one period at a time while the next window has begun and begins
before the term ends.\<close>

function rollWindow :: "duration \<Rightarrow> time \<Rightarrow> time \<Rightarrow> time \<Rightarrow> time" where
  "rollWindow period now expires w =
     (if 0 < period \<and> w + period \<le> now \<and> w + period < expires
      then rollWindow period now expires (w + period) else w)"
  by pat_completeness auto
termination
  by (relation "measure (\<lambda>(period, now, expires, w). nat (now - w))") auto

declare rollWindow.simps [simp del]

lemma rollWindow_periods:
  "0 < period \<Longrightarrow> 0 \<le> n \<Longrightarrow> w + n * period \<le> now \<Longrightarrow> w + n * period < expires \<Longrightarrow>
   now < w + n * period + period \<or> expires \<le> w + n * period + period \<Longrightarrow>
   rollWindow period now expires w = w + n * period"
proof (induction "nat n" arbitrary: n w)
  case 0
  then show ?case by (subst rollWindow.simps) auto
next
  case (Suc m)
  then have n: "1 \<le> n" "m = nat (n - 1)" by simp_all
  have step: "w + period + (n - 1) * period = w + n * period" by (simp add: left_diff_distrib)
  have "0 \<le> (n - 1) * period" using n Suc.prems(1) by simp
  with step Suc.prems(3,4) have "w + period \<le> now" "w + period < expires" by linarith+
  moreover have "rollWindow period now expires (w + period) = w + period + (n - 1) * period"
    by (rule Suc.hyps(1) [OF n(2)]) (use n(1) Suc.prems step in auto)
  ultimately show ?case using Suc.prems(1) step by (subst rollWindow.simps) simp
qed

text \<open>C34. Weekly and monthly windows: the closed formula for the current window start, with its
truncating divisions and its cap at the last period before the term ends, is what rolling the window
one period at a time from its anchor reaches, and there is no advance exactly when there is no step.\<close>

theorem automatic_window_is_roll:
  assumes "0 < period" "period < max_duration"
    and "now - windowResetAnchor z s p \<le> max_duration"
    and "us_ExpiresAt s - windowResetAnchor z s p \<le> max_duration"
  shows "automaticWindowStartAt z s (Some p) period now =
    (let anchor = windowResetAnchor z s p; w = rollWindow period now (us_ExpiresAt s) anchor
     in if w = anchor then None else Some w)"
proof (cases "automaticWindowStartAt z s (Some p) period now")
  case None
  then have "rollWindow period now (us_ExpiresAt s) (windowResetAnchor z s p) = windowResetAnchor z s p"
    using auto_window_iff [of z s p period now] by (subst rollWindow.simps) auto
  with None show ?thesis by simp
next
  case (Some w)
  from auto_window_some [OF Some assms(1,2)] obtain n where n: "1 \<le> n"
    "w = windowResetAnchor z s p + n * period" "w \<le> now" "w < us_ExpiresAt s"
    "now < w + period \<or> us_ExpiresAt s \<le> w + period" using assms(3,4) by metis
  then have "rollWindow period now (us_ExpiresAt s) (windowResetAnchor z s p) = w"
    using assms(1) rollWindow_periods [of period n "windowResetAnchor z s p" now "us_ExpiresAt s"] by simp
  moreover have "w \<noteq> windowResetAnchor z s p" using n assms(1) by simp
  ultimately show ?thesis using Some by simp
qed

lemma automatic_window_is_roll_witness:
  "automaticWindowStartAt shanghai demoSub (us_WeeklyWindowStart demoSub) week (1029 * day) = Some (1028 * day + 9 * hour)
     \<and> automaticWindowStartAt shanghai demoSub (us_WeeklyWindowStart demoSub) week (1029 * day)
       = (let anchor = windowResetAnchor shanghai demoSub (1000 * day - 8 * hour);
              w = rollWindow week (1029 * day) (us_ExpiresAt demoSub) anchor
          in if w = anchor then None else Some w)"
proof -
  have a: "windowResetAnchor shanghai demoSub (1000 * day - 8 * hour) = 1000 * day + 9 * hour"
    by code_simp
  have p: "us_WeeklyWindowStart demoSub = Some (1000 * day - 8 * hour)" by (simp add: demoSub_def)
  have "automaticWindowStartAt shanghai demoSub (us_WeeklyWindowStart demoSub) week (1029 * day)
      = (let anchor = windowResetAnchor shanghai demoSub (1000 * day - 8 * hour);
             w = rollWindow week (1029 * day) (us_ExpiresAt demoSub) anchor
         in if w = anchor then None else Some w)"
    unfolding p by (rule automatic_window_is_roll) (simp_all add: a, simp_all add: demoSub_def day_def duration_defs)
  moreover have "automaticWindowStartAt shanghai demoSub (us_WeeklyWindowStart demoSub) week (1029 * day)
      = Some (1028 * day + 9 * hour)" by code_simp
  ultimately show ?thesis by simp
qed

section \<open>Reset times shown and windows rolled agree\<close>

lemma auto_daily_iff:
  "automaticDailyWindowStartAt z s now \<noteq> None \<longleftrightarrow>
     \<not> HasOneTimeDailyQuota z s
     \<and> (\<exists>w. us_DailyWindowStart s = Some w \<and> StartOfDay z w < StartOfDay z now)"
  by (auto simp: automaticDailyWindowStartAt_def Let_def not_less split: option.splits)

text \<open>The reset time shown for a window is the first instant at which it is rolled: an automatic
weekly or monthly reset happens exactly from the shown time on, provided that time is before the end
of the term, and a daily reset, unless the subscription has a one-time quota, exactly from then on.\<close>

theorem shown_reset_time_exact:
  assumes "fixed_zone z"
  shows "(WeeklyResetTime z s = Some r \<longrightarrow>
            canAutomaticallyResetWeeklyAt z s now = (r \<le> now \<and> r < us_ExpiresAt s))
       \<and> (MonthlyResetTime z s = Some r \<longrightarrow>
            canAutomaticallyResetMonthlyAt z s now = (r \<le> now \<and> r < us_ExpiresAt s))
       \<and> (\<not> HasOneTimeDailyQuota z s \<longrightarrow> DailyResetTime z s = Some r \<longrightarrow>
            canAutomaticallyResetDailyAt z s now = (r \<le> now))"
proof (intro conjI impI)
  assume "WeeklyResetTime z s = Some r"
  then show "canAutomaticallyResetWeeklyAt z s now = (r \<le> now \<and> r < us_ExpiresAt s)"
    using auto_window_iff [of z s _ week now]
    by (auto simp: WeeklyResetTime_def canAutomaticallyResetWeeklyAt_def t_add_def split: option.splits)
next
  assume "MonthlyResetTime z s = Some r"
  then show "canAutomaticallyResetMonthlyAt z s now = (r \<le> now \<and> r < us_ExpiresAt s)"
    using auto_window_iff [of z s _ month now]
    by (auto simp: MonthlyResetTime_def canAutomaticallyResetMonthlyAt_def t_add_def split: option.splits)
next
  assume "\<not> HasOneTimeDailyQuota z s" "DailyResetTime z s = Some r"
  then show "canAutomaticallyResetDailyAt z s now = (r \<le> now)"
    using StartOfDay_less [OF assms]
    by (auto simp: DailyResetTime_def canAutomaticallyResetDailyAt_def auto_daily_iff
        AddDays_fixed [OF assms] simp del: not_None_eq split: option.splits)
qed

lemma shown_reset_time_exact_witness:
  "WeeklyResetTime shanghai demoSub = Some (1007 * day - 8 * hour + 17 * hour)
     \<and> canAutomaticallyResetWeeklyAt shanghai demoSub (1007 * day + 9 * hour)
     \<and> \<not> canAutomaticallyResetWeeklyAt shanghai demoSub (1007 * day + 9 * hour - 1)"
proof -
  have r: "WeeklyResetTime shanghai demoSub = Some (1007 * day - 8 * hour + 17 * hour)"
    by code_simp
  show ?thesis
    using r shown_reset_time_exact [OF fixed_shanghai, of demoSub "1007 * day - 8 * hour + 17 * hour"]
    by (simp add: demoSub_def day_def duration_defs)
qed

text \<open>After an advance the window is settled: at the same instant there is none to make.\<close>

lemma windowResetAnchor_ge: "fixed_zone z \<Longrightarrow> p \<le> windowResetAnchor z s p"
  using StartOfDay_le [of z "us_StartsAt s"] by (auto simp: windowResetAnchor_def Let_def)

lemma windowResetAnchor_past:
  "StartOfDay z (us_StartsAt s) < w \<Longrightarrow> windowResetAnchor z s w = w"
  by (auto simp: windowResetAnchor_def Let_def)

lemma auto_window_settled:
  assumes z: "fixed_zone z" and p: "StartOfDay z (us_StartsAt s) \<le> p"
    and w: "automaticWindowStartAt z s (Some p) period now = Some w"
    and per: "0 < period" "period < max_duration"
    and range: "now - p \<le> max_duration" "us_ExpiresAt s - p \<le> max_duration"
  shows "automaticWindowStartAt z s (Some w) period now = None" and "p < w"
proof -
  have a: "p \<le> windowResetAnchor z s p" by (rule windowResetAnchor_ge [OF z])
  from auto_window_some [OF w per] a range obtain n where n: "1 \<le> n"
    "w = windowResetAnchor z s p + n * period" "now < w + period \<or> us_ExpiresAt s \<le> w + period"
    by (smt (verit))
  have "period \<le> n * period" using n(1) per(1) by simp
  with n(2) a per(1) show "p < w" by linarith
  with p have "windowResetAnchor z s w = w" by (intro windowResetAnchor_past) simp
  with n(3) show "automaticWindowStartAt z s (Some w) period now = None"
    using auto_window_iff [of z s w period now] by auto
qed

lemma auto_daily_settled:
  assumes z: "fixed_zone z" and w: "automaticDailyWindowStartAt z s now = Some w"
  shows "automaticDailyWindowStartAt z (s\<lparr>us_DailyWindowStart := Some w\<rparr>) now = None"
    and "w = StartOfDay z now"
proof -
  from w show "w = StartOfDay z now"
    by (auto simp: automaticDailyWindowStartAt_def Let_def split: option.splits if_splits)
  then show "automaticDailyWindowStartAt z (s\<lparr>us_DailyWindowStart := Some w\<rparr>) now = None"
    by (simp add: automaticDailyWindowStartAt_def StartOfDay_idem [OF z] HasOneTimeDailyQuota_def)
qed

section \<open>Limits\<close>

definition withinLimit :: "int option \<Rightarrow> int \<Rightarrow> bool" where
  "withinLimit limit used = (case limit of None \<Rightarrow> True | Some l \<Rightarrow> l \<le> 0 \<or> used \<le> l)"

definition CheckDailyLimit :: "userSub \<Rightarrow> subGroup \<Rightarrow> int \<Rightarrow> bool" where
  "CheckDailyLimit s g cost =
    (if \<not> HasDailyLimit g then True
     else (case sg_DailyLimitUSD g of None \<Rightarrow> True | Some l \<Rightarrow> us_DailyUsageUSD s + cost \<le> l))"

definition CheckWeeklyLimit :: "userSub \<Rightarrow> subGroup \<Rightarrow> int \<Rightarrow> bool" where
  "CheckWeeklyLimit s g cost =
    (if \<not> HasWeeklyLimit g then True
     else (case sg_WeeklyLimitUSD g of None \<Rightarrow> True | Some l \<Rightarrow> us_WeeklyUsageUSD s + cost \<le> l))"

definition CheckMonthlyLimit :: "userSub \<Rightarrow> subGroup \<Rightarrow> int \<Rightarrow> bool" where
  "CheckMonthlyLimit s g cost =
    (if \<not> HasMonthlyLimit g then True
     else (case sg_MonthlyLimitUSD g of None \<Rightarrow> True | Some l \<Rightarrow> us_MonthlyUsageUSD s + cost \<le> l))"

definition CheckAllLimits :: "userSub \<Rightarrow> subGroup \<Rightarrow> int \<Rightarrow> bool \<times> bool \<times> bool" where
  "CheckAllLimits s g cost = (CheckDailyLimit s g cost, CheckWeeklyLimit s g cost, CheckMonthlyLimit s g cost)"

lemma CheckDailyLimit_iff: "CheckDailyLimit s g cost = withinLimit (sg_DailyLimitUSD g) (us_DailyUsageUSD s + cost)"
  by (auto simp: CheckDailyLimit_def HasDailyLimit_def withinLimit_def split: option.split)

lemma CheckWeeklyLimit_iff: "CheckWeeklyLimit s g cost = withinLimit (sg_WeeklyLimitUSD g) (us_WeeklyUsageUSD s + cost)"
  by (auto simp: CheckWeeklyLimit_def HasWeeklyLimit_def withinLimit_def split: option.split)

lemma CheckMonthlyLimit_iff: "CheckMonthlyLimit s g cost = withinLimit (sg_MonthlyLimitUSD g) (us_MonthlyUsageUSD s + cost)"
  by (auto simp: CheckMonthlyLimit_def HasMonthlyLimit_def withinLimit_def split: option.split)

lemmas limit_iffs = CheckDailyLimit_iff CheckWeeklyLimit_iff CheckMonthlyLimit_iff

end
