(* ===== verification/SubscriptionStore.thy ===== *)
theory SubscriptionStore
  imports SubscriptionWindows
begin

text \<open>
  Subscriptions in the database and the operations on their terms: \<open>user_subscription_repo.go\<close> and
  the assignment, renewal, adjustment, revocation and restoration of \<open>subscription_service.go\<close>.

  \<^item> The table keeps soft-deleted rows; queries see the live ones, updates by id see all, and the
    partial unique index allows one live row per user and group. A write is a function that answers
    an error (and changes nothing) or the new tables; a transaction composes writes and is rolled
    back by an error.
  \<^item> Invalidation of the L1 and billing caches, connection failures and the foreign keys are left
    out. Where the code reads the clock twice, the operation takes two readings.
\<close>

section \<open>The table\<close>

record subDB =
  sd_rows :: "userSub list"
  sd_groups :: "(int, subGroup) gomap"
  sd_nextID :: int

definition ErrSubscriptionNotFound :: string where "ErrSubscriptionNotFound = ''SUBSCRIPTION_NOT_FOUND''"
definition ErrSubscriptionAlreadyExists :: string where "ErrSubscriptionAlreadyExists = ''SUBSCRIPTION_ALREADY_EXISTS''"

definition subLive :: "userSub \<Rightarrow> bool" where "subLive s \<longleftrightarrow> us_DeletedAt s = None"

abbreviation subPair :: "userSub \<Rightarrow> int \<times> int" where
  "subPair s \<equiv> (us_UserID s, us_GroupID s)"

text \<open>\<open>Only\<close>: exactly one row, else not found or not singular.\<close>

fun onlySub :: "userSub list \<Rightarrow> string + userSub" where
  "onlySub [] = Inl ErrSubscriptionNotFound"
| "onlySub [s] = Inr s"
| "onlySub _ = Inl ''not singular''"

definition userSubscriptionEntityToService :: "userSub \<Rightarrow> userSub" where
  "userSubscriptionEntityToService m =
     (if us_DeletedAt m \<noteq> None then m\<lparr>us_Status := SubscriptionStatusRevoked\<rparr> else m)"

definition subQuery :: "(userSub \<Rightarrow> bool) \<Rightarrow> subDB \<Rightarrow> userSub list" where
  "subQuery P d = map userSubscriptionEntityToService (filter (\<lambda>s. subLive s \<and> P s) (sd_rows d))"

definition SubGetByID :: "int \<Rightarrow> subDB \<Rightarrow> string + userSub" where
  "SubGetByID sid d = onlySub (subQuery (\<lambda>s. us_ID s = sid) d)"

definition GetByIDForUpdate :: "int \<Rightarrow> subDB \<Rightarrow> string + userSub" where
  "GetByIDForUpdate sid d = onlySub (subQuery (\<lambda>s. us_ID s = sid) d)"

definition GetByIDIncludeDeleted :: "int \<Rightarrow> subDB \<Rightarrow> string + userSub" where
  "GetByIDIncludeDeleted sid d = onlySub (filter (\<lambda>s. us_ID s = sid) (sd_rows d))"

definition GetByUserIDAndGroupID :: "int \<Rightarrow> int \<Rightarrow> subDB \<Rightarrow> string + userSub" where
  "GetByUserIDAndGroupID uid gid d = onlySub (subQuery (\<lambda>s. us_UserID s = uid \<and> us_GroupID s = gid) d)"

definition GetActiveByUserIDAndGroupID :: "time \<Rightarrow> int \<Rightarrow> int \<Rightarrow> subDB \<Rightarrow> string + userSub" where
  "GetActiveByUserIDAndGroupID now uid gid d = onlySub (subQuery (\<lambda>s. us_UserID s = uid
     \<and> us_GroupID s = gid \<and> us_Status s = SubscriptionStatusActive \<and> now < us_ExpiresAt s) d)"

definition ExistsByUserIDAndGroupID :: "int \<Rightarrow> int \<Rightarrow> subDB \<Rightarrow> bool" where
  "ExistsByUserIDAndGroupID uid gid d \<longleftrightarrow> subQuery (\<lambda>s. us_UserID s = uid \<and> us_GroupID s = gid) d \<noteq> []"

definition ExistsActiveByUserIDAndGroupID :: "int \<Rightarrow> int \<Rightarrow> subDB \<Rightarrow> bool" where
  "ExistsActiveByUserIDAndGroupID uid gid d = ExistsByUserIDAndGroupID uid gid d"

definition ListActiveByUserID :: "time \<Rightarrow> int \<Rightarrow> subDB \<Rightarrow> userSub list" where
  "ListActiveByUserID now uid d =
     subQuery (\<lambda>s. us_UserID s = uid \<and> us_Status s = SubscriptionStatusActive \<and> now < us_ExpiresAt s) d"

definition SubListExpired :: "time \<Rightarrow> subDB \<Rightarrow> userSub list" where
  "SubListExpired now d = subQuery (\<lambda>s. us_Status s = SubscriptionStatusActive \<and> us_ExpiresAt s \<le> now) d"

definition SubCountByGroupID :: "int \<Rightarrow> subDB \<Rightarrow> nat" where
  "SubCountByGroupID gid d = length (subQuery (\<lambda>s. us_GroupID s = gid) d)"

definition SubCountActiveByGroupID :: "time \<Rightarrow> int \<Rightarrow> subDB \<Rightarrow> nat" where
  "SubCountActiveByGroupID now gid d =
     length (subQuery (\<lambda>s. us_GroupID s = gid \<and> us_Status s = SubscriptionStatusActive \<and> now < us_ExpiresAt s) d)"

text \<open>The partial unique index (user, group) of the live rows.\<close>

definition subPairTaken :: "userSub \<Rightarrow> subDB \<Rightarrow> bool" where
  "subPairTaken s d \<longleftrightarrow>
     (\<exists>r\<in>set (sd_rows d). subLive r \<and> us_ID r \<noteq> us_ID s \<and> subPair r = subPair s)"

definition updateSubs :: "(userSub \<Rightarrow> bool) \<Rightarrow> (userSub \<Rightarrow> userSub) \<Rightarrow> subDB \<Rightarrow> subDB" where
  "updateSubs P f d = d\<lparr>sd_rows := map (\<lambda>s. if P s then f s else s) (sd_rows d)\<rparr>"

text \<open>\<open>UpdateOneID\<close>: not filtered by the soft delete.\<close>

definition updateSub :: "int \<Rightarrow> (userSub \<Rightarrow> userSub) \<Rightarrow> subDB \<Rightarrow> string + subDB" where
  "updateSub sid f d =
     (if \<exists>s\<in>set (sd_rows d). us_ID s = sid then Inr (updateSubs (\<lambda>s. us_ID s = sid) f d)
      else Inl ErrSubscriptionNotFound)"

definition SubCreate :: "time \<Rightarrow> userSub \<Rightarrow> subDB \<Rightarrow> (string + int) \<times> subDB" where
  "SubCreate now s d =
    (let row = s\<lparr>us_ID := sd_nextID d,
                 us_StartsAt := (if is_zero (us_StartsAt s) then now else us_StartsAt s),
                 us_Status := (if us_Status s = [] then SubscriptionStatusActive else us_Status s),
                 us_AssignedAt := (if is_zero (us_AssignedAt s) then now else us_AssignedAt s),
                 us_DeletedAt := None\<rparr>
     in if subPairTaken row d then (Inl ErrSubscriptionAlreadyExists, d)
        else (Inr (sd_nextID d), d\<lparr>sd_rows := sd_rows d @ [row], sd_nextID := sd_nextID d + 1\<rparr>))"

text \<open>\<open>Update\<close> sets every column but the time of deletion; a nil window leaves the column as it is.\<close>

definition setNillable :: "'a option \<Rightarrow> 'a option \<Rightarrow> 'a option" where
  "setNillable v old = (case v of None \<Rightarrow> old | Some x \<Rightarrow> Some x)"

definition SubUpdate :: "userSub \<Rightarrow> subDB \<Rightarrow> string + subDB" where
  "SubUpdate sub d =
    (let f = (\<lambda>m. sub\<lparr>us_DailyWindowStart := setNillable (us_DailyWindowStart sub) (us_DailyWindowStart m),
                      us_WeeklyWindowStart := setNillable (us_WeeklyWindowStart sub) (us_WeeklyWindowStart m),
                      us_MonthlyWindowStart := setNillable (us_MonthlyWindowStart sub) (us_MonthlyWindowStart m),
                      us_AssignedBy := setNillable (us_AssignedBy sub) (us_AssignedBy m),
                      us_DeletedAt := us_DeletedAt m\<rparr>)
     in if (\<exists>m\<in>set (sd_rows d). us_ID m = us_ID sub \<and> subLive m) \<and> subPairTaken sub d
        then Inl ErrSubscriptionAlreadyExists
        else updateSub (us_ID sub) f d)"

definition SubDelete :: "time \<Rightarrow> int \<Rightarrow> subDB \<Rightarrow> subDB" where
  "SubDelete now sid d = updateSubs (\<lambda>s. subLive s \<and> us_ID s = sid) (\<lambda>s. s\<lparr>us_DeletedAt := Some now\<rparr>) d"

definition SubDeleteByGroupID :: "time \<Rightarrow> int \<Rightarrow> subDB \<Rightarrow> subDB" where
  "SubDeleteByGroupID now gid d =
     updateSubs (\<lambda>s. subLive s \<and> us_GroupID s = gid) (\<lambda>s. s\<lparr>us_DeletedAt := Some now\<rparr>) d"

definition SubRestore :: "int \<Rightarrow> string \<Rightarrow> subDB \<Rightarrow> string + subDB" where
  "SubRestore sid status d =
    (if \<exists>m\<in>set (sd_rows d). us_ID m = sid \<and> subPairTaken m d then Inl ''SUBSCRIPTION_RESTORE_CONFLICT''
     else updateSub sid (\<lambda>s. s\<lparr>us_Status := status, us_DeletedAt := None\<rparr>) d)"

definition ExtendExpiry :: "int \<Rightarrow> time \<Rightarrow> subDB \<Rightarrow> string + subDB" where
  "ExtendExpiry sid e d = updateSub sid (\<lambda>s. s\<lparr>us_ExpiresAt := e\<rparr>) d"

definition UpdateStatus :: "int \<Rightarrow> string \<Rightarrow> subDB \<Rightarrow> string + subDB" where
  "UpdateStatus sid status d = updateSub sid (\<lambda>s. s\<lparr>us_Status := status\<rparr>) d"

definition UpdateNotes :: "int \<Rightarrow> string \<Rightarrow> subDB \<Rightarrow> string + subDB" where
  "UpdateNotes sid notes d = updateSub sid (\<lambda>s. s\<lparr>us_Notes := notes\<rparr>) d"

text \<open>A conditional update that hits no row is no error unless there is no live row of that id.\<close>

definition translateConditionalWindowReset :: "(userSub \<Rightarrow> bool) \<Rightarrow> (userSub \<Rightarrow> userSub) \<Rightarrow> int \<Rightarrow> subDB \<Rightarrow> string + subDB" where
  "translateConditionalWindowReset P f sid d =
    (if \<exists>s\<in>set (sd_rows d). us_ID s = sid \<and> P s then Inr (updateSubs (\<lambda>s. us_ID s = sid \<and> P s) f d)
     else if subQuery (\<lambda>s. us_ID s = sid) d \<noteq> [] then Inr d
     else Inl ErrSubscriptionNotFound)"

definition ActivateWindows :: "int \<Rightarrow> time \<Rightarrow> time \<Rightarrow> subDB \<Rightarrow> string + subDB" where
  "ActivateWindows sid dailyStart periodicStart d =
     translateConditionalWindowReset
       (\<lambda>s. us_DailyWindowStart s = None \<and> us_WeeklyWindowStart s = None \<and> us_MonthlyWindowStart s = None)
       (\<lambda>s. s\<lparr>us_DailyWindowStart := Some dailyStart, us_WeeklyWindowStart := Some periodicStart,
               us_MonthlyWindowStart := Some periodicStart\<rparr>) sid d"

definition ResetDailyUsage :: "int \<Rightarrow> time option \<Rightarrow> time \<Rightarrow> subDB \<Rightarrow> string + subDB" where
  "ResetDailyUsage sid expected new d =
     translateConditionalWindowReset (\<lambda>s. us_DailyWindowStart s = expected)
       (\<lambda>s. s\<lparr>us_DailyUsageUSD := 0, us_DailyWindowStart := Some new\<rparr>) sid d"

definition ResetWeeklyUsage :: "int \<Rightarrow> time option \<Rightarrow> time \<Rightarrow> subDB \<Rightarrow> string + subDB" where
  "ResetWeeklyUsage sid expected new d =
     translateConditionalWindowReset (\<lambda>s. us_WeeklyWindowStart s = expected)
       (\<lambda>s. s\<lparr>us_WeeklyUsageUSD := 0, us_WeeklyWindowStart := Some new\<rparr>) sid d"

definition ResetMonthlyUsage :: "int \<Rightarrow> time option \<Rightarrow> time \<Rightarrow> subDB \<Rightarrow> string + subDB" where
  "ResetMonthlyUsage sid expected new d =
     translateConditionalWindowReset (\<lambda>s. us_MonthlyWindowStart s = expected)
       (\<lambda>s. s\<lparr>us_MonthlyUsageUSD := 0, us_MonthlyWindowStart := Some new\<rparr>) sid d"

definition ResetUsageWindows ::
  "int \<Rightarrow> bool \<Rightarrow> bool \<Rightarrow> bool \<Rightarrow> time \<Rightarrow> time \<Rightarrow> subDB \<Rightarrow> string + subDB" where
  "ResetUsageWindows sid resetDaily resetWeekly resetMonthly dailyStart periodicStart d =
     updateSub sid (\<lambda>s0.
       (let s1 = (if resetDaily then s0\<lparr>us_DailyUsageUSD := 0, us_DailyWindowStart := Some dailyStart\<rparr> else s0);
            s2 = (if resetWeekly then s1\<lparr>us_WeeklyUsageUSD := 0, us_WeeklyWindowStart := Some periodicStart\<rparr> else s1)
        in if resetMonthly then s2\<lparr>us_MonthlyUsageUSD := 0, us_MonthlyWindowStart := Some periodicStart\<rparr> else s2)) d"

definition IncrementUsage :: "int \<Rightarrow> int \<Rightarrow> subDB \<Rightarrow> string + subDB" where
  "IncrementUsage sid cost d =
    (let P = (\<lambda>s. us_ID s = sid \<and> subLive s \<and> m_get (sd_groups d) (us_GroupID s) \<noteq> None)
     in if \<exists>s\<in>set (sd_rows d). P s
        then Inr (updateSubs P (\<lambda>s. s\<lparr>us_DailyUsageUSD := us_DailyUsageUSD s + cost,
                                        us_WeeklyUsageUSD := us_WeeklyUsageUSD s + cost,
                                        us_MonthlyUsageUSD := us_MonthlyUsageUSD s + cost\<rparr>) d)
        else Inl ErrSubscriptionNotFound)"

definition BatchUpdateExpiredStatus :: "time \<Rightarrow> subDB \<Rightarrow> subDB" where
  "BatchUpdateExpiredStatus now d =
     updateSubs (\<lambda>s. us_Status s = SubscriptionStatusActive \<and> us_ExpiresAt s \<le> now)
       (\<lambda>s. s\<lparr>us_Status := SubscriptionStatusExpired\<rparr>) d"

section \<open>Terms\<close>

definition MaxExpiresAt :: time where "MaxExpiresAt = 66238041599 * second"
definition MaxValidityDays :: int where "MaxValidityDays = 36500"

record assignInput =
  ai_UserID :: int
  ai_GroupID :: int
  ai_ValidityDays :: int
  ai_AssignedBy :: int
  ai_Notes :: string

definition normalizeAssignValidityDays :: "int \<Rightarrow> int" where
  "normalizeAssignValidityDays days =
    (let d1 = (if days \<le> 0 then 30 else days) in if MaxValidityDays < d1 then MaxValidityDays else d1)"

definition capExpiry :: "time \<Rightarrow> time" where
  "capExpiry e = (if t_after e MaxExpiresAt then MaxExpiresAt else e)"

definition appendSubscriptionNotes :: "string \<Rightarrow> string \<Rightarrow> string" where
  "appendSubscriptionNotes existing new =
    (if new = [] then existing else if existing = [] then new else existing @ [char_of (10::nat)] @ new)"

definition renewedSubscriptionTerm :: "zone \<Rightarrow> userSub \<Rightarrow> string \<Rightarrow> time \<Rightarrow> time \<Rightarrow> userSub" where
  "renewedSubscriptionTerm z existing notes startsAt expiresAt =
    existing\<lparr>us_StartsAt := startsAt, us_ExpiresAt := expiresAt, us_Status := SubscriptionStatusActive,
      us_DailyWindowStart := Some (StartOfDay z startsAt), us_WeeklyWindowStart := Some startsAt,
      us_MonthlyWindowStart := Some startsAt, us_DailyUsageUSD := 0, us_WeeklyUsageUSD := 0,
      us_MonthlyUsageUSD := 0, us_Notes := appendSubscriptionNotes (us_Notes existing) notes\<rparr>"

definition assignExpired :: "userSub \<Rightarrow> time \<Rightarrow> bool" where
  "assignExpired s now \<longleftrightarrow> us_Status s = SubscriptionStatusExpired
     \<or> (us_Status s \<noteq> SubscriptionStatusSuspended \<and> \<not> t_after (us_ExpiresAt s) now)"

definition updateExistingSubscriptionTerm ::
  "zone \<Rightarrow> time \<Rightarrow> int \<Rightarrow> int \<Rightarrow> string \<Rightarrow> bool \<Rightarrow> subDB \<Rightarrow> string + subDB" where
  "updateExistingSubscriptionTerm z now sid validityDays notes0 assignmentSemantics d =
    (case GetByIDForUpdate sid d of
       Inl e \<Rightarrow> Inl e
     | Inr s \<Rightarrow>
         if assignmentSemantics \<and> us_Status s = SubscriptionStatusSuspended then Inr d
         else
           (let isExpired = (if assignmentSemantics then assignExpired s now
                             else \<not> t_after (us_ExpiresAt s) now);
                newExpiresAt = capExpiry (AddDays z (if isExpired then now else us_ExpiresAt s) validityDays);
                notes = (if assignmentSemantics \<and> trim_space (us_Notes s) = trim_space notes0 then [] else notes0)
            in if isExpired then SubUpdate (renewedSubscriptionTerm z s notes now newExpiresAt) d
               else
                 (case ExtendExpiry (us_ID s) newExpiresAt d of
                    Inl e \<Rightarrow> Inl e
                  | Inr d1 \<Rightarrow>
                      (case (if us_Status s \<noteq> SubscriptionStatusActive
                             then UpdateStatus (us_ID s) SubscriptionStatusActive d1 else Inr d1) of
                         Inl e \<Rightarrow> Inl e
                       | Inr d2 \<Rightarrow>
                           (if notes \<noteq> []
                            then UpdateNotes (us_ID s) (appendSubscriptionNotes (us_Notes s) notes) d2
                            else Inr d2)))))"

definition createSubscription :: "zone \<Rightarrow> time \<Rightarrow> assignInput \<Rightarrow> subDB \<Rightarrow> (string + userSub) \<times> subDB" where
  "createSubscription z now inp d =
    (let expiresAt = capExpiry (AddDays z now (normalizeAssignValidityDays (ai_ValidityDays inp)));
         sub = \<lparr>us_ID = 0, us_UserID = ai_UserID inp, us_GroupID = ai_GroupID inp, us_StartsAt = now,
                us_ExpiresAt = expiresAt, us_Status = SubscriptionStatusActive,
                us_DailyWindowStart = None, us_WeeklyWindowStart = None, us_MonthlyWindowStart = None,
                us_DailyUsageUSD = 0, us_WeeklyUsageUSD = 0, us_MonthlyUsageUSD = 0,
                us_AssignedBy = (if 0 < ai_AssignedBy inp then Some (ai_AssignedBy inp) else None),
                us_AssignedAt = now, us_Notes = ai_Notes inp, us_DeletedAt = None\<rparr>
     in case SubCreate now sub d of
          (Inl e, d1) \<Rightarrow> (Inl e, d1)
        | (Inr sid, d1) \<Rightarrow> (SubGetByID sid d1, d1))"

definition groupForAssignment :: "int \<Rightarrow> subDB \<Rightarrow> string option" where
  "groupForAssignment gid d =
    (case m_get (sd_groups d) gid of
       None \<Rightarrow> Some ''group not found''
     | Some g \<Rightarrow> if \<not> IsSubscriptionType g then Some ''GROUP_NOT_SUBSCRIPTION_TYPE'' else None)"

definition pairWith :: "'b \<Rightarrow> string + 'a \<Rightarrow> string + ('a \<times> 'b)" where
  "pairWith b r = (case r of Inl e \<Rightarrow> Inl e | Inr a \<Rightarrow> Inr (a, b))"

text \<open>The flag says whether an existing subscription was extended.\<close>

definition AssignOrExtendSubscription ::
  "zone \<Rightarrow> time \<Rightarrow> assignInput \<Rightarrow> subDB \<Rightarrow> (string + (userSub \<times> bool)) \<times> subDB" where
  "AssignOrExtendSubscription z now inp d =
    (case groupForAssignment (ai_GroupID inp) d of
       Some e \<Rightarrow> (Inl e, d)
     | None \<Rightarrow>
         (case GetByUserIDAndGroupID (ai_UserID inp) (ai_GroupID inp) d of
            Inr existing \<Rightarrow>
              (case updateExistingSubscriptionTerm z now (us_ID existing)
                      (normalizeAssignValidityDays (ai_ValidityDays inp)) (ai_Notes inp) False d of
                 Inl e \<Rightarrow> (Inl e, d)
               | Inr d1 \<Rightarrow> (pairWith True (SubGetByID (us_ID existing) d1), d1))
          | Inl _ \<Rightarrow>
              (case createSubscription z now inp d of (r, d1) \<Rightarrow> (pairWith False r, d1))))"

definition detectAssignSemanticConflict :: "zone \<Rightarrow> userSub \<Rightarrow> assignInput \<Rightarrow> string option" where
  "detectAssignSemanticConflict z existing inp =
    (let expected = capExpiry (AddDays z (us_StartsAt existing) (normalizeAssignValidityDays (ai_ValidityDays inp)))
     in if \<not> is_zero (us_StartsAt existing) \<and> us_ExpiresAt existing \<noteq> expected
        then Some ''validity_days_mismatch''
        else if trim_space (us_Notes existing) \<noteq> trim_space (ai_Notes inp) then Some ''notes_mismatch''
        else None)"

text \<open>The flag says whether an existing subscription was reused.\<close>

definition assignSubscriptionWithReuse ::
  "zone \<Rightarrow> time \<Rightarrow> time \<Rightarrow> assignInput \<Rightarrow> subDB \<Rightarrow> (string + (userSub \<times> bool)) \<times> subDB" where
  "assignSubscriptionWithReuse z now now2 inp d =
    (case groupForAssignment (ai_GroupID inp) d of
       Some e \<Rightarrow> (Inl e, d)
     | None \<Rightarrow>
         if ExistsByUserIDAndGroupID (ai_UserID inp) (ai_GroupID inp) d then
           (case GetByUserIDAndGroupID (ai_UserID inp) (ai_GroupID inp) d of
              Inl e \<Rightarrow> (Inl e, d)
            | Inr s \<Rightarrow>
                if assignExpired s now then
                  (case updateExistingSubscriptionTerm z now2 (us_ID s)
                          (normalizeAssignValidityDays (ai_ValidityDays inp)) (ai_Notes inp) True d of
                     Inl e \<Rightarrow> (Inl e, d)
                   | Inr d1 \<Rightarrow> (pairWith True (SubGetByID (us_ID s) d1), d1))
                else (case detectAssignSemanticConflict z s inp of
                        Some _ \<Rightarrow> (Inl ''SUBSCRIPTION_ASSIGN_CONFLICT'', d)
                      | None \<Rightarrow> (Inr (s, True), d)))
         else (case createSubscription z now inp d of (r, d1) \<Rightarrow> (pairWith False r, d1)))"

definition AssignSubscription :: "zone \<Rightarrow> time \<Rightarrow> time \<Rightarrow> assignInput \<Rightarrow> subDB \<Rightarrow> (string + userSub) \<times> subDB" where
  "AssignSubscription z now now2 inp d =
    (case assignSubscriptionWithReuse z now now2 inp d of
       (Inl e, d1) \<Rightarrow> (Inl e, d1) | (Inr (s, _), d1) \<Rightarrow> (Inr s, d1))"

record bulkResult =
  bk_SuccessCount :: nat
  bk_CreatedCount :: nat
  bk_ReusedCount :: nat
  bk_FailedCount :: nat
  bk_Subscriptions :: "userSub list"
  bk_Errors :: "(int \<times> string) list"
  bk_Statuses :: "(int, string) gomap"

text \<open>The users come with the clock readings of their turns; an error is kept with its user.\<close>

definition bulkAssignOne :: "zone \<Rightarrow> assignInput \<Rightarrow> int \<times> time \<times> time \<Rightarrow> bulkResult \<times> subDB \<Rightarrow> bulkResult \<times> subDB" where
  "bulkAssignOne z inp u st =
    (case (u, st) of ((uid, now, now2), (res, d)) \<Rightarrow>
      (case assignSubscriptionWithReuse z now now2 (inp\<lparr>ai_UserID := uid\<rparr>) d of
         (Inl e, d1) \<Rightarrow>
           (res\<lparr>bk_FailedCount := bk_FailedCount res + 1, bk_Errors := bk_Errors res @ [(uid, e)],
                bk_Statuses := m_set (bk_Statuses res) uid ''failed''\<rparr>, d1)
       | (Inr (s, reused), d1) \<Rightarrow>
           (let ok = res\<lparr>bk_SuccessCount := bk_SuccessCount res + 1,
                         bk_Subscriptions := bk_Subscriptions res @ [s]\<rparr>
            in (if reused
                then ok\<lparr>bk_ReusedCount := bk_ReusedCount res + 1,
                        bk_Statuses := m_set (bk_Statuses res) uid ''reused''\<rparr>
                else ok\<lparr>bk_CreatedCount := bk_CreatedCount res + 1,
                        bk_Statuses := m_set (bk_Statuses res) uid ''created''\<rparr>, d1))))"

definition BulkAssignSubscription ::
  "zone \<Rightarrow> (int \<times> time \<times> time) list \<Rightarrow> assignInput \<Rightarrow> subDB \<Rightarrow> bulkResult \<times> subDB" where
  "BulkAssignSubscription z users inp d =
     fold (bulkAssignOne z inp) users
       (\<lparr>bk_SuccessCount = 0, bk_CreatedCount = 0, bk_ReusedCount = 0, bk_FailedCount = 0,
         bk_Subscriptions = [], bk_Errors = [], bk_Statuses = []\<rparr>, d)"

definition RevokeSubscription :: "time \<Rightarrow> int \<Rightarrow> subDB \<Rightarrow> string + subDB" where
  "RevokeSubscription now sid d =
    (case SubGetByID sid d of Inl e \<Rightarrow> Inl e | Inr s \<Rightarrow> Inr (SubDelete now sid d))"

definition RestoreSubscription :: "time \<Rightarrow> int \<Rightarrow> subDB \<Rightarrow> (string + userSub) \<times> subDB" where
  "RestoreSubscription now sid d =
    (case GetByIDIncludeDeleted sid d of
       Inl e \<Rightarrow> (Inl e, d)
     | Inr s \<Rightarrow>
         if us_DeletedAt s = None then (Inl ''SUBSCRIPTION_NOT_REVOKED'', d)
         else if ExistsActiveByUserIDAndGroupID (us_UserID s) (us_GroupID s) d
         then (Inl ''SUBSCRIPTION_RESTORE_CONFLICT'', d)
         else
           (let status = (if us_Status s = SubscriptionStatusActive \<and> \<not> t_after (us_ExpiresAt s) now
                          then SubscriptionStatusExpired else us_Status s)
            in case SubRestore sid status d of Inl e \<Rightarrow> (Inl e, d) | Inr d1 \<Rightarrow> (SubGetByID sid d1, d1)))"

definition clampDays :: "int \<Rightarrow> int" where
  "clampDays days =
    (let d1 = (if MaxValidityDays < days then MaxValidityDays else days)
     in if d1 < - MaxValidityDays then - MaxValidityDays else d1)"

definition extendSubscriptionTx :: "zone \<Rightarrow> time \<Rightarrow> int \<Rightarrow> int \<Rightarrow> subDB \<Rightarrow> string + subDB" where
  "extendSubscriptionTx z now sid days0 d =
    (case GetByIDForUpdate sid d of
       Inl _ \<Rightarrow> Inl ErrSubscriptionNotFound
     | Inr s \<Rightarrow>
         (let days = clampDays days0;
              isExpired = (\<not> t_after (us_ExpiresAt s) now)
          in if isExpired \<and> days < 0 then Inl ''CANNOT_SHORTEN_EXPIRED''
             else
               (let newExpiresAt = capExpiry (if isExpired then AddDays z now days
                                              else AddDays z (us_ExpiresAt s) days)
                in if \<not> t_after newExpiresAt now then Inl ''ADJUST_WOULD_EXPIRE''
                   else
                     (case ExtendExpiry sid newExpiresAt d of
                        Inl e \<Rightarrow> Inl e
                      | Inr d1 \<Rightarrow> if us_Status s = SubscriptionStatusExpired
                                  then UpdateStatus sid SubscriptionStatusActive d1 else Inr d1))))"

definition ExtendSubscription :: "zone \<Rightarrow> time \<Rightarrow> int \<Rightarrow> int \<Rightarrow> subDB \<Rightarrow> (string + userSub) \<times> subDB" where
  "ExtendSubscription z now sid days d =
    (case extendSubscriptionTx z now sid days d of
       Inl e \<Rightarrow> (Inl e, d)
     | Inr d1 \<Rightarrow> (SubGetByID sid d1, d1))"

definition AdminResetQuota :: "zone \<Rightarrow> time \<Rightarrow> int \<Rightarrow> bool \<Rightarrow> bool \<Rightarrow> bool \<Rightarrow> subDB \<Rightarrow> (string + userSub) \<times> subDB" where
  "AdminResetQuota z now sid resetDaily resetWeekly resetMonthly d =
    (if \<not> resetDaily \<and> \<not> resetWeekly \<and> \<not> resetMonthly then (Inl ''INVALID_INPUT'', d)
     else (case SubGetByID sid d of
             Inl e \<Rightarrow> (Inl e, d)
           | Inr s \<Rightarrow>
               (case ResetUsageWindows (us_ID s) resetDaily resetWeekly resetMonthly (StartOfDay z now) now d of
                  Inl e \<Rightarrow> (Inl e, d)
                | Inr d1 \<Rightarrow> (SubGetByID sid d1, d1))))"

definition ValidateSubscription :: "time \<Rightarrow> userSub \<Rightarrow> subDB \<Rightarrow> string option \<times> subDB" where
  "ValidateSubscription now s d =
    (if us_Status s = SubscriptionStatusExpired then (Some ''SUBSCRIPTION_EXPIRED'', d)
     else if us_Status s = SubscriptionStatusSuspended then (Some ''SUBSCRIPTION_SUSPENDED'', d)
     else if SubIsExpired s now then
       (Some ''SUBSCRIPTION_EXPIRED'',
        case UpdateStatus (us_ID s) SubscriptionStatusExpired d of Inl _ \<Rightarrow> d | Inr d1 \<Rightarrow> d1)
     else (None, d))"

end
