(* ===== verification/SubscriptionFacts.thy ===== *)
theory SubscriptionFacts
  imports SubscriptionStore
begin

text \<open>
  What the operations on subscription terms guarantee: the table's invariant, the term that every
  assignment and adjustment yields, and the round trip of a shortened term.
\<close>

section \<open>The invariant of the table\<close>

text \<open>Row ids are distinct and below the sequence, a user has at most one live subscription per
group, and no term ends after the last expiry allowed.\<close>

definition sub_ok :: "subDB \<Rightarrow> bool" where
  "sub_ok d \<longleftrightarrow> distinct (map us_ID (sd_rows d))
     \<and> (\<forall>s\<in>set (sd_rows d). us_ID s < sd_nextID d \<and> us_ExpiresAt s \<le> MaxExpiresAt)
     \<and> (\<forall>r\<in>set (sd_rows d). \<forall>s\<in>set (sd_rows d). subLive r \<longrightarrow> subLive s \<longrightarrow> subPair r = subPair s \<longrightarrow> us_ID r = us_ID s)"

definition subRow :: "int \<Rightarrow> subDB \<Rightarrow> userSub option" where
  "subRow sid d = find (\<lambda>s. us_ID s = sid) (sd_rows d)"

named_theorems subs \<open>rows after an operation\<close>

lemma capExpiry_le: "capExpiry e \<le> MaxExpiresAt"
  by (simp add: capExpiry_def)

lemma subRow_some: "subRow sid d = Some s \<Longrightarrow> s \<in> set (sd_rows d) \<and> us_ID s = sid"
  by (auto simp: subRow_def find_Some_iff)

lemma subRow_none: "subRow sid d = None \<longleftrightarrow> (\<forall>s\<in>set (sd_rows d). us_ID s \<noteq> sid)"
  by (auto simp: subRow_def find_None_iff)

lemma find_key: "distinct (map k xs) \<Longrightarrow> s \<in> set xs \<Longrightarrow> find (\<lambda>x. k x = k s) xs = Some s"
  by (induction xs) (auto simp: image_iff)

lemma subRow_in: "sub_ok d \<Longrightarrow> s \<in> set (sd_rows d) \<Longrightarrow> subRow (us_ID s) d = Some s"
  by (simp add: subRow_def sub_ok_def find_key)

lemma filter_key:
  "distinct (map k xs) \<Longrightarrow> filter (\<lambda>s. P s \<and> k s = v) xs =
     (case find (\<lambda>s. k s = v) xs of None \<Rightarrow> [] | Some s \<Rightarrow> if P s then [s] else [])"
proof (induction xs)
  case (Cons a xs)
  show ?case
  proof (cases "k a = v")
    case True
    with Cons.prems have "filter (\<lambda>s. P s \<and> k s = v) xs = []"
      by (fastforce simp: filter_empty_conv image_iff)
    with True show ?thesis by simp
  qed (use Cons in simp)
qed simp

lemma subQuery_id:
  assumes "sub_ok d"
  shows "subQuery (\<lambda>s. us_ID s = sid) d =
    (case subRow sid d of None \<Rightarrow> [] | Some s \<Rightarrow> if subLive s then [s] else [])"
  using assms filter_key [of us_ID "sd_rows d" subLive sid]
  by (auto simp: subQuery_def subRow_def sub_ok_def userSubscriptionEntityToService_def subLive_def
      split: option.split)

lemma get_by_id [subs]:
  "sub_ok d \<Longrightarrow> SubGetByID sid d =
     (case subRow sid d of None \<Rightarrow> Inl ErrSubscriptionNotFound
      | Some s \<Rightarrow> if subLive s then Inr s else Inl ErrSubscriptionNotFound)"
  by (simp add: SubGetByID_def subQuery_id split: option.split)

lemma get_for_update [subs]: "GetByIDForUpdate sid d = SubGetByID sid d"
  by (simp add: GetByIDForUpdate_def SubGetByID_def)

lemma onlySub_unique:
  assumes "distinct xs" "\<And>r s. r \<in> set xs \<Longrightarrow> s \<in> set xs \<Longrightarrow> r = s"
  shows "onlySub xs = Inr s \<longleftrightarrow> s \<in> set xs"
    and "onlySub xs = Inl e \<longleftrightarrow> xs = [] \<and> e = ErrSubscriptionNotFound"
proof -
  consider "xs = []" | x where "xs = [x]"
    using assms by (metis distinct_length_2_or_more list.exhaust list.set_intros)
  note shape = this
  show "onlySub xs = Inr s \<longleftrightarrow> s \<in> set xs" using shape by cases auto
  show "onlySub xs = Inl e \<longleftrightarrow> xs = [] \<and> e = ErrSubscriptionNotFound" using shape by cases auto
qed

lemma get_by_pair:
  assumes ok: "sub_ok d"
  shows "GetByUserIDAndGroupID uid gid d = Inr s \<longleftrightarrow>
           s \<in> set (sd_rows d) \<and> subLive s \<and> subPair s = (uid, gid)"
    and "GetByUserIDAndGroupID uid gid d = Inl e \<longleftrightarrow>
           e = ErrSubscriptionNotFound \<and> (\<forall>s\<in>set (sd_rows d). subLive s \<longrightarrow> subPair s \<noteq> (uid, gid))"
proof -
  let ?xs = "filter (\<lambda>s. subLive s \<and> us_UserID s = uid \<and> us_GroupID s = gid) (sd_rows d)"
  have q: "subQuery (\<lambda>s. us_UserID s = uid \<and> us_GroupID s = gid) d = ?xs"
    unfolding subQuery_def by (rule map_idI) (simp add: userSubscriptionEntityToService_def subLive_def)
  have dist: "distinct ?xs" using ok by (simp add: sub_ok_def distinct_map)
  have one: "r = s" if r: "r \<in> set ?xs" and s: "s \<in> set ?xs" for r s
  proof -
    from r s have rs: "r \<in> set (sd_rows d)" "s \<in> set (sd_rows d)" "subLive r" "subLive s" "subPair r = subPair s"
      by auto
    have "us_ID r = us_ID s" using ok rs unfolding sub_ok_def by blast
    then show ?thesis using subRow_in [OF ok rs(1)] subRow_in [OF ok rs(2)] by (metis option.inject)
  qed
  show "GetByUserIDAndGroupID uid gid d = Inr s \<longleftrightarrow>
           s \<in> set (sd_rows d) \<and> subLive s \<and> subPair s = (uid, gid)"
    unfolding GetByUserIDAndGroupID_def q by (subst onlySub_unique(1)) (use dist one in auto)
  show "GetByUserIDAndGroupID uid gid d = Inl e \<longleftrightarrow>
           e = ErrSubscriptionNotFound \<and> (\<forall>s\<in>set (sd_rows d). subLive s \<longrightarrow> subPair s \<noteq> (uid, gid))"
    unfolding GetByUserIDAndGroupID_def q
    by (subst onlySub_unique(2)) (use dist one in \<open>auto simp: filter_empty_conv\<close>)
qed

text \<open>An update that keeps ids, users and groups, revives no row and ends no term too late keeps the
invariant; a row's image is found at its id.\<close>

lemma sub_ok_update:
  assumes ok: "sub_ok d"
    and f: "\<And>s. s \<in> set (sd_rows d) \<Longrightarrow> P s \<Longrightarrow> us_ID (f s) = us_ID s \<and> subPair (f s) = subPair s
              \<and> (subLive (f s) \<longrightarrow> subLive s) \<and> us_ExpiresAt (f s) \<le> MaxExpiresAt"
  shows "sub_ok (updateSubs P f d)"
proof -
  define g where "g = (\<lambda>s. if P s then f s else s)"
  have g: "us_ID (g s) = us_ID s" "subPair (g s) = subPair s" "subLive (g s) \<Longrightarrow> subLive s"
    "us_ExpiresAt (g s) \<le> MaxExpiresAt" if s: "s \<in> set (sd_rows d)" for s
  proof -
    have "us_ExpiresAt s \<le> MaxExpiresAt" using ok s by (simp add: sub_ok_def)
    with f [OF s] show "us_ID (g s) = us_ID s" "subPair (g s) = subPair s" "subLive (g s) \<Longrightarrow> subLive s"
      "us_ExpiresAt (g s) \<le> MaxExpiresAt"
      by (simp_all add: g_def split: if_splits)
  qed
  have rows: "sd_rows (updateSubs P f d) = map g (sd_rows d)" by (simp add: updateSubs_def g_def)
  have ids: "map us_ID (map g (sd_rows d)) = map us_ID (sd_rows d)" using g(1) by simp
  show ?thesis
    unfolding sub_ok_def rows
  proof (intro conjI)
    show "distinct (map us_ID (map g (sd_rows d)))" using ok unfolding ids sub_ok_def by simp
    show "\<forall>s\<in>set (map g (sd_rows d)). us_ID s < sd_nextID (updateSubs P f d) \<and> us_ExpiresAt s \<le> MaxExpiresAt"
      using ok g(1,4) by (auto simp: sub_ok_def updateSubs_def)
    show "\<forall>r\<in>set (map g (sd_rows d)). \<forall>s\<in>set (map g (sd_rows d)). subLive r \<longrightarrow> subLive s \<longrightarrow>
        subPair r = subPair s \<longrightarrow> us_ID r = us_ID s"
    proof (intro ballI impI)
      fix r s assume "r \<in> set (map g (sd_rows d))" "s \<in> set (map g (sd_rows d))"
      then obtain r0 s0 where r: "r = g r0" "r0 \<in> set (sd_rows d)" and s: "s = g s0" "s0 \<in> set (sd_rows d)"
        by auto
      assume "subLive r" "subLive s" "subPair r = subPair s"
      then show "us_ID r = us_ID s"
        using ok r s g(1-3) [OF r(2)] g(1-3) [OF s(2)] unfolding sub_ok_def by metis
    qed
  qed
qed

lemma subRow_update [subs]:
  assumes "\<And>s. us_ID (f s) = us_ID s"
  shows "subRow sid (updateSubs P f d) = map_option (\<lambda>s. if P s then f s else s) (subRow sid d)"
proof -
  have "find (\<lambda>s. us_ID s = sid) (map (\<lambda>s. if P s then f s else s) xs)
      = map_option (\<lambda>s. if P s then f s else s) (find (\<lambda>s. us_ID s = sid) xs)" for xs
    using assms by (induction xs) auto
  then show ?thesis by (simp add: subRow_def updateSubs_def)
qed

lemma updateSub_eq [subs]:
  "updateSub sid f d =
     (if subRow sid d = None then Inl ErrSubscriptionNotFound else Inr (updateSubs (\<lambda>s. us_ID s = sid) f d))"
  by (auto simp: updateSub_def subRow_none)

lemma updateSubs_groups [simp]: "sd_groups (updateSubs P f d) = sd_groups d"
  by (simp add: updateSubs_def)

lemma updateSubs_none: "(\<And>s. s \<in> set (sd_rows d) \<Longrightarrow> \<not> P s) \<Longrightarrow> updateSubs P f d = d"
  unfolding updateSubs_def by (subst map_idI) auto

lemma conditional_eq:
  "translateConditionalWindowReset P f sid d = Inr d1 \<Longrightarrow>
     d1 = updateSubs (\<lambda>s. us_ID s = sid \<and> P s) f d"
  by (auto simp: translateConditionalWindowReset_def updateSubs_none split: if_splits)

section \<open>Every operation keeps the invariant\<close>

lemma sub_ok_updateSub:
  "sub_ok d \<Longrightarrow> updateSub sid f d = Inr d1 \<Longrightarrow>
   (\<And>s. s \<in> set (sd_rows d) \<Longrightarrow> us_ID s = sid \<Longrightarrow> us_ID (f s) = us_ID s \<and> subPair (f s) = subPair s
     \<and> (subLive (f s) \<longrightarrow> subLive s) \<and> us_ExpiresAt (f s) \<le> MaxExpiresAt) \<Longrightarrow> sub_ok d1"
  by (auto simp: updateSub_def split: if_splits intro!: sub_ok_update)

lemma expiry_le: "sub_ok d \<Longrightarrow> s \<in> set (sd_rows d) \<Longrightarrow> us_ExpiresAt s \<le> MaxExpiresAt"
  by (simp add: sub_ok_def)

lemma sub_ok_ExtendExpiry: "sub_ok d \<Longrightarrow> e \<le> MaxExpiresAt \<Longrightarrow> ExtendExpiry sid e d = Inr d1 \<Longrightarrow> sub_ok d1"
  unfolding ExtendExpiry_def by (rule sub_ok_updateSub, assumption, assumption) (simp add: subLive_def)

lemma sub_ok_UpdateStatus: "sub_ok d \<Longrightarrow> UpdateStatus sid st d = Inr d1 \<Longrightarrow> sub_ok d1"
  unfolding UpdateStatus_def by (rule sub_ok_updateSub, assumption, assumption) (simp add: subLive_def expiry_le)

lemma sub_ok_UpdateNotes: "sub_ok d \<Longrightarrow> UpdateNotes sid n d = Inr d1 \<Longrightarrow> sub_ok d1"
  unfolding UpdateNotes_def by (rule sub_ok_updateSub, assumption, assumption) (simp add: subLive_def expiry_le)

lemma sub_ok_ResetUsageWindows: "sub_ok d \<Longrightarrow> ResetUsageWindows sid a b c t u d = Inr d1 \<Longrightarrow> sub_ok d1"
  unfolding ResetUsageWindows_def by (rule sub_ok_updateSub, assumption, assumption) (simp add: subLive_def expiry_le Let_def)

lemma sub_ok_conditional:
  "sub_ok d \<Longrightarrow> translateConditionalWindowReset P f sid d = Inr d1 \<Longrightarrow>
   (\<And>s. us_ID (f s) = us_ID s \<and> subPair (f s) = subPair s \<and> us_DeletedAt (f s) = us_DeletedAt s
     \<and> us_ExpiresAt (f s) = us_ExpiresAt s) \<Longrightarrow> sub_ok d1"
  using conditional_eq [of P f sid d d1] by (simp add: sub_ok_update subLive_def expiry_le)

lemma sub_ok_windows:
  "sub_ok d \<Longrightarrow> ActivateWindows sid t u d = Inr d1 \<Longrightarrow> sub_ok d1"
  "sub_ok d \<Longrightarrow> ResetDailyUsage sid e t d = Inr d1 \<Longrightarrow> sub_ok d1"
  "sub_ok d \<Longrightarrow> ResetWeeklyUsage sid e t d = Inr d1 \<Longrightarrow> sub_ok d1"
  "sub_ok d \<Longrightarrow> ResetMonthlyUsage sid e t d = Inr d1 \<Longrightarrow> sub_ok d1"
  unfolding ActivateWindows_def ResetDailyUsage_def ResetWeeklyUsage_def ResetMonthlyUsage_def
  by (erule (1) sub_ok_conditional, simp)+

lemma sub_ok_IncrementUsage: "sub_ok d \<Longrightarrow> IncrementUsage sid c d = Inr d1 \<Longrightarrow> sub_ok d1"
  by (auto simp: IncrementUsage_def Let_def subLive_def expiry_le intro!: sub_ok_update split: if_splits)

lemma sub_ok_BatchUpdate: "sub_ok d \<Longrightarrow> sub_ok (BatchUpdateExpiredStatus now d)"
  unfolding BatchUpdateExpiredStatus_def by (rule sub_ok_update) (simp_all add: subLive_def expiry_le)

lemma sub_ok_Delete: "sub_ok d \<Longrightarrow> sub_ok (SubDelete now sid d)"
  unfolding SubDelete_def by (rule sub_ok_update) (simp_all add: subLive_def expiry_le)

lemma sub_ok_DeleteByGroup: "sub_ok d \<Longrightarrow> sub_ok (SubDeleteByGroupID now gid d)"
  unfolding SubDeleteByGroupID_def by (rule sub_ok_update) (simp_all add: subLive_def expiry_le)

lemma sub_ok_Create:
  assumes ok: "sub_ok d" and e: "us_ExpiresAt s \<le> MaxExpiresAt" and c: "SubCreate now s d = (r, d1)"
  shows "sub_ok d1"
proof (cases r)
  case (Inl e)
  with c have "d1 = d" by (auto simp: SubCreate_def Let_def split: if_splits)
  with ok show ?thesis by simp
next
  case (Inr sid)
  define row where "row = s\<lparr>us_ID := sd_nextID d,
     us_StartsAt := (if is_zero (us_StartsAt s) then now else us_StartsAt s),
     us_Status := (if us_Status s = [] then SubscriptionStatusActive else us_Status s),
     us_AssignedAt := (if is_zero (us_AssignedAt s) then now else us_AssignedAt s), us_DeletedAt := None\<rparr>"
  have "\<not> subPairTaken row d \<and> d1 = d\<lparr>sd_rows := sd_rows d @ [row], sd_nextID := sd_nextID d + 1\<rparr>"
    using c Inr unfolding SubCreate_def Let_def row_def [symmetric] by (cases "subPairTaken row d") auto
  moreover have "us_ID row = sd_nextID d" "us_ExpiresAt row = us_ExpiresAt s" by (simp_all add: row_def)
  ultimately have row: "us_ID row = sd_nextID d" "us_ExpiresAt row = us_ExpiresAt s"
    "\<not> subPairTaken row d" "d1 = d\<lparr>sd_rows := sd_rows d @ [row], sd_nextID := sd_nextID d + 1\<rparr>"
    by simp_all
  from ok have lt: "us_ID r < sd_nextID d" if "r \<in> set (sd_rows d)" for r
    using that by (simp add: sub_ok_def)
  with row(1,3) have free: "subPair r \<noteq> subPair row" if "r \<in> set (sd_rows d)" "subLive r" for r
    using that unfolding subPairTaken_def by fastforce
  show ?thesis unfolding sub_ok_def
  proof (intro conjI)
    show "distinct (map us_ID (sd_rows d1))" using ok row(1,4) lt by (fastforce simp: sub_ok_def)
    show "\<forall>s\<in>set (sd_rows d1). us_ID s < sd_nextID d1 \<and> us_ExpiresAt s \<le> MaxExpiresAt"
      using row(1,2,4) lt e expiry_le [OF ok] by (auto simp: order_less_imp_le)
    show "\<forall>r\<in>set (sd_rows d1). \<forall>s\<in>set (sd_rows d1). subLive r \<longrightarrow> subLive s \<longrightarrow> subPair r = subPair s \<longrightarrow> us_ID r = us_ID s"
    proof (intro ballI impI)
      fix r s assume h: "r \<in> set (sd_rows d1)" "s \<in> set (sd_rows d1)" "subLive r" "subLive s" "subPair r = subPair s"
      show "us_ID r = us_ID s"
      proof (cases "r = row \<or> s = row")
        case True
        with h row(4) free have "r = row \<and> s = row" by fastforce
        then show ?thesis by simp
      next
        case False
        with h row(4) have "r \<in> set (sd_rows d)" "s \<in> set (sd_rows d)" by auto
        with h(3-5) ok show ?thesis unfolding sub_ok_def by blast
      qed
    qed
  qed
qed

lemma sub_ok_SubUpdate:
  assumes ok: "sub_ok d" and u: "SubUpdate sub d = Inr d1"
    and r: "r \<in> set (sd_rows d)" "us_ID r = us_ID sub" "subPair r = subPair sub"
    and e: "us_ExpiresAt sub \<le> MaxExpiresAt"
  shows "sub_ok d1"
proof -
  have same: "s = r" if s: "s \<in> set (sd_rows d)" "us_ID s = us_ID sub" for s
    using subRow_in [OF ok s(1)] subRow_in [OF ok r(1)] s(2) r(2) by simp
  from u have "\<exists>f. updateSub (us_ID sub) f d = Inr d1
      \<and> (\<forall>m. us_ID (f m) = us_ID sub \<and> subPair (f m) = subPair sub \<and> us_DeletedAt (f m) = us_DeletedAt m
             \<and> us_ExpiresAt (f m) = us_ExpiresAt sub)"
    by (auto simp: SubUpdate_def Let_def split: if_splits)
  then obtain f where f: "updateSub (us_ID sub) f d = Inr d1"
    "\<And>m. us_ID (f m) = us_ID sub \<and> subPair (f m) = subPair sub \<and> us_DeletedAt (f m) = us_DeletedAt m
             \<and> us_ExpiresAt (f m) = us_ExpiresAt sub" by blast
  show ?thesis
    by (rule sub_ok_updateSub [OF ok f(1)]) (use f(2) same r e in \<open>simp add: subLive_def\<close>)
qed

lemma sub_ok_Restore:
  assumes ok: "sub_ok d" and r: "SubRestore sid st d = Inr d1"
  shows "sub_ok d1"
proof -
  from r have free: "\<not> subPairTaken m d" if "m \<in> set (sd_rows d)" "us_ID m = sid" for m
    using that by (auto simp: SubRestore_def split: if_splits)
  from r have d1: "d1 = updateSubs (\<lambda>s. us_ID s = sid) (\<lambda>s. s\<lparr>us_Status := st, us_DeletedAt := None\<rparr>) d"
    by (auto simp: SubRestore_def updateSub_def split: if_splits)
  define g where "g = (\<lambda>s :: userSub. if us_ID s = sid then s\<lparr>us_Status := st, us_DeletedAt := None\<rparr> else s)"
  have rows: "sd_rows d1 = map g (sd_rows d)" by (simp add: d1 updateSubs_def g_def)
  have g: "us_ID (g s) = us_ID s" "subPair (g s) = subPair s" "us_ExpiresAt (g s) = us_ExpiresAt s"
    "us_ID s \<noteq> sid \<Longrightarrow> g s = s" for s by (simp_all add: g_def)
  have ids: "map us_ID (map g (sd_rows d)) = map us_ID (sd_rows d)" using g(1) by simp
  show ?thesis unfolding sub_ok_def rows
  proof (intro conjI)
    show "distinct (map us_ID (map g (sd_rows d)))" using ok unfolding ids sub_ok_def by simp
    show "\<forall>s\<in>set (map g (sd_rows d)). us_ID s < sd_nextID d1 \<and> us_ExpiresAt s \<le> MaxExpiresAt"
      using ok g(1,3) by (auto simp: sub_ok_def d1 updateSubs_def)
    show "\<forall>r\<in>set (map g (sd_rows d)). \<forall>s\<in>set (map g (sd_rows d)). subLive r \<longrightarrow> subLive s \<longrightarrow>
        subPair r = subPair s \<longrightarrow> us_ID r = us_ID s"
    proof (intro ballI impI)
      fix r s assume "r \<in> set (map g (sd_rows d))" "s \<in> set (map g (sd_rows d))"
      then obtain r0 s0 where r: "r = g r0" "r0 \<in> set (sd_rows d)" and s: "s = g s0" "s0 \<in> set (sd_rows d)"
        by auto
      assume h: "subLive r" "subLive s" "subPair r = subPair s"
      then have p: "subPair r0 = subPair s0" using r s g(2) by metis
      show "us_ID r = us_ID s"
      proof (cases "us_ID r0 = sid \<or> us_ID s0 = sid")
        case True
        then show ?thesis
          using free [OF r(2)] free [OF s(2)] p r s h g unfolding subPairTaken_def by metis
      next
        case False
        with g(4) r s h have "subLive r0" "subLive s0" by auto
        with p ok r s g(1) show ?thesis unfolding sub_ok_def by metis
      qed
    qed
  qed
qed

lemma sub_ok_chain:
  assumes "sub_ok d" and d2: "ExtendExpiry sid (capExpiry e) d = Inr d2"
  shows "UpdateStatus sid st d2 = Inr d1 \<Longrightarrow> sub_ok d1"
    and "UpdateNotes sid n d2 = Inr d1 \<Longrightarrow> sub_ok d1"
    and "UpdateStatus sid st d2 = Inr d3 \<Longrightarrow> UpdateNotes sid n d3 = Inr d1 \<Longrightarrow> sub_ok d1"
proof -
  have ok: "sub_ok d2" by (rule sub_ok_ExtendExpiry [OF assms(1) capExpiry_le d2])
  show st: "UpdateStatus sid st d2 = Inr d1 \<Longrightarrow> sub_ok d1" for d1 by (rule sub_ok_UpdateStatus [OF ok])
  show "UpdateNotes sid n d2 = Inr d1 \<Longrightarrow> sub_ok d1" by (rule sub_ok_UpdateNotes [OF ok])
  show "UpdateStatus sid st d2 = Inr d3 \<Longrightarrow> UpdateNotes sid n d3 = Inr d1 \<Longrightarrow> sub_ok d1"
    by (rule sub_ok_UpdateNotes [OF st])
qed

lemma sub_ok_groups: "sub_ok (d\<lparr>sd_groups := gs\<rparr>) = sub_ok d"
  by (cases d) (simp only: sub_ok_def subDB.simps)

lemma sub_ok_term:
  assumes ok: "sub_ok d" and u: "updateExistingSubscriptionTerm z now sid n notes sem d = Inr d1"
  shows "sub_ok d1"
proof (cases "GetByIDForUpdate sid d")
  case (Inl e)
  with u show ?thesis by (simp add: updateExistingSubscriptionTerm_def)
next
  case (Inr s)
  then have s: "s \<in> set (sd_rows d)" "us_ID s = sid"
    using ok subRow_some [of sid d s] by (auto simp: subs split: option.splits if_splits)
  let ?exp = "if sem then assignExpired s now else \<not> t_after (us_ExpiresAt s) now"
  let ?e = "capExpiry (AddDays z (if ?exp then now else us_ExpiresAt s) n)"
  show ?thesis
  proof (cases "sem \<and> us_Status s = SubscriptionStatusSuspended")
    case True
    with u Inr ok show ?thesis by (simp add: updateExistingSubscriptionTerm_def)
  next
    case False
    define m where "m = (if sem \<and> trim_space (us_Notes s) = trim_space notes then [] else notes)"
    show ?thesis
    proof (cases ?exp)
      case True
      with u Inr False have "SubUpdate (renewedSubscriptionTerm z s m now ?e) d = Inr d1"
        by (auto simp: updateExistingSubscriptionTerm_def Let_def m_def split: if_splits)
      then show ?thesis
        by (rule sub_ok_SubUpdate [OF ok _ s(1)]) (simp_all add: renewedSubscriptionTerm_def capExpiry_le)
    next
      case notexp: False
      with u Inr False ok show ?thesis
        by (auto simp: updateExistingSubscriptionTerm_def Let_def split: sum.splits if_split_asm
            intro: sub_ok_chain sub_ok_ExtendExpiry [OF _ capExpiry_le])
    qed
  qed
qed

lemma sub_ok_createSubscription:
  "sub_ok d \<Longrightarrow> createSubscription z now inp d = (r, d1) \<Longrightarrow> sub_ok d1"
  by (auto simp: createSubscription_def Let_def capExpiry_le split: prod.splits sum.splits
      elim!: sub_ok_Create [rotated 2])

lemma sub_ok_AssignOrExtend:
  "sub_ok d \<Longrightarrow> sub_ok (snd (AssignOrExtendSubscription z now inp d))"
  by (auto simp: AssignOrExtendSubscription_def intro: sub_ok_term sub_ok_createSubscription
      split: option.split sum.split prod.split)

lemma sub_ok_assignWithReuse:
  "sub_ok d \<Longrightarrow> sub_ok (snd (assignSubscriptionWithReuse z now now2 inp d))"
  by (auto simp: assignSubscriptionWithReuse_def intro: sub_ok_term sub_ok_createSubscription
      split: option.split sum.split prod.split)

lemma sub_ok_Assign: "sub_ok d \<Longrightarrow> sub_ok (snd (AssignSubscription z now now2 inp d))"
  using sub_ok_assignWithReuse [of d z now now2 inp]
  by (auto simp: AssignSubscription_def split: prod.split sum.split)

lemma sub_ok_bulkOne: "sub_ok (snd st) \<Longrightarrow> sub_ok (snd (bulkAssignOne z inp u st))"
  using sub_ok_assignWithReuse [of "snd st" z "fst (snd u)" "snd (snd u)" "inp\<lparr>ai_UserID := fst u\<rparr>"]
  by (auto simp: bulkAssignOne_def Let_def split: prod.split sum.split)

lemma sub_ok_Bulk: "sub_ok d \<Longrightarrow> sub_ok (snd (BulkAssignSubscription z users inp d))"
proof -
  have "sub_ok (snd st) \<Longrightarrow> sub_ok (snd (fold (bulkAssignOne z inp) us st))" for us st
    by (induction us arbitrary: st) (simp_all add: sub_ok_bulkOne)
  then show "sub_ok d \<Longrightarrow> sub_ok (snd (BulkAssignSubscription z users inp d))"
    by (simp add: BulkAssignSubscription_def)
qed

lemma sub_ok_extendTx: "sub_ok d \<Longrightarrow> extendSubscriptionTx z now sid n d = Inr d1 \<Longrightarrow> sub_ok d1"
  by (auto simp: extendSubscriptionTx_def Let_def split: sum.splits if_splits
      intro: sub_ok_ExtendExpiry [OF _ capExpiry_le] sub_ok_UpdateStatus)

lemma sub_ok_services:
  "sub_ok d \<Longrightarrow> RevokeSubscription now sid d = Inr d1 \<Longrightarrow> sub_ok d1"
  "sub_ok d \<Longrightarrow> sub_ok (snd (RestoreSubscription now sid d))"
  "sub_ok d \<Longrightarrow> sub_ok (snd (ExtendSubscription z now sid n d))"
  "sub_ok d \<Longrightarrow> sub_ok (snd (AdminResetQuota z now sid a b c d))"
  "sub_ok d \<Longrightarrow> sub_ok (snd (ValidateSubscription now s d))"
  by (auto simp: RevokeSubscription_def RestoreSubscription_def ExtendSubscription_def AdminResetQuota_def
      ValidateSubscription_def Let_def split: sum.splits option.splits
      intro: sub_ok_Delete sub_ok_Restore sub_ok_extendTx sub_ok_ResetUsageWindows sub_ok_UpdateStatus)

text \<open>Every change the program makes to the tables of subscriptions and of groups.\<close>

inductive sub_step :: "zone \<Rightarrow> subDB \<Rightarrow> subDB \<Rightarrow> bool" for z where
  assign_extend: "sub_step z d (snd (AssignOrExtendSubscription z now inp d))"
| assign_new: "sub_step z d (snd (AssignSubscription z now now2 inp d))"
| assign_bulk: "sub_step z d (snd (BulkAssignSubscription z users inp d))"
| revoke: "RevokeSubscription now sid d = Inr d1 \<Longrightarrow> sub_step z d d1"
| restore: "sub_step z d (snd (RestoreSubscription now sid d))"
| extend: "sub_step z d (snd (ExtendSubscription z now sid days d))"
| admin_reset: "sub_step z d (snd (AdminResetQuota z now sid rd rw rm d))"
| validate: "sub_step z d (snd (ValidateSubscription now s d))"
| activate: "ActivateWindows sid t u d = Inr d1 \<Longrightarrow> sub_step z d d1"
| reset_daily: "ResetDailyUsage sid e t d = Inr d1 \<Longrightarrow> sub_step z d d1"
| reset_weekly: "ResetWeeklyUsage sid e t d = Inr d1 \<Longrightarrow> sub_step z d d1"
| reset_monthly: "ResetMonthlyUsage sid e t d = Inr d1 \<Longrightarrow> sub_step z d d1"
| usage: "IncrementUsage sid cost d = Inr d1 \<Longrightarrow> sub_step z d d1"
| expire: "sub_step z d (BatchUpdateExpiredStatus now d)"
| drop_group: "sub_step z d (SubDeleteByGroupID now gid d)"
| set_groups: "sub_step z d (d\<lparr>sd_groups := gs\<rparr>)"

inductive sub_reach :: "zone \<Rightarrow> subDB \<Rightarrow> bool" for z where
  start: "sd_rows d = [] \<Longrightarrow> sub_reach z d"
| next_step: "sub_reach z d \<Longrightarrow> sub_step z d d1 \<Longrightarrow> sub_reach z d1"

lemma sub_ok_step: "sub_step z d d1 \<Longrightarrow> sub_ok d \<Longrightarrow> sub_ok d1"
  by (induction rule: sub_step.induct)
    ((rule sub_ok_AssignOrExtend sub_ok_Assign sub_ok_Bulk sub_ok_services sub_ok_windows
        sub_ok_IncrementUsage sub_ok_BatchUpdate sub_ok_DeleteByGroup; assumption) | simp only: sub_ok_groups)+

text \<open>C35. Whatever operations run, in any order and at any times, row ids stay distinct, a user never
has two live subscriptions of one group, and no term ends after the last expiry allowed (2099).\<close>

theorem subscription_table_invariant:
  assumes "sub_reach z d"
  shows "distinct (map us_ID (sd_rows d))
     \<and> (\<forall>s\<in>set (sd_rows d). us_ExpiresAt s \<le> MaxExpiresAt)
     \<and> (\<forall>uid gid. length (filter (\<lambda>s. subLive s \<and> subPair s = (uid, gid)) (sd_rows d)) \<le> 1)"
proof -
  have ok: "sub_ok d"
    using assms
  proof induction
    case (start d)
    then show ?case by (simp add: sub_ok_def)
  next
    case (next_step d d1)
    then show ?case by (blast intro: sub_ok_step)
  qed
  have "length (filter (\<lambda>s. subLive s \<and> subPair s = (uid, gid)) (sd_rows d)) \<le> 1" for uid gid
  proof (rule ccontr)
    let ?xs = "filter (\<lambda>s. subLive s \<and> subPair s = (uid, gid)) (sd_rows d)"
    assume "\<not> length ?xs \<le> 1"
    then obtain r s rest where xs: "?xs = r # s # rest"
      by (cases ?xs; cases "tl ?xs") auto
    have "distinct (map us_ID ?xs)" using ok by (simp add: sub_ok_def distinct_map_filter)
    with xs have "us_ID r \<noteq> us_ID s" by simp
    moreover have "r \<in> set ?xs" "s \<in> set ?xs" by (simp_all only: xs list.set_intros)
    then have "r \<in> set (sd_rows d)" "s \<in> set (sd_rows d)" "subLive r" "subLive s" "subPair r = subPair s" by auto
    ultimately show False using ok unfolding sub_ok_def by blast
  qed
  moreover have "distinct (map us_ID (sd_rows d))" "\<forall>s\<in>set (sd_rows d). us_ExpiresAt s \<le> MaxExpiresAt"
    using ok by (simp_all add: sub_ok_def)
  ultimately show ?thesis by blast
qed

section \<open>Terms after an operation\<close>

definition putSub :: "int \<Rightarrow> userSub \<Rightarrow> subDB \<Rightarrow> subDB" where
  "putSub sid r d = updateSubs (\<lambda>s. us_ID s = sid) (\<lambda>_. r) d"

lemma put_eq:
  assumes "sub_ok d" "subRow sid d = Some s"
  shows "updateSubs (\<lambda>r. us_ID r = sid) f d = putSub sid (f s) d"
proof -
  have "r = s" if "r \<in> set (sd_rows d)" "us_ID r = sid" for r
    using subRow_in [OF assms(1) that(1)] that(2) assms(2) by simp
  then show ?thesis by (simp add: putSub_def updateSubs_def cong: map_cong)
qed

lemma put_put [simp]: "us_ID r = sid \<Longrightarrow> putSub sid q (putSub sid r d) = putSub sid q d"
  by (simp add: putSub_def updateSubs_def)

lemma put_row:
  "subRow sid d = Some s \<Longrightarrow> us_ID r = sid \<Longrightarrow>
   subRow sid' (putSub sid r d) = (if sid' = sid then Some r else subRow sid' d)"
proof -
  assume r: "us_ID r = sid" and s: "subRow sid d = Some s"
  have "find (\<lambda>s. us_ID s = sid') (map (\<lambda>s. if us_ID s = sid then r else s) xs)
      = (if sid' = sid then map_option (\<lambda>_. r) (find (\<lambda>s. us_ID s = sid) xs)
         else find (\<lambda>s. us_ID s = sid') xs)" for xs
    using r by (induction xs) auto
  with s show ?thesis by (simp add: subRow_def putSub_def updateSubs_def)
qed

lemma put_same: "sub_ok d \<Longrightarrow> subRow sid d = Some s \<Longrightarrow> putSub sid s d = d"
  using put_eq [of d sid s "\<lambda>x. x"] by (simp add: updateSubs_def)

lemma put_ok:
  assumes "sub_ok d" "subRow sid d = Some s"
    and "us_ID r = sid" "subPair r = subPair s" "subLive r \<Longrightarrow> subLive s" "us_ExpiresAt r \<le> MaxExpiresAt"
  shows "sub_ok (putSub sid r d)"
  unfolding putSub_def
proof (rule sub_ok_update [OF assms(1)])
  fix q assume "q \<in> set (sd_rows d)" "us_ID q = sid"
  then have "q = s" using subRow_in [OF assms(1)] assms(2) by fastforce
  with assms(3-6) subRow_some [OF assms(2)]
  show "us_ID r = us_ID q \<and> subPair r = subPair q \<and> (subLive r \<longrightarrow> subLive q) \<and> us_ExpiresAt r \<le> MaxExpiresAt"
    by simp
qed

lemma updateSub_put:
  "sub_ok d \<Longrightarrow> subRow sid d = Some s \<Longrightarrow> updateSub sid f d = Inr (putSub sid (f s) d)"
  by (simp add: updateSub_eq put_eq)

lemmas row_writes = ExtendExpiry_def UpdateStatus_def UpdateNotes_def ResetUsageWindows_def

text \<open>The subscription after \<open>days\<close> more days, and after an adjustment by \<open>days\<close>.\<close>

definition extendedSub :: "userSub \<Rightarrow> time \<Rightarrow> string \<Rightarrow> userSub" where
  "extendedSub s e notes = s\<lparr>us_ExpiresAt := e, us_Status := SubscriptionStatusActive,
     us_Notes := appendSubscriptionNotes (us_Notes s) notes\<rparr>"

lemma append_nil [simp]: "appendSubscriptionNotes n [] = n"
  by (simp add: appendSubscriptionNotes_def)

lemma SubUpdate_put:
  assumes "sub_ok d" "subRow sid d = Some s"
    and "us_ID r = sid" "us_AssignedBy r = us_AssignedBy s" "us_DeletedAt r = us_DeletedAt s"
      "subPair r = subPair s" "us_DailyWindowStart r \<noteq> None" "us_WeeklyWindowStart r \<noteq> None"
      "us_MonthlyWindowStart r \<noteq> None"
    and "\<not> subPairTaken r d"
  shows "SubUpdate r d = Inr (putSub sid r d)"
proof -
  have "r\<lparr>us_DailyWindowStart := setNillable (us_DailyWindowStart r) (us_DailyWindowStart s),
      us_WeeklyWindowStart := setNillable (us_WeeklyWindowStart r) (us_WeeklyWindowStart s),
      us_MonthlyWindowStart := setNillable (us_MonthlyWindowStart r) (us_MonthlyWindowStart s),
      us_AssignedBy := setNillable (us_AssignedBy r) (us_AssignedBy s),
      us_DeletedAt := us_DeletedAt s\<rparr> = r"
    using assms(4,5,7-9) by (cases r) (auto simp: setNillable_def split: option.split)
  with assms(10) show ?thesis
    by (simp add: SubUpdate_def Let_def assms(3) updateSub_put [OF assms(1,2)])
qed

lemma term_update:
  assumes z: "fixed_zone z" and ok: "sub_ok d" and s: "subRow sid d = Some s" "subLive s"
  shows "updateExistingSubscriptionTerm z now sid n notes False d =
    Inr (putSub sid (if us_ExpiresAt s \<le> now then renewedSubscriptionTerm z s notes now (capExpiry (now + n * day))
                     else extendedSub s (capExpiry (us_ExpiresAt s + n * day)) notes) d)"
proof (cases "us_ExpiresAt s \<le> now")
  case True
  let ?r = "renewedSubscriptionTerm z s notes now (capExpiry (now + n * day))"
  have r: "us_ID ?r = sid" "us_AssignedBy ?r = us_AssignedBy s" "us_DeletedAt ?r = us_DeletedAt s"
    "subPair ?r = subPair s" "us_DailyWindowStart ?r \<noteq> None" "us_WeeklyWindowStart ?r \<noteq> None"
    "us_MonthlyWindowStart ?r \<noteq> None"
    using subRow_some [OF s(1)] by (simp_all add: renewedSubscriptionTerm_def)
  have "\<not> subPairTaken ?r d"
  proof
    assume "subPairTaken ?r d"
    then obtain q where "q \<in> set (sd_rows d)" "subLive q" "us_ID q \<noteq> sid" "subPair q = subPair s"
      using r(1,4) by (auto simp: subPairTaken_def)
    with ok s subRow_some [OF s(1)] show False unfolding sub_ok_def by blast
  qed
  then have "SubUpdate ?r d = Inr (putSub sid ?r d)"
    by (rule SubUpdate_put [OF ok s(1) r])
  with True ok s z show ?thesis
    by (simp add: updateExistingSubscriptionTerm_def subs AddDays_fixed not_less)
next
  case False
  have id: "us_ID s = sid" using subRow_some [OF s(1)] by simp
  let ?e = "capExpiry (us_ExpiresAt s + n * day)"
  define s1 where "s1 = s\<lparr>us_ExpiresAt := ?e\<rparr>"
  define s2 where "s2 = s1\<lparr>us_Status := SubscriptionStatusActive\<rparr>"
  have d1: "ExtendExpiry sid ?e d = Inr (putSub sid s1 d)"
    by (simp add: ExtendExpiry_def updateSub_put [OF ok s(1)] s1_def)
  have ok1: "sub_ok (putSub sid s1 d)"
    by (rule put_ok [OF ok s(1)]) (simp_all add: s1_def id capExpiry_le subLive_def)
  have row1: "subRow sid (putSub sid s1 d) = Some s1"
    by (simp add: put_row [OF s(1)] s1_def id)
  have d2: "(if us_Status s \<noteq> SubscriptionStatusActive
      then UpdateStatus sid SubscriptionStatusActive (putSub sid s1 d) else Inr (putSub sid s1 d))
    = Inr (putSub sid s2 d)"
  proof (cases "us_Status s = SubscriptionStatusActive")
    case True
    then have "s2 = s1" by (cases s) (simp add: s2_def s1_def)
    with True show ?thesis by simp
  next
    case False
    have "us_ID s1 = sid" by (simp add: s1_def id)
    with False show ?thesis
      by (simp add: UpdateStatus_def updateSub_put [OF ok1 row1] s2_def [symmetric])
  qed
  have ok2: "sub_ok (putSub sid s2 d)"
    by (rule put_ok [OF ok s(1)]) (simp_all add: s2_def s1_def id capExpiry_le subLive_def)
  have row2: "subRow sid (putSub sid s2 d) = Some s2"
    by (simp add: put_row [OF s(1)] s2_def s1_def id)
  have s2: "us_ID s2 = sid" "extendedSub s ?e notes = s2\<lparr>us_Notes := appendSubscriptionNotes (us_Notes s) notes\<rparr>"
    by (simp_all add: extendedSub_def s2_def s1_def id)
  have "extendedSub s ?e [] = s2" by (cases s) (simp add: extendedSub_def s2_def s1_def)
  then have d3: "(if notes \<noteq> [] then UpdateNotes sid (appendSubscriptionNotes (us_Notes s) notes) (putSub sid s2 d)
      else Inr (putSub sid s2 d)) = Inr (putSub sid (extendedSub s ?e notes) d)"
    using s2 by (auto simp: UpdateNotes_def updateSub_put [OF ok2 row2])
  have get: "GetByIDForUpdate sid d = Inr s" using ok s by (simp add: subs)
  show ?thesis
    unfolding updateExistingSubscriptionTerm_def get
    using False z d1 d2 d3
    by (cases "us_Status s = SubscriptionStatusActive"; cases "notes = []") (simp_all add: AddDays_fixed id)
qed

lemma reach_ok: "sub_reach z d \<Longrightarrow> sub_ok d"
proof (induction rule: sub_reach.induct)
  case (start d)
  then show ?case by (simp add: sub_ok_def)
next
  case (next_step d d1)
  then show ?case by (blast intro: sub_ok_step)
qed

lemma create_result:
  assumes z: "fixed_zone z" and ok: "sub_ok d"
    and none: "GetByUserIDAndGroupID (ai_UserID inp) (ai_GroupID inp) d = Inl e"
    and call: "createSubscription z now inp d = (r, d1)"
  obtains s where "r = Inr s" "subRow (us_ID s) d1 = Some s" "subLive s"
    "subPair s = (ai_UserID inp, ai_GroupID inp)" "us_Status s = SubscriptionStatusActive"
    "us_StartsAt s = now" "us_ExpiresAt s = capExpiry (now + normalizeAssignValidityDays (ai_ValidityDays inp) * day)"
    "us_DailyUsageUSD s = 0" "us_WeeklyUsageUSD s = 0" "us_MonthlyUsageUSD s = 0" "us_Notes s = ai_Notes inp"
    "\<not> IsWindowActivated s" "sub_ok d1"
proof -
  define s where "s = \<lparr>us_ID = sd_nextID d, us_UserID = ai_UserID inp, us_GroupID = ai_GroupID inp, us_StartsAt = now,
    us_ExpiresAt = capExpiry (now + normalizeAssignValidityDays (ai_ValidityDays inp) * day),
    us_Status = SubscriptionStatusActive, us_DailyWindowStart = None, us_WeeklyWindowStart = None,
    us_MonthlyWindowStart = None, us_DailyUsageUSD = 0, us_WeeklyUsageUSD = 0, us_MonthlyUsageUSD = 0,
    us_AssignedBy = (if 0 < ai_AssignedBy inp then Some (ai_AssignedBy inp) else None),
    us_AssignedAt = now, us_Notes = ai_Notes inp, us_DeletedAt = None\<rparr>"
  have free: "\<not> subPairTaken s d"
    using none get_by_pair(2) [OF ok, of "ai_UserID inp" "ai_GroupID inp" e]
    by (auto simp: subPairTaken_def s_def)
  have d1: "d1 = d\<lparr>sd_rows := sd_rows d @ [s], sd_nextID := sd_nextID d + 1\<rparr>"
    and r: "r = SubGetByID (sd_nextID d) d1"
    using call free z
    by (simp_all add: createSubscription_def SubCreate_def Let_def s_def AddDays_fixed subStatuses
        split: if_splits)
  have ok1: "sub_ok d1" by (rule sub_ok_createSubscription [OF ok call])
  have "s \<in> set (sd_rows d1)" "us_ID s = sd_nextID d" "subLive s"
    by (simp_all add: d1 s_def subLive_def)
  have row: "subRow (us_ID s) d1 = Some s" by (rule subRow_in [OF ok1 \<open>s \<in> set (sd_rows d1)\<close>])
  with r ok1 have "r = Inr s" by (simp add: subs \<open>us_ID s = sd_nextID d\<close> \<open>subLive s\<close>)
  then show thesis
    by (rule that [OF _ row]) (simp_all add: s_def subLive_def IsWindowActivated_def ok1)
qed

lemma get_pair_row: "sub_ok d \<Longrightarrow> subRow sid d = Some s \<Longrightarrow> subLive s \<Longrightarrow> subPair s = (uid, gid) \<Longrightarrow>
    GetByUserIDAndGroupID uid gid d = Inr s"
  using subRow_some [of sid d s] by (simp add: get_by_pair(1))

text \<open>Assigning a subscription of a subscription group leaves the user exactly one, active, whose
term is the days asked for (30 when none, at most 36500) longer than what was left of an existing one,
or than now, and never past 2099; an existing one is kept under its id, with its usage while its term
runs and with none once it had ended.\<close>

theorem assigned_term:
  assumes z: "fixed_zone z" and reach: "sub_reach z d"
    and g: "groupForAssignment (ai_GroupID inp) d = None"
    and call: "AssignOrExtendSubscription z now inp d = (r, d1)"
  defines "n \<equiv> normalizeAssignValidityDays (ai_ValidityDays inp)"
  shows "\<exists>s extended. r = Inr (s, extended) \<and> us_Status s = SubscriptionStatusActive
    \<and> GetByUserIDAndGroupID (ai_UserID inp) (ai_GroupID inp) d1 = Inr s
    \<and> (case GetByUserIDAndGroupID (ai_UserID inp) (ai_GroupID inp) d of
         Inl _ \<Rightarrow> \<not> extended \<and> us_ExpiresAt s = min MaxExpiresAt (now + n * day) \<and> us_WeeklyUsageUSD s = 0
       | Inr old \<Rightarrow> extended \<and> us_ID s = us_ID old
           \<and> us_ExpiresAt s = min MaxExpiresAt (max now (us_ExpiresAt old) + n * day)
           \<and> us_WeeklyUsageUSD s = (if now < us_ExpiresAt old then us_WeeklyUsageUSD old else 0))"
proof -
  note ok = reach_ok [OF reach]
  have cap: "capExpiry e = min MaxExpiresAt e" for e by (simp add: capExpiry_def min_def)
  show ?thesis
  proof (cases "GetByUserIDAndGroupID (ai_UserID inp) (ai_GroupID inp) d")
    case (Inl e)
    obtain r1 where c: "createSubscription z now inp d = (r1, d1)" "r = pairWith False r1"
      using call Inl g by (auto simp: AssignOrExtendSubscription_def split: prod.splits)
    from create_result [OF z ok Inl c(1)] obtain s where s: "r1 = Inr s" "subRow (us_ID s) d1 = Some s" "subLive s"
      "subPair s = (ai_UserID inp, ai_GroupID inp)" "us_Status s = SubscriptionStatusActive"
      "us_ExpiresAt s = capExpiry (now + n * day)" "us_WeeklyUsageUSD s = 0" "sub_ok d1"
      unfolding n_def by metis
    with c(2) Inl get_pair_row [OF s(8,2,3,4)] show ?thesis
      by (intro exI [of _ s] exI [of _ False]) (simp add: pairWith_def cap)
  next
    case (Inr old)
    then have old: "old \<in> set (sd_rows d)" "subLive old" "subPair old = (ai_UserID inp, ai_GroupID inp)"
      using get_by_pair(1) [OF ok] by auto
    note row = subRow_in [OF ok old(1)]
    let ?s = "if us_ExpiresAt old \<le> now
      then renewedSubscriptionTerm z old (ai_Notes inp) now (capExpiry (now + n * day))
      else extendedSub old (capExpiry (us_ExpiresAt old + n * day)) (ai_Notes inp)"
    define s where "s = ?s"
    have s: "us_ID s = us_ID old" "subPair s = subPair old" "subLive s" "us_Status s = SubscriptionStatusActive"
      "us_ExpiresAt s = capExpiry (max now (us_ExpiresAt old) + n * day)"
      "us_WeeklyUsageUSD s = (if now < us_ExpiresAt old then us_WeeklyUsageUSD old else 0)"
      using old(2) by (simp_all add: s_def renewedSubscriptionTerm_def extendedSub_def subLive_def max_def)
    have ok1: "sub_ok (putSub (us_ID old) s d)"
      by (rule put_ok [OF ok row]) (use s old(2) capExpiry_le in auto)
    have row1: "subRow (us_ID old) (putSub (us_ID old) s d) = Some s"
      using put_row [OF row s(1)] by simp
    have "updateExistingSubscriptionTerm z now (us_ID old) n (ai_Notes inp) False d = Inr (putSub (us_ID old) s d)"
      unfolding s_def by (rule term_update [OF z ok row old(2)])
    with call Inr g
    have "d1 = putSub (us_ID old) s d" "r = pairWith True (SubGetByID (us_ID old) d1)"
      by (auto simp: AssignOrExtendSubscription_def n_def)
    with row1 ok1 s(3) have "r = Inr (s, True)" "d1 = putSub (us_ID old) s d"
      by (simp_all add: subs pairWith_def)
    with Inr s cap get_pair_row [OF ok1 row1 s(3)] old(3) show ?thesis
      by (intro exI [of _ s] exI [of _ True]) simp
  qed
qed

lemma adjust_result:
  assumes z: "fixed_zone z" and reach: "sub_reach z d" and s: "subRow sid d = Some s" "subLive s"
  shows "ExtendSubscription z now sid days d =
    (let n = max (- 36500) (min 36500 days);
         e = min MaxExpiresAt (max now (us_ExpiresAt s) + n * day);
         s1 = s\<lparr>us_ExpiresAt := e,
                us_Status := if us_Status s = SubscriptionStatusExpired then SubscriptionStatusActive else us_Status s\<rparr>
     in if us_ExpiresAt s \<le> now \<and> n < 0 then (Inl ''CANNOT_SHORTEN_EXPIRED'', d)
        else if e \<le> now then (Inl ''ADJUST_WOULD_EXPIRE'', d)
        else (Inr s1, putSub sid s1 d))"
proof -
  note ok = reach_ok [OF reach]
  have id: "us_ID s = sid" using subRow_some [OF s(1)] by simp
  define n where "n = max (- 36500) (min 36500 days)"
  have n: "clampDays days = n" by (simp add: clampDays_def n_def MaxValidityDays_def Let_def min_def max_def)
  define e where "e = min MaxExpiresAt (max now (us_ExpiresAt s) + n * day)"
  have e: "us_ExpiresAt s \<le> now \<Longrightarrow> capExpiry (now + n * day) = e"
    "\<not> us_ExpiresAt s \<le> now \<Longrightarrow> capExpiry (us_ExpiresAt s + n * day) = e"
    by (simp_all add: capExpiry_def e_def min_def max_def)
  define s0 where "s0 = s\<lparr>us_ExpiresAt := e\<rparr>"
  define s1 where "s1 = s\<lparr>us_ExpiresAt := e,
    us_Status := if us_Status s = SubscriptionStatusExpired then SubscriptionStatusActive else us_Status s\<rparr>"
  have el: "e \<le> MaxExpiresAt" by (simp add: e_def)
  have w0: "ExtendExpiry sid e d = Inr (putSub sid s0 d)"
    by (simp add: ExtendExpiry_def updateSub_put [OF ok s(1)] s0_def)
  have ok0: "sub_ok (putSub sid s0 d)"
    by (rule put_ok [OF ok s(1)]) (simp_all add: s0_def id el subLive_def)
  have row0: "subRow sid (putSub sid s0 d) = Some s0" by (simp add: put_row [OF s(1)] s0_def id)
  have w1: "(if us_Status s = SubscriptionStatusExpired
      then UpdateStatus sid SubscriptionStatusActive (putSub sid s0 d) else Inr (putSub sid s0 d)) = Inr (putSub sid s1 d)"
  proof (cases "us_Status s = SubscriptionStatusExpired")
    case True
    have "us_ID s0 = sid" "s0\<lparr>us_Status := SubscriptionStatusActive\<rparr> = s1" by (simp_all add: s0_def s1_def id True)
    with True show ?thesis by (simp add: UpdateStatus_def updateSub_put [OF ok0 row0])
  next
    case False
    then have "s0 = s1" by (cases s) (simp add: s0_def s1_def)
    with False show ?thesis by simp
  qed
  have ok1: "sub_ok (putSub sid s1 d)"
    by (rule put_ok [OF ok s(1)]) (simp_all add: s1_def id el subLive_def)
  have row1: "subRow sid (putSub sid s1 d) = Some s1" by (simp add: put_row [OF s(1)] s1_def id)
  have live1: "subLive s1" using s(2) by (simp add: s1_def subLive_def)
  have get: "GetByIDForUpdate sid d = Inr s" using ok s by (simp add: subs)
  have "extendSubscriptionTx z now sid days d =
      (if us_ExpiresAt s \<le> now \<and> n < 0 then Inl ''CANNOT_SHORTEN_EXPIRED''
       else if e \<le> now then Inl ''ADJUST_WOULD_EXPIRE'' else Inr (putSub sid s1 d))"
    using w1 e unfolding extendSubscriptionTx_def get
    by (cases "us_ExpiresAt s \<le> now") (simp_all add: AddDays_fixed [OF z] n not_less w0 Let_def)
  then show ?thesis
    unfolding ExtendSubscription_def n_def [symmetric] Let_def e_def [symmetric] s1_def [symmetric]
    using ok1 row1 live1 by (simp add: subs)
qed

text \<open>Adjusting a live subscription by some days, at most 36500 either way: an ended one cannot be
shortened, none may be left without remaining time, and otherwise the new term is that many days from
the later of its end and now, no later than 2099, an expired status becoming active; nothing else in
the table changes.\<close>

theorem adjusted_term:
  assumes z: "fixed_zone z" and reach: "sub_reach z d" and s: "subRow sid d = Some s" "subLive s"
  shows "ExtendSubscription z now sid days d =
    (let n = max (- 36500) (min 36500 days);
         e = min MaxExpiresAt (max now (us_ExpiresAt s) + n * day);
         s1 = s\<lparr>us_ExpiresAt := e,
                us_Status := if us_Status s = SubscriptionStatusExpired then SubscriptionStatusActive else us_Status s\<rparr>
     in if us_ExpiresAt s \<le> now \<and> n < 0 then (Inl ''CANNOT_SHORTEN_EXPIRED'', d)
        else if e \<le> now then (Inl ''ADJUST_WOULD_EXPIRE'', d)
        else (Inr s1, putSub sid s1 d))"
  by (rule adjust_result [OF assms])

text \<open>Taking days off a subscription and giving them back before it ends restores the table exactly,
unless its status was expired (a later extension would have made it active).\<close>

theorem shortened_term_restored:
  assumes z: "fixed_zone z" and reach: "sub_reach z d" and s: "subRow sid d = Some s" "subLive s"
    and st: "us_Status s \<noteq> SubscriptionStatusExpired" and days: "0 \<le> days" "days \<le> 36500"
    and off: "ExtendSubscription z now sid (- days) d = (Inr s1, d1)" and running: "now2 < us_ExpiresAt s1"
  shows "ExtendSubscription z now2 sid days d1 = (Inr s, d)"
proof -
  note ok = reach_ok [OF reach]
  have id: "us_ID s = sid" using subRow_some [OF s(1)] by simp
  have le: "us_ExpiresAt s \<le> MaxExpiresAt" using expiry_le [OF ok] subRow_some [OF s(1)] by simp
  have pos: "0 \<le> days * day" using days(1) day_pos by simp
  let ?e = "us_ExpiresAt s - days * day"
  have "now < us_ExpiresAt s"
    using off adjust_result [OF z reach s, of now "- days"] days pos
    by (cases "days = 0") (auto simp: Let_def split: if_splits)
  with off adjust_result [OF z reach s, of now "- days"] days le pos st
  have s1: "s1 = s\<lparr>us_ExpiresAt := ?e\<rparr>" and d1: "d1 = putSub sid (s\<lparr>us_ExpiresAt := ?e\<rparr>) d"
    by (cases s; auto simp: Let_def split: if_splits)+
  have reach1: "sub_reach z d1"
    using sub_reach.next_step [OF reach sub_step.extend [of z d now sid "- days"]] off by simp
  have row1: "subRow sid d1 = Some s1" unfolding d1 s1 by (simp add: put_row [OF s(1)] id)
  have live1: "subLive s1" using s(2) by (simp add: s1 subLive_def)
  have undo: "s1\<lparr>us_ExpiresAt := us_ExpiresAt s\<rparr> = s" "putSub sid s d1 = d"
    using put_same [OF ok s(1)] by (simp_all add: s1 d1 id)
  have e2: "min MaxExpiresAt (max now2 (us_ExpiresAt s1) + max (- 36500) (min 36500 days) * day) = us_ExpiresAt s"
    using running days le by (simp add: s1)
  have "now2 < us_ExpiresAt s" using running pos by (simp add: s1)
  with undo e2 st days running adjust_result [OF z reach1 row1 live1, of now2 days] show ?thesis
    by (simp add: Let_def s1)
qed

text \<open>Repeating an assignment that created a subscription is idempotent while it runs: the same row
is returned and the table does not change.\<close>

theorem assignment_idempotent:
  assumes z: "fixed_zone z" and reach: "sub_reach z d"
    and fresh: "GetByUserIDAndGroupID (ai_UserID inp) (ai_GroupID inp) d = Inl e"
    and call: "AssignSubscription z now now2 inp d = (Inr s, d1)"
    and running: "now3 < us_ExpiresAt s"
  shows "AssignSubscription z now3 now4 inp d1 = (Inr s, d1)"
proof -
  note ok = reach_ok [OF reach]
  have no: "\<not> ExistsByUserIDAndGroupID (ai_UserID inp) (ai_GroupID inp) d"
    using fresh get_by_pair(2) [OF ok, of "ai_UserID inp" "ai_GroupID inp" e]
    by (auto simp: ExistsByUserIDAndGroupID_def subQuery_def filter_empty_conv)
  then have c: "createSubscription z now inp d = (Inr s, d1)" and g: "groupForAssignment (ai_GroupID inp) d = None"
    using call by (auto simp: AssignSubscription_def assignSubscriptionWithReuse_def pairWith_def
        split: option.splits prod.splits sum.splits)
  from create_result [OF z ok fresh c] obtain s' where s': "Inr s = (Inr s' :: string + userSub)"
    "subRow (us_ID s') d1 = Some s'" "subLive s'" "subPair s' = (ai_UserID inp, ai_GroupID inp)"
    "us_Status s' = SubscriptionStatusActive" "us_StartsAt s' = now"
    "us_ExpiresAt s' = capExpiry (now + normalizeAssignValidityDays (ai_ValidityDays inp) * day)"
    "us_Notes s' = ai_Notes inp" "sub_ok d1" by metis
  then have s: "s' = s" by simp
  have get: "GetByUserIDAndGroupID (ai_UserID inp) (ai_GroupID inp) d1 = Inr s"
    using get_pair_row [OF s'(9,2,3,4)] s by simp
  then have ex: "ExistsByUserIDAndGroupID (ai_UserID inp) (ai_GroupID inp) d1"
    by (auto simp: ExistsByUserIDAndGroupID_def GetByUserIDAndGroupID_def)
  have "sd_groups d1 = sd_groups d"
    using c by (auto simp: createSubscription_def SubCreate_def Let_def split: if_splits)
  with g have g1: "groupForAssignment (ai_GroupID inp) d1 = None" by (simp add: groupForAssignment_def)
  have "\<not> assignExpired s now3"
    using running s'(5) s by (simp add: assignExpired_def subStatuses)
  moreover have "detectAssignSemanticConflict z s inp = None"
    using s' s by (simp add: detectAssignSemanticConflict_def AddDays_fixed [OF z] Let_def)
  ultimately show ?thesis
    using get ex g1 by (simp add: AssignSubscription_def assignSubscriptionWithReuse_def)
qed

section \<open>Instances\<close>

definition demoInput :: assignInput where
  "demoInput = \<lparr>ai_UserID = 7, ai_GroupID = 3, ai_ValidityDays = 30, ai_AssignedBy = 0, ai_Notes = ''gift''\<rparr>"

definition demoGroup :: subGroup where
  "demoGroup = \<lparr>sg_SubscriptionType = ''subscription'', sg_DailyLimitUSD = None,
     sg_WeeklyLimitUSD = Some 100, sg_MonthlyLimitUSD = Some 0\<rparr>"

definition demoEmpty :: subDB where
  "demoEmpty = \<lparr>sd_rows = [], sd_groups = [(3, demoGroup)], sd_nextID = 1\<rparr>"

definition demoNow :: time where "demoNow = 739000 * day + 9 * hour"

definition demoSubDB :: subDB where
  "demoSubDB = snd (AssignOrExtendSubscription shanghai demoNow demoInput demoEmpty)"

definition demoRow :: userSub where
  "demoRow = \<lparr>us_ID = 1, us_UserID = 7, us_GroupID = 3, us_StartsAt = demoNow, us_ExpiresAt = demoNow + 30 * day,
     us_Status = ''active'', us_DailyWindowStart = None, us_WeeklyWindowStart = None, us_MonthlyWindowStart = None,
     us_DailyUsageUSD = 0, us_WeeklyUsageUSD = 0, us_MonthlyUsageUSD = 0, us_AssignedBy = None,
     us_AssignedAt = demoNow, us_Notes = ''gift'', us_DeletedAt = None\<rparr>"

lemma demoSubDB_eq: "demoSubDB = \<lparr>sd_rows = [demoRow], sd_groups = [(3, demoGroup)], sd_nextID = 2\<rparr>"
  by code_simp

lemma demoEmpty_reach: "sub_reach z demoEmpty"
  by (rule sub_reach.start) (simp add: demoEmpty_def)

lemma demoSubDB_reach: "sub_reach shanghai demoSubDB"
  unfolding demoSubDB_def by (rule sub_reach.next_step [OF demoEmpty_reach sub_step.assign_extend])

lemma demoRow_in: "subRow 1 demoSubDB = Some demoRow" "subLive demoRow"
  by (simp_all add: demoSubDB_eq subRow_def demoRow_def subLive_def)

lemma subscription_table_invariant_witness:
  "length (filter (\<lambda>s. subLive s \<and> subPair s = (7, 3)) (sd_rows demoSubDB)) \<le> 1"
  using subscription_table_invariant [OF demoSubDB_reach] by blast

lemma assigned_term_witness:
  "\<exists>s extended. fst (AssignOrExtendSubscription shanghai (demoNow + day) demoInput demoSubDB) = Inr (s, extended)
     \<and> us_Status s = SubscriptionStatusActive \<and> us_ExpiresAt s = demoNow + 60 * day"
proof -
  have g: "groupForAssignment (ai_GroupID demoInput) demoSubDB = None" by code_simp
  have q: "GetByUserIDAndGroupID (ai_UserID demoInput) (ai_GroupID demoInput) demoSubDB = Inr demoRow" by code_simp
  have e: "min MaxExpiresAt (max (demoNow + day) (us_ExpiresAt demoRow)
      + normalizeAssignValidityDays (ai_ValidityDays demoInput) * day) = demoNow + 60 * day" by code_simp
  show ?thesis
    using assigned_term [OF fixed_shanghai demoSubDB_reach g prod.collapse [symmetric], of "demoNow + day"]
    unfolding q sum.case e by blast
qed

lemma adjusted_term_witness:
  "ExtendSubscription shanghai (demoNow + 29 * day) 1 (- 2) demoSubDB = (Inl ''ADJUST_WOULD_EXPIRE'', demoSubDB)
     \<and> ExtendSubscription shanghai (demoNow + 29 * day) 1 (- 50000) demoSubDB = (Inl ''ADJUST_WOULD_EXPIRE'', demoSubDB)"
  unfolding adjusted_term [OF fixed_shanghai demoSubDB_reach demoRow_in]
  by (simp add: Let_def demoRow_def demoNow_def MaxExpiresAt_def day_def duration_defs)

lemma shortened_term_restored_witness:
  "ExtendSubscription shanghai (demoNow + 2 * day) 1 10 (snd (ExtendSubscription shanghai demoNow 1 (- 10) demoSubDB))
     = (Inr demoRow, demoSubDB)"
proof -
  have call: "ExtendSubscription shanghai demoNow 1 (- 10) demoSubDB
      = (Inr (demoRow\<lparr>us_ExpiresAt := demoNow + 20 * day\<rparr>), snd (ExtendSubscription shanghai demoNow 1 (- 10) demoSubDB))"
    by code_simp
  show ?thesis
    by (rule shortened_term_restored [OF fixed_shanghai demoSubDB_reach demoRow_in _ _ _ call])
      (simp_all add: demoRow_def subStatuses day_def duration_defs)
qed

lemma assignment_idempotent_witness:
  "AssignSubscription shanghai (demoNow + day) (demoNow + day) demoInput demoSubDB = (Inr demoRow, demoSubDB)"
proof -
  have fresh: "GetByUserIDAndGroupID (ai_UserID demoInput) (ai_GroupID demoInput) demoEmpty = Inl ErrSubscriptionNotFound"
    by code_simp
  have call: "AssignSubscription shanghai demoNow demoNow demoInput demoEmpty = (Inr demoRow, demoSubDB)"
    by code_simp
  show ?thesis
    by (rule assignment_idempotent [OF fixed_shanghai demoEmpty_reach fresh call])
      (simp add: demoRow_def day_def duration_defs)
qed

end
