(* ===== verification/SubscriptionAdmission.thy ===== *)
theory SubscriptionAdmission
  imports SubscriptionFacts
begin

text \<open>
  Admitting a request on a subscription: the checks of \<open>ValidateAndCheckLimits\<close>, the maintenance of
  the usage windows, and the subscription part of \<open>api_key_auth.go\<close> that composes them.

  \<^item> The flow is a program of the statements it issues (\<open>subProg\<close>), since requests of several
    processes interleave between them; \<open>runSub\<close> runs one alone at an instant.
  \<^item> The snapshot a request starts from comes from a cache and may be stale.
\<close>

section \<open>Checks in memory\<close>

definition ErrSubscriptionExpired :: string where "ErrSubscriptionExpired = ''SUBSCRIPTION_EXPIRED''"
definition ErrSubscriptionSuspended :: string where "ErrSubscriptionSuspended = ''SUBSCRIPTION_SUSPENDED''"
definition ErrDailyLimitExceeded :: string where "ErrDailyLimitExceeded = ''DAILY_LIMIT_EXCEEDED''"
definition ErrWeeklyLimitExceeded :: string where "ErrWeeklyLimitExceeded = ''WEEKLY_LIMIT_EXCEEDED''"
definition ErrMonthlyLimitExceeded :: string where "ErrMonthlyLimitExceeded = ''MONTHLY_LIMIT_EXCEEDED''"

lemmas sub_errors = ErrSubscriptionExpired_def ErrSubscriptionSuspended_def ErrDailyLimitExceeded_def
  ErrWeeklyLimitExceeded_def ErrMonthlyLimitExceeded_def

definition CheckUsageLimits :: "userSub \<Rightarrow> subGroup \<Rightarrow> int \<Rightarrow> string option" where
  "CheckUsageLimits s g cost =
    (if \<not> CheckDailyLimit s g cost then Some ErrDailyLimitExceeded
     else if \<not> CheckWeeklyLimit s g cost then Some ErrWeeklyLimitExceeded
     else if \<not> CheckMonthlyLimit s g cost then Some ErrMonthlyLimitExceeded
     else None)"

text \<open>The snapshot is changed in place: the usage of windows that are over is cleared.\<close>

definition ValidateAndCheckLimits ::
  "zone \<Rightarrow> time \<Rightarrow> userSub \<Rightarrow> subGroup \<Rightarrow> (bool \<times> string option) \<times> userSub" where
  "ValidateAndCheckLimits z now s g =
    (if us_Status s = SubscriptionStatusExpired then ((False, Some ErrSubscriptionExpired), s)
     else if us_Status s = SubscriptionStatusSuspended then ((False, Some ErrSubscriptionSuspended), s)
     else if \<not> t_after (us_ExpiresAt s) now then ((False, Some ErrSubscriptionExpired), s)
     else
       (let s1 = (if canAutomaticallyResetDailyAt z s now then s\<lparr>us_DailyUsageUSD := 0\<rparr> else s);
            s2 = (if canAutomaticallyResetWeeklyAt z s1 now then s1\<lparr>us_WeeklyUsageUSD := 0\<rparr> else s1);
            s3 = (if canAutomaticallyResetMonthlyAt z s2 now then s2\<lparr>us_MonthlyUsageUSD := 0\<rparr> else s2);
            needsMaintenance = (canAutomaticallyResetDailyAt z s now \<or> canAutomaticallyResetWeeklyAt z s1 now
              \<or> canAutomaticallyResetMonthlyAt z s2 now \<or> \<not> IsWindowActivated s3)
        in ((needsMaintenance, CheckUsageLimits s3 g 0), s3)))"

definition normalizeExpiredWindowsAt :: "zone \<Rightarrow> time \<Rightarrow> userSub list \<Rightarrow> userSub list" where
  "normalizeExpiredWindowsAt z now subs =
    map (\<lambda>s. let s1 = (if canAutomaticallyResetDailyAt z s now
                        then s\<lparr>us_DailyWindowStart := None, us_DailyUsageUSD := 0\<rparr> else s);
                  s2 = (if canAutomaticallyResetWeeklyAt z s1 now
                        then s1\<lparr>us_WeeklyWindowStart := None, us_WeeklyUsageUSD := 0\<rparr> else s1)
              in if canAutomaticallyResetMonthlyAt z s2 now
                 then s2\<lparr>us_MonthlyWindowStart := None, us_MonthlyUsageUSD := 0\<rparr> else s2) subs"

definition normalizeSubscriptionStatus :: "time \<Rightarrow> userSub list \<Rightarrow> userSub list" where
  "normalizeSubscriptionStatus now subs =
    map (\<lambda>s. if us_Status s = SubscriptionStatusActive \<and> \<not> t_after (us_ExpiresAt s) now
              then s\<lparr>us_Status := SubscriptionStatusExpired\<rparr> else s) subs"

section \<open>Statements and programs\<close>

datatype winKind = Daily | Weekly | Monthly

datatype subStmt =
    ReadSubClock
  | ActivateStmt int time time
  | ResetStmt winKind int "time option" time
  | GetStmt int

datatype subReply = RNow time | RSub "string + userSub" | RRes "string option"

datatype 'a subProg = SRet 'a | SDo subStmt "subReply \<Rightarrow> 'a subProg"

definition asRes :: "subDB \<Rightarrow> string + subDB \<Rightarrow> subReply \<times> subDB" where
  "asRes d r = (case r of Inl e \<Rightarrow> (RRes (Some e), d) | Inr d1 \<Rightarrow> (RRes None, d1))"

definition resetUsage :: "winKind \<Rightarrow> int \<Rightarrow> time option \<Rightarrow> time \<Rightarrow> subDB \<Rightarrow> string + subDB" where
  "resetUsage k = (case k of Daily \<Rightarrow> ResetDailyUsage | Weekly \<Rightarrow> ResetWeeklyUsage | Monthly \<Rightarrow> ResetMonthlyUsage)"

fun execSub :: "time \<Rightarrow> subStmt \<Rightarrow> subDB \<Rightarrow> subReply \<times> subDB" where
  "execSub now ReadSubClock d = (RNow now, d)"
| "execSub now (ActivateStmt sid daily periodic) d = asRes d (ActivateWindows sid daily periodic d)"
| "execSub now (ResetStmt k sid expected new) d = asRes d (resetUsage k sid expected new d)"
| "execSub now (GetStmt sid) d = (RSub (SubGetByID sid d), d)"

primrec runSub :: "'a subProg \<Rightarrow> time \<Rightarrow> subDB \<Rightarrow> 'a \<times> subDB" where
  "runSub (SRet x) now d = (x, d)"
| "runSub (SDo st k) now d = (case execSub now st d of (r, d1) \<Rightarrow> runSub (k r) now d1)"

section \<open>Window maintenance\<close>

definition CheckAndActivateWindow :: "zone \<Rightarrow> userSub \<Rightarrow> (string option \<Rightarrow> 'a subProg) \<Rightarrow> 'a subProg" where
  "CheckAndActivateWindow z s k =
    SDo ReadSubClock (\<lambda>r. case r of
      RNow now \<Rightarrow>
        if IsWindowActivated s then k None
        else SDo (ActivateStmt (us_ID s) (StartOfDay z now) now) (\<lambda>r2. case r2 of
               RRes e \<Rightarrow> k e | _ \<Rightarrow> k (Some ''reply''))
    | _ \<Rightarrow> k (Some ''clock''))"

text \<open>One window of \<open>CheckAndResetWindows\<close>: the conditional reset against the start that was read.\<close>

definition resetWindow :: "winKind \<Rightarrow> userSub \<Rightarrow> time option \<Rightarrow> time option \<Rightarrow>
    (string \<Rightarrow> 'a subProg) \<Rightarrow> 'a subProg \<Rightarrow> 'a subProg" where
  "resetWindow k s expected start kerr kok =
    (case start of
       None \<Rightarrow> kok
     | Some w \<Rightarrow> SDo (ResetStmt k (us_ID s) expected w) (\<lambda>r. case r of
                   RRes None \<Rightarrow> kok | RRes (Some e) \<Rightarrow> kerr e | _ \<Rightarrow> kerr ''reply''))"

definition CheckAndResetWindows :: "zone \<Rightarrow> userSub \<Rightarrow> (string option \<Rightarrow> 'a subProg) \<Rightarrow> 'a subProg" where
  "CheckAndResetWindows z s k =
    SDo ReadSubClock (\<lambda>r. case r of
      RNow now \<Rightarrow>
        resetWindow Daily s (us_DailyWindowStart s) (automaticDailyWindowStartAt z s now) (\<lambda>e. k (Some e))
          (resetWindow Weekly s (us_WeeklyWindowStart s)
             (automaticWindowStartAt z s (us_WeeklyWindowStart s) week now) (\<lambda>e. k (Some e))
             (resetWindow Monthly s (us_MonthlyWindowStart s)
                (automaticWindowStartAt z s (us_MonthlyWindowStart s) month now) (\<lambda>e. k (Some e))
                (k None)))
    | _ \<Rightarrow> k (Some ''clock''))"

definition EnsureWindowMaintenance :: "zone \<Rightarrow> userSub \<Rightarrow> (string + userSub \<Rightarrow> 'a subProg) \<Rightarrow> 'a subProg" where
  "EnsureWindowMaintenance z s k =
    (let refresh = CheckAndResetWindows z s (\<lambda>e. case e of
           Some e \<Rightarrow> k (Inl e)
         | None \<Rightarrow> SDo (GetStmt (us_ID s)) (\<lambda>r. case r of RSub x \<Rightarrow> k x | _ \<Rightarrow> k (Inl ''reply'')))
     in if \<not> IsWindowActivated s
        then CheckAndActivateWindow z s (\<lambda>e. case e of Some e \<Rightarrow> k (Inl e) | None \<Rightarrow> refresh)
        else refresh)"

text \<open>The background variant logs errors and goes on.\<close>

definition doWindowMaintenance :: "zone \<Rightarrow> userSub \<Rightarrow> unit subProg" where
  "doWindowMaintenance z s =
    (let reset = CheckAndResetWindows z s (\<lambda>_. SRet ())
     in if \<not> IsWindowActivated s then CheckAndActivateWindow z s (\<lambda>_. reset) else reset)"

section \<open>The middleware\<close>

definition validationAnswer :: "string option \<Rightarrow> (nat \<times> string) option" where
  "validationAnswer err =
    (case err of
       None \<Rightarrow> None
     | Some e \<Rightarrow>
         if e = ErrDailyLimitExceeded \<or> e = ErrWeeklyLimitExceeded \<or> e = ErrMonthlyLimitExceeded
         then Some (429, ''USAGE_LIMIT_EXCEEDED'') else Some (403, ''SUBSCRIPTION_INVALID''))"

text \<open>The answer of a refused request: HTTP status and code; \<open>None\<close> admits it.\<close>

definition admitSubscription :: "zone \<Rightarrow> userSub \<Rightarrow> subGroup \<Rightarrow> (nat \<times> string) option subProg" where
  "admitSubscription z s g =
    SDo ReadSubClock (\<lambda>r. case r of
      RNow now \<Rightarrow>
        (case ValidateAndCheckLimits z now s g of ((needsMaintenance, err), s1) \<Rightarrow>
           if needsMaintenance then
             EnsureWindowMaintenance z s1 (\<lambda>x. case x of
               Inl _ \<Rightarrow> SRet (Some (500, ''SUBSCRIPTION_MAINTENANCE_FAILED''))
             | Inr refreshed \<Rightarrow>
                 SDo ReadSubClock (\<lambda>r2. case r2 of
                   RNow now2 \<Rightarrow>
                     SRet (validationAnswer (snd (fst (ValidateAndCheckLimits z now2 refreshed g))))
                 | _ \<Rightarrow> SRet (Some (500, ''clock''))))
           else SRet (validationAnswer err))
    | _ \<Rightarrow> SRet (Some (500, ''clock'')))"

section \<open>Windows by kind\<close>

fun winStart :: "winKind \<Rightarrow> userSub \<Rightarrow> time option" where
  "winStart Daily s = us_DailyWindowStart s"
| "winStart Weekly s = us_WeeklyWindowStart s"
| "winStart Monthly s = us_MonthlyWindowStart s"

fun winUsage :: "winKind \<Rightarrow> userSub \<Rightarrow> int" where
  "winUsage Daily s = us_DailyUsageUSD s"
| "winUsage Weekly s = us_WeeklyUsageUSD s"
| "winUsage Monthly s = us_MonthlyUsageUSD s"

fun setWindow :: "winKind \<Rightarrow> time \<Rightarrow> userSub \<Rightarrow> userSub" where
  "setWindow Daily w s = s\<lparr>us_DailyUsageUSD := 0, us_DailyWindowStart := Some w\<rparr>"
| "setWindow Weekly w s = s\<lparr>us_WeeklyUsageUSD := 0, us_WeeklyWindowStart := Some w\<rparr>"
| "setWindow Monthly w s = s\<lparr>us_MonthlyUsageUSD := 0, us_MonthlyWindowStart := Some w\<rparr>"

fun winLimit :: "winKind \<Rightarrow> subGroup \<Rightarrow> int option" where
  "winLimit Daily g = sg_DailyLimitUSD g"
| "winLimit Weekly g = sg_WeeklyLimitUSD g"
| "winLimit Monthly g = sg_MonthlyLimitUSD g"

fun autoStart :: "zone \<Rightarrow> winKind \<Rightarrow> userSub \<Rightarrow> time \<Rightarrow> time option" where
  "autoStart z Daily s now = automaticDailyWindowStartAt z s now"
| "autoStart z Weekly s now = automaticWindowStartAt z s (us_WeeklyWindowStart s) week now"
| "autoStart z Monthly s now = automaticWindowStartAt z s (us_MonthlyWindowStart s) month now"

lemma setWindow_simps [simp]:
  "us_ID (setWindow k w s) = us_ID s" "subPair (setWindow k w s) = subPair s"
  "us_DeletedAt (setWindow k w s) = us_DeletedAt s" "us_ExpiresAt (setWindow k w s) = us_ExpiresAt s"
  "us_StartsAt (setWindow k w s) = us_StartsAt s" "us_Status (setWindow k w s) = us_Status s"
  "us_GroupID (setWindow k w s) = us_GroupID s" "us_UserID (setWindow k w s) = us_UserID s"
  by (cases k; simp)+

lemma winStart_setWindow [simp]: "winStart j (setWindow k w s) = (if j = k then Some w else winStart j s)"
  by (cases j; cases k; simp)

lemma winUsage_setWindow [simp]: "winUsage j (setWindow k w s) = (if j = k then 0 else winUsage j s)"
  by (cases j; cases k; simp)

text \<open>Two snapshots with the same term and windows are advanced alike.\<close>

definition sameTerm :: "userSub \<Rightarrow> userSub \<Rightarrow> bool" where
  "sameTerm s r \<longleftrightarrow> us_ID s = us_ID r \<and> us_StartsAt s = us_StartsAt r \<and> us_ExpiresAt s = us_ExpiresAt r
     \<and> (\<forall>k. winStart k s = winStart k r)"

lemma sameTermD: "sameTerm s r \<Longrightarrow> us_ID s = us_ID r"
  "sameTerm s r \<Longrightarrow> winStart k s = winStart k r"
  by (simp_all add: sameTerm_def)

lemma auto_window_cong:
  "us_StartsAt s = us_StartsAt r \<Longrightarrow> us_ExpiresAt s = us_ExpiresAt r \<Longrightarrow>
   automaticWindowStartAt z s p period now = automaticWindowStartAt z r p period now"
  by (cases p) (simp_all add: automaticWindowStartAt_def windowResetAnchor_def Let_def)

lemma autoStart_cong:
  assumes "us_StartsAt s = us_StartsAt r" "us_ExpiresAt s = us_ExpiresAt r" "winStart k s = winStart k r"
  shows "autoStart z k s now = autoStart z k r now"
proof -
  have "HasOneTimeDailyQuota z s = HasOneTimeDailyQuota z r" "windowResetAnchor z s = windowResetAnchor z r"
    using assms(1,2) by (simp_all add: HasOneTimeDailyQuota_def windowResetAnchor_def Let_def fun_eq_iff)
  with assms show ?thesis
    by (cases k) (simp_all add: automaticDailyWindowStartAt_def automaticWindowStartAt_def Let_def cong: option.case_cong if_cong)
qed

lemma autoStart_same: "sameTerm s r \<Longrightarrow> autoStart z k s now = autoStart z k r now"
  by (rule autoStart_cong) (simp_all add: sameTerm_def)

lemma activated_iff: "IsWindowActivated s \<longleftrightarrow> (\<exists>k. winStart k s \<noteq> None)"
proof
  assume "IsWindowActivated s"
  then have "winStart Daily s \<noteq> None \<or> winStart Weekly s \<noteq> None \<or> winStart Monthly s \<noteq> None"
    by (simp add: IsWindowActivated_def)
  then show "\<exists>k. winStart k s \<noteq> None" by blast
next
  assume "\<exists>k. winStart k s \<noteq> None"
  then obtain k where "winStart k s \<noteq> None" ..
  then show "IsWindowActivated s" by (cases k) (simp_all add: IsWindowActivated_def)
qed

lemma autoStart_none: "winStart k s = None \<Longrightarrow> autoStart z k s now = None"
  by (cases k) (simp_all add: automaticDailyWindowStartAt_def)

section \<open>The statements on one row\<close>

lemma conditional_put:
  assumes "sub_ok d" "subRow sid d = Some r" "subLive r"
  shows "translateConditionalWindowReset P f sid d = Inr (if P r then putSub sid (f r) d else d)"
proof -
  have row: "r \<in> set (sd_rows d)" "us_ID r = sid" using subRow_some [OF assms(2)] by auto
  have same: "s = r" if "s \<in> set (sd_rows d)" "us_ID s = sid" for s
    using subRow_in [OF assms(1) that(1)] that(2) assms(2) by simp
  show ?thesis
  proof (cases "P r")
    case True
    have "updateSubs (\<lambda>s. us_ID s = sid \<and> P s) f d = updateSubs (\<lambda>s. us_ID s = sid) f d"
    proof -
      have "map (\<lambda>s. if us_ID s = sid \<and> P s then f s else s) (sd_rows d)
          = map (\<lambda>s. if us_ID s = sid then f s else s) (sd_rows d)"
        by (rule map_cong) (use same True in auto)
      then show ?thesis by (simp only: updateSubs_def)
    qed
    with True row show ?thesis
      using put_eq [OF assms(1,2), of f] by (auto simp: translateConditionalWindowReset_def)
  next
    case False
    with same have "\<not> (\<exists>s\<in>set (sd_rows d). us_ID s = sid \<and> P s)" by auto
    with False assms show ?thesis
      by (auto simp: translateConditionalWindowReset_def subQuery_id)
  qed
qed

lemma resetUsage_put:
  assumes "sub_ok d" "subRow sid d = Some r" "subLive r"
  shows "resetUsage k sid expected w d =
    Inr (if winStart k r = expected then putSub sid (setWindow k w r) d else d)"
  by (cases k) (simp_all add: resetUsage_def ResetDailyUsage_def ResetWeeklyUsage_def ResetMonthlyUsage_def
      conditional_put [OF assms])

definition activatedSub :: "time \<Rightarrow> time \<Rightarrow> userSub \<Rightarrow> userSub" where
  "activatedSub daily periodic s = s\<lparr>us_DailyWindowStart := Some daily, us_WeeklyWindowStart := Some periodic,
     us_MonthlyWindowStart := Some periodic\<rparr>"

lemma activate_put:
  assumes "sub_ok d" "subRow sid d = Some r" "subLive r"
  shows "ActivateWindows sid daily periodic d =
    Inr (if IsWindowActivated r then d else putSub sid (activatedSub daily periodic r) d)"
  by (auto simp: ActivateWindows_def conditional_put [OF assms] activatedSub_def IsWindowActivated_def)

definition rollOne :: "zone \<Rightarrow> time \<Rightarrow> userSub \<Rightarrow> winKind \<Rightarrow> userSub \<Rightarrow> userSub" where
  "rollOne z now s k r = (case autoStart z k s now of None \<Rightarrow> r | Some w \<Rightarrow> setWindow k w r)"

definition rolledSub :: "zone \<Rightarrow> time \<Rightarrow> userSub \<Rightarrow> userSub" where
  "rolledSub z now s = rollOne z now s Monthly (rollOne z now s Weekly (rollOne z now s Daily s))"

definition maintainedSub :: "zone \<Rightarrow> time \<Rightarrow> userSub \<Rightarrow> userSub" where
  "maintainedSub z now s =
     (if IsWindowActivated s then rolledSub z now s else activatedSub (StartOfDay z now) now s)"

lemma rollOne_simps [simp]:
  "us_ID (rollOne z now s k r) = us_ID r" "us_UserID (rollOne z now s k r) = us_UserID r"
  "us_GroupID (rollOne z now s k r) = us_GroupID r"
  "us_DeletedAt (rollOne z now s k r) = us_DeletedAt r" "us_ExpiresAt (rollOne z now s k r) = us_ExpiresAt r"
  "us_StartsAt (rollOne z now s k r) = us_StartsAt r" "us_Status (rollOne z now s k r) = us_Status r"
  by (simp_all add: rollOne_def split: option.split)

lemma winStart_rollOne: "winStart j (rollOne z now s k r) =
    (if j = k \<and> autoStart z k s now \<noteq> None then autoStart z k s now else winStart j r)"
  by (auto simp: rollOne_def split: option.split)

lemma winUsage_rollOne: "winUsage j (rollOne z now s k r) =
    (if j = k \<and> autoStart z k s now \<noteq> None then 0 else winUsage j r)"
  by (auto simp: rollOne_def split: option.split)

lemma put_window_ok:
  "sub_ok d \<Longrightarrow> subRow sid d = Some r \<Longrightarrow> us_ID q = us_ID r \<Longrightarrow> subPair q = subPair r \<Longrightarrow>
   us_DeletedAt q = us_DeletedAt r \<Longrightarrow> us_ExpiresAt q = us_ExpiresAt r \<Longrightarrow> sub_ok (putSub sid q d)"
  using subRow_some [of sid d r] expiry_le [of d r] put_ok [of d sid r q] by (simp add: subLive_def)

lemma run_resetWindow:
  assumes "sub_ok d" "subRow (us_ID s) d = Some r" "subLive r" "winStart k r = expected"
  shows "runSub (resetWindow k s expected start kerr kok) now d =
    runSub kok now (case start of None \<Rightarrow> d | Some w \<Rightarrow> putSub (us_ID s) (setWindow k w r) d)"
  using assms by (simp add: resetWindow_def asRes_def resetUsage_put split: option.split)

lemma run_roll:
  assumes "sub_ok d" "subRow sid d = Some r" "subLive r" "us_ID s = sid"
    and q: "us_ID q = us_ID r" "subPair q = subPair r" "us_DeletedAt q = us_DeletedAt r"
      "us_ExpiresAt q = us_ExpiresAt r" "winStart k q = expected"
    and start: "start = autoStart z k r now"
  shows "runSub (resetWindow k s expected start kerr kok) now (putSub sid q d)
    = runSub kok now (putSub sid (rollOne z now r k q) d)"
proof -
  have id: "us_ID q = sid" using subRow_some [OF assms(2)] q(1) by simp
  have "sub_ok (putSub sid q d)" by (rule put_window_ok [OF assms(1,2) q(1-4)])
  moreover have "subRow (us_ID s) (putSub sid q d) = Some q"
    using put_row [OF assms(2) id] assms(4) by simp
  moreover have "subLive q" using assms(3) q(3) by (simp add: subLive_def)
  ultimately show ?thesis
    using run_resetWindow [of "putSub sid q d" s q k expected start kerr kok now] q(5) assms(4) id
    by (simp add: start rollOne_def split: option.split)
qed

lemma run_resets:
  assumes ok: "sub_ok d" and r: "subRow (us_ID s) d = Some r" "subLive r" and same: "sameTerm s r"
  shows "runSub (CheckAndResetWindows z s k) now d = runSub (k None) now (putSub (us_ID s) (rolledSub z now r) d)"
proof -
  let ?id = "us_ID s"
  define r1 where "r1 = rollOne z now r Daily r"
  define r2 where "r2 = rollOne z now r Weekly r1"
  let ?s = "\<lambda>j. autoStart z j s now" and ?e = "\<lambda>e. k (Some e)"
  let ?m = "resetWindow Monthly s (winStart Monthly s) (?s Monthly) ?e (k None)"
  let ?w = "resetWindow Weekly s (winStart Weekly s) (?s Weekly) ?e ?m"
  have "runSub (CheckAndResetWindows z s k) now d
      = runSub (resetWindow Daily s (winStart Daily s) (?s Daily) ?e ?w) now (putSub ?id r d)"
    by (simp add: CheckAndResetWindows_def put_same [OF ok r(1)])
  also have "\<dots> = runSub ?w now (putSub ?id r1 d)"
    unfolding r1_def
    by (rule run_roll [OF ok r refl]) (simp_all only: sameTermD(2) [OF same] autoStart_same [OF same])
  also have "\<dots> = runSub ?m now (putSub ?id r2 d)"
    unfolding r2_def
    by (rule run_roll [OF ok r refl])
      (simp_all add: r1_def winStart_rollOne sameTermD(2) [OF same] autoStart_same [OF same] del: winStart.simps autoStart.simps)
  also have "\<dots> = runSub (k None) now (putSub ?id (rolledSub z now r) d)"
    unfolding rolledSub_def r1_def [symmetric] r2_def [symmetric]
    by (rule run_roll [OF ok r refl])
      (simp_all add: r2_def r1_def winStart_rollOne sameTermD(2) [OF same] autoStart_same [OF same] del: winStart.simps autoStart.simps)
  finally show ?thesis .
qed

section \<open>The decision\<close>

definition subUsable :: "time \<Rightarrow> userSub \<Rightarrow> bool" where
  "subUsable now s \<longleftrightarrow> us_Status s \<noteq> SubscriptionStatusExpired \<and> us_Status s \<noteq> SubscriptionStatusSuspended
     \<and> now < us_ExpiresAt s"

text \<open>The usage that counts at an instant: none in a window that is over.\<close>

definition effectiveUsage :: "zone \<Rightarrow> time \<Rightarrow> userSub \<Rightarrow> winKind \<Rightarrow> int" where
  "effectiveUsage z now s k = (if autoStart z k s now = None then winUsage k s else 0)"

definition withinLimits :: "subGroup \<Rightarrow> (winKind \<Rightarrow> int) \<Rightarrow> bool" where
  "withinLimits g u \<longleftrightarrow> withinLimit (winLimit Daily g) (u Daily)
     \<and> withinLimit (winLimit Weekly g) (u Weekly) \<and> withinLimit (winLimit Monthly g) (u Monthly)"

definition limitAnswer :: "bool \<Rightarrow> (nat \<times> string) option" where
  "limitAnswer ok = (if ok then None else Some (429, ''USAGE_LIMIT_EXCEEDED''))"

lemma usage_answer: "validationAnswer (CheckUsageLimits s g 0) = limitAnswer (withinLimits g (\<lambda>k. winUsage k s))"
  by (simp add: CheckUsageLimits_def validationAnswer_def limit_iffs withinLimits_def limitAnswer_def sub_errors)

lemma validate_unusable:
  assumes "\<not> subUsable now s"
  shows "fst (fst (ValidateAndCheckLimits z now s g)) = False"
    and "validationAnswer (snd (fst (ValidateAndCheckLimits z now s g))) = Some (403, ''SUBSCRIPTION_INVALID'')"
  using assms by (auto simp: ValidateAndCheckLimits_def subUsable_def validationAnswer_def sub_errors subStatuses)

definition clearedSub :: "zone \<Rightarrow> time \<Rightarrow> userSub \<Rightarrow> userSub" where
  "clearedSub z now s = s\<lparr>us_DailyUsageUSD := effectiveUsage z now s Daily,
     us_WeeklyUsageUSD := effectiveUsage z now s Weekly, us_MonthlyUsageUSD := effectiveUsage z now s Monthly\<rparr>"

lemma cleared_same: "sameTerm (clearedSub z now s) s"
proof -
  have "winStart k (clearedSub z now s) = winStart k s" for k by (cases k) (simp_all add: clearedSub_def)
  then show ?thesis by (simp add: sameTerm_def clearedSub_def)
qed

lemma winUsage_cleared: "winUsage k (clearedSub z now s) = effectiveUsage z now s k"
  by (cases k) (simp_all add: clearedSub_def)

lemma all_kinds: "(\<exists>k. P k) \<longleftrightarrow> P Daily \<or> P Weekly \<or> P Monthly"
  by (metis winKind.exhaust)

lemma validate_usable:
  assumes "subUsable now s"
  shows "ValidateAndCheckLimits z now s g =
    (((\<exists>k. autoStart z k s now \<noteq> None) \<or> \<not> IsWindowActivated s, CheckUsageLimits (clearedSub z now s) g 0),
     clearedSub z now s)"
proof -
  let ?D = "canAutomaticallyResetDailyAt z s now" and ?W = "canAutomaticallyResetWeeklyAt z s now"
    and ?M = "canAutomaticallyResetMonthlyAt z s now"
  define s1 where "s1 = (if ?D then s\<lparr>us_DailyUsageUSD := 0\<rparr> else s)"
  define s2 where "s2 = (if ?W then s1\<lparr>us_WeeklyUsageUSD := 0\<rparr> else s1)"
  define s3 where "s3 = (if ?M then s2\<lparr>us_MonthlyUsageUSD := 0\<rparr> else s2)"
  have s1: "us_StartsAt s1 = us_StartsAt s" "us_ExpiresAt s1 = us_ExpiresAt s"
    "us_WeeklyWindowStart s1 = us_WeeklyWindowStart s" by (simp_all add: s1_def)
  have s2: "us_StartsAt s2 = us_StartsAt s" "us_ExpiresAt s2 = us_ExpiresAt s"
    "us_MonthlyWindowStart s2 = us_MonthlyWindowStart s" by (simp_all add: s2_def s1_def)
  have can: "?D = (autoStart z Daily s now \<noteq> None)" "?W = (autoStart z Weekly s now \<noteq> None)"
    "?M = (autoStart z Monthly s now \<noteq> None)"
    by (simp_all add: canAutomaticallyResetDailyAt_def canAutomaticallyResetWeeklyAt_def canAutomaticallyResetMonthlyAt_def)
  have w: "canAutomaticallyResetWeeklyAt z s1 now = ?W"
    unfolding canAutomaticallyResetWeeklyAt_def
    using autoStart_cong [of s1 s Weekly z now] s1 by simp
  have m: "canAutomaticallyResetMonthlyAt z s2 now = ?M"
    unfolding canAutomaticallyResetMonthlyAt_def
    using autoStart_cong [of s2 s Monthly z now] s2 by simp
  have s3: "s3 = clearedSub z now s"
  proof -
    have "effectiveUsage z now s Daily = (if ?D then 0 else us_DailyUsageUSD s)"
      "effectiveUsage z now s Weekly = (if ?W then 0 else us_WeeklyUsageUSD s)"
      "effectiveUsage z now s Monthly = (if ?M then 0 else us_MonthlyUsageUSD s)"
      by (simp_all add: effectiveUsage_def can)
    then show ?thesis
      unfolding clearedSub_def s3_def s2_def s1_def by (cases ?D; cases ?W; cases ?M) simp_all
  qed
  have act: "IsWindowActivated s3 = IsWindowActivated s"
    by (simp add: s3_def s2_def s1_def IsWindowActivated_def)
  have "ValidateAndCheckLimits z now s g = ((?D \<or> ?W \<or> ?M \<or> \<not> IsWindowActivated s3, CheckUsageLimits s3 g 0), s3)"
    using assms unfolding ValidateAndCheckLimits_def Let_def s1_def [symmetric] w s2_def [symmetric] m s3_def [symmetric]
    by (simp add: subUsable_def)
  then show ?thesis unfolding s3 act [unfolded s3] can all_kinds by simp
qed

text \<open>Weekly and monthly windows begin no earlier than the day of the term's start, and lie within a
\<open>Duration\<close> (292 years) of now and of the term's end.\<close>

definition windowsSane :: "zone \<Rightarrow> time \<Rightarrow> userSub \<Rightarrow> bool" where
  "windowsSane z now s \<longleftrightarrow> (\<forall>k\<in>{Weekly, Monthly}. case winStart k s of None \<Rightarrow> True | Some w \<Rightarrow>
     StartOfDay z (us_StartsAt s) \<le> w \<and> now - w \<le> max_duration \<and> us_ExpiresAt s - w \<le> max_duration)"

lemma periods_pos: "0 < week" "week < max_duration" "0 < month" "month < max_duration"
  by (simp_all add: duration_defs)

lemma maintained_simps [simp]:
  "us_ID (maintainedSub z now s) = us_ID s" "us_Status (maintainedSub z now s) = us_Status s"
  "us_StartsAt (maintainedSub z now s) = us_StartsAt s" "us_ExpiresAt (maintainedSub z now s) = us_ExpiresAt s"
  "us_DeletedAt (maintainedSub z now s) = us_DeletedAt s"
  "us_UserID (maintainedSub z now s) = us_UserID s" "us_GroupID (maintainedSub z now s) = us_GroupID s"
  by (simp_all add: maintainedSub_def rolledSub_def activatedSub_def)

lemma winStart_maintained:
  "winStart k (maintainedSub z now s) =
     (if IsWindowActivated s
      then (if autoStart z k s now \<noteq> None then autoStart z k s now else winStart k s)
      else Some (if k = Daily then StartOfDay z now else now))"
proof (cases "IsWindowActivated s")
  case True
  then show ?thesis
    by (cases k) (simp_all add: maintainedSub_def rolledSub_def winStart_rollOne
        del: autoStart.simps winStart.simps)
next
  case False
  then show ?thesis by (cases k) (simp_all add: maintainedSub_def activatedSub_def)
qed

lemma winUsage_maintained: "winUsage k (maintainedSub z now s) = effectiveUsage z now s k"
proof (cases "IsWindowActivated s")
  case True
  then show ?thesis
    by (cases k) (simp_all add: maintainedSub_def rolledSub_def winUsage_rollOne effectiveUsage_def
        del: autoStart.simps winUsage.simps)
next
  case False
  then have "autoStart z k s now = None" using activated_iff [of s] autoStart_none by blast
  moreover from False have "winUsage k (maintainedSub z now s) = winUsage k s"
    by (cases k) (simp_all add: maintainedSub_def activatedSub_def)
  ultimately show ?thesis by (simp add: effectiveUsage_def)
qed

lemma maintained_settled:
  assumes z: "fixed_zone z" and sane: "windowsSane z now s"
  shows "autoStart z k (maintainedSub z now s) now = None"
proof -
  let ?m = "maintainedSub z now s"
  have auto: "autoStart z k ?m now = autoStart z k s now" if "winStart k ?m = winStart k s"
    by (rule autoStart_cong) (simp_all add: that)
  show ?thesis
  proof (cases "IsWindowActivated s")
    case act: True
    show ?thesis
    proof (cases "autoStart z k s now")
      case None
      with auto act show ?thesis by (simp add: winStart_maintained)
    next
      case (Some w)
      then have m: "winStart k ?m = Some w" using act by (simp add: winStart_maintained)
      have periodic: "autoStart z k ?m now = None"
        if k: "k = Weekly \<or> k = Monthly" and per: "0 < period" "period < max_duration"
          and eq: "\<And>r. autoStart z k r now = automaticWindowStartAt z r (winStart k r) period now" for period
      proof -
        from Some eq obtain p where p: "winStart k s = Some p" by (cases "winStart k s") auto
        with sane k have range: "StartOfDay z (us_StartsAt s) \<le> p" "now - p \<le> max_duration"
          "us_ExpiresAt s - p \<le> max_duration" by (auto simp: windowsSane_def)
        from Some eq p have "automaticWindowStartAt z s (Some p) period now = Some w" by simp
        from auto_window_settled(1) [OF z range(1) this per range(2,3)]
        have "automaticWindowStartAt z s (Some w) period now = None" .
        then show ?thesis
          using eq m auto_window_cong [of ?m s] by simp
      qed
      show ?thesis
      proof (cases k)
        case Daily
        from Some Daily auto_daily_settled(1) [OF z, of s now w]
        have "autoStart z Daily (s\<lparr>us_DailyWindowStart := Some w\<rparr>) now = None" by simp
        then show ?thesis
          using m Daily autoStart_cong [of ?m "s\<lparr>us_DailyWindowStart := Some w\<rparr>" Daily z now] by simp
      next
        case Weekly
        then show ?thesis using periodic [of week] periods_pos by simp
      next
        case Monthly
        then show ?thesis using periodic [of month] periods_pos by simp
      qed
    qed
  next
    case False
    have ge: "now \<le> windowResetAnchor z ?m now" by (rule windowResetAnchor_ge [OF z])
    have none: "automaticWindowStartAt z ?m (Some now) period now = None" if "0 < period" for period
      using auto_window_iff [of z ?m now period now] ge that by auto
    have "automaticDailyWindowStartAt z ?m now = None" if "us_DailyWindowStart ?m = Some (StartOfDay z now)"
      using that auto_daily_iff [of z ?m now] StartOfDay_idem [OF z] by auto
    then show ?thesis
      using winStart_maintained [of k z now s] False none periods_pos by (cases k) simp_all
  qed
qed

lemma maintained_activated: "IsWindowActivated (maintainedSub z now s)"
proof (cases "IsWindowActivated s")
  case True
  then obtain k where "winStart k s \<noteq> None" using activated_iff [of s] by blast
  with True have "winStart k (maintainedSub z now s) \<noteq> None" by (simp add: winStart_maintained)
  then show ?thesis using activated_iff by blast
qed (simp add: maintainedSub_def activatedSub_def IsWindowActivated_def)

lemma maintained_idle:
  "(\<And>k. autoStart z k s now = None) \<Longrightarrow> IsWindowActivated s \<Longrightarrow> maintainedSub z now s = s"
  by (simp add: maintainedSub_def rolledSub_def rollOne_def del: autoStart.simps)

lemma run_ensure:
  assumes ok: "sub_ok d" and r: "subRow (us_ID s) d = Some r" "subLive r" and same: "sameTerm s r"
  shows "runSub (EnsureWindowMaintenance z s k) now d
    = runSub (k (Inr (maintainedSub z now r))) now (putSub (us_ID s) (maintainedSub z now r) d)"
proof -
  let ?m = "maintainedSub z now r"
  have id: "us_ID r = us_ID s" using same by (simp add: sameTerm_def)
  have act: "IsWindowActivated s = IsWindowActivated r"
    using same by (simp add: activated_iff sameTerm_def)
  have okm: "sub_ok (putSub (us_ID s) ?m d)" by (rule put_window_ok [OF ok r(1)]) simp_all
  have rowm: "subRow (us_ID s) (putSub (us_ID s) ?m d) = Some ?m" using put_row [OF r(1)] id by simp
  have livem: "subLive ?m" using r(2) by (simp add: subLive_def)
  have get: "SubGetByID (us_ID s) (putSub (us_ID s) ?m d) = Inr ?m" using okm rowm livem by (simp add: subs)
  show ?thesis
  proof (cases "IsWindowActivated r")
    case True
    then have "putSub (us_ID s) (rolledSub z now r) d = putSub (us_ID s) ?m d" by (simp add: maintainedSub_def)
    with True act show ?thesis
      by (simp add: EnsureWindowMaintenance_def Let_def run_resets [OF ok r same] get)
  next
    case False
    let ?a = "activatedSub (StartOfDay z now) now r"
    have m: "?m = ?a" using False by (simp add: maintainedSub_def)
    have none: "winStart k s = None" for k using False act activated_iff [of s] by blast
    have idle: "autoStart z k s now = None" for k using none by (rule autoStart_none)
    have "runSub (CheckAndResetWindows z s h) now e = runSub (h None) now e" for h :: "string option \<Rightarrow> 'a subProg" and e
      using idle [of Daily] idle [of Weekly] idle [of Monthly]
      by (simp add: CheckAndResetWindows_def resetWindow_def)
    with False act show ?thesis
      by (simp add: EnsureWindowMaintenance_def Let_def CheckAndActivateWindow_def asRes_def
          activate_put [OF ok r] m [symmetric] get)
  qed
qed

text \<open>C33. A request run alone on a fresh snapshot is refused with 403 when the subscription is expired or
suspended, else with 429 exactly when a limited window's usage, none counting for windows that are over,
exceeds its limit, and is admitted otherwise; either way the row ends with its windows brought up to
date, usage of running windows kept, and needs no further maintenance at that instant.\<close>

theorem admission_decision:
  assumes z: "fixed_zone z" and reach: "sub_reach z d"
    and s: "subRow (us_ID s) d = Some s" "subLive s" and sane: "windowsSane z now s"
  shows "runSub (admitSubscription z s g) now d =
      (if subUsable now s
       then (limitAnswer (withinLimits g (effectiveUsage z now s)), putSub (us_ID s) (maintainedSub z now s) d)
       else (Some (403, ''SUBSCRIPTION_INVALID''), d))
    \<and> fst (fst (ValidateAndCheckLimits z now (maintainedSub z now s) g)) = False"
proof (cases "subUsable now s")
  case False
  then have "\<not> subUsable now (maintainedSub z now s)" by (simp add: subUsable_def)
  obtain n e s1 where v: "ValidateAndCheckLimits z now s g = ((n, e), s1)" by (metis surj_pair)
  with False validate_unusable [of now s z g] show ?thesis
    using \<open>\<not> subUsable now (maintainedSub z now s)\<close> validate_unusable(1) [of now "maintainedSub z now s" z g]
    by (simp add: admitSubscription_def)
next
  case True
  note ok = reach_ok [OF reach]
  let ?m = "maintainedSub z now s" and ?c = "clearedSub z now s"
  have u: "subUsable now ?m" using True by (simp add: subUsable_def)
  have eff: "effectiveUsage z now ?m = effectiveUsage z now s"
    by (rule ext) (simp add: effectiveUsage_def [of z now ?m] maintained_settled [OF z sane] winUsage_maintained)
  have vm: "ValidateAndCheckLimits z now ?m g = ((False, CheckUsageLimits (clearedSub z now ?m) g 0), clearedSub z now ?m)"
    by (simp add: validate_usable [OF u] maintained_settled [OF z sane] maintained_activated)
  have ans: "validationAnswer (CheckUsageLimits (clearedSub z now r) g 0) = limitAnswer (withinLimits g (effectiveUsage z now r))" for r
    by (simp add: usage_answer winUsage_cleared)
  have idc: "us_ID ?c = us_ID s" by (simp add: clearedSub_def)
  show ?thesis
  proof (cases "(\<exists>k. autoStart z k s now \<noteq> None) \<or> \<not> IsWindowActivated s")
    case maint: True
    have row: "subRow (us_ID ?c) d = Some s" using s(1) by (simp add: idc)
    from maint True show ?thesis
      using vm eff ans [of ?m]
      by (simp add: admitSubscription_def validate_usable [OF True] run_ensure [OF ok row s(2) cleared_same] idc)
  next
    case False
    then have "maintainedSub z now s = s" by (intro maintained_idle) auto
    with False True vm ans [of s] put_same [OF ok s(1)] show ?thesis
      by (simp add: admitSubscription_def validate_usable [OF True])
  qed
qed

lemma admission_decision_witness:
  "fst (runSub (admitSubscription shanghai demoRow demoGroup) (demoNow + day) demoSubDB) = None"
proof -
  have sane: "windowsSane shanghai (demoNow + day) demoRow" by (simp add: windowsSane_def demoRow_def)
  have row: "subRow (us_ID demoRow) demoSubDB = Some demoRow" using demoRow_in by (simp add: demoRow_def)
  have "subUsable (demoNow + day) demoRow" "withinLimits demoGroup (effectiveUsage shanghai (demoNow + day) demoRow)"
    by code_simp+
  then show ?thesis
    using admission_decision [OF fixed_shanghai demoSubDB_reach row demoRow_in(2) sane, of demoGroup]
    by (simp add: limitAnswer_def)
qed

section \<open>A manual reset before the first use\<close>

text \<open>A request served at an instant: the windows are brought up to date and its cost is recorded.\<close>

definition servedSub :: "zone \<Rightarrow> time \<times> int \<Rightarrow> userSub \<Rightarrow> userSub" where
  "servedSub z request s =
    (let m = maintainedSub z (fst request) s
     in m\<lparr>us_DailyUsageUSD := us_DailyUsageUSD m + snd request,
          us_WeeklyUsageUSD := us_WeeklyUsageUSD m + snd request,
          us_MonthlyUsageUSD := us_MonthlyUsageUSD m + snd request\<rparr>)"

lemma served_weekly_never_rolls:
  "us_WeeklyWindowStart s = None \<Longrightarrow> us_DailyWindowStart s \<noteq> None \<Longrightarrow>
   us_WeeklyWindowStart (fold (servedSub z) requests s) = None
     \<and> us_WeeklyUsageUSD (fold (servedSub z) requests s) = us_WeeklyUsageUSD s + sum_list (map snd requests)"
proof (induction requests arbitrary: s)
  case (Cons q requests)
  let ?m = "maintainedSub z (fst q) s"
  have act: "IsWindowActivated s" using Cons.prems by (simp add: IsWindowActivated_def)
  have w: "us_WeeklyWindowStart ?m = None" "us_DailyWindowStart ?m \<noteq> None" "us_WeeklyUsageUSD ?m = us_WeeklyUsageUSD s"
    using winStart_maintained [of Weekly z "fst q" s] winStart_maintained [of Daily z "fst q" s]
      winUsage_maintained [of Weekly z "fst q" s] act Cons.prems
    by (auto simp: effectiveUsage_def)
  show ?case using Cons.IH [of "servedSub z q s"] w by (simp add: servedSub_def Let_def)
qed simp

text \<open>When an administrator resets only the daily quota of a subscription that has not been used yet,
its weekly window is never opened: whatever requests follow, and however long the term, the weekly
usage only accumulates, so the weekly limit becomes a limit for the whole term.\<close>

theorem daily_reset_disables_weekly:
  assumes z: "fixed_zone z" and reach: "sub_reach z d" and s: "subRow sid d = Some s" "subLive s"
    and fresh: "\<not> IsWindowActivated s"
    and reset: "AdminResetQuota z now sid True False False d = (Inr s1, d1)"
  shows "us_WeeklyWindowStart (fold (servedSub z) requests s1) = None
    \<and> us_WeeklyUsageUSD (fold (servedSub z) requests s1) = us_WeeklyUsageUSD s + sum_list (map snd requests)"
proof -
  note ok = reach_ok [OF reach]
  have id: "us_ID s = sid" using subRow_some [OF s(1)] by simp
  let ?s1 = "s\<lparr>us_DailyUsageUSD := 0, us_DailyWindowStart := Some (StartOfDay z now)\<rparr>"
  have "ResetUsageWindows sid True False False (StartOfDay z now) now d = Inr (putSub sid ?s1 d)"
    by (simp add: ResetUsageWindows_def updateSub_put [OF ok s(1)] Let_def)
  moreover have "SubGetByID sid d = Inr s" using ok s by (simp add: subs)
  moreover have "SubGetByID sid (putSub sid ?s1 d) = Inr ?s1"
    using put_window_ok [OF ok s(1), of ?s1] put_row [OF s(1), of ?s1 sid] s(2) id
    by (simp add: subs subLive_def)
  ultimately have "s1 = ?s1" using reset id by (simp add: AdminResetQuota_def)
  with fresh served_weekly_never_rolls [of s1 z requests] show ?thesis
    by (simp add: IsWindowActivated_def)
qed

lemma daily_reset_disables_weekly_witness:
  "us_WeeklyUsageUSD (fold (servedSub shanghai) [(demoNow + day, 60), (demoNow + 20 * day, 50)]
     (demoRow\<lparr>us_DailyUsageUSD := 0, us_DailyWindowStart := Some (StartOfDay shanghai demoNow)\<rparr>)) = 110"
proof -
  have fresh: "\<not> IsWindowActivated demoRow" by (simp add: IsWindowActivated_def demoRow_def)
  have reset: "AdminResetQuota shanghai demoNow 1 True False False demoSubDB
      = (Inr (demoRow\<lparr>us_DailyUsageUSD := 0, us_DailyWindowStart := Some (StartOfDay shanghai demoNow)\<rparr>),
         snd (AdminResetQuota shanghai demoNow 1 True False False demoSubDB))" by code_simp
  show ?thesis
    using daily_reset_disables_weekly [OF fixed_shanghai demoSubDB_reach demoRow_in fresh reset,
        of "[(demoNow + day, 60), (demoNow + 20 * day, 50)]"]
    by (simp add: demoRow_def)
qed

end
