(* ===== verification/SubscriptionRace.thy ===== *)
theory SubscriptionRace
  imports SubscriptionAdmission
begin

text \<open>
  Requests on subscriptions as they interleave: any number of admissions and background maintenances,
  started from snapshots of any age, whose statements run one at a time between one another, between
  recorded usage, term adjustments, revocations and the expiry job, and may fail or lose their reply.

  The log is a record of what happened (newest first); no operation reads it. Renewals and manual
  quota resets, which grant a new allowance on purpose, are not part of these runs.
\<close>

section \<open>The system\<close>

datatype subEvent = Opened winKind int time | Rolled winKind int time | Used int int

record subSys =
  sy_db :: subDB
  sy_now :: time
  sy_seen :: "userSub list"
  sy_procs :: "(nat \<times> string) option subProg list"
  sy_log :: "subEvent list"

primrec mapProg :: "('a \<Rightarrow> 'b) \<Rightarrow> 'a subProg \<Rightarrow> 'b subProg" where
  "mapProg f (SRet x) = SRet (f x)"
| "mapProg f (SDo st k) = SDo st (\<lambda>r. mapProg f (k r))"

text \<open>What a statement does to the windows, given the tables it finds.\<close>

fun windowEvents :: "subStmt \<Rightarrow> subDB \<Rightarrow> subEvent list" where
  "windowEvents (ActivateStmt sid daily periodic) d =
     (if \<exists>s\<in>set (sd_rows d). us_ID s = sid \<and> \<not> IsWindowActivated s
      then [Opened Daily sid daily, Opened Weekly sid periodic, Opened Monthly sid periodic] else [])"
| "windowEvents (ResetStmt k sid expected new) d =
     (if \<exists>s\<in>set (sd_rows d). us_ID s = sid \<and> winStart k s = expected then [Rolled k sid new] else [])"
| "windowEvents _ d = []"

inductive sys_step :: "zone \<Rightarrow> subSys \<Rightarrow> subSys \<Rightarrow> bool" for z where
  tick: "sy_now y \<le> t \<Longrightarrow> sys_step z y (y\<lparr>sy_now := t\<rparr>)"
| look: "s \<in> set (sd_rows (sy_db y)) \<Longrightarrow> sys_step z y (y\<lparr>sy_seen := s # sy_seen y\<rparr>)"
| request: "s \<in> set (sy_seen y) \<Longrightarrow> sys_step z y (y\<lparr>sy_procs := admitSubscription z s g # sy_procs y\<rparr>)"
| background: "s \<in> set (sy_seen y) \<Longrightarrow>
    sys_step z y (y\<lparr>sy_procs := mapProg (\<lambda>_. None) (doWindowMaintenance z s) # sy_procs y\<rparr>)"
| run: "i < length (sy_procs y) \<Longrightarrow> sy_procs y ! i = SDo st k \<Longrightarrow> execSub (sy_now y) st (sy_db y) = (r, d1) \<Longrightarrow>
    sys_step z y (y\<lparr>sy_db := d1, sy_procs := (sy_procs y)[i := k r], sy_log := windowEvents st (sy_db y) @ sy_log y\<rparr>)"
| lost_statement: "i < length (sy_procs y) \<Longrightarrow> sy_procs y ! i = SDo st k \<Longrightarrow>
    sys_step z y (y\<lparr>sy_procs := (sy_procs y)[i := k (RRes (Some e))]\<rparr>)"
| lost_reply: "i < length (sy_procs y) \<Longrightarrow> sy_procs y ! i = SDo st k \<Longrightarrow> execSub (sy_now y) st (sy_db y) = (r, d1) \<Longrightarrow>
    sys_step z y (y\<lparr>sy_db := d1, sy_procs := (sy_procs y)[i := k (RRes (Some e))],
                    sy_log := windowEvents st (sy_db y) @ sy_log y\<rparr>)"
| usage: "IncrementUsage sid cost (sy_db y) = Inr d1 \<Longrightarrow>
    sys_step z y (y\<lparr>sy_db := d1, sy_log := Used sid cost # sy_log y\<rparr>)"
| create: "createSubscription z (sy_now y) inp (sy_db y) = (r, d1) \<Longrightarrow> sys_step z y (y\<lparr>sy_db := d1\<rparr>)"
| adjust: "extendSubscriptionTx z (sy_now y) sid days (sy_db y) = Inr d1 \<Longrightarrow> sys_step z y (y\<lparr>sy_db := d1\<rparr>)"
| revoke: "sys_step z y (y\<lparr>sy_db := SubDelete (sy_now y) sid (sy_db y)\<rparr>)"
| expire: "sys_step z y (y\<lparr>sy_db := BatchUpdateExpiredStatus (sy_now y) (sy_db y)\<rparr>)"

inductive sys_reach :: "zone \<Rightarrow> subSys \<Rightarrow> bool" for z where
  start: "sd_rows (sy_db y) = [] \<Longrightarrow> sy_seen y = [] \<Longrightarrow> sy_procs y = [] \<Longrightarrow> sy_log y = [] \<Longrightarrow> sys_reach z y"
| more_steps: "sys_reach z y \<Longrightarrow> sys_step z y y1 \<Longrightarrow> sys_reach z y1"

section \<open>Reading the log\<close>

fun period :: "winKind \<Rightarrow> duration" where
  "period Daily = day" | "period Weekly = week" | "period Monthly = month"

fun eventStart :: "winKind \<Rightarrow> int \<Rightarrow> subEvent \<Rightarrow> time list" where
  "eventStart k sid (Opened j i t) = (if j = k \<and> i = sid then [t] else [])"
| "eventStart k sid (Rolled j i t) = (if j = k \<and> i = sid then [t] else [])"
| "eventStart k sid (Used i c) = []"

text \<open>The starts of a subscription's windows of one kind, newest first.\<close>

definition starts :: "winKind \<Rightarrow> int \<Rightarrow> subEvent list \<Rightarrow> time list" where
  "starts k sid evs = concat (map (eventStart k sid) evs)"

text \<open>The costs recorded since the window was last rolled.\<close>

fun usedSince :: "winKind \<Rightarrow> int \<Rightarrow> subEvent list \<Rightarrow> int" where
  "usedSince k sid [] = 0"
| "usedSince k sid (Opened j i t # evs) = usedSince k sid evs"
| "usedSince k sid (Rolled j i t # evs) = (if j = k \<and> i = sid then 0 else usedSince k sid evs)"
| "usedSince k sid (Used i c # evs) = usedSince k sid evs + (if i = sid then c else 0)"

fun spaced :: "duration \<Rightarrow> time list \<Rightarrow> bool" where
  "spaced p (new # old # ts) \<longleftrightarrow> old + p \<le> new \<and> spaced p (old # ts)"
| "spaced p _ \<longleftrightarrow> True"

lemma starts_simps [simp]:
  "starts k sid [] = []"
  "starts k sid (Opened j i t # evs) = (if j = k \<and> i = sid then t # starts k sid evs else starts k sid evs)"
  "starts k sid (Rolled j i t # evs) = (if j = k \<and> i = sid then t # starts k sid evs else starts k sid evs)"
  "starts k sid (Used i c # evs) = starts k sid evs"
  by (simp_all add: starts_def)

lemma spaced_Cons: "spaced p ts \<Longrightarrow> (ts \<noteq> [] \<Longrightarrow> hd ts + p \<le> t) \<Longrightarrow> spaced p (t # ts)"
  by (cases ts) simp_all

lemma spaced_count: "spaced p ts \<Longrightarrow> ts \<noteq> [] \<Longrightarrow> last ts + int (length ts - 1) * p \<le> hd ts"
proof (induction p ts rule: spaced.induct)
  case (1 p new old ts)
  then show ?case by (simp add: distrib_right)
qed simp_all

section \<open>Statements that programs may issue\<close>

primrec allStmts :: "(subStmt \<Rightarrow> bool) \<Rightarrow> 'a subProg \<Rightarrow> bool" where
  "allStmts Q (SRet x) = True"
| "allStmts Q (SDo st k) = (Q st \<and> (\<forall>r. allStmts Q (k r)))"

text \<open>A reset names the start some snapshot had, and a start at least a period later that, unless it
is a daily one, lies before the snapshot's expiry.\<close>

fun stmtFrom :: "zone \<Rightarrow> userSub list \<Rightarrow> subStmt \<Rightarrow> bool" where
  "stmtFrom z seen (ActivateStmt sid daily periodic) \<longleftrightarrow> (\<exists>s\<in>set seen. us_ID s = sid) \<and> StartOfDay z daily = daily"
| "stmtFrom z seen (ResetStmt k sid expected new) \<longleftrightarrow>
     (\<exists>s\<in>set seen. us_ID s = sid \<and> (\<exists>w. winStart k s = Some w \<and> expected = Some w
        \<and> (k = Daily \<longrightarrow> StartOfDay z new = new \<and> StartOfDay z w + day \<le> new)
        \<and> (k \<noteq> Daily \<longrightarrow> w + period k \<le> new \<and> new < us_ExpiresAt s)))"
| "stmtFrom z seen _ \<longleftrightarrow> True"

lemma stmtFrom_mono: "set seen \<subseteq> set seen1 \<Longrightarrow> stmtFrom z seen st \<Longrightarrow> stmtFrom z seen1 st"
  by (cases st) (simp_all, blast, blast)

lemma allStmts_mono: "(\<And>st. Q st \<Longrightarrow> R st) \<Longrightarrow> allStmts Q p \<Longrightarrow> allStmts R p"
  by (induction p) auto

lemma allStmts_mapProg: "allStmts Q (mapProg f p) = allStmts Q p"
  by (induction p) auto

lemma StartOfDay_gap:
  assumes z: "fixed_zone z" and "StartOfDay z w < StartOfDay z now"
  shows "StartOfDay z w + day \<le> StartOfDay z now"
proof -
  have "StartOfDay z w + day \<le> now" using assms StartOfDay_less [OF z] by simp
  then have "StartOfDay z (StartOfDay z w + day) \<le> StartOfDay z now" by (rule StartOfDay_mono [OF z])
  moreover have "StartOfDay z (StartOfDay z w + day) = StartOfDay z w + day"
    using StartOfDay_less [OF z, of w "StartOfDay z w + day"] StartOfDay_le [OF z, of "StartOfDay z w + day"]
    by (metis StartOfDay_idem StartOfDay_less dual_order.antisym linorder_le_less_linear order_refl z)
  ultimately show ?thesis by simp
qed

lemma reset_from:
  assumes z: "fixed_zone z" and s: "s0 \<in> set seen" "sameTerm s s0" and w: "autoStart z k s now = Some w"
  shows "stmtFrom z seen (ResetStmt k (us_ID s) (winStart k s) w)"
proof -
  from w obtain p where p: "winStart k s = Some p" using autoStart_none [of k s z now] by (cases "winStart k s") auto
  have periodic: "p + per \<le> w \<and> w < us_ExpiresAt s"
    if "automaticWindowStartAt z s (Some p) per now = Some w" "0 < per" "per < max_duration" for per
  proof -
    from auto_window_some [OF that] obtain n where n: "1 \<le> n" "w = windowResetAnchor z s p + n * per" "w < us_ExpiresAt s"
      by metis
    from n(1) that(2) have "per \<le> n * per" by simp
    with n windowResetAnchor_ge [OF z, of p s] show ?thesis by linarith
  qed
  have daily: "StartOfDay z w = w \<and> StartOfDay z p + day \<le> w" if "k = Daily"
  proof -
    from w p that have "w = StartOfDay z now" "StartOfDay z p < StartOfDay z now"
      using auto_daily_settled(2) [OF z, of s now w] auto_daily_iff [of z s now] by auto
    with StartOfDay_idem [OF z, of now] StartOfDay_gap [OF z] show ?thesis by simp
  qed
  have "k \<noteq> Daily \<longrightarrow> p + period k \<le> w \<and> w < us_ExpiresAt s"
    using periodic [of "period k"] w p periods_pos by (cases k) auto
  with daily s p show ?thesis
    by (auto simp: sameTerm_def intro!: bexI [OF _ s(1)])
qed

lemma allStmts_resetWindow:
  assumes "\<And>w. start = Some w \<Longrightarrow> Q (ResetStmt k (us_ID s) expected w)" "\<And>e. allStmts Q (kerr e)" "allStmts Q kok"
  shows "allStmts Q (resetWindow k s expected start kerr kok)"
  using assms by (auto simp: resetWindow_def split: option.split subReply.split)

lemma allStmts_resets:
  assumes z: "fixed_zone z" and s: "s0 \<in> set seen" "sameTerm s s0" and k: "\<And>e. allStmts (stmtFrom z seen) (k e)"
  shows "allStmts (stmtFrom z seen) (CheckAndResetWindows z s k)"
proof -
  note rf = reset_from [OF z s]
  have d: "stmtFrom z seen (ResetStmt Daily (us_ID s) (us_DailyWindowStart s) w)"
    if "automaticDailyWindowStartAt z s now = Some w" for w now
    using rf [of Daily now w] that by (simp del: stmtFrom.simps)
  have w: "stmtFrom z seen (ResetStmt Weekly (us_ID s) (us_WeeklyWindowStart s) w)"
    if "automaticWindowStartAt z s (us_WeeklyWindowStart s) week now = Some w" for w now
    using rf [of Weekly now w] that by (simp del: stmtFrom.simps)
  have m: "stmtFrom z seen (ResetStmt Monthly (us_ID s) (us_MonthlyWindowStart s) w)"
    if "automaticWindowStartAt z s (us_MonthlyWindowStart s) month now = Some w" for w now
    using rf [of Monthly now w] that by (simp del: stmtFrom.simps)
  show ?thesis
    unfolding CheckAndResetWindows_def
    by (auto intro!: allStmts_resetWindow d w m k simp del: stmtFrom.simps(2) split: subReply.split)
qed

lemma allStmts_activate:
  assumes "fixed_zone z" "s0 \<in> set seen" "sameTerm s s0" "\<And>e. allStmts (stmtFrom z seen) (k e)"
  shows "allStmts (stmtFrom z seen) (CheckAndActivateWindow z s k)"
  using assms by (auto simp: CheckAndActivateWindow_def sameTerm_def StartOfDay_idem split: subReply.split)

lemma allStmts_ensure:
  assumes "fixed_zone z" "s0 \<in> set seen" "sameTerm s s0" "\<And>x. allStmts (stmtFrom z seen) (k x)"
  shows "allStmts (stmtFrom z seen) (EnsureWindowMaintenance z s k)"
proof -
  let ?refresh = "CheckAndResetWindows z s (\<lambda>e. case e of
           Some e \<Rightarrow> k (Inl e)
         | None \<Rightarrow> SDo (GetStmt (us_ID s)) (\<lambda>r. case r of RSub x \<Rightarrow> k x | _ \<Rightarrow> k (Inl ''reply'')))"
  have r: "allStmts (stmtFrom z seen) ?refresh"
    by (rule allStmts_resets [OF assms(1-3)]) (auto simp: assms(4) split: option.split subReply.split)
  have "allStmts (stmtFrom z seen) (CheckAndActivateWindow z s (\<lambda>e. case e of Some e \<Rightarrow> k (Inl e) | None \<Rightarrow> ?refresh))"
    by (rule allStmts_activate [OF assms(1-3)]) (use r assms(4) in \<open>auto split: option.split\<close>)
  with r show ?thesis by (simp add: EnsureWindowMaintenance_def Let_def)
qed

lemma sameTerm_refl: "sameTerm s s"
  by (simp add: sameTerm_def)

lemma allStmts_admit:
  assumes z: "fixed_zone z" and s: "s \<in> set seen"
  shows "allStmts (stmtFrom z seen) (admitSubscription z s g)"
proof -
  have "sameTerm s1 s" if "ValidateAndCheckLimits z now s g = ((True, e), s1)" for now e s1
    using that validate_usable [of now s z g] validate_unusable(1) [of now s z g] cleared_same
    by (cases "subUsable now s") auto
  then show ?thesis
    unfolding admitSubscription_def
    by (auto intro!: allStmts_ensure [OF z s] split: subReply.split prod.split sum.split)
qed

lemma allStmts_background:
  assumes z: "fixed_zone z" and s: "s \<in> set seen"
  shows "allStmts (stmtFrom z seen) (doWindowMaintenance z s)"
  by (simp add: doWindowMaintenance_def Let_def allStmts_activate [OF z s sameTerm_refl]
      allStmts_resets [OF z s sameTerm_refl])

section \<open>The invariant\<close>

definition newestStart :: "winKind \<Rightarrow> int \<Rightarrow> subEvent list \<Rightarrow> time option" where
  "newestStart k sid evs = (case starts k sid evs of [] \<Rightarrow> None | w # _ \<Rightarrow> Some w)"

definition windowOK :: "subEvent list \<Rightarrow> userSub \<Rightarrow> bool" where
  "windowOK evs r \<longleftrightarrow> (\<forall>k. winStart k r = newestStart k (us_ID r) evs \<and> winUsage k r = usedSince k (us_ID r) evs)"

fun eventID :: "subEvent \<Rightarrow> int" where
  "eventID (Opened k i t) = i" | "eventID (Rolled k i t) = i" | "eventID (Used i c) = i"

definition sys_inv :: "zone \<Rightarrow> subSys \<Rightarrow> bool" where
  "sys_inv z y \<longleftrightarrow> sub_ok (sy_db y)
     \<and> (\<forall>p\<in>set (sy_procs y). allStmts (stmtFrom z (sy_seen y)) p)
     \<and> (\<forall>e\<in>set (sy_log y). eventID e < sd_nextID (sy_db y))
     \<and> (\<forall>r\<in>set (sd_rows (sy_db y)). windowOK (sy_log y) r)
     \<and> (\<forall>k sid. spaced (period k) (starts k sid (sy_log y)))
     \<and> (\<forall>sid. \<forall>t\<in>set (starts Daily sid (sy_log y)). StartOfDay z t = t)
     \<and> (\<forall>k sid. k \<noteq> Daily \<longrightarrow> (\<forall>t\<in>set (butlast (starts k sid (sy_log y))).
          \<exists>s\<in>set (sy_seen y). us_ID s = sid \<and> t < us_ExpiresAt s))"

text \<open>Changes that leave windows and usage of every row alone.\<close>

definition sameWindows :: "userSub \<Rightarrow> userSub \<Rightarrow> bool" where
  "sameWindows r s \<longleftrightarrow> us_ID r = us_ID s \<and> (\<forall>k. winStart k r = winStart k s \<and> winUsage k r = winUsage k s)"

definition framed :: "subDB \<Rightarrow> subDB \<Rightarrow> bool" where
  "framed d d1 \<longleftrightarrow> sd_nextID d1 = sd_nextID d
     \<and> (\<forall>r\<in>set (sd_rows d1). \<exists>s\<in>set (sd_rows d). sameWindows r s)"

lemma sameWindows_intro:
  "us_ID r = us_ID s \<Longrightarrow> us_DailyWindowStart r = us_DailyWindowStart s \<Longrightarrow> us_WeeklyWindowStart r = us_WeeklyWindowStart s \<Longrightarrow>
   us_MonthlyWindowStart r = us_MonthlyWindowStart s \<Longrightarrow> us_DailyUsageUSD r = us_DailyUsageUSD s \<Longrightarrow>
   us_WeeklyUsageUSD r = us_WeeklyUsageUSD s \<Longrightarrow> us_MonthlyUsageUSD r = us_MonthlyUsageUSD s \<Longrightarrow> sameWindows r s"
  by (auto simp: sameWindows_def, (metis winStart.simps winKind.exhaust), (metis winUsage.simps winKind.exhaust))

lemma sub_framed_trans: "framed d d1 \<Longrightarrow> framed d1 d2 \<Longrightarrow> framed d d2"
  unfolding framed_def sameWindows_def by metis

lemma framed_updateSubs: "(\<And>s. sameWindows (f s) s) \<Longrightarrow> framed d (updateSubs P f d)"
  by (auto simp: framed_def updateSubs_def sameWindows_def)

lemma framed_updateSub: "updateSub sid f d = Inr d1 \<Longrightarrow> (\<And>s. sameWindows (f s) s) \<Longrightarrow> framed d d1"
  by (auto simp: updateSub_def framed_updateSubs split: if_splits)

lemma framed_extendTx: "extendSubscriptionTx z now sid days d = Inr d1 \<Longrightarrow> framed d d1"
proof -
  assume e: "extendSubscriptionTx z now sid days d = Inr d1"
  have x: "framed a b" if "ExtendExpiry sid e a = Inr b" for a b e
    using that unfolding ExtendExpiry_def by (rule framed_updateSub) (simp add: sameWindows_intro)
  have u: "framed a b" if "UpdateStatus sid st a = Inr b" for a b st
    using that unfolding UpdateStatus_def by (rule framed_updateSub) (simp add: sameWindows_intro)
  from e show ?thesis
    by (auto simp: extendSubscriptionTx_def Let_def split: sum.splits if_splits intro: x sub_framed_trans [OF x u])
qed

lemma framed_inv:
  assumes inv: "sys_inv z y" and f: "framed (sy_db y) d1" and ok: "sub_ok d1"
  shows "sys_inv z (y\<lparr>sy_db := d1\<rparr>)"
proof -
  have "windowOK (sy_log y) r" if "r \<in> set (sd_rows d1)" for r
  proof -
    from f that obtain s where "s \<in> set (sd_rows (sy_db y))" "sameWindows r s" by (auto simp: framed_def)
    with inv show ?thesis by (simp add: sys_inv_def sameWindows_def windowOK_def)
  qed
  with inv ok f show ?thesis by (simp add: sys_inv_def framed_def)
qed

section \<open>Steps keep the invariant\<close>

lemma inv_parts:
  assumes "sys_inv z y"
  shows "sub_ok (sy_db y)" "p \<in> set (sy_procs y) \<Longrightarrow> allStmts (stmtFrom z (sy_seen y)) p"
    "e \<in> set (sy_log y) \<Longrightarrow> eventID e < sd_nextID (sy_db y)"
    "r \<in> set (sd_rows (sy_db y)) \<Longrightarrow> windowOK (sy_log y) r"
    "spaced (period k) (starts k sid (sy_log y))"
    "t \<in> set (starts Daily sid (sy_log y)) \<Longrightarrow> StartOfDay z t = t"
    "k \<noteq> Daily \<Longrightarrow> t \<in> set (butlast (starts k sid (sy_log y))) \<Longrightarrow>
       \<exists>s\<in>set (sy_seen y). us_ID s = sid \<and> t < us_ExpiresAt s"
  using assms by (auto simp: sys_inv_def)

lemma inv_grow:
  assumes inv: "sys_inv z y" and procs: "\<And>p. p \<in> set ps \<Longrightarrow> allStmts (stmtFrom z seen) p"
    and seen: "set (sy_seen y) \<subseteq> set seen"
  shows "sys_inv z (y\<lparr>sy_seen := seen, sy_procs := ps\<rparr>)"
  using inv procs seen unfolding sys_inv_def by (auto, blast)

lemma starts_old: "(\<And>e. e \<in> set evs \<Longrightarrow> eventID e \<noteq> sid) \<Longrightarrow> starts k sid evs = [] \<and> usedSince k sid evs = 0"
proof (induction evs)
  case (Cons e evs)
  have "eventID e \<noteq> sid" using Cons.prems [of e] by simp
  with Cons show ?case by (cases e) simp_all
qed simp

lemma inv_create_row:
  assumes inv: "sys_inv z y" and c: "createSubscription z now inp (sy_db y) = (r, d1)"
  shows "sys_inv z (y\<lparr>sy_db := d1\<rparr>)"
proof (cases "d1 = sy_db y")
  case True
  with inv show ?thesis by simp
next
  case False
  have ok1: "sub_ok d1" by (rule sub_ok_createSubscription [OF inv_parts(1) [OF inv] c])
  from c False obtain s where s: "sd_rows d1 = sd_rows (sy_db y) @ [s]" "us_ID s = sd_nextID (sy_db y)"
    "sd_nextID d1 = sd_nextID (sy_db y) + 1" "\<not> IsWindowActivated s" "us_DailyUsageUSD s = 0"
    "us_WeeklyUsageUSD s = 0" "us_MonthlyUsageUSD s = 0"
    by (auto simp: createSubscription_def SubCreate_def Let_def IsWindowActivated_def split: if_splits)
  have "eventID e \<noteq> us_ID s" if e: "e \<in> set (sy_log y)" for e
    using inv_parts(3) [OF inv e] s(2) by simp
  then have old: "starts k (us_ID s) (sy_log y) = [] \<and> usedSince k (us_ID s) (sy_log y) = 0" for k
    by (rule starts_old)
  have "winStart k s = None \<and> winUsage k s = 0" for k
    using s(4-7) by (cases k) (simp_all add: IsWindowActivated_def)
  with old have "windowOK (sy_log y) s" by (simp add: windowOK_def newestStart_def)
  with s(1) inv_parts(4) [OF inv] have "\<forall>r\<in>set (sd_rows d1). windowOK (sy_log y) r" by auto
  moreover have "\<forall>e\<in>set (sy_log y). eventID e < sd_nextID d1" using inv_parts(3) [OF inv] s(3) by fastforce
  ultimately show ?thesis using inv ok1 unfolding sys_inv_def by simp
qed

lemma inv_usage:
  assumes inv: "sys_inv z y" and u: "IncrementUsage sid cost (sy_db y) = Inr d1"
  shows "sys_inv z (y\<lparr>sy_db := d1, sy_log := Used sid cost # sy_log y\<rparr>)"
proof -
  let ?d = "sy_db y"
  let ?P = "\<lambda>s. us_ID s = sid \<and> subLive s \<and> m_get (sd_groups ?d) (us_GroupID s) \<noteq> None"
  let ?f = "\<lambda>s. s\<lparr>us_DailyUsageUSD := us_DailyUsageUSD s + cost, us_WeeklyUsageUSD := us_WeeklyUsageUSD s + cost,
              us_MonthlyUsageUSD := us_MonthlyUsageUSD s + cost\<rparr>"
  from u obtain h where h: "h \<in> set (sd_rows ?d)" "?P h" and d1: "d1 = updateSubs ?P ?f ?d"
    unfolding IncrementUsage_def Let_def by (auto split: if_split_asm)
  have ok1: "sub_ok d1" by (rule sub_ok_IncrementUsage [OF inv_parts(1) [OF inv] u])
  have "windowOK (Used sid cost # sy_log y) r" if "r \<in> set (sd_rows d1)" for r
  proof -
    from that d1 obtain s where s: "s \<in> set (sd_rows ?d)" "r = (if ?P s then ?f s else s)"
      by (auto simp: updateSubs_def)
    note w = inv_parts(4) [OF inv s(1)]
    have hit: "?P s" if "us_ID s = sid"
    proof -
      have "s = h" using subRow_in [OF inv_parts(1) [OF inv] s(1)] subRow_in [OF inv_parts(1) [OF inv] h(1)] h(2) that
        by simp
      with h(2) show ?thesis by simp
    qed
    have f: "us_ID (?f s) = us_ID s" "winStart k (?f s) = winStart k s" "winUsage k (?f s) = winUsage k s + cost" for k
      by (cases k; simp)+
    show ?thesis
    proof (cases "us_ID s = sid")
      case True
      with hit s(2) have "r = ?f s" by metis
      with w True f show ?thesis by (simp add: windowOK_def newestStart_def)
    next
      case False
      with s(2) have "r = s" by simp
      with w False show ?thesis by (simp add: windowOK_def newestStart_def)
    qed
  qed
  moreover have "sid < sd_nextID ?d" using inv_parts(1) [OF inv] h by (auto simp: sub_ok_def)
  ultimately show ?thesis using inv ok1 d1 unfolding sys_inv_def by (simp add: updateSubs_def)
qed

text \<open>A conditional update of windows by a statement.\<close>

lemma conditional_exec:
  "snd (asRes d (translateConditionalWindowReset P f sid d)) = updateSubs (\<lambda>s. us_ID s = sid \<and> P s) f d"
proof (cases "translateConditionalWindowReset P f sid d")
  case (Inl e)
  then have "\<not> (\<exists>s\<in>set (sd_rows d). us_ID s = sid \<and> P s)"
    by (auto simp: translateConditionalWindowReset_def split: if_splits)
  with Inl show ?thesis by (subst updateSubs_none) (auto simp: asRes_def)
next
  case (Inr d1)
  with conditional_eq [OF Inr] show ?thesis by (simp add: asRes_def)
qed

lemma resetUsage_eq:
  "resetUsage k sid e w d = translateConditionalWindowReset (\<lambda>s. winStart k s = e) (setWindow k w) sid d"
proof -
  have f: "setWindow Daily w = (\<lambda>s. s\<lparr>us_DailyUsageUSD := 0, us_DailyWindowStart := Some w\<rparr>)"
    "setWindow Weekly w = (\<lambda>s. s\<lparr>us_WeeklyUsageUSD := 0, us_WeeklyWindowStart := Some w\<rparr>)"
    "setWindow Monthly w = (\<lambda>s. s\<lparr>us_MonthlyUsageUSD := 0, us_MonthlyWindowStart := Some w\<rparr>)"
    by (simp_all add: fun_eq_iff)
  show ?thesis
    by (cases k; hypsubst) (simp_all add: resetUsage_def ResetDailyUsage_def ResetWeeklyUsage_def ResetMonthlyUsage_def f)
qed

lemma exec_db:
  "snd (execSub now (ActivateStmt sid dl pd) d) = updateSubs (\<lambda>s. us_ID s = sid \<and> \<not> IsWindowActivated s) (activatedSub dl pd) d"
  "snd (execSub now (ResetStmt k sid e w) d) = updateSubs (\<lambda>s. us_ID s = sid \<and> winStart k s = e) (setWindow k w) d"
proof -
  have eta: "activatedSub dl pd = (\<lambda>s. s\<lparr>us_DailyWindowStart := Some dl, us_WeeklyWindowStart := Some pd,
     us_MonthlyWindowStart := Some pd\<rparr>)" by (simp add: activatedSub_def fun_eq_iff)
  show "snd (execSub now (ActivateStmt sid dl pd) d) = updateSubs (\<lambda>s. us_ID s = sid \<and> \<not> IsWindowActivated s) (activatedSub dl pd) d"
    by (simp add: ActivateWindows_def conditional_exec eta IsWindowActivated_def)
  show "snd (execSub now (ResetStmt k sid e w) d) = updateSubs (\<lambda>s. us_ID s = sid \<and> winStart k s = e) (setWindow k w) d"
    by (simp add: resetUsage_eq conditional_exec)
qed

lemma starts_app: "starts k sid (evs @ log) = starts k sid evs @ starts k sid log"
  by (simp add: starts_def)

lemma other_events:
  "(\<And>e. e \<in> set evs \<Longrightarrow> eventID e = sid) \<Longrightarrow> i \<noteq> sid \<Longrightarrow>
   starts k i (evs @ log) = starts k i log \<and> usedSince k i (evs @ log) = usedSince k i log"
proof (induction evs)
  case (Cons e evs)
  have "eventID e = sid" using Cons.prems(1) [of e] by simp
  with Cons show ?case by (cases e) simp_all
qed simp

lemma inv_write:
  fixes y :: subSys
  defines "d \<equiv> sy_db y" and "log \<equiv> sy_log y"
  assumes inv: "sys_inv z y"
    and f: "\<And>s. us_ID (f s) = us_ID s \<and> subPair (f s) = subPair s \<and> us_DeletedAt (f s) = us_DeletedAt s
              \<and> us_ExpiresAt (f s) = us_ExpiresAt s"
    and h: "h \<in> set (sd_rows d)" "us_ID h = sid" "P h"
    and evs: "\<And>e. e \<in> set evs \<Longrightarrow> eventID e = sid"
    and wok: "windowOK (evs @ log) (f h)"
    and sp: "\<And>k. spaced (period k) (starts k sid (evs @ log))"
    and al: "\<And>t. t \<in> set (starts Daily sid evs) \<Longrightarrow> StartOfDay z t = t"
    and rolled: "\<And>k t. k \<noteq> Daily \<Longrightarrow> t \<in> set (butlast (starts k sid (evs @ log))) \<Longrightarrow>
        \<exists>s\<in>set (sy_seen y). us_ID s = sid \<and> t < us_ExpiresAt s"
  shows "sys_inv z (y\<lparr>sy_db := updateSubs (\<lambda>s. us_ID s = sid \<and> P s) f d, sy_log := evs @ log\<rparr>)"
proof -
  let ?d1 = "updateSubs (\<lambda>s. us_ID s = sid \<and> P s) f d"
  note ok = inv_parts(1) [OF inv, folded d_def]
  have ok1: "sub_ok ?d1"
    by (rule sub_ok_update [OF ok]) (use f in \<open>auto simp: subLive_def expiry_le [OF ok]\<close>)
  have id: "sd_nextID ?d1 = sd_nextID d" by (simp add: updateSubs_def)
  have "windowOK (evs @ log) r" if "r \<in> set (sd_rows ?d1)" for r
  proof -
    from that obtain s where s: "s \<in> set (sd_rows d)" "r = (if us_ID s = sid \<and> P s then f s else s)"
      by (auto simp: updateSubs_def)
    show ?thesis
    proof (cases "us_ID s = sid")
      case True
      then have "s = h" using subRow_in [OF ok s(1)] subRow_in [OF ok h(1)] h(2) by simp
      with s(2) h True wok show ?thesis by simp
    next
      case False
      with s have r: "r = s" by simp
      from inv_parts(4) [OF inv, folded d_def log_def, OF s(1)] show ?thesis
        using other_events [OF evs False] by (simp add: r windowOK_def newestStart_def)
    qed
  qed
  moreover have "spaced (period k) (starts k i (evs @ log))" for k i
    using sp [of k] other_events [OF evs, where i = i and k = k and log = log] inv_parts(5) [OF inv, of k i, folded log_def]
    by (cases "i = sid") simp_all
  moreover have "StartOfDay z t = t" if "t \<in> set (starts Daily i (evs @ log))" for i t
    using that al other_events [OF evs, where i = i and k = Daily and log = log] inv_parts(6) [OF inv, of t i, folded log_def]
    by (cases "i = sid") (auto simp: starts_app)
  moreover have "eventID e < sd_nextID d" if "e \<in> set (evs @ log)" for e
    using that evs inv_parts(3) [OF inv, folded d_def log_def] h ok by (fastforce simp: sub_ok_def)
  moreover have "\<exists>s\<in>set (sy_seen y). us_ID s = i \<and> t < us_ExpiresAt s"
    if "k \<noteq> Daily" "t \<in> set (butlast (starts k i (evs @ log)))" for k i t
    using that rolled [of k t] other_events [OF evs, where i = i and k = k and log = log]
      inv_parts(7) [OF inv, of k t i, folded log_def] by (cases "i = sid") auto
  ultimately show ?thesis
    using inv ok1 unfolding sys_inv_def by (simp add: id)
qed

lemma inv_exec:
  assumes inv: "sys_inv z y" and st: "stmtFrom z (sy_seen y) st"
  shows "sys_inv z (y\<lparr>sy_db := snd (execSub now st (sy_db y)), sy_log := windowEvents st (sy_db y) @ sy_log y\<rparr>)"
proof (cases st)
  case (ActivateStmt sid dl pd)
  show ?thesis
  proof (cases "\<exists>s\<in>set (sd_rows (sy_db y)). us_ID s = sid \<and> \<not> IsWindowActivated s")
    case False
    with ActivateStmt inv show ?thesis
      by (simp only: exec_db) (subst updateSubs_none, auto)
  next
    case True
    then obtain h where h: "h \<in> set (sd_rows (sy_db y))" "us_ID h = sid" "\<not> IsWindowActivated h" by blast
    then have none: "winStart k h = None" for k using activated_iff [of h] by blast
    note w = inv_parts(4) [OF inv h(1)]
    have empty: "starts k sid (sy_log y) = []" for k
    proof -
      have "newestStart k sid (sy_log y) = None" using w none [of k] h(2) by (simp add: windowOK_def)
      then show ?thesis by (cases "starts k sid (sy_log y)") (simp_all add: newestStart_def)
    qed
    have a: "us_ID (activatedSub dl pd h) = sid"
      "winStart k (activatedSub dl pd h) = Some (if k = Daily then dl else pd)"
      "winUsage k (activatedSub dl pd h) = winUsage k h" for k
      using h(2) by (cases k; simp add: activatedSub_def)+
    have evs: "windowEvents st (sy_db y) = [Opened Daily sid dl, Opened Weekly sid pd, Opened Monthly sid pd]"
      using ActivateStmt True by simp
    show ?thesis
      unfolding ActivateStmt exec_db evs [unfolded ActivateStmt]
    proof (rule inv_write [where P = "\<lambda>s. \<not> IsWindowActivated s" and h = h, OF inv _ h])
      show "windowOK ([Opened Daily sid dl, Opened Weekly sid pd, Opened Monthly sid pd] @ sy_log y) (activatedSub dl pd h)"
        unfolding windowOK_def
      proof
        fix k
        show "winStart k (activatedSub dl pd h)
              = newestStart k (us_ID (activatedSub dl pd h)) ([Opened Daily sid dl, Opened Weekly sid pd, Opened Monthly sid pd] @ sy_log y)
            \<and> winUsage k (activatedSub dl pd h)
              = usedSince k (us_ID (activatedSub dl pd h)) ([Opened Daily sid dl, Opened Weekly sid pd, Opened Monthly sid pd] @ sy_log y)"
          using w h(2) by (cases k) (simp_all add: a newestStart_def empty windowOK_def del: winStart.simps winUsage.simps)
      qed
      show "spaced (period k) (starts k sid ([Opened Daily sid dl, Opened Weekly sid pd, Opened Monthly sid pd] @ sy_log y))" for k
        by (cases k) (simp_all add: empty)
      show "StartOfDay z t = t"
        if "t \<in> set (starts Daily sid [Opened Daily sid dl, Opened Weekly sid pd, Opened Monthly sid pd])" for t
        using that st ActivateStmt by simp
      show "\<exists>s\<in>set (sy_seen y). us_ID s = sid \<and> t < us_ExpiresAt s"
        if "j \<noteq> Daily" "t \<in> set (butlast (starts j sid ([Opened Daily sid dl, Opened Weekly sid pd, Opened Monthly sid pd] @ sy_log y)))"
        for j t using that by (cases j) (simp_all add: empty)
    qed (auto simp: activatedSub_def)
  qed
next
  case (ResetStmt k sid e new)
  show ?thesis
  proof (cases "\<exists>s\<in>set (sd_rows (sy_db y)). us_ID s = sid \<and> winStart k s = e")
    case False
    with ResetStmt inv show ?thesis
      by (simp only: exec_db) (subst updateSubs_none, auto)
  next
    case True
    then obtain h where h: "h \<in> set (sd_rows (sy_db y))" "us_ID h = sid" "winStart k h = e" by blast
    note w = inv_parts(4) [OF inv h(1)]
    from st ResetStmt obtain s p where s: "s \<in> set (sy_seen y)" "us_ID s = sid" "e = Some p"
      "k = Daily \<longrightarrow> StartOfDay z new = new \<and> StartOfDay z p + day \<le> new"
      "k \<noteq> Daily \<longrightarrow> p + period k \<le> new \<and> new < us_ExpiresAt s" by auto
    from w h(2,3) s(3) obtain ts where ts: "starts k sid (sy_log y) = p # ts"
      by (auto simp: windowOK_def newestStart_def split: list.splits)
    then have aligned: "k = Daily \<Longrightarrow> StartOfDay z p = p" using inv_parts(6) [OF inv, of p sid] by simp
    have gap: "p + period k \<le> new" using s(4,5) aligned by (cases "k = Daily") auto
    have evs: "windowEvents st (sy_db y) = [Rolled k sid new]" using ResetStmt True by simp
    show ?thesis
      unfolding ResetStmt exec_db evs [unfolded ResetStmt]
    proof (rule inv_write [where P = "\<lambda>s. winStart k s = e" and h = h, OF inv _ h])
      show "windowOK ([Rolled k sid new] @ sy_log y) (setWindow k new h)"
        using w h(2) by (auto simp: windowOK_def newestStart_def)
      show "spaced (period j) (starts j sid ([Rolled k sid new] @ sy_log y))" for j
        using inv_parts(5) [OF inv, of j sid] gap ts by (cases "j = k") simp_all
      show "StartOfDay z t = t" if "t \<in> set (starts Daily sid [Rolled k sid new])" for t
        using that s(4) by (simp split: if_splits)
      show "\<exists>s\<in>set (sy_seen y). us_ID s = sid \<and> t < us_ExpiresAt s"
        if "j \<noteq> Daily" "t \<in> set (butlast (starts j sid ([Rolled k sid new] @ sy_log y)))" for j t
        using that s inv_parts(7) [OF inv, of j t sid] ts by (cases "j = k") auto
    qed auto
  qed
qed (use inv in simp_all)

lemma inv_procs:
  "sys_inv z y \<Longrightarrow> (\<And>p. p \<in> set ps \<Longrightarrow> allStmts (stmtFrom z (sy_seen y)) p) \<Longrightarrow> sys_inv z (y\<lparr>sy_procs := ps\<rparr>)"
  by (simp add: sys_inv_def)

lemma inv_continue:
  assumes "sys_inv z y" "i < length (sy_procs y)" "sy_procs y ! i = SDo st k"
  shows "stmtFrom z (sy_seen y) st" "p \<in> set ((sy_procs y)[i := k r]) \<Longrightarrow> allStmts (stmtFrom z (sy_seen y)) p"
proof -
  have "allStmts (stmtFrom z (sy_seen y)) (SDo st k)" using assms inv_parts(2) nth_mem by metis
  then show "stmtFrom z (sy_seen y) st" by simp
  have "allStmts (stmtFrom z (sy_seen y)) (k r)"
    using \<open>allStmts (stmtFrom z (sy_seen y)) (SDo st k)\<close> by simp
  then show "allStmts (stmtFrom z (sy_seen y)) p" if "p \<in> set ((sy_procs y)[i := k r])"
    using that set_update_subset_insert [of "sy_procs y" i "k r"] inv_parts(2) [OF assms(1)] by blast
qed

lemma sys_inv_step:
  assumes z: "fixed_zone z" and st: "sys_step z y y1" and inv: "sys_inv z y"
  shows "sys_inv z y1"
  using st
proof cases
  case (tick t)
  then show ?thesis using inv by (simp add: sys_inv_def)
next
  case (look s)
  have "allStmts (stmtFrom z (s # sy_seen y)) p" if p: "p \<in> set (sy_procs y)" for p
    by (rule allStmts_mono [OF _ inv_parts(2) [OF inv p]]) (auto intro: stmtFrom_mono)
  with look show ?thesis using inv_grow [OF inv, of "sy_procs y" "s # sy_seen y"] by auto
next
  case (request s g)
  then show ?thesis
    using inv_procs [OF inv, of "admitSubscription z s g # sy_procs y"] allStmts_admit [OF z] inv_parts(2) [OF inv] by auto
next
  case (background s)
  then show ?thesis
    using inv_procs [OF inv, of "mapProg (\<lambda>_. None) (doWindowMaintenance z s) # sy_procs y"]
      allStmts_background [OF z] inv_parts(2) [OF inv] by (metis allStmts_mapProg set_ConsD)
next
  case (run i st k r d1)
  let ?y = "y\<lparr>sy_db := d1, sy_log := windowEvents st (sy_db y) @ sy_log y\<rparr>"
  have "sys_inv z ?y" using inv_exec [OF inv inv_continue(1) [OF inv run(2,3)], of "sy_now y"] run(4) by simp
  then have "sys_inv z (?y\<lparr>sy_procs := (sy_procs y)[i := k r]\<rparr>)"
    by (rule inv_procs) (use inv_continue(2) [OF inv run(2,3)] in simp)
  moreover have "y1 = ?y\<lparr>sy_procs := (sy_procs y)[i := k r]\<rparr>" using run(1) by (cases y) simp
  ultimately show ?thesis by simp
next
  case (lost_statement i st k e)
  then show ?thesis
    using inv_procs [OF inv, of "(sy_procs y)[i := k (RRes (Some e))]"] inv_continue(2) [OF inv lost_statement(2,3)] by simp
next
  case (lost_reply i st k r d1 e)
  let ?y = "y\<lparr>sy_db := d1, sy_log := windowEvents st (sy_db y) @ sy_log y\<rparr>"
  have "sys_inv z ?y" using inv_exec [OF inv inv_continue(1) [OF inv lost_reply(2,3)], of "sy_now y"] lost_reply(4) by simp
  then have "sys_inv z (?y\<lparr>sy_procs := (sy_procs y)[i := k (RRes (Some e))]\<rparr>)"
    by (rule inv_procs) (use inv_continue(2) [OF inv lost_reply(2,3)] in simp)
  moreover have "y1 = ?y\<lparr>sy_procs := (sy_procs y)[i := k (RRes (Some e))]\<rparr>" using lost_reply(1) by (cases y) simp
  ultimately show ?thesis by simp
next
  case (usage sid cost d1)
  then show ?thesis using inv_usage [OF inv] by simp
next
  case (create inp r d1)
  then show ?thesis using inv_create_row [OF inv] by simp
next
  case (adjust sid days d1)
  then show ?thesis
    using framed_inv [OF inv framed_extendTx sub_ok_extendTx [OF inv_parts(1) [OF inv]]] by simp
next
  case (revoke sid)
  have "framed (sy_db y) (SubDelete (sy_now y) sid (sy_db y))"
    unfolding SubDelete_def by (rule framed_updateSubs) (simp add: sameWindows_intro)
  with revoke show ?thesis using framed_inv [OF inv] sub_ok_Delete [OF inv_parts(1) [OF inv]] by simp
next
  case expire
  have "framed (sy_db y) (BatchUpdateExpiredStatus (sy_now y) (sy_db y))"
    unfolding BatchUpdateExpiredStatus_def by (rule framed_updateSubs) (simp add: sameWindows_intro)
  with expire show ?thesis using framed_inv [OF inv] sub_ok_BatchUpdate [OF inv_parts(1) [OF inv]] by simp
qed

lemma sys_reach_inv:
  assumes "fixed_zone z" "sys_reach z y"
  shows "sys_inv z y"
  using assms(2)
proof induction
  case (start y)
  then show ?case by (simp add: sys_inv_def sub_ok_def)
next
  case (more_steps y y1)
  then show ?case using sys_inv_step [OF assms(1)] by blast
qed

text \<open>C31. However requests with snapshots of any age, background maintenance, recorded costs and term
changes interleave and fail, each window start of a subscription is opened once and at least a period
(a day, 7 or 30 days) after the one before, and the usage of a window is exactly the costs recorded
since it was rolled: a request that maintains the windows late never clears usage of the new window.\<close>

theorem usage_since_last_roll:
  assumes "fixed_zone z" "sys_reach z y" "s \<in> set (sd_rows (sy_db y))"
  shows "winUsage k s = usedSince k (us_ID s) (sy_log y)
    \<and> winStart k s = newestStart k (us_ID s) (sy_log y)
    \<and> spaced (period k) (starts k (us_ID s) (sy_log y))"
proof -
  note inv = sys_reach_inv [OF assms(1,2)]
  show ?thesis using inv_parts(4) [OF inv assms(3)] inv_parts(5) [OF inv] by (simp add: windowOK_def)
qed

text \<open>C32. In such runs a subscription never gets more weekly or monthly allowances than its term holds: the
windows opened fit between the first start and the latest expiry any request saw, the last, partial
period included once.\<close>

theorem allowances_bounded:
  assumes z: "fixed_zone z" and reach: "sys_reach z y" and k: "k \<noteq> Daily"
    and expiry: "\<forall>s\<in>set (sy_seen y). us_ID s = sid \<longrightarrow> us_ExpiresAt s \<le> expires"
    and first: "starts k sid (sy_log y) = ts @ [first]" "first < expires"
  shows "first + int (length ts) * period k < expires"
proof -
  note inv = sys_reach_inv [OF z reach]
  have "first + int (length ts) * period k \<le> hd (starts k sid (sy_log y))"
    using spaced_count [OF inv_parts(5) [OF inv, of k sid]] first(1) by simp
  moreover have "hd (starts k sid (sy_log y)) < expires"
  proof (cases ts)
    case (Cons t rest)
    have "hd (starts k sid (sy_log y)) \<in> set (butlast (starts k sid (sy_log y)))"
      using first(1) Cons by simp
    then show ?thesis using inv_parts(7) [OF inv k] expiry by fastforce
  qed (use first in simp)
  ultimately show ?thesis by simp
qed

section \<open>A run\<close>

lemma run_alone_reach:
  "sys_reach z y \<Longrightarrow> sy_procs y = p # ps \<Longrightarrow>
   \<exists>y1. sys_reach z y1 \<and> sy_db y1 = snd (runSub p (sy_now y) (sy_db y)) \<and> sy_now y1 = sy_now y \<and> sy_seen y1 = sy_seen y"
proof (induction p arbitrary: y)
  case (SRet x)
  then show ?case by auto
next
  case (SDo st k)
  obtain r d1 where e: "execSub (sy_now y) st (sy_db y) = (r, d1)" by (cases "execSub (sy_now y) st (sy_db y)")
  let ?y = "y\<lparr>sy_db := d1, sy_procs := (sy_procs y)[0 := k r], sy_log := windowEvents st (sy_db y) @ sy_log y\<rparr>"
  have "sys_step z y ?y" by (rule sys_step.run [OF _ _ e]) (simp_all add: SDo.prems(2))
  with SDo.prems(1) have "sys_reach z ?y" by (rule sys_reach.more_steps)
  from SDo.IH [OF rangeI this] show ?case by (simp add: SDo.prems(2) e)
qed

text \<open>A request on the row as it is, served without interruption.\<close>

lemma serve_reach:
  assumes y: "sys_reach z y" and s: "s \<in> set (sd_rows (sy_db y))" and t: "sy_now y \<le> t"
  shows "\<exists>y1. sys_reach z y1 \<and> sy_db y1 = snd (runSub (admitSubscription z s g) t (sy_db y))
    \<and> sy_now y1 = t \<and> sy_seen y1 = s # sy_seen y"
proof -
  let ?y1 = "y\<lparr>sy_now := t\<rparr>"
  let ?y2 = "?y1\<lparr>sy_seen := s # sy_seen ?y1\<rparr>"
  let ?y3 = "?y2\<lparr>sy_procs := admitSubscription z s g # sy_procs ?y2\<rparr>"
  have "sys_reach z ?y1" by (rule sys_reach.more_steps [OF y sys_step.tick]) (rule t)
  then have "sys_reach z ?y2" by (rule sys_reach.more_steps) (rule sys_step.look, simp add: s)
  then have "sys_reach z ?y3" by (rule sys_reach.more_steps) (rule sys_step.request, simp)
  from run_alone_reach [OF this] show ?thesis by simp
qed

definition demoOpened :: userSub where
  "demoOpened = activatedSub (StartOfDay shanghai (demoNow + day)) (demoNow + day) demoRow"

definition demoRolled :: userSub where
  "demoRolled = demoOpened\<lparr>us_DailyWindowStart := Some (StartOfDay shanghai (demoNow + 9 * day)),
     us_WeeklyWindowStart := Some (demoNow + 8 * day)\<rparr>"

lemma demo_served:
  "snd (runSub (admitSubscription shanghai demoRow demoGroup) (demoNow + day) demoSubDB)
     = demoSubDB\<lparr>sd_rows := [demoOpened]\<rparr>"
  by code_simp

lemma demo_served_again:
  "snd (runSub (admitSubscription shanghai demoOpened demoGroup) (demoNow + 9 * day) (demoSubDB\<lparr>sd_rows := [demoOpened]\<rparr>))
     = demoSubDB\<lparr>sd_rows := [demoRolled]\<rparr>"
  by code_simp

lemma demo_run:
  "\<exists>y. sys_reach shanghai y \<and> sy_db y = demoSubDB\<lparr>sd_rows := [demoRolled]\<rparr>
     \<and> (\<forall>s\<in>set (sy_seen y). us_ExpiresAt s \<le> demoNow + 30 * day)"
proof -
  let ?e = "\<lparr>sy_db = demoEmpty, sy_now = demoNow, sy_seen = [], sy_procs = [], sy_log = []\<rparr> :: subSys"
  let ?y0 = "?e\<lparr>sy_db := demoSubDB\<rparr>"
  have "sys_reach shanghai ?e" by (rule sys_reach.start) (simp_all add: demoEmpty_def)
  moreover have "createSubscription shanghai demoNow demoInput demoEmpty = (Inr demoRow, demoSubDB)" by code_simp
  ultimately have y0: "sys_reach shanghai ?y0"
    using sys_reach.more_steps [OF _ sys_step.create [of shanghai ?e demoInput "Inr demoRow" demoSubDB]] by simp
  have m: "demoRow \<in> set (sd_rows demoSubDB)" by (simp add: demoSubDB_eq)
  from serve_reach [OF y0, of demoRow "demoNow + day" demoGroup] day_pos m
  obtain y1 where y1: "sys_reach shanghai y1" "sy_db y1 = demoSubDB\<lparr>sd_rows := [demoOpened]\<rparr>"
    "sy_now y1 = demoNow + day" "sy_seen y1 = [demoRow]"
    by (auto simp: demo_served)
  have later: "sy_now y1 \<le> demoNow + 9 * day" using y1(3) day_pos by simp
  from serve_reach [OF y1(1), of demoOpened "demoNow + 9 * day" demoGroup] y1(2,4) later
  obtain y2 where y2: "sys_reach shanghai y2" "sy_db y2 = demoSubDB\<lparr>sd_rows := [demoRolled]\<rparr>"
    "sy_seen y2 = [demoOpened, demoRow]"
    by (auto simp: demo_served_again)
  have "us_ExpiresAt demoOpened = demoNow + 30 * day" "us_ExpiresAt demoRow = demoNow + 30 * day"
    by (simp_all add: demoOpened_def activatedSub_def demoRow_def)
  with y2 show ?thesis by (intro exI [of _ y2]) simp
qed

lemma usage_since_last_roll_witness:
  "\<exists>y. sys_reach shanghai y \<and> newestStart Weekly 1 (sy_log y) = Some (demoNow + 8 * day)"
proof -
  obtain y where y: "sys_reach shanghai y" "sy_db y = demoSubDB\<lparr>sd_rows := [demoRolled]\<rparr>" using demo_run by blast
  have "winStart Weekly demoRolled = Some (demoNow + 8 * day)" "us_ID demoRolled = 1"
    by (simp_all add: demoRolled_def demoOpened_def activatedSub_def demoRow_def)
  with usage_since_last_roll [OF fixed_shanghai y(1), of demoRolled Weekly] y show ?thesis by auto
qed

lemma allowances_bounded_witness:
  "\<exists>y ts first. sys_reach shanghai y \<and> starts Weekly 1 (sy_log y) = ts @ [first]
     \<and> first + int (length ts) * week < demoNow + 30 * day"
proof -
  obtain y where y: "sys_reach shanghai y" "sy_db y = demoSubDB\<lparr>sd_rows := [demoRolled]\<rparr>"
    and seen: "\<forall>s\<in>set (sy_seen y). us_ID s = 1 \<longrightarrow> us_ExpiresAt s \<le> demoNow + 30 * day" using demo_run by blast
  note inv = sys_reach_inv [OF fixed_shanghai y(1)]
  have "winStart Weekly demoRolled = Some (demoNow + 8 * day)" "us_ID demoRolled = 1"
    by (simp_all add: demoRolled_def demoOpened_def activatedSub_def demoRow_def)
  moreover have "windowOK (sy_log y) demoRolled" using inv_parts(4) [OF inv] y(2) by simp
  ultimately have newest: "newestStart Weekly 1 (sy_log y) = Some (demoNow + 8 * day)"
    unfolding windowOK_def by metis
  then obtain w ws where w: "starts Weekly 1 (sy_log y) = w # ws" "w = demoNow + 8 * day"
    by (auto simp: newestStart_def split: list.splits)
  obtain ts first where ts: "starts Weekly 1 (sy_log y) = ts @ [first]"
    by (metis list.distinct(1) rev_exhaust w(1))
  have pos: "0 \<le> int (length ts) * week" using periods_pos(1) by simp
  have "hd (ts @ [first]) = demoNow + 8 * day" using ts w by (metis list.sel(1))
  then have "first + int (length ts) * week \<le> demoNow + 8 * day"
    using spaced_count [OF inv_parts(5) [OF inv, of Weekly 1]] ts by simp
  with pos have "first \<le> demoNow + 8 * day" by linarith
  then have "first < demoNow + 30 * day" using day_pos by simp
  with allowances_bounded [OF fixed_shanghai y(1) _ seen ts] have "first + int (length ts) * week < demoNow + 30 * day"
    by simp
  with y(1) ts show ?thesis by blast
qed

end
