(* ===== verification/PaymentFlow.thy ===== *)
theory PaymentFlow
  imports GoText
begin

text \<open>
  Payment notifications and the fulfilment of orders: \<open>payment_fulfillment.go\<close>, the cancellation
  and expiry of \<open>payment_order_lifecycle.go\<close>, and \<open>redeem_service.go\<close> as far as fulfilment uses it.

  \<^item> A flow is a program (\<open>prog\<close>) that issues database statements one by one and continues with
    their replies. \<open>runStmt\<close> is a statement's effect on the tables; a transaction is one statement.
    Flows of several processes interleave between statements.
  \<^item> An amount is a whole number of 1e-8 units, the resolution of the code's comparisons; an amount
    reported by a provider may also be NaN or infinite, as a \<open>float64\<close> may.
  \<^item> Provider configuration (\<open>payEnv\<close>) is an argument: the keys and metadata checks of an order's
    provider, the minor unit of its currency, the rebate of an order, and how notes are joined.
  \<^item> Log lines, e-mails and cache invalidation are left out.
\<close>

section \<open>Orders, codes and tables\<close>

definition OrderStatusPending :: string where "OrderStatusPending = ''PENDING''"
definition OrderStatusPaid :: string where "OrderStatusPaid = ''PAID''"
definition OrderStatusRecharging :: string where "OrderStatusRecharging = ''RECHARGING''"
definition OrderStatusCompleted :: string where "OrderStatusCompleted = ''COMPLETED''"
definition OrderStatusExpired :: string where "OrderStatusExpired = ''EXPIRED''"
definition OrderStatusCancelled :: string where "OrderStatusCancelled = ''CANCELLED''"
definition OrderStatusFailed :: string where "OrderStatusFailed = ''FAILED''"
definition OrderStatusRefunded :: string where "OrderStatusRefunded = ''REFUNDED''"

lemmas orderStatuses =
  OrderStatusPending_def OrderStatusPaid_def OrderStatusRecharging_def OrderStatusCompleted_def
  OrderStatusExpired_def OrderStatusCancelled_def OrderStatusFailed_def OrderStatusRefunded_def

definition psIsRefundStatus :: "string \<Rightarrow> bool" where
  "psIsRefundStatus s \<longleftrightarrow> s \<in> set [''REFUND_REQUESTED'', ''REFUNDING'', ''REFUND_PENDING'',
     ''PARTIALLY_REFUNDED'', ''REFUNDED'', ''REFUND_FAILED'']"

definition OrderTypeBalance :: string where "OrderTypeBalance = ''balance''"
definition OrderTypeSubscription :: string where "OrderTypeSubscription = ''subscription''"

record payOrder =
  po_ID :: int
  po_UserID :: int
  po_OrderType :: string
  po_Amount :: int
  po_PayAmount :: int
  po_RechargeCode :: string
  po_OutTradeNo :: string
  po_PaymentType :: string
  po_PaymentTradeNo :: string
  po_SubscriptionGroupID :: "int option"
  po_SubscriptionDays :: "int option"
  po_Status :: string
  po_ExpiresAt :: time
  po_UpdatedAt :: time
  po_PaidAt :: "time option"
  po_CompletedAt :: "time option"
  po_FailedReason :: "string option"

definition StatusUnused :: string where "StatusUnused = ''unused''"
definition StatusUsed :: string where "StatusUsed = ''used''"
definition StatusExpired :: string where "StatusExpired = ''expired''"
definition RedeemTypeBalance :: string where "RedeemTypeBalance = ''balance''"

record redeemCode =
  rc_ID :: int
  rc_Code :: string
  rc_Type :: string
  rc_Value :: int
  rc_Status :: string
  rc_UsedBy :: "int option"
  rc_ExpiresAt :: "time option"

definition IsUsed :: "redeemCode \<Rightarrow> bool" where
  "IsUsed c \<longleftrightarrow> rc_Status c = StatusUsed"

definition IsExpiredAt :: "redeemCode \<Rightarrow> time \<Rightarrow> bool" where
  "IsExpiredAt c now \<longleftrightarrow> rc_Status c = StatusExpired
     \<or> (rc_Status c = StatusUnused \<and> (case rc_ExpiresAt c of None \<Rightarrow> False | Some e \<Rightarrow> \<not> t_after e now))"

definition CanUse :: "redeemCode \<Rightarrow> time \<Rightarrow> bool" where
  "CanUse c now \<longleftrightarrow> rc_Status c = StatusUnused \<and> \<not> IsExpiredAt c now"

text \<open>The tables, and as a record of what happened the balance credits (code, user, amount), the
subscription terms granted (order, user, group, days) and the rebates accrued (order, amount).\<close>

record payDB =
  pd_orders :: "payOrder list"
  pd_codes :: "redeemCode list"
  pd_nextCode :: int
  pd_balances :: "(int, int) gomap"
  pd_groups :: "(int, string) gomap"
  pd_audit :: "(int \<times> string) list"
  pd_notes :: "(int \<times> int, string) gomap"
  pd_now :: time
  pd_credits :: "(string \<times> int \<times> int) list"
  pd_granted :: "(int \<times> int \<times> int \<times> int) list"
  pd_rebates :: "(int \<times> int) list"

record payEnv =
  pe_InstanceKey :: "payOrder \<Rightarrow> string"
  pe_OrderKey :: "payOrder \<Rightarrow> string"
  pe_RegistryKey :: "string \<Rightarrow> string"
  pe_MetadataOK :: "payOrder \<Rightarrow> string \<Rightarrow> (string, string) gomap \<Rightarrow> bool"
  pe_MinorUnit :: "payOrder \<Rightarrow> int"
  pe_Rebate :: "int \<Rightarrow> int \<Rightarrow> int"
  pe_JoinNotes :: "string \<Rightarrow> string \<Rightarrow> string"

section \<open>Statements\<close>

datatype payStmt =
    GetOrder int
  | FindOrder string
  | MarkPaid int string int
  | AcquireLease int
  | MarkCompleted int time
  | MarkFailed int time string
  | SetIfPending int string
  | SetTradeNo int string
  | GetCode string
  | CreateRedeemCode redeemCode
  | GetUser int
  | RedeemTx int int int
  | GetGroup int
  | AssignTx int int int int
  | RebateTx int int int
  | HasAudit int string
  | WriteAudit int string
  | ReadClock
  | RedeemLock string

datatype payReply =
    ROrder payOrder
  | RCode redeemCode
  | RCount nat
  | RTime time
  | RString string
  | ROk
  | RNotFound
  | RUsed
  | RError

definition paymentGrace :: duration where "paymentGrace = 5 * minute"
definition paymentFulfillmentLeaseDuration :: duration where "paymentFulfillmentLeaseDuration = 5 * minute"

definition orderByID :: "int \<Rightarrow> payDB \<Rightarrow> payOrder option" where
  "orderByID oid d = find (\<lambda>o1. po_ID o1 = oid) (pd_orders d)"

text \<open>\<open>Update().Where(IDEQ(id), P)\<close>: \<open>updated_at\<close> is set to the clock with every update.\<close>

definition updateOrder :: "int \<Rightarrow> (payOrder \<Rightarrow> bool) \<Rightarrow> (payOrder \<Rightarrow> payOrder) \<Rightarrow> payDB \<Rightarrow> payReply \<times> payDB" where
  "updateOrder oid P upd d =
    (let hit = (\<lambda>o1. po_ID o1 = oid \<and> P o1)
     in (RCount (length (filter hit (pd_orders d))),
         d\<lparr>pd_orders := map (\<lambda>o1. if hit o1 then (upd o1)\<lparr>po_UpdatedAt := pd_now d\<rparr> else o1) (pd_orders d)\<rparr>))"

definition payable :: "time \<Rightarrow> payOrder \<Rightarrow> bool" where
  "payable now o1 \<longleftrightarrow> po_Status o1 = OrderStatusPending \<or> po_Status o1 = OrderStatusCancelled
     \<or> (po_Status o1 = OrderStatusExpired \<and> \<not> t_before (po_UpdatedAt o1) (now - paymentGrace))"

definition leasable :: "time \<Rightarrow> payOrder \<Rightarrow> bool" where
  "leasable now o1 \<longleftrightarrow> po_Status o1 = OrderStatusPaid \<or> po_Status o1 = OrderStatusFailed
     \<or> (po_Status o1 = OrderStatusRecharging
        \<and> \<not> t_after (po_UpdatedAt o1) (now - paymentFulfillmentLeaseDuration))"

definition leasedBy :: "time \<Rightarrow> payOrder \<Rightarrow> bool" where
  "leasedBy version o1 \<longleftrightarrow> po_Status o1 = OrderStatusRecharging \<and> po_UpdatedAt o1 = version"

definition paymentSubscriptionOrderNote :: "int \<Rightarrow> string" where
  "paymentSubscriptionOrderNote oid = ''payment order '' @ itoa oid"

fun dropCR :: "string \<Rightarrow> string" where
  "dropCR (a # b # s) =
     (if a = char_of (13::nat) \<and> b = char_of (10::nat) then b # dropCR s else a # dropCR (b # s))"
| "dropCR s = s"

definition hasPaymentSubscriptionOrderNote :: "string \<Rightarrow> string \<Rightarrow> bool" where
  "hasPaymentSubscriptionOrderNote notes orderNote \<longleftrightarrow>
     (\<exists>line\<in>set (split_char (char_of (10::nat)) (dropCR notes)). trim_space line = orderNote)"

definition assignmentAudited :: "int \<Rightarrow> payDB \<Rightarrow> bool" where
  "assignmentAudited oid d \<longleftrightarrow>
     (oid, ''SUBSCRIPTION_ASSIGNED'') \<in> set (pd_audit d) \<or> (oid, ''SUBSCRIPTION_SUCCESS'') \<in> set (pd_audit d)"

text \<open>The transaction of \<open>ensurePaymentSubscriptionAssigned\<close>: unless the order's assignment is in the
audit log, the term is granted (or found granted by its note) and the audit line written.\<close>

definition assignTx :: "payEnv \<Rightarrow> int \<Rightarrow> int \<Rightarrow> int \<Rightarrow> int \<Rightarrow> payDB \<Rightarrow> payReply \<times> payDB" where
  "assignTx E oid uid gid days d =
    (if assignmentAudited oid d then (ROk, d)
     else
       (let note = paymentSubscriptionOrderNote oid;
            recovered = (case m_get (pd_notes d) (uid, gid) of
                           None \<Rightarrow> False | Some notes \<Rightarrow> hasPaymentSubscriptionOrderNote notes note);
            d1 = (if recovered then d
                  else d\<lparr>pd_granted := (oid, uid, gid, days) # pd_granted d,
                         pd_notes := m_set (pd_notes d) (uid, gid)
                           (case m_get (pd_notes d) (uid, gid) of None \<Rightarrow> note | Some old \<Rightarrow> pe_JoinNotes E old note)\<rparr>)
        in (ROk, d1\<lparr>pd_audit := (oid, ''SUBSCRIPTION_ASSIGNED'') # pd_audit d1\<rparr>)))"

text \<open>The transaction of \<open>applyAffiliateRebateForOrder\<close>: the claim is an audit line, the rebate is
accrued under it, and the line becomes \<open>SKIPPED\<close> when there is nothing to accrue.\<close>

definition rebateClaimed :: "int \<Rightarrow> payDB \<Rightarrow> bool" where
  "rebateClaimed oid d \<longleftrightarrow>
     (oid, ''AFFILIATE_REBATE_APPLIED'') \<in> set (pd_audit d) \<or> (oid, ''AFFILIATE_REBATE_SKIPPED'') \<in> set (pd_audit d)"

definition rebateTx :: "payEnv \<Rightarrow> int \<Rightarrow> int \<Rightarrow> int \<Rightarrow> payDB \<Rightarrow> payReply \<times> payDB" where
  "rebateTx E oid uid base d =
    (if rebateClaimed oid d then (ROk, d)
     else (let rebate = pe_Rebate E uid base
           in if rebate \<le> 0
              then (ROk, d\<lparr>pd_audit := (oid, ''AFFILIATE_REBATE_SKIPPED'') # pd_audit d\<rparr>)
              else (ROk, d\<lparr>pd_audit := (oid, ''AFFILIATE_REBATE_APPLIED'') # pd_audit d,
                           pd_rebates := (oid, rebate) # pd_rebates d\<rparr>)))"

text \<open>The transaction of \<open>redeem\<close> for a balance code: \<open>Use\<close> marks the code, \<open>UpdateBalance\<close> credits.\<close>

definition redeemTx :: "int \<Rightarrow> int \<Rightarrow> int \<Rightarrow> payDB \<Rightarrow> payReply \<times> payDB" where
  "redeemTx codeID uid amount d =
    (case find (\<lambda>c. rc_ID c = codeID \<and> rc_Status c = StatusUnused) (pd_codes d) of
       None \<Rightarrow> (RUsed, d)
     | Some c \<Rightarrow>
         (case m_get (pd_balances d) uid of
            None \<Rightarrow> (RNotFound, d)
          | Some b \<Rightarrow>
              (ROk, d\<lparr>pd_codes := map (\<lambda>c. if rc_ID c = codeID \<and> rc_Status c = StatusUnused
                                           then c\<lparr>rc_Status := StatusUsed, rc_UsedBy := Some uid\<rparr> else c) (pd_codes d),
                      pd_balances := m_set (pd_balances d) uid (if amount < 0 then max (b + amount) 0 else b + amount),
                      pd_credits := (rc_Code c, uid, amount) # pd_credits d\<rparr>)))"

fun runStmt :: "payEnv \<Rightarrow> payStmt \<Rightarrow> payDB \<Rightarrow> payReply \<times> payDB" where
  "runStmt E (GetOrder oid) d =
     (case orderByID oid d of None \<Rightarrow> RNotFound | Some o1 \<Rightarrow> ROrder o1, d)"
| "runStmt E (FindOrder tradeNo) d =
     (case find (\<lambda>o1. po_OutTradeNo o1 = tradeNo) (pd_orders d) of None \<Rightarrow> RNotFound | Some o1 \<Rightarrow> ROrder o1, d)"
| "runStmt E (MarkPaid oid tradeNo paid) d =
     updateOrder oid (payable (pd_now d))
       (\<lambda>o1. o1\<lparr>po_Status := OrderStatusPaid, po_PayAmount := paid, po_PaymentTradeNo := tradeNo,
                po_PaidAt := Some (pd_now d), po_FailedReason := None\<rparr>) d"
| "runStmt E (AcquireLease oid) d =
     updateOrder oid (leasable (pd_now d))
       (\<lambda>o1. o1\<lparr>po_Status := OrderStatusRecharging, po_FailedReason := None\<rparr>) d"
| "runStmt E (MarkCompleted oid version) d =
     updateOrder oid (leasedBy version)
       (\<lambda>o1. o1\<lparr>po_Status := OrderStatusCompleted, po_CompletedAt := Some (pd_now d)\<rparr>) d"
| "runStmt E (MarkFailed oid version reason) d =
     updateOrder oid (leasedBy version)
       (\<lambda>o1. o1\<lparr>po_Status := OrderStatusFailed, po_FailedReason := Some reason\<rparr>) d"
| "runStmt E (SetIfPending oid status) d =
     updateOrder oid (\<lambda>o1. po_Status o1 = OrderStatusPending) (\<lambda>o1. o1\<lparr>po_Status := status\<rparr>) d"
| "runStmt E (SetTradeNo oid tradeNo) d =
     updateOrder oid (\<lambda>o1. True) (\<lambda>o1. o1\<lparr>po_PaymentTradeNo := tradeNo\<rparr>) d"
| "runStmt E (GetCode code) d =
     (case find (\<lambda>c. rc_Code c = code) (pd_codes d) of None \<Rightarrow> RNotFound | Some c \<Rightarrow> RCode c, d)"
| "runStmt E (CreateRedeemCode c) d =
     (if find (\<lambda>x. rc_Code x = rc_Code c) (pd_codes d) \<noteq> None then (RError, d)
      else (ROk, d\<lparr>pd_codes := pd_codes d @ [c\<lparr>rc_ID := pd_nextCode d\<rparr>], pd_nextCode := pd_nextCode d + 1\<rparr>))"
| "runStmt E (GetUser uid) d = (if m_get (pd_balances d) uid = None then RNotFound else ROk, d)"
| "runStmt E (RedeemTx codeID uid amount) d = redeemTx codeID uid amount d"
| "runStmt E (GetGroup gid) d = (case m_get (pd_groups d) gid of None \<Rightarrow> RNotFound | Some s \<Rightarrow> RString s, d)"
| "runStmt E (AssignTx oid uid gid days) d = assignTx E oid uid gid days d"
| "runStmt E (RebateTx oid uid base) d = rebateTx E oid uid base d"
| "runStmt E (HasAudit oid action) d = (RCount (if (oid, action) \<in> set (pd_audit d) then 1 else 0), d)"
| "runStmt E (WriteAudit oid action) d =
     (if (oid, action) \<in> set (pd_audit d) then (RError, d)
      else (ROk, d\<lparr>pd_audit := (oid, action) # pd_audit d\<rparr>))"
| "runStmt E ReadClock d = (RTime (pd_now d), d)"
| "runStmt E (RedeemLock code) d = (ROk, d)"

section \<open>Flows\<close>

text \<open>A flow ends with the error it returns, if any. Errors are their codes or messages; a wrapped
cause is left out.\<close>

datatype prog = Done "string option" | Do payStmt "payReply \<Rightarrow> prog"

abbreviation succeed :: prog where "succeed \<equiv> Done None"
abbreviation fail :: "string \<Rightarrow> prog" where "fail e \<equiv> Done (Some e)"

text \<open>\<open>writeAuditLog\<close> ignores its outcome.\<close>

definition writeAuditLog :: "int \<Rightarrow> string \<Rightarrow> prog \<Rightarrow> prog" where
  "writeAuditLog oid action k = Do (WriteAudit oid action) (\<lambda>_. k)"

text \<open>\<open>redeem\<close> for a balance code. A Redis failure counts as a held lock taken, as in the code; a
lock held elsewhere answers anything but \<open>ROk\<close>.\<close>

definition redeem :: "int \<Rightarrow> string \<Rightarrow> (string \<Rightarrow> prog) \<Rightarrow> prog \<Rightarrow> prog" where
  "redeem uid code kerr kok =
    Do (RedeemLock code) (\<lambda>r0. if r0 \<noteq> ROk then kerr ''REDEEM_CODE_LOCKED'' else
    Do (GetCode code) (\<lambda>r. case r of
      RNotFound \<Rightarrow> kerr ''REDEEM_CODE_NOT_FOUND''
    | RCode c \<Rightarrow>
        Do ReadClock (\<lambda>t. case t of
          RTime now \<Rightarrow>
            (if IsExpiredAt c now then kerr ''REDEEM_CODE_EXPIRED''
             else if \<not> CanUse c now then kerr ''REDEEM_CODE_USED''
             else if rc_Type c \<noteq> RedeemTypeBalance then kerr ''UNSUPPORTED_REDEEM_TYPE''
             else
               Do (GetUser uid) (\<lambda>u. if u \<noteq> ROk then kerr ''get user'' else
               Do (RedeemTx (rc_ID c) uid (rc_Value c)) (\<lambda>x. case x of
                   ROk \<Rightarrow> kok
                 | RUsed \<Rightarrow> kerr ''REDEEM_CODE_USED''
                 | RNotFound \<Rightarrow> kerr ''update user balance''
                 | _ \<Rightarrow> kerr ''redeem transaction'')))
        | _ \<Rightarrow> kerr ''clock'')
    | _ \<Rightarrow> kerr ''get redeem code''))"

definition CreateCode :: "redeemCode \<Rightarrow> (string \<Rightarrow> prog) \<Rightarrow> prog \<Rightarrow> prog" where
  "CreateCode c0 kerr kok =
    (let c = c0\<lparr>rc_Code := trim_space (rc_Code c0)\<rparr>
     in if rc_Code c = [] then kerr ''code is required''
        else if rc_Value c = 0 then kerr ''value must not be zero''
        else Do (CreateRedeemCode c) (\<lambda>r. if r = ROk then kok else kerr ''create redeem code''))"

datatype redeemAction = RedeemActionCreate | RedeemActionRedeem | RedeemActionSkipCompleted

text \<open>The lookup is the reply of \<open>GetCode\<close>.\<close>

definition resolveRedeemAction :: "payReply \<Rightarrow> string + redeemAction" where
  "resolveRedeemAction lookup =
    (case lookup of
       RNotFound \<Rightarrow> Inr RedeemActionCreate
     | RCode existing \<Rightarrow> if IsUsed existing then Inr RedeemActionSkipCompleted else Inr RedeemActionRedeem
     | _ \<Rightarrow> Inl ''lookup payment redeem code'')"

definition validatePaymentRedeemCode :: "payOrder \<Rightarrow> redeemCode \<Rightarrow> string option" where
  "validatePaymentRedeemCode o1 code =
    (if rc_Code code \<noteq> po_RechargeCode o1 then Some ''payment redeem code mismatch''
     else if rc_Type code \<noteq> RedeemTypeBalance then Some ''payment redeem code type mismatch''
     else if 1 < \<bar>rc_Value code - po_Amount o1\<bar> then Some ''payment redeem code amount mismatch''
     else if rc_Status code = StatusUnused then
       (if rc_UsedBy code \<noteq> None then Some ''unused payment redeem code has a user'' else None)
     else if rc_Status code = StatusUsed then
       (if rc_UsedBy code \<noteq> Some (po_UserID o1) then Some ''payment redeem code user mismatch'' else None)
     else Some ''payment redeem code has invalid status'')"

definition affiliateRebateBaseAmount :: "payOrder \<Rightarrow> int" where
  "affiliateRebateBaseAmount o1 =
    (if po_OrderType o1 = OrderTypeBalance \<or> po_OrderType o1 = OrderTypeSubscription then po_Amount o1 else 0)"

definition applyAffiliateRebateForOrder :: "payOrder \<Rightarrow> (string \<Rightarrow> prog) \<Rightarrow> prog \<Rightarrow> prog" where
  "applyAffiliateRebateForOrder o1 kerr kok =
    (let base = affiliateRebateBaseAmount o1
     in if base \<le> 0 then kok
        else Do (RebateTx (po_ID o1) (po_UserID o1) base) (\<lambda>r.
          if r = ROk then kok
          else writeAuditLog (po_ID o1) ''AFFILIATE_REBATE_FAILED'' (kerr ''affiliate rebate'')))"

definition markCompleted :: "payOrder \<Rightarrow> time \<Rightarrow> string \<Rightarrow> (string \<Rightarrow> prog) \<Rightarrow> prog" where
  "markCompleted o1 version auditAction kerr =
    Do (MarkCompleted (po_ID o1) version) (\<lambda>r. case r of
      RCount n \<Rightarrow>
        if n = 0 then
          Do (GetOrder (po_ID o1)) (\<lambda>r2. case r2 of
            ROrder current \<Rightarrow> if po_Status current = OrderStatusCompleted then succeed else kerr ''CONFLICT''
          | _ \<Rightarrow> kerr ''CONFLICT'')
        else
          Do (HasAudit (po_ID o1) auditAction) (\<lambda>r3. case r3 of
            RCount c \<Rightarrow> if c > 0 then succeed else writeAuditLog (po_ID o1) auditAction succeed
          | _ \<Rightarrow> writeAuditLog (po_ID o1) auditAction succeed)
    | _ \<Rightarrow> kerr ''mark completed'')"

definition markFailed :: "int \<Rightarrow> time \<Rightarrow> string \<Rightarrow> prog" where
  "markFailed oid version cause =
    Do (MarkFailed oid version cause) (\<lambda>r. case r of
      RCount n \<Rightarrow> if n > 0 then writeAuditLog oid ''FULFILLMENT_FAILED'' (fail cause) else fail cause
    | _ \<Rightarrow> fail cause)"

definition doBalance :: "payOrder \<Rightarrow> time \<Rightarrow> (string \<Rightarrow> prog) \<Rightarrow> prog" where
  "doBalance o1 version kerr =
    Do (GetCode (po_RechargeCode o1)) (\<lambda>lookup.
      case resolveRedeemAction lookup of
        Inl e \<Rightarrow> kerr e
      | Inr action \<Rightarrow>
          (case (case lookup of RCode existing \<Rightarrow> validatePaymentRedeemCode o1 existing | _ \<Rightarrow> None) of
             Some e \<Rightarrow> kerr e
           | None \<Rightarrow>
               (let finish = applyAffiliateRebateForOrder o1 kerr
                      (markCompleted o1 version ''RECHARGE_SUCCESS'' kerr);
                    credit = redeem (po_UserID o1) (po_RechargeCode o1) kerr finish
                in case action of
                     RedeemActionSkipCompleted \<Rightarrow> finish
                   | RedeemActionCreate \<Rightarrow>
                       CreateCode \<lparr>rc_ID = 0, rc_Code = po_RechargeCode o1, rc_Type = RedeemTypeBalance,
                          rc_Value = po_Amount o1, rc_Status = StatusUnused, rc_UsedBy = None,
                          rc_ExpiresAt = None\<rparr> kerr credit
                   | RedeemActionRedeem \<Rightarrow> credit)))"

definition acquirePaymentFulfillmentLease :: "payOrder \<Rightarrow> (time \<Rightarrow> prog) \<Rightarrow> prog" where
  "acquirePaymentFulfillmentLease o1 k =
    Do (AcquireLease (po_ID o1)) (\<lambda>r. case r of
      RCount n \<Rightarrow>
        if n = 0 then
          Do (GetOrder (po_ID o1)) (\<lambda>r2. case r2 of
            ROrder current \<Rightarrow>
              if po_Status current = OrderStatusCompleted then succeed else fail ''CONFLICT''
          | _ \<Rightarrow> fail ''reload fulfillment lease'')
        else
          Do (GetOrder (po_ID o1)) (\<lambda>r2. case r2 of
            ROrder claimed \<Rightarrow>
              if po_Status claimed \<noteq> OrderStatusRecharging then fail ''CONFLICT'' else k (po_UpdatedAt claimed)
          | _ \<Rightarrow> fail ''reload acquired fulfillment lease'')
    | _ \<Rightarrow> fail ''acquire fulfillment lease'')"

text \<open>The checks both fulfilments start with.\<close>

definition fulfillable :: "payOrder \<Rightarrow> prog \<Rightarrow> prog" where
  "fulfillable o1 k =
    (if po_Status o1 = OrderStatusCompleted then succeed
     else if psIsRefundStatus (po_Status o1) then fail ''INVALID_STATUS''
     else if po_Status o1 \<noteq> OrderStatusPaid \<and> po_Status o1 \<noteq> OrderStatusFailed
             \<and> po_Status o1 \<noteq> OrderStatusRecharging then fail ''INVALID_STATUS''
     else k)"

definition ExecuteBalanceFulfillment :: "int \<Rightarrow> prog" where
  "ExecuteBalanceFulfillment oid =
    Do (GetOrder oid) (\<lambda>r. case r of
      ROrder o1 \<Rightarrow> fulfillable o1
        (acquirePaymentFulfillmentLease o1 (\<lambda>version. doBalance o1 version (markFailed oid version)))
    | _ \<Rightarrow> fail ''NOT_FOUND'')"

definition ensurePaymentSubscriptionAssigned :: "payOrder \<Rightarrow> int \<Rightarrow> int \<Rightarrow> (string \<Rightarrow> prog) \<Rightarrow> prog \<Rightarrow> prog" where
  "ensurePaymentSubscriptionAssigned o1 gid days kerr kok =
    Do (AssignTx (po_ID o1) (po_UserID o1) gid days) (\<lambda>r.
      if r = ROk then kok else kerr ''subscription fulfillment tx'')"

definition doSub :: "payOrder \<Rightarrow> int \<Rightarrow> int \<Rightarrow> time \<Rightarrow> (string \<Rightarrow> prog) \<Rightarrow> prog" where
  "doSub o1 gid days version kerr =
    Do (GetGroup gid) (\<lambda>g.
      if g \<noteq> RString ''active'' then kerr ''group no longer exists or inactive''
      else ensurePaymentSubscriptionAssigned o1 gid days kerr
        (applyAffiliateRebateForOrder o1 kerr (markCompleted o1 version ''SUBSCRIPTION_SUCCESS'' kerr)))"

definition ExecuteSubscriptionFulfillment :: "int \<Rightarrow> prog" where
  "ExecuteSubscriptionFulfillment oid =
    Do (GetOrder oid) (\<lambda>r. case r of
      ROrder o1 \<Rightarrow> fulfillable o1
        (case (po_SubscriptionGroupID o1, po_SubscriptionDays o1) of
           (Some gid, Some days) \<Rightarrow>
             acquirePaymentFulfillmentLease o1 (\<lambda>version. doSub o1 gid days version (markFailed oid version))
         | _ \<Rightarrow> fail ''INVALID_STATUS'')
    | _ \<Rightarrow> fail ''NOT_FOUND'')"

definition executeFulfillment :: "int \<Rightarrow> prog" where
  "executeFulfillment oid =
    Do (GetOrder oid) (\<lambda>r. case r of
      ROrder o1 \<Rightarrow> if po_OrderType o1 = OrderTypeSubscription then ExecuteSubscriptionFulfillment oid
                   else ExecuteBalanceFulfillment oid
    | _ \<Rightarrow> fail ''get order'')"

definition RetryFulfillment :: "int \<Rightarrow> prog" where
  "RetryFulfillment oid =
    Do (GetOrder oid) (\<lambda>r. case r of
      ROrder o1 \<Rightarrow>
        if po_PaidAt o1 = None then fail ''INVALID_STATUS''
        else if psIsRefundStatus (po_Status o1) then fail ''INVALID_STATUS''
        else if po_Status o1 = OrderStatusCompleted then fail ''INVALID_STATUS''
        else if po_Status o1 \<noteq> OrderStatusFailed \<and> po_Status o1 \<noteq> OrderStatusPaid
                \<and> po_Status o1 \<noteq> OrderStatusRecharging then fail ''INVALID_STATUS''
        else writeAuditLog oid ''RECHARGE_RETRY'' (executeFulfillment oid)
    | _ \<Rightarrow> fail ''NOT_FOUND'')"

section \<open>Notifications\<close>

datatype providerAmount = NotANumber | Infinite bool | Amount int

record notification =
  nt_TradeNo :: string
  nt_OrderID :: string
  nt_Amount :: providerAmount
  nt_Status :: string
  nt_Metadata :: "(string, string) gomap"

definition isValidProviderAmount :: "providerAmount \<Rightarrow> bool" where
  "isValidProviderAmount a = (case a of Amount n \<Rightarrow> 0 < n | _ \<Rightarrow> False)"

text \<open>\<open>math.Pow10(-minorUnit) / 2\<close> in units of 1e-8.\<close>

definition paymentAmountToleranceForCurrency :: "int \<Rightarrow> int" where
  "paymentAmountToleranceForCurrency minorUnit =
    (if minorUnit \<le> 2 then 1000000 else 10 ^ 8 div 10 ^ nat minorUnit div 2)"

definition expectedNotificationProviderKey :: "string \<Rightarrow> string \<Rightarrow> string \<Rightarrow> string \<Rightarrow> string" where
  "expectedNotificationProviderKey registryKey orderPaymentType orderProviderKey instanceProviderKey =
    (if trim_space instanceProviderKey \<noteq> [] then trim_space instanceProviderKey
     else if trim_space orderProviderKey \<noteq> [] then trim_space orderProviderKey
     else if trim_space registryKey \<noteq> [] then trim_space registryKey
     else trim_space orderPaymentType)"

definition alreadyProcessed :: "payOrder \<Rightarrow> prog" where
  "alreadyProcessed o1 =
    Do (GetOrder (po_ID o1)) (\<lambda>r. case r of
      ROrder cur \<Rightarrow>
        if po_Status cur = OrderStatusCompleted \<or> po_Status cur = OrderStatusRefunded then succeed
        else if po_Status cur = OrderStatusFailed \<or> po_Status cur = OrderStatusPaid
                \<or> po_Status cur = OrderStatusRecharging then executeFulfillment (po_ID o1)
        else if po_Status cur = OrderStatusExpired then writeAuditLog (po_ID o1) ''PAYMENT_AFTER_EXPIRY'' succeed
        else succeed
    | _ \<Rightarrow> succeed)"

definition toPaid :: "payOrder \<Rightarrow> string \<Rightarrow> int \<Rightarrow> prog" where
  "toPaid o1 tradeNo paid =
    Do (MarkPaid (po_ID o1) tradeNo paid) (\<lambda>r. case r of
      RCount c \<Rightarrow>
        if c = 0 then alreadyProcessed o1
        else
          (let rest = writeAuditLog (po_ID o1) ''ORDER_PAID'' (executeFulfillment (po_ID o1))
           in if po_Status o1 = OrderStatusCancelled \<or> po_Status o1 = OrderStatusExpired
              then writeAuditLog (po_ID o1) ''ORDER_RECOVERED'' rest else rest)
    | _ \<Rightarrow> fail ''update to PAID'')"

definition confirmPayment ::
  "payEnv \<Rightarrow> int \<Rightarrow> string \<Rightarrow> providerAmount \<Rightarrow> string \<Rightarrow> (string, string) gomap \<Rightarrow> prog" where
  "confirmPayment E oid tradeNo paid pk metadata =
    Do (GetOrder oid) (\<lambda>r. case r of
      ROrder o1 \<Rightarrow>
        (let expected = expectedNotificationProviderKey (pe_RegistryKey E (po_PaymentType o1)) (po_PaymentType o1)
               (pe_OrderKey E o1) (pe_InstanceKey E o1)
         in if expected \<noteq> [] \<and> trim_space pk \<noteq> [] \<and> \<not> equal_fold expected (trim_space pk)
            then writeAuditLog oid ''PAYMENT_PROVIDER_MISMATCH'' (fail ''provider mismatch'')
            else if \<not> pe_MetadataOK E o1 pk metadata
            then writeAuditLog oid ''PAYMENT_PROVIDER_METADATA_MISMATCH'' (fail ''metadata mismatch'')
            else (case paid of
                Amount n \<Rightarrow>
                  if \<not> isValidProviderAmount paid
                  then writeAuditLog oid ''PAYMENT_INVALID_AMOUNT'' (fail ''invalid paid amount'')
                  else if paymentAmountToleranceForCurrency (pe_MinorUnit E o1) < \<bar>n - po_PayAmount o1\<bar>
                  then writeAuditLog oid ''PAYMENT_AMOUNT_MISMATCH'' (fail ''amount mismatch'')
                  else toPaid o1 tradeNo n
              | _ \<Rightarrow> writeAuditLog oid ''PAYMENT_INVALID_AMOUNT'' (fail ''invalid paid amount'')))
    | _ \<Rightarrow> succeed)"

definition parseLegacyPaymentOrderID :: "string \<Rightarrow> int option" where
  "parseLegacyPaymentOrderID orderID0 =
    (let orderID = trim_space orderID0
     in if \<not> has_prefix orderID ''sub2_'' then None
        else (let trimmed = trim_prefix orderID ''sub2_''
              in if trimmed = [] \<or> trimmed = orderID then None
                 else (case parse_int trimmed of None \<Rightarrow> None | Some oid \<Rightarrow> if oid \<le> 0 then None else Some oid)))"

definition HandlePaymentNotification :: "payEnv \<Rightarrow> notification \<Rightarrow> string \<Rightarrow> prog" where
  "HandlePaymentNotification E n pk =
    (if nt_Status n \<noteq> ''success'' then succeed
     else Do (FindOrder (nt_OrderID n)) (\<lambda>r. case r of
       ROrder o1 \<Rightarrow> confirmPayment E (po_ID o1) (nt_TradeNo n) (nt_Amount n) pk (nt_Metadata n)
     | RNotFound \<Rightarrow>
         (case parseLegacyPaymentOrderID (nt_OrderID n) of
            Some oid \<Rightarrow> confirmPayment E oid (nt_TradeNo n) (nt_Amount n) pk (nt_Metadata n)
          | None \<Rightarrow> fail ''payment order not found'')
     | _ \<Rightarrow> fail ''lookup order failed''))"

section \<open>Cancellation and expiry\<close>

text \<open>What the provider answered when the order was looked up there, if it was: the trade number,
the amount and whether the order is paid. A second query, made when the amount is unusable, has
an answer of its own.\<close>

record queryReply =
  qr_Paid :: bool
  qr_TradeNo :: string
  qr_Amount :: providerAmount
  qr_Metadata :: "(string, string) gomap"

definition paymentOrderShouldPersistUpstreamTradeNo :: "string \<Rightarrow> string \<Rightarrow> string \<Rightarrow> bool" where
  "paymentOrderShouldPersistUpstreamTradeNo queryRef upstreamTradeNo0 currentTradeNo =
    (let upstreamTradeNo = trim_space upstreamTradeNo0
     in if upstreamTradeNo = [] then False
        else if equal_fold upstreamTradeNo (trim_space currentTradeNo) then False
        else if equal_fold upstreamTradeNo (trim_space queryRef) then False
        else True)"

text \<open>\<open>requeryPaidOrderOnce\<close>, on the answer of its query.\<close>

definition requeryPaidOrderOnce :: "queryReply option \<Rightarrow> queryReply option" where
  "requeryPaidOrderOnce retry =
    (case retry of
       None \<Rightarrow> None
     | Some q \<Rightarrow> if \<not> qr_Paid q \<or> \<not> isValidProviderAmount (qr_Amount q) then None else Some q)"

text \<open>The handling of a notification inside \<open>checkPaid\<close>, whose error is only logged.\<close>

primrec ignoreError :: "prog \<Rightarrow> prog \<Rightarrow> prog" where
  "ignoreError (Done e) k = k"
| "ignoreError (Do s c) k = Do s (\<lambda>r. ignoreError (c r) k)"

definition settlePaid :: "payEnv \<Rightarrow> payOrder \<Rightarrow> string \<Rightarrow> string \<Rightarrow> queryReply \<Rightarrow> prog \<Rightarrow> prog" where
  "settlePaid E o1 pk queryRef q k =
    (let upstream = trim_space (qr_TradeNo q);
         notify = (\<lambda>tradeNo. ignoreError (HandlePaymentNotification E
           \<lparr>nt_TradeNo = tradeNo, nt_OrderID = po_OutTradeNo o1, nt_Amount = qr_Amount q,
            nt_Status = ''success'', nt_Metadata = qr_Metadata q\<rparr> pk) k)
     in if paymentOrderShouldPersistUpstreamTradeNo queryRef upstream (po_PaymentTradeNo o1)
        then Do (SetTradeNo (po_ID o1) upstream) (\<lambda>_. notify upstream)
        else notify (po_PaymentTradeNo o1))"

definition checkPaid ::
  "payEnv \<Rightarrow> payOrder \<Rightarrow> string \<Rightarrow> string \<Rightarrow> queryReply option \<Rightarrow> queryReply option \<Rightarrow> prog \<Rightarrow> prog \<Rightarrow> prog" where
  "checkPaid E o1 pk queryRef response retry kpaid kother =
    (case response of
       None \<Rightarrow> kother
     | Some q \<Rightarrow>
         if \<not> qr_Paid q then kother
         else if isValidProviderAmount (qr_Amount q) then settlePaid E o1 pk queryRef q kpaid
         else writeAuditLog (po_ID o1) ''PAYMENT_INVALID_AMOUNT''
           (case requeryPaidOrderOnce retry of
              None \<Rightarrow> kother
            | Some q2 \<Rightarrow> settlePaid E o1 pk queryRef q2 kpaid))"

definition cancelCore ::
  "payEnv \<Rightarrow> payOrder \<Rightarrow> string \<Rightarrow> string \<Rightarrow> string \<Rightarrow> queryReply option \<Rightarrow> queryReply option \<Rightarrow> prog" where
  "cancelCore E o1 fs pk queryRef response retry =
    (let cancel = Do (SetIfPending (po_ID o1) fs) (\<lambda>r. case r of
           RCount c \<Rightarrow>
             if c > 0 then writeAuditLog (po_ID o1)
               (if fs = OrderStatusExpired then ''ORDER_EXPIRED'' else ''ORDER_CANCELLED'') succeed
             else succeed
         | _ \<Rightarrow> fail ''update order status'')
     in if po_PaymentTradeNo o1 \<noteq> [] \<or> po_PaymentType o1 \<noteq> []
        then checkPaid E o1 pk queryRef response retry succeed cancel
        else cancel)"

definition CancelOrder ::
  "payEnv \<Rightarrow> int \<Rightarrow> int \<Rightarrow> string \<Rightarrow> string \<Rightarrow> queryReply option \<Rightarrow> queryReply option \<Rightarrow> prog" where
  "CancelOrder E oid uid pk queryRef response retry =
    Do (GetOrder oid) (\<lambda>r. case r of
      ROrder o1 \<Rightarrow>
        if po_UserID o1 \<noteq> uid then fail ''FORBIDDEN''
        else if po_Status o1 \<noteq> OrderStatusPending then fail ''INVALID_STATUS''
        else cancelCore E o1 OrderStatusCancelled pk queryRef response retry
    | _ \<Rightarrow> fail ''NOT_FOUND'')"

definition AdminCancelOrder ::
  "payEnv \<Rightarrow> int \<Rightarrow> string \<Rightarrow> string \<Rightarrow> queryReply option \<Rightarrow> queryReply option \<Rightarrow> prog" where
  "AdminCancelOrder E oid pk queryRef response retry =
    Do (GetOrder oid) (\<lambda>r. case r of
      ROrder o1 \<Rightarrow>
        if po_Status o1 \<noteq> OrderStatusPending then fail ''INVALID_STATUS''
        else cancelCore E o1 OrderStatusCancelled pk queryRef response retry
    | _ \<Rightarrow> fail ''NOT_FOUND'')"

text \<open>One order of \<open>ExpireTimedOutOrders\<close>.\<close>

definition expireOrder ::
  "payEnv \<Rightarrow> payOrder \<Rightarrow> string \<Rightarrow> string \<Rightarrow> queryReply option \<Rightarrow> queryReply option \<Rightarrow> prog" where
  "expireOrder E o1 pk queryRef response retry =
     cancelCore E o1 OrderStatusExpired pk queryRef response retry"

definition normalizeOrderLookupOutTradeNo :: "string \<Rightarrow> string option" where
  "normalizeOrderLookupOutTradeNo raw =
    (let outTradeNo = trim_space raw;
         allowed = (\<lambda>c. let n = char_code c in
            97 \<le> n \<and> n \<le> 122 \<or> 65 \<le> n \<and> n \<le> 90 \<or> 48 \<le> n \<and> n \<le> 57 \<or> n = 95 \<or> n = 45)
     in if outTradeNo = [] \<or> 64 < length outTradeNo \<or> \<not> list_all allowed outTradeNo then None
        else Some outTradeNo)"

definition VerifyOrderByOutTradeNo ::
  "payEnv \<Rightarrow> string \<Rightarrow> int \<Rightarrow> string \<Rightarrow> string \<Rightarrow> queryReply option \<Rightarrow> queryReply option \<Rightarrow> prog" where
  "VerifyOrderByOutTradeNo E raw uid pk queryRef response retry =
    (case normalizeOrderLookupOutTradeNo raw of
       None \<Rightarrow> fail ''INVALID_OUT_TRADE_NO''
     | Some outTradeNo \<Rightarrow>
         Do (FindOrder outTradeNo) (\<lambda>r. case r of
           ROrder o1 \<Rightarrow>
             if po_UserID o1 \<noteq> uid then fail ''FORBIDDEN''
             else if po_Status o1 = OrderStatusPending \<or> po_Status o1 = OrderStatusExpired
             then checkPaid E o1 pk queryRef response retry
               (Do (GetOrder (po_ID o1)) (\<lambda>r2. case r2 of ROrder _ \<Rightarrow> succeed | _ \<Rightarrow> fail ''reload order''))
               succeed
             else succeed
         | _ \<Rightarrow> fail ''NOT_FOUND''))"

end
