(* ===== verification/PaymentFacts.thy ===== *)
theory PaymentFacts
  imports PaymentFlow
begin

text \<open>
  Interleaved payment flows move money once: the tables' invariant, what a flow has learned when it
  issues a statement, and the system of flows over one database.
\<close>

section \<open>What a flow knows\<close>

text \<open>The catalogue of orders as they were placed. Facts once true stay true.\<close>

type_synonym catalogue = "int \<Rightarrow> payOrder option"

datatype fact =
    Paid int
  | CodeUsed string int
  | CodeIs int string int
  | Assigned int

fun holds :: "payDB \<Rightarrow> fact \<Rightarrow> bool" where
  "holds d (Paid oid) \<longleftrightarrow> (\<exists>o1\<in>set (pd_orders d). po_ID o1 = oid \<and> po_PaidAt o1 \<noteq> None)"
| "holds d (CodeUsed code uid) \<longleftrightarrow>
     (\<exists>c\<in>set (pd_codes d). rc_Code c = code \<and> rc_Status c = StatusUsed \<and> rc_UsedBy c = Some uid)"
| "holds d (CodeIs i code v) \<longleftrightarrow> (\<exists>c\<in>set (pd_codes d). rc_ID c = i \<and> rc_Code c = code \<and> rc_Value c = v)"
| "holds d (Assigned oid) \<longleftrightarrow> assignmentAudited oid d"

text \<open>An order read from the tables is one of the catalogue, with its own status, times and, once
paid, paid amount.\<close>

definition sameOrder :: "payOrder \<Rightarrow> payOrder \<Rightarrow> bool" where
  "sameOrder c o1 \<longleftrightarrow> po_ID o1 = po_ID c \<and> po_UserID o1 = po_UserID c \<and> po_OrderType o1 = po_OrderType c
     \<and> po_Amount o1 = po_Amount c \<and> po_RechargeCode o1 = po_RechargeCode c \<and> po_OutTradeNo o1 = po_OutTradeNo c
     \<and> po_PaymentType o1 = po_PaymentType c \<and> po_SubscriptionGroupID o1 = po_SubscriptionGroupID c
     \<and> po_SubscriptionDays o1 = po_SubscriptionDays c"

definition unpaidStatus :: "string \<Rightarrow> bool" where
  "unpaidStatus s \<longleftrightarrow> s = OrderStatusPending \<or> s = OrderStatusCancelled \<or> s = OrderStatusExpired"

definition paidStatus :: "string \<Rightarrow> bool" where
  "paidStatus s \<longleftrightarrow> s = OrderStatusPaid \<or> s = OrderStatusRecharging \<or> s = OrderStatusFailed \<or> s = OrderStatusCompleted
     \<or> psIsRefundStatus s"

definition tolerated :: "payOrder \<Rightarrow> int \<Rightarrow> bool" where
  "tolerated c paid \<longleftrightarrow> 0 < paid \<and> \<bar>paid - po_PayAmount c\<bar> \<le> 1000000"

definition order_ok :: "catalogue \<Rightarrow> payOrder \<Rightarrow> bool" where
  "order_ok cat o1 \<longleftrightarrow> (case cat (po_ID o1) of None \<Rightarrow> False | Some c \<Rightarrow> sameOrder c o1 \<and>
     (if po_PaidAt o1 = None then unpaidStatus (po_Status o1) \<and> po_PayAmount o1 = po_PayAmount c
      else paidStatus (po_Status o1) \<and> tolerated c (po_PayAmount o1)))"

text \<open>What the reply to a statement tells, and the replies the tables can give.\<close>

primrec learns :: "fact set \<Rightarrow> payStmt \<Rightarrow> payReply \<Rightarrow> fact set" where
  "learns H s (ROrder o1) = (if po_PaidAt o1 \<noteq> None then {Paid (po_ID o1)} else {})"
| "learns H s (RCode c) = {f. \<exists>code. s = GetCode code \<and> (f = CodeIs (rc_ID c) code (rc_Value c)
     \<or> (rc_Status c = StatusUsed \<and> (\<exists>uid. rc_UsedBy c = Some uid \<and> f = CodeUsed code uid)))}"
| "learns H s (RCount n) = {Paid oid |oid tradeNo paid. s = MarkPaid oid tradeNo paid \<and> 0 < n}"
| "learns H s (RTime t) = {}"
| "learns H s (RString x) = {}"
| "learns H s ROk = {CodeUsed code uid |code uid i v. s = RedeemTx i uid v \<and> CodeIs i code v \<in> H}
     \<union> {Assigned oid |oid uid gid days. s = AssignTx oid uid gid days}"
| "learns H s RNotFound = {}"
| "learns H s RUsed = {}"
| "learns H s RError = {}"

primrec genuine :: "catalogue \<Rightarrow> payStmt \<Rightarrow> payReply \<Rightarrow> bool" where
  "genuine cat s (ROrder o1) \<longleftrightarrow> order_ok cat o1 \<and> (\<forall>oid. s = GetOrder oid \<longrightarrow> po_ID o1 = oid)"
| "genuine cat s (RCode c) \<longleftrightarrow> (\<forall>code. s = GetCode code \<longrightarrow> rc_Code c = code)"
| "genuine cat s (RCount n) \<longleftrightarrow> True"
| "genuine cat s (RTime t) \<longleftrightarrow> True"
| "genuine cat s (RString x) \<longleftrightarrow> True"
| "genuine cat s ROk \<longleftrightarrow> True"
| "genuine cat s RNotFound \<longleftrightarrow> True"
| "genuine cat s RUsed \<longleftrightarrow> True"
| "genuine cat s RError \<longleftrightarrow> True"

definition reservedAction :: "string \<Rightarrow> bool" where
  "reservedAction a \<longleftrightarrow> a = ''SUBSCRIPTION_ASSIGNED'' \<or> a = ''AFFILIATE_REBATE_APPLIED'' \<or> a = ''AFFILIATE_REBATE_SKIPPED''"

text \<open>The fact that entitles a flow to complete an order.\<close>

definition delivered :: "payOrder \<Rightarrow> fact" where
  "delivered c = (if po_OrderType c = OrderTypeSubscription then Assigned (po_ID c)
     else CodeUsed (po_RechargeCode c) (po_UserID c))"

primrec allowed :: "catalogue \<Rightarrow> fact set \<Rightarrow> payStmt \<Rightarrow> bool" where
  "allowed cat H (MarkPaid oid tradeNo paid) \<longleftrightarrow> (\<forall>c. cat oid = Some c \<longrightarrow> tolerated c paid \<or> Paid oid \<in> H)"
| "allowed cat H (MarkCompleted oid v) \<longleftrightarrow> (\<forall>c. cat oid = Some c \<longrightarrow> delivered c \<in> H)"
| "allowed cat H (SetIfPending oid st) \<longleftrightarrow> unpaidStatus st"
| "allowed cat H (CreateRedeemCode x) \<longleftrightarrow> (\<exists>oid c. cat oid = Some c \<and> rc_Code x = po_RechargeCode c
     \<and> rc_Value x = po_Amount c \<and> rc_Status x = StatusUnused \<and> rc_UsedBy x = None
     \<and> rc_Type x = RedeemTypeBalance \<and> rc_ExpiresAt x = None \<and> Paid oid \<in> H)"
| "allowed cat H (RedeemTx i uid v) \<longleftrightarrow> (\<exists>code. CodeIs i code v \<in> H)"
| "allowed cat H (AssignTx oid uid gid days) \<longleftrightarrow> Paid oid \<in> H \<and> (\<exists>c. cat oid = Some c \<and> po_UserID c = uid
     \<and> po_SubscriptionGroupID c = Some gid \<and> po_SubscriptionDays c = Some days)"
| "allowed cat H (RebateTx oid uid base) \<longleftrightarrow> Paid oid \<in> H"
| "allowed cat H (WriteAudit oid a) \<longleftrightarrow> \<not> reservedAction a \<and> (a = ''SUBSCRIPTION_SUCCESS'' \<longrightarrow> Assigned oid \<in> H)"
| "allowed cat H (GetOrder oid) \<longleftrightarrow> True"
| "allowed cat H (FindOrder tradeNo) \<longleftrightarrow> True"
| "allowed cat H (AcquireLease oid) \<longleftrightarrow> True"
| "allowed cat H (MarkFailed oid v reason) \<longleftrightarrow> True"
| "allowed cat H (SetTradeNo oid tradeNo) \<longleftrightarrow> True"
| "allowed cat H (GetCode code) \<longleftrightarrow> True"
| "allowed cat H (GetUser uid) \<longleftrightarrow> True"
| "allowed cat H (GetGroup gid) \<longleftrightarrow> True"
| "allowed cat H (HasAudit oid a) \<longleftrightarrow> True"
| "allowed cat H ReadClock \<longleftrightarrow> True"
| "allowed cat H (RedeemLock code) \<longleftrightarrow> True"

primrec entitled :: "catalogue \<Rightarrow> prog \<Rightarrow> fact set \<Rightarrow> bool" where
  "entitled cat (Done e) H = True"
| "entitled cat (Do s k) H = (allowed cat H s \<and>
     (\<forall>r. genuine cat s r \<longrightarrow> entitled cat (k r) (H \<union> learns H s r)))"

lemma allowed_mono: "allowed cat H s \<Longrightarrow> H \<subseteq> H' \<Longrightarrow> allowed cat H' s"
  by (cases s) auto

lemma learns_mono: "H \<subseteq> H' \<Longrightarrow> learns H s r \<subseteq> learns H' s r"
  by (cases r) auto

lemma entitled_mono: "entitled cat p H \<Longrightarrow> H \<subseteq> H' \<Longrightarrow> entitled cat p H'"
proof (induction p arbitrary: H H')
  case (Do s k)
  have "entitled cat (k r) (H' \<union> learns H' s r)" if g: "genuine cat s r" for r
  proof (rule Do.IH [OF rangeI])
    show "entitled cat (k r) (H \<union> learns H s r)" using Do.prems(1) g by simp
    show "H \<union> learns H s r \<subseteq> H' \<union> learns H' s r"
      using Do.prems(2) learns_mono [OF Do.prems(2), of s r] by blast
  qed
  moreover have "allowed cat H' s" using allowed_mono [OF _ Do.prems(2), of cat s] Do.prems(1) by simp
  ultimately show ?case by simp
qed simp

section \<open>Every flow is entitled to its statements\<close>

lemma entitled_if [intro]: "(b \<Longrightarrow> entitled cat p H) \<Longrightarrow> (\<not> b \<Longrightarrow> entitled cat q H) \<Longrightarrow> entitled cat (if b then p else q) H"
  by simp

lemma entitled_audit:
  "\<not> reservedAction a \<Longrightarrow> a \<noteq> ''SUBSCRIPTION_SUCCESS'' \<or> Assigned oid \<in> H \<Longrightarrow> entitled cat k H
   \<Longrightarrow> entitled cat (writeAuditLog oid a k) H"
  by (auto simp: writeAuditLog_def intro: entitled_mono)

lemma entitled_redeem:
  assumes kerr: "\<And>e H'. H \<subseteq> H' \<Longrightarrow> entitled cat (kerr e) H'"
    and kok: "\<And>H'. H \<subseteq> H' \<Longrightarrow> CodeUsed code uid \<in> H' \<Longrightarrow> entitled cat kok H'"
  shows "entitled cat (redeem uid code kerr kok) H"
  unfolding redeem_def by (auto intro!: kerr kok split: payReply.splits)

lemma entitled_create:
  assumes kerr: "\<And>e H'. H \<subseteq> H' \<Longrightarrow> entitled cat (kerr e) H'" and kok: "\<And>H'. H \<subseteq> H' \<Longrightarrow> entitled cat kok H'"
    and "allowed cat H (CreateRedeemCode (x\<lparr>rc_Code := trim_space (rc_Code x)\<rparr>))"
  shows "entitled cat (CreateCode x kerr kok) H"
  unfolding CreateCode_def Let_def using assms(3) by (auto intro!: kerr kok)

lemma entitled_rebate:
  assumes kerr: "\<And>e H'. H \<subseteq> H' \<Longrightarrow> entitled cat (kerr e) H'" and kok: "\<And>H'. H \<subseteq> H' \<Longrightarrow> entitled cat kok H'"
    and "Paid (po_ID o1) \<in> H"
  shows "entitled cat (applyAffiliateRebateForOrder o1 kerr kok) H"
  unfolding applyAffiliateRebateForOrder_def Let_def
  using assms(3) by (auto intro!: kerr kok entitled_audit simp: reservedAction_def)

lemma entitled_completed:
  assumes kerr: "\<And>e H'. H \<subseteq> H' \<Longrightarrow> entitled cat (kerr e) H'"
    and c: "cat (po_ID o1) = Some c" "po_ID c = po_ID o1" "delivered c \<in> H"
    and a: "\<not> reservedAction a" "a \<noteq> ''SUBSCRIPTION_SUCCESS'' \<or> po_OrderType c = OrderTypeSubscription"
  shows "entitled cat (markCompleted o1 v a kerr) H"
  unfolding markCompleted_def
  using c a by (auto intro!: kerr entitled_audit simp: delivered_def split: payReply.splits)

lemma entitled_failed: "entitled cat (markFailed oid v e) H"
  unfolding markFailed_def by (auto intro!: entitled_audit simp: reservedAction_def split: payReply.splits)

definition cat_ok :: "catalogue \<Rightarrow> bool" where
  "cat_ok cat \<longleftrightarrow> (\<forall>oid c. cat oid = Some c \<longrightarrow> po_ID c = oid \<and> trim_space (po_RechargeCode c) = po_RechargeCode c
     \<and> (\<forall>oid' c'. cat oid' = Some c' \<longrightarrow> po_RechargeCode c' = po_RechargeCode c \<longrightarrow> oid' = oid))"

lemma order_okE:
  assumes "order_ok cat o1" "cat_ok cat"
  obtains c where "cat (po_ID o1) = Some c" "sameOrder c o1" "po_ID c = po_ID o1"
    "trim_space (po_RechargeCode o1) = po_RechargeCode o1"
  using assms by (auto simp: order_ok_def cat_ok_def sameOrder_def split: option.splits)

lemma order_ok_paid:
  assumes "order_ok cat o1"
    and "po_Status o1 = OrderStatusPaid \<or> po_Status o1 = OrderStatusFailed \<or> po_Status o1 = OrderStatusRecharging"
  shows "po_PaidAt o1 \<noteq> None"
  using assms by (auto simp: order_ok_def unpaidStatus_def orderStatuses split: option.splits if_splits)

lemmas codeStatuses = StatusUnused_def StatusUsed_def StatusExpired_def

lemma entitled_doBalance:
  assumes kerr: "\<And>e H'. H \<subseteq> H' \<Longrightarrow> entitled cat (kerr e) H'"
    and ok: "order_ok cat o1" "cat_ok cat" and paid: "Paid (po_ID o1) \<in> H"
    and type: "po_OrderType o1 \<noteq> OrderTypeSubscription"
  shows "entitled cat (doBalance o1 v kerr) H"
proof -
  obtain c where c: "cat (po_ID o1) = Some c" "sameOrder c o1" "po_ID c = po_ID o1"
    "trim_space (po_RechargeCode o1) = po_RechargeCode o1" using ok by (rule order_okE)
  have kerr': "entitled cat (kerr e) H'" if "H \<subseteq> H'" for e H' using that by (rule kerr)
  let ?finish = "applyAffiliateRebateForOrder o1 kerr (markCompleted o1 v ''RECHARGE_SUCCESS'' kerr)"
  let ?credit = "redeem (po_UserID o1) (po_RechargeCode o1) kerr ?finish"
  let ?create = "CreateCode \<lparr>rc_ID = 0, rc_Code = po_RechargeCode o1, rc_Type = RedeemTypeBalance,
      rc_Value = po_Amount o1, rc_Status = StatusUnused, rc_UsedBy = None, rc_ExpiresAt = None\<rparr> kerr ?credit"
  have finish: "entitled cat ?finish H'"
    if "H \<subseteq> H'" "CodeUsed (po_RechargeCode o1) (po_UserID o1) \<in> H'" for H'
  proof (rule entitled_rebate)
    show "Paid (po_ID o1) \<in> H'" using that paid by blast
    show "entitled cat (markCompleted o1 v ''RECHARGE_SUCCESS'' kerr) H''" if s: "H' \<subseteq> H''" for H''
      using c type \<open>H \<subseteq> H'\<close> s that \<open>CodeUsed _ _ \<in> H'\<close>
      by (intro entitled_completed [where c = c] kerr') (auto simp: delivered_def sameOrder_def reservedAction_def)
  qed (use kerr' that in blast)
  have credit: "entitled cat ?credit H'" if "H \<subseteq> H'" for H'
    using that by (intro entitled_redeem kerr' finish) auto
  have create: "entitled cat ?create H'" if "H \<subseteq> H'" for H'
    using that c paid by (intro entitled_create kerr' credit) (auto simp: sameOrder_def)
  have step: "entitled cat (case resolveRedeemAction r of Inl e \<Rightarrow> kerr e | Inr action \<Rightarrow>
      (case (case r of RCode existing \<Rightarrow> validatePaymentRedeemCode o1 existing | _ \<Rightarrow> None) of
         Some e \<Rightarrow> kerr e
       | None \<Rightarrow> (case action of RedeemActionSkipCompleted \<Rightarrow> ?finish
           | RedeemActionCreate \<Rightarrow> ?create | RedeemActionRedeem \<Rightarrow> ?credit)))
      (H \<union> learns H (GetCode (po_RechargeCode o1)) r)" (is "entitled cat (?body r) _") for r
  proof (cases r)
    case (RCode x)
    show ?thesis
    proof (cases "IsUsed x")
      case True
      then show ?thesis
        using RCode by (auto simp: resolveRedeemAction_def validatePaymentRedeemCode_def IsUsed_def codeStatuses intro!: finish kerr')
    next
      case False
      then show ?thesis
        using RCode by (auto simp: resolveRedeemAction_def intro!: credit kerr' split: option.split)
    qed
  qed (auto simp: resolveRedeemAction_def intro!: create kerr')
  show ?thesis unfolding doBalance_def Let_def using step by simp
qed

lemma entitled_doSub:
  assumes kerr: "\<And>e H'. H \<subseteq> H' \<Longrightarrow> entitled cat (kerr e) H'"
    and ok: "order_ok cat o1" "cat_ok cat" and paid: "Paid (po_ID o1) \<in> H"
    and type: "po_OrderType o1 = OrderTypeSubscription"
    and term_sold: "po_SubscriptionGroupID o1 = Some gid" "po_SubscriptionDays o1 = Some days"
  shows "entitled cat (doSub o1 gid days v kerr) H"
proof -
  obtain c where c: "cat (po_ID o1) = Some c" "sameOrder c o1" "po_ID c = po_ID o1" using ok by (rule order_okE)
  have kerr': "entitled cat (kerr e) H'" if "H \<subseteq> H'" for e H' using that by (rule kerr)
  have complete: "entitled cat (markCompleted o1 v ''SUBSCRIPTION_SUCCESS'' kerr) H'"
    if "H \<subseteq> H'" "Assigned (po_ID o1) \<in> H'" for H'
    using c type that
    by (intro entitled_completed [where c = c] kerr') (auto simp: delivered_def sameOrder_def reservedAction_def)
  have finish: "entitled cat (applyAffiliateRebateForOrder o1 kerr
      (markCompleted o1 v ''SUBSCRIPTION_SUCCESS'' kerr)) H'"
    if "H \<subseteq> H'" "Assigned (po_ID o1) \<in> H'" for H'
    using that paid by (intro entitled_rebate complete kerr') auto
  show ?thesis
    unfolding doSub_def ensurePaymentSubscriptionAssigned_def
    using c paid term_sold by (auto intro!: finish kerr' simp: sameOrder_def)
qed

lemma entitled_lease:
  assumes "\<And>v H'. H \<subseteq> H' \<Longrightarrow> entitled cat (k v) H'"
  shows "entitled cat (acquirePaymentFulfillmentLease o1 k) H"
  unfolding acquirePaymentFulfillmentLease_def using assms by (auto split: payReply.splits)

lemma entitled_fulfillable:
  assumes "order_ok cat o1" "po_PaidAt o1 \<noteq> None \<Longrightarrow> entitled cat k H"
  shows "entitled cat (fulfillable o1 k) H"
  using assms order_ok_paid [OF assms(1)] by (auto simp: fulfillable_def)

lemma entitled_balance:
  assumes cat: "cat_ok cat" and sold: "\<And>c. cat oid = Some c \<Longrightarrow> po_OrderType c \<noteq> OrderTypeSubscription"
  shows "entitled cat (ExecuteBalanceFulfillment oid) H"
proof -
  have body: "entitled cat (fulfillable o1
      (acquirePaymentFulfillmentLease o1 (\<lambda>v. doBalance o1 v (markFailed oid v)))) H'"
    if o1: "order_ok cat o1" "po_ID o1 = oid" "po_PaidAt o1 \<noteq> None \<Longrightarrow> Paid oid \<in> H'" for o1 H'
  proof (rule entitled_fulfillable [OF o1(1)], rule entitled_lease)
    fix v H'' assume paid: "po_PaidAt o1 \<noteq> None" and H'': "H' \<subseteq> H''"
    obtain c where "cat (po_ID o1) = Some c" "sameOrder c o1" using o1(1) cat by (rule order_okE)
    then show "entitled cat (doBalance o1 v (markFailed oid v)) H''"
      using o1 paid H'' sold cat by (intro entitled_doBalance entitled_failed) (auto simp: sameOrder_def)
  qed
  show ?thesis unfolding ExecuteBalanceFulfillment_def using body by (auto split: payReply.splits)
qed

lemma entitled_subscription:
  assumes cat: "cat_ok cat" and sold: "\<And>c. cat oid = Some c \<Longrightarrow> po_OrderType c = OrderTypeSubscription"
  shows "entitled cat (ExecuteSubscriptionFulfillment oid) H"
proof -
  have body: "entitled cat (fulfillable o1
      (acquirePaymentFulfillmentLease o1 (\<lambda>v. doSub o1 gid days v (markFailed oid v)))) H'"
    if o1: "order_ok cat o1" "po_ID o1 = oid" "po_PaidAt o1 = None \<or> Paid oid \<in> H'"
      and t: "po_SubscriptionGroupID o1 = Some gid" "po_SubscriptionDays o1 = Some days" for o1 H' gid days
  proof (rule entitled_fulfillable [OF o1(1)], rule entitled_lease)
    fix v H'' assume paid: "po_PaidAt o1 \<noteq> None" and H'': "H' \<subseteq> H''"
    obtain c where "cat (po_ID o1) = Some c" "sameOrder c o1" using o1(1) cat by (rule order_okE)
    then show "entitled cat (doSub o1 gid days v (markFailed oid v)) H''"
      using o1 t paid H'' sold cat by (intro entitled_doSub entitled_failed) (auto simp: sameOrder_def)
  qed
  have bare: "entitled cat (fulfillable o1 (fail e)) H'" for o1 e H'
    by (simp add: fulfillable_def)
  show ?thesis unfolding ExecuteSubscriptionFulfillment_def using body bare
    by (auto split: payReply.splits option.splits)
qed

lemma entitled_execute: "cat_ok cat \<Longrightarrow> entitled cat (executeFulfillment oid) H"
  unfolding executeFulfillment_def
  by (auto split: payReply.splits intro!: entitled_balance entitled_subscription
      elim!: order_okE simp: sameOrder_def)

lemma entitled_retry: "cat_ok cat \<Longrightarrow> entitled cat (RetryFulfillment oid) H"
  unfolding RetryFulfillment_def
  by (auto split: payReply.splits intro!: entitled_audit entitled_execute simp: reservedAction_def)

lemma entitled_already: "cat_ok cat \<Longrightarrow> entitled cat (alreadyProcessed o1) H"
  unfolding alreadyProcessed_def
  by (auto split: payReply.splits intro!: entitled_audit entitled_execute simp: reservedAction_def)

lemma entitled_toPaid:
  assumes "cat_ok cat" "\<And>c. cat (po_ID o1) = Some c \<Longrightarrow> tolerated c paid \<or> Paid (po_ID o1) \<in> H"
  shows "entitled cat (toPaid o1 tradeNo paid) H"
  unfolding toPaid_def Let_def using assms
  by (auto split: payReply.splits intro!: entitled_audit entitled_execute entitled_already simp: reservedAction_def)

lemma tolerance_le: "paymentAmountToleranceForCurrency m \<le> 1000000"
proof -
  have "(10::int) ^ 8 div 10 ^ nat m div 2 \<le> 1000000" if "2 < m"
  proof -
    have "(10::int) ^ 3 \<le> 10 ^ nat m" using that by (intro power_increasing) auto
    then have "(10::int) ^ 8 div 10 ^ nat m \<le> 10 ^ 8 div 10 ^ 3" by (intro zdiv_mono2) auto
    then show ?thesis by simp
  qed
  then show ?thesis by (auto simp: paymentAmountToleranceForCurrency_def)
qed

lemma entitled_confirm:
  assumes cat: "cat_ok cat"
  shows "entitled cat (confirmPayment E oid tradeNo paid pk metadata) H"
proof -
  have accepted: "entitled cat (toPaid o1 tradeNo n) (H \<union> learns H (GetOrder oid) (ROrder o1))"
    if o1: "order_ok cat o1" "po_ID o1 = oid" and n: "0 < n"
      "\<bar>n - po_PayAmount o1\<bar> \<le> paymentAmountToleranceForCurrency m" for o1 n m
  proof (rule entitled_toPaid [OF cat])
    fix c assume c: "cat (po_ID o1) = Some c"
    have "\<bar>n - po_PayAmount o1\<bar> \<le> 1000000" using n(2) tolerance_le by (rule order_trans)
    then show "tolerated c n \<or> Paid (po_ID o1) \<in> H \<union> learns H (GetOrder oid) (ROrder o1)"
      using o1 n(1) c by (auto simp: tolerated_def order_ok_def)
  qed
  have reject: "entitled cat (writeAuditLog i a (fail e)) H'"
    if "a \<in> {''PAYMENT_PROVIDER_MISMATCH'', ''PAYMENT_PROVIDER_METADATA_MISMATCH'', ''PAYMENT_INVALID_AMOUNT'',
        ''PAYMENT_AMOUNT_MISMATCH''}" for i a e H'
    using that by (intro entitled_audit) (auto simp: reservedAction_def)
  have body: "entitled cat (case paid of
      Amount n \<Rightarrow>
        if \<not> isValidProviderAmount paid
        then writeAuditLog oid ''PAYMENT_INVALID_AMOUNT'' (fail ''invalid paid amount'')
        else if paymentAmountToleranceForCurrency m < \<bar>n - po_PayAmount o1\<bar>
        then writeAuditLog oid ''PAYMENT_AMOUNT_MISMATCH'' (fail ''amount mismatch'')
        else toPaid o1 tradeNo n
    | _ \<Rightarrow> writeAuditLog oid ''PAYMENT_INVALID_AMOUNT'' (fail ''invalid paid amount''))
      (H \<union> learns H (GetOrder oid) (ROrder o1))"
    if "order_ok cat o1" "po_ID o1 = oid" for o1 m
  proof (cases paid)
    case (Amount n)
    then show ?thesis using accepted [OF that, of n m] reject by (simp add: isValidProviderAmount_def)
  qed (use reject in simp_all)
  show ?thesis
    unfolding confirmPayment_def Let_def using body reject
    by (simp del: learns.simps split: payReply.split)
qed

lemma entitled_notification: "cat_ok cat \<Longrightarrow> entitled cat (HandlePaymentNotification E n pk) H"
  unfolding HandlePaymentNotification_def
  by (auto intro!: entitled_confirm split: payReply.splits option.splits)

lemma entitled_ignore:
  "entitled cat p H \<Longrightarrow> (\<And>H'. H \<subseteq> H' \<Longrightarrow> entitled cat k H') \<Longrightarrow> entitled cat (ignoreError p k) H"
proof (induction p arbitrary: H)
  case (Do s f)
  have "entitled cat (ignoreError (f r) k) (H \<union> learns H s r)" if "genuine cat s r" for r
    using Do.prems that by (intro Do.IH [OF rangeI]) auto
  then show ?case using Do.prems(1) by simp
qed simp

lemma entitled_settle:
  assumes "cat_ok cat" "\<And>H'. H \<subseteq> H' \<Longrightarrow> entitled cat k H'"
  shows "entitled cat (settlePaid E o1 pk queryRef q k) H"
  unfolding settlePaid_def Let_def
  using assms by (auto intro!: entitled_ignore entitled_notification simp del: learns.simps)

lemma entitled_checkPaid:
  assumes "cat_ok cat" "\<And>H'. H \<subseteq> H' \<Longrightarrow> entitled cat kpaid H'" "\<And>H'. H \<subseteq> H' \<Longrightarrow> entitled cat kother H'"
  shows "entitled cat (checkPaid E o1 pk queryRef response retry kpaid kother) H"
  unfolding checkPaid_def
  using assms by (auto intro!: entitled_settle entitled_audit simp: reservedAction_def split: option.splits)

lemma entitled_cancel:
  assumes "cat_ok cat" "unpaidStatus fs"
  shows "entitled cat (cancelCore E o1 fs pk queryRef response retry) H"
proof -
  have cancel: "entitled cat (Do (SetIfPending (po_ID o1) fs) (\<lambda>r. case r of
           RCount c \<Rightarrow>
             if c > 0 then writeAuditLog (po_ID o1)
               (if fs = OrderStatusExpired then ''ORDER_EXPIRED'' else ''ORDER_CANCELLED'') succeed
             else succeed
         | _ \<Rightarrow> fail ''update order status'')) H'" for H'
    using assms by (auto intro!: entitled_audit simp: reservedAction_def split: payReply.splits)
  show ?thesis unfolding cancelCore_def Let_def
    by (intro entitled_if entitled_checkPaid cancel assms(1)) simp
qed

lemma entitled_cancellations:
  assumes "cat_ok cat"
  shows "entitled cat (CancelOrder E oid uid pk queryRef response retry) H"
    "entitled cat (AdminCancelOrder E oid pk queryRef response retry) H"
    "entitled cat (expireOrder E o1 pk queryRef response retry) H"
    "entitled cat (VerifyOrderByOutTradeNo E raw uid pk queryRef response retry) H"
  unfolding CancelOrder_def AdminCancelOrder_def expireOrder_def VerifyOrderByOutTradeNo_def
  using assms
  by (auto intro!: entitled_cancel entitled_checkPaid simp: unpaidStatus_def split: payReply.splits option.splits)

end
