(* ===== verification/PaymentLedger.thy ===== *)
theory PaymentLedger
  imports PaymentFacts
begin

text \<open>
  The invariant of the payment tables and its preservation by every statement that an entitled
  flow issues: what \<open>runStmt\<close> replies is genuine, what a flow learns from it is true, and what was
  true stays true.
\<close>

section \<open>The invariant\<close>

definition orders_ok :: "catalogue \<Rightarrow> payDB \<Rightarrow> bool" where
  "orders_ok cat d \<longleftrightarrow> distinct (map po_ID (pd_orders d))
     \<and> (\<forall>o1\<in>set (pd_orders d). order_ok cat o1
         \<and> (po_Status o1 = OrderStatusCompleted \<longrightarrow> (\<forall>c. cat (po_ID o1) = Some c \<longrightarrow> holds d (delivered c))))"

definition codes_ok :: "catalogue \<Rightarrow> payDB \<Rightarrow> bool" where
  "codes_ok cat d \<longleftrightarrow> distinct (map rc_Code (pd_codes d)) \<and> distinct (map rc_ID (pd_codes d))
     \<and> (\<forall>x\<in>set (pd_codes d). rc_ID x < pd_nextCode d
         \<and> (rc_Status x = StatusUnused \<and> rc_UsedBy x = None \<or> rc_Status x = StatusUsed \<and> rc_UsedBy x \<noteq> None)
         \<and> (\<forall>oid c. cat oid = Some c \<longrightarrow> po_RechargeCode c = rc_Code x
              \<longrightarrow> rc_Value x = po_Amount c \<and> rc_Type x = RedeemTypeBalance \<and> rc_ExpiresAt x = None
                \<and> holds d (Paid oid)))"

text \<open>Every credit is a used code's, by its user and with its value; grants and rebates are audited.\<close>

definition usedCredits :: "redeemCode list \<Rightarrow> (string \<times> int \<times> int) set" where
  "usedCredits xs = {(rc_Code x, uid, rc_Value x) |x uid. x \<in> set xs \<and> rc_Status x = StatusUsed \<and> rc_UsedBy x = Some uid}"

definition credits_ok :: "payDB \<Rightarrow> bool" where
  "credits_ok d \<longleftrightarrow> distinct (map fst (pd_credits d)) \<and> set (pd_credits d) = usedCredits (pd_codes d)"

definition grants_ok :: "catalogue \<Rightarrow> payDB \<Rightarrow> bool" where
  "grants_ok cat d \<longleftrightarrow> distinct (map fst (pd_granted d))
     \<and> (\<forall>(oid, uid, gid, days)\<in>set (pd_granted d). (oid, ''SUBSCRIPTION_ASSIGNED'') \<in> set (pd_audit d)
          \<and> holds d (Paid oid) \<and> (\<exists>c. cat oid = Some c \<and> po_UserID c = uid
              \<and> po_SubscriptionGroupID c = Some gid \<and> po_SubscriptionDays c = Some days))"

definition rebates_ok :: "payDB \<Rightarrow> bool" where
  "rebates_ok d \<longleftrightarrow> distinct (map fst (pd_rebates d))
     \<and> (\<forall>(oid, rebate)\<in>set (pd_rebates d). (oid, ''AFFILIATE_REBATE_APPLIED'') \<in> set (pd_audit d)
          \<and> holds d (Paid oid))"

definition db_ok :: "catalogue \<Rightarrow> payDB \<Rightarrow> bool" where
  "db_ok cat d \<longleftrightarrow> orders_ok cat d \<and> codes_ok cat d \<and> credits_ok d \<and> grants_ok cat d \<and> rebates_ok d"

definition later :: "payDB \<Rightarrow> payDB \<Rightarrow> bool" where
  "later d d' \<longleftrightarrow> (\<forall>f. holds d f \<longrightarrow> holds d' f)"

lemma later_refl [simp]: "later d d"
  by (simp add: later_def)

text \<open>Tables a change leaves alone keep their part of the invariant.\<close>

lemma orders_ok_frame: "orders_ok cat d \<Longrightarrow> later d d' \<Longrightarrow> pd_orders d' = pd_orders d \<Longrightarrow> orders_ok cat d'"
  by (auto simp: orders_ok_def later_def)

lemma codes_ok_frame:
  "codes_ok cat d \<Longrightarrow> later d d' \<Longrightarrow> pd_codes d' = pd_codes d \<Longrightarrow> pd_nextCode d' = pd_nextCode d \<Longrightarrow> codes_ok cat d'"
  unfolding codes_ok_def later_def by (simp del: holds.simps)

lemma credits_ok_frame: "credits_ok d \<Longrightarrow> pd_credits d' = pd_credits d \<Longrightarrow> pd_codes d' = pd_codes d \<Longrightarrow> credits_ok d'"
  by (simp add: credits_ok_def)

lemma grants_ok_frame:
  "grants_ok cat d \<Longrightarrow> later d d' \<Longrightarrow> pd_granted d' = pd_granted d \<Longrightarrow> set (pd_audit d) \<subseteq> set (pd_audit d')
   \<Longrightarrow> grants_ok cat d'"
  unfolding grants_ok_def later_def by (fastforce simp del: holds.simps)

lemma rebates_ok_frame:
  "rebates_ok d \<Longrightarrow> later d d' \<Longrightarrow> pd_rebates d' = pd_rebates d \<Longrightarrow> set (pd_audit d) \<subseteq> set (pd_audit d') \<Longrightarrow> rebates_ok d'"
  unfolding rebates_ok_def later_def by (fastforce simp del: holds.simps)

lemmas db_frames = orders_ok_frame codes_ok_frame credits_ok_frame grants_ok_frame rebates_ok_frame

section \<open>Updates of orders\<close>

lemma updateOrder_ok:
  assumes ok: "db_ok cat d"
    and upd: "\<And>o1. o1 \<in> set (pd_orders d) \<Longrightarrow> po_ID o1 = oid \<Longrightarrow> P o1 \<Longrightarrow>
      order_ok cat ((upd o1)\<lparr>po_UpdatedAt := pd_now d\<rparr>) \<and> po_ID (upd o1) = po_ID o1
      \<and> (po_PaidAt o1 \<noteq> None \<longrightarrow> po_PaidAt (upd o1) \<noteq> None)
      \<and> (po_Status (upd o1) = OrderStatusCompleted \<longrightarrow> po_Status o1 = OrderStatusCompleted
           \<or> (\<forall>c. cat oid = Some c \<longrightarrow> holds d (delivered c)))"
  shows "db_ok cat (snd (updateOrder oid P upd d))" "later d (snd (updateOrder oid P upd d))"
proof -
  define g where "g = (\<lambda>o1. if po_ID o1 = oid \<and> P o1 then (upd o1)\<lparr>po_UpdatedAt := pd_now d\<rparr> else o1)"
  let ?d = "snd (updateOrder oid P upd d)"
  have d: "?d = d\<lparr>pd_orders := map g (pd_orders d)\<rparr>" by (simp add: updateOrder_def g_def)
  have g: "po_ID (g o1) = po_ID o1" "order_ok cat (g o1)" "po_PaidAt o1 \<noteq> None \<longrightarrow> po_PaidAt (g o1) \<noteq> None"
    "po_Status (g o1) = OrderStatusCompleted \<longrightarrow> (\<forall>c. cat (po_ID o1) = Some c \<longrightarrow> holds d (delivered c))"
    if "o1 \<in> set (pd_orders d)" for o1
    using that ok upd [OF that] unfolding g_def by (auto simp: db_ok_def orders_ok_def)
  have "holds ?d f" if "holds d f" for f
    using that g unfolding d by (cases f) (auto simp: assignmentAudited_def)
  then show l: "later d ?d" by (simp add: later_def)
  have "map (po_ID \<circ> g) (pd_orders d) = map po_ID (pd_orders d)" using g(1) by simp
  then have "orders_ok cat ?d"
    using ok g l unfolding db_ok_def orders_ok_def later_def d by (auto simp del: holds.simps map_eq_conv)
  then show "db_ok cat ?d"
    using ok l unfolding db_ok_def by (auto intro: db_frames simp: d)
qed

section \<open>The other statements\<close>

lemma later_tables:
  assumes "pd_orders d' = pd_orders d" "pd_codes d' = pd_codes d" "set (pd_audit d) \<subseteq> set (pd_audit d')"
  shows "later d d'"
proof -
  have "holds d' f" if "holds d f" for f
    using that assms by (cases f) (auto simp: assignmentAudited_def)
  then show ?thesis by (simp add: later_def)
qed

lemma assignTx_ok:
  assumes ok: "db_ok cat d" and paid: "holds d (Paid oid)"
    and c: "cat oid = Some c" "po_UserID c = uid" "po_SubscriptionGroupID c = Some gid" "po_SubscriptionDays c = Some days"
  shows "db_ok cat (snd (assignTx E oid uid gid days d))" "later d (snd (assignTx E oid uid gid days d))"
    "holds (snd (assignTx E oid uid gid days d)) (Assigned oid)" "fst (assignTx E oid uid gid days d) = ROk"
proof -
  let ?d = "snd (assignTx E oid uid gid days d)"
  show "fst (assignTx E oid uid gid days d) = ROk" "holds ?d (Assigned oid)"
    by (auto simp: assignTx_def Let_def assignmentAudited_def)
  have same: "pd_orders ?d = pd_orders d" "pd_codes ?d = pd_codes d" "pd_nextCode ?d = pd_nextCode d"
    "pd_credits ?d = pd_credits d" "pd_rebates ?d = pd_rebates d" "set (pd_audit d) \<subseteq> set (pd_audit ?d)"
    by (auto simp: assignTx_def Let_def)
  show l: "later d ?d" using same by (intro later_tables) auto
  have "grants_ok cat ?d"
  proof (cases "pd_granted ?d = pd_granted d")
    case True
    then show ?thesis using ok l same unfolding db_ok_def by (auto intro: grants_ok_frame)
  next
    case False
    then have new: "\<not> assignmentAudited oid d" "pd_granted ?d = (oid, uid, gid, days) # pd_granted d"
      "(oid, ''SUBSCRIPTION_ASSIGNED'') \<in> set (pd_audit ?d)"
      by (auto simp: assignTx_def Let_def split: if_splits)
    then have "oid \<notin> fst ` set (pd_granted d)"
      using ok by (auto simp: db_ok_def grants_ok_def assignmentAudited_def)
    moreover have "holds ?d (Paid oid)" using l paid by (simp add: later_def del: holds.simps)
    moreover have "grants_ok cat (?d\<lparr>pd_granted := pd_granted d\<rparr>)"
    proof (rule grants_ok_frame)
      show "grants_ok cat d" using ok by (simp add: db_ok_def)
      show "later d (?d\<lparr>pd_granted := pd_granted d\<rparr>)" using same by (intro later_tables) auto
    qed (use same in auto)
    moreover have "holds (?d\<lparr>pd_granted := x\<rparr>) f = holds ?d f" for x f
      by (cases f) (simp_all add: assignmentAudited_def)
    ultimately show ?thesis using new(2,3) c unfolding grants_ok_def
      by (simp del: holds.simps)
  qed
  then show "db_ok cat ?d" using ok l same unfolding db_ok_def by (auto intro: db_frames)
qed

lemma rebateTx_ok:
  assumes ok: "db_ok cat d" and paid: "holds d (Paid oid)"
  shows "db_ok cat (snd (rebateTx E oid uid base d))" "later d (snd (rebateTx E oid uid base d))"
    "fst (rebateTx E oid uid base d) = ROk"
proof -
  let ?d = "snd (rebateTx E oid uid base d)"
  show "fst (rebateTx E oid uid base d) = ROk" by (simp add: rebateTx_def Let_def)
  have same: "pd_orders ?d = pd_orders d" "pd_codes ?d = pd_codes d" "pd_nextCode ?d = pd_nextCode d"
    "pd_credits ?d = pd_credits d" "pd_granted ?d = pd_granted d" "set (pd_audit d) \<subseteq> set (pd_audit ?d)"
    by (auto simp: rebateTx_def Let_def)
  show l: "later d ?d" using same by (intro later_tables) auto
  have "rebates_ok ?d"
  proof (cases "pd_rebates ?d = pd_rebates d")
    case True
    then show ?thesis using ok l same unfolding db_ok_def by (auto intro: rebates_ok_frame)
  next
    case False
    then have new: "\<not> rebateClaimed oid d" "pd_rebates ?d = (oid, pe_Rebate E uid base) # pd_rebates d"
      "(oid, ''AFFILIATE_REBATE_APPLIED'') \<in> set (pd_audit ?d)"
      by (auto simp: rebateTx_def Let_def split: if_splits)
    then have fresh: "oid \<notin> fst ` set (pd_rebates d)"
      using ok by (auto simp: db_ok_def rebates_ok_def rebateClaimed_def)
    have paid': "holds ?d (Paid oid)" using l paid by (simp add: later_def del: holds.simps)
    have "rebates_ok (?d\<lparr>pd_rebates := pd_rebates d\<rparr>)"
    proof (rule rebates_ok_frame)
      show "rebates_ok d" using ok by (simp add: db_ok_def)
      show "later d (?d\<lparr>pd_rebates := pd_rebates d\<rparr>)" using same by (intro later_tables) auto
    qed (use same in auto)
    moreover have "holds (?d\<lparr>pd_rebates := x\<rparr>) f = holds ?d f" for x f
      by (cases f) (simp_all add: assignmentAudited_def)
    ultimately show ?thesis using new(2,3) fresh paid' unfolding rebates_ok_def
      by (simp del: holds.simps)
  qed
  then show "db_ok cat ?d" using ok l same unfolding db_ok_def by (auto intro: db_frames)
qed

lemma codes_inj:
  assumes "codes_ok cat d" "x \<in> set (pd_codes d)" "y \<in> set (pd_codes d)"
  shows "rc_ID x = rc_ID y \<Longrightarrow> x = y" "rc_Code x = rc_Code y \<Longrightarrow> x = y"
  using assms by (auto simp: codes_ok_def distinct_map dest: inj_onD)

lemma find_distinct:
  "distinct (map f xs) \<Longrightarrow> x \<in> set xs \<Longrightarrow> find (\<lambda>y. f y = f x \<and> P y) xs = (if P x then Some x else None)"
proof (induction xs)
  case (Cons y ys)
  show ?case
  proof (cases "y = x")
    case True
    have "find (\<lambda>y. f y = f x \<and> P y) ys = None" using Cons.prems(1) True by (simp add: find_None_iff) (metis imageI)
    then show ?thesis using True by simp
  next
    case False
    then have "x \<in> set ys" "f y \<noteq> f x" using Cons.prems by auto
    then show ?thesis using Cons by auto
  qed
qed simp

text \<open>\<open>Use\<close> on the list of codes.\<close>

definition useCode :: "int \<Rightarrow> int \<Rightarrow> redeemCode \<Rightarrow> redeemCode" where
  "useCode i uid x = (if rc_ID x = i \<and> rc_Status x = StatusUnused
     then x\<lparr>rc_Status := StatusUsed, rc_UsedBy := Some uid\<rparr> else x)"

lemma useCode_fields [simp]:
  "rc_ID (useCode i uid x) = rc_ID x" "rc_Code (useCode i uid x) = rc_Code x" "rc_Value (useCode i uid x) = rc_Value x"
  "rc_Type (useCode i uid x) = rc_Type x" "rc_ExpiresAt (useCode i uid x) = rc_ExpiresAt x"
  by (simp_all add: useCode_def)

lemma useCode_used: "rc_Status x = StatusUsed \<Longrightarrow> useCode i uid x = x"
  by (simp add: useCode_def codeStatuses)

lemma useCode_other: "rc_ID x \<noteq> i \<Longrightarrow> useCode i uid x = x"
  by (simp add: useCode_def)

lemma usedCreditsI:
  "x \<in> set xs \<Longrightarrow> rc_Status x = StatusUsed \<Longrightarrow> rc_UsedBy x = Some uid \<Longrightarrow> (rc_Code x, uid, rc_Value x) \<in> usedCredits xs"
  by (auto simp: usedCredits_def)

lemma usedCreditsE:
  assumes "p \<in> usedCredits xs"
  obtains x uid where "x \<in> set xs" "rc_Status x = StatusUsed" "rc_UsedBy x = Some uid" "p = (rc_Code x, uid, rc_Value x)"
  using assms by (auto simp: usedCredits_def)

lemma usedCredits_use:
  assumes "distinct (map rc_ID xs)" "x \<in> set xs" "rc_ID x = i" "rc_Status x = StatusUnused"
  shows "usedCredits (map (useCode i uid) xs) = insert (rc_Code x, uid, rc_Value x) (usedCredits xs)"
proof (intro set_eqI iffI)
  fix p assume "p \<in> usedCredits (map (useCode i uid) xs)"
  then obtain z u where z: "z \<in> set (map (useCode i uid) xs)" "rc_Status z = StatusUsed" "rc_UsedBy z = Some u"
    "p = (rc_Code z, u, rc_Value z)" by (rule usedCreditsE)
  then obtain y where y: "y \<in> set xs" "z = useCode i uid y" by auto
  show "p \<in> insert (rc_Code x, uid, rc_Value x) (usedCredits xs)"
  proof (cases "rc_ID y = i")
    case True
    then have "y = x" using assms y(1) by (metis distinct_map inj_onD)
    then show ?thesis using assms y z by (auto simp: useCode_def)
  next
    case False
    then have "z = y" using y(2) by (simp add: useCode_other)
    then show ?thesis using usedCreditsI [of y xs u] y(1) z by simp
  qed
next
  fix p assume "p \<in> insert (rc_Code x, uid, rc_Value x) (usedCredits xs)"
  then consider "p = (rc_Code x, uid, rc_Value x)" | "p \<in> usedCredits xs" by blast
  then show "p \<in> usedCredits (map (useCode i uid) xs)"
  proof cases
    case 1
    have "(rc_Code (useCode i uid x), uid, rc_Value (useCode i uid x)) \<in> usedCredits (map (useCode i uid) xs)"
      using assms by (intro usedCreditsI) (auto simp: useCode_def)
    then show ?thesis using 1 by simp
  next
    case 2
    then obtain y u where y: "y \<in> set xs" "rc_Status y = StatusUsed" "rc_UsedBy y = Some u"
      "p = (rc_Code y, u, rc_Value y)" by (rule usedCreditsE)
    then have "y \<in> set (map (useCode i uid) xs)" using useCode_used [of y] by (auto intro: rev_image_eqI)
    then show ?thesis using usedCreditsI y by simp
  qed
qed

text \<open>The transaction either changes nothing or uses the code and credits its value.\<close>

lemma redeemTx_cases:
  assumes codes: "codes_ok cat d" and code: "holds d (CodeIs i code v)"
  obtains "snd (redeemTx i uid v d) = d" "fst (redeemTx i uid v d) \<noteq> ROk"
  | x d' where "x \<in> set (pd_codes d)" "rc_ID x = i" "rc_Code x = code" "rc_Value x = v" "rc_Status x = StatusUnused"
      "snd (redeemTx i uid v d) = d'" "pd_codes d' = map (useCode i uid) (pd_codes d)"
      "pd_credits d' = (code, uid, v) # pd_credits d" "pd_orders d' = pd_orders d" "pd_audit d' = pd_audit d"
      "pd_nextCode d' = pd_nextCode d" "pd_granted d' = pd_granted d" "pd_rebates d' = pd_rebates d"
proof -
  obtain x where x: "x \<in> set (pd_codes d)" "rc_ID x = i" "rc_Code x = code" "rc_Value x = v"
    using code by auto
  have found: "find (\<lambda>c. rc_ID c = i \<and> rc_Status c = StatusUnused) (pd_codes d)
      = (if rc_Status x = StatusUnused then Some x else None)"
    using find_distinct [of rc_ID "pd_codes d" x "\<lambda>c. rc_Status c = StatusUnused"] codes x by (simp add: codes_ok_def)
  show thesis
  proof (cases "rc_Status x = StatusUnused \<and> m_get (pd_balances d) uid \<noteq> None")
    case False
    then show thesis using found by (intro that(1)) (auto simp: redeemTx_def split: option.split)
  next
    case True
    show thesis
    proof (rule that(2) [OF x _ refl])
      show "rc_Status x = StatusUnused" using True by simp
    qed (use True found x in \<open>auto simp: redeemTx_def useCode_def fun_eq_iff\<close>)
  qed
qed

lemma codes_ok_use:
  assumes ok: "codes_ok cat d" and l: "later d d'"
    and d': "pd_codes d' = map (useCode i uid) (pd_codes d)" "pd_nextCode d' = pd_nextCode d"
  shows "codes_ok cat d'"
proof -
  have "map (rc_Code \<circ> useCode i uid) (pd_codes d) = map rc_Code (pd_codes d)"
    "map (rc_ID \<circ> useCode i uid) (pd_codes d) = map rc_ID (pd_codes d)" by auto
  moreover have "rc_Status (useCode i uid y) = StatusUnused \<and> rc_UsedBy (useCode i uid y) = None
      \<or> rc_Status (useCode i uid y) = StatusUsed \<and> rc_UsedBy (useCode i uid y) \<noteq> None" if "y \<in> set (pd_codes d)" for y
    using ok that by (auto simp: codes_ok_def useCode_def)
  ultimately show ?thesis
    using ok l unfolding codes_ok_def later_def by (simp add: d' del: holds.simps map_eq_conv)
qed

lemma later_use:
  assumes "pd_codes d' = map (useCode i uid) (pd_codes d)" "pd_orders d' = pd_orders d" "pd_audit d' = pd_audit d"
  shows "later d d'"
proof -
  have "holds d' f" if f: "holds d f" for f
  proof (cases f)
    case (CodeUsed k u)
    then obtain y where y: "y \<in> set (pd_codes d)" "rc_Code y = k" "rc_Status y = StatusUsed" "rc_UsedBy y = Some u"
      using f by auto
    then have "y \<in> set (pd_codes d')" using useCode_used [of y] by (auto simp: assms intro: rev_image_eqI)
    then show ?thesis using CodeUsed y by auto
  next
    case (CodeIs j k w)
    then obtain y where "y \<in> set (pd_codes d)" "rc_ID y = j" "rc_Code y = k" "rc_Value y = w" using f by auto
    then show ?thesis using CodeIs by (auto simp: assms)
  qed (use f in \<open>simp_all add: assms assignmentAudited_def\<close>)
  then show ?thesis by (simp add: later_def)
qed

lemma redeemTx_ok:
  assumes ok: "db_ok cat d" and code: "holds d (CodeIs i code v)"
  shows "db_ok cat (snd (redeemTx i uid v d)) \<and> later d (snd (redeemTx i uid v d))
    \<and> (fst (redeemTx i uid v d) = ROk \<longrightarrow> holds (snd (redeemTx i uid v d)) (CodeUsed code uid))"
proof -
  have codes: "codes_ok cat d" using ok by (simp add: db_ok_def)
  from codes code show ?thesis
  proof (cases rule: redeemTx_cases [where uid = uid])
    case 1
    then show ?thesis using ok by simp
  next
    case (2 x d')
    have l: "later d d'" using 2 by (intro later_use)
    have "codes_ok cat d'" using 2 by (intro codes_ok_use [OF codes l]) auto
    moreover have "credits_ok d'"
    proof -
      have "code \<notin> fst ` usedCredits (pd_codes d)"
      proof
        assume "code \<in> fst ` usedCredits (pd_codes d)"
        then obtain y where "y \<in> set (pd_codes d)" "rc_Status y = StatusUsed" "rc_Code y = code"
          by (auto simp: usedCredits_def)
        then show False using codes_inj(2) [OF codes, of y x] 2 by (auto simp: codeStatuses)
      qed
      moreover have "usedCredits (pd_codes d') = insert (code, uid, v) (usedCredits (pd_codes d))"
        using codes 2 usedCredits_use [of "pd_codes d" x i uid] by (simp add: codes_ok_def)
      ultimately show ?thesis using ok 2 by (simp add: db_ok_def credits_ok_def)
    qed
    moreover have "holds d' (CodeUsed code uid)"
    proof -
      have "useCode i uid x \<in> set (pd_codes d')" using 2(1,7) by simp
      moreover have "rc_Status (useCode i uid x) = StatusUsed" "rc_UsedBy (useCode i uid x) = Some uid"
        using 2(2,5) by (simp_all add: useCode_def)
      ultimately show ?thesis using 2(3) useCode_fields(2) [of i uid x] holds.simps(2) by blast
    qed
    ultimately show ?thesis using ok l 2 unfolding db_ok_def by (auto intro: db_frames)
  qed
qed

lemma newCode_ok:
  assumes ok: "db_ok cat d" and fresh: "rc_Code x \<notin> rc_Code ` set (pd_codes d)"
    and x: "rc_Status x = StatusUnused" "rc_UsedBy x = None"
    and amount: "\<And>oid c. cat oid = Some c \<Longrightarrow> po_RechargeCode c = rc_Code x \<Longrightarrow> rc_Value x = po_Amount c
      \<and> rc_Type x = RedeemTypeBalance \<and> rc_ExpiresAt x = None \<and> holds d (Paid oid)"
    and d': "d' = d\<lparr>pd_codes := pd_codes d @ [x\<lparr>rc_ID := pd_nextCode d\<rparr>], pd_nextCode := pd_nextCode d + 1\<rparr>"
  shows "db_ok cat d' \<and> later d d'"
proof -
  have "holds d' f" if "holds d f" for f
    using that by (cases f) (auto simp: d' assignmentAudited_def)
  then have l: "later d d'" by (simp add: later_def)
  have "codes_ok cat d'"
  proof -
    have "pd_nextCode d \<notin> rc_ID ` set (pd_codes d)"
      using ok by (fastforce simp: db_ok_def codes_ok_def)
    moreover have "holds d' (Paid oid)" if "cat oid = Some c" "po_RechargeCode c = rc_Code x" for oid c
      using amount [OF that] l by (simp add: later_def del: holds.simps)
    ultimately show ?thesis
      using ok fresh x amount l unfolding db_ok_def codes_ok_def later_def
      by (auto simp: d' simp del: holds.simps)
  qed
  moreover have "usedCredits (pd_codes d') = usedCredits (pd_codes d)"
    using x by (auto simp: usedCredits_def d' codeStatuses)
  then have "credits_ok d'" using ok by (simp add: db_ok_def credits_ok_def d')
  ultimately have "db_ok cat d'" using ok l unfolding db_ok_def by (auto intro: db_frames simp: d')
  then show ?thesis using l by simp
qed

lemma audit_ok:
  assumes "db_ok cat d"
  shows "db_ok cat (d\<lparr>pd_audit := a # pd_audit d\<rparr>) \<and> later d (d\<lparr>pd_audit := a # pd_audit d\<rparr>)"
proof -
  have "later d (d\<lparr>pd_audit := a # pd_audit d\<rparr>)" by (intro later_tables) auto
  then show ?thesis using assms unfolding db_ok_def by (auto intro: db_frames)
qed

lemma order_ok_fields:
  assumes "order_ok cat o1" "sameOrder o1 o2" "po_PaidAt o1 = None \<longleftrightarrow> po_PaidAt o2 = None"
    "po_PayAmount o2 = po_PayAmount o1"
    "if po_PaidAt o1 = None then unpaidStatus (po_Status o2) else paidStatus (po_Status o2)"
  shows "order_ok cat o2"
  using assms by (auto simp: order_ok_def sameOrder_def split: option.splits if_splits)

lemma unpaid_statuses:
  "order_ok cat o1 \<Longrightarrow> po_PaidAt o1 = None \<Longrightarrow> unpaidStatus (po_Status o1)"
  "order_ok cat o1 \<Longrightarrow> po_PaidAt o1 \<noteq> None \<Longrightarrow> paidStatus (po_Status o1)"
  "unpaidStatus s \<Longrightarrow> \<not> paidStatus s"
  by (auto simp: order_ok_def unpaidStatus_def paidStatus_def psIsRefundStatus_def orderStatuses
      split: option.splits if_splits)

section \<open>Every statement\<close>

definition sound :: "catalogue \<Rightarrow> fact set \<Rightarrow> payDB \<Rightarrow> payStmt \<Rightarrow> payReply \<times> payDB \<Rightarrow> bool" where
  "sound cat H d s r \<longleftrightarrow> db_ok cat (snd r) \<and> later d (snd r) \<and> genuine cat s (fst r)
     \<and> (\<forall>f\<in>learns H s (fst r). holds (snd r) f)"

lemma sound_read: "db_ok cat d \<Longrightarrow> genuine cat s r \<Longrightarrow> (\<And>f. f \<in> learns H s r \<Longrightarrow> holds d f) \<Longrightarrow> sound cat H d s (r, d)"
  by (simp add: sound_def)

lemma find_in: "find P xs = Some x \<Longrightarrow> x \<in> set xs \<and> P x"
  by (induction xs) (auto split: if_splits)

lemma order_read:
  assumes ok: "db_ok cat d" and found: "find P (pd_orders d) = Some o1" and "\<And>oid. s = GetOrder oid \<Longrightarrow> po_ID o1 = oid"
  shows "sound cat H d s (ROrder o1, d)"
proof (rule sound_read [OF ok])
  have o1: "o1 \<in> set (pd_orders d)" using find_in [OF found] by simp
  then have "order_ok cat o1" using ok by (simp add: db_ok_def orders_ok_def)
  then show "genuine cat s (ROrder o1)" using assms(3) by simp
  show "holds d f" if "f \<in> learns H s (ROrder o1)" for f
    using that o1 by (auto split: if_splits)
qed

lemma sound_GetOrder:
  assumes ok: "db_ok cat d"
  shows "sound cat H d (GetOrder oid) (runStmt E (GetOrder oid) d)"
proof (cases "find (\<lambda>o1. po_ID o1 = oid) (pd_orders d)")
  case (Some o1)
  then have "sound cat H d (GetOrder oid) (ROrder o1, d)" using find_in [OF Some] by (intro order_read [OF ok]) auto
  then show ?thesis using Some by (simp add: orderByID_def)
qed (use ok in \<open>simp add: orderByID_def sound_def\<close>)

lemma sound_FindOrder:
  assumes ok: "db_ok cat d"
  shows "sound cat H d (FindOrder t) (runStmt E (FindOrder t) d)"
proof (cases "find (\<lambda>o1. po_OutTradeNo o1 = t) (pd_orders d)")
  case (Some o1)
  then have "sound cat H d (FindOrder t) (ROrder o1, d)" by (intro order_read [OF ok]) auto
  then show ?thesis using Some by simp
qed (use ok in \<open>simp add: sound_def\<close>)

lemma sound_GetCode:
  assumes ok: "db_ok cat d"
  shows "sound cat H d (GetCode code) (runStmt E (GetCode code) d)"
proof (cases "find (\<lambda>c. rc_Code c = code) (pd_codes d)")
  case (Some x)
  have x: "x \<in> set (pd_codes d)" "rc_Code x = code" using find_in [OF Some] by auto
  have "sound cat H d (GetCode code) (RCode x, d)"
  proof (rule sound_read [OF ok])
    show "holds d f" if f: "f \<in> learns H (GetCode code) (RCode x)" for f
      using f x by (cases f) auto
  qed (use x in simp)
  then show ?thesis using Some by simp
qed (use ok in \<open>simp add: sound_def\<close>)

lemma sound_update:
  assumes "db_ok cat d"
    and "\<And>o1. o1 \<in> set (pd_orders d) \<Longrightarrow> po_ID o1 = oid \<Longrightarrow> P o1 \<Longrightarrow>
      order_ok cat ((upd o1)\<lparr>po_UpdatedAt := pd_now d\<rparr>) \<and> po_ID (upd o1) = po_ID o1
      \<and> (po_PaidAt o1 \<noteq> None \<longrightarrow> po_PaidAt (upd o1) \<noteq> None)
      \<and> (po_Status (upd o1) = OrderStatusCompleted \<longrightarrow> po_Status o1 = OrderStatusCompleted
           \<or> (\<forall>c. cat oid = Some c \<longrightarrow> holds d (delivered c)))"
    and "\<And>n f. f \<in> learns H s (RCount n) \<Longrightarrow> n = length (filter (\<lambda>o1. po_ID o1 = oid \<and> P o1) (pd_orders d))
      \<Longrightarrow> holds (snd (updateOrder oid P upd d)) f"
  shows "sound cat H d s (updateOrder oid P upd d)"
proof -
  have "fst (updateOrder oid P upd d) = RCount (length (filter (\<lambda>o1. po_ID o1 = oid \<and> P o1) (pd_orders d)))"
    by (simp add: updateOrder_def)
  then show ?thesis
    using updateOrder_ok [OF assms(1), where oid = oid and P = P and upd = upd] assms(2,3) unfolding sound_def by simp
qed

text \<open>Updates that keep an order's payment and leave it paid, or unpaid, as it was.\<close>

lemma sound_mark:
  assumes ok: "db_ok cat d" and s: "\<And>n. learns H s (RCount n) = {}"
    and upd: "\<And>o1. P o1 \<Longrightarrow> sameOrder o1 (upd o1) \<and> po_PaidAt (upd o1) = po_PaidAt o1 \<and> po_PayAmount (upd o1) = po_PayAmount o1"
    and status: "\<And>o1. P o1 \<Longrightarrow> paidStatus (po_Status o1) \<and> paidStatus (po_Status (upd o1))
      \<or> unpaidStatus (po_Status o1) \<and> unpaidStatus (po_Status (upd o1)) \<or> po_Status (upd o1) = po_Status o1"
    and completed: "\<And>o1. P o1 \<Longrightarrow> po_Status (upd o1) = OrderStatusCompleted \<Longrightarrow> po_Status o1 = OrderStatusCompleted
      \<or> (\<forall>c. cat oid = Some c \<longrightarrow> holds d (delivered c))"
  shows "sound cat H d s (updateOrder oid P upd d)"
proof (rule sound_update [OF ok])
  fix o1 assume o1: "o1 \<in> set (pd_orders d)" "po_ID o1 = oid" "P o1"
  have order: "order_ok cat o1" using ok o1 by (simp add: db_ok_def orders_ok_def)
  have "order_ok cat ((upd o1)\<lparr>po_UpdatedAt := pd_now d\<rparr>)"
  proof (rule order_ok_fields [OF order])
    show "if po_PaidAt o1 = None then unpaidStatus (po_Status (upd o1\<lparr>po_UpdatedAt := pd_now d\<rparr>))
        else paidStatus (po_Status (upd o1\<lparr>po_UpdatedAt := pd_now d\<rparr>))"
      using status [OF o1(3)] unpaid_statuses(1,2) [OF order] unpaid_statuses(3) by (cases "po_PaidAt o1") auto
  qed (use upd [OF o1(3)] in \<open>simp_all add: sameOrder_def\<close>)
  then show "order_ok cat ((upd o1)\<lparr>po_UpdatedAt := pd_now d\<rparr>) \<and> po_ID (upd o1) = po_ID o1
      \<and> (po_PaidAt o1 \<noteq> None \<longrightarrow> po_PaidAt (upd o1) \<noteq> None)
      \<and> (po_Status (upd o1) = OrderStatusCompleted \<longrightarrow> po_Status o1 = OrderStatusCompleted
           \<or> (\<forall>c. cat oid = Some c \<longrightarrow> holds d (delivered c)))"
    using upd [OF o1(3)] completed [OF o1(3)] by (auto simp: sameOrder_def)
qed (use s in blast)

lemma sound_marks:
  assumes ok: "db_ok cat d" and H: "\<And>f. f \<in> H \<Longrightarrow> holds d f"
  shows "sound cat H d (AcquireLease oid) (runStmt E (AcquireLease oid) d)"
    "sound cat H d (MarkFailed oid v reason) (runStmt E (MarkFailed oid v reason) d)"
    "sound cat H d (SetTradeNo oid tradeNo) (runStmt E (SetTradeNo oid tradeNo) d)"
    "allowed cat H (SetIfPending oid st) \<Longrightarrow> sound cat H d (SetIfPending oid st) (runStmt E (SetIfPending oid st) d)"
    "allowed cat H (MarkCompleted oid v) \<Longrightarrow> sound cat H d (MarkCompleted oid v) (runStmt E (MarkCompleted oid v) d)"
proof -
  have st: "paidStatus OrderStatusRecharging" "paidStatus OrderStatusFailed" "paidStatus OrderStatusCompleted"
    "paidStatus OrderStatusPaid" "unpaidStatus OrderStatusPending"
    by (simp_all add: paidStatus_def unpaidStatus_def)
  have nc: "OrderStatusRecharging \<noteq> OrderStatusCompleted" "OrderStatusFailed \<noteq> OrderStatusCompleted"
    by (simp_all add: orderStatuses)
  show "sound cat H d (AcquireLease oid) (runStmt E (AcquireLease oid) d)"
    unfolding runStmt.simps by (rule sound_mark [OF ok]) (auto simp: sameOrder_def leasable_def st nc)
  show "sound cat H d (MarkFailed oid v reason) (runStmt E (MarkFailed oid v reason) d)"
    unfolding runStmt.simps by (rule sound_mark [OF ok]) (auto simp: sameOrder_def leasedBy_def st nc)
  show "sound cat H d (SetTradeNo oid tradeNo) (runStmt E (SetTradeNo oid tradeNo) d)"
    unfolding runStmt.simps by (rule sound_mark [OF ok]) (auto simp: sameOrder_def)
  show "sound cat H d (SetIfPending oid st) (runStmt E (SetIfPending oid st) d)" if "allowed cat H (SetIfPending oid st)"
    using that unfolding runStmt.simps
    by (intro sound_mark [OF ok]) (auto simp: sameOrder_def st unpaidStatus_def orderStatuses)
  show "sound cat H d (MarkCompleted oid v) (runStmt E (MarkCompleted oid v) d)" if a: "allowed cat H (MarkCompleted oid v)"
    unfolding runStmt.simps
  proof (rule sound_mark [OF ok])
    show "po_Status o1 = OrderStatusCompleted \<or> (\<forall>c. cat oid = Some c \<longrightarrow> holds d (delivered c))" for o1
      using a H by (auto simp del: holds.simps)
  qed (auto simp: sameOrder_def leasedBy_def st)
qed

lemma sound_MarkPaid:
  assumes ok: "db_ok cat d" and H: "\<And>f. f \<in> H \<Longrightarrow> holds d f" and a: "allowed cat H (MarkPaid oid tradeNo paid)"
  shows "sound cat H d (MarkPaid oid tradeNo paid) (runStmt E (MarkPaid oid tradeNo paid) d)"
proof -
  let ?upd = "\<lambda>o1. o1\<lparr>po_Status := OrderStatusPaid, po_PayAmount := paid, po_PaymentTradeNo := tradeNo,
    po_PaidAt := Some (pd_now d), po_FailedReason := None\<rparr>"
  have unpaid: "po_PaidAt o1 = None" if "o1 \<in> set (pd_orders d)" "payable (pd_now d) o1" for o1
  proof -
    have "order_ok cat o1" using ok that(1) by (simp add: db_ok_def orders_ok_def)
    moreover have "unpaidStatus (po_Status o1)" using that(2) by (auto simp: payable_def unpaidStatus_def)
    ultimately show ?thesis using unpaid_statuses(2,3) by blast
  qed
  have upd: "order_ok cat ((?upd o1)\<lparr>po_UpdatedAt := pd_now d\<rparr>)"
    if o1: "o1 \<in> set (pd_orders d)" "po_ID o1 = oid" "payable (pd_now d) o1" for o1
  proof -
    have order: "order_ok cat o1" using ok o1 by (simp add: db_ok_def orders_ok_def)
    then obtain c where c: "cat oid = Some c" "sameOrder c o1" using o1(2) by (auto simp: order_ok_def split: option.splits)
    have "Paid oid \<notin> H"
    proof
      assume "Paid oid \<in> H"
      then obtain o2 where o2: "o2 \<in> set (pd_orders d)" "po_ID o2 = oid" "po_PaidAt o2 \<noteq> None" using H by fastforce
      then have "o2 = o1" using ok o1 by (auto simp: db_ok_def orders_ok_def distinct_map dest: inj_onD)
      then show False using o2 unpaid [OF o1(1,3)] by simp
    qed
    then have "tolerated c paid" using a c by simp
    then show ?thesis using c o1(2) by (simp add: order_ok_def sameOrder_def paidStatus_def)
  qed
  have "holds (snd (updateOrder oid (payable (pd_now d)) ?upd d)) f"
    if f: "f \<in> learns H (MarkPaid oid tradeNo paid) (RCount n)"
      and n: "n = length (filter (\<lambda>o1. po_ID o1 = oid \<and> payable (pd_now d) o1) (pd_orders d))" for n f
  proof -
    have "filter (\<lambda>o1. po_ID o1 = oid \<and> payable (pd_now d) o1) (pd_orders d) \<noteq> []" using f n by auto
    then obtain o1 where o1: "o1 \<in> set (pd_orders d)" "po_ID o1 = oid \<and> payable (pd_now d) o1"
      by (auto simp: filter_empty_conv)
    then have "(?upd o1)\<lparr>po_UpdatedAt := pd_now d\<rparr> \<in> set (pd_orders (snd (updateOrder oid (payable (pd_now d)) ?upd d)))"
      by (force simp: updateOrder_def Let_def)
    then show ?thesis using f o1 by (auto intro: rev_bexI)
  qed
  then show ?thesis
    unfolding runStmt.simps using upd unpaid
    by (intro sound_update [OF ok]) (auto simp: orderStatuses simp del: holds.simps learns.simps)
qed

lemma runStmt_sound:
  assumes cat: "cat_ok cat" and ok: "db_ok cat d" and H: "\<And>f. f \<in> H \<Longrightarrow> holds d f" and a: "allowed cat H s"
  shows "sound cat H d s (runStmt E s d)"
proof (cases s)
  case (GetOrder oid) then show ?thesis using sound_GetOrder [OF ok] by simp
next
  case (FindOrder t) then show ?thesis using sound_FindOrder [OF ok] by simp
next
  case (MarkPaid oid t paid) then show ?thesis using sound_MarkPaid [OF ok H] a by simp
next
  case (AcquireLease oid) then show ?thesis using sound_marks [OF ok H] by simp
next
  case (MarkCompleted oid v) then show ?thesis using sound_marks [OF ok H] a by simp
next
  case (MarkFailed oid v reason) then show ?thesis using sound_marks [OF ok H] by simp
next
  case (SetIfPending oid st) then show ?thesis using sound_marks [OF ok H] a by simp
next
  case (SetTradeNo oid t) then show ?thesis using sound_marks [OF ok H] by simp
next
  case (GetCode code) then show ?thesis using sound_GetCode [OF ok] by simp
next
  case (CreateRedeemCode x)
  then obtain oid c where c: "cat oid = Some c" "rc_Code x = po_RechargeCode c" "rc_Value x = po_Amount c"
    "rc_Status x = StatusUnused" "rc_UsedBy x = None" "rc_Type x = RedeemTypeBalance" "rc_ExpiresAt x = None"
    "Paid oid \<in> H" using a by auto
  have amount: "rc_Value x = po_Amount c' \<and> rc_Type x = RedeemTypeBalance \<and> rc_ExpiresAt x = None \<and> holds d (Paid oid')"
    if "cat oid' = Some c'" "po_RechargeCode c' = rc_Code x" for oid' c'
  proof -
    have "oid' = oid" using cat c(1,2) that by (auto simp: cat_ok_def)
    then show ?thesis using c that H by (auto simp del: holds.simps)
  qed
  show ?thesis
  proof (cases "find (\<lambda>y. rc_Code y = rc_Code x) (pd_codes d) = None")
    case True
    then have "rc_Code x \<notin> rc_Code ` set (pd_codes d)" by (auto simp: find_None_iff)
    then show ?thesis using newCode_ok [OF ok _ c(4,5) amount refl] CreateRedeemCode True by (simp add: sound_def)
  next
    case False
    then show ?thesis using CreateRedeemCode ok by (simp add: sound_def)
  qed
next
  case (RedeemTx i uid v)
  then obtain code where code: "CodeIs i code v \<in> H" using a by auto
  have all: "sound cat H d s (runStmt E s d)"
    if "\<And>k. CodeIs i k v \<in> H \<Longrightarrow> fst (redeemTx i uid v d) = ROk \<Longrightarrow> holds (snd (redeemTx i uid v d)) (CodeUsed k uid)"
  proof -
    have "fst (redeemTx i uid v d) \<in> {ROk, RUsed, RNotFound}" by (auto simp: redeemTx_def split: option.split)
    then show ?thesis
      using redeemTx_ok [OF ok H [OF code], of uid] that RedeemTx by (auto simp: sound_def)
  qed
  show ?thesis using redeemTx_ok [OF ok H] by (intro all) blast
next
  case (AssignTx oid uid gid days)
  then obtain c where "cat oid = Some c" "po_UserID c = uid" "po_SubscriptionGroupID c = Some gid"
    "po_SubscriptionDays c = Some days" "holds d (Paid oid)" using a H by (auto simp del: holds.simps)
  then show ?thesis using assignTx_ok [OF ok, where E = E and oid = oid and c = c] AssignTx by (simp add: sound_def)
next
  case (RebateTx oid uid base)
  then have "holds d (Paid oid)" using a H by (auto simp del: holds.simps)
  then show ?thesis using rebateTx_ok [OF ok, of oid E uid base] RebateTx by (simp add: sound_def)
next
  case (WriteAudit oid action)
  then show ?thesis using audit_ok [OF ok, of "(oid, action)"] ok by (auto simp: sound_def)
qed (use ok in \<open>simp_all add: sound_def split: option.splits\<close>)

end
