(* ===== verification/PaymentSystem.thy ===== *)
theory PaymentSystem
  imports PaymentLedger
begin

text \<open>
  Any number of payment flows over one database, interleaved statement by statement, with lost
  statements, lost replies and flows that stop anywhere (they are never scheduled again).
\<close>

section \<open>The system\<close>

datatype outcome = Succeeds | NotRun | ReplyLost

definition stmtOutcome :: "payEnv \<Rightarrow> outcome \<Rightarrow> payStmt \<Rightarrow> payDB \<Rightarrow> payReply \<times> payDB" where
  "stmtOutcome E x s d = (case x of
     Succeeds \<Rightarrow> runStmt E s d | NotRun \<Rightarrow> (RError, d) | ReplyLost \<Rightarrow> (RError, snd (runStmt E s d)))"

text \<open>What starts a flow: a provider's notification, a status query, a cancellation, the expiry
loop, an administrator's retry, and users who redeem codes of their choice.\<close>

inductive payEntry :: "payEnv \<Rightarrow> prog \<Rightarrow> bool" for E where
  "payEntry E (HandlePaymentNotification E n pk)"
| "payEntry E (executeFulfillment oid)"
| "payEntry E (RetryFulfillment oid)"
| "payEntry E (CancelOrder E oid uid pk queryRef response retry)"
| "payEntry E (AdminCancelOrder E oid pk queryRef response retry)"
| "payEntry E (expireOrder E o1 pk queryRef response retry)"
| "payEntry E (VerifyOrderByOutTradeNo E raw uid pk queryRef response retry)"
| "payEntry E (redeem uid code fail succeed)"

text \<open>The catalogue holds the orders that are placed in the run. Other code moves balances, groups
and notes, refunds completed orders and creates codes that are no order's.\<close>

type_synonym paySystem = "payDB \<times> prog list"

inductive pay_step :: "payEnv \<Rightarrow> catalogue \<Rightarrow> paySystem \<Rightarrow> paySystem \<Rightarrow> bool" for E cat where
  pay_start: "payEntry E p \<Longrightarrow> pay_step E cat (d, ps) (d, p # ps)"
| pay_run: "i < length ps \<Longrightarrow> ps ! i = Do s k \<Longrightarrow> stmtOutcome E x s d = (r, d')
    \<Longrightarrow> pay_step E cat (d, ps) (d', ps[i := k r])"
| pay_place: "cat (po_ID o1) = Some o1 \<Longrightarrow> po_ID o1 \<notin> po_ID ` set (pd_orders d)
    \<Longrightarrow> po_Status o1 = OrderStatusPending \<Longrightarrow> po_PaidAt o1 = None
    \<Longrightarrow> pay_step E cat (d, ps) (d\<lparr>pd_orders := pd_orders d @ [o1]\<rparr>, ps)"
| pay_clock: "pay_step E cat (d, ps) (d\<lparr>pd_now := t\<rparr>, ps)"
| pay_refund: "psIsRefundStatus st \<Longrightarrow> pay_step E cat (d, ps)
    (snd (updateOrder oid (\<lambda>o1. po_Status o1 = OrderStatusCompleted) (\<lambda>o1. o1\<lparr>po_Status := st\<rparr>) d), ps)"
| pay_other: "pay_step E cat (d, ps) (d\<lparr>pd_balances := b, pd_groups := g, pd_notes := n\<rparr>, ps)"
| pay_code: "rc_Code x \<notin> rc_Code ` set (pd_codes d) \<Longrightarrow> (\<And>oid c. cat oid = Some c \<Longrightarrow> po_RechargeCode c \<noteq> rc_Code x)
    \<Longrightarrow> rc_Status x = StatusUnused \<Longrightarrow> rc_UsedBy x = None
    \<Longrightarrow> pay_step E cat (d, ps)
      (d\<lparr>pd_codes := pd_codes d @ [x\<lparr>rc_ID := pd_nextCode d\<rparr>], pd_nextCode := pd_nextCode d + 1\<rparr>, ps)"

definition emptyTables :: "payDB \<Rightarrow> bool" where
  "emptyTables d \<longleftrightarrow> pd_orders d = [] \<and> pd_codes d = [] \<and> pd_audit d = [] \<and> pd_credits d = []
     \<and> pd_granted d = [] \<and> pd_rebates d = []"

inductive pay_reach :: "payEnv \<Rightarrow> catalogue \<Rightarrow> paySystem \<Rightarrow> bool" for E cat where
  pay_reach_start: "emptyTables d \<Longrightarrow> pay_reach E cat (d, [])"
| pay_reach_step: "pay_reach E cat s \<Longrightarrow> pay_step E cat s s' \<Longrightarrow> pay_reach E cat s'"

section \<open>The invariant\<close>

definition pay_inv :: "catalogue \<Rightarrow> paySystem \<Rightarrow> bool" where
  "pay_inv cat s \<longleftrightarrow> db_ok cat (fst s)
     \<and> (\<forall>p\<in>set (snd s). \<exists>H. entitled cat p H \<and> (\<forall>f\<in>H. holds (fst s) f))"

lemma entry_entitled: "payEntry E p \<Longrightarrow> cat_ok cat \<Longrightarrow> entitled cat p {}"
  by (induction rule: payEntry.induct)
    (simp_all add: entitled_notification entitled_execute entitled_retry entitled_cancellations entitled_redeem)

lemma stmtOutcome_sound:
  assumes "cat_ok cat" "db_ok cat d" "\<And>f. f \<in> H \<Longrightarrow> holds d f" "allowed cat H s"
  shows "sound cat H d s (stmtOutcome E x s d)"
  using runStmt_sound [OF assms, of E] assms(2)
  by (cases x) (simp_all add: stmtOutcome_def sound_def)

lemma pay_inv_db:
  assumes "pay_inv cat (d, ps)" "db_ok cat d'" "later d d'"
  shows "pay_inv cat (d', ps)"
proof -
  have "\<exists>H. entitled cat p H \<and> (\<forall>f\<in>H. holds d' f)" if p: "p \<in> set ps" for p
  proof -
    obtain H where "entitled cat p H" "\<forall>f\<in>H. holds d f" using assms(1) p by (auto simp: pay_inv_def simp del: holds.simps)
    then show ?thesis using assms(3) unfolding later_def by blast
  qed
  then show ?thesis using assms(2) by (simp add: pay_inv_def)
qed

lemma pay_inv_run:
  assumes cat: "cat_ok cat" and inv: "pay_inv cat (d, ps)" and i: "i < length ps" "ps ! i = Do s k"
    and run: "stmtOutcome E x s d = (r, d')"
  shows "pay_inv cat (d', ps[i := k r])"
proof -
  have "Do s k \<in> set ps" using i nth_mem [of i ps] by simp
  then obtain H where H: "entitled cat (Do s k) H" "\<And>f. f \<in> H \<Longrightarrow> holds d f"
    using inv unfolding pay_inv_def by (auto simp del: entitled.simps holds.simps)
  have snd_ok: "sound cat H d s (r, d')"
    using stmtOutcome_sound [OF cat _ H(2), where s = s and E = E and x = x] inv H(1) run by (simp add: pay_inv_def)
  then have "genuine cat s r" "\<forall>f\<in>learns H s r. holds d' f" "\<forall>f\<in>H. holds d' f"
    using H(2) by (simp_all add: sound_def later_def del: holds.simps)
  moreover from this H(1) have "entitled cat (k r) (H \<union> learns H s r)" by simp
  ultimately have "\<exists>H. entitled cat (k r) H \<and> (\<forall>f\<in>H. holds d' f)" by (meson UnE)
  moreover have "pay_inv cat (d', ps)" using snd_ok inv by - (rule pay_inv_db [of cat d], simp_all add: sound_def)
  ultimately show ?thesis
    unfolding pay_inv_def using set_update_subset_insert [of ps i "k r"] by (auto simp del: holds.simps)
qed

lemma pay_step_inv:
  assumes "pay_step E cat s s'" "cat_ok cat" "pay_inv cat s"
  shows "pay_inv cat s'"
  using assms
proof (induction rule: pay_step.induct)
  case (pay_start p d ps)
  then show ?case using entry_entitled [of E p cat] by (auto simp: pay_inv_def)
next
  case (pay_run i ps s k x d r d')
  then show ?case using pay_inv_run by blast
next
  case (pay_place o1 d ps)
  let ?d = "d\<lparr>pd_orders := pd_orders d @ [o1]\<rparr>"
  have "holds ?d f" if "holds d f" for f using that by (cases f) (auto simp: assignmentAudited_def)
  then have l: "later d ?d" by (simp add: later_def)
  have ok: "db_ok cat d" using pay_place by (simp add: pay_inv_def)
  have "order_ok cat o1" using pay_place by (auto simp: order_ok_def sameOrder_def unpaidStatus_def)
  moreover have "order_ok cat o2 \<and> (po_Status o2 = OrderStatusCompleted
      \<longrightarrow> (\<forall>c. cat (po_ID o2) = Some c \<longrightarrow> holds ?d (delivered c)))" if "o2 \<in> set (pd_orders d)" for o2
    using ok l that unfolding db_ok_def orders_ok_def later_def by blast
  moreover have "distinct (map po_ID (pd_orders d))" using ok by (simp add: db_ok_def orders_ok_def)
  moreover have "po_Status o1 \<noteq> OrderStatusCompleted" using pay_place(3) by (simp add: orderStatuses)
  ultimately have "orders_ok cat ?d"
    using pay_place(2) by (simp add: orders_ok_def ball_Un del: holds.simps)
  then have "db_ok cat ?d" using ok l unfolding db_ok_def by (auto intro: db_frames)
  then show ?case using pay_place l by - (rule pay_inv_db [of cat d], auto)
next
  case (pay_clock d ps t)
  have l: "later d (d\<lparr>pd_now := t\<rparr>)" by (intro later_tables) auto
  have "db_ok cat (d\<lparr>pd_now := t\<rparr>)"
    using pay_clock l unfolding pay_inv_def db_ok_def by (auto intro: db_frames)
  then show ?case using pay_clock l by - (rule pay_inv_db [of cat d], auto)
next
  case (pay_refund st d ps oid)
  let ?r = "updateOrder oid (\<lambda>o1. po_Status o1 = OrderStatusCompleted) (\<lambda>o1. o1\<lparr>po_Status := st\<rparr>) d"
  have "sound cat {} d (SetTradeNo oid []) ?r"
    using pay_refund unfolding pay_inv_def
    by (intro sound_mark) (auto simp: sameOrder_def paidStatus_def psIsRefundStatus_def orderStatuses)
  then show ?case using pay_refund by - (rule pay_inv_db [of cat d], auto simp: sound_def)
next
  case (pay_other d ps n g b)
  let ?d = "d\<lparr>pd_balances := b, pd_groups := g, pd_notes := n\<rparr>"
  have l: "later d ?d" by (intro later_tables) auto
  have "db_ok cat ?d" using pay_other l unfolding pay_inv_def db_ok_def by (auto intro: db_frames)
  then show ?case using pay_other l by - (rule pay_inv_db [of cat d], auto)
next
  case (pay_code x d ps)
  have "db_ok cat d" using pay_code by (simp add: pay_inv_def)
  from newCode_ok [OF this pay_code(1,3,4) _ refl] pay_code show ?case by - (rule pay_inv_db [of cat d], auto)
qed

lemma pay_reach_inv: "pay_reach E cat s \<Longrightarrow> cat_ok cat \<Longrightarrow> pay_inv cat s"
proof (induction rule: pay_reach.induct)
  case (pay_reach_start d)
  then show ?case
    by (simp add: pay_inv_def db_ok_def orders_ok_def codes_ok_def credits_ok_def grants_ok_def rebates_ok_def
        emptyTables_def usedCredits_def)
qed (use pay_step_inv in blast)

section \<open>A flow run by itself\<close>

primrec runAlone :: "payEnv \<Rightarrow> prog \<Rightarrow> payDB \<Rightarrow> string option \<times> payDB" where
  "runAlone E (Done e) d = (e, d)"
| "runAlone E (Do s k) d = runAlone E (k (fst (runStmt E s d))) (snd (runStmt E s d))"

lemma runAlone_reach:
  "pay_reach E cat (d, p # ps) \<Longrightarrow> pay_reach E cat (snd (runAlone E p d), Done (fst (runAlone E p d)) # ps)"
proof (induction p arbitrary: d)
  case (Do s k)
  let ?r = "fst (runStmt E s d)" and ?d = "snd (runStmt E s d)"
  have "stmtOutcome E Succeeds s d = (?r, ?d)" by (simp add: stmtOutcome_def)
  then have "pay_step E cat (d, Do s k # ps) (?d, (Do s k # ps)[0 := k ?r])" by (intro pay_run) auto
  then have "pay_reach E cat (?d, k ?r # ps)" using pay_reach_step [OF Do.prems] by simp
  then show ?case using Do.IH [OF rangeI] by simp
qed simp

lemma run_entry:
  assumes "pay_reach E cat (d, ps)" "payEntry E p"
  shows "pay_reach E cat (snd (runAlone E p d), Done (fst (runAlone E p d)) # ps)"
  using pay_reach_step [OF assms(1) pay_start [OF assms(2)]] by (rule runAlone_reach)

text \<open>A paid balance order, for the instances below.\<close>

definition demoEnv :: payEnv where
  "demoEnv = \<lparr>pe_InstanceKey = \<lambda>_. ''easypay'', pe_OrderKey = \<lambda>_. [], pe_RegistryKey = \<lambda>_. [],
     pe_MetadataOK = \<lambda>_ _ _. True, pe_MinorUnit = \<lambda>_. 2, pe_Rebate = \<lambda>_ base. base div 10,
     pe_JoinNotes = \<lambda>old new. old @ [char_of (10::nat)] @ new\<rparr>"

definition demoOrder :: payOrder where
  "demoOrder = \<lparr>po_ID = 1, po_UserID = 7, po_OrderType = OrderTypeBalance, po_Amount = 1000000000,
     po_PayAmount = 7300000000, po_RechargeCode = ''PAY-1-23'', po_OutTradeNo = ''sub2_a1'', po_PaymentType = ''alipay'',
     po_PaymentTradeNo = [], po_SubscriptionGroupID = None, po_SubscriptionDays = None,
     po_Status = OrderStatusPending, po_ExpiresAt = 1800 * second, po_UpdatedAt = 0, po_PaidAt = None,
     po_CompletedAt = None, po_FailedReason = None\<rparr>"

definition demoCat :: catalogue where
  "demoCat oid = (if oid = 1 then Some demoOrder else if oid = 2 then Some (demoOrder\<lparr>po_ID := 2,
     po_OrderType := OrderTypeSubscription, po_RechargeCode := ''PAY-2-23'', po_OutTradeNo := ''sub2_a2'',
     po_SubscriptionGroupID := Some 5, po_SubscriptionDays := Some 30\<rparr>) else None)"

definition demoStart :: payDB where
  "demoStart = \<lparr>pd_orders = [], pd_codes = [], pd_nextCode = 1, pd_balances = [(7, 0)], pd_groups = [(5, ''active'')],
     pd_audit = [], pd_notes = [], pd_now = second, pd_credits = [], pd_granted = [], pd_rebates = []\<rparr>"

definition demoNotice :: "string \<Rightarrow> notification" where
  "demoNotice trade = \<lparr>nt_TradeNo = ''t9'', nt_OrderID = trade, nt_Amount = Amount 7300000000,
     nt_Status = ''success'', nt_Metadata = []\<rparr>"

lemma demoCat_ok: "cat_ok demoCat"
proof -
  have "trim_space ''PAY-1-23'' = ''PAY-1-23''" "trim_space ''PAY-2-23'' = ''PAY-2-23''" by code_simp+
  then show ?thesis by (auto simp: cat_ok_def demoCat_def demoOrder_def split: if_splits)
qed

lemma demo_place:
  assumes "demoCat i = Some c" "po_ID c = i"
  shows "pay_reach demoEnv demoCat (demoStart\<lparr>pd_orders := [c]\<rparr>, [])"
proof -
  have "pay_reach demoEnv demoCat (demoStart, [])"
    by (rule pay_reach_start) (simp add: emptyTables_def demoStart_def)
  moreover have "po_Status c = OrderStatusPending \<and> po_PaidAt c = None"
    using assms by (auto simp: demoCat_def demoOrder_def split: if_splits)
  ultimately have "pay_reach demoEnv demoCat (demoStart\<lparr>pd_orders := pd_orders demoStart @ [c]\<rparr>, [])"
    using assms by (intro pay_reach_step [OF _ pay_place]) (auto simp: demoStart_def)
  then show ?thesis by (simp add: demoStart_def)
qed

definition demoPaid :: "int \<Rightarrow> payDB" where
  "demoPaid i = snd (runAlone demoEnv
     (HandlePaymentNotification demoEnv (demoNotice (po_OutTradeNo (the (demoCat i)))) ''easypay'')
     (demoStart\<lparr>pd_orders := [the (demoCat i)]\<rparr>))"

lemma demoPaid_reach: "i = 1 \<or> i = 2 \<Longrightarrow> \<exists>ps. pay_reach demoEnv demoCat (demoPaid i, ps)"
  unfolding demoPaid_def
  by (rule exI, rule run_entry [OF demo_place [of i]]) (auto simp: demoCat_def demoOrder_def intro: payEntry.intros)

section \<open>What the ledger says\<close>

lemma completed_credited:
  assumes "credits_ok d" "codes_ok cat d" "cat oid = Some c" "holds d (CodeUsed (po_RechargeCode c) uid)"
  shows "(po_RechargeCode c, uid, po_Amount c) \<in> set (pd_credits d)"
proof -
  obtain x where x: "x \<in> set (pd_codes d)" "rc_Code x = po_RechargeCode c" "rc_Status x = StatusUsed" "rc_UsedBy x = Some uid"
    using assms(4) by auto
  then have "rc_Value x = po_Amount c" using assms(2,3) by (auto simp: codes_ok_def)
  then show ?thesis using usedCreditsI [of x "pd_codes d" uid] x assms(1) by (simp add: credits_ok_def)
qed

lemma credit_paid:
  assumes ok: "db_ok cat d" and c: "cat oid = Some c" and credit: "(po_RechargeCode c, uid, v) \<in> set (pd_credits d)"
  shows "v = po_Amount c" "\<exists>o1\<in>set (pd_orders d). po_ID o1 = oid \<and> po_PaidAt o1 \<noteq> None \<and> tolerated c (po_PayAmount o1)"
proof -
  obtain x where x: "x \<in> set (pd_codes d)" "rc_Code x = po_RechargeCode c" "rc_Value x = v"
    using ok credit by (auto simp: db_ok_def credits_ok_def usedCredits_def)
  then have "rc_Value x = po_Amount c \<and> holds d (Paid oid)" using ok c by (auto simp: db_ok_def codes_ok_def)
  then show "v = po_Amount c" using x by simp
  obtain o1 where o1: "o1 \<in> set (pd_orders d)" "po_ID o1 = oid" "po_PaidAt o1 \<noteq> None"
    using \<open>_ \<and> holds d (Paid oid)\<close> by auto
  then have "order_ok cat o1" using ok by (simp add: db_ok_def orders_ok_def)
  then show "\<exists>o1\<in>set (pd_orders d). po_ID o1 = oid \<and> po_PaidAt o1 \<noteq> None \<and> tolerated c (po_PayAmount o1)"
    using o1 c by (auto simp: order_ok_def)
qed

lemma count_distinct: "distinct (map fst xs) \<Longrightarrow> length (filter (\<lambda>p. fst p = k) xs) \<le> 1"
proof (induction xs)
  case (Cons p xs)
  show ?case
  proof (cases "fst p = k")
    case True
    then have "filter (\<lambda>p. fst p = k) xs = []" using Cons.prems True by (simp add: filter_empty_conv) (metis image_eqI)
    then show ?thesis by simp
  qed (use Cons in simp)
qed simp

text \<open>C13. However notifications, queries, retries, cancellations, expiry and users' redemptions
interleave, and whatever statements or replies are lost: an order's recharge code is credited at
most once, for the order's amount, only when the order was paid an amount within 0.01 of what was
asked; and a completed order that is no subscription has been credited to its own user.\<close>

theorem order_credited_once:
  assumes "pay_reach E cat (d, ps)" "cat_ok cat" "cat oid = Some c"
  shows "length (filter (\<lambda>p. fst p = po_RechargeCode c) (pd_credits d)) \<le> 1
     \<and> (\<forall>uid v. (po_RechargeCode c, uid, v) \<in> set (pd_credits d) \<longrightarrow> v = po_Amount c
         \<and> (\<exists>o1\<in>set (pd_orders d). po_ID o1 = oid \<and> po_PaidAt o1 \<noteq> None
              \<and> 0 < po_PayAmount o1 \<and> \<bar>po_PayAmount o1 - po_PayAmount c\<bar> \<le> 1000000))
     \<and> (\<forall>o1\<in>set (pd_orders d). po_ID o1 = oid \<longrightarrow> po_Status o1 = OrderStatusCompleted
         \<longrightarrow> po_OrderType c \<noteq> OrderTypeSubscription
         \<longrightarrow> (po_RechargeCode c, po_UserID c, po_Amount c) \<in> set (pd_credits d))"
proof (intro conjI ballI allI impI)
  have ok: "db_ok cat d" using pay_reach_inv [OF assms(1,2)] by (simp add: pay_inv_def)
  then show "length (filter (\<lambda>p. fst p = po_RechargeCode c) (pd_credits d)) \<le> 1"
    by (intro count_distinct) (simp add: db_ok_def credits_ok_def)
  show "v = po_Amount c" if "(po_RechargeCode c, uid, v) \<in> set (pd_credits d)" for uid v
    using credit_paid [OF ok assms(3) that] by simp
  show "\<exists>o1\<in>set (pd_orders d). po_ID o1 = oid \<and> po_PaidAt o1 \<noteq> None
      \<and> 0 < po_PayAmount o1 \<and> \<bar>po_PayAmount o1 - po_PayAmount c\<bar> \<le> 1000000"
    if "(po_RechargeCode c, uid, v) \<in> set (pd_credits d)" for uid v
    using credit_paid(2) [OF ok assms(3) that] by (auto simp: tolerated_def)
  show "(po_RechargeCode c, po_UserID c, po_Amount c) \<in> set (pd_credits d)"
    if "o1 \<in> set (pd_orders d)" "po_ID o1 = oid" "po_Status o1 = OrderStatusCompleted"
      "po_OrderType c \<noteq> OrderTypeSubscription" for o1
  proof -
    have "holds d (delivered c)" using ok that(1-3) assms(3) by (auto simp: db_ok_def orders_ok_def)
    then show ?thesis
      using completed_credited [of d cat oid c "po_UserID c"] ok that(4) assms(3)
      by (simp add: delivered_def db_ok_def del: holds.simps)
  qed
qed

theorem order_credited_once_witness:
  "length (filter (\<lambda>p. fst p = ''PAY-1-23'') (pd_credits (demoPaid 1))) \<le> 1
   \<and> (''PAY-1-23'', 7, 1000000000) \<in> set (pd_credits (demoPaid 1))"
proof -
  obtain ps where ps: "pay_reach demoEnv demoCat (demoPaid 1, ps)" using demoPaid_reach [of 1] by auto
  have c: "demoCat 1 = Some demoOrder" by (simp add: demoCat_def)
  have "map (\<lambda>o1. (po_ID o1, po_Status o1)) (pd_orders (demoPaid 1)) = [(1, OrderStatusCompleted)]" by code_simp
  then obtain o1 where "o1 \<in> set (pd_orders (demoPaid 1))" "po_ID o1 = 1" "po_Status o1 = OrderStatusCompleted" by auto
  then show ?thesis
    using order_credited_once [OF ps demoCat_ok c] by (auto simp: demoOrder_def OrderTypeBalance_def OrderTypeSubscription_def)
qed

text \<open>C14. In the same runs an order's subscription term is granted at most once and its rebate is
accrued at most once, both only for paid orders; the grant is to the order's user, group and days,
and a completed subscription order has its assignment in the audit log.\<close>

theorem subscription_and_rebate_once:
  assumes "pay_reach E cat (d, ps)" "cat_ok cat" "cat oid = Some c"
  shows "length (filter (\<lambda>p. fst p = oid) (pd_granted d)) \<le> 1
     \<and> length (filter (\<lambda>p. fst p = oid) (pd_rebates d)) \<le> 1
     \<and> (\<forall>uid gid days. (oid, uid, gid, days) \<in> set (pd_granted d) \<longrightarrow> uid = po_UserID c
         \<and> po_SubscriptionGroupID c = Some gid \<and> po_SubscriptionDays c = Some days)
     \<and> (oid \<in> fst ` set (pd_granted d) \<union> fst ` set (pd_rebates d)
         \<longrightarrow> (\<exists>o1\<in>set (pd_orders d). po_ID o1 = oid \<and> po_PaidAt o1 \<noteq> None))
     \<and> (\<forall>o1\<in>set (pd_orders d). po_ID o1 = oid \<longrightarrow> po_Status o1 = OrderStatusCompleted
         \<longrightarrow> po_OrderType c = OrderTypeSubscription \<longrightarrow> assignmentAudited oid d)"
proof (intro conjI)
  have ok: "db_ok cat d" using pay_reach_inv [OF assms(1,2)] by (simp add: pay_inv_def)
  show "length (filter (\<lambda>p. fst p = oid) (pd_granted d)) \<le> 1" "length (filter (\<lambda>p. fst p = oid) (pd_rebates d)) \<le> 1"
    using ok count_distinct [of "pd_granted d" oid] count_distinct [of "pd_rebates d" oid]
    by (simp_all add: db_ok_def grants_ok_def rebates_ok_def del: holds.simps)
  show "\<forall>uid gid days. (oid, uid, gid, days) \<in> set (pd_granted d) \<longrightarrow> uid = po_UserID c
      \<and> po_SubscriptionGroupID c = Some gid \<and> po_SubscriptionDays c = Some days"
    using ok assms(3) by (fastforce simp: db_ok_def grants_ok_def simp del: holds.simps)
  have "holds d (Paid oid)" if "oid \<in> fst ` set (pd_granted d) \<union> fst ` set (pd_rebates d)"
    using ok that by (fastforce simp: db_ok_def grants_ok_def rebates_ok_def simp del: holds.simps)
  then show "oid \<in> fst ` set (pd_granted d) \<union> fst ` set (pd_rebates d)
      \<longrightarrow> (\<exists>o1\<in>set (pd_orders d). po_ID o1 = oid \<and> po_PaidAt o1 \<noteq> None)" by simp
  have "holds d (delivered c)" if "o1 \<in> set (pd_orders d)" "po_ID o1 = oid" "po_Status o1 = OrderStatusCompleted" for o1
    using ok that assms(3) by (auto simp: db_ok_def orders_ok_def)
  moreover have "po_ID c = oid" using assms(2,3) by (simp add: cat_ok_def)
  ultimately show "\<forall>o1\<in>set (pd_orders d). po_ID o1 = oid \<longrightarrow> po_Status o1 = OrderStatusCompleted
      \<longrightarrow> po_OrderType c = OrderTypeSubscription \<longrightarrow> assignmentAudited oid d"
    by (auto simp: delivered_def)
qed

theorem subscription_and_rebate_once_witness:
  "length (filter (\<lambda>p. fst p = 2) (pd_granted (demoPaid 2))) \<le> 1 \<and> assignmentAudited 2 (demoPaid 2)"
proof -
  obtain ps where ps: "pay_reach demoEnv demoCat (demoPaid 2, ps)" using demoPaid_reach [of 2] by auto
  obtain c where c: "demoCat 2 = Some c" "po_OrderType c = OrderTypeSubscription" by (simp add: demoCat_def)
  have "map (\<lambda>o1. (po_ID o1, po_Status o1)) (pd_orders (demoPaid 2)) = [(2, OrderStatusCompleted)]" by code_simp
  then obtain o1 where "o1 \<in> set (pd_orders (demoPaid 2))" "po_ID o1 = 2" "po_Status o1 = OrderStatusCompleted" by auto
  then show ?thesis using subscription_and_rebate_once [OF ps demoCat_ok c(1)] c(2) by auto
qed

end
