(* ===== verification/PaymentCompletion.thy ===== *)
theory PaymentCompletion
  imports PaymentSystem
begin

text \<open>
  A paid order can always be completed: whatever the interleaved flows have left behind, one
  fulfilment that runs to its end, with no statement lost, completes it.
\<close>

section \<open>Stages of a fulfilment\<close>

definition fulfilled :: "int \<Rightarrow> string option \<times> payDB \<Rightarrow> bool" where
  "fulfilled oid r \<longleftrightarrow> fst r = None \<and> (\<exists>o1. orderByID oid (snd r) = Some o1 \<and> po_Status o1 = OrderStatusCompleted)"

definition leased :: "int \<Rightarrow> time \<Rightarrow> payDB \<Rightarrow> bool" where
  "leased oid v d \<longleftrightarrow> (\<exists>o1. orderByID oid d = Some o1 \<and> leasedBy v o1)"

lemma orderByID_cong: "pd_orders d' = pd_orders d \<Longrightarrow> orderByID oid d' = orderByID oid d"
  by (simp add: orderByID_def)

lemma leased_cong: "pd_orders d' = pd_orders d \<Longrightarrow> leased oid v d' = leased oid v d"
  by (simp add: leased_def orderByID_def)

lemma find_map_key: "(\<And>x. f (g x) = f x) \<Longrightarrow> find (\<lambda>x. f x = k) (map g xs) = map_option g (find (\<lambda>x. f x = k) xs)"
  by (induction xs) auto

lemma update_hit:
  assumes o1: "orderByID oid d = Some o1" "P o1" and upd: "\<And>o2. po_ID (upd o2) = po_ID o2"
  shows "\<exists>n. fst (updateOrder oid P upd d) = RCount (Suc n)"
    "orderByID oid (snd (updateOrder oid P upd d)) = Some ((upd o1)\<lparr>po_UpdatedAt := pd_now d\<rparr>)"
proof -
  let ?g = "\<lambda>o1. if po_ID o1 = oid \<and> P o1 then (upd o1)\<lparr>po_UpdatedAt := pd_now d\<rparr> else o1"
  have in_d: "o1 \<in> set (pd_orders d)" "po_ID o1 = oid" using find_in o1(1) unfolding orderByID_def by fastforce+
  then have "filter (\<lambda>o1. po_ID o1 = oid \<and> P o1) (pd_orders d) \<noteq> []" using o1(2) by (auto simp: filter_empty_conv)
  then obtain n where "length (filter (\<lambda>o1. po_ID o1 = oid \<and> P o1) (pd_orders d)) = Suc n"
    by (cases "filter (\<lambda>o1. po_ID o1 = oid \<and> P o1) (pd_orders d)") auto
  then show "\<exists>n. fst (updateOrder oid P upd d) = RCount (Suc n)" by (simp add: updateOrder_def)
  have "find (\<lambda>o1. po_ID o1 = oid) (map ?g (pd_orders d)) = map_option ?g (find (\<lambda>o1. po_ID o1 = oid) (pd_orders d))"
    by (rule find_map_key) (simp add: upd)
  then show "orderByID oid (snd (updateOrder oid P upd d)) = Some ((upd o1)\<lparr>po_UpdatedAt := pd_now d\<rparr>)"
    using o1 in_d(2) by (simp add: updateOrder_def orderByID_def)
qed

lemma markCompleted_fulfills:
  assumes "leased (po_ID o1) v d"
  shows "fulfilled (po_ID o1) (runAlone E (markCompleted o1 v a kerr) d)"
proof -
  let ?upd = "\<lambda>o1. o1\<lparr>po_Status := OrderStatusCompleted, po_CompletedAt := Some (pd_now d)\<rparr>"
  let ?u = "updateOrder (po_ID o1) (leasedBy v) ?upd d"
  obtain o2 where o2: "orderByID (po_ID o1) d = Some o2" "leasedBy v o2" using assms by (auto simp: leased_def)
  obtain n where n: "fst ?u = RCount (Suc n)" using update_hit(1) [of _ d o2 "leasedBy v" ?upd] o2 by force
  have "orderByID (po_ID o1) (snd ?u) = Some ((?upd o2)\<lparr>po_UpdatedAt := pd_now d\<rparr>)"
    using update_hit(2) [of _ d o2 "leasedBy v" ?upd] o2 by simp
  then show ?thesis
    using n by (simp add: markCompleted_def fulfilled_def writeAuditLog_def orderByID_def)
qed

lemma rebate_continues:
  obtains d' where "runAlone E (applyAffiliateRebateForOrder o1 kerr kok) d = runAlone E kok d'" "pd_orders d' = pd_orders d"
proof (cases "affiliateRebateBaseAmount o1 \<le> 0")
  case True
  then show thesis using that [of d] by (simp add: applyAffiliateRebateForOrder_def)
next
  case False
  let ?r = "rebateTx E (po_ID o1) (po_UserID o1) (affiliateRebateBaseAmount o1) d"
  have "fst ?r = ROk" "pd_orders (snd ?r) = pd_orders d" by (simp_all add: rebateTx_def Let_def)
  then show thesis using that [of "snd ?r"] False by (simp add: applyAffiliateRebateForOrder_def Let_def)
qed

lemma finish_fulfills:
  assumes "leased (po_ID o1) v d"
  shows "fulfilled (po_ID o1) (runAlone E (applyAffiliateRebateForOrder o1 kerr (markCompleted o1 v a kerr)) d)"
proof -
  obtain d' where "runAlone E (applyAffiliateRebateForOrder o1 kerr (markCompleted o1 v a kerr)) d
      = runAlone E (markCompleted o1 v a kerr) d'" "pd_orders d' = pd_orders d" by (rule rebate_continues)
  then show ?thesis using assms markCompleted_fulfills [of o1 v d'] by (simp add: leased_cong [of d' d])
qed

text \<open>Codes that \<open>redeem\<close> accepts.\<close>

definition redeemable :: "payDB \<Rightarrow> string \<Rightarrow> bool" where
  "redeemable d code \<longleftrightarrow> (\<exists>x. find (\<lambda>c. rc_Code c = code) (pd_codes d) = Some x \<and> rc_Status x = StatusUnused
     \<and> rc_ExpiresAt x = None \<and> rc_Type x = RedeemTypeBalance)"

lemma redeem_continues:
  assumes "distinct (map rc_ID (pd_codes d))" "redeemable d code" "m_get (pd_balances d) uid \<noteq> None"
  obtains d' where "runAlone E (redeem uid code kerr kok) d = runAlone E kok d'" "pd_orders d' = pd_orders d"
proof -
  obtain x where x: "find (\<lambda>c. rc_Code c = code) (pd_codes d) = Some x" "rc_Status x = StatusUnused"
    "rc_ExpiresAt x = None" "rc_Type x = RedeemTypeBalance" using assms(2) by (auto simp: redeemable_def)
  have "x \<in> set (pd_codes d)" using find_in [OF x(1)] by simp
  then have found: "find (\<lambda>c. rc_ID c = rc_ID x \<and> rc_Status c = StatusUnused) (pd_codes d) = Some x"
    using find_distinct [OF assms(1), of x "\<lambda>c. rc_Status c = StatusUnused"] x(2) by simp
  obtain b where b: "m_get (pd_balances d) uid = Some b" using assms(3) by auto
  let ?r = "redeemTx (rc_ID x) uid (rc_Value x) d"
  have r: "fst ?r = ROk" "pd_orders (snd ?r) = pd_orders d" using found b by (simp_all add: redeemTx_def)
  have "runAlone E (redeem uid code kerr kok) d = runAlone E kok (snd ?r)"
    using x b r(1) by (simp add: redeem_def IsExpiredAt_def CanUse_def codeStatuses)
  then show thesis using r(2) that by blast
qed

lemma find_snoc: "find P xs = None \<Longrightarrow> find P (xs @ [x]) = (if P x then Some x else None)"
  by (induction xs) (auto split: if_splits)

lemma create_continues:
  assumes "find (\<lambda>c. rc_Code c = code) (pd_codes d) = None" "trim_space code = code" "code \<noteq> []" "v \<noteq> 0"
    "codes_ok cat d" "m_get (pd_balances d) uid \<noteq> None"
  obtains d' where "runAlone E (CreateCode \<lparr>rc_ID = 0, rc_Code = code, rc_Type = RedeemTypeBalance,
      rc_Value = v, rc_Status = StatusUnused, rc_UsedBy = None, rc_ExpiresAt = None\<rparr> kerr
      (redeem uid code kerr kok)) d = runAlone E kok d'" "pd_orders d' = pd_orders d"
proof -
  let ?x = "\<lparr>rc_ID = pd_nextCode d, rc_Code = code, rc_Type = RedeemTypeBalance, rc_Value = v,
    rc_Status = StatusUnused, rc_UsedBy = None, rc_ExpiresAt = None\<rparr>"
  let ?d = "d\<lparr>pd_codes := pd_codes d @ [?x], pd_nextCode := pd_nextCode d + 1\<rparr>"
  have "rc_ID x < pd_nextCode d" if "x \<in> set (pd_codes d)" for x using assms(5) that by (simp add: codes_ok_def)
  then have "pd_nextCode d \<notin> rc_ID ` set (pd_codes d)" by fastforce
  then have "distinct (map rc_ID (pd_codes ?d))" using assms(5) by (auto simp: codes_ok_def)
  moreover have "find (\<lambda>c. rc_Code c = code) (pd_codes d @ [?x]) = Some ?x"
    using find_snoc [OF assms(1), of ?x] by simp
  then have "redeemable ?d code" by (simp add: redeemable_def)
  moreover have "m_get (pd_balances ?d) uid \<noteq> None" using assms(6) by simp
  ultimately obtain d' where d': "runAlone E (redeem uid code kerr kok) ?d = runAlone E kok d'" "pd_orders d' = pd_orders ?d"
    by (rule redeem_continues)
  then show thesis using that [of d'] assms(1-4) by (simp add: CreateCode_def Let_def)
qed

section \<open>Balance orders\<close>

text \<open>The order's code has not been redeemed by another user.\<close>

lemma doBalance_fulfills:
  assumes d: "leased (po_ID o1) v d" "codes_ok cat d" and c: "cat (po_ID o1) = Some c" "sameOrder c o1"
    and code: "trim_space (po_RechargeCode o1) = po_RechargeCode o1" "po_RechargeCode o1 \<noteq> []" "po_Amount o1 \<noteq> 0"
    and user: "m_get (pd_balances d) (po_UserID o1) \<noteq> None"
    and own: "\<And>u. holds d (CodeUsed (po_RechargeCode o1) u) \<Longrightarrow> u = po_UserID o1"
  shows "fulfilled (po_ID o1) (runAlone E (doBalance o1 v kerr) d)"
proof -
  let ?finish = "applyAffiliateRebateForOrder o1 kerr (markCompleted o1 v ''RECHARGE_SUCCESS'' kerr)"
  have finish: "fulfilled (po_ID o1) (runAlone E ?finish d')" if "pd_orders d' = pd_orders d" for d'
    using d(1) leased_cong [OF that] by (intro finish_fulfills) simp
  show ?thesis
  proof (cases "find (\<lambda>c. rc_Code c = po_RechargeCode o1) (pd_codes d)")
    case None
    obtain d' where "runAlone E (doBalance o1 v kerr) d = runAlone E ?finish d'" "pd_orders d' = pd_orders d"
    proof (rule create_continues [OF None code d(2) user, where E = E and kerr = kerr and kok = ?finish])
      fix d' assume "runAlone E (CreateCode \<lparr>rc_ID = 0, rc_Code = po_RechargeCode o1, rc_Type = RedeemTypeBalance,
          rc_Value = po_Amount o1, rc_Status = StatusUnused, rc_UsedBy = None, rc_ExpiresAt = None\<rparr> kerr
          (redeem (po_UserID o1) (po_RechargeCode o1) kerr ?finish)) d = runAlone E ?finish d'"
        "pd_orders d' = pd_orders d"
      then show thesis using None by (intro that [of d']) (simp_all add: doBalance_def resolveRedeemAction_def Let_def)
    qed
    then show ?thesis using finish by simp
  next
    case (Some x)
    have x: "x \<in> set (pd_codes d)" "rc_Code x = po_RechargeCode o1" using find_in [OF Some] by auto
    have typed: "rc_Type x = RedeemTypeBalance" "rc_ExpiresAt x = None" "rc_Value x = po_Amount o1"
      using d(2) x c by (auto simp: codes_ok_def sameOrder_def)
    show ?thesis
    proof (cases "rc_Status x = StatusUsed")
      case True
      then obtain u where u: "rc_UsedBy x = Some u" using d(2) x(1) by (fastforce simp: codes_ok_def codeStatuses)
      then have "u = po_UserID o1" using own x True by auto
      then have "runAlone E (doBalance o1 v kerr) d = runAlone E ?finish d"
        using True u Some x typed
        by (simp add: doBalance_def resolveRedeemAction_def validatePaymentRedeemCode_def IsUsed_def codeStatuses Let_def)
      then show ?thesis using finish by simp
    next
      case False
      then have unused: "rc_Status x = StatusUnused" "rc_UsedBy x = None" using d(2) x(1) by (auto simp: codes_ok_def)
      have ids: "distinct (map rc_ID (pd_codes d))" using d(2) by (simp add: codes_ok_def)
      have "redeemable d (po_RechargeCode o1)" using Some unused typed by (simp add: redeemable_def)
      then obtain d' where "runAlone E (redeem (po_UserID o1) (po_RechargeCode o1) kerr ?finish) d = runAlone E ?finish d'"
        "pd_orders d' = pd_orders d" using redeem_continues [OF ids _ user] by blast
      moreover have "runAlone E (doBalance o1 v kerr) d
          = runAlone E (redeem (po_UserID o1) (po_RechargeCode o1) kerr ?finish) d"
        using unused Some x typed
        by (simp add: doBalance_def resolveRedeemAction_def validatePaymentRedeemCode_def IsUsed_def codeStatuses Let_def)
      ultimately show ?thesis using finish by simp
    qed
  qed
qed

lemma execute_fulfills:
  assumes ok: "db_ok cat d" "cat_ok cat" and c: "cat oid = Some c" "po_OrderType c \<noteq> OrderTypeSubscription"
    and o1: "orderByID oid d = Some o1" "leasable (pd_now d) o1"
    and code: "po_RechargeCode c \<noteq> []" "po_Amount c \<noteq> 0" and user: "m_get (pd_balances d) (po_UserID c) \<noteq> None"
    and own: "\<And>u. holds d (CodeUsed (po_RechargeCode c) u) \<Longrightarrow> u = po_UserID c"
  shows "fulfilled oid (runAlone E (executeFulfillment oid) d)"
proof -
  let ?upd = "\<lambda>o1. o1\<lparr>po_Status := OrderStatusRecharging, po_FailedReason := None\<rparr>"
  let ?u = "updateOrder oid (leasable (pd_now d)) ?upd d"
  let ?o2 = "(?upd o1)\<lparr>po_UpdatedAt := pd_now d\<rparr>"
  have in_d: "o1 \<in> set (pd_orders d)" "po_ID o1 = oid" using find_in o1(1) unfolding orderByID_def by fastforce+
  have order: "order_ok cat o1" using ok(1) in_d by (simp add: db_ok_def orders_ok_def)
  then have same: "sameOrder c o1" "cat (po_ID o1) = Some c" using c in_d by (auto simp: order_ok_def)
  obtain n where n: "fst ?u = RCount (Suc n)" using update_hit(1) [of oid d o1 "leasable (pd_now d)" ?upd] o1 by force
  have o2: "orderByID oid (snd ?u) = Some ?o2" using update_hit(2) [of oid d o1 "leasable (pd_now d)" ?upd] o1 by simp
  have "sound cat {} d (AcquireLease oid) (runStmt E (AcquireLease oid) d)"
    by (rule sound_marks(1) [OF ok(1)]) simp
  then have u: "db_ok cat (snd ?u)" by (simp add: sound_def)
  have same_db: "pd_balances (snd ?u) = pd_balances d" "pd_codes (snd ?u) = pd_codes d" by (simp_all add: updateOrder_def)
  have fields: "po_UserID o1 = po_UserID c" "po_RechargeCode o1 = po_RechargeCode c" "po_Amount o1 = po_Amount c"
    "po_OrderType o1 = po_OrderType c" using same by (auto simp: sameOrder_def)
  have "fulfilled (po_ID o1) (runAlone E (doBalance o1 (pd_now d) (markFailed oid (pd_now d))) (snd ?u))"
  proof (rule doBalance_fulfills)
    show "leased (po_ID o1) (pd_now d) (snd ?u)" using o2 in_d by (simp add: leased_def leasedBy_def)
    show "codes_ok cat (snd ?u)" using u by (simp add: db_ok_def)
    show "trim_space (po_RechargeCode o1) = po_RechargeCode o1" using ok(2) c(1) fields by (simp add: cat_ok_def)
  qed (use same fields code user own same_db in auto)
  moreover have "runAlone E (executeFulfillment oid) d
      = runAlone E (doBalance o1 (pd_now d) (markFailed oid (pd_now d))) (snd ?u)"
  proof -
    have "runAlone E (acquirePaymentFulfillmentLease o1 k) d = runAlone E (k (pd_now d)) (snd ?u)" for k
      using n o2 in_d by (simp add: acquirePaymentFulfillmentLease_def)
    moreover have "runAlone E (fulfillable o1 k) d = runAlone E k d" for k
      using o1(2) by (auto simp: fulfillable_def leasable_def psIsRefundStatus_def orderStatuses)
    ultimately show ?thesis
      using o1(1) c(2) fields by (simp add: executeFulfillment_def ExecuteBalanceFulfillment_def)
  qed
  ultimately show ?thesis using in_d by simp
qed

text \<open>C15. From every reachable state, a balance order that is paid, failed or left by a worker whose
lease has run out is completed and credited to its user by one fulfilment that runs undisturbed, if
the user exists and nobody else has redeemed the order's code. What other workers did before they
stopped does not matter.\<close>

theorem paid_order_completes:
  assumes "pay_reach E cat (d, ps)" "cat_ok cat" "cat oid = Some c" "po_OrderType c = OrderTypeBalance"
    and "orderByID oid d = Some o1" "leasable (pd_now d) o1" "po_RechargeCode c \<noteq> []" "po_Amount c \<noteq> 0"
    and "m_get (pd_balances d) (po_UserID c) \<noteq> None"
    and "\<And>x. x \<in> set (pd_codes d) \<Longrightarrow> rc_Code x = po_RechargeCode c \<Longrightarrow> rc_UsedBy x \<in> {None, Some (po_UserID c)}"
  shows "fst (runAlone E (executeFulfillment oid) d) = None
     \<and> map_option po_Status (orderByID oid (snd (runAlone E (executeFulfillment oid) d))) = Some OrderStatusCompleted
     \<and> (po_RechargeCode c, po_UserID c, po_Amount c) \<in> set (pd_credits (snd (runAlone E (executeFulfillment oid) d)))"
proof -
  let ?d = "snd (runAlone E (executeFulfillment oid) d)"
  have ok: "db_ok cat d" using pay_reach_inv [OF assms(1,2)] by (simp add: pay_inv_def)
  have balance: "po_OrderType c \<noteq> OrderTypeSubscription"
    using assms(4) by (simp add: OrderTypeBalance_def OrderTypeSubscription_def)
  have "fulfilled oid (runAlone E (executeFulfillment oid) d)"
    using assms(10) by (intro execute_fulfills [OF ok assms(2,3) balance assms(5-9)]) fastforce
  then obtain o2 where o2: "fst (runAlone E (executeFulfillment oid) d) = None" "orderByID oid ?d = Some o2"
    "po_Status o2 = OrderStatusCompleted" by (auto simp: fulfilled_def)
  have ok': "db_ok cat ?d"
    using pay_reach_inv [OF run_entry [OF assms(1) payEntry.intros(2)] assms(2)] by (simp add: pay_inv_def)
  have "o2 \<in> set (pd_orders ?d)" "po_ID o2 = oid" using find_in o2(2) unfolding orderByID_def by fastforce+
  then have "holds ?d (delivered c)" using ok' o2(3) assms(3) by (auto simp: db_ok_def orders_ok_def)
  then have "(po_RechargeCode c, po_UserID c, po_Amount c) \<in> set (pd_credits ?d)"
    using completed_credited [of ?d cat oid c "po_UserID c"] ok' balance assms(3)
    by (simp add: delivered_def db_ok_def del: holds.simps)
  then show ?thesis using o2 by simp
qed

text \<open>The first worker found no user and marked the order failed; then the user was restored.\<close>

definition demoFailed :: payDB where
  "demoFailed = (snd (runAlone demoEnv (HandlePaymentNotification demoEnv (demoNotice ''sub2_a1'') ''easypay'')
     (demoStart\<lparr>pd_orders := [demoOrder], pd_balances := [], pd_groups := [], pd_notes := []\<rparr>)))
     \<lparr>pd_balances := [(7, 0)], pd_groups := [], pd_notes := []\<rparr>"

lemma demoFailed_reach: "\<exists>ps. pay_reach demoEnv demoCat (demoFailed, ps)"
proof -
  have "pay_reach demoEnv demoCat (demoStart\<lparr>pd_orders := [demoOrder]\<rparr>, [])"
    by (rule demo_place [of 1]) (simp_all add: demoCat_def demoOrder_def)
  then have "pay_reach demoEnv demoCat
      (demoStart\<lparr>pd_orders := [demoOrder], pd_balances := [], pd_groups := [], pd_notes := []\<rparr>, [])"
    by (rule pay_reach_step) (rule pay_other)
  from run_entry [OF this payEntry.intros(1)] show ?thesis
    unfolding demoFailed_def by (intro exI) (rule pay_reach_step [OF _ pay_other])
qed

theorem paid_order_completes_witness:
  "fst (runAlone demoEnv (executeFulfillment 1) demoFailed) = None
   \<and> map_option po_Status (orderByID 1 (snd (runAlone demoEnv (executeFulfillment 1) demoFailed))) = Some OrderStatusCompleted"
proof -
  obtain ps where ps: "pay_reach demoEnv demoCat (demoFailed, ps)" using demoFailed_reach by auto
  have c: "demoCat 1 = Some demoOrder" "po_OrderType demoOrder = OrderTypeBalance" "po_RechargeCode demoOrder \<noteq> []"
    "po_Amount demoOrder \<noteq> 0" "m_get (pd_balances demoFailed) (po_UserID demoOrder) \<noteq> None"
    by (simp_all add: demoCat_def demoOrder_def demoFailed_def)
  have "map_option po_Status (orderByID 1 demoFailed) = Some OrderStatusFailed" by code_simp
  then obtain o1 where o1: "orderByID 1 demoFailed = Some o1" "leasable (pd_now demoFailed) o1"
    by (auto simp: leasable_def)
  have "map rc_UsedBy (pd_codes demoFailed) = [None]" by code_simp
  then have "rc_UsedBy x \<in> {None, Some (po_UserID demoOrder)}" if "x \<in> set (pd_codes demoFailed)" for x
    using that by auto
  from paid_order_completes [OF ps demoCat_ok c(1,2) o1 c(3-5) this] show ?thesis by simp
qed

section \<open>Late payments\<close>

definition demoLate :: payDB where
  "demoLate = demoStart\<lparr>pd_orders := [demoOrder\<lparr>po_Status := OrderStatusExpired\<rparr>], pd_now := 240 * hour\<rparr>"


end
