(* ===== verification/PaymentCurrency.thy ===== *)
theory PaymentCurrency
  imports Complex_Main PaymentFlow
begin

text \<open>
  Amounts in the currencies of payments: \<open>internal/payment/currency.go\<close>, \<open>amount.go\<close>, \<open>fee.go\<close> and
  \<open>service/payment_amounts.go\<close>.

  \<^item> The library \<open>shopspring/decimal\<close> is a parameter (\<open>decimalLib\<close>) over exact numbers, with the
    documented behaviour of its operations as \<open>decimal_laws\<close>.
  \<^item> A \<open>float64\<close> amount of the tables is a whole number of 1e-8 units, as in PaymentFlow; the
    multipliers and fee rates of the configuration are exact numbers too, NaN and infinities apart.
\<close>

section \<open>Decimal arithmetic\<close>

record decimalLib =
  dc_Div :: "rat \<Rightarrow> rat \<Rightarrow> rat"
  dc_Round :: "rat \<Rightarrow> nat \<Rightarrow> rat"
  dc_RoundUp :: "rat \<Rightarrow> nat \<Rightarrow> rat"
  dc_StringFixed :: "rat \<Rightarrow> nat \<Rightarrow> string"
  dc_FromString :: "string \<Rightarrow> rat option"

definition places :: "nat \<Rightarrow> rat \<Rightarrow> bool" where
  "places k x \<longleftrightarrow> (\<exists>n :: int. x * 10 ^ k = of_int n)"

text \<open>What the library documents: a quotient is exact or has 16 digits after the point, rounding goes to the
nearest number with that many digits (away from zero for \<open>RoundUp\<close>), and a fixed string is the
rounded number and reads back as it.\<close>

definition decimal_laws :: "decimalLib \<Rightarrow> bool" where
  "decimal_laws L \<longleftrightarrow>
     (\<forall>x y. y \<noteq> 0 \<longrightarrow> \<bar>dc_Div L x y - x / y\<bar> < 1 / 10 ^ 16 \<and> (places 16 (x / y) \<longrightarrow> dc_Div L x y = x / y))
   \<and> (\<forall>x k. places k (dc_Round L x k) \<and> \<bar>dc_Round L x k - x\<bar> \<le> 1 / 10 ^ k / 2)
   \<and> (\<forall>x k. places k (dc_RoundUp L x k) \<and> (0 \<le> x \<longrightarrow> x \<le> dc_RoundUp L x k \<and> dc_RoundUp L x k < x + 1 / 10 ^ k))
   \<and> (\<forall>x k. dc_FromString L (dc_StringFixed L x k) = Some (dc_Round L x k)
          \<and> trim_space (dc_StringFixed L x k) = dc_StringFixed L x k)"

text \<open>\<open>NewFromFloat\<close> and \<open>InexactFloat64\<close> on amounts of the tables.\<close>

definition fromUnits :: "int \<Rightarrow> rat" where "fromUnits n = of_int n / 10 ^ 8"
definition toUnits :: "rat \<Rightarrow> int" where "toUnits x = \<lfloor>x * 10 ^ 8\<rfloor>"

section \<open>Currencies\<close>

definition DefaultPaymentCurrency :: string where "DefaultPaymentCurrency = ''CNY''"

record amountUnit =
  apiMinorUnit :: nat
  maxFractionDigits :: nat

definition zeroDecimalAmountUnit :: amountUnit where "zeroDecimalAmountUnit = \<lparr>apiMinorUnit = 0, maxFractionDigits = 0\<rparr>"
definition twoDecimalAmountUnit :: amountUnit where "twoDecimalAmountUnit = \<lparr>apiMinorUnit = 2, maxFractionDigits = 2\<rparr>"
definition threeDecimalAmountUnit :: amountUnit where "threeDecimalAmountUnit = \<lparr>apiMinorUnit = 3, maxFractionDigits = 3\<rparr>"
definition stripeLegacyZeroAmount :: amountUnit where "stripeLegacyZeroAmount = \<lparr>apiMinorUnit = 2, maxFractionDigits = 0\<rparr>"

definition paymentCurrencyAmountUnits :: "(string \<times> amountUnit) list" where
  "paymentCurrencyAmountUnits =
     map (\<lambda>c. (c, zeroDecimalAmountUnit))
       [''BIF'', ''CLP'', ''DJF'', ''GNF'', ''JPY'', ''KMF'', ''KRW'', ''MGA'', ''PYG'', ''RWF'', ''VND'', ''VUV'',
        ''XAF'', ''XOF'', ''XPF'']
   @ map (\<lambda>c. (c, stripeLegacyZeroAmount)) [''ISK'', ''UGX'']
   @ map (\<lambda>c. (c, threeDecimalAmountUnit)) [''BHD'', ''IQD'', ''JOD'', ''KWD'', ''LYD'', ''OMR'', ''TND'']"

definition NormalizePaymentCurrency :: "string \<Rightarrow> string option" where
  "NormalizePaymentCurrency raw =
    (let currency = to_upper (trim_space raw)
     in if currency = [] then Some DefaultPaymentCurrency
        else if length currency \<noteq> 3 then None
        else if \<exists>ch\<in>set currency. char_code ch < char_code CHR ''A'' \<or> char_code CHR ''Z'' < char_code ch then None
        else Some currency)"

definition paymentCurrencyAmountUnitFor :: "string \<Rightarrow> amountUnit" where
  "paymentCurrencyAmountUnitFor currency =
    (case NormalizePaymentCurrency currency of
       None \<Rightarrow> twoDecimalAmountUnit
     | Some normalized \<Rightarrow>
         (case map_of paymentCurrencyAmountUnits normalized of Some u \<Rightarrow> u | None \<Rightarrow> twoDecimalAmountUnit))"

definition CurrencyMinorUnit :: "string \<Rightarrow> nat" where
  "CurrencyMinorUnit currency = apiMinorUnit (paymentCurrencyAmountUnitFor currency)"

definition CurrencyMaxFractionDigits :: "string \<Rightarrow> nat" where
  "CurrencyMaxFractionDigits currency = maxFractionDigits (paymentCurrencyAmountUnitFor currency)"

definition FormatAmountForCurrency :: "decimalLib \<Rightarrow> int \<Rightarrow> string \<Rightarrow> string" where
  "FormatAmountForCurrency L amount currency =
     dc_StringFixed L (fromUnits amount) (CurrencyMaxFractionDigits currency)"

text \<open>\<open>IntPart\<close> cuts towards zero; an amount beyond the 64 bits of the result wraps in the code and is
not cut here.\<close>

definition truncateRat :: "rat \<Rightarrow> int" where
  "truncateRat x = (if x < 0 then \<lceil>x\<rceil> else \<lfloor>x\<rfloor>)"

definition AmountToMinorUnit :: "decimalLib \<Rightarrow> string \<Rightarrow> string \<Rightarrow> string + int" where
  "AmountToMinorUnit L amountStr currency =
    (case dc_FromString L (trim_space amountStr) of
       None \<Rightarrow> Inl ''invalid amount''
     | Some x \<Rightarrow>
         (case NormalizePaymentCurrency currency of
            None \<Rightarrow> Inl ''payment currency must be a 3-letter ISO currency code''
          | Some normalized \<Rightarrow>
              (let unit = paymentCurrencyAmountUnitFor normalized;
                   scaled = x * 10 ^ maxFractionDigits unit
               in if scaled \<noteq> of_int (truncateRat scaled)
                  then Inl (if maxFractionDigits unit = 0 then ''payment amount must be a whole number''
                            else ''payment amount has too many decimal places'')
                  else Inr (truncateRat (x * 10 ^ apiMinorUnit unit)))))"

definition MinorUnitToAmount :: "decimalLib \<Rightarrow> int \<Rightarrow> string \<Rightarrow> int" where
  "MinorUnitToAmount L n currency = toUnits (dc_Div L (of_int n) (10 ^ CurrencyMinorUnit currency))"

definition YuanToFen :: "decimalLib \<Rightarrow> string \<Rightarrow> string + int" where
  "YuanToFen L yuanStr = AmountToMinorUnit L yuanStr DefaultPaymentCurrency"

definition FenToYuan :: "decimalLib \<Rightarrow> int \<Rightarrow> int" where
  "FenToYuan L fen = MinorUnitToAmount L fen DefaultPaymentCurrency"

section \<open>Fees, credits and refunds\<close>

definition CalculatePayAmountForCurrency :: "decimalLib \<Rightarrow> int \<Rightarrow> rat \<Rightarrow> string \<Rightarrow> string" where
  "CalculatePayAmountForCurrency L rechargeAmount feeRate currency =
    (let k = CurrencyMaxFractionDigits currency; amount = fromUnits rechargeAmount
     in if feeRate \<le> 0 then dc_StringFixed L amount k
        else dc_StringFixed L (amount + dc_RoundUp L (dc_Div L (amount * feeRate) 100) k) k)"

datatype configRate = RateNaN | RateInf | Rate rat

definition normalizeBalanceRechargeMultiplier :: "configRate \<Rightarrow> rat" where
  "normalizeBalanceRechargeMultiplier m = (case m of Rate x \<Rightarrow> if x \<le> 0 then 1 else x | _ \<Rightarrow> 1)"

definition normalizeSubscriptionUSDToCNYRate :: "configRate \<Rightarrow> rat" where
  "normalizeSubscriptionUSDToCNYRate m = (case m of Rate x \<Rightarrow> if x < 0 then 0 else x | _ \<Rightarrow> 0)"

definition calculateCreditedBalance :: "decimalLib \<Rightarrow> int \<Rightarrow> configRate \<Rightarrow> int" where
  "calculateCreditedBalance L paymentAmount multiplier =
     toUnits (dc_Round L (fromUnits paymentAmount * normalizeBalanceRechargeMultiplier multiplier) 2)"

definition currencyTolerance :: "string \<Rightarrow> int" where
  "currencyTolerance currency = paymentAmountToleranceForCurrency (int (CurrencyMinorUnit currency))"

definition calculateGatewayRefundAmount :: "decimalLib \<Rightarrow> int \<Rightarrow> int \<Rightarrow> int \<Rightarrow> string \<Rightarrow> int" where
  "calculateGatewayRefundAmount L orderAmount payAmount refundAmount currency =
    (if orderAmount \<le> 0 \<or> payAmount \<le> 0 \<or> refundAmount \<le> 0 then 0
     else (let k = CurrencyMaxFractionDigits currency
           in if \<bar>refundAmount - orderAmount\<bar> \<le> currencyTolerance currency
              then toUnits (dc_Round L (fromUnits payAmount) k)
              else toUnits (dc_Round L (dc_Div L (fromUnits payAmount * fromUnits refundAmount) (fromUnits orderAmount)) k)))"

section \<open>Facts\<close>

lemma places_mono: "places k x \<Longrightarrow> k \<le> j \<Longrightarrow> places j x"
proof -
  assume "places k x" "k \<le> j"
  then obtain n :: int where n: "x * 10 ^ k = of_int n" by (auto simp: places_def)
  have "x * 10 ^ j = x * 10 ^ k * 10 ^ (j - k)" using \<open>k \<le> j\<close> by (simp add: power_add [symmetric])
  also have "\<dots> = of_int (n * 10 ^ (j - k))" using n by simp
  finally show ?thesis unfolding places_def by blast
qed

lemma places_diff: "places k x \<Longrightarrow> places k y \<Longrightarrow> places k (x - y)"
  unfolding places_def by (metis left_diff_distrib of_int_diff)

text \<open>A number with that many digits below one unit of the last digit is not positive.\<close>

lemma places_small: "places k x \<Longrightarrow> x < 1 / 10 ^ k \<Longrightarrow> x \<le> 0"
proof -
  assume "places k x" "x < 1 / 10 ^ k"
  then obtain n :: int where n: "x * 10 ^ k = of_int n" by (auto simp: places_def)
  have "x * 10 ^ k < 1" using \<open>x < 1 / 10 ^ k\<close> by (simp add: field_simps)
  with n have "n \<le> 0" by simp
  with n have "x * 10 ^ k \<le> 0 * 10 ^ k" by simp
  then show "x \<le> 0" by (rule mult_right_le_imp_le) simp
qed

lemma round_close: "\<bar>r - x\<bar> \<le> u / 2 \<Longrightarrow> 0 < (u :: rat) \<Longrightarrow> r - x < u \<and> x - r < u"
  by linarith

lemma round_quotient_close:
  fixes r x q p u w e :: rat
  shows "q \<le> p \<Longrightarrow> 0 \<le> q \<Longrightarrow> \<bar>r - x\<bar> \<le> u / 2 \<Longrightarrow> \<bar>x - q\<bar> < e \<Longrightarrow> w \<le> u \<Longrightarrow> e < w / 2 \<Longrightarrow>
    r - p < u \<and> 0 - r < u \<and> \<bar>r - q\<bar> < u / 2 + e"
  by linarith

lemma round_places:
  assumes "decimal_laws L" "places k x" shows "dc_Round L x k = x"
proof -
  have r: "places k (dc_Round L x k)" "\<bar>dc_Round L x k - x\<bar> \<le> 1 / 10 ^ k / 2"
    using assms(1) by (auto simp: decimal_laws_def)
  have "dc_Round L x k - x < 1 / 10 ^ k" "x - dc_Round L x k < 1 / 10 ^ k"
    using round_close [OF r(2)] by simp_all
  with places_small [OF places_diff [OF r(1) assms(2)]] places_small [OF places_diff [OF assms(2) r(1)]]
  show ?thesis by linarith
qed

lemma toUnits_fromUnits [simp]: "toUnits (fromUnits n) = n"
  by (simp add: toUnits_def fromUnits_def)

lemma toUnits_zero: "toUnits 0 = 0"
  by (simp add: toUnits_def)

lemma truncate_of_int [simp]: "truncateRat (of_int n) = n"
  by (simp add: truncateRat_def)

lemma currency_units:
  "maxFractionDigits (paymentCurrencyAmountUnitFor c) \<le> apiMinorUnit (paymentCurrencyAmountUnitFor c)
   \<and> apiMinorUnit (paymentCurrencyAmountUnitFor c) \<le> 3"
  by (auto simp: paymentCurrencyAmountUnitFor_def paymentCurrencyAmountUnits_def zeroDecimalAmountUnit_def
      twoDecimalAmountUnit_def threeDecimalAmountUnit_def stripeLegacyZeroAmount_def
      dest!: map_of_SomeD split: option.split)

lemma toUnits_mono: "x \<le> y \<Longrightarrow> toUnits x \<le> toUnits y"
  unfolding toUnits_def by (intro floor_mono mult_right_mono) simp_all

lemma fromUnits_toUnits: "places k x \<Longrightarrow> k \<le> 8 \<Longrightarrow> fromUnits (toUnits x) = x"
proof -
  assume "places k x" "k \<le> 8"
  then obtain n :: int where n: "x * 10 ^ 8 = of_int n" using places_mono unfolding places_def by metis
  then have "fromUnits (toUnits x) = of_int n / 10 ^ 8" by (simp add: toUnits_def fromUnits_def)
  with n show ?thesis by (simp add: field_simps)
qed

lemma unit_bounds: "k \<le> 3 \<Longrightarrow> 1 / 10 ^ 3 \<le> (1 / 10 ^ k :: rat)"
  by (intro divide_left_mono power_increasing) simp_all

text \<open>C20. The gateway is never asked to refund more than the user paid, nor a negative amount: a refund of
the whole order, up to the comparison's tolerance, returns the payment, and a partial one the paid
amount's proportional share, rounded to the currency's digits.\<close>

theorem gateway_refund_bounded:
  assumes L: "decimal_laws L" and pos: "0 < order" "0 < pay" "0 < refund"
    and paid: "places (CurrencyMaxFractionDigits c) (fromUnits pay)"
    and refund: "refund - order \<le> currencyTolerance c"
  defines "ga \<equiv> calculateGatewayRefundAmount L order pay refund c"
  shows "0 \<le> ga \<and> ga \<le> pay
    \<and> (\<bar>refund - order\<bar> \<le> currencyTolerance c \<longrightarrow> ga = pay)
    \<and> (currencyTolerance c < \<bar>refund - order\<bar> \<longrightarrow>
         \<bar>fromUnits ga - fromUnits pay * fromUnits refund / fromUnits order\<bar>
           < 1 / 10 ^ CurrencyMaxFractionDigits c / 2 + 1 / 10 ^ 16)"
proof (cases "\<bar>refund - order\<bar> \<le> currencyTolerance c")
  case True
  with pos round_places [OF L paid] show ?thesis
    by (simp add: ga_def calculateGatewayRefundAmount_def)
next
  case False
  let ?k = "CurrencyMaxFractionDigits c"
  let ?q = "fromUnits pay * fromUnits refund / fromUnits order"
  let ?x = "dc_Div L (fromUnits pay * fromUnits refund) (fromUnits order)"
  let ?u = "1 / 10 ^ ?k :: rat"
  have k: "?k \<le> 3" using currency_units [of c] by (simp add: CurrencyMaxFractionDigits_def)
  have u: "1 / 10 ^ 3 \<le> ?u" by (rule unit_bounds [OF k])
  have small: "1 / 10 ^ 16 < (1 / 10 ^ 3 / 2 :: rat)" by simp
  have ga: "ga = toUnits (dc_Round L ?x ?k)"
    using False pos by (simp add: ga_def calculateGatewayRefundAmount_def)
  have r: "places ?k (dc_Round L ?x ?k)" "\<bar>dc_Round L ?x ?k - ?x\<bar> \<le> ?u / 2"
    using L by (auto simp: decimal_laws_def)
  have "fromUnits order \<noteq> 0" using pos by (simp add: fromUnits_def)
  then have x: "\<bar>?x - ?q\<bar> < 1 / 10 ^ 16" using L by (auto simp: decimal_laws_def)
  have unit: "fromUnits ga = dc_Round L ?x ?k" using ga fromUnits_toUnits [OF r(1)] k by simp
  have "refund \<le> order" using False refund by linarith
  then have "fromUnits pay * fromUnits refund \<le> fromUnits pay * fromUnits order"
    using pos by (intro mult_left_mono) (simp_all add: fromUnits_def divide_right_mono)
  then have "?q \<le> fromUnits pay" using pos by (simp add: divide_le_eq fromUnits_def)
  moreover have "0 \<le> ?q" using pos by (simp add: fromUnits_def)
  ultimately have close: "dc_Round L ?x ?k - fromUnits pay < ?u" "0 - dc_Round L ?x ?k < ?u"
    "\<bar>dc_Round L ?x ?k - ?q\<bar> < ?u / 2 + 1 / 10 ^ 16"
    using round_quotient_close [OF _ _ r(2) x u small] by blast+
  then have "dc_Round L ?x ?k \<le> fromUnits pay" "0 \<le> dc_Round L ?x ?k"
    using places_small [OF places_diff [OF r(1) paid]] places_small [OF places_diff [OF _ r(1), of 0]]
    by (simp_all add: places_def)
  then have "ga \<le> toUnits (fromUnits pay)" "toUnits 0 \<le> ga" unfolding ga by (blast intro: toUnits_mono)+
  with False show ?thesis using close(3) unit toUnits_zero by simp
qed


section \<open>An instance\<close>

text \<open>Quotients cut to 16 digits and numbers written with an exponent.\<close>

definition floorTo :: "nat \<Rightarrow> rat \<Rightarrow> rat" where "floorTo k x = of_int \<lfloor>x * 10 ^ k\<rfloor> / 10 ^ k"

definition demoDigits :: "int \<Rightarrow> string" where
  "demoDigits n = (if n < 0 then CHR ''-'' # nat_digits (nat (- n)) else nat_digits (nat n))"

definition demoInt :: "string \<Rightarrow> int option" where
  "demoInt s = (case s of [] \<Rightarrow> None | c # cs \<Rightarrow>
     if c = CHR ''-'' then map_option (\<lambda>n. - int n) (parse_digits 0 cs) else map_option int (parse_digits 0 s))"

definition demoDecimal :: decimalLib where
  "demoDecimal =
    \<lparr>dc_Div = (\<lambda>x y. floorTo 16 (x / y)),
     dc_Round = (\<lambda>x k. floorTo k (x + 1 / 10 ^ k / 2)),
     dc_RoundUp = (\<lambda>x k. - floorTo k (- x)),
     dc_StringFixed = (\<lambda>x k. demoDigits \<lfloor>floorTo k (x + 1 / 10 ^ k / 2) * 10 ^ k\<rfloor> @ ''E-'' @ nat_digits k),
     dc_FromString = (\<lambda>s. case split_char CHR ''E'' s of
        [a, b] \<Rightarrow> (case (demoInt a, demoInt b) of (Some n, Some e) \<Rightarrow> Some (of_int n / 10 ^ nat (- e)) | _ \<Rightarrow> None)
      | _ \<Rightarrow> None)\<rparr>"

lemma places_floorTo: "places k (floorTo k x)"
  by (auto simp: places_def floorTo_def)

lemma floorTo_places: "places k x \<Longrightarrow> floorTo k x = x"
proof -
  assume "places k x"
  then obtain n :: int where n: "x * 10 ^ k = of_int n" by (auto simp: places_def)
  then have "x = of_int n / 10 ^ k" by (simp add: eq_divide_eq)
  with n show ?thesis by (simp add: floorTo_def)
qed

lemma floorTo_bounds: "floorTo k x \<le> x \<and> x < floorTo k x + 1 / 10 ^ k"
proof -
  have "of_int \<lfloor>x * 10 ^ k\<rfloor> \<le> x * 10 ^ k" "x * 10 ^ k < of_int \<lfloor>x * 10 ^ k\<rfloor> + 1"
    by linarith+
  then show ?thesis by (simp add: floorTo_def pos_divide_le_eq add_divide_distrib [symmetric] pos_less_divide_eq)
qed

lemma nat_digits_set: "c \<in> set (nat_digits n) \<Longrightarrow> \<exists>d < 10. c = digit_char d"
proof (induction n rule: nat_digits.induct)
  case (1 n)
  show ?case
  proof (cases "n < 10")
    case True
    with "1.prems" show ?thesis by (subst (asm) nat_digits.simps) auto
  next
    case False
    with "1.prems" have "c \<in> set (nat_digits (n div 10)) \<or> c = digit_char (n mod 10)"
      by (subst (asm) nat_digits.simps) auto
    with "1.IH" False show ?thesis by (metis mod_less_divisor zero_less_numeral)
  qed
qed

lemma digit_char_plain: "d < 10 \<Longrightarrow> digit_char d \<noteq> CHR ''E'' \<and> digit_char d \<noteq> CHR ''-'' \<and> \<not> is_space (digit_char d)"
  by (auto simp: is_space_def char_code_def of_char_digit dest: arg_cong [where f = "of_char :: char \<Rightarrow> nat"])

lemma nat_digits_plain: "c \<in> set (nat_digits n) \<Longrightarrow> c \<noteq> CHR ''E'' \<and> \<not> is_space c"
  by (metis digit_char_plain nat_digits_set)

lemma sign_plain: "CHR ''-'' \<noteq> CHR ''E'' \<and> \<not> is_space CHR ''-''"
  by (simp add: is_space_def char_code_def)

lemma demoDigits_set: "c \<in> set (demoDigits n) \<Longrightarrow> c \<noteq> CHR ''E'' \<and> \<not> is_space c"
  using nat_digits_plain sign_plain by (cases "n < 0") (simp_all add: demoDigits_def, blast+)

lemma demoInt_digits: "demoInt (demoDigits n) = Some n"
proof (cases "n < 0")
  case True
  then show ?thesis by (simp add: demoInt_def demoDigits_def parse_digits_nat_digits)
next
  case False
  obtain c cs where c: "nat_digits (nat n) = c # cs" using nat_digits_nonempty by (cases "nat_digits (nat n)") auto
  with False parse_digits_nat_digits [of "nat n"] nat_digits_sign [OF c] show ?thesis
    by (simp add: demoInt_def demoDigits_def)
qed

lemma split_char_two: "x \<notin> set s \<Longrightarrow> x \<notin> set t \<Longrightarrow> split_char x (s @ x # t) = [s, t]"
  by (induction s) (auto simp: split_char_none)

lemma trim_space_plain: "\<forall>c\<in>set s. \<not> is_space c \<Longrightarrow> trim_space s = s"
proof -
  assume "\<forall>c\<in>set s. \<not> is_space c"
  then have "dropWhile is_space s = s" "dropWhile is_space (rev s) = rev s"
    using hd_in_set [of s] last_in_set [of s] by (auto simp: dropWhile_eq_self_iff hd_rev)
  then show ?thesis by (simp add: trim_space_def)
qed

lemma demo_decimal_string:
  "dc_FromString demoDecimal (dc_StringFixed demoDecimal x k) = Some (dc_Round demoDecimal x k)
   \<and> trim_space (dc_StringFixed demoDecimal x k) = dc_StringFixed demoDecimal x k"
proof -
  let ?r = "floorTo k (x + 1 / 10 ^ k / 2)"
  let ?n = "\<lfloor>?r * 10 ^ k\<rfloor>"
  let ?e = "CHR ''-'' # nat_digits k"
  have r: "of_int ?n / 10 ^ k = ?r" using places_floorTo [of k "x + 1 / 10 ^ k / 2"] by (auto simp: places_def field_simps)
  have plain: "c \<in> set ?e \<Longrightarrow> c \<noteq> CHR ''E'' \<and> \<not> is_space c" for c
    using nat_digits_plain sign_plain by (simp del: char.inject) blast
  have "split_char CHR ''E'' (demoDigits ?n @ CHR ''E'' # ?e) = [demoDigits ?n, ?e]"
    by (rule split_char_two) (use demoDigits_set plain in blast)+
  moreover have "demoInt ?e = Some (- int k)" by (simp add: demoInt_def parse_digits_nat_digits)
  moreover have "trim_space (demoDigits ?n @ CHR ''E'' # ?e) = demoDigits ?n @ CHR ''E'' # ?e"
    by (rule trim_space_plain) (use demoDigits_set plain in \<open>auto simp: is_space_def char_code_def\<close>)
  ultimately show ?thesis using r by (simp add: demoDecimal_def demoInt_digits)
qed

lemma demo_decimal_laws: "decimal_laws demoDecimal"
proof -
  have "\<bar>floorTo 16 z - z\<bar> < 1 / 10 ^ 16" for z using floorTo_bounds [of 16 z] by linarith
  moreover have "\<bar>floorTo k (x + 1 / 10 ^ k / 2) - x\<bar> \<le> 1 / 10 ^ k / 2" for x k
    using floorTo_bounds [of k "x + 1 / 10 ^ k / 2"] by linarith
  moreover have "x \<le> - floorTo k (- x) \<and> - floorTo k (- x) < x + 1 / 10 ^ k" for x k
    using floorTo_bounds [of k "- x"] by linarith
  moreover have "places k (- floorTo k y)" for k y
    using places_diff [OF _ places_floorTo, of k 0] by (simp add: places_def)
  ultimately show ?thesis
    using demo_decimal_string floorTo_places [of 16] places_floorTo
    by (simp add: decimal_laws_def demoDecimal_def)
qed

lemma two_digits: "places 2 (fromUnits (n * 10 ^ 6))"
  by (auto simp: places_def fromUnits_def)

lemma plain_currency: "CurrencyMaxFractionDigits ''CNY'' = 2 \<and> CurrencyMinorUnit ''CNY'' = 2
    \<and> NormalizePaymentCurrency ''CNY'' = Some ''CNY''"
  by code_simp

text \<open>One third of an order of 100 that cost 103 (a fee of 3 percent).\<close>

lemma gateway_refund_bounded_witness:
  "calculateGatewayRefundAmount demoDecimal (100 * 10 ^ 8) (103 * 10 ^ 8) (33 * 10 ^ 8) ''CNY'' \<le> 103 * 10 ^ 8
   \<and> calculateGatewayRefundAmount demoDecimal (100 * 10 ^ 8) (103 * 10 ^ 8) (100 * 10 ^ 8) ''CNY'' = 103 * 10 ^ 8"
proof -
  have paid: "places (CurrencyMaxFractionDigits ''CNY'') (fromUnits (103 * 10 ^ 8))"
    using two_digits [of 10300] plain_currency by simp
  have tol: "currencyTolerance ''CNY'' = 1000000"
    using plain_currency by (simp add: currencyTolerance_def paymentAmountToleranceForCurrency_def)
  note r = gateway_refund_bounded [OF demo_decimal_laws, of "100 * 10 ^ 8" "103 * 10 ^ 8" _ "''CNY''"]
  from r [of "33 * 10 ^ 8"] r [of "100 * 10 ^ 8"] paid tol show ?thesis by simp
qed


end
