(* ===== verification/PaymentRefund.thy ===== *)
theory PaymentRefund
  imports SubscriptionStore PaymentCurrency
begin

text \<open>
  Refunds of paid orders: \<open>payment_refund.go\<close> with the balance statements of \<open>user_repo.go\<close>.

  \<^item> A flow is a program of statements (\<open>refundProg\<close>), as in PaymentFlow; adjusting or revoking a
    subscription is one statement, the transaction that finalises a pending refund another.
  \<^item> \<open>GatewayRefund\<close> and \<open>GatewayQuery\<close> call the payment provider. Its answer is an argument of the
    statement's execution.
  \<^item> Amounts are whole numbers of 1e-8 units; the amount an administrator enters may be any \<open>float64\<close>.
  \<^item> An audit line keeps of its JSON detail what is read back (\<open>refundPendingAuditDetail\<close>). The unique
    index on order and action makes a second line of an action fail.
  \<^item> Provider configuration (\<open>refundEnv\<close>) is an argument: the instance that took an order, whether its
    client can be built and answers queries, the check of its metadata, an order's currency, and the
    decimal library.
\<close>

section \<open>Data\<close>

definition OrderStatusRefundRequested :: string where "OrderStatusRefundRequested = ''REFUND_REQUESTED''"
definition OrderStatusRefunding :: string where "OrderStatusRefunding = ''REFUNDING''"
definition OrderStatusRefundPending :: string where "OrderStatusRefundPending = ''REFUND_PENDING''"
definition OrderStatusPartiallyRefunded :: string where "OrderStatusPartiallyRefunded = ''PARTIALLY_REFUNDED''"
definition OrderStatusRefundFailed :: string where "OrderStatusRefundFailed = ''REFUND_FAILED''"
definition DeductionTypeBalance :: string where "DeductionTypeBalance = ''balance''"
definition DeductionTypeSubscription :: string where "DeductionTypeSubscription = ''subscription''"
definition DeductionTypeNone :: string where "DeductionTypeNone = ''none''"
definition ProviderStatusPending :: string where "ProviderStatusPending = ''pending''"
definition ProviderStatusSuccess :: string where "ProviderStatusSuccess = ''success''"
definition ProviderStatusFailed :: string where "ProviderStatusFailed = ''failed''"
definition ProviderStatusRefunded :: string where "ProviderStatusRefunded = ''refunded''"

lemmas refundStrings =
  OrderStatusRefundRequested_def OrderStatusRefunding_def OrderStatusRefundPending_def
  OrderStatusPartiallyRefunded_def OrderStatusRefundFailed_def OrderStatusRefunded_def OrderStatusCompleted_def
  DeductionTypeBalance_def DeductionTypeSubscription_def DeductionTypeNone_def
  ProviderStatusPending_def ProviderStatusSuccess_def ProviderStatusFailed_def ProviderStatusRefunded_def

record refundOrder = payOrder +
  po_RefundAmount :: int
  po_RefundReason :: "string option"
  po_RefundAt :: "time option"
  po_ForceRefund :: bool
  po_RefundRequestedAt :: "time option"
  po_RefundRequestReason :: "string option"
  po_RefundRequestedBy :: "string option"
  po_FailedAt :: "time option"

record refundUser =
  ru_Balance :: int
  ru_TotalRecharged :: int
  ru_Deleted :: bool

record refundPendingAuditDetail =
  ad_RefundID :: string
  ad_DeductionRollbackOK :: bool

record auditRow =
  al_OrderID :: int
  al_Action :: string
  al_Detail :: "refundPendingAuditDetail option"
  al_CreatedAt :: time

record refundInstance =
  ri_AllowUserRefund :: bool
  ri_RefundEnabled :: bool

record refundResponse =
  rr_RefundID :: string
  rr_Status :: string

record refundPlan =
  rp_OrderID :: int
  rp_Order :: refundOrder
  rp_RefundAmount :: int
  rp_GatewayAmount :: int
  rp_Reason :: string
  rp_Force :: bool
  rp_DeductBalance :: bool
  rp_DeductionType :: string
  rp_BalanceToDeduct :: int
  rp_SubDaysToDeduct :: int
  rp_SubscriptionID :: int

record refundResult =
  rs_Success :: bool
  rs_Warning :: string
  rs_RequireForce :: bool
  rs_BalanceDeducted :: int
  rs_SubDaysDeducted :: int

record refundEnv =
  re_Instance :: "refundOrder \<Rightarrow> string + refundInstance option"
  re_Provider :: "refundOrder \<Rightarrow> string + bool"
  re_MetadataError :: "refundOrder \<Rightarrow> string option"
  re_Currency :: "refundOrder \<Rightarrow> string"
  re_Decimal :: decimalLib
  re_Zone :: zone

text \<open>What a refund took from a user, and the log of what happened; no operation reads the log.\<close>

datatype taken = TakenBalance int int | TakenDays int int

datatype refundEvent = Took int taken | Gave int taken | GatewayPaid int

record refundDB =
  rf_orders :: "int \<rightharpoonup> refundOrder"
  rf_users :: "int \<rightharpoonup> refundUser"
  rf_audit :: "auditRow list"
  rf_subs :: subDB
  rf_now :: time
  rf_log :: "refundEvent list"

section \<open>Statements\<close>

text \<open>A statement that takes from a user or gives back names the order for the log only.\<close>

datatype refundStmt =
    RfGetOrder int
  | RequestStmt int int string string int
  | LockStmt int
  | SetStatusStmt int string
  | FailStmt int string
  | MarkOkStmt int string int string bool
  | MarkPendingStmt int int string bool
  | FinalizeStmt refundPlan
  | RfGetUser int
  | DeductStmt int int int
  | UpdateBalanceStmt int int int
  | GetActiveSubStmt int int
  | ExtendStmt int int int
  | RevokeStmt int int int
  | RfHasAudit int string
  | RfWriteAudit int string "refundPendingAuditDetail option"
  | PendingDetailStmt int
  | GatewayRefund int string
  | GatewayQuery int string string

datatype refundReply =
    RfOrder refundOrder
  | RfUser refundUser
  | RfSub userSub
  | RfCount nat
  | RfTaken int
  | RfOK
  | RfDetail refundPendingAuditDetail
  | RfAnswer "refundResponse option" "string option"
  | RfResult refundResult
  | RfErr string

definition ErrUserNotFound :: string where "ErrUserNotFound = ''USER_NOT_FOUND''"
definition ErrAdjustWouldExpire :: string where "ErrAdjustWouldExpire = ''ADJUST_WOULD_EXPIRE''"

text \<open>The statuses from which a refund may be executed.\<close>

definition refundable :: "refundOrder \<Rightarrow> bool" where
  "refundable o1 \<longleftrightarrow> po_Status o1 \<in> set [OrderStatusCompleted, OrderStatusRefundRequested,
     OrderStatusRefundPending, OrderStatusRefundFailed]"

text \<open>\<open>Update().Where(IDEQ(id), P)\<close> counts the row it changes and sets \<open>updated_at\<close>;
\<open>UpdateOneID\<close> fails when there is none.\<close>

definition updateRefundOrder ::
  "int \<Rightarrow> (refundOrder \<Rightarrow> bool) \<Rightarrow> (refundOrder \<Rightarrow> refundOrder) \<Rightarrow> refundDB \<Rightarrow> refundReply \<times> refundDB" where
  "updateRefundOrder oid P upd d =
    (case rf_orders d oid of
       Some o1 \<Rightarrow>
         if P o1
         then (RfCount 1, d\<lparr>rf_orders := (rf_orders d)(oid \<mapsto> (upd o1)\<lparr>po_UpdatedAt := rf_now d\<rparr>)\<rparr>)
         else (RfCount 0, d)
     | None \<Rightarrow> (RfCount 0, d))"

definition updateOneOrder ::
  "int \<Rightarrow> (refundOrder \<Rightarrow> refundOrder) \<Rightarrow> refundDB \<Rightarrow> refundReply \<times> refundDB" where
  "updateOneOrder oid upd d =
    (case updateRefundOrder oid (\<lambda>_. True) upd d of
       (RfCount n, d1) \<Rightarrow> (if n = 0 then RfErr ''not found'' else RfOK, d1)
     | (r, d1) \<Rightarrow> (r, d1))"

definition DeductAvailableBalance :: "int \<Rightarrow> int \<Rightarrow> refundDB \<Rightarrow> (string + int) \<times> refundDB" where
  "DeductAvailableBalance uid amount d =
    (if amount < 0 then (Inl ''deduction amount must be nonnegative'', d)
     else (case rf_users d uid of
        Some u \<Rightarrow>
          if ru_Deleted u then (Inl ErrUserNotFound, d)
          else (let n = min amount (max (ru_Balance u) 0)
                in (Inr n, d\<lparr>rf_users := (rf_users d)(uid \<mapsto> u\<lparr>ru_Balance := ru_Balance u - n\<rparr>)\<rparr>))
      | None \<Rightarrow> (Inl ErrUserNotFound, d)))"

definition UpdateBalance :: "int \<Rightarrow> int \<Rightarrow> refundDB \<Rightarrow> refundReply \<times> refundDB" where
  "UpdateBalance uid amount d =
    (case rf_users d uid of
       None \<Rightarrow> (RfErr ErrUserNotFound, d)
     | Some u \<Rightarrow>
         (RfOK, d\<lparr>rf_users := (rf_users d)(uid \<mapsto>
            u\<lparr>ru_Balance := ru_Balance u + amount,
              ru_TotalRecharged := ru_TotalRecharged u + (if 0 < amount then amount else 0)\<rparr>)\<rparr>))"

definition audited :: "int \<Rightarrow> string \<Rightarrow> refundDB \<Rightarrow> bool" where
  "audited oid action d \<longleftrightarrow> (\<exists>l\<in>set (rf_audit d). al_OrderID l = oid \<and> al_Action l = action)"

definition createAudit ::
  "int \<Rightarrow> string \<Rightarrow> refundPendingAuditDetail option \<Rightarrow> refundDB \<Rightarrow> refundReply \<times> refundDB" where
  "createAudit oid action detail d =
    (if audited oid action d then (RfErr ''unique constraint'', d)
     else (RfOK, d\<lparr>rf_audit := \<lparr>al_OrderID = oid, al_Action = action, al_Detail = detail, al_CreatedAt = rf_now d\<rparr>
                               # rf_audit d\<rparr>))"

text \<open>The newest line first; a line without a readable detail reads as rolled back.\<close>

definition latestRefundPendingDetail :: "int \<Rightarrow> refundDB \<Rightarrow> refundPendingAuditDetail" where
  "latestRefundPendingDetail oid d =
    (case filter (\<lambda>l. al_OrderID l = oid \<and> al_Action l = ''REFUND_PENDING'') (rf_audit d) of
       [] \<Rightarrow> \<lparr>ad_RefundID = [], ad_DeductionRollbackOK = True\<rparr>
     | l # ls \<Rightarrow>
         (case al_Detail (fold (\<lambda>x m. if al_CreatedAt m < al_CreatedAt x then x else m) ls l) of
            None \<Rightarrow> \<lparr>ad_RefundID = [], ad_DeductionRollbackOK = True\<rparr>
          | Some detail \<Rightarrow> detail\<lparr>ad_RefundID := trim_space (ad_RefundID detail)\<rparr>))"

definition logged :: "bool \<Rightarrow> refundEvent \<Rightarrow> refundDB \<Rightarrow> refundDB" where
  "logged b e d = (if b then d\<lparr>rf_log := e # rf_log d\<rparr> else d)"

definition takeBalance :: "int \<Rightarrow> int \<Rightarrow> int \<Rightarrow> refundDB \<Rightarrow> refundReply \<times> refundDB" where
  "takeBalance oid uid amount d =
    (case DeductAvailableBalance uid amount d of
       (Inl e, d1) \<Rightarrow> (RfErr e, d1)
     | (Inr n, d1) \<Rightarrow> (RfTaken n, logged (0 < n) (Took oid (TakenBalance uid n)) d1))"

definition giveBalance :: "int \<Rightarrow> int \<Rightarrow> int \<Rightarrow> refundDB \<Rightarrow> refundReply \<times> refundDB" where
  "giveBalance oid uid amount d =
    (case UpdateBalance uid amount d of
       (r, d1) \<Rightarrow> (r, logged (r = RfOK) (Gave oid (TakenBalance uid amount)) d1))"

definition moveTerm :: "zone \<Rightarrow> int \<Rightarrow> int \<Rightarrow> int \<Rightarrow> refundDB \<Rightarrow> refundReply \<times> refundDB" where
  "moveTerm z oid sid days d =
    (case ExtendSubscription z (rf_now d) sid days (rf_subs d) of
       (Inl e, subs) \<Rightarrow> (RfErr e, d\<lparr>rf_subs := subs\<rparr>)
     | (Inr s, subs) \<Rightarrow>
         (RfSub s, logged True (if days < 0 then Took oid (TakenDays sid (- days)) else Gave oid (TakenDays sid days))
                     (d\<lparr>rf_subs := subs\<rparr>)))"

definition revokeTerm :: "int \<Rightarrow> int \<Rightarrow> int \<Rightarrow> refundDB \<Rightarrow> refundReply \<times> refundDB" where
  "revokeTerm oid sid days d =
    (case RevokeSubscription (rf_now d) sid (rf_subs d) of
       Inl e \<Rightarrow> (RfErr e, d)
     | Inr subs \<Rightarrow> (RfOK, logged True (Took oid (TakenDays sid days)) (d\<lparr>rf_subs := subs\<rparr>)))"

text \<open>\<open>markRefundOk\<close>'s final status.\<close>

definition refundedStatus :: "refundPlan \<Rightarrow> string" where
  "refundedStatus p = (if rp_RefundAmount p < po_Amount (rp_Order p) then OrderStatusPartiallyRefunded else OrderStatusRefunded)"

definition markOk :: "int \<Rightarrow> string \<Rightarrow> int \<Rightarrow> string \<Rightarrow> bool \<Rightarrow> refundDB \<Rightarrow> refundReply \<times> refundDB" where
  "markOk oid status amount reason force d =
    updateOneOrder oid (\<lambda>o1. o1\<lparr>po_Status := status, po_RefundAmount := amount, po_RefundReason := Some reason,
                               po_RefundAt := Some (rf_now d), po_ForceRefund := force\<rparr>) d"

definition refundOkResult :: "refundPlan \<Rightarrow> refundResult" where
  "refundOkResult p = \<lparr>rs_Success = True, rs_Warning = [], rs_RequireForce = False,
     rs_BalanceDeducted = rp_BalanceToDeduct p, rs_SubDaysDeducted = rp_SubDaysToDeduct p\<rparr>"

text \<open>\<open>finalizePendingRefundSuccess\<close> is a transaction: an error anywhere leaves the tables alone.\<close>

definition applyRefundFinalDeduction :: "zone \<Rightarrow> refundPlan \<Rightarrow> refundDB \<Rightarrow> string + refundPlan \<times> refundDB" where
  "applyRefundFinalDeduction z p d =
    (case (if rp_DeductionType p = DeductionTypeBalance \<and> 0 < rp_BalanceToDeduct p
           then (case takeBalance (rp_OrderID p) (po_UserID (rp_Order p)) (rp_BalanceToDeduct p) d of
                   (RfTaken n, d1) \<Rightarrow> Inr (p\<lparr>rp_BalanceToDeduct := n\<rparr>, d1)
                 | _ \<Rightarrow> Inl ''deduction'')
           else Inr (p, d)) of
       Inl e \<Rightarrow> Inl e
     | Inr (p1, d1) \<Rightarrow>
         if rp_DeductionType p1 = DeductionTypeSubscription \<and> 0 < rp_SubDaysToDeduct p1 \<and> 0 < rp_SubscriptionID p1
         then (case moveTerm z (rp_OrderID p1) (rp_SubscriptionID p1) (- rp_SubDaysToDeduct p1) d1 of
                 (RfErr e, d2) \<Rightarrow>
                   if e = ErrAdjustWouldExpire
                   then (case revokeTerm (rp_OrderID p1) (rp_SubscriptionID p1) (rp_SubDaysToDeduct p1) d2 of
                           (RfOK, d3) \<Rightarrow> Inr (p1, d3)
                         | _ \<Rightarrow> Inl ''revoke subscription'')
                   else Inl ''deduct subscription days''
               | (_, d2) \<Rightarrow> Inr (p1, d2))
         else Inr (p1, d1))"

definition finalizeTx :: "zone \<Rightarrow> refundPlan \<Rightarrow> refundDB \<Rightarrow> refundReply \<times> refundDB" where
  "finalizeTx z p d =
    (case updateRefundOrder (rp_OrderID p) (\<lambda>o1. po_Status o1 = OrderStatusRefundPending)
            (\<lambda>o1. o1\<lparr>po_Status := OrderStatusRefunding\<rparr>) d of
       (RfCount c, d1) \<Rightarrow>
         if c = 0 then (RfErr ''CONFLICT'', d)
         else (case applyRefundFinalDeduction z p d1 of
            Inl e \<Rightarrow> (RfErr e, d)
          | Inr (p1, d2) \<Rightarrow>
              (case markOk (rp_OrderID p1) (refundedStatus p1) (rp_RefundAmount p1) (rp_Reason p1) (rp_Force p1) d2 of
                 (RfOK, d3) \<Rightarrow>
                   (case createAudit (rp_OrderID p1) ''REFUND_SUCCESS'' None d3 of
                      (RfOK, d4) \<Rightarrow> (RfResult (refundOkResult p1), d4)
                    | _ \<Rightarrow> (RfErr ''write refund audit'', d))
               | _ \<Rightarrow> (RfErr ''mark refund'', d)))
     | _ \<Rightarrow> (RfErr ''claim pending refund'', d))"

text \<open>An answer of the gateway: a response or none, and an error or none.\<close>

type_synonym gatewayAnswer = "refundResponse option \<times> string option"

definition refundAccepted :: "gatewayAnswer \<Rightarrow> bool" where
  "refundAccepted a \<longleftrightarrow> (case a of
     (Some r, None) \<Rightarrow> trim_space (rr_Status r) \<in> set [ProviderStatusSuccess, ProviderStatusRefunded] | _ \<Rightarrow> False)"

fun execRefund :: "refundEnv \<Rightarrow> gatewayAnswer \<Rightarrow> refundStmt \<Rightarrow> refundDB \<Rightarrow> refundReply \<times> refundDB" where
  "execRefund E a (RfGetOrder oid) d =
     (case rf_orders d oid of None \<Rightarrow> RfErr ''NOT_FOUND'' | Some o1 \<Rightarrow> RfOrder o1, d)"
| "execRefund E a (RequestStmt oid uid reason who amount) d =
     updateRefundOrder oid
       (\<lambda>o1. po_UserID o1 = uid \<and> po_Status o1 = OrderStatusCompleted \<and> po_OrderType o1 = OrderTypeBalance)
       (\<lambda>o1. o1\<lparr>po_Status := OrderStatusRefundRequested, po_RefundRequestedAt := Some (rf_now d),
                po_RefundRequestReason := Some reason, po_RefundRequestedBy := Some who, po_RefundAmount := amount\<rparr>) d"
| "execRefund E a (LockStmt oid) d =
     updateRefundOrder oid refundable (\<lambda>o1. o1\<lparr>po_Status := OrderStatusRefunding\<rparr>) d"
| "execRefund E a (SetStatusStmt oid status) d = updateOneOrder oid (\<lambda>o1. o1\<lparr>po_Status := status\<rparr>) d"
| "execRefund E a (FailStmt oid reason) d =
     updateOneOrder oid (\<lambda>o1. o1\<lparr>po_Status := OrderStatusRefundFailed, po_FailedAt := Some (rf_now d),
                                 po_FailedReason := Some reason\<rparr>) d"
| "execRefund E a (MarkOkStmt oid status amount reason force) d = markOk oid status amount reason force d"
| "execRefund E a (MarkPendingStmt oid amount reason force) d =
     updateOneOrder oid (\<lambda>o1. o1\<lparr>po_Status := OrderStatusRefundPending, po_RefundAmount := amount,
                                 po_RefundReason := Some reason, po_RefundAt := None, po_ForceRefund := force,
                                 po_FailedAt := None, po_FailedReason := None\<rparr>) d"
| "execRefund E a (FinalizeStmt p) d = finalizeTx (re_Zone E) p d"
| "execRefund E a (RfGetUser uid) d =
     (case rf_users d uid of
        None \<Rightarrow> RfErr ErrUserNotFound
      | Some u \<Rightarrow> if ru_Deleted u then RfErr ErrUserNotFound else RfUser u, d)"
| "execRefund E a (DeductStmt oid uid amount) d = takeBalance oid uid amount d"
| "execRefund E a (UpdateBalanceStmt oid uid amount) d = giveBalance oid uid amount d"
| "execRefund E a (GetActiveSubStmt uid gid) d =
     (case GetActiveByUserIDAndGroupID (rf_now d) uid gid (rf_subs d) of Inl e \<Rightarrow> RfErr e | Inr s \<Rightarrow> RfSub s, d)"
| "execRefund E a (ExtendStmt oid sid days) d = moveTerm (re_Zone E) oid sid days d"
| "execRefund E a (RevokeStmt oid sid days) d = revokeTerm oid sid days d"
| "execRefund E a (RfHasAudit oid action) d = (RfCount (if audited oid action d then 1 else 0), d)"
| "execRefund E a (RfWriteAudit oid action detail) d = createAudit oid action detail d"
| "execRefund E a (PendingDetailStmt oid) d = (RfDetail (latestRefundPendingDetail oid d), d)"
| "execRefund E a (GatewayRefund oid amount) d =
     (RfAnswer (fst a) (snd a), logged (refundAccepted a) (GatewayPaid oid) d)"
| "execRefund E a (GatewayQuery oid refundID amount) d = (RfAnswer (fst a) (snd a), d)"

section \<open>Flows\<close>

text \<open>A flow ends with an error or a result. Errors are codes or messages without their wrapped cause.\<close>

datatype refundProg = RfRet "string + refundResult" | RfDo refundStmt "refundReply \<Rightarrow> refundProg"

definition writeRefundAudit :: "int \<Rightarrow> string \<Rightarrow> refundPendingAuditDetail option \<Rightarrow> refundProg \<Rightarrow> refundProg" where
  "writeRefundAudit oid action detail k = RfDo (RfWriteAudit oid action detail) (\<lambda>_. k)"

definition warn :: "string \<Rightarrow> bool \<Rightarrow> refundResult" where
  "warn w force = \<lparr>rs_Success = False, rs_Warning = w, rs_RequireForce = force, rs_BalanceDeducted = 0, rs_SubDaysDeducted = 0\<rparr>"

definition validateRefundRequest :: "refundEnv \<Rightarrow> int \<Rightarrow> int \<Rightarrow> (refundOrder \<Rightarrow> refundProg) \<Rightarrow> refundProg" where
  "validateRefundRequest E oid uid k =
    RfDo (RfGetOrder oid) (\<lambda>r. case r of
      RfOrder o1 \<Rightarrow>
        if po_UserID o1 \<noteq> uid then RfRet (Inl ''FORBIDDEN'')
        else if po_OrderType o1 \<noteq> OrderTypeBalance then RfRet (Inl ''INVALID_ORDER_TYPE'')
        else if po_Status o1 \<noteq> OrderStatusCompleted then RfRet (Inl ''INVALID_STATUS'')
        else (case re_Instance E o1 of
            Inr (Some i) \<Rightarrow> if ri_AllowUserRefund i then k o1 else RfRet (Inl ''USER_REFUND_DISABLED'')
          | _ \<Rightarrow> RfRet (Inl ''USER_REFUND_DISABLED''))
    | _ \<Rightarrow> RfRet (Inl ''NOT_FOUND''))"

definition RequestRefund :: "refundEnv \<Rightarrow> int \<Rightarrow> int \<Rightarrow> string \<Rightarrow> refundProg" where
  "RequestRefund E oid uid reason =
    validateRefundRequest E oid uid (\<lambda>o1.
      RfDo (RfGetUser (po_UserID o1)) (\<lambda>r. case r of
        RfUser u \<Rightarrow>
          if ru_Balance u < po_Amount o1 then RfRet (Inl ''BALANCE_NOT_ENOUGH'')
          else RfDo (RequestStmt oid uid (trim_space reason) (itoa uid) (po_Amount o1)) (\<lambda>x. case x of
              RfCount c \<Rightarrow>
                if c = 0 then RfRet (Inl ''CONFLICT'')
                else writeRefundAudit oid ''REFUND_REQUESTED'' None (RfRet (Inr (warn [] False)))
            | _ \<Rightarrow> RfRet (Inl ''update''))
      | _ \<Rightarrow> RfRet (Inl ''get user'')))"

definition prepDeduct ::
  "refundOrder \<Rightarrow> refundPlan \<Rightarrow> bool \<Rightarrow> (refundPlan \<Rightarrow> refundProg) \<Rightarrow> refundProg" where
  "prepDeduct o1 p force k =
    (if po_OrderType o1 = OrderTypeSubscription
     then (let p1 = p\<lparr>rp_DeductionType := DeductionTypeSubscription\<rparr>
           in case (po_SubscriptionGroupID o1, po_SubscriptionDays o1) of
                (Some gid, Some days) \<Rightarrow>
                  (let p2 = p1\<lparr>rp_SubDaysToDeduct := days\<rparr>
                   in RfDo (GetActiveSubStmt (po_UserID o1) gid) (\<lambda>r. case r of
                        RfSub s \<Rightarrow> k (p2\<lparr>rp_SubscriptionID := us_ID s\<rparr>)
                      | _ \<Rightarrow> if force then k p2
                             else RfRet (Inr (warn ''cannot find active subscription for deduction, use force'' True))))
              | _ \<Rightarrow> k p1)
     else RfDo (RfGetUser (po_UserID o1)) (\<lambda>r. case r of
        RfUser u \<Rightarrow>
          if ru_Balance u < rp_RefundAmount p \<and> \<not> force
          then RfRet (Inr (warn ''user balance is insufficient for deduction, use force'' True))
          else k (p\<lparr>rp_DeductionType := DeductionTypeBalance,
                    rp_BalanceToDeduct := max 0 (min (rp_RefundAmount p) (ru_Balance u))\<rparr>)
      | _ \<Rightarrow> if force then k p else RfRet (Inr (warn ''cannot fetch user balance, use force'' True))))"

definition refundReason :: "string \<Rightarrow> refundOrder \<Rightarrow> string" where
  "refundReason reason o1 =
    (let r1 = trim_space reason;
         r2 = (if r1 = [] then (case po_RefundRequestReason o1 of None \<Rightarrow> r1 | Some q \<Rightarrow> q) else r1)
     in if r2 = [] then ''refund order:'' @ itoa (po_ID o1) else r2)"

definition PrepareRefund ::
  "refundEnv \<Rightarrow> int \<Rightarrow> providerAmount \<Rightarrow> string \<Rightarrow> bool \<Rightarrow> bool \<Rightarrow> (refundPlan \<Rightarrow> refundProg) \<Rightarrow> refundProg" where
  "PrepareRefund E oid amt0 reason force deduct k =
    RfDo (RfGetOrder oid) (\<lambda>r. case r of
      RfOrder o1 \<Rightarrow>
        if \<not> refundable o1 then RfRet (Inl ''INVALID_STATUS'')
        else (case re_Instance E o1 of
            Inl _ \<Rightarrow> RfRet (Inl ''PROVIDER_LOOKUP_FAILED'')
          | Inr None \<Rightarrow> RfRet (Inl ''REFUND_DISABLED'')
          | Inr (Some i) \<Rightarrow>
              if \<not> ri_RefundEnabled i then RfRet (Inl ''REFUND_DISABLED'')
              else (case amt0 of
                  Amount n \<Rightarrow>
                    (let amt = (if n \<le> 0 then po_Amount o1 else n)
                     in if currencyTolerance (re_Currency E o1) < amt - po_Amount o1
                        then RfRet (Inl ''REFUND_AMOUNT_EXCEEDED'')
                        else (let p = \<lparr>rp_OrderID = oid, rp_Order = o1, rp_RefundAmount = amt,
                                  rp_GatewayAmount = calculateGatewayRefundAmount (re_Decimal E) (po_Amount o1)
                                    (po_PayAmount o1) amt (re_Currency E o1),
                                  rp_Reason = refundReason reason o1, rp_Force = force, rp_DeductBalance = deduct,
                                  rp_DeductionType = DeductionTypeNone, rp_BalanceToDeduct = 0,
                                  rp_SubDaysToDeduct = 0, rp_SubscriptionID = 0\<rparr>
                              in if deduct then prepDeduct o1 p force k else k p))
                | _ \<Rightarrow> RfRet (Inl ''INVALID_AMOUNT'')))
    | _ \<Rightarrow> RfRet (Inl ''NOT_FOUND''))"

text \<open>\<open>writeRefundAudit\<close> of the code ignores its outcome; so do the status updates below that no case
distinction follows.\<close>

definition restoreStatus :: "refundPlan \<Rightarrow> refundProg \<Rightarrow> refundProg" where
  "restoreStatus p k =
    RfDo (SetStatusStmt (rp_OrderID p)
           (if po_Status (rp_Order p) = OrderStatusRefundRequested then OrderStatusRefundRequested
            else OrderStatusCompleted)) (\<lambda>_. k)"

definition hasAuditLog :: "int \<Rightarrow> string \<Rightarrow> (bool \<Rightarrow> refundProg) \<Rightarrow> refundProg" where
  "hasAuditLog oid action k = RfDo (RfHasAudit oid action) (\<lambda>r. case r of RfCount c \<Rightarrow> k (0 < c) | _ \<Rightarrow> k False)"

definition RollbackRefund :: "refundPlan \<Rightarrow> (bool \<Rightarrow> refundProg) \<Rightarrow> refundProg" where
  "RollbackRefund p k =
    (let failed = writeRefundAudit (rp_OrderID p) ''REFUND_ROLLBACK_FAILED'' None (k False);
         term_back =
           (if rp_DeductionType p = DeductionTypeSubscription \<and> 0 < rp_SubDaysToDeduct p \<and> 0 < rp_SubscriptionID p
            then RfDo (ExtendStmt (rp_OrderID p) (rp_SubscriptionID p) (rp_SubDaysToDeduct p)) (\<lambda>r. case r of
                   RfErr e \<Rightarrow> failed | _ \<Rightarrow> k True)
            else k True)
     in if rp_DeductionType p = DeductionTypeBalance \<and> 0 < rp_BalanceToDeduct p
        then RfDo (UpdateBalanceStmt (rp_OrderID p) (po_UserID (rp_Order p)) (rp_BalanceToDeduct p)) (\<lambda>r. case r of
               RfErr e \<Rightarrow> failed | _ \<Rightarrow> term_back)
        else term_back)"

definition handleGwFail :: "refundPlan \<Rightarrow> string \<Rightarrow> refundProg" where
  "handleGwFail p gErr =
    RollbackRefund p (\<lambda>ok.
      if ok then restoreStatus p (writeRefundAudit (rp_OrderID p) ''REFUND_GATEWAY_FAILED'' None
                   (RfRet (Inr (warn (''gateway failed: '' @ gErr @ '', rolled back'') False))))
      else RfDo (FailStmt (rp_OrderID p) gErr) (\<lambda>_.
             writeRefundAudit (rp_OrderID p) ''REFUND_FAILED'' None (RfRet (Inl ''REFUND_FAILED''))))"

definition validateRefundProviderResponse :: "refundResponse option \<Rightarrow> string option" where
  "validateRefundProviderResponse resp =
    (case resp of
       None \<Rightarrow> Some ''payment refund response missing''
     | Some r \<Rightarrow>
         (let status = trim_space (rr_Status r)
          in if status \<in> set [ProviderStatusSuccess, ProviderStatusRefunded, ProviderStatusPending] then None
             else if status = ProviderStatusFailed then Some (''payment refund failed: status '' @ status)
             else Some (''payment refund returned unknown status: '' @ status)))"

definition gwRefund ::
  "refundEnv \<Rightarrow> refundPlan \<Rightarrow> (string \<Rightarrow> refundProg) \<Rightarrow> (refundResponse option \<Rightarrow> refundProg) \<Rightarrow> refundProg" where
  "gwRefund E p kerr kok =
    (if po_PaymentTradeNo (rp_Order p) = []
     then writeRefundAudit (po_ID (rp_Order p)) ''REFUND_NO_TRADE_NO'' None
            (kok (Some \<lparr>rr_RefundID = [], rr_Status = ProviderStatusSuccess\<rparr>))
     else (case re_Instance E (rp_Order p) of
         Inl e \<Rightarrow> kerr e
       | Inr None \<Rightarrow> kerr ''refund provider instance is unavailable''
       | Inr (Some i) \<Rightarrow>
           (case re_Provider E (rp_Order p) of
              Inl e \<Rightarrow> kerr e
            | Inr _ \<Rightarrow>
                (case re_MetadataError E (rp_Order p) of
                   Some e \<Rightarrow> writeRefundAudit (po_ID (rp_Order p)) ''REFUND_PROVIDER_METADATA_MISMATCH'' None (kerr e)
                 | None \<Rightarrow>
                     RfDo (GatewayRefund (rp_OrderID p)
                             (FormatAmountForCurrency (re_Decimal E) (rp_GatewayAmount p) (re_Currency E (rp_Order p))))
                       (\<lambda>r. case r of
                          RfAnswer resp (Some e) \<Rightarrow>
                            (case resp of
                               Some q \<Rightarrow> if trim_space (rr_Status q) = ProviderStatusPending then kok resp else kerr e
                             | None \<Rightarrow> kerr e)
                        | RfAnswer resp None \<Rightarrow>
                            (case validateRefundProviderResponse resp of Some e \<Rightarrow> kerr e | None \<Rightarrow> kok resp)
                        | _ \<Rightarrow> kerr ''gateway'')))))"

definition markRefundOk :: "refundPlan \<Rightarrow> refundProg" where
  "markRefundOk p =
    RfDo (MarkOkStmt (rp_OrderID p) (refundedStatus p) (rp_RefundAmount p) (rp_Reason p) (rp_Force p)) (\<lambda>r. case r of
      RfOK \<Rightarrow> writeRefundAudit (rp_OrderID p) ''REFUND_SUCCESS'' None (RfRet (Inr (refundOkResult p)))
    | _ \<Rightarrow> RfRet (Inl ''mark refund''))"

definition refundResponseID :: "refundResponse option \<Rightarrow> string" where
  "refundResponseID resp = (case resp of None \<Rightarrow> [] | Some r \<Rightarrow> trim_space (rr_RefundID r))"

definition markRefundPending :: "refundPlan \<Rightarrow> refundResponse option \<Rightarrow> refundProg" where
  "markRefundPending p resp =
    RollbackRefund p (\<lambda>rollbackOK.
      RfDo (MarkPendingStmt (rp_OrderID p) (rp_RefundAmount p) (rp_Reason p) (rp_Force p)) (\<lambda>r. case r of
        RfOK \<Rightarrow>
          writeRefundAudit (rp_OrderID p) ''REFUND_PENDING''
            (Some \<lparr>ad_RefundID = refundResponseID resp, ad_DeductionRollbackOK = rollbackOK\<rparr>)
            (RfRet (Inr (warn (''gateway refund is pending confirmation''
                               @ (if rollbackOK then [] else ''; refund deduction rollback failed'')) False)))
      | _ \<Rightarrow> RfRet (Inl ''mark refund pending'')))"

definition finishRefund :: "refundPlan \<Rightarrow> refundResponse option \<Rightarrow> refundProg" where
  "finishRefund p resp =
    (case (validateRefundProviderResponse resp, resp) of
       (None, Some r) \<Rightarrow>
         if trim_space (rr_Status r) \<in> set [ProviderStatusSuccess, ProviderStatusRefunded] then markRefundOk p
         else markRefundPending p resp
     | (Some e, _) \<Rightarrow> handleGwFail p e
     | (None, None) \<Rightarrow> handleGwFail p ''payment refund response missing'')"

definition deductBalance :: "refundPlan \<Rightarrow> (refundPlan \<Rightarrow> refundProg) \<Rightarrow> refundProg" where
  "deductBalance p k =
    (if rp_DeductionType p = DeductionTypeBalance \<and> 0 < rp_BalanceToDeduct p
     then hasAuditLog (rp_OrderID p) ''REFUND_ROLLBACK_FAILED'' (\<lambda>skip.
       if skip then k (p\<lparr>rp_BalanceToDeduct := 0\<rparr>)
       else RfDo (DeductStmt (rp_OrderID p) (po_UserID (rp_Order p)) (rp_BalanceToDeduct p)) (\<lambda>r. case r of
              RfTaken n \<Rightarrow> k (p\<lparr>rp_BalanceToDeduct := n\<rparr>)
            | _ \<Rightarrow> restoreStatus p (RfRet (Inl ''deduction''))))
     else k p)"

definition deductTerm :: "refundPlan \<Rightarrow> (refundPlan \<Rightarrow> refundProg) \<Rightarrow> refundProg" where
  "deductTerm p k =
    (if rp_DeductionType p = DeductionTypeSubscription \<and> 0 < rp_SubDaysToDeduct p \<and> 0 < rp_SubscriptionID p
     then hasAuditLog (rp_OrderID p) ''REFUND_ROLLBACK_FAILED'' (\<lambda>skip.
       if skip then k (p\<lparr>rp_SubDaysToDeduct := 0\<rparr>)
       else RfDo (ExtendStmt (rp_OrderID p) (rp_SubscriptionID p) (- rp_SubDaysToDeduct p)) (\<lambda>r. case r of
              RfErr e \<Rightarrow>
                if e = ErrAdjustWouldExpire
                then RfDo (RevokeStmt (rp_OrderID p) (rp_SubscriptionID p) (rp_SubDaysToDeduct p)) (\<lambda>x. case x of
                       RfErr e2 \<Rightarrow> restoreStatus p (RfRet (Inl ''revoke subscription''))
                     | _ \<Rightarrow> k p)
                else restoreStatus p (RfRet (Inl ''deduct subscription days''))
            | _ \<Rightarrow> k p))
     else k p)"

definition ExecuteRefund :: "refundEnv \<Rightarrow> refundPlan \<Rightarrow> refundProg" where
  "ExecuteRefund E p =
    RfDo (LockStmt (rp_OrderID p)) (\<lambda>r. case r of
      RfCount c \<Rightarrow>
        if c = 0 then RfRet (Inl ''CONFLICT'')
        else deductBalance p (\<lambda>p1. deductTerm p1 (\<lambda>p2.
               gwRefund E p2 (handleGwFail p2) (finishRefund p2)))
    | _ \<Rightarrow> RfRet (Inl ''lock''))"

text \<open>The administrator's request (\<open>admin/payment_handler.go\<close>).\<close>

definition ProcessRefund :: "refundEnv \<Rightarrow> int \<Rightarrow> providerAmount \<Rightarrow> string \<Rightarrow> bool \<Rightarrow> bool \<Rightarrow> refundProg" where
  "ProcessRefund E oid amt reason force deduct = PrepareRefund E oid amt reason force deduct (ExecuteRefund E)"

definition refundFinalizePlan :: "refundEnv \<Rightarrow> refundOrder \<Rightarrow> refundPlan" where
  "refundFinalizePlan E o1 =
    (let reason = trim_space (case po_RefundReason o1 of None \<Rightarrow> [] | Some q \<Rightarrow> q)
     in \<lparr>rp_OrderID = po_ID o1, rp_Order = o1, rp_RefundAmount = po_RefundAmount o1,
         rp_GatewayAmount = calculateGatewayRefundAmount (re_Decimal E) (po_Amount o1) (po_PayAmount o1)
           (po_RefundAmount o1) (re_Currency E o1),
         rp_Reason = (if reason = [] then ''refund order:'' @ itoa (po_ID o1) else reason),
         rp_Force = po_ForceRefund o1, rp_DeductBalance = True, rp_DeductionType = DeductionTypeBalance,
         rp_BalanceToDeduct = (if po_OrderType o1 = OrderTypeBalance then po_RefundAmount o1 else 0),
         rp_SubDaysToDeduct = 0, rp_SubscriptionID = 0\<rparr>)"

definition finalizeRefundFailed :: "refundOrder \<Rightarrow> string \<Rightarrow> refundProg" where
  "finalizeRefundFailed o1 gErr =
    RfDo (FailStmt (po_ID o1) gErr) (\<lambda>_. writeRefundAudit (po_ID o1) ''REFUND_FAILED'' None
      (RfRet (Inr (warn (''gateway refund failed: '' @ gErr) False))))"

definition finalizePendingRefundSuccess :: "refundPlan \<Rightarrow> refundProg" where
  "finalizePendingRefundSuccess p =
    RfDo (FinalizeStmt p) (\<lambda>r. case r of
      RfResult res \<Rightarrow> RfRet (Inr res) | RfErr e \<Rightarrow> RfRet (Inl e) | _ \<Rightarrow> RfRet (Inl ''finalize''))"

definition QueryAndFinalizeRefund :: "refundEnv \<Rightarrow> int \<Rightarrow> refundProg" where
  "QueryAndFinalizeRefund E oid =
    RfDo (RfGetOrder oid) (\<lambda>r. case r of
      RfOrder o1 \<Rightarrow>
        if po_Status o1 \<noteq> OrderStatusRefundPending then RfRet (Inl ''INVALID_STATUS'')
        else (case (re_Instance E o1, re_Provider E o1) of
           (Inr (Some i), Inr canQuery) \<Rightarrow>
             if \<not> canQuery then RfRet (Inl ''REFUND_QUERY_UNSUPPORTED'')
             else RfDo (PendingDetailStmt oid) (\<lambda>x.
               (let detail = (case x of RfDetail q \<Rightarrow> q | _ \<Rightarrow> \<lparr>ad_RefundID = [], ad_DeductionRollbackOK = True\<rparr>)
                in RfDo (GatewayQuery oid (ad_RefundID detail)
                     (FormatAmountForCurrency (re_Decimal E) (po_RefundAmount o1) (re_Currency E o1))) (\<lambda>a. case a of
                  RfAnswer resp None \<Rightarrow>
                    (case (validateRefundProviderResponse resp, resp) of
                       (None, Some q) \<Rightarrow>
                         (let plan = refundFinalizePlan E o1;
                              settle = (\<lambda>plan1.
                                if trim_space (rr_Status q) \<in> set [ProviderStatusSuccess, ProviderStatusRefunded]
                                then finalizePendingRefundSuccess plan1
                                else writeRefundAudit oid ''REFUND_QUERY_PENDING'' None
                                       (RfRet (Inr (warn ''gateway refund is still pending confirmation'' False))))
                          in if \<not> ad_DeductionRollbackOK detail
                             then settle (plan\<lparr>rp_BalanceToDeduct := 0, rp_SubDaysToDeduct := 0\<rparr>)
                             else if po_OrderType o1 = OrderTypeSubscription then prepDeduct o1 plan True settle
                             else settle plan)
                     | (Some e, _) \<Rightarrow> finalizeRefundFailed o1 e
                     | (None, None) \<Rightarrow> finalizeRefundFailed o1 ''payment refund response missing'')
                | _ \<Rightarrow> RfRet (Inl ''query refund''))))
         | (Inl e, _) \<Rightarrow> RfRet (Inl e)
         | (Inr None, _) \<Rightarrow> RfRet (Inl ''refund provider instance is unavailable'')
         | (_, Inl e) \<Rightarrow> RfRet (Inl e))
    | _ \<Rightarrow> RfRet (Inl ''NOT_FOUND''))"

section \<open>One flow alone\<close>

text \<open>\<open>answer\<close> is what the gateway says to each call; the statements in \<open>bad\<close> fail without effect.\<close>

primrec runRefund ::
  "refundEnv \<Rightarrow> (refundStmt \<Rightarrow> gatewayAnswer) \<Rightarrow> (refundStmt \<Rightarrow> bool) \<Rightarrow> refundProg \<Rightarrow> refundDB
    \<Rightarrow> (string + refundResult) \<times> refundDB" where
  "runRefund E answer bad (RfRet x) d = (x, d)"
| "runRefund E answer bad (RfDo st k) d =
    (if bad st then runRefund E answer bad (k (RfErr ''fault'')) d
     else (case execRefund E (answer st) st d of (r, d1) \<Rightarrow> runRefund E answer bad (k r) d1))"

end
