(* ===== verification/RefundFacts.thy ===== *)
theory RefundFacts
  imports PaymentRefund
begin

text \<open>
  What a refund run alone does (model in PaymentRefund): its outcome for each answer of the gateway,
  the finalisation of a pending one, and the sequences after which a user pays twice.
\<close>

section \<open>Effects of statements\<close>

lemma update_order_hit:
  "rf_orders d oid = Some o1 \<Longrightarrow> P o1 \<Longrightarrow>
    updateRefundOrder oid P upd d = (RfCount 1, d\<lparr>rf_orders := (rf_orders d)(oid \<mapsto> (upd o1)\<lparr>po_UpdatedAt := rf_now d\<rparr>)\<rparr>)"
  by (simp add: updateRefundOrder_def)

lemma update_one_hit:
  "rf_orders d oid = Some o1 \<Longrightarrow>
    updateOneOrder oid upd d = (RfOK, d\<lparr>rf_orders := (rf_orders d)(oid \<mapsto> (upd o1)\<lparr>po_UpdatedAt := rf_now d\<rparr>)\<rparr>)"
  by (simp add: updateOneOrder_def updateRefundOrder_def)

lemma run_write_audit:
  "\<not> bad (RfWriteAudit oid action detail) \<Longrightarrow> runRefund E answer bad (writeRefundAudit oid action detail k) d
    = runRefund E answer bad k (snd (createAudit oid action detail d))"
  by (simp add: writeRefundAudit_def split: prod.split)

lemma create_audit_tables [simp]:
  "rf_orders (snd (createAudit oid action detail d)) = rf_orders d"
  "rf_users (snd (createAudit oid action detail d)) = rf_users d"
  "rf_subs (snd (createAudit oid action detail d)) = rf_subs d"
  "rf_now (snd (createAudit oid action detail d)) = rf_now d"
  by (simp_all add: createAudit_def)

lemma logged_tables [simp]:
  "rf_orders (logged b e d) = rf_orders d" "rf_users (logged b e d) = rf_users d"
  "rf_audit (logged b e d) = rf_audit d" "rf_subs (logged b e d) = rf_subs d" "rf_now (logged b e d) = rf_now d"
  by (simp_all add: logged_def)

lemma audited_cong: "rf_audit d = rf_audit d1 \<Longrightarrow> audited oid action d = audited oid action d1"
  by (simp add: audited_def)

lemma audited_create:
  "audited oid action (snd (createAudit i act detail d)) \<longleftrightarrow> audited oid action d \<or> (i = oid \<and> act = action)"
  by (auto simp: createAudit_def audited_def)

lemma take_balance:
  "rf_users d uid = Some u \<Longrightarrow> \<not> ru_Deleted u \<Longrightarrow> 0 \<le> n \<Longrightarrow>
    takeBalance oid uid n d =
      (let m = min n (max (ru_Balance u) 0)
       in (RfTaken m, logged (0 < m) (Took oid (TakenBalance uid m))
             (d\<lparr>rf_users := (rf_users d)(uid \<mapsto> u\<lparr>ru_Balance := ru_Balance u - m\<rparr>)\<rparr>)))"
  by (simp add: takeBalance_def DeductAvailableBalance_def Let_def)

lemma give_balance:
  "rf_users d uid = Some u \<Longrightarrow> 0 < n \<Longrightarrow>
    giveBalance oid uid n d =
      (RfOK, logged True (Gave oid (TakenBalance uid n)) (d\<lparr>rf_users := (rf_users d)(uid \<mapsto>
         u\<lparr>ru_Balance := ru_Balance u + n, ru_TotalRecharged := ru_TotalRecharged u + n\<rparr>)\<rparr>))"
  by (simp add: giveBalance_def UpdateBalance_def)

section \<open>Preparing\<close>

definition balancePlan :: "refundEnv \<Rightarrow> refundOrder \<Rightarrow> int \<Rightarrow> string \<Rightarrow> bool \<Rightarrow> int \<Rightarrow> refundPlan" where
  "balancePlan E o1 n reason force taking =
    \<lparr>rp_OrderID = po_ID o1, rp_Order = o1, rp_RefundAmount = n,
     rp_GatewayAmount = calculateGatewayRefundAmount (re_Decimal E) (po_Amount o1) (po_PayAmount o1) n (re_Currency E o1),
     rp_Reason = refundReason reason o1, rp_Force = force, rp_DeductBalance = True,
     rp_DeductionType = DeductionTypeBalance, rp_BalanceToDeduct = taking, rp_SubDaysToDeduct = 0, rp_SubscriptionID = 0\<rparr>"

lemma plan_fields:
  "rp_OrderID (balancePlan E o1 n reason force m) = po_ID o1" "rp_Order (balancePlan E o1 n reason force m) = o1"
  "rp_RefundAmount (balancePlan E o1 n reason force m) = n" "rp_Force (balancePlan E o1 n reason force m) = force"
  "rp_Reason (balancePlan E o1 n reason force m) = refundReason reason o1"
  by (simp_all add: balancePlan_def)

text \<open>An order of balance that can be refunded through its provider, and its user.\<close>

definition refundReady :: "refundEnv \<Rightarrow> refundDB \<Rightarrow> refundOrder \<Rightarrow> refundUser \<Rightarrow> bool" where
  "refundReady E d o1 u \<longleftrightarrow> rf_orders d (po_ID o1) = Some o1 \<and> refundable o1
     \<and> po_OrderType o1 = OrderTypeBalance \<and> po_PaymentTradeNo o1 \<noteq> []
     \<and> rf_users d (po_UserID o1) = Some u \<and> \<not> ru_Deleted u
     \<and> (\<exists>i. re_Instance E o1 = Inr (Some i) \<and> ri_RefundEnabled i)
     \<and> (\<exists>q. re_Provider E o1 = Inr q) \<and> re_MetadataError E o1 = None"

lemma tolerance_nonneg: "0 \<le> currencyTolerance c"
  by (simp add: currencyTolerance_def paymentAmountToleranceForCurrency_def pos_imp_zdiv_nonneg_iff)

lemma run_prepare:
  assumes "refundReady E d o1 u" and n: "0 < n" "n \<le> po_Amount o1" and cover: "force \<or> n \<le> ru_Balance u"
    and fine: "\<not> bad (RfGetOrder (po_ID o1))" "\<not> bad (RfGetUser (po_UserID o1))"
  shows "runRefund E answer bad (PrepareRefund E (po_ID o1) (Amount n) reason force True k) d
    = runRefund E answer bad (k (balancePlan E o1 n reason force (max 0 (min n (ru_Balance u))))) d"
proof -
  have "\<not> currencyTolerance (re_Currency E o1) < n - po_Amount o1"
    using n tolerance_nonneg [of "re_Currency E o1"] by linarith
  with assms show ?thesis
    by (auto simp: refundReady_def PrepareRefund_def prepDeduct_def Let_def balancePlan_def
        OrderTypeBalance_def OrderTypeSubscription_def)
qed

section \<open>Executing\<close>

definition refundPendingAnswer :: "gatewayAnswer \<Rightarrow> bool" where
  "refundPendingAnswer a \<longleftrightarrow> (case fst a of None \<Rightarrow> False | Some r \<Rightarrow> trim_space (rr_Status r) = ProviderStatusPending)"

lemma lock_step:
  "rf_orders d oid = Some o1 \<Longrightarrow> refundable o1 \<Longrightarrow>
    execRefund E a (LockStmt oid) d
      = (RfCount 1, d\<lparr>rf_orders := (rf_orders d)(oid \<mapsto> o1\<lparr>po_Status := OrderStatusRefunding, po_UpdatedAt := rf_now d\<rparr>)\<rparr>)"
  by (simp add: update_order_hit)

text \<open>What follows the gateway's answer.\<close>

definition afterGateway :: "refundPlan \<Rightarrow> gatewayAnswer \<Rightarrow> refundProg" where
  "afterGateway p a =
    (if refundAccepted a then markRefundOk p
     else if refundPendingAnswer a then markRefundPending p (fst a)
     else handleGwFail p (case a of (_, Some e) \<Rightarrow> e
            | (resp, None) \<Rightarrow> (case validateRefundProviderResponse resp of Some e \<Rightarrow> e | None \<Rightarrow> [])))"

lemma run_gateway:
  assumes "po_PaymentTradeNo (rp_Order p) \<noteq> []" "re_Instance E (rp_Order p) = Inr (Some i)"
    and "re_Provider E (rp_Order p) = Inr q" "re_MetadataError E (rp_Order p) = None"
    and fine: "\<And>s. \<not> bad (GatewayRefund (rp_OrderID p) s)"
  shows "runRefund E (\<lambda>_. a) bad (gwRefund E p (handleGwFail p) (finishRefund p)) d
    = runRefund E (\<lambda>_. a) bad (afterGateway p a) (logged (refundAccepted a) (GatewayPaid (rp_OrderID p)) d)"
proof -
  obtain resp err where a: "a = (resp, err)" by (cases a)
  show ?thesis
    using assms unfolding a
    by (cases resp; cases err)
      (auto simp: gwRefund_def afterGateway_def refundAccepted_def refundPendingAnswer_def finishRefund_def
        validateRefundProviderResponse_def Let_def refundStrings)
qed

fun giveBackStmt :: "refundStmt \<Rightarrow> bool" where
  "giveBackStmt (UpdateBalanceStmt oid uid n) = True"
| "giveBackStmt _ = False"

text \<open>The deduction of a plan that takes \<open>m\<close> from a user who has it.\<close>

lemma run_deduct:
  assumes u: "rf_users d (po_UserID o1) = Some u" "\<not> ru_Deleted u"
    and m: "0 \<le> m" "m \<le> max (ru_Balance u) 0"
    and clean: "\<not> audited (po_ID o1) ''REFUND_ROLLBACK_FAILED'' d"
    and fine: "\<And>st. bad st \<Longrightarrow> giveBackStmt st"
  shows "runRefund E answer bad (deductBalance (balancePlan E o1 n reason force m) (\<lambda>p. deductTerm p k)) d
    = runRefund E answer bad (k (balancePlan E o1 n reason force m))
        (logged (0 < m) (Took (po_ID o1) (TakenBalance (po_UserID o1) m))
          (d\<lparr>rf_users := (rf_users d)(po_UserID o1 \<mapsto> u\<lparr>ru_Balance := ru_Balance u - m\<rparr>)\<rparr>))"
proof (cases "0 < m")
  case True
  moreover have "\<not> bad (RfHasAudit i act)" "\<not> bad (DeductStmt i j n)" for i act j n using fine by fastforce+
  ultimately show ?thesis
    using assms by (simp add: deductBalance_def deductTerm_def balancePlan_def hasAuditLog_def take_balance Let_def min_absorb1
        DeductionTypeBalance_def DeductionTypeSubscription_def)
next
  case False
  with m have "m = 0" by simp
  moreover have "d\<lparr>rf_users := (rf_users d)(po_UserID o1 \<mapsto> u)\<rparr> = d" using u by (cases d) (simp add: map_upd_triv)
  moreover have "u\<lparr>ru_Balance := ru_Balance u\<rparr> = u" by simp
  ultimately show ?thesis
    by (simp add: deductBalance_def deductTerm_def balancePlan_def logged_def DeductionTypeSubscription_def
        DeductionTypeBalance_def)
qed

lemma run_rollback:
  assumes u: "rf_users d (po_UserID o1) = Some u" and m: "0 \<le> m"
  shows "runRefund E answer (\<lambda>_. False) (RollbackRefund (balancePlan E o1 n reason force m) k) d
    = runRefund E answer (\<lambda>_. False) (k True)
        (logged (0 < m) (Gave (po_ID o1) (TakenBalance (po_UserID o1) m))
          (d\<lparr>rf_users := (rf_users d)(po_UserID o1 \<mapsto>
             u\<lparr>ru_Balance := ru_Balance u + m, ru_TotalRecharged := ru_TotalRecharged u + m\<rparr>)\<rparr>))"
proof (cases "0 < m")
  case True
  with u show ?thesis
    by (simp add: RollbackRefund_def balancePlan_def give_balance Let_def logged_def
        DeductionTypeBalance_def DeductionTypeSubscription_def)
next
  case False
  with m have "m = 0" by simp
  moreover have "d\<lparr>rf_users := (rf_users d)(po_UserID o1 \<mapsto> u)\<rparr> = d" using u by (cases d) (simp add: map_upd_triv)
  ultimately show ?thesis
    by (simp add: RollbackRefund_def balancePlan_def Let_def logged_def DeductionTypeSubscription_def DeductionTypeBalance_def)
qed

text \<open>The tables an execution ends with.\<close>

definition settledUser :: "gatewayAnswer \<Rightarrow> int \<Rightarrow> refundUser \<Rightarrow> refundUser" where
  "settledUser a m u = (if refundAccepted a then u\<lparr>ru_Balance := ru_Balance u - m\<rparr>
                        else u\<lparr>ru_TotalRecharged := ru_TotalRecharged u + m\<rparr>)"

definition settledOrder :: "gatewayAnswer \<Rightarrow> int \<Rightarrow> string \<Rightarrow> bool \<Rightarrow> time \<Rightarrow> refundOrder \<Rightarrow> refundOrder" where
  "settledOrder a n reason force now o1 =
    (if refundAccepted a
     then o1\<lparr>po_UpdatedAt := now, po_Status := if n < po_Amount o1 then OrderStatusPartiallyRefunded else OrderStatusRefunded,
             po_RefundAmount := n, po_RefundReason := Some (refundReason reason o1), po_RefundAt := Some now,
             po_ForceRefund := force\<rparr>
     else if refundPendingAnswer a
     then o1\<lparr>po_UpdatedAt := now, po_Status := OrderStatusRefundPending, po_RefundAmount := n,
             po_RefundReason := Some (refundReason reason o1), po_RefundAt := None, po_ForceRefund := force,
             po_FailedAt := None, po_FailedReason := None\<rparr>
     else o1\<lparr>po_UpdatedAt := now, po_Status := if po_Status o1 = OrderStatusRefundRequested
             then OrderStatusRefundRequested else OrderStatusCompleted\<rparr>)"

abbreviation locked :: "time \<Rightarrow> refundOrder \<Rightarrow> refundOrder" where
  "locked now o1 \<equiv> o1\<lparr>po_Status := OrderStatusRefunding, po_UpdatedAt := now\<rparr>"

lemma run_mark_ok:
  assumes "rf_orders d (po_ID o1) = Some (locked (rf_now d) o1)" and "refundAccepted a"
  shows "runRefund E answer (\<lambda>_. False) (markRefundOk (balancePlan E o1 n reason force m)) d
    = (Inr (refundOkResult (balancePlan E o1 n reason force m)),
       snd (createAudit (po_ID o1) ''REFUND_SUCCESS'' None
         (d\<lparr>rf_orders := (rf_orders d)(po_ID o1 \<mapsto> settledOrder a n reason force (rf_now d) o1)\<rparr>)))"
proof -
  have "settledOrder a n reason force (rf_now d) o1
    = (locked (rf_now d) o1)\<lparr>po_Status := refundedStatus (balancePlan E o1 n reason force m), po_RefundAmount := n,
        po_RefundReason := Some (refundReason reason o1), po_RefundAt := Some (rf_now d), po_ForceRefund := force,
        po_UpdatedAt := rf_now d\<rparr>"
    using assms(2) by (cases o1) (simp add: settledOrder_def refundedStatus_def balancePlan_def)
  then show ?thesis
    by (simp add: markRefundOk_def markOk_def update_one_hit [OF assms(1)] run_write_audit balancePlan_def)
qed

text \<open>Giving back, after which a pending or a failed refund sets its order.\<close>

definition givenBack :: "refundOrder \<Rightarrow> refundUser \<Rightarrow> int \<Rightarrow> refundDB \<Rightarrow> refundDB" where
  "givenBack o1 u m d = logged (0 < m) (Gave (po_ID o1) (TakenBalance (po_UserID o1) m))
     (d\<lparr>rf_users := (rf_users d)(po_UserID o1 \<mapsto> u\<lparr>ru_TotalRecharged := ru_TotalRecharged u + m\<rparr>)\<rparr>)"

lemma givenBack_tables [simp]:
  "rf_orders (givenBack o1 u m d) = rf_orders d" "rf_now (givenBack o1 u m d) = rf_now d"
  "rf_subs (givenBack o1 u m d) = rf_subs d"
  "rf_users (givenBack o1 u m d) = (rf_users d)(po_UserID o1 \<mapsto> u\<lparr>ru_TotalRecharged := ru_TotalRecharged u + m\<rparr>)"
  by (simp_all add: givenBack_def)

lemma run_give_back:
  assumes "rf_users d (po_UserID o1) = Some (u\<lparr>ru_Balance := ru_Balance u - m\<rparr>)" and "0 \<le> m"
  shows "runRefund E answer (\<lambda>_. False) (RollbackRefund (balancePlan E o1 n reason force m) k) d
    = runRefund E answer (\<lambda>_. False) (k True) (givenBack o1 u m d)"
  using run_rollback [OF assms] by (simp add: givenBack_def)

lemma run_mark_pending:
  assumes o1: "rf_orders d (po_ID o1) = Some (locked (rf_now d) o1)" and a: "\<not> refundAccepted a" "refundPendingAnswer a"
    and u: "rf_users d (po_UserID o1) = Some (u\<lparr>ru_Balance := ru_Balance u - m\<rparr>)" "0 \<le> m"
  shows "\<exists>w. runRefund E answer (\<lambda>_. False) (markRefundPending (balancePlan E o1 n reason force m) resp) d
    = (Inr (warn w False), snd (createAudit (po_ID o1) ''REFUND_PENDING''
         (Some \<lparr>ad_RefundID = refundResponseID resp, ad_DeductionRollbackOK = True\<rparr>) ((givenBack o1 u m d)
         \<lparr>rf_orders := (rf_orders d)(po_ID o1 \<mapsto> settledOrder a n reason force (rf_now d) o1)\<rparr>)))"
proof -
  have "settledOrder a n reason force (rf_now d) o1
    = (locked (rf_now d) o1)\<lparr>po_Status := OrderStatusRefundPending, po_RefundAmount := n,
        po_RefundReason := Some (refundReason reason o1), po_RefundAt := None, po_ForceRefund := force,
        po_FailedAt := None, po_FailedReason := None, po_UpdatedAt := rf_now d\<rparr>"
    using a by (cases o1) (simp add: settledOrder_def)
  moreover have o2: "rf_orders (givenBack o1 u m d) (po_ID o1) = Some (locked (rf_now d) o1)" using o1 by simp
  ultimately show ?thesis
    by (auto simp: markRefundPending_def run_give_back [OF u] update_one_hit [OF o2] run_write_audit plan_fields)
qed

lemma run_gateway_failed:
  assumes o1: "rf_orders d (po_ID o1) = Some (locked (rf_now d) o1)" and a: "\<not> refundAccepted a" "\<not> refundPendingAnswer a"
    and u: "rf_users d (po_UserID o1) = Some (u\<lparr>ru_Balance := ru_Balance u - m\<rparr>)" "0 \<le> m"
  shows "\<exists>w. runRefund E answer (\<lambda>_. False) (handleGwFail (balancePlan E o1 n reason force m) e) d
    = (Inr (warn w False), snd (createAudit (po_ID o1) ''REFUND_GATEWAY_FAILED'' None ((givenBack o1 u m d)
         \<lparr>rf_orders := (rf_orders d)(po_ID o1 \<mapsto> settledOrder a n reason force (rf_now d) o1)\<rparr>)))"
proof -
  have "settledOrder a n reason force (rf_now d) o1
    = (locked (rf_now d) o1)\<lparr>po_Status := if po_Status o1 = OrderStatusRefundRequested then OrderStatusRefundRequested
         else OrderStatusCompleted, po_UpdatedAt := rf_now d\<rparr>"
    using a by (cases o1) (simp add: settledOrder_def)
  moreover have o2: "rf_orders (givenBack o1 u m d) (po_ID o1) = Some (locked (rf_now d) o1)" using o1 by simp
  ultimately show ?thesis
    by (auto simp: handleGwFail_def restoreStatus_def run_give_back [OF u] update_one_hit [OF o2] run_write_audit plan_fields)
qed

lemma run_after_gateway:
  assumes o1: "rf_orders d (po_ID o1) = Some (locked (rf_now d) o1)"
    and u: "rf_users d (po_UserID o1) = Some (u\<lparr>ru_Balance := ru_Balance u - m\<rparr>)" "0 \<le> m"
    and run: "runRefund E answer (\<lambda>_. False) (afterGateway (balancePlan E o1 n reason force m) a) d = (x, d1)"
  shows "rf_users d1 = (rf_users d)(po_UserID o1 \<mapsto> settledUser a m u)
    \<and> rf_orders d1 = (rf_orders d)(po_ID o1 \<mapsto> settledOrder a n reason force (rf_now d) o1)
    \<and> rf_subs d1 = rf_subs d
    \<and> (\<exists>r. x = Inr r \<and> rs_Success r = refundAccepted a \<and> rs_BalanceDeducted r = (if refundAccepted a then m else 0))"
proof -
  consider (ok) "refundAccepted a" | (wait) "\<not> refundAccepted a" "refundPendingAnswer a"
    | (no) "\<not> refundAccepted a" "\<not> refundPendingAnswer a" by blast
  then show ?thesis
  proof cases
    case ok
    then have d1: "x = Inr (refundOkResult (balancePlan E o1 n reason force m))"
      "d1 = snd (createAudit (po_ID o1) ''REFUND_SUCCESS'' None
         (d\<lparr>rf_orders := (rf_orders d)(po_ID o1 \<mapsto> settledOrder a n reason force (rf_now d) o1)\<rparr>))"
      using run run_mark_ok [OF o1, of a E answer n reason force m] by (simp_all add: afterGateway_def)
    show ?thesis
      unfolding d1 using ok u by (simp add: settledUser_def refundOkResult_def balancePlan_def fun_upd_idem)
  next
    case wait
    let ?detail = "Some \<lparr>ad_RefundID = refundResponseID (fst a), ad_DeductionRollbackOK = True\<rparr>"
    obtain w where "runRefund E answer (\<lambda>_. False) (markRefundPending (balancePlan E o1 n reason force m) (fst a)) d
      = (Inr (warn w False), snd (createAudit (po_ID o1) ''REFUND_PENDING'' ?detail ((givenBack o1 u m d)
         \<lparr>rf_orders := (rf_orders d)(po_ID o1 \<mapsto> settledOrder a n reason force (rf_now d) o1)\<rparr>)))"
      using run_mark_pending [OF o1 wait u] by blast
    with wait run have d1: "x = Inr (warn w False)" "d1 = snd (createAudit (po_ID o1) ''REFUND_PENDING'' ?detail ((givenBack o1 u m d)
         \<lparr>rf_orders := (rf_orders d)(po_ID o1 \<mapsto> settledOrder a n reason force (rf_now d) o1)\<rparr>))"
      by (simp_all add: afterGateway_def)
    show ?thesis unfolding d1 using wait by (simp add: settledUser_def warn_def)
  next
    case no
    obtain e where e: "afterGateway (balancePlan E o1 n reason force m) a = handleGwFail (balancePlan E o1 n reason force m) e"
      using no by (simp add: afterGateway_def)
    obtain w where "runRefund E answer (\<lambda>_. False) (handleGwFail (balancePlan E o1 n reason force m) e) d
      = (Inr (warn w False), snd (createAudit (po_ID o1) ''REFUND_GATEWAY_FAILED'' None ((givenBack o1 u m d)
         \<lparr>rf_orders := (rf_orders d)(po_ID o1 \<mapsto> settledOrder a n reason force (rf_now d) o1)\<rparr>)))"
      using run_gateway_failed [OF o1 no u] by blast
    with e run have d1: "x = Inr (warn w False)" "d1 = snd (createAudit (po_ID o1) ''REFUND_GATEWAY_FAILED'' None ((givenBack o1 u m d)
         \<lparr>rf_orders := (rf_orders d)(po_ID o1 \<mapsto> settledOrder a n reason force (rf_now d) o1)\<rparr>))"
      by simp_all
    show ?thesis unfolding d1 using no by (simp add: settledUser_def warn_def)
  qed
qed

text \<open>C18. A refund of a balance order takes at most what the user has, and keeps it only when the gateway
accepts: then the order ends refunded, in part or in full. A pending answer gives the balance back and
leaves the order pending; a failure gives it back and makes the order completed again (or requested),
even when an earlier refund of it was pending. What is given back counts as recharged. No other order,
user or subscription is touched.\<close>

theorem refund_outcome:
  assumes ready: "refundReady E d o1 u" and n: "0 < n" "n \<le> po_Amount o1" and cover: "force \<or> n \<le> ru_Balance u"
    and clean: "\<not> audited (po_ID o1) ''REFUND_ROLLBACK_FAILED'' d"
    and run: "runRefund E (\<lambda>_. a) (\<lambda>_. False) (ProcessRefund E (po_ID o1) (Amount n) reason force True) d = (x, d1)"
  defines "m \<equiv> max 0 (min n (ru_Balance u))"
  shows "rf_users d1 = (rf_users d)(po_UserID o1 \<mapsto> settledUser a m u)
    \<and> rf_orders d1 = (rf_orders d)(po_ID o1 \<mapsto> settledOrder a n reason force (rf_now d) o1)
    \<and> rf_subs d1 = rf_subs d
    \<and> (\<exists>r. x = Inr r \<and> rs_Success r = refundAccepted a \<and> rs_BalanceDeducted r = (if refundAccepted a then m else 0))"
proof -
  let ?oid = "po_ID o1" and ?uid = "po_UserID o1" and ?p = "balancePlan E o1 n reason force m"
  note r = ready [unfolded refundReady_def]
  define d2 where "d2 = d\<lparr>rf_orders := (rf_orders d)(?oid \<mapsto> o1\<lparr>po_Status := OrderStatusRefunding, po_UpdatedAt := rf_now d\<rparr>)\<rparr>"
  define d3 where "d3 = logged (refundAccepted a) (GatewayPaid ?oid) (logged (0 < m) (Took ?oid (TakenBalance ?uid m))
    (d2\<lparr>rf_users := (rf_users d2)(?uid \<mapsto> u\<lparr>ru_Balance := ru_Balance u - m\<rparr>)\<rparr>))"
  have m: "0 \<le> m" "m \<le> max (ru_Balance u) 0" by (auto simp: m_def)
  have p: "rp_OrderID ?p = ?oid" "rp_Order ?p = o1" by (simp_all add: balancePlan_def)
  have lock: "execRefund E a (LockStmt ?oid) d = (RfCount 1, d2)"
    using lock_step r unfolding d2_def by blast
  have "runRefund E (\<lambda>_. a) (\<lambda>_. False) (ExecuteRefund E ?p) d
    = runRefund E (\<lambda>_. a) (\<lambda>_. False) (gwRefund E ?p (handleGwFail ?p) (finishRefund ?p))
       (logged (0 < m) (Took ?oid (TakenBalance ?uid m))
         (d2\<lparr>rf_users := (rf_users d2)(?uid \<mapsto> u\<lparr>ru_Balance := ru_Balance u - m\<rparr>)\<rparr>))"
    using run_deduct [of d2 o1 u m "\<lambda>_. False" E "\<lambda>_. a" n reason force "\<lambda>p. gwRefund E p (handleGwFail p) (finishRefund p)"] r m clean lock
    by (simp add: ExecuteRefund_def p d2_def audited_def)
  also have "\<dots> = runRefund E (\<lambda>_. a) (\<lambda>_. False) (afterGateway ?p a) d3"
    using run_gateway [of ?p E _ _ "\<lambda>_. False" a] r unfolding d3_def p by blast
  finally have "runRefund E (\<lambda>_. a) (\<lambda>_. False) (afterGateway ?p a) d3 = (x, d1)"
    using run run_prepare [OF ready n cover, of "\<lambda>_. False" "\<lambda>_. a" reason "ExecuteRefund E"]
    by (simp add: ProcessRefund_def m_def)
  moreover have "rf_users d3 = (rf_users d)(?uid \<mapsto> u\<lparr>ru_Balance := ru_Balance u - m\<rparr>)" "rf_now d3 = rf_now d" "rf_subs d3 = rf_subs d"
    "rf_orders d3 = (rf_orders d)(?oid \<mapsto> o1\<lparr>po_Status := OrderStatusRefunding, po_UpdatedAt := rf_now d\<rparr>)"
    by (simp_all add: d3_def d2_def)
  ultimately show ?thesis
    using run_after_gateway [of d3 o1 u m E "\<lambda>_. a" n reason force a x d1] m by simp
qed

section \<open>Finalising a pending refund\<close>

lemma finalize_plan_fields:
  "rp_OrderID (refundFinalizePlan E o1) = po_ID o1" "rp_Order (refundFinalizePlan E o1) = o1"
  "rp_RefundAmount (refundFinalizePlan E o1) = po_RefundAmount o1" "rp_SubDaysToDeduct (refundFinalizePlan E o1) = 0"
  "rp_DeductionType (refundFinalizePlan E o1) = DeductionTypeBalance"
  "rp_BalanceToDeduct (refundFinalizePlan E o1) = (if po_OrderType o1 = OrderTypeBalance then po_RefundAmount o1 else 0)"
  by (simp_all add: refundFinalizePlan_def Let_def)

lemma finalize_tx:
  assumes o1: "rf_orders d (po_ID o1) = Some o1" "po_Status o1 = OrderStatusRefundPending" "po_OrderType o1 = OrderTypeBalance"
    and u: "rf_users d (po_UserID o1) = Some u" "\<not> ru_Deleted u" and n: "0 < po_RefundAmount o1"
    and clean: "\<not> audited (po_ID o1) ''REFUND_SUCCESS'' d"
  defines "m \<equiv> min (po_RefundAmount o1) (max (ru_Balance u) 0)"
  shows "\<exists>res d1. finalizeTx z (refundFinalizePlan E o1) d = (RfResult res, d1)
    \<and> rs_Success res \<and> rs_BalanceDeducted res = m
    \<and> rf_users d1 = (rf_users d)(po_UserID o1 \<mapsto> u\<lparr>ru_Balance := ru_Balance u - m\<rparr>)
    \<and> (\<exists>o2. rf_orders d1 = (rf_orders d)(po_ID o1 \<mapsto> o2) \<and> po_RefundAmount o2 = po_RefundAmount o1
         \<and> po_Status o2 = (if po_RefundAmount o1 < po_Amount o1 then OrderStatusPartiallyRefunded else OrderStatusRefunded))
    \<and> audited (po_ID o1) ''REFUND_SUCCESS'' d1"
proof -
  define d2 where "d2 = d\<lparr>rf_orders := (rf_orders d)(po_ID o1 \<mapsto> o1\<lparr>po_Status := OrderStatusRefunding, po_UpdatedAt := rf_now d\<rparr>)\<rparr>"
  define d3 where "d3 = logged (0 < m) (Took (po_ID o1) (TakenBalance (po_UserID o1) m))
    (d2\<lparr>rf_users := (rf_users d2)(po_UserID o1 \<mapsto> u\<lparr>ru_Balance := ru_Balance u - m\<rparr>)\<rparr>)"
  let ?p = "(refundFinalizePlan E o1)\<lparr>rp_BalanceToDeduct := m\<rparr>"
  have claim: "updateRefundOrder (po_ID o1) (\<lambda>o1. po_Status o1 = OrderStatusRefundPending)
      (\<lambda>o1. o1\<lparr>po_Status := OrderStatusRefunding\<rparr>) d = (RfCount 1, d2)"
    using update_order_hit [OF o1(1), of "\<lambda>o1. po_Status o1 = OrderStatusRefundPending"] o1(2) by (simp add: d2_def)
  have "rf_users d2 (po_UserID o1) = Some u" using u by (simp add: d2_def)
  from take_balance [OF this u(2), of "po_RefundAmount o1" "po_ID o1"] n
  have take: "takeBalance (po_ID o1) (po_UserID o1) (po_RefundAmount o1) d2 = (RfTaken m, d3)"
    by (simp add: d3_def m_def Let_def)
  have deduct: "applyRefundFinalDeduction z (refundFinalizePlan E o1) d2 = Inr (?p, d3)"
    using take n o1(3)
    by (simp add: applyRefundFinalDeduction_def finalize_plan_fields DeductionTypeBalance_def DeductionTypeSubscription_def)
  have row: "rf_orders d3 (po_ID o1) = Some (o1\<lparr>po_Status := OrderStatusRefunding, po_UpdatedAt := rf_now d\<rparr>)"
    by (simp add: d3_def d2_def)
  define o2 where "o2 = o1\<lparr>po_Status := refundedStatus ?p, po_UpdatedAt := rf_now d, po_RefundAmount := po_RefundAmount o1,
    po_RefundReason := Some (rp_Reason ?p), po_RefundAt := Some (rf_now d), po_ForceRefund := rp_Force ?p\<rparr>"
  define d4 where "d4 = d3\<lparr>rf_orders := (rf_orders d3)(po_ID o1 \<mapsto> o2)\<rparr>"
  have "rf_now d3 = rf_now d" by (simp add: d3_def d2_def)
  then have mark: "markOk (po_ID o1) (refundedStatus ?p) (po_RefundAmount o1) (rp_Reason ?p) (rp_Force ?p) d3 = (RfOK, d4)"
    unfolding markOk_def update_one_hit [OF row] d4_def o2_def by (cases o1) simp
  have "rf_audit d4 = rf_audit d" by (simp add: d4_def d3_def d2_def)
  with clean have "\<not> audited (po_ID o1) ''REFUND_SUCCESS'' d4" by (simp add: audited_def)
  then obtain d5 where audit: "createAudit (po_ID o1) ''REFUND_SUCCESS'' None d4 = (RfOK, d5)"
    by (simp add: createAudit_def)
  from claim deduct mark audit have tx: "finalizeTx z (refundFinalizePlan E o1) d = (RfResult (refundOkResult ?p), d5)"
    by (simp add: finalizeTx_def finalize_plan_fields)
  have "d5 = snd (createAudit (po_ID o1) ''REFUND_SUCCESS'' None d4)" using audit by simp
  then have "rf_users d5 = rf_users d3" "rf_orders d5 = (rf_orders d3)(po_ID o1 \<mapsto> o2)" "audited (po_ID o1) ''REFUND_SUCCESS'' d5"
    by (simp_all add: d4_def audited_create)
  moreover have "rf_orders d3 = (rf_orders d)(po_ID o1 \<mapsto> locked (rf_now d) o1)"
    "rf_users d3 = (rf_users d)(po_UserID o1 \<mapsto> u\<lparr>ru_Balance := ru_Balance u - m\<rparr>)"
    by (simp_all add: d3_def d2_def)
  moreover have "po_RefundAmount o2 = po_RefundAmount o1"
    "po_Status o2 = (if po_RefundAmount o1 < po_Amount o1 then OrderStatusPartiallyRefunded else OrderStatusRefunded)"
    by (simp_all add: o2_def refundedStatus_def finalize_plan_fields)
  ultimately show ?thesis using tx by (auto simp: refundOkResult_def)
qed

text \<open>A query on a pending refund whose deduction had been given back.\<close>

definition refundAwaited :: "refundEnv \<Rightarrow> refundDB \<Rightarrow> refundOrder \<Rightarrow> refundUser \<Rightarrow> bool" where
  "refundAwaited E d o1 u \<longleftrightarrow> rf_orders d (po_ID o1) = Some o1 \<and> po_Status o1 = OrderStatusRefundPending
     \<and> po_OrderType o1 = OrderTypeBalance \<and> 0 < po_RefundAmount o1
     \<and> rf_users d (po_UserID o1) = Some u \<and> \<not> ru_Deleted u
     \<and> (\<exists>i. re_Instance E o1 = Inr (Some i)) \<and> re_Provider E o1 = Inr True
     \<and> ad_DeductionRollbackOK (latestRefundPendingDetail (po_ID o1) d)"

lemma run_query_accepted:
  assumes ready: "refundAwaited E d o1 u" and a: "refundAccepted a"
  shows "runRefund E (\<lambda>_. a) (\<lambda>_. False) (QueryAndFinalizeRefund E (po_ID o1)) d
    = runRefund E (\<lambda>_. a) (\<lambda>_. False) (finalizePendingRefundSuccess (refundFinalizePlan E o1)) d"
proof -
  obtain q where q: "a = (Some q, None)" "trim_space (rr_Status q) \<in> set [ProviderStatusSuccess, ProviderStatusRefunded]"
    using a by (cases a) (auto simp: refundAccepted_def split: option.splits)
  then have "validateRefundProviderResponse (Some q) = None" by (auto simp: validateRefundProviderResponse_def Let_def)
  with ready q show ?thesis
    by (auto simp: refundAwaited_def QueryAndFinalizeRefund_def Let_def OrderTypeBalance_def OrderTypeSubscription_def)
qed

text \<open>When the gateway confirms a pending refund, the finalisation takes the refund's amount from the
user, or what there is, marks the order refunded and leaves its audit line, all in one transaction;
finalising it again is refused and changes nothing.\<close>

theorem pending_refund_finalised_once:
  assumes ready: "refundAwaited E d o1 u" and a: "refundAccepted a"
    and clean: "\<not> audited (po_ID o1) ''REFUND_SUCCESS'' d"
    and run: "runRefund E (\<lambda>_. a) (\<lambda>_. False) (QueryAndFinalizeRefund E (po_ID o1)) d = (x, d1)"
  defines "m \<equiv> min (po_RefundAmount o1) (max (ru_Balance u) 0)"
  shows "rf_users d1 = (rf_users d)(po_UserID o1 \<mapsto> u\<lparr>ru_Balance := ru_Balance u - m\<rparr>)
    \<and> map_option po_Status (rf_orders d1 (po_ID o1)) = Some (if po_RefundAmount o1 < po_Amount o1
         then OrderStatusPartiallyRefunded else OrderStatusRefunded)
    \<and> audited (po_ID o1) ''REFUND_SUCCESS'' d1
    \<and> (\<exists>res. x = Inr res \<and> rs_Success res \<and> rs_BalanceDeducted res = m)
    \<and> runRefund E (\<lambda>_. a) (\<lambda>_. False) (QueryAndFinalizeRefund E (po_ID o1)) d1 = (Inl ''INVALID_STATUS'', d1)
    \<and> execRefund E b (FinalizeStmt (refundFinalizePlan E o1)) d1 = (RfErr ''CONFLICT'', d1)"
proof -
  note r = ready [unfolded refundAwaited_def]
  obtain res d2 o2 where tx: "finalizeTx (re_Zone E) (refundFinalizePlan E o1) d = (RfResult res, d2)" "rs_Success res"
      "rs_BalanceDeducted res = m" "audited (po_ID o1) ''REFUND_SUCCESS'' d2"
      "rf_users d2 = (rf_users d)(po_UserID o1 \<mapsto> u\<lparr>ru_Balance := ru_Balance u - m\<rparr>)"
      "rf_orders d2 = (rf_orders d)(po_ID o1 \<mapsto> o2)"
      "po_Status o2 = (if po_RefundAmount o1 < po_Amount o1 then OrderStatusPartiallyRefunded else OrderStatusRefunded)"
    using finalize_tx [of d o1 u "re_Zone E" E] r clean unfolding m_def by blast
  from run tx(1) have d1: "x = Inr res" "d1 = d2"
    by (simp_all add: run_query_accepted [OF ready a] finalizePendingRefundSuccess_def)
  have no: "po_Status o2 \<noteq> OrderStatusRefundPending" by (simp add: tx(7) refundStrings)
  have again: "runRefund E (\<lambda>_. a) (\<lambda>_. False) (QueryAndFinalizeRefund E (po_ID o1)) d2 = (Inl ''INVALID_STATUS'', d2)"
    using no tx(6) by (simp add: QueryAndFinalizeRefund_def)
  have "execRefund E b (FinalizeStmt (refundFinalizePlan E o1)) d2 = (RfErr ''CONFLICT'', d2)"
    using no tx(6) by (simp add: finalizeTx_def updateRefundOrder_def finalize_plan_fields)
  with again tx d1 show ?thesis by simp
qed

section \<open>A retry after a failed rollback\<close>

definition providerUp :: "refundEnv \<Rightarrow> bool" where
  "providerUp E \<longleftrightarrow> (\<forall>o1. \<exists>i. re_Instance E o1 = Inr (Some i) \<and> ri_RefundEnabled i \<and> re_Provider E o1 = Inr True
     \<and> re_MetadataError E o1 = None)"

lemma providerUpD: "providerUp E \<Longrightarrow>
    (\<exists>i. re_Instance E o1 = Inr (Some i) \<and> ri_RefundEnabled i) \<and> re_Provider E o1 = Inr True \<and> re_MetadataError E o1 = None"
  unfolding providerUp_def by blast

text \<open>The gateway fails and the balance cannot be given back.\<close>

lemma run_rollback_failed:
  assumes ready: "refundReady E d o1 u" and n: "0 < n" "n \<le> po_Amount o1" "n \<le> ru_Balance u"
    and clean: "\<not> audited (po_ID o1) ''REFUND_ROLLBACK_FAILED'' d"
    and a: "\<not> refundAccepted a" "\<not> refundPendingAnswer a"
    and run: "runRefund E (\<lambda>_. a) giveBackStmt (ProcessRefund E (po_ID o1) (Amount n) reason force True) d = (x, d1)"
  shows "rf_users d1 = (rf_users d)(po_UserID o1 \<mapsto> u\<lparr>ru_Balance := ru_Balance u - n\<rparr>)
    \<and> (\<exists>e now. rf_orders d1 = (rf_orders d)(po_ID o1 \<mapsto> o1\<lparr>po_UpdatedAt := now, po_Status := OrderStatusRefundFailed,
          po_FailedAt := Some now, po_FailedReason := Some e\<rparr>))
    \<and> audited (po_ID o1) ''REFUND_ROLLBACK_FAILED'' d1
    \<and> (\<forall>act. act \<notin> {''REFUND_ROLLBACK_FAILED'', ''REFUND_FAILED''} \<longrightarrow>
         filter (\<lambda>l. al_OrderID l = po_ID o1 \<and> al_Action l = act) (rf_audit d1)
       = filter (\<lambda>l. al_OrderID l = po_ID o1 \<and> al_Action l = act) (rf_audit d))"
proof -
  let ?oid = "po_ID o1" and ?uid = "po_UserID o1" and ?p = "balancePlan E o1 n reason force n"
  note r = ready [unfolded refundReady_def]
  define d2 where "d2 = d\<lparr>rf_orders := (rf_orders d)(?oid \<mapsto> locked (rf_now d) o1)\<rparr>"
  define d3 where "d3 = logged (0 < n) (Took ?oid (TakenBalance ?uid n))
    (d2\<lparr>rf_users := (rf_users d2)(?uid \<mapsto> u\<lparr>ru_Balance := ru_Balance u - n\<rparr>)\<rparr>)"
  have lock: "execRefund E a (LockStmt ?oid) d = (RfCount 1, d2)"
    using lock_step r unfolding d2_def by blast
  have fine: "bad st \<Longrightarrow> bad = giveBackStmt \<Longrightarrow> giveBackStmt st" for bad st by simp
  have "runRefund E (\<lambda>_. a) giveBackStmt (ExecuteRefund E ?p) d
    = runRefund E (\<lambda>_. a) giveBackStmt (gwRefund E ?p (handleGwFail ?p) (finishRefund ?p)) d3"
    using run_deduct [of d2 o1 u n giveBackStmt E "\<lambda>_. a" n reason force "\<lambda>p. gwRefund E p (handleGwFail p) (finishRefund p)"]
      r n clean lock
    by (simp add: ExecuteRefund_def plan_fields d3_def d2_def audited_def)
  also have "\<dots> = runRefund E (\<lambda>_. a) giveBackStmt (afterGateway ?p a) (logged (refundAccepted a) (GatewayPaid ?oid) d3)"
    using run_gateway [of ?p E _ _ giveBackStmt a] r unfolding plan_fields by auto
  finally have exec: "runRefund E (\<lambda>_. a) giveBackStmt (ExecuteRefund E ?p) d = runRefund E (\<lambda>_. a) giveBackStmt (afterGateway ?p a) d3"
    using a by (simp add: logged_def)
  obtain e where e: "afterGateway ?p a = handleGwFail ?p e" using a by (simp add: afterGateway_def)
  have "max 0 (min n (ru_Balance u)) = n" using n by simp
  with run run_prepare [OF ready n(1,2), of force giveBackStmt "\<lambda>_. a" reason "ExecuteRefund E"] n exec e
  have run3: "runRefund E (\<lambda>_. a) giveBackStmt (handleGwFail ?p e) d3 = (x, d1)"
    by (simp add: ProcessRefund_def)
  let ?d4 = "snd (createAudit ?oid ''REFUND_ROLLBACK_FAILED'' None d3)"
  have row: "rf_orders ?d4 ?oid = Some (locked (rf_now d) o1)" by (simp add: d3_def d2_def)
  let ?d5 = "?d4\<lparr>rf_orders := (rf_orders ?d4)(?oid \<mapsto> (locked (rf_now d) o1)\<lparr>po_Status := OrderStatusRefundFailed,
       po_FailedAt := Some (rf_now ?d4), po_FailedReason := Some e, po_UpdatedAt := rf_now ?d4\<rparr>)\<rparr>"
  have d1: "d1 = snd (createAudit ?oid ''REFUND_FAILED'' None ?d5)"
    using run3 n
    by (simp add: handleGwFail_def RollbackRefund_def balancePlan_def Let_def DeductionTypeBalance_def
        run_write_audit update_one_hit [OF row])
  have audit3: "rf_audit d3 = rf_audit d" by (simp add: d3_def d2_def)
  have "rf_orders d1 = (rf_orders d)(?oid \<mapsto> o1\<lparr>po_UpdatedAt := rf_now d, po_Status := OrderStatusRefundFailed,
          po_FailedAt := Some (rf_now d), po_FailedReason := Some e\<rparr>)"
    unfolding d1 by (cases o1) (simp add: d3_def d2_def)
  moreover have "rf_users d1 = (rf_users d)(?uid \<mapsto> u\<lparr>ru_Balance := ru_Balance u - n\<rparr>)"
    unfolding d1 by (simp add: d3_def d2_def)
  moreover have "audited ?oid ''REFUND_ROLLBACK_FAILED'' ?d4" by (simp add: audited_create)
  then have "audited ?oid ''REFUND_ROLLBACK_FAILED'' ?d5" by (simp add: audited_def)
  then have "audited ?oid ''REFUND_ROLLBACK_FAILED'' d1" unfolding d1 audited_create by blast
  moreover have "filter (\<lambda>l. al_OrderID l = ?oid \<and> al_Action l = act) (rf_audit d1)
       = filter (\<lambda>l. al_OrderID l = ?oid \<and> al_Action l = act) (rf_audit d)"
    if "act \<notin> {''REFUND_ROLLBACK_FAILED'', ''REFUND_FAILED''}" for act
    unfolding d1 using that audit3 by (auto simp: createAudit_def)
  ultimately show ?thesis by blast
qed

text \<open>The retry does not deduct again, and a pending answer records that nothing is owed.\<close>

lemma run_retry_pending:
  assumes ready: "refundReady E d o1 u" and n: "0 < n" "n \<le> po_Amount o1" and cover: "force \<or> n \<le> ru_Balance u"
    and failed: "audited (po_ID o1) ''REFUND_ROLLBACK_FAILED'' d"
    and fresh: "filter (\<lambda>l. al_OrderID l = po_ID o1 \<and> al_Action l = ''REFUND_PENDING'') (rf_audit d) = []"
    and a: "\<not> refundAccepted a" "refundPendingAnswer a"
    and run: "runRefund E (\<lambda>_. a) (\<lambda>_. False) (ProcessRefund E (po_ID o1) (Amount n) reason force True) d = (x, d1)"
  shows "rf_users d1 = rf_users d
    \<and> rf_orders d1 = (rf_orders d)(po_ID o1 \<mapsto> settledOrder a n reason force (rf_now d) o1)
    \<and> ad_DeductionRollbackOK (latestRefundPendingDetail (po_ID o1) d1)
    \<and> (audited (po_ID o1) ''REFUND_SUCCESS'' d1 \<longrightarrow> audited (po_ID o1) ''REFUND_SUCCESS'' d)"
proof -
  let ?oid = "po_ID o1" and ?m = "max 0 (min n (ru_Balance u))"
  let ?p = "balancePlan E o1 n reason force ?m" and ?q = "balancePlan E o1 n reason force 0"
  note r = ready [unfolded refundReady_def]
  define d2 where "d2 = d\<lparr>rf_orders := (rf_orders d)(?oid \<mapsto> locked (rf_now d) o1)\<rparr>"
  have tables: "rf_audit d2 = rf_audit d" "rf_users d2 = rf_users d" "rf_now d2 = rf_now d"
    by (simp_all add: d2_def)
  have lock: "execRefund E a (LockStmt ?oid) d = (RfCount 1, d2)"
    using lock_step r unfolding d2_def by blast
  have "audited ?oid ''REFUND_ROLLBACK_FAILED'' d2" using failed by (simp add: audited_def tables)
  moreover have "?p\<lparr>rp_BalanceToDeduct := 0\<rparr> = ?q" "rp_BalanceToDeduct ?p = ?m" "rp_DeductionType ?p = DeductionTypeBalance"
    "rp_DeductionType ?q = DeductionTypeBalance"
    by (simp_all add: balancePlan_def)
  moreover have "?p = ?q" if "\<not> 0 < ?m"
  proof -
    have "?m = 0" using that by linarith
    then show ?thesis by (rule arg_cong)
  qed
  ultimately have "runRefund E (\<lambda>_. a) (\<lambda>_. False) (ExecuteRefund E ?p) d
    = runRefund E (\<lambda>_. a) (\<lambda>_. False) (gwRefund E ?q (handleGwFail ?q) (finishRefund ?q)) d2"
    using lock
    by (cases "0 < ?m") (simp_all add: ExecuteRefund_def plan_fields deductBalance_def deductTerm_def hasAuditLog_def
        DeductionTypeBalance_def DeductionTypeSubscription_def)
  also have "\<dots> = runRefund E (\<lambda>_. a) (\<lambda>_. False) (markRefundPending ?q (fst a)) d2"
    using run_gateway [of ?q E _ _ "\<lambda>_. False" a] r a unfolding plan_fields by (auto simp: afterGateway_def logged_def)
  finally have "runRefund E (\<lambda>_. a) (\<lambda>_. False) (markRefundPending ?q (fst a)) d2 = (x, d1)"
    using run run_prepare [OF ready n cover, of "\<lambda>_. False" "\<lambda>_. a" reason "ExecuteRefund E"]
    by (simp add: ProcessRefund_def)
  moreover have "rf_orders d2 ?oid = Some (locked (rf_now d2) o1)" by (simp add: d2_def)
  moreover have "rf_users d2 (po_UserID o1) = Some (u\<lparr>ru_Balance := ru_Balance u - 0\<rparr>)" using r tables by simp
  ultimately obtain w where d1: "d1 = snd (createAudit ?oid ''REFUND_PENDING''
         (Some \<lparr>ad_RefundID = refundResponseID (fst a), ad_DeductionRollbackOK = True\<rparr>) ((givenBack o1 u 0 d2)
         \<lparr>rf_orders := (rf_orders d2)(?oid \<mapsto> settledOrder a n reason force (rf_now d2) o1)\<rparr>))"
    using run_mark_pending [of d2 o1 a u 0 E "\<lambda>_. a" n reason force "fst a"] a by auto
  have audit: "rf_audit (givenBack o1 u 0 d2) = rf_audit d" by (simp add: givenBack_def tables)
  have "\<not> audited ?oid ''REFUND_PENDING'' d" using fresh by (auto simp: audited_def filter_empty_conv)
  then have "ad_DeductionRollbackOK (latestRefundPendingDetail ?oid d1)"
    using fresh audit by (simp add: d1 createAudit_def audited_def latestRefundPendingDetail_def)
  moreover have "audited ?oid ''REFUND_SUCCESS'' d" if "audited ?oid ''REFUND_SUCCESS'' d1"
    using that audit unfolding d1 audited_create by (simp add: audited_def)
  moreover have "rf_users d1 = rf_users d" using r by (simp add: d1 tables fun_upd_idem)
  ultimately show ?thesis by (simp add: d1 d2_def)
qed

text \<open>C19. A user can pay twice for one refund: the gateway fails and the balance cannot be given back; the
retry, knowing that from the audit log, deducts nothing, and is answered pending; as it had nothing to
give back it records a successful rollback, so the finalisation deducts the amount a second time.\<close>

theorem retried_refund_taken_twice:
  assumes up: "providerUp E" and ready: "refundReady E d o1 u"
    and n: "0 < n" "n \<le> po_Amount o1" "2 * n \<le> ru_Balance u"
    and fresh: "\<forall>l\<in>set (rf_audit d). al_OrderID l \<noteq> po_ID o1"
    and fails: "\<not> refundAccepted a1" "\<not> refundPendingAnswer a1"
    and run1: "runRefund E (\<lambda>_. a1) giveBackStmt (ProcessRefund E (po_ID o1) (Amount n) reason1 force1 True) d = (x1, d1)"
    and waits: "\<not> refundAccepted a2" "refundPendingAnswer a2"
    and run2: "runRefund E (\<lambda>_. a2) (\<lambda>_. False) (ProcessRefund E (po_ID o1) (Amount n) reason2 force2 True) d1 = (x2, d2)"
    and accepted: "refundAccepted a3"
    and run3: "runRefund E (\<lambda>_. a3) (\<lambda>_. False) (QueryAndFinalizeRefund E (po_ID o1)) d2 = (x3, d3)"
  shows "map_option ru_Balance (rf_users d3 (po_UserID o1)) = Some (ru_Balance u - 2 * n)
    \<and> map_option po_Status (rf_orders d3 (po_ID o1))
       = Some (if n < po_Amount o1 then OrderStatusPartiallyRefunded else OrderStatusRefunded)"
proof -
  let ?oid = "po_ID o1" and ?uid = "po_UserID o1"
  let ?u1 = "u\<lparr>ru_Balance := ru_Balance u - n\<rparr>"
  note r = ready [unfolded refundReady_def]
  have free: "filter (\<lambda>l. al_OrderID l = ?oid \<and> al_Action l = act) (rf_audit d) = []" for act
    using fresh by (simp add: filter_empty_conv)
  have clean: "\<not> audited ?oid act d" for act using fresh by (auto simp: audited_def)
  have "n \<le> ru_Balance u" using n by simp
  from run_rollback_failed [OF ready n(1,2) this clean fails run1] obtain e now where
    o: "rf_orders d1 = (rf_orders d)(?oid \<mapsto> o1\<lparr>po_UpdatedAt := now, po_Status := OrderStatusRefundFailed,
          po_FailedAt := Some now, po_FailedReason := Some e\<rparr>)"
    and users1: "rf_users d1 = (rf_users d)(?uid \<mapsto> ?u1)" and failed: "audited ?oid ''REFUND_ROLLBACK_FAILED'' d1"
    and rest: "\<And>act. act \<notin> {''REFUND_ROLLBACK_FAILED'', ''REFUND_FAILED''} \<Longrightarrow>
         filter (\<lambda>l. al_OrderID l = ?oid \<and> al_Action l = act) (rf_audit d1) = []"
    by (auto simp: free)
  define o2 where "o2 = o1\<lparr>po_UpdatedAt := now, po_Status := OrderStatusRefundFailed,
          po_FailedAt := Some now, po_FailedReason := Some e\<rparr>"
  have f2: "po_ID o2 = ?oid" "po_UserID o2 = ?uid" "po_Amount o2 = po_Amount o1" "po_OrderType o2 = OrderTypeBalance"
    "po_PaymentTradeNo o2 \<noteq> []" "refundable o2"
    using r by (simp_all add: o2_def refundable_def)
  have ready2: "refundReady E d1 o2 ?u1"
    using o users1 f2 r providerUpD [OF up, of o2] by (auto simp: refundReady_def o2_def)
  have "n \<le> ru_Balance ?u1" using n by simp
  from run_retry_pending [OF ready2 n(1), unfolded f2, OF n(2) _ failed _ waits run2] this rest
  have s2: "rf_users d2 = rf_users d1"
    "rf_orders d2 = (rf_orders d1)(?oid \<mapsto> settledOrder a2 n reason2 force2 (rf_now d1) o2)"
    "ad_DeductionRollbackOK (latestRefundPendingDetail ?oid d2)"
    "audited ?oid ''REFUND_SUCCESS'' d2 \<longrightarrow> audited ?oid ''REFUND_SUCCESS'' d1"
    by auto
  define o3 where "o3 = settledOrder a2 n reason2 force2 (rf_now d1) o2"
  have f3: "po_ID o3 = ?oid" "po_UserID o3 = ?uid" "po_Amount o3 = po_Amount o1" "po_OrderType o3 = OrderTypeBalance"
    "po_Status o3 = OrderStatusRefundPending" "po_RefundAmount o3 = n"
    using f2 waits by (simp_all add: o3_def settledOrder_def)
  have ready3: "refundAwaited E d2 o3 ?u1"
    using s2 users1 f3 n(1) r providerUpD [OF up, of o3] by (auto simp: refundAwaited_def o3_def)
  have "\<not> audited ?oid ''REFUND_SUCCESS'' d1"
    using rest [of "''REFUND_SUCCESS''"] by (auto simp: audited_def filter_empty_conv)
  with s2(4) have clean3: "\<not> audited (po_ID o3) ''REFUND_SUCCESS'' d2" by (simp add: f3)
  have run3': "runRefund E (\<lambda>_. a3) (\<lambda>_. False) (QueryAndFinalizeRefund E (po_ID o3)) d2 = (x3, d3)" using run3 by (simp add: f3)
  obtain res d4 oz where tx: "finalizeTx (re_Zone E) (refundFinalizePlan E o3) d2 = (RfResult res, d4)"
      "rf_users d4 = (rf_users d2)(po_UserID o3 \<mapsto> ?u1\<lparr>ru_Balance := ru_Balance ?u1 - min (po_RefundAmount o3) (max (ru_Balance ?u1) 0)\<rparr>)"
      "rf_orders d4 = (rf_orders d2)(po_ID o3 \<mapsto> oz)"
      "po_Status oz = (if po_RefundAmount o3 < po_Amount o3 then OrderStatusPartiallyRefunded else OrderStatusRefunded)"
    using finalize_tx [of d2 o3 ?u1 "re_Zone E" E] ready3 clean3 unfolding refundAwaited_def by blast
  have "d3 = d4" using run3' tx(1)
    by (simp add: run_query_accepted [OF ready3 accepted] finalizePendingRefundSuccess_def)
  then show ?thesis using tx n f3 by simp
qed

section \<open>An instance\<close>

definition demoRefundEnv :: refundEnv where
  "demoRefundEnv = \<lparr>re_Instance = (\<lambda>_. Inr (Some \<lparr>ri_AllowUserRefund = True, ri_RefundEnabled = True\<rparr>)),
     re_Provider = (\<lambda>_. Inr True), re_MetadataError = (\<lambda>_. None), re_Currency = (\<lambda>_. ''CNY''),
     re_Decimal = demoDecimal, re_Zone = shanghai\<rparr>"

definition demoRefundOrder :: refundOrder where
  "demoRefundOrder = \<lparr>po_ID = 5, po_UserID = 7, po_OrderType = ''balance'', po_Amount = 100, po_PayAmount = 103,
     po_RechargeCode = ''PAY-5'', po_OutTradeNo = ''sub2_5'', po_PaymentType = ''alipay'', po_PaymentTradeNo = ''T5'',
     po_SubscriptionGroupID = None, po_SubscriptionDays = None, po_Status = ''COMPLETED'', po_ExpiresAt = 0,
     po_UpdatedAt = 0, po_PaidAt = Some 0, po_CompletedAt = Some 0, po_FailedReason = None, po_RefundAmount = 0,
     po_RefundReason = None, po_RefundAt = None, po_ForceRefund = False, po_RefundRequestedAt = None,
     po_RefundRequestReason = None, po_RefundRequestedBy = None, po_FailedAt = None\<rparr>"

definition demoRefundUser :: refundUser where
  "demoRefundUser = \<lparr>ru_Balance = 250, ru_TotalRecharged = 300, ru_Deleted = False\<rparr>"

definition demoRefundDB :: refundDB where
  "demoRefundDB = \<lparr>rf_orders = [5 \<mapsto> demoRefundOrder], rf_users = [7 \<mapsto> demoRefundUser], rf_audit = [],
     rf_subs = \<lparr>sd_rows = [], sd_groups = [], sd_nextID = 1\<rparr>, rf_now = 9, rf_log = []\<rparr>"

definition demoRefused :: gatewayAnswer where "demoRefused = (None, Some ''refused'')"
definition demoWaiting :: gatewayAnswer where "demoWaiting = (Some \<lparr>rr_RefundID = ''R1'', rr_Status = ''pending''\<rparr>, None)"
definition demoAccepted :: gatewayAnswer where "demoAccepted = (Some \<lparr>rr_RefundID = ''R1'', rr_Status = ''success''\<rparr>, None)"

lemma demo_answers:
  "\<not> refundAccepted demoRefused" "\<not> refundPendingAnswer demoRefused"
  "\<not> refundAccepted demoWaiting" "refundPendingAnswer demoWaiting" "refundAccepted demoAccepted"
  by code_simp+

lemma demo_order:
  "po_ID demoRefundOrder = 5" "po_UserID demoRefundOrder = 7" "po_Amount demoRefundOrder = 100"
  "po_Status demoRefundOrder = ''COMPLETED''" "ru_Balance demoRefundUser = 250" "ru_TotalRecharged demoRefundUser = 300"
  by (simp_all add: demoRefundOrder_def demoRefundUser_def)

lemma demo_refund_ready: "refundReady demoRefundEnv demoRefundDB demoRefundOrder demoRefundUser"
  by (auto simp: refundReady_def demoRefundDB_def demoRefundOrder_def demoRefundUser_def demoRefundEnv_def
      refundable_def refundStrings OrderTypeBalance_def)

lemma demo_audit: "rf_audit demoRefundDB = []" "\<not> audited oid act demoRefundDB"
  by (simp_all add: demoRefundDB_def audited_def)

abbreviation demoRefund :: "gatewayAnswer \<Rightarrow> (refundStmt \<Rightarrow> bool) \<Rightarrow> refundDB \<Rightarrow> (string + refundResult) \<times> refundDB" where
  "demoRefund a bad d \<equiv> runRefund demoRefundEnv (\<lambda>_. a) bad (ProcessRefund demoRefundEnv 5 (Amount 100) [] False True) d"

lemma refund_outcome_witness:
  "map_option ru_Balance (rf_users (snd (demoRefund demoAccepted (\<lambda>_. False) demoRefundDB)) 7) = Some 150
   \<and> map_option po_Status (rf_orders (snd (demoRefund demoRefused (\<lambda>_. False) demoRefundDB)) 5) = Some ''COMPLETED''
   \<and> map_option ru_TotalRecharged (rf_users (snd (demoRefund demoRefused (\<lambda>_. False) demoRefundDB)) 7) = Some 400"
proof -
  note r = refund_outcome [OF demo_refund_ready, unfolded demo_order, OF _ _ _ demo_audit(2) prod.collapse [symmetric],
      of 100 False _ "[]"]
  from r [of demoAccepted] r [of demoRefused] demo_answers show ?thesis
    by (simp add: settledUser_def settledOrder_def demo_order refundStrings)
qed

text \<open>A pending refund of the order, confirmed.\<close>

definition demoPendingOrder :: refundOrder where
  "demoPendingOrder = demoRefundOrder\<lparr>po_Status := ''REFUND_PENDING'', po_RefundAmount := 100\<rparr>"

definition demoPendingDB :: refundDB where
  "demoPendingDB = demoRefundDB\<lparr>rf_orders := [5 \<mapsto> demoPendingOrder]\<rparr>"

lemma pending_refund_finalised_once_witness:
  "map_option ru_Balance (rf_users (snd (runRefund demoRefundEnv (\<lambda>_. demoAccepted) (\<lambda>_. False)
     (QueryAndFinalizeRefund demoRefundEnv 5) demoPendingDB)) 7) = Some 150"
proof -
  have ready: "refundAwaited demoRefundEnv demoPendingDB demoPendingOrder demoRefundUser"
    by (simp add: refundAwaited_def demoPendingDB_def demoPendingOrder_def demoRefundDB_def demoRefundOrder_def
        demoRefundUser_def demoRefundEnv_def refundStrings OrderTypeBalance_def latestRefundPendingDetail_def)
  have "\<not> audited (po_ID demoPendingOrder) ''REFUND_SUCCESS'' demoPendingDB"
    by (simp add: demoPendingDB_def audited_def demo_audit)
  from pending_refund_finalised_once [OF ready demo_answers(5) this prod.collapse [symmetric], of demoAccepted]
  show ?thesis by (simp add: demoPendingOrder_def demo_order)
qed

lemma retried_refund_taken_twice_witness:
  "map_option ru_Balance (rf_users (snd (runRefund demoRefundEnv (\<lambda>_. demoAccepted) (\<lambda>_. False)
       (QueryAndFinalizeRefund demoRefundEnv 5)
       (snd (demoRefund demoWaiting (\<lambda>_. False) (snd (demoRefund demoRefused giveBackStmt demoRefundDB)))))) 7)
     = Some 50"
proof -
  have up: "providerUp demoRefundEnv" by (simp add: providerUp_def demoRefundEnv_def)
  have fresh: "\<forall>l\<in>set (rf_audit demoRefundDB). al_OrderID l \<noteq> 5" by (simp add: demo_audit)
  from retried_refund_taken_twice [OF up demo_refund_ready, unfolded demo_order, OF _ _ _ fresh demo_answers(1,2)
      prod.collapse [symmetric] demo_answers(3,4) prod.collapse [symmetric] demo_answers(5) prod.collapse [symmetric],
      where n = 100 and ?reason1.0 = "[]" and ?force1.0 = False and ?reason2.0 = "[]" and ?force2.0 = False]
  show ?thesis by simp
qed

end
