(* ===== verification/RefundRace.thy ===== *)
theory RefundRace
  imports RefundFacts
begin

text \<open>
  Any number of refund requests and executions, interleaved statement by statement with one another and
  with the rest of the system, where the gateway answers anything and every statement but those on the
  audit log may fail without effect.

  \<^item> \<open>refundHold\<close> is what a flow has a right to at a point of its program: the lock of its order, the
    knowledge that nothing is owed to the user, what it has taken. \<open>typed\<close> checks a program against
    these rights for every reply; the system's invariant gives each right its meaning.
  \<^item> Finalising a pending refund by query is not part of these runs: it acts without the lock.
\<close>

section \<open>What is owed\<close>

text \<open>What was taken for an order and not given back, and how often the gateway accepted its refund.\<close>

primrec owedOf :: "int \<Rightarrow> refundEvent list \<Rightarrow> taken list" where
  "owedOf oid [] = []"
| "owedOf oid (e # es) =
    (case e of
       Took i x \<Rightarrow> if i = oid then x # owedOf oid es else owedOf oid es
     | Gave i x \<Rightarrow> if i = oid then remove1 x (owedOf oid es) else owedOf oid es
     | GatewayPaid i \<Rightarrow> owedOf oid es)"

definition paidOf :: "int \<Rightarrow> refundEvent list \<Rightarrow> nat" where
  "paidOf oid es = length (filter (\<lambda>e. e = GatewayPaid oid) es)"

definition closedStatus :: "string \<Rightarrow> bool" where
  "closedStatus s \<longleftrightarrow> s \<in> {OrderStatusRefunding, OrderStatusRefunded, OrderStatusPartiallyRefunded}"

section \<open>Rights\<close>

datatype refundHold = Idle | Locked | Clean | Holding taken | Owing taken | Paid | Gone

definition active :: "refundHold \<Rightarrow> bool" where "active h \<longleftrightarrow> h \<noteq> Idle \<and> h \<noteq> Gone"

fun permitted :: "int \<Rightarrow> refundHold \<Rightarrow> refundStmt \<Rightarrow> bool" where
  "permitted oid h (RequestStmt i uid reason who n) = (i = oid \<and> h = Idle)"
| "permitted oid h (LockStmt i) = (i = oid \<and> h = Idle)"
| "permitted oid h (SetStatusStmt i s) =
     (i = oid \<and> (h = Locked \<or> h = Clean) \<and> (s = OrderStatusCompleted \<or> s = OrderStatusRefundRequested))"
| "permitted oid h (FailStmt i e) = (i = oid \<and> (h = Locked \<or> h = Clean))"
| "permitted oid h (MarkPendingStmt i n reason force) = (i = oid \<and> (h = Locked \<or> h = Clean))"
| "permitted oid h (MarkOkStmt i s n reason force) =
     (i = oid \<and> active h \<and> (\<forall>x. h \<noteq> Owing x) \<and> (s = OrderStatusRefunded \<or> s = OrderStatusPartiallyRefunded))"
| "permitted oid h (FinalizeStmt p) = False"
| "permitted oid h (DeductStmt i uid n) = (i = oid \<and> h = Clean \<and> 0 < n)"
| "permitted oid h (UpdateBalanceStmt i uid n) = (i = oid \<and> h = Holding (TakenBalance uid n))"
| "permitted oid h (ExtendStmt i sid days) =
     (i = oid \<and> (if days < 0 then h = Clean else h = Holding (TakenDays sid days)))"
| "permitted oid h (RevokeStmt i sid days) = (i = oid \<and> h = Clean)"
| "permitted oid h (GatewayRefund i amount) = (i = oid \<and> (h = Locked \<or> h = Clean \<or> (\<exists>x. h = Holding x)))"
| "permitted oid h _ = True"

fun nextHold :: "int \<Rightarrow> refundHold \<Rightarrow> refundStmt \<Rightarrow> refundReply \<Rightarrow> refundHold" where
  "nextHold oid h (LockStmt i) r = (case r of RfCount c \<Rightarrow> if c = 0 then Gone else Locked | _ \<Rightarrow> Gone)"
| "nextHold oid h (SetStatusStmt i s) r = Gone"
| "nextHold oid h (FailStmt i e) r = Gone"
| "nextHold oid h (MarkPendingStmt i n reason force) r = Gone"
| "nextHold oid h (MarkOkStmt i s n reason force) r = Gone"
| "nextHold oid h (DeductStmt i uid n) r = (case r of RfTaken m \<Rightarrow> if 0 < m then Holding (TakenBalance uid m) else Clean | _ \<Rightarrow> Clean)"
| "nextHold oid h (UpdateBalanceStmt i uid n) r = (case r of RfErr e \<Rightarrow> Owing (TakenBalance uid n) | _ \<Rightarrow> Clean)"
| "nextHold oid h (ExtendStmt i sid days) r =
     (if days < 0 then (case r of RfErr e \<Rightarrow> Clean | _ \<Rightarrow> Holding (TakenDays sid (- days)))
      else (case r of RfErr e \<Rightarrow> Owing (TakenDays sid days) | _ \<Rightarrow> Clean))"
| "nextHold oid h (RevokeStmt i sid days) r = (case r of RfErr e \<Rightarrow> Clean | _ \<Rightarrow> Holding (TakenDays sid days))"
| "nextHold oid h (GatewayRefund i amount) r =
     (case r of RfAnswer resp err \<Rightarrow> if refundAccepted (resp, err) then Paid else h | _ \<Rightarrow> h)"
| "nextHold oid h (RfHasAudit i act) r =
     (if h = Locked \<and> i = oid \<and> act = ''REFUND_ROLLBACK_FAILED'' \<and> r = RfCount 0 then Clean else h)"
| "nextHold oid h (RfWriteAudit i act detail) r =
     (case h of Owing x \<Rightarrow> if i = oid \<and> act = ''REFUND_ROLLBACK_FAILED'' then Locked else h | _ \<Rightarrow> h)"
| "nextHold oid h _ r = h"

text \<open>The statements on the audit log do not fail.\<close>

fun auditStmt :: "refundStmt \<Rightarrow> bool" where
  "auditStmt (RfHasAudit oid act) = True"
| "auditStmt (RfWriteAudit oid act detail) = True"
| "auditStmt _ = False"

fun genuine :: "refundStmt \<Rightarrow> refundReply \<Rightarrow> bool" where
  "genuine (RfHasAudit oid act) r = (\<exists>c. r = RfCount c)"
| "genuine _ r = True"

primrec typed :: "int \<Rightarrow> refundProg \<Rightarrow> refundHold \<Rightarrow> bool" where
  "typed oid (RfRet x) h = True"
| "typed oid (RfDo st k) h = (permitted oid h st \<and> (\<forall>r. genuine st r \<longrightarrow> typed oid (k r) (nextHold oid h st r)))"

lemma typed_audit:
  "typed oid k (nextHold oid h (RfWriteAudit i act detail) RfOK) \<Longrightarrow> typed oid (writeRefundAudit i act detail k) h"
  by (simp add: writeRefundAudit_def)

lemma typed_has_audit:
  "\<lbrakk>typed oid (k True) h; typed oid (k False) (nextHold oid h (RfHasAudit i act) (RfCount 0))\<rbrakk>
    \<Longrightarrow> typed oid (hasAuditLog i act k) h"
  by (auto simp: hasAuditLog_def) (metis gr0I)+

lemma typed_restore:
  "rp_OrderID p = oid \<Longrightarrow> h = Locked \<or> h = Clean \<Longrightarrow> typed oid k Gone \<Longrightarrow> typed oid (restoreStatus p k) h"
  by (auto simp: restoreStatus_def)

text \<open>What a plan would give back is what its flow holds.\<close>

definition planHold :: "refundPlan \<Rightarrow> refundHold \<Rightarrow> bool" where
  "planHold p h \<longleftrightarrow>
    (if rp_DeductionType p = DeductionTypeBalance \<and> 0 < rp_BalanceToDeduct p
     then h = Holding (TakenBalance (po_UserID (rp_Order p)) (rp_BalanceToDeduct p))
     else if rp_DeductionType p = DeductionTypeSubscription \<and> 0 < rp_SubDaysToDeduct p \<and> 0 < rp_SubscriptionID p
     then h = Holding (TakenDays (rp_SubscriptionID p) (rp_SubDaysToDeduct p))
     else h = Locked \<or> h = Clean)"

lemma typed_rollback:
  assumes p: "rp_OrderID p = oid" and h: "planHold p h"
    and k: "typed oid (k True) Locked" "typed oid (k True) Clean" "typed oid (k False) Locked"
  shows "typed oid (RollbackRefund p k) h"
proof -
  have failed: "typed oid (writeRefundAudit oid ''REFUND_ROLLBACK_FAILED'' None (k False)) (Owing x)" for x
    by (rule typed_audit) (simp add: k)
  show ?thesis
    using h k failed
    by (auto simp: RollbackRefund_def planHold_def p Let_def DeductionTypeBalance_def DeductionTypeSubscription_def
        split: refundReply.splits if_splits)
qed

lemma typed_fail:
  assumes p: "rp_OrderID p = oid" and h: "planHold p h"
  shows "typed oid (handleGwFail p e) h"
  unfolding handleGwFail_def
  by (rule typed_rollback [OF p h]) (auto intro!: typed_restore typed_audit simp: p)

lemma typed_mark_ok:
  assumes p: "rp_OrderID p = oid" and h: "active h" "\<forall>x. h \<noteq> Owing x"
  shows "typed oid (markRefundOk p) h"
  using h by (auto simp: markRefundOk_def p refundedStatus_def split: refundReply.splits intro!: typed_audit)

lemma typed_pending:
  assumes p: "rp_OrderID p = oid" and h: "planHold p h"
  shows "typed oid (markRefundPending p resp) h"
  unfolding markRefundPending_def
  by (rule typed_rollback [OF p h]) (auto simp: p split: refundReply.splits intro!: typed_audit)

lemma planHold_active: "planHold p h \<Longrightarrow> active h \<and> (\<forall>x. h \<noteq> Owing x)"
  by (auto simp: planHold_def active_def split: if_splits)

lemma planHold_locked: "planHold p h \<Longrightarrow> h = Locked \<or> h = Clean \<or> (\<exists>x. h = Holding x)"
  by (auto simp: planHold_def split: if_splits)

lemma typed_finish:
  assumes p: "rp_OrderID p = oid" and h: "planHold p h"
  shows "typed oid (finishRefund p resp) h"
  using typed_fail [OF p h] typed_pending [OF p h] typed_mark_ok [OF p] planHold_active [OF h]
  by (auto simp: finishRefund_def split: option.splits)

lemma typed_gateway:
  assumes p: "rp_OrderID p = oid" and h: "planHold p h"
  shows "typed oid (gwRefund E p (handleGwFail p) (finishRefund p)) h"
proof -
  have audit: "nextHold oid h (RfWriteAudit i act detail) r = h" for i act detail r
    using planHold_active [OF h] by (auto split: refundHold.splits)
  have answered: "typed oid (case validateRefundProviderResponse resp of Some e \<Rightarrow> handleGwFail p e | None \<Rightarrow> finishRefund p resp)
      (if refundAccepted (resp, None) then Paid else h)" for resp
  proof (cases "refundAccepted (resp, None)")
    case True
    then obtain r where "resp = Some r" "trim_space (rr_Status r) \<in> set [ProviderStatusSuccess, ProviderStatusRefunded]"
      by (auto simp: refundAccepted_def split: option.splits)
    with True typed_mark_ok [OF p, of Paid] show ?thesis
      by (auto simp: finishRefund_def validateRefundProviderResponse_def Let_def active_def)
  next
    case False
    with typed_fail [OF p h] typed_finish [OF p h] show ?thesis by (auto split: option.splits)
  qed
  have failed: "\<not> refundAccepted (resp, Some e)" for resp e by (simp add: refundAccepted_def split: option.splits)
  have "typed oid (case reply of
         RfAnswer resp (Some e) \<Rightarrow>
           (case resp of Some q \<Rightarrow> if trim_space (rr_Status q) = ProviderStatusPending then finishRefund p resp else handleGwFail p e
            | None \<Rightarrow> handleGwFail p e)
       | RfAnswer resp None \<Rightarrow>
           (case validateRefundProviderResponse resp of Some e \<Rightarrow> handleGwFail p e | None \<Rightarrow> finishRefund p resp)
       | _ \<Rightarrow> handleGwFail p ''gateway'')
     (nextHold oid h (GatewayRefund oid amount) reply)" for reply amount
  proof (cases reply)
    case (RfAnswer resp err)
    show ?thesis
    proof (cases err)
      case None
      with RfAnswer answered [of resp] show ?thesis by simp
    next
      case (Some e)
      with RfAnswer failed [of resp] typed_fail [OF p h] typed_finish [OF p h] show ?thesis by (cases resp) simp_all
    qed
  qed (simp_all add: typed_fail [OF p h])
  then have call: "typed oid (RfDo (GatewayRefund oid amount) (\<lambda>reply. case reply of
         RfAnswer resp (Some e) \<Rightarrow>
           (case resp of Some q \<Rightarrow> if trim_space (rr_Status q) = ProviderStatusPending then finishRefund p resp else handleGwFail p e
            | None \<Rightarrow> handleGwFail p e)
       | RfAnswer resp None \<Rightarrow>
           (case validateRefundProviderResponse resp of Some e \<Rightarrow> handleGwFail p e | None \<Rightarrow> finishRefund p resp)
       | _ \<Rightarrow> handleGwFail p ''gateway'')) h" for amount
    using planHold_locked [OF h] by (simp del: nextHold.simps)
  show ?thesis
    unfolding gwRefund_def p
    using call typed_fail [OF p h] typed_finish [OF p h]
    by (auto intro!: typed_audit simp: audit simp del: nextHold.simps typed.simps
        split: sum.splits option.splits)
qed

lemma typed_execute:
  assumes p: "rp_OrderID p = oid"
  shows "typed oid (ExecuteRefund E p) Idle"
proof -
  let ?k = "\<lambda>p2. gwRefund E p2 (handleGwFail p2) (finishRefund p2)"
  have after_balance: "typed oid (deductTerm q ?k) h"
    if "rp_OrderID q = oid" "rp_DeductionType q = DeductionTypeBalance" "planHold q h" for q h
    using that by (simp add: deductTerm_def typed_gateway DeductionTypeBalance_def DeductionTypeSubscription_def)
  have no_balance: "typed oid (deductTerm p ?k) Locked"
    if "\<not> (rp_DeductionType p = DeductionTypeBalance \<and> 0 < rp_BalanceToDeduct p)"
  proof (cases "rp_DeductionType p = DeductionTypeSubscription \<and> 0 < rp_SubDaysToDeduct p \<and> 0 < rp_SubscriptionID p")
    case True
    let ?skip = "p\<lparr>rp_SubDaysToDeduct := 0\<rparr>"
    have "planHold ?skip Locked" "planHold p (Holding (TakenDays (rp_SubscriptionID p) (rp_SubDaysToDeduct p)))"
      using that True by (simp_all add: planHold_def DeductionTypeBalance_def DeductionTypeSubscription_def)
    with p have go: "typed oid (?k ?skip) Locked"
      "typed oid (?k p) (Holding (TakenDays (rp_SubscriptionID p) (rp_SubDaysToDeduct p)))"
      by (simp_all add: typed_gateway)
    have abort: "typed oid (restoreStatus p (RfRet x)) Clean" for x by (rule typed_restore [OF p]) simp_all
    show ?thesis
      unfolding deductTerm_def using p True go abort
      by (auto intro!: typed_has_audit split: refundReply.splits)
  next
    case False
    with that have "planHold p Locked" by (simp add: planHold_def)
    moreover have "deductTerm p ?k = ?k p" unfolding deductTerm_def using False by (simp only: if_False)
    ultimately show ?thesis using p by (simp add: typed_gateway)
  qed
  have "typed oid (deductBalance p (\<lambda>p1. deductTerm p1 ?k)) Locked"
  proof (cases "rp_DeductionType p = DeductionTypeBalance \<and> 0 < rp_BalanceToDeduct p")
    case True
    let ?with = "\<lambda>n. p\<lparr>rp_BalanceToDeduct := n\<rparr>"
    have skip: "typed oid (deductTerm (?with 0) ?k) Locked"
      by (rule after_balance) (use True p in \<open>simp_all add: planHold_def DeductionTypeBalance_def DeductionTypeSubscription_def\<close>)
    have took: "typed oid (deductTerm (?with n) ?k)
        (if 0 < n then Holding (TakenBalance (po_UserID (rp_Order p)) n) else Clean)" for n
      by (rule after_balance) (use True p in \<open>simp_all add: planHold_def DeductionTypeBalance_def DeductionTypeSubscription_def\<close>)
    have abort: "typed oid (restoreStatus p (RfRet x)) Clean" for x by (rule typed_restore [OF p]) simp_all
    have "typed oid (case r of RfTaken n \<Rightarrow> deductTerm (?with n) ?k | _ \<Rightarrow> restoreStatus p (RfRet (Inl ''deduction'')))
        (nextHold oid Clean (DeductStmt oid (po_UserID (rp_Order p)) (rp_BalanceToDeduct p)) r)" for r
    proof (cases r)
      case (RfTaken n)
      then show ?thesis using took [of n] by simp
    qed (simp_all add: abort)
    then have "typed oid (RfDo (DeductStmt oid (po_UserID (rp_Order p)) (rp_BalanceToDeduct p))
        (\<lambda>r. case r of RfTaken n \<Rightarrow> deductTerm (?with n) ?k | _ \<Rightarrow> restoreStatus p (RfRet (Inl ''deduction'')))) Clean"
      using True by (simp del: nextHold.simps)
    with skip True p show ?thesis by (auto simp: deductBalance_def intro!: typed_has_audit)
  next
    case False
    then have "deductBalance p (\<lambda>p1. deductTerm p1 ?k) = deductTerm p ?k"
      unfolding deductBalance_def by (simp only: if_False)
    with no_balance [OF False] show ?thesis by simp
  qed
  then show ?thesis by (auto simp: ExecuteRefund_def p split: refundReply.splits)
qed

lemma typed_prepare:
  assumes "\<And>p. rp_OrderID p = oid \<Longrightarrow> typed oid (k p) Idle"
  shows "typed oid (PrepareRefund E oid amt reason force deduct k) Idle"
  by (auto simp: PrepareRefund_def prepDeduct_def Let_def intro!: assms
      split: refundReply.splits sum.splits option.splits providerAmount.splits)

lemma typed_process: "typed oid (ProcessRefund E oid amt reason force deduct) Idle"
  unfolding ProcessRefund_def by (rule typed_prepare) (rule typed_execute)

lemma typed_request: "typed oid (RequestRefund E oid uid reason) Idle"
  by (auto simp: RequestRefund_def validateRefundRequest_def intro!: typed_audit
      split: refundReply.splits sum.splits option.splits)

section \<open>What a right means\<close>

definition refunding :: "refundDB \<Rightarrow> int \<Rightarrow> bool" where
  "refunding d oid \<longleftrightarrow> (\<exists>o1. rf_orders d oid = Some o1 \<and> po_Status o1 = OrderStatusRefunding)"

definition owedIsAudited :: "refundDB \<Rightarrow> int \<Rightarrow> bool" where
  "owedIsAudited d oid \<longleftrightarrow> owedOf oid (rf_log d) = []
     \<or> (length (owedOf oid (rf_log d)) = 1 \<and> audited oid ''REFUND_ROLLBACK_FAILED'' d)"

text \<open>With no active flow on the order.\<close>

definition restOK :: "refundDB \<Rightarrow> int \<Rightarrow> bool" where
  "restOK d oid \<longleftrightarrow> length (owedOf oid (rf_log d)) \<le> 1 \<and> paidOf oid (rf_log d) \<le> 1
     \<and> (\<forall>o1. rf_orders d oid = Some o1 \<longrightarrow> \<not> closedStatus (po_Status o1) \<longrightarrow>
          owedIsAudited d oid \<and> paidOf oid (rf_log d) = 0)
     \<and> (rf_orders d oid = None \<longrightarrow> owedOf oid (rf_log d) = [] \<and> paidOf oid (rf_log d) = 0)"

fun heldOK :: "refundDB \<Rightarrow> int \<Rightarrow> refundHold \<Rightarrow> bool" where
  "heldOK d oid Locked = (refunding d oid \<and> owedIsAudited d oid \<and> paidOf oid (rf_log d) = 0)"
| "heldOK d oid Clean = (refunding d oid \<and> owedOf oid (rf_log d) = [] \<and> paidOf oid (rf_log d) = 0)"
| "heldOK d oid (Holding x) = (refunding d oid \<and> owedOf oid (rf_log d) = [x] \<and> paidOf oid (rf_log d) = 0)"
| "heldOK d oid (Owing x) = (refunding d oid \<and> owedOf oid (rf_log d) = [x] \<and> paidOf oid (rf_log d) = 0)"
| "heldOK d oid Paid = (refunding d oid \<and> length (owedOf oid (rf_log d)) \<le> 1 \<and> paidOf oid (rf_log d) = 1)"
| "heldOK d oid _ = restOK d oid"

text \<open>What a statement of another order's flow leaves alone.\<close>

definition sameOrder :: "int \<Rightarrow> refundDB \<Rightarrow> refundDB \<Rightarrow> bool" where
  "sameOrder i d d1 \<longleftrightarrow> map_option po_Status (rf_orders d1 i) = map_option po_Status (rf_orders d i)
     \<and> owedOf i (rf_log d1) = owedOf i (rf_log d) \<and> paidOf i (rf_log d1) = paidOf i (rf_log d)
     \<and> (\<forall>act. audited i act d \<longrightarrow> audited i act d1)"

lemma sameOrder_refl: "sameOrder i d d"
  by (simp add: sameOrder_def)

lemma sameOrder_held: "sameOrder i d d1 \<Longrightarrow> heldOK d i h \<Longrightarrow> heldOK d1 i h"
  by (cases h) (auto simp: sameOrder_def refunding_def owedIsAudited_def restOK_def map_option_eq_Some)

lemma active_length: "active h \<Longrightarrow> heldOK d oid h \<Longrightarrow>
    refunding d oid \<and> length (owedOf oid (rf_log d)) \<le> 1 \<and> paidOf oid (rf_log d) \<le> 1"
  by (cases h) (auto simp: active_def owedIsAudited_def)

lemma refunding_rest:
  "refunding d oid \<Longrightarrow> length (owedOf oid (rf_log d)) \<le> 1 \<Longrightarrow> paidOf oid (rf_log d) \<le> 1 \<Longrightarrow> restOK d oid"
  by (auto simp: restOK_def refunding_def closedStatus_def)

lemma active_rest: "active h \<Longrightarrow> heldOK d oid h \<Longrightarrow> restOK d oid"
  using active_length refunding_rest by blast

lemma update_one_tables:
  "updateOneOrder oid upd d = (r, d1) \<Longrightarrow> rf_log d1 = rf_log d \<and> rf_audit d1 = rf_audit d
    \<and> (\<forall>i. i \<noteq> oid \<longrightarrow> rf_orders d1 i = rf_orders d i)
    \<and> rf_orders d1 oid = map_option (\<lambda>o1. (upd o1)\<lparr>po_UpdatedAt := rf_now d\<rparr>) (rf_orders d oid)"
  by (auto simp: updateOneOrder_def updateRefundOrder_def split: option.splits)

lemma update_tables:
  "updateRefundOrder oid P upd d = (r, d1) \<Longrightarrow> rf_log d1 = rf_log d \<and> rf_audit d1 = rf_audit d
    \<and> (\<forall>i. i \<noteq> oid \<longrightarrow> rf_orders d1 i = rf_orders d i)
    \<and> ((\<exists>o1. rf_orders d oid = Some o1 \<and> P o1 \<and> r = RfCount 1
          \<and> rf_orders d1 oid = Some ((upd o1)\<lparr>po_UpdatedAt := rf_now d\<rparr>))
       \<or> ((\<forall>o1. rf_orders d oid = Some o1 \<longrightarrow> \<not> P o1) \<and> r = RfCount 0 \<and> d1 = d))"
  by (auto simp: updateRefundOrder_def split: option.splits if_splits)

lemma rest_settled:
  "owedIsAudited d oid \<Longrightarrow> paidOf oid (rf_log d) = 0 \<Longrightarrow> rf_orders d oid \<noteq> None \<Longrightarrow> restOK d oid"
  by (auto simp: restOK_def owedIsAudited_def)

lemma owed_cong:
  "rf_log d1 = rf_log d \<Longrightarrow> rf_audit d1 = rf_audit d \<Longrightarrow> owedIsAudited d1 oid = owedIsAudited d oid"
  by (simp add: owedIsAudited_def audited_def)

lemma same_others:
  "rf_log d1 = rf_log d \<Longrightarrow> rf_audit d1 = rf_audit d \<Longrightarrow> \<forall>i. i \<noteq> oid \<longrightarrow> rf_orders d1 i = rf_orders d i \<Longrightarrow>
    \<forall>i. i \<noteq> oid \<longrightarrow> sameOrder i d d1"
  by (simp add: sameOrder_def audited_def)

text \<open>Releasing the lock.\<close>

lemma released:
  assumes upd: "updateOneOrder oid upd d = (r, d1)" and h: "h = Locked \<or> h = Clean" and ok: "heldOK d oid h"
  shows "restOK d1 oid \<and> (\<forall>i. i \<noteq> oid \<longrightarrow> sameOrder i d d1)"
proof -
  note t = update_one_tables [OF upd]
  from h ok have "owedIsAudited d oid" "paidOf oid (rf_log d) = 0" "rf_orders d oid \<noteq> None"
    by (auto simp: owedIsAudited_def refunding_def)
  with t have "restOK d1 oid" by (intro rest_settled) (auto simp: owed_cong [of d1 d oid])
  with t show ?thesis using same_others by blast
qed

lemma marked_ok:
  assumes upd: "markOk oid s n reason force d = (r, d1)" and s: "s = OrderStatusRefunded \<or> s = OrderStatusPartiallyRefunded"
    and h: "active h" and ok: "heldOK d oid h"
  shows "restOK d1 oid \<and> (\<forall>i. i \<noteq> oid \<longrightarrow> sameOrder i d d1)"
proof -
  note t = update_one_tables [OF upd [unfolded markOk_def]]
  have "restOK d1 oid"
    using active_length [OF h ok] t s by (auto simp: restOK_def refunding_def closedStatus_def)
  with t show ?thesis using same_others by blast
qed

lemma lock_held:
  assumes upd: "updateRefundOrder oid refundable (\<lambda>o1. o1\<lparr>po_Status := OrderStatusRefunding\<rparr>) d = (r, d1)"
    and ok: "restOK d oid"
  shows "heldOK d1 oid (nextHold oid Idle (LockStmt oid) r) \<and> (\<forall>i. i \<noteq> oid \<longrightarrow> sameOrder i d d1)"
proof -
  note t = update_tables [OF upd]
  consider (hit) o1 where "rf_orders d oid = Some o1" "refundable o1" "r = RfCount 1"
      "rf_orders d1 oid = Some (o1\<lparr>po_Status := OrderStatusRefunding, po_UpdatedAt := rf_now d\<rparr>)"
    | (miss) "r = RfCount 0" "d1 = d" using t by blast
  then show ?thesis
  proof cases
    case hit
    have "\<not> closedStatus (po_Status o1)" using hit(2) by (auto simp: refundable_def closedStatus_def refundStrings)
    with ok hit(1) have "owedIsAudited d oid" "paidOf oid (rf_log d) = 0" by (auto simp: restOK_def)
    with t hit have "heldOK d1 oid Locked" by (simp add: refunding_def owed_cong [of d1 d oid])
    with hit(3) t show ?thesis using same_others [of d1 d oid] by simp
  next
    case miss
    with ok show ?thesis by (simp add: sameOrder_refl)
  qed
qed

lemma request_rest:
  assumes upd: "updateRefundOrder oid (\<lambda>o1. po_UserID o1 = uid \<and> po_Status o1 = OrderStatusCompleted \<and> po_OrderType o1 = t)
      (\<lambda>o1. o1\<lparr>po_Status := OrderStatusRefundRequested, po_RefundRequestedAt := x, po_RefundRequestReason := y,
               po_RefundRequestedBy := w, po_RefundAmount := n\<rparr>) d = (r, d1)"
    and ok: "restOK d oid"
  shows "restOK d1 oid \<and> (\<forall>i. i \<noteq> oid \<longrightarrow> sameOrder i d d1)"
proof -
  note t = update_tables [OF upd]
  consider (hit) o1 where "rf_orders d oid = Some o1" "po_Status o1 = OrderStatusCompleted" "rf_orders d1 oid \<noteq> None"
    | (miss) "d1 = d" using t by blast
  then show ?thesis
  proof cases
    case hit
    have "\<not> closedStatus (po_Status o1)" using hit(2) by (auto simp: closedStatus_def refundStrings)
    with ok hit(1) have "owedIsAudited d oid" "paidOf oid (rf_log d) = 0" by (auto simp: restOK_def)
    with t hit(3) have "restOK d1 oid" by (intro rest_settled) (auto simp: owed_cong [of d1 d oid])
    with t show ?thesis using same_others by blast
  next
    case miss
    with ok show ?thesis by (simp add: sameOrder_refl)
  qed
qed

lemma audit_held:
  assumes "createAudit i act detail d = (r, d1)" and ok: "heldOK d oid h"
  shows "heldOK d1 oid (nextHold oid h (RfWriteAudit i act detail) r) \<and> (\<forall>j. sameOrder j d d1)"
proof -
  have d1: "d1 = snd (createAudit i act detail d)" using assms(1) by simp
  have log: "rf_log d1 = rf_log d" by (simp add: d1 createAudit_def)
  have same: "sameOrder j d d1" for j by (simp add: sameOrder_def log) (simp add: d1 audited_create)
  have "heldOK d1 oid Locked" if "h = Owing x" "i = oid" "act = ''REFUND_ROLLBACK_FAILED''" for x
    using ok that by (simp add: refunding_def owedIsAudited_def log) (simp add: d1 audited_create)
  moreover have "heldOK d1 oid h" using sameOrder_held [OF same ok] .
  ultimately show ?thesis using same by (cases h) simp_all
qed

text \<open>Statements that only add an event of the order.\<close>

fun eventOrder :: "refundEvent \<Rightarrow> int" where
  "eventOrder (Took i x) = i" | "eventOrder (Gave i x) = i" | "eventOrder (GatewayPaid i) = i"

definition adds :: "int \<Rightarrow> refundEvent list \<Rightarrow> refundDB \<Rightarrow> refundDB \<Rightarrow> bool" where
  "adds oid es d d1 \<longleftrightarrow> rf_orders d1 = rf_orders d \<and> rf_audit d1 = rf_audit d \<and> rf_log d1 = es @ rf_log d
     \<and> (\<forall>e\<in>set es. eventOrder e = oid)"

lemma adds_others: "adds oid es d d1 \<Longrightarrow> length es \<le> 1 \<Longrightarrow> \<forall>i. i \<noteq> oid \<longrightarrow> sameOrder i d d1"
  by (cases es) (auto simp: adds_def sameOrder_def audited_def paidOf_def split: refundEvent.splits)

lemma adds_refunding: "adds oid es d d1 \<Longrightarrow> refunding d1 i = refunding d i"
  by (simp add: adds_def refunding_def)

lemma take_adds:
  "takeBalance oid uid n d = (r, d1) \<Longrightarrow>
    (\<exists>m. r = RfTaken m \<and> adds oid (if 0 < m then [Took oid (TakenBalance uid m)] else []) d d1)
    \<or> (\<exists>e. r = RfErr e \<and> adds oid [] d d1)"
proof (cases "n < 0 \<or> (\<forall>u. rf_users d uid = Some u \<longrightarrow> ru_Deleted u)")
  case True
  then show "takeBalance oid uid n d = (r, d1) \<Longrightarrow> ?thesis"
    by (cases "rf_users d uid") (auto simp: takeBalance_def DeductAvailableBalance_def adds_def split: if_splits)
next
  case False
  then obtain u where u: "rf_users d uid = Some u" "\<not> ru_Deleted u" "0 \<le> n" by auto
  let ?m = "min n (max (ru_Balance u) 0)"
  assume "takeBalance oid uid n d = (r, d1)"
  then have "r = RfTaken ?m" "d1 = logged (0 < ?m) (Took oid (TakenBalance uid ?m))
      (d\<lparr>rf_users := (rf_users d)(uid \<mapsto> u\<lparr>ru_Balance := ru_Balance u - ?m\<rparr>)\<rparr>)"
    unfolding take_balance [OF u] by (simp_all add: Let_def)
  then have "r = RfTaken ?m \<and> adds oid (if 0 < ?m then [Took oid (TakenBalance uid ?m)] else []) d d1"
    by (simp add: adds_def logged_def)
  then show ?thesis by blast
qed

lemma give_adds:
  "giveBalance oid uid n d = (r, d1) \<Longrightarrow>
    (r = RfOK \<and> adds oid [Gave oid (TakenBalance uid n)] d d1) \<or> (\<exists>e. r = RfErr e \<and> adds oid [] d d1)"
  by (auto simp: giveBalance_def UpdateBalance_def adds_def logged_def split: option.splits if_splits prod.splits)

lemma move_adds:
  "moveTerm z oid sid days d = (r, d1) \<Longrightarrow>
    (\<exists>s. r = RfSub s \<and> adds oid [if days < 0 then Took oid (TakenDays sid (- days)) else Gave oid (TakenDays sid days)] d d1)
    \<or> (\<exists>e. r = RfErr e \<and> adds oid [] d d1)"
  by (auto simp: moveTerm_def adds_def logged_def split: prod.splits sum.splits)

lemma revoke_adds:
  "revokeTerm oid sid days d = (r, d1) \<Longrightarrow>
    (r = RfOK \<and> adds oid [Took oid (TakenDays sid days)] d d1) \<or> (\<exists>e. r = RfErr e \<and> adds oid [] d d1)"
  by (auto simp: revokeTerm_def adds_def logged_def split: sum.splits)

lemma held_adds:
  "adds oid [] d d1 \<Longrightarrow> heldOK d oid h \<Longrightarrow> heldOK d1 oid h"
  "adds oid [Took oid x] d d1 \<Longrightarrow> heldOK d oid Clean \<Longrightarrow> heldOK d1 oid (Holding x)"
  "adds oid [Gave oid x] d d1 \<Longrightarrow> heldOK d oid (Holding x) \<Longrightarrow> heldOK d1 oid Clean"
  "adds oid [GatewayPaid oid] d d1 \<Longrightarrow> heldOK d oid h \<Longrightarrow> h = Locked \<or> h = Clean \<or> h = Holding x \<Longrightarrow> heldOK d1 oid Paid"
proof -
  show "adds oid [] d d1 \<Longrightarrow> heldOK d oid h \<Longrightarrow> heldOK d1 oid h"
    by (rule sameOrder_held [of oid d d1]) (simp_all add: adds_def sameOrder_def audited_def)
qed (auto simp: refunding_def adds_def paidOf_def owedIsAudited_def)

lemma held_owing: "adds oid [] d d1 \<Longrightarrow> heldOK d oid (Holding x) \<Longrightarrow> heldOK d1 oid (Owing x)"
  using held_adds(1) [of oid d d1 "Holding x"] by simp

text \<open>Every statement keeps the meaning of the right it is issued under, and leaves other orders alone.\<close>

lemma exec_held:
  assumes p: "permitted oid h st" and ok: "heldOK d oid h" and run: "execRefund E a st d = (r, d1)"
  shows "heldOK d1 oid (nextHold oid h st r) \<and> (\<forall>i. i \<noteq> oid \<longrightarrow> sameOrder i d d1)"
proof (cases st)
  case (RequestStmt i uid reason who n)
  with assms request_rest [of oid uid OrderTypeBalance n "Some who" "Some reason" "Some (rf_now d)" d r d1]
  show ?thesis by simp
next
  case (LockStmt i)
  with assms lock_held [of oid d r d1] show ?thesis by simp
next
  case (SetStatusStmt i s)
  with assms released [of oid _ d r d1 h] show ?thesis by simp
next
  case (FailStmt i e)
  with assms released [of oid _ d r d1 h] show ?thesis by simp
next
  case (MarkPendingStmt i n reason force)
  with assms released [of oid _ d r d1 h] show ?thesis by simp
next
  case (MarkOkStmt i s n reason force)
  with assms marked_ok [of oid s n reason force d r d1 h] show ?thesis by simp
next
  case (DeductStmt i uid n)
  with p ok run take_adds [of oid uid n d r d1] adds_others [of oid _ d d1] show ?thesis
    by (auto simp del: heldOK.simps intro: held_adds(1,2) split: if_splits)
next
  case (UpdateBalanceStmt i uid n)
  with p ok run give_adds [of oid uid n d r d1] adds_others [of oid _ d d1] show ?thesis
    by (auto simp del: heldOK.simps intro: held_adds(3) held_owing held_adds(1))
next
  case (ExtendStmt i sid days)
  with p ok run move_adds [of "re_Zone E" oid sid days d r d1] adds_others [of oid _ d d1] show ?thesis
    by (auto simp del: heldOK.simps intro: held_adds(1,2,3) held_owing split: if_splits)
next
  case (RevokeStmt i sid days)
  with p ok run revoke_adds [of oid sid days d r d1] adds_others [of oid _ d d1] show ?thesis
    by (auto simp del: heldOK.simps intro: held_adds(1,2))
next
  case (RfHasAudit i act)
  with p ok run show ?thesis
    by (auto simp: sameOrder_refl owedIsAudited_def)
next
  case (RfWriteAudit i act detail)
  with run audit_held [of i act detail d r d1 oid h] ok show ?thesis by auto
next
  case (GatewayRefund i amount)
  have "adds oid (if refundAccepted a then [GatewayPaid oid] else []) d d1" "r = RfAnswer (fst a) (snd a)"
    using run GatewayRefund p by (auto simp: adds_def logged_def)
  with p ok GatewayRefund adds_others [of oid _ d d1] show ?thesis
    by (auto simp del: heldOK.simps intro: held_adds(1,4) split: if_splits)
qed (use assms in \<open>simp_all add: sameOrder_refl\<close>)

text \<open>A statement that fails has no effect.\<close>

lemma fault_held:
  assumes p: "permitted oid h st" and ok: "heldOK d oid h" and st: "\<not> auditStmt st"
  shows "heldOK d oid (nextHold oid h st (RfErr e))"
  using assms active_rest [of h d oid] by (cases st) (auto simp: active_def)

lemma inactive_held: "\<not> active h \<Longrightarrow> heldOK d oid h = restOK d oid"
  by (cases h) (simp_all add: active_def)

lemma exec_genuine: "execRefund E a st d = (r, d1) \<Longrightarrow> genuine st r"
  by (cases st) auto

text \<open>While an order is being refunded, a flow without its lock does not get it and changes nothing of it.\<close>

lemma exec_idle:
  assumes h: "\<not> active h" and p: "permitted oid h st" and run: "execRefund E a st d = (r, d1)" and busy: "refunding d oid"
  shows "\<not> active (nextHold oid h st r) \<and> sameOrder oid d d1"
proof -
  obtain o1 where o1: "rf_orders d oid = Some o1" "po_Status o1 = OrderStatusRefunding" using busy by (auto simp: refunding_def)
  then have no: "\<not> refundable o1" "po_Status o1 \<noteq> OrderStatusCompleted" by (auto simp: refundable_def refundStrings)
  have "rf_log (snd (createAudit i act detail d)) = rf_log d" for i act detail by (simp add: createAudit_def)
  then have audit: "sameOrder oid d (snd (createAudit i act detail d))" for i act detail
    by (simp add: sameOrder_def audited_create)
  show ?thesis
  proof (cases st)
    case (RequestStmt i uid reason who n)
    with p run o1(1) no(2) h show ?thesis by (auto simp: updateRefundOrder_def sameOrder_refl split: if_splits)
  next
    case (LockStmt i)
    with p run o1(1) no(1) h show ?thesis by (auto simp: updateRefundOrder_def sameOrder_refl active_def split: if_splits)
  next
    case (RfWriteAudit i act detail)
    have "d1 = snd (createAudit i act detail d)" using run RfWriteAudit by simp
    with RfWriteAudit h audit show ?thesis by (auto simp: active_def split: refundHold.splits)
  next
    case (RfHasAudit i act)
    with run h show ?thesis by (auto simp: sameOrder_refl active_def)
  qed (use p run h in \<open>auto simp: sameOrder_refl active_def\<close>)
qed

section \<open>The system\<close>

record refundSys =
  ry_db :: refundDB
  ry_flows :: "(int \<times> refundProg) list"

text \<open>What the rest of the system does: it keeps orders, the statuses of orders that are being or have been
refunded, and audit lines; balances, subscriptions, other statuses and the clock are arbitrary.\<close>

definition outside :: "refundDB \<Rightarrow> refundDB \<Rightarrow> bool" where
  "outside d d1 \<longleftrightarrow> rf_log d1 = rf_log d \<and> (\<forall>oid act. audited oid act d \<longrightarrow> audited oid act d1)
     \<and> (\<forall>oid o1. rf_orders d oid = Some o1 \<longrightarrow>
          (\<exists>o2. rf_orders d1 oid = Some o2 \<and> (closedStatus (po_Status o1) \<longrightarrow> po_Status o2 = po_Status o1)))"

inductive refund_step :: "refundEnv \<Rightarrow> refundSys \<Rightarrow> refundSys \<Rightarrow> bool" for E where
  request: "refund_step E y (y\<lparr>ry_flows := (oid, RequestRefund E oid uid reason) # ry_flows y\<rparr>)"
| refund: "refund_step E y (y\<lparr>ry_flows := (oid, ProcessRefund E oid amt reason force deduct) # ry_flows y\<rparr>)"
| run: "i < length (ry_flows y) \<Longrightarrow> ry_flows y ! i = (oid, RfDo st k) \<Longrightarrow> execRefund E a st (ry_db y) = (r, d1) \<Longrightarrow>
    refund_step E y (y\<lparr>ry_db := d1, ry_flows := (ry_flows y)[i := (oid, k r)]\<rparr>)"
| fault: "i < length (ry_flows y) \<Longrightarrow> ry_flows y ! i = (oid, RfDo st k) \<Longrightarrow> \<not> auditStmt st \<Longrightarrow>
    refund_step E y (y\<lparr>ry_flows := (ry_flows y)[i := (oid, k (RfErr e))]\<rparr>)"
| other: "outside (ry_db y) d1 \<Longrightarrow> refund_step E y (y\<lparr>ry_db := d1\<rparr>)"

inductive refund_reach :: "refundEnv \<Rightarrow> refundSys \<Rightarrow> bool" for E where
  start: "rf_log (ry_db y) = [] \<Longrightarrow> ry_flows y = [] \<Longrightarrow> refund_reach E y"
| further: "refund_reach E y \<Longrightarrow> refund_step E y y1 \<Longrightarrow> refund_reach E y1"

definition flow_inv :: "refundDB \<Rightarrow> (int \<times> refundProg) list \<Rightarrow> refundHold list \<Rightarrow> bool" where
  "flow_inv d fs hs \<longleftrightarrow> length hs = length fs
     \<and> (\<forall>i < length fs. typed (fst (fs ! i)) (snd (fs ! i)) (hs ! i))
     \<and> (\<forall>i < length fs. \<forall>j < length fs. i \<noteq> j \<longrightarrow> fst (fs ! i) = fst (fs ! j) \<longrightarrow> active (hs ! i) \<longrightarrow> \<not> active (hs ! j))
     \<and> (\<forall>i < length fs. active (hs ! i) \<longrightarrow> heldOK d (fst (fs ! i)) (hs ! i))
     \<and> (\<forall>oid. restOK d oid)"

lemma flow_inv_new:
  assumes inv: "flow_inv d fs hs" and t: "typed oid p Idle"
  shows "flow_inv d ((oid, p) # fs) (Idle # hs)"
  unfolding flow_inv_def
proof (intro conjI)
  show "\<forall>i < length ((oid, p) # fs). \<forall>j < length ((oid, p) # fs). i \<noteq> j \<longrightarrow>
      fst (((oid, p) # fs) ! i) = fst (((oid, p) # fs) ! j) \<longrightarrow> active ((Idle # hs) ! i) \<longrightarrow> \<not> active ((Idle # hs) ! j)"
  proof (intro allI impI)
    fix i j
    assume "i < length ((oid, p) # fs)" "j < length ((oid, p) # fs)" "i \<noteq> j"
      "fst (((oid, p) # fs) ! i) = fst (((oid, p) # fs) ! j)" "active ((Idle # hs) ! i)"
    then show "\<not> active ((Idle # hs) ! j)"
      using inv by (cases i; cases j) (auto simp: flow_inv_def active_def)
  qed
qed (use inv t in \<open>auto simp: flow_inv_def nth_Cons' active_def\<close>)

lemma flow_inv_tables:
  assumes inv: "flow_inv d fs hs" and keep: "\<And>oid h. heldOK d oid h \<Longrightarrow> heldOK d1 oid h"
  shows "flow_inv d1 fs hs"
  using inv keep keep [of _ Idle] by (auto simp: flow_inv_def)

lemma outside_held: "outside d d1 \<Longrightarrow> heldOK d oid h \<Longrightarrow> heldOK d1 oid h"
proof -
  assume out: "outside d d1" and ok: "heldOK d oid h"
  have log: "rf_log d1 = rf_log d" using out by (simp add: outside_def)
  have ref: "refunding d1 oid" if "refunding d oid"
    using out that unfolding outside_def refunding_def closedStatus_def by (metis insertI1)
  have owed: "owedIsAudited d1 oid" if "owedIsAudited d oid"
    using out that by (auto simp: outside_def owedIsAudited_def)
  have rest: "restOK d1 oid" if r: "restOK d oid"
  proof (cases "rf_orders d oid")
    case None
    with r log show ?thesis by (auto simp: restOK_def owedIsAudited_def)
  next
    case (Some o1)
    with out obtain o2 where o2: "rf_orders d1 oid = Some o2" "closedStatus (po_Status o1) \<longrightarrow> po_Status o2 = po_Status o1"
      unfolding outside_def by blast
    show ?thesis using r Some o2 log owed by (cases "closedStatus (po_Status o1)") (auto simp: restOK_def)
  qed
  show "heldOK d1 oid h" using ok log ref owed rest by (cases h) auto
qed

lemma flow_inv_step:
  assumes inv: "flow_inv d fs hs" and i: "i < length fs" "fs ! i = (oid, RfDo st k)"
    and held: "heldOK d1 oid (nextHold oid (hs ! i) st r)" and gen: "genuine st r"
    and others: "\<And>j. j \<noteq> oid \<Longrightarrow> sameOrder j d d1"
    and idle: "\<not> active (hs ! i) \<Longrightarrow> refunding d oid \<Longrightarrow> \<not> active (nextHold oid (hs ! i) st r) \<and> sameOrder oid d d1"
  shows "flow_inv d1 (fs[i := (oid, k r)]) (hs[i := nextHold oid (hs ! i) st r])"
proof -
  let ?h = "nextHold oid (hs ! i) st r"
  have len: "length hs = length fs" using inv by (simp add: flow_inv_def)
  have t: "typed oid (k r) ?h" using inv i gen by (auto simp: flow_inv_def)
  have busy: "refunding d oid" if "j < length fs" "fst (fs ! j) = oid" "active (hs ! j)" for j
    using inv that active_length by (auto simp: flow_inv_def)
  have one: "\<forall>a < length fs. \<forall>b < length fs. a \<noteq> b \<longrightarrow> fst (fs ! a) = fst (fs ! b) \<longrightarrow> active (hs ! a) \<longrightarrow> \<not> active (hs ! b)"
    using inv by (simp add: flow_inv_def)
  have alone: "\<not> active (hs ! i)" if "j < length fs" "j \<noteq> i" "fst (fs ! j) = oid" "active (hs ! j)" for j
  proof
    assume "active (hs ! i)"
    moreover have "fst (fs ! i) = fst (fs ! j)" using that(3) i(2) by simp
    ultimately show False using one that(1,2,4) i(1) by blast
  qed
  have quiet: "\<not> active ?h \<and> sameOrder oid d d1" if "j < length fs" "j \<noteq> i" "fst (fs ! j) = oid" "active (hs ! j)" for j
    using idle alone [OF that] busy [OF that(1,3,4)] by blast
  have keep: "heldOK d1 (fst (fs ! j)) (hs ! j)" if j: "j < length fs" "j \<noteq> i" "active (hs ! j)" for j
  proof -
    have ok: "heldOK d (fst (fs ! j)) (hs ! j)" using inv j by (simp add: flow_inv_def)
    show ?thesis
    proof (cases "fst (fs ! j) = oid")
      case True
      then show ?thesis using quiet [OF j(1,2) True j(3)] sameOrder_held ok by blast
    next
      case False
      then show ?thesis using others sameOrder_held ok by blast
    qed
  qed
  have rest: "restOK d1 x" for x
  proof (cases "x = oid")
    case True
    then show ?thesis using held active_rest inactive_held by blast
  next
    case False
    then show ?thesis using sameOrder_held [OF others [OF False], of Idle] inv by (simp add: flow_inv_def)
  qed
  have excl: "\<not> active (hs[i := ?h] ! b)"
    if "a < length fs" "b < length fs" "a \<noteq> b" "fst (fs[i := (oid, k r)] ! a) = fst (fs[i := (oid, k r)] ! b)"
      "active (hs[i := ?h] ! a)" for a b
  proof -
    have f: "fst (fs[i := (oid, k r)] ! c) = fst (fs ! c)" if "c < length fs" for c
      using that i by (cases "c = i") auto
    have eq: "fst (fs ! a) = fst (fs ! b)" using that f by simp
    from that(3) consider "a = i" "b \<noteq> i" | "b = i" "a \<noteq> i" | "a \<noteq> i" "b \<noteq> i" by blast
    then show ?thesis
    proof cases
      case 1
      then show ?thesis using quiet [of b] that eq i len by auto
    next
      case 2
      then show ?thesis using quiet [of a] that eq i len by auto
    next
      case 3
      then have "active (hs ! a)" using that(5) by simp
      then have "\<not> active (hs ! b)" using one that(1-3) eq by blast
      with 3 show ?thesis by simp
    qed
  qed
  show ?thesis
    unfolding flow_inv_def
  proof (intro conjI)
    show "\<forall>a < length (fs[i := (oid, k r)]). typed (fst (fs[i := (oid, k r)] ! a)) (snd (fs[i := (oid, k r)] ! a)) (hs[i := ?h] ! a)"
      using inv t i len by (auto simp: flow_inv_def nth_list_update)
    show "\<forall>a < length (fs[i := (oid, k r)]). active (hs[i := ?h] ! a) \<longrightarrow>
        heldOK d1 (fst (fs[i := (oid, k r)] ! a)) (hs[i := ?h] ! a)"
    proof (intro allI impI)
      fix a
      assume a: "a < length (fs[i := (oid, k r)])" "active (hs[i := ?h] ! a)"
      show "heldOK d1 (fst (fs[i := (oid, k r)] ! a)) (hs[i := ?h] ! a)"
      proof (cases "a = i")
        case True
        with held i len show ?thesis by simp
      next
        case False
        with keep [of a] a show ?thesis by simp
      qed
    qed
    show "\<forall>a < length (fs[i := (oid, k r)]). \<forall>b < length (fs[i := (oid, k r)]). a \<noteq> b \<longrightarrow>
        fst (fs[i := (oid, k r)] ! a) = fst (fs[i := (oid, k r)] ! b) \<longrightarrow>
        active (hs[i := ?h] ! a) \<longrightarrow> \<not> active (hs[i := ?h] ! b)"
    proof (intro allI impI)
      fix a b
      assume "a < length (fs[i := (oid, k r)])" "b < length (fs[i := (oid, k r)])" "a \<noteq> b"
        "fst (fs[i := (oid, k r)] ! a) = fst (fs[i := (oid, k r)] ! b)" "active (hs[i := ?h] ! a)"
      then show "\<not> active (hs[i := ?h] ! b)" by (intro excl [of a b]) simp_all
    qed
    show "\<forall>x. restOK d1 x" using rest by blast
    show "length (hs[i := ?h]) = length (fs[i := (oid, k r)])" using len by simp
  qed
qed

lemma refund_step_inv:
  assumes "refund_step E y y1" and "flow_inv (ry_db y) (ry_flows y) hs"
  shows "\<exists>hs1. flow_inv (ry_db y1) (ry_flows y1) hs1"
  using assms
proof (cases rule: refund_step.cases)
  case (request oid uid reason)
  then show ?thesis using flow_inv_new [OF assms(2) typed_request [of oid E uid reason]] by auto
next
  case (refund oid amt reason force deduct)
  then show ?thesis using flow_inv_new [OF assms(2) typed_process [of oid E amt reason force deduct]] by auto
next
  case (run i oid st k a r d1)
  have perm: "permitted oid (hs ! i) st" and ok: "heldOK (ry_db y) oid (hs ! i)"
    using assms(2) run(2,3) inactive_held by (fastforce simp: flow_inv_def)+
  note held = exec_held [OF perm ok run(4)]
  have "flow_inv d1 ((ry_flows y)[i := (oid, k r)]) (hs[i := nextHold oid (hs ! i) st r])"
    by (rule flow_inv_step [OF assms(2) run(2,3)])
      (use held exec_genuine [OF run(4)] exec_idle [OF _ perm run(4)] in auto)
  then show ?thesis using run(1) by auto
next
  case (fault i oid st k e)
  have perm: "permitted oid (hs ! i) st" and ok: "heldOK (ry_db y) oid (hs ! i)"
    using assms(2) fault(2,3) inactive_held by (fastforce simp: flow_inv_def)+
  have gen: "genuine st (RfErr e)" using fault(4) by (cases st) simp_all
  have idle: "\<not> active (nextHold oid (hs ! i) st (RfErr e))" if "\<not> active (hs ! i)"
    using that perm by (cases st) (auto simp: active_def split: refundHold.splits if_splits)
  have "flow_inv (ry_db y) ((ry_flows y)[i := (oid, k (RfErr e))]) (hs[i := nextHold oid (hs ! i) st (RfErr e)])"
    by (rule flow_inv_step [OF assms(2) fault(2,3)])
      (use fault_held [OF perm ok fault(4)] gen idle sameOrder_refl in auto)
  then show ?thesis using fault(1) by auto
next
  case (other d1)
  then show ?thesis using flow_inv_tables [OF assms(2) outside_held [OF other(2)]] by auto
qed

lemma refund_reach_inv: "refund_reach E y \<Longrightarrow> \<exists>hs. flow_inv (ry_db y) (ry_flows y) hs"
proof (induction rule: refund_reach.induct)
  case (start y)
  then have "flow_inv (ry_db y) (ry_flows y) []"
    by (simp add: flow_inv_def restOK_def owedIsAudited_def paidOf_def)
  then show ?case by blast
next
  case (further y y1)
  then show ?case using refund_step_inv by blast
qed


section \<open>A run\<close>

lemma run_refund_reach:
  "refund_reach E y \<Longrightarrow> ry_flows y = (oid, p) # fs \<Longrightarrow> (\<And>st. bad st \<Longrightarrow> \<not> auditStmt st) \<Longrightarrow>
    \<exists>x. refund_reach E (y\<lparr>ry_db := snd (runRefund E answer bad p (ry_db y)), ry_flows := (oid, RfRet x) # fs\<rparr>)"
proof (induction p arbitrary: y)
  case (RfRet x)
  then have "y\<lparr>ry_flows := (oid, RfRet x) # fs\<rparr> = y" by (cases y) simp
  with RfRet(1) show ?case by (intro exI [of _ x]) simp
next
  case (RfDo st k)
  show ?case
  proof (cases "bad st")
    case True
    let ?y = "y\<lparr>ry_flows := (oid, k (RfErr ''fault'')) # fs\<rparr>"
    have "refund_step E y (y\<lparr>ry_flows := (ry_flows y)[0 := (oid, k (RfErr ''fault''))]\<rparr>)"
      by (rule refund_step.fault) (use RfDo.prems True in auto)
    then have "refund_reach E ?y" using RfDo.prems refund_reach.further by fastforce
    from RfDo.IH [OF _ this] RfDo.prems(3) True show ?thesis by auto
  next
    case False
    obtain r d1 where r: "execRefund E (answer st) st (ry_db y) = (r, d1)" by (cases "execRefund E (answer st) st (ry_db y)")
    let ?y = "y\<lparr>ry_db := d1, ry_flows := (oid, k r) # fs\<rparr>"
    have "refund_step E y (y\<lparr>ry_db := d1, ry_flows := (ry_flows y)[0 := (oid, k r)]\<rparr>)"
      by (rule refund_step.run) (use RfDo.prems r in auto)
    then have "refund_reach E ?y" using RfDo.prems refund_reach.further by fastforce
    from RfDo.IH [OF _ this] RfDo.prems(3) False r show ?thesis by auto
  qed
qed


end
