(* ===== verification/ModelNames.thy ===== *)
theory ModelNames
  imports GoText
begin

text \<open>
  Spellings of model names: \<open>openai_compat_model.go\<close>, \<open>openai_model_alias.go\<close>, the name tables of
  \<open>openai_codex_transform.go\<close>, \<open>pkg/openai/constants.go\<close> and \<open>pkg/claude/constants.go\<close>. A result
  \<open>(s, false)\<close> or an empty string that means "none" in the code is \<open>None\<close> where the code tests it
  at once, and the empty string elsewhere.
\<close>

section \<open>\<open>strings.Fields\<close>, \<open>Join\<close> and \<open>ReplaceAll\<close>\<close>

fun split_where :: "(char \<Rightarrow> bool) \<Rightarrow> string \<Rightarrow> string list" where
  "split_where P [] = [[]]"
| "split_where P (c # s) =
    (if P c then [] # split_where P s
     else (case split_where P s of [] \<Rightarrow> [[c]] | p # ps \<Rightarrow> (c # p) # ps))"

definition fields_func :: "(char \<Rightarrow> bool) \<Rightarrow> string \<Rightarrow> string list" where
  "fields_func P s = filter (\<lambda>p. p \<noteq> []) (split_where P s)"

definition fields :: "string \<Rightarrow> string list" where
  "fields = fields_func is_space"

fun join :: "string \<Rightarrow> string list \<Rightarrow> string" where
  "join sep [] = []"
| "join sep [p] = p"
| "join sep (p # q # ps) = p @ sep @ join sep (q # ps)"

lemma str_index_prefix: "str_index s p = Some i \<Longrightarrow> prefix p (drop i s) \<and> i \<le> length s"
  by (induction s arbitrary: i) (auto simp: has_prefix_iff split: if_splits option.splits)

lemma str_index_room: "str_index s p = Some i \<Longrightarrow> i + length p \<le> length s"
  using str_index_prefix [of s p i] prefix_length_le [of p "drop i s"] by auto

function replace_all :: "string \<Rightarrow> string \<Rightarrow> string \<Rightarrow> string" where
  "replace_all s old new =
    (if old = [] then concat (map (\<lambda>c. new @ [c]) s) @ new
     else (case str_index s old of
        None \<Rightarrow> s
      | Some i \<Rightarrow> take i s @ new @ replace_all (drop (i + length old) s) old new))"
  by pat_completeness auto

termination
proof (relation "measure (\<lambda>(s, old, new). length s)")
  fix s old :: string and i
  assume "old \<noteq> []" and i: "str_index s old = Some i"
  then show "((drop (i + length old) s, old, new), (s, old, new)) \<in> measure (\<lambda>(s, old, new). length s)" for new :: string
    using str_index_room [OF i] by (cases old) auto
qed simp

declare replace_all.simps [simp del]

lemma replace_all_length: "length new \<le> length old \<Longrightarrow> old \<noteq> [] \<Longrightarrow> length (replace_all s old new) \<le> length s"
proof (induction s old new rule: replace_all.induct)
  case (1 s old new)
  show ?case
  proof (cases "str_index s old")
    case (Some i)
    have "length (replace_all (drop (i + length old) s) old new) \<le> length s - (i + length old)"
      using "1.IH" [OF _ Some] "1.prems" by simp
    then show ?thesis
      using Some str_index_room [OF Some] "1.prems" by (subst replace_all.simps) simp
  qed (use "1.prems" in \<open>simp add: replace_all.simps\<close>)
qed

lemma replace_all_shorter:
  assumes "length new < length old" "str_contains s old"
  shows "length (replace_all s old new) < length s"
proof -
  obtain i where i: "str_index s old = Some i" using assms(2) by (auto simp: str_contains_def)
  have "length (replace_all (drop (i + length old) s) old new) \<le> length s - (i + length old)"
    using replace_all_length [of new old "drop (i + length old) s"] assms(1) by (cases old) auto
  then show ?thesis using i str_index_room [OF i] assms(1) by (subst replace_all.simps) auto
qed

section \<open>\<open>CanonicalizeOpenAIModelAliasSpelling\<close>\<close>

definition last_segment :: "string \<Rightarrow> string" where
  "last_segment s = last (split_char (CHR ''/'') s)"

text \<open>The loop that removes doubled dashes: each round shortens the name.\<close>

function collapseDashes :: "string \<Rightarrow> string" where
  "collapseDashes s = (if str_contains s ''--'' then collapseDashes (replace_all s ''--'' ''-'') else s)"
  by pat_completeness auto

termination
  by (relation "measure length") (auto intro: replace_all_shorter)

declare collapseDashes.simps [simp del]

definition compactSpellings :: "(string \<times> string) list" where
  "compactSpellings =
    [(''gpt-5.4mini'', ''gpt-5.4-mini''), (''gpt-5.4nano'', ''gpt-5.4-nano''),
     (''gpt-5.3-codexspark'', ''gpt-5.3-codex-spark''), (''gpt-5.3codexspark'', ''gpt-5.3-codex-spark''),
     (''gpt-5.3codex'', ''gpt-5.3-codex'')]"

definition CanonicalizeOpenAIModelAliasSpelling :: "string \<Rightarrow> string" where
  "CanonicalizeOpenAIModelAliasSpelling model0 =
    (let model1 = trim_space model0;
         model2 = (case last_index_char model1 (CHR ''/'') of None \<Rightarrow> model1 | Some i \<Rightarrow> trim_space (drop (Suc i) model1));
         model = to_lower model2
     in if model = [] then []
        else
          (let n1 = collapseDashes (join ''-'' (fields (replace_all model ''_'' ''-'')));
               n2 = (if has_prefix n1 ''gpt5'' then ''gpt-5'' @ trim_prefix n1 ''gpt5'' else n1)
           in if \<not> has_prefix n2 ''gpt-'' \<and> \<not> str_contains n2 ''codex'' then []
              else foldl (\<lambda>n (old, new). replace_all n old new) n2 compactSpellings))"

definition IsGPT6SolOrLunaModelSpelling :: "string \<Rightarrow> bool" where
  "IsGPT6SolOrLunaModelSpelling model =
    (let canonical = CanonicalizeOpenAIModelAliasSpelling model
     in list_ex (\<lambda>base. canonical = base
          \<or> has_prefix canonical (base @ ''-'')
            \<and> trim_prefix canonical (base @ ''-'') \<in> set [''none'', ''low'', ''medium'', ''high'', ''xhigh'', ''max'', ''openai-compact''])
        [''gpt-6-sol'', ''gpt-6-luna''])"

section \<open>Known Codex models\<close>

definition codexModelMap :: "(string, string) gomap" where
  "codexModelMap =
    [(''gpt-6-sol'', ''gpt-6-sol''), (''gpt-6-luna'', ''gpt-6-luna''), (''gpt-6-astra'', ''gpt-6-astra''),
     (''gpt-5.6-sol'', ''gpt-5.6-sol''), (''gpt-5.6-terra'', ''gpt-5.6-terra''), (''gpt-5.6-luna'', ''gpt-5.6-luna''),
     (''gpt-5.5'', ''gpt-5.5''), (''gpt-5.5-pro'', ''gpt-5.5-pro''), (''codex-auto-review'', ''codex-auto-review''),
     (''gpt-5.4'', ''gpt-5.4''), (''gpt-5.4-mini'', ''gpt-5.4-mini''), (''gpt-5.4-none'', ''gpt-5.4''),
     (''gpt-5.4-low'', ''gpt-5.4''), (''gpt-5.4-medium'', ''gpt-5.4''), (''gpt-5.4-high'', ''gpt-5.4''),
     (''gpt-5.4-xhigh'', ''gpt-5.4''), (''gpt-5.4-chat-latest'', ''gpt-5.4''), (''gpt-5.3'', ''gpt-5.3-codex''),
     (''gpt-5.3-none'', ''gpt-5.3-codex''), (''gpt-5.3-low'', ''gpt-5.3-codex''), (''gpt-5.3-medium'', ''gpt-5.3-codex''),
     (''gpt-5.3-high'', ''gpt-5.3-codex''), (''gpt-5.3-xhigh'', ''gpt-5.3-codex''), (''gpt-5.3-codex'', ''gpt-5.3-codex''),
     (''gpt-5.3-codex-spark'', ''gpt-5.3-codex-spark''), (''gpt-5.3-codex-low'', ''gpt-5.3-codex''),
     (''gpt-5.3-codex-medium'', ''gpt-5.3-codex''), (''gpt-5.3-codex-high'', ''gpt-5.3-codex''),
     (''gpt-5.3-codex-xhigh'', ''gpt-5.3-codex''), (''gpt-5.2'', ''gpt-5.2''), (''gpt-5.2-none'', ''gpt-5.2''),
     (''gpt-5.2-low'', ''gpt-5.2''), (''gpt-5.2-medium'', ''gpt-5.2''), (''gpt-5.2-high'', ''gpt-5.2''),
     (''gpt-5.2-xhigh'', ''gpt-5.2''), (''gpt-5'', ''gpt-5.4''), (''gpt-5-mini'', ''gpt-5.4''), (''gpt-5-nano'', ''gpt-5.4''),
     (''gpt-5.1'', ''gpt-5.4''), (''gpt-5.1-codex'', ''gpt-5.3-codex''), (''gpt-5.1-codex-max'', ''gpt-5.3-codex''),
     (''gpt-5.1-codex-mini'', ''gpt-5.3-codex''), (''gpt-5.2-codex'', ''gpt-5.2''), (''codex-mini-latest'', ''gpt-5.3-codex''),
     (''gpt-5-codex'', ''gpt-5.3-codex'')]"

definition codexVersionModelPrefixes :: "(string \<times> string) list" where
  "codexVersionModelPrefixes = map (\<lambda>p. (p, p))
    [''gpt-6-sol'', ''gpt-6-luna'', ''gpt-5.6-sol'', ''gpt-5.6-terra'', ''gpt-5.6-luna'', ''gpt-5.3-codex-spark'',
     ''gpt-5.3-codex'', ''gpt-5.4-mini'', ''gpt-5.4-nano'', ''gpt-5.5-pro'', ''gpt-5.5'', ''gpt-5.4'', ''gpt-5.2'']"

definition codexModelLookupKey :: "string \<Rightarrow> string" where
  "codexModelLookupKey modelID0 =
    (let modelID = trim_space modelID0
     in if modelID = [] then [] else to_lower (join ''-'' (fields (last_segment modelID))))"

definition getNormalizedCodexModel :: "string \<Rightarrow> string" where
  "getNormalizedCodexModel modelID =
    (let key = codexModelLookupKey modelID
     in if key = [] then [] else (case m_get codexModelMap key of Some mapped \<Rightarrow> mapped | None \<Rightarrow> []))"

definition isCodexDateSuffix :: "string \<Rightarrow> bool" where
  "isCodexDateSuffix sfx =
    (let parts = split_char (CHR ''-'') sfx
     in if length parts \<noteq> 3 \<or> length (parts ! 0) \<noteq> 4 \<or> length (parts ! 1) \<noteq> 2 \<or> length (parts ! 2) \<noteq> 2 then False
        else list_all (list_all (\<lambda>c. 48 \<le> char_code c \<and> char_code c \<le> 57)) parts)"

definition isKnownCodexModelSuffix :: "string \<Rightarrow> bool" where
  "isKnownCodexModelSuffix sfx \<longleftrightarrow>
     sfx \<in> set [''none'', ''minimal'', ''low'', ''medium'', ''high'', ''xhigh''] \<or> isCodexDateSuffix sfx"

definition normalizeKnownOpenAICodexModel :: "string \<Rightarrow> string" where
  "normalizeKnownOpenAICodexModel model =
    (let normalized = CanonicalizeOpenAIModelAliasSpelling model
     in if normalized = [] then []
        else if getNormalizedCodexModel normalized \<noteq> [] then getNormalizedCodexModel normalized
        else if has_suffix normalized ''-openai-compact''
             \<and> getNormalizedCodexModel (trim_suffix normalized ''-openai-compact'') \<noteq> []
        then getNormalizedCodexModel (trim_suffix normalized ''-openai-compact'')
        else if IsGPT6SolOrLunaModelSpelling normalized then
          (if has_prefix normalized ''gpt-6-sol'' then ''gpt-6-sol'' else ''gpt-6-luna'')
        else if normalized = ''gpt-6'' \<or> normalized = ''gpt-6-astra'' then ''gpt-6-astra''
        else if str_contains normalized ''gpt-5.6-sol'' then ''gpt-5.6-sol''
        else if str_contains normalized ''gpt-5.6-terra'' then ''gpt-5.6-terra''
        else if str_contains normalized ''gpt-5.6-luna'' then ''gpt-5.6-luna''
        else if normalized = ''gpt-5.6'' then ''gpt-5.6-sol''
        else if has_prefix normalized ''gpt-5.6-'' then
          (let sfx = trim_prefix normalized ''gpt-5.6-''
           in if sfx = ''max'' \<or> isKnownCodexModelSuffix sfx then ''gpt-5.6-sol'' else [])
        else if str_contains normalized ''gpt-5.5-pro'' then ''gpt-5.5-pro''
        else if str_contains normalized ''gpt-5.5'' then ''gpt-5.5''
        else if str_contains normalized ''gpt-5.4-mini'' then ''gpt-5.4-mini''
        else if str_contains normalized ''gpt-5.4-nano'' then ''gpt-5.4-nano''
        else if str_contains normalized ''gpt-5.4'' then ''gpt-5.4''
        else if str_contains normalized ''gpt-5.2'' then ''gpt-5.2''
        else if str_contains normalized ''gpt-5.3-codex-spark'' then ''gpt-5.3-codex-spark''
        else if str_contains normalized ''gpt-5.3-codex'' then ''gpt-5.3-codex''
        else if str_contains normalized ''gpt-5.3'' then ''gpt-5.3-codex''
        else if str_contains normalized ''codex'' then ''gpt-5.3-codex''
        else if str_contains normalized ''gpt-5'' then ''gpt-5.4''
        else [])"

definition lastOpenAIModelSegment :: "string \<Rightarrow> string" where
  "lastOpenAIModelSegment model0 =
    (let model = trim_space model0 in if model = [] then [] else trim_space (last_segment model))"

definition IsGPTImageGenerationModel :: "string \<Rightarrow> bool" where
  "IsGPTImageGenerationModel model = has_prefix (to_lower (trim_space model)) ''gpt-image-''"

definition isGrokImageGenerationModel :: "string \<Rightarrow> bool" where
  "isGrokImageGenerationModel model0 =
    (let model = to_lower (trim_space model0)
     in model = ''grok-imagine'' \<or> model = ''grok-imagine-edit'' \<or> has_prefix model ''grok-imagine-image'')"

definition isOpenAIImageGenerationModel :: "string \<Rightarrow> bool" where
  "isOpenAIImageGenerationModel model \<longleftrightarrow> IsGPTImageGenerationModel model \<or> isGrokImageGenerationModel model"

fun versionPrefix :: "(string \<times> string) list \<Rightarrow> string \<Rightarrow> string option" where
  "versionPrefix [] key = None"
| "versionPrefix ((pre, target) # items) key =
    (if key = pre then Some target
     else if has_prefix key (pre @ ''-'') \<and> isKnownCodexModelSuffix (trim_prefix key (pre @ ''-'')) then Some target
     else versionPrefix items key)"

definition normalizeKnownCodexModel :: "string \<Rightarrow> string option" where
  "normalizeKnownCodexModel model0 =
    (let model = trim_space model0
     in if model = [] then None
        else if isOpenAIImageGenerationModel model then Some model
        else
          (let segment = lastOpenAIModelSegment model;
               normalized = CanonicalizeOpenAIModelAliasSpelling segment;
               modelID = (if normalized \<noteq> [] then normalized else segment);
               mapped = normalizeKnownOpenAICodexModel modelID;
               key = codexModelLookupKey modelID
           in if mapped \<noteq> [] then Some mapped
              else if key = [] then None
              else if getNormalizedCodexModel key \<noteq> [] then Some (getNormalizedCodexModel key)
              else versionPrefix codexVersionModelPrefixes key))"

definition normalizeCodexModel :: "string \<Rightarrow> string" where
  "normalizeCodexModel model0 =
    (let model = trim_space model0
     in if model = [] then ''gpt-5.4''
        else (case normalizeKnownCodexModel model of Some mapped \<Rightarrow> mapped | None \<Rightarrow> model))"

section \<open>Reasoning suffixes and Claude's short names\<close>

text \<open>The result is the model, the effort and whether the name had a reasoning suffix.\<close>

definition splitOpenAICompatReasoningModel :: "string \<Rightarrow> string \<times> string \<times> bool" where
  "splitOpenAICompatReasoningModel model =
    (let trimmed = trim_space model
     in if trimmed = [] then ([], [], False)
        else
          (let modelID = trim_space (last_segment trimmed);
               parts = fields_func (\<lambda>c. c = CHR ''-'' \<or> c = CHR ''_'' \<or> c = CHR '' '') (to_lower modelID)
           in if \<not> has_prefix (to_lower modelID) ''gpt-'' then (trimmed, [], False)
              else if parts = [] then (trimmed, [], False)
              else
                (let final = filter (\<lambda>c. c \<noteq> CHR ''-'' \<and> c \<noteq> CHR ''_'' \<and> c \<noteq> CHR '' '') (last parts)
                 in if final = ''none'' \<or> final = ''minimal'' then (normalizeCodexModel modelID, [], True)
                    else if final = ''low'' \<or> final = ''medium'' \<or> final = ''high'' then (normalizeCodexModel modelID, final, True)
                    else if final = ''xhigh'' \<or> final = ''extrahigh'' then (normalizeCodexModel modelID, ''xhigh'', True)
                    else (trimmed, [], False))))"

definition NormalizeOpenAICompatRequestedModel :: "string \<Rightarrow> string" where
  "NormalizeOpenAICompatRequestedModel model =
    (let trimmed = trim_space model
     in if trimmed = [] then []
        else (case splitOpenAICompatReasoningModel trimmed of
          (normalized, _, ok) \<Rightarrow> if \<not> ok \<or> normalized = [] then trimmed else normalized))"

definition ModelIDOverrides :: "(string, string) gomap" where
  "ModelIDOverrides =
    [(''claude-sonnet-4-5'', ''claude-sonnet-4-5-20250929''), (''claude-opus-4-5'', ''claude-opus-4-5-20251101''),
     (''claude-haiku-4-5'', ''claude-haiku-4-5-20251001'')]"

definition NormalizeModelID :: "string \<Rightarrow> string" where
  "NormalizeModelID i = (if i = [] then i else (case m_get ModelIDOverrides i of Some mapped \<Rightarrow> mapped | None \<Rightarrow> i))"

section \<open>Billing candidates\<close>

definition billingAdd :: "string list \<Rightarrow> string \<Rightarrow> string list" where
  "billingAdd candidates candidate0 =
    (let candidate = trim_space candidate0
     in if candidate = [] \<or> to_lower candidate \<in> set (map to_lower candidates) then candidates
        else candidates @ [candidate])"

definition appendUsageBillingModelCandidate :: "string list \<Rightarrow> string \<Rightarrow> string list" where
  "appendUsageBillingModelCandidate candidates model =
    (let trimmed = trim_space model
     in if trimmed = [] then candidates
        else
          (let c1 = billingAdd candidates trimmed;
               canonical = CanonicalizeOpenAIModelAliasSpelling trimmed;
               c2 = (if canonical \<noteq> [] then billingAdd c1 canonical else c1);
               normalized = normalizeKnownOpenAICodexModel trimmed
           in if normalized \<noteq> [] then billingAdd c2 normalized else c2))"

definition usageBillingModelCandidates :: "string \<Rightarrow> string list \<Rightarrow> string list" where
  "usageBillingModelCandidates primary alternates =
     foldl appendUsageBillingModelCandidate (appendUsageBillingModelCandidate [] primary) alternates"

definition firstUsageBillingModel :: "string list \<Rightarrow> string" where
  "firstUsageBillingModel candidates =
     (case filter (\<lambda>c. trim_space c \<noteq> []) candidates of [] \<Rightarrow> [] | c # _ \<Rightarrow> trim_space c)"

section \<open>Known names\<close>

text \<open>\<open>normalizeKnownOpenAICodexModel\<close> answers a name of this list, or nothing.\<close>

definition codexTargets :: "string list" where
  "codexTargets = [''gpt-6-sol'', ''gpt-6-luna'', ''gpt-6-astra'', ''gpt-5.6-sol'', ''gpt-5.6-terra'', ''gpt-5.6-luna'',
     ''gpt-5.5'', ''gpt-5.5-pro'', ''codex-auto-review'', ''gpt-5.4'', ''gpt-5.4-mini'', ''gpt-5.4-nano'', ''gpt-5.3-codex'',
     ''gpt-5.3-codex-spark'', ''gpt-5.2'']"

lemma codexModelMap_targets: "list_all (\<lambda>(k, t). t \<in> set codexTargets) codexModelMap"
  by code_simp

definition codexTarget :: "string \<Rightarrow> bool" where
  "codexTarget m \<longleftrightarrow> m = [] \<or> m \<in> set codexTargets"

lemma codexTarget_if: "codexTarget a \<Longrightarrow> codexTarget b \<Longrightarrow> codexTarget (if c then a else b)"
  by simp

lemma codexTarget_map: "codexTarget (getNormalizedCodexModel m)"
  using codexModelMap_targets
  by (auto simp: codexTarget_def getNormalizedCodexModel_def Let_def list_all_iff split: option.split dest!: map_of_SomeD)

lemma codexTarget_literals:
  "list_all codexTarget [[], ''gpt-6-sol'', ''gpt-6-luna'', ''gpt-6-astra'', ''gpt-5.6-sol'', ''gpt-5.6-terra'',
     ''gpt-5.6-luna'', ''gpt-5.5'', ''gpt-5.5-pro'', ''gpt-5.4'', ''gpt-5.4-mini'', ''gpt-5.4-nano'', ''gpt-5.3-codex'',
     ''gpt-5.3-codex-spark'', ''gpt-5.2'']"
  by code_simp

lemma known_model_target: "codexTarget (normalizeKnownOpenAICodexModel m)"
proof -
  have literals: "codexTarget [] \<and> codexTarget ''gpt-6-sol'' \<and> codexTarget ''gpt-6-luna'' \<and> codexTarget ''gpt-6-astra''
    \<and> codexTarget ''gpt-5.6-sol'' \<and> codexTarget ''gpt-5.6-terra'' \<and> codexTarget ''gpt-5.6-luna'' \<and> codexTarget ''gpt-5.5''
    \<and> codexTarget ''gpt-5.5-pro'' \<and> codexTarget ''gpt-5.4'' \<and> codexTarget ''gpt-5.4-mini'' \<and> codexTarget ''gpt-5.4-nano''
    \<and> codexTarget ''gpt-5.3-codex'' \<and> codexTarget ''gpt-5.3-codex-spark'' \<and> codexTarget ''gpt-5.2''"
    using codexTarget_literals by (simp only: list.pred_inject simp_thms)
  show ?thesis
    unfolding normalizeKnownOpenAICodexModel_def Let_def
    by (intro codexTarget_if codexTarget_map) (use literals in blast)+
qed

end
