(* ===== verification/GroupAllowlist.thy ===== *)
theory GroupAllowlist
  imports ModelNames
begin

text \<open>
  The models a group may use: \<open>group_model_allowlist.go\<close>. Patterns in which \<open>*\<close> stands for any text
  are matched greedily, piece by piece; the reference is the usual backtracking matcher \<open>glob\<close>.
  \<open>supplementUnmappedOpenAIModels\<close>, which looks at accounts, is not modelled.
\<close>

section \<open>The allowlist\<close>

record groupModelAllowlist =
  al_Enabled :: bool
  al_Models :: "string list"

text \<open>The pieces between the first and the last are found one after the other.\<close>

fun consumeParts :: "string list \<Rightarrow> string \<Rightarrow> string option" where
  "consumeParts [] model = Some model"
| "consumeParts (p # ps) model =
    (case str_index model p of None \<Rightarrow> None | Some i \<Rightarrow> consumeParts ps (drop (i + length p) model))"

definition groupAllowlistPatternMatches :: "string \<Rightarrow> string \<Rightarrow> bool" where
  "groupAllowlistPatternMatches pattern0 model0 =
    (let pattern = to_lower pattern0;
         model = to_lower model0;
         parts = split_char (CHR ''*'') pattern
     in if length parts = 1 then pattern = model
        else if \<not> has_prefix model (hd parts) then False
        else (case consumeParts (butlast (tl parts)) (drop (length (hd parts)) model) of
            None \<Rightarrow> False
          | Some rest \<Rightarrow> has_suffix rest (last parts)))"

definition addCandidate :: "string list \<Rightarrow> string \<Rightarrow> string list" where
  "addCandidate candidates value0 =
    (let v = to_lower (trim_space value0)
     in if v = [] \<or> v \<in> set candidates then candidates else candidates @ [v])"

definition groupModelAllowlistCandidates :: "string \<Rightarrow> string list" where
  "groupModelAllowlistCandidates model =
    foldl addCandidate []
      [model, trim_prefix model ''models/'', NormalizeModelID (trim_suffix model ''-thinking''),
       NormalizeOpenAICompatRequestedModel model]"

definition Allows :: "groupModelAllowlist \<Rightarrow> string \<Rightarrow> bool" where
  "Allows a model0 =
    (if \<not> al_Enabled a then True
     else
       (let model = trim_space model0
        in if model = [] then True
           else
             (let candidates = groupModelAllowlistCandidates model
              in list_ex (\<lambda>entry0. let entry = trim_space entry0
                   in entry \<noteq> [] \<and> list_ex (groupAllowlistPatternMatches entry) candidates) (al_Models a))))"

text \<open>The error is the reason code; \<open>nil\<close> and the empty list are not distinguished.\<close>

fun dedupeModels :: "string list \<Rightarrow> string list \<Rightarrow> string list" where
  "dedupeModels seen [] = []"
| "dedupeModels seen (model0 # models) =
    (let model = trim_space model0;
         key = to_lower model
     in if model = [] then dedupeModels seen models
        else if key \<in> set seen then dedupeModels seen models
        else model # dedupeModels (key # seen) models)"

definition normalizeGroupModelAllowlist :: "groupModelAllowlist \<Rightarrow> string + groupModelAllowlist" where
  "normalizeGroupModelAllowlist cfg =
    (let models = dedupeModels [] (al_Models cfg)
     in if models = [] \<and> al_Enabled cfg then Inl ''INVALID_MODEL_ALLOWLIST''
        else Inr \<lparr>al_Enabled = al_Enabled cfg, al_Models = models\<rparr>)"

definition allowlistSourcePatternAllowsModel :: "string list \<Rightarrow> string \<Rightarrow> bool" where
  "allowlistSourcePatternAllowsModel patterns model =
    (if list_ex (\<lambda>pattern. equal_fold pattern model
          \<or> has_suffix pattern ''*'' \<and> has_prefix (to_lower model) (to_lower (trim_suffix pattern ''*''))) patterns
     then True
     else
       (let normalized = NormalizeModelID (trim_suffix model ''-thinking'')
        in \<not> equal_fold normalized model \<and> list_ex (\<lambda>pattern. equal_fold pattern normalized) patterns))"

text \<open>\<open>add\<close> and the loops of \<open>FilterForListing\<close>, over the list built so far.\<close>

definition addListed :: "string list \<Rightarrow> string \<Rightarrow> string list" where
  "addListed filtered model = (if to_lower model \<in> set (map to_lower filtered) then filtered else filtered @ [model])"

definition listPattern :: "string \<Rightarrow> string list \<Rightarrow> string \<Rightarrow> string list" where
  "listPattern entry filtered pattern =
    (if groupAllowlistPatternMatches entry pattern then addListed filtered pattern
     else if has_suffix pattern ''*'' \<and> \<not> str_contains (trim_suffix pattern ''*'') ''*''
             \<and> has_prefix (to_lower entry) (to_lower (trim_suffix pattern ''*''))
     then addListed filtered entry else filtered)"

definition listEntry :: "string list \<Rightarrow> string list \<Rightarrow> string \<Rightarrow> string list" where
  "listEntry patterns filtered entry0 =
    (let entry = trim_space entry0
     in if entry = [] then filtered
        else if str_contains entry ''*'' then foldl (listPattern entry) filtered patterns
        else if allowlistSourcePatternAllowsModel patterns entry then addListed filtered entry else filtered)"

definition FilterForListing :: "groupModelAllowlist \<Rightarrow> string list \<Rightarrow> string list" where
  "FilterForListing a source =
    (if \<not> al_Enabled a then source
     else if al_Models a = [] then []
     else
       (let patterns = filter (\<lambda>p. p \<noteq> []) (map trim_space source)
        in if patterns = [] then [] else foldl (listEntry patterns) [] (al_Models a)))"

section \<open>The greedy matcher is the backtracking one\<close>

fun glob :: "string \<Rightarrow> string \<Rightarrow> bool" where
  "glob [] s \<longleftrightarrow> s = []"
| "glob (c # p) s \<longleftrightarrow>
    (if c = CHR ''*'' then glob p s \<or> (case s of [] \<Rightarrow> False | _ # t \<Rightarrow> glob (c # p) t)
     else (case s of [] \<Rightarrow> False | x # t \<Rightarrow> x = c \<and> glob p t))"

declare glob.simps(2) [simp del]

lemma glob_star: "glob (CHR ''*'' # p) s \<longleftrightarrow> (\<exists>t. suffix t s \<and> glob p t)"
proof (induction s)
  case (Cons x s)
  have "glob (CHR ''*'' # p) (x # s) \<longleftrightarrow> glob p (x # s) \<or> glob (CHR ''*'' # p) s"
    by (subst glob.simps(2)) simp
  also have "\<dots> \<longleftrightarrow> glob p (x # s) \<or> (\<exists>t. suffix t s \<and> glob p t)" by (simp only: Cons.IH)
  also have "\<dots> \<longleftrightarrow> (\<exists>t. suffix t (x # s) \<and> glob p t)" by (metis suffix_Cons)
  finally show ?case .
qed (simp add: glob.simps(2))

lemma glob_char: "c \<noteq> CHR ''*'' \<Longrightarrow> glob (c # p) (x # s) \<longleftrightarrow> x = c \<and> glob p s" "c \<noteq> CHR ''*'' \<Longrightarrow> \<not> glob (c # p) []"
  by (simp_all add: glob.simps(2))

lemma glob_literal: "CHR ''*'' \<notin> set w \<Longrightarrow> glob (w @ p) s \<longleftrightarrow> prefix w s \<and> glob p (drop (length w) s)"
proof (induction w arbitrary: s)
  case (Cons c w)
  then have c: "c \<noteq> CHR ''*''" and w: "CHR ''*'' \<notin> set w" by auto
  show ?case using glob_char [OF c, of "w @ p"] Cons.IH [OF w] by (cases s) auto
qed simp

lemma glob_plain: "CHR ''*'' \<notin> set w \<Longrightarrow> glob w t \<longleftrightarrow> t = w"
  using glob_literal [of w "[]" t] by (auto simp: prefix_def)

lemma glob_star_extends: "glob (CHR ''*'' # p) t \<Longrightarrow> suffix t s \<Longrightarrow> glob (CHR ''*'' # p) s"
  unfolding glob_star by (meson suffix_order.trans)

lemma glob_refl: "glob p p"
proof (induction p)
  case (Cons c p)
  then show ?case by (cases "c = CHR ''*''") (auto simp: glob_star glob_char intro: exI [of _ p] suffix_ConsI)
qed simp

lemma join_split: "join [x] (split_char x s) = s"
proof (induction s)
  case (Cons c s)
  show ?case
  proof (cases "split_char x s")
    case (Cons p ps)
    then show ?thesis using \<open>join [x] (split_char x s) = s\<close> by (cases ps) auto
  qed simp
qed simp

text \<open>A piece may be taken where it first occurs: a later place leaves less for the next star.\<close>

lemma glob_piece:
  assumes "CHR ''*'' \<notin> set w"
  shows "glob (CHR ''*'' # w @ CHR ''*'' # p) s \<longleftrightarrow>
    (case str_index s w of None \<Rightarrow> False | Some i \<Rightarrow> glob (CHR ''*'' # p) (drop (i + length w) s))"
proof
  assume "glob (CHR ''*'' # w @ CHR ''*'' # p) s"
  then obtain t where t: "suffix t s" "prefix w t" "glob (CHR ''*'' # p) (drop (length w) t)"
    using glob_literal [OF assms, of "CHR ''*'' # p"] unfolding glob_star [of "w @ CHR ''*'' # p"] by auto
  obtain j where j: "t = drop j s" using t(1) by (metis suffix_take suffix_def append_eq_conv_conj)
  have "prefix w (drop j s)" using t(2) j by simp
  then obtain i where i: "str_index s w = Some i" "i \<le> j"
    using str_index_some [of s w] str_index_none [of s w j] by (cases "str_index s w") force+
  have "suffix (drop (length w) t) (drop (i + length w) s)"
    unfolding j using i(2) by (metis add.commute add_le_cancel_right drop_drop le_Suc_ex suffix_drop)
  then show "case str_index s w of None \<Rightarrow> False | Some i \<Rightarrow> glob (CHR ''*'' # p) (drop (i + length w) s)"
    using glob_star_extends [OF t(3)] i(1) by simp
next
  assume greedy: "case str_index s w of None \<Rightarrow> False | Some i \<Rightarrow> glob (CHR ''*'' # p) (drop (i + length w) s)"
  then obtain i where i: "str_index s w = Some i" by (auto split: option.splits)
  then have "glob (w @ CHR ''*'' # p) (drop i s)"
    using greedy str_index_prefix [OF i] glob_literal [OF assms, of "CHR ''*'' # p" "drop i s"]
    by (simp add: add.commute)
  then show "glob (CHR ''*'' # w @ CHR ''*'' # p) s" unfolding glob_star [of "w @ CHR ''*'' # p"] by (meson suffix_drop)
qed

lemma glob_pieces:
  assumes "\<And>w. w \<in> set (ps @ [l]) \<Longrightarrow> CHR ''*'' \<notin> set w"
  shows "glob (CHR ''*'' # join ''*'' (ps @ [l])) s \<longleftrightarrow>
    (case consumeParts ps s of None \<Rightarrow> False | Some rest \<Rightarrow> has_suffix rest l)"
  using assms
proof (induction ps arbitrary: s)
  case Nil
  have "glob l t \<longleftrightarrow> t = l" for t using Nil by (intro glob_plain) auto
  then show ?case using glob_star [of l s] by (simp add: has_suffix_iff)
next
  case (Cons w ps)
  have "join ''*'' ((w # ps) @ [l]) = w @ CHR ''*'' # join ''*'' (ps @ [l])" by (cases "ps @ [l]") auto
  then show ?case using Cons glob_piece [of w "join ''*'' (ps @ [l])" s] by (auto split: option.splits)
qed

lemma matches_fold: "groupAllowlistPatternMatches (to_lower p) s = groupAllowlistPatternMatches p s"
  "groupAllowlistPatternMatches p (to_lower s) = groupAllowlistPatternMatches p s"
  by (simp_all add: groupAllowlistPatternMatches_def)

lemma matches_glob: "groupAllowlistPatternMatches p s \<longleftrightarrow> glob (to_lower p) (to_lower s)"
proof -
  let ?p = "to_lower p" and ?s = "to_lower s" and ?parts = "split_char (CHR ''*'') (to_lower p)"
  have free: "CHR ''*'' \<notin> set w" if "w \<in> set ?parts" for w using that by (rule split_char_parts)
  have whole: "join ''*'' ?parts = ?p" by (rule join_split)
  show ?thesis
  proof (cases "tl ?parts = []")
    case True
    then obtain w where w: "?parts = [w]" by (cases ?parts) auto
    then have "?p = w" using whole by simp
    then have "glob ?p ?s \<longleftrightarrow> ?s = w"
      using glob_plain [of w ?s] free [of w] w by simp
    then show ?thesis using w \<open>?p = w\<close> unfolding groupAllowlistPatternMatches_def Let_def by auto
  next
    case False
    then obtain w ps l where parts: "?parts = w # ps @ [l]"
      by (metis append_butlast_last_id list.collapse split_char_nonempty)
    then have "?p = w @ CHR ''*'' # join ''*'' (ps @ [l])" using whole by (cases "ps @ [l]") auto
    then have "glob ?p ?s \<longleftrightarrow> prefix w ?s \<and> glob (CHR ''*'' # join ''*'' (ps @ [l])) (drop (length w) ?s)"
      using glob_literal [of w "CHR ''*'' # join ''*'' (ps @ [l])" ?s] free [of w] parts by simp
    moreover have "glob (CHR ''*'' # join ''*'' (ps @ [l])) (drop (length w) ?s) \<longleftrightarrow>
        (case consumeParts ps (drop (length w) ?s) of None \<Rightarrow> False | Some rest \<Rightarrow> has_suffix rest l)"
      using free parts by (intro glob_pieces) auto
    ultimately show ?thesis
      using parts by (simp add: groupAllowlistPatternMatches_def Let_def has_prefix_iff butlast_append split: option.split)
  qed
qed

text \<open>C39. The greedy matcher accepts exactly what the backtracking reference accepts, on the lower-case
forms: \<open>*\<close> stands for any text, everything else for itself, and the match is anchored at both ends.\<close>

theorem greedy_match_is_glob:
  "groupAllowlistPatternMatches pattern model \<longleftrightarrow> glob (to_lower pattern) (to_lower model)"
  by (rule matches_glob)

section \<open>Normalisation and listing\<close>

text \<open>An allowlist admits a model by the lower-case forms of its trimmed entries.\<close>

definition entryKeys :: "string list \<Rightarrow> string set" where
  "entryKeys models = {to_lower (trim_space e) |e. e \<in> set models \<and> trim_space e \<noteq> []}"

lemma Allows_keys:
  "Allows a m \<longleftrightarrow> \<not> al_Enabled a \<or> trim_space m = []
     \<or> (\<exists>k\<in>entryKeys (al_Models a). \<exists>c\<in>set (groupModelAllowlistCandidates (trim_space m)). groupAllowlistPatternMatches k c)"
proof -
  have "(\<exists>e\<in>set (al_Models a). trim_space e \<noteq> [] \<and> (\<exists>c\<in>C. groupAllowlistPatternMatches (trim_space e) c))
      \<longleftrightarrow> (\<exists>k\<in>entryKeys (al_Models a). \<exists>c\<in>C. groupAllowlistPatternMatches k c)" for C
  proof
    assume "\<exists>e\<in>set (al_Models a). trim_space e \<noteq> [] \<and> (\<exists>c\<in>C. groupAllowlistPatternMatches (trim_space e) c)"
    then obtain e c where "e \<in> set (al_Models a)" "trim_space e \<noteq> []" "c \<in> C"
      "groupAllowlistPatternMatches (to_lower (trim_space e)) c" using matches_fold(1) by blast
    then show "\<exists>k\<in>entryKeys (al_Models a). \<exists>c\<in>C. groupAllowlistPatternMatches k c" unfolding entryKeys_def by blast
  next
    assume "\<exists>k\<in>entryKeys (al_Models a). \<exists>c\<in>C. groupAllowlistPatternMatches k c"
    then show "\<exists>e\<in>set (al_Models a). trim_space e \<noteq> [] \<and> (\<exists>c\<in>C. groupAllowlistPatternMatches (trim_space e) c)"
      unfolding entryKeys_def using matches_fold(1) by auto
  qed
  then show ?thesis by (auto simp: Allows_def Let_def list_ex_iff)
qed

lemma dedupe_fresh: "m \<in> set (dedupeModels seen ms) \<Longrightarrow> m \<noteq> [] \<and> trim_space m = m \<and> to_lower m \<notin> set seen"
  by (induction seen ms rule: dedupeModels.induct) (auto simp: Let_def split: if_splits)

lemma dedupe_distinct: "distinct (map to_lower (dedupeModels seen ms))"
  by (induction seen ms rule: dedupeModels.induct) (auto simp: Let_def dest: dedupe_fresh)

lemma dedupe_subseq: "subseq (dedupeModels seen ms) (map trim_space ms)"
  by (induction seen ms rule: dedupeModels.induct) (auto simp: Let_def)

lemma dedupe_keys: "to_lower ` set (dedupeModels seen ms) = entryKeys ms - set seen"
proof (induction seen ms rule: dedupeModels.induct)
  case (2 seen m ms)
  have keys: "entryKeys (m # ms) = (if trim_space m = [] then {} else {to_lower (trim_space m)}) \<union> entryKeys ms"
    by (auto simp: entryKeys_def)
  show ?case
    using 2 by (cases "trim_space m = []"; cases "to_lower (trim_space m) \<in> set seen") (auto simp: keys Let_def)
qed (simp add: entryKeys_def)

lemma dedupe_stable:
  "\<forall>m\<in>set ms. m \<noteq> [] \<and> trim_space m = m \<and> to_lower m \<notin> set seen \<Longrightarrow> distinct (map to_lower ms) \<Longrightarrow> dedupeModels seen ms = ms"
proof (induction ms arbitrary: seen)
  case (Cons m ms)
  have "dedupeModels (to_lower m # seen) ms = ms" using Cons.prems by (intro Cons.IH) (force simp: image_iff)+
  then show ?case using Cons.prems(1) by (simp add: Let_def)
qed simp

text \<open>C40. A normalised allowlist has trimmed, non-empty entries that differ even without regard to case, in
the order they were given; it is never empty when enabled; normalising again changes nothing; and it
admits exactly the models that the list as entered admits.\<close>

theorem allowlist_normalised:
  assumes "normalizeGroupModelAllowlist cfg = Inr out"
  shows "(\<forall>m\<in>set (al_Models out). m \<noteq> [] \<and> trim_space m = m)
     \<and> distinct (map to_lower (al_Models out)) \<and> subseq (al_Models out) (map trim_space (al_Models cfg))
     \<and> (al_Enabled out \<longrightarrow> al_Models out \<noteq> []) \<and> normalizeGroupModelAllowlist out = Inr out
     \<and> (\<forall>model. Allows out model = Allows cfg model)"
proof -
  have out: "out = \<lparr>al_Enabled = al_Enabled cfg, al_Models = dedupeModels [] (al_Models cfg)\<rparr>"
    and enabled: "al_Enabled cfg \<longrightarrow> dedupeModels [] (al_Models cfg) \<noteq> []"
    using assms by (auto simp: normalizeGroupModelAllowlist_def Let_def split: if_splits)
  have facts: "\<forall>m\<in>set (al_Models out). m \<noteq> [] \<and> trim_space m = m" "distinct (map to_lower (al_Models out))"
    "subseq (al_Models out) (map trim_space (al_Models cfg))"
    using dedupe_fresh [of _ "[]" "al_Models cfg"] dedupe_distinct dedupe_subseq by (simp_all add: out)
  then have again: "dedupeModels [] (al_Models out) = al_Models out" by (intro dedupe_stable) auto
  then have "normalizeGroupModelAllowlist out = Inr out"
    using enabled by (auto simp: normalizeGroupModelAllowlist_def Let_def out)
  moreover have "entryKeys (al_Models out) = entryKeys (al_Models cfg)"
    using dedupe_keys [of "[]" "al_Models out"] dedupe_keys [of "[]" "al_Models cfg"] again by (simp add: out)
  then have "Allows out model = Allows cfg model" for model by (simp add: Allows_keys) (simp add: out)
  ultimately show ?thesis using facts enabled by (simp add: out)
qed

theorem allowlist_normalised_witness:
  "al_Models (\<lparr>al_Enabled = True, al_Models = [''gpt-5*'', ''claude-opus-4-5'']\<rparr>) = [''gpt-5*'', ''claude-opus-4-5'']
   \<and> (\<forall>model. Allows \<lparr>al_Enabled = True, al_Models = [''gpt-5*'', ''claude-opus-4-5'']\<rparr> model
        = Allows \<lparr>al_Enabled = True, al_Models = ['' gpt-5*'', ''GPT-5*'', [], ''claude-opus-4-5'']\<rparr> model)"
proof -
  have "normalizeGroupModelAllowlist \<lparr>al_Enabled = True, al_Models = ['' gpt-5*'', ''GPT-5*'', [], ''claude-opus-4-5'']\<rparr>
      = Inr \<lparr>al_Enabled = True, al_Models = [''gpt-5*'', ''claude-opus-4-5'']\<rparr>" by code_simp
  from allowlist_normalised [OF this] show ?thesis by simp
qed

lemma addCandidate_keeps: "set candidates \<subseteq> set (addCandidate candidates v)"
  by (auto simp: addCandidate_def Let_def)

lemma candidates_self: "trim_space m \<noteq> [] \<Longrightarrow> to_lower (trim_space m) \<in> set (groupModelAllowlistCandidates m)"
proof -
  assume m: "trim_space m \<noteq> []"
  have "to_lower (trim_space m) \<in> set (addCandidate [] m)" using m by (simp add: addCandidate_def Let_def)
  then show ?thesis unfolding groupModelAllowlistCandidates_def by (simp add: subsetD [OF addCandidate_keeps])
qed

lemma allowed_by_entry:
  assumes "e \<in> set (al_Models a)" "trim_space e \<noteq> []" "glob (to_lower (trim_space e)) (to_lower (trim_space m))"
  shows "Allows a m"
proof (cases "trim_space m = []")
  case False
  then have "to_lower (trim_space m) \<in> set (groupModelAllowlistCandidates (trim_space m))"
    using candidates_self [of "trim_space m"] by simp
  moreover have "groupAllowlistPatternMatches (to_lower (trim_space e)) (to_lower (trim_space m))"
    using assms(3) by (simp add: matches_glob)
  moreover have "to_lower (trim_space e) \<in> entryKeys (al_Models a)" using assms unfolding entryKeys_def by blast
  ultimately show ?thesis unfolding Allows_keys by blast
qed (simp add: Allows_keys)

lemma foldl_listed: "(\<And>f x m. x \<in> set xs \<Longrightarrow> m \<in> set (h f x) \<Longrightarrow> m \<in> set f \<or> P m) \<Longrightarrow> m \<in> set (foldl h f xs) \<Longrightarrow> m \<in> set f \<or> P m"
proof (induction xs arbitrary: f)
  case (Cons x xs)
  have "m \<in> set (h f x) \<or> P m" by (rule Cons.IH) (use Cons.prems in auto)
  then show ?case using Cons.prems(1) [of x m f] by auto
qed simp

text \<open>Every model that an enabled allowlist shows in a listing is one it lets requests use.\<close>

theorem listed_models_allowed:
  assumes "al_Enabled a" "model \<in> set (FilterForListing a source)"
  shows "Allows a model"
proof -
  define patterns where "patterns = filter (\<lambda>p. p \<noteq> []) (map trim_space source)"
  have trimmed: "trim_space p = p" if "p \<in> set patterns" for p using that by (auto simp: patterns_def)
  have entry: "m \<in> set f \<or> Allows a m" if e: "e \<in> set (al_Models a)" and m: "m \<in> set (listEntry patterns f e)" for e m f
  proof -
    have self: "Allows a (trim_space e)" if "trim_space e \<noteq> []"
      using allowed_by_entry [OF e that, of "trim_space e"] glob_refl by simp
    have add: "m = x \<or> m \<in> set f'" if "m \<in> set (addListed f' x)" for m x f'
      using that by (auto simp: addListed_def split: if_splits)
    have pattern: "m \<in> set f' \<or> Allows a m"
      if p: "p \<in> set patterns" and ne: "trim_space e \<noteq> []" and m': "m \<in> set (listPattern (trim_space e) f' p)" for p m f'
    proof (cases "groupAllowlistPatternMatches (trim_space e) p")
      case True
      then have "Allows a p" using allowed_by_entry [OF e ne, of p] trimmed [OF p] by (simp add: matches_glob)
      then show ?thesis using True m' add by (auto simp: listPattern_def)
    next
      case False
      then show ?thesis using m' add self [OF ne] by (auto simp: listPattern_def split: if_splits)
    qed
    show ?thesis
    proof (cases "trim_space e = []")
      case False
      show ?thesis
      proof (cases "str_contains (trim_space e) ''*''")
        case True
        then have "m \<in> set (foldl (listPattern (trim_space e)) f patterns)" using m False by (simp add: listEntry_def Let_def)
        then show ?thesis using pattern [OF _ False] by (rule foldl_listed [rotated])
      next
        case no_star: False
        then show ?thesis using m add self [OF False] False by (auto simp: listEntry_def Let_def split: if_splits)
      qed
    qed (use m in \<open>simp add: listEntry_def\<close>)
  qed
  have "model \<in> set (foldl (listEntry patterns) [] (al_Models a))"
    using assms by (auto simp: FilterForListing_def Let_def patterns_def split: if_splits)
  then have "model \<in> set [] \<or> Allows a model" using entry by (rule foldl_listed [rotated])
  then show ?thesis by simp
qed

theorem listed_models_allowed_witness:
  "Allows \<lparr>al_Enabled = True, al_Models = [''GPT-5*mini'', ''claude-opus-4-5'']\<rparr> ''gpt-5.4-mini''"
proof -
  let ?a = "\<lparr>al_Enabled = True, al_Models = [''GPT-5*mini'', ''claude-opus-4-5'']\<rparr>"
  have "FilterForListing ?a [''gpt-5.4-mini'', ''gpt-5.4'', ''claude-opus-4-5-20251101'']
      = [''gpt-5.4-mini'', ''claude-opus-4-5'']" by code_simp
  then show ?thesis
    by (intro listed_models_allowed [of ?a _ "[''gpt-5.4-mini'', ''gpt-5.4'', ''claude-opus-4-5-20251101'']"]) simp_all
qed

text \<open>The converse fails: an entry is admitted but not listed when only its letter case keeps the table of
Claude's short names, or a reasoning suffix, from finding the listed name.\<close>

lemma admitted_not_listed:
  "Allows \<lparr>al_Enabled = True, al_Models = [''Claude-Opus-4-5'']\<rparr> ''claude-opus-4-5''
   \<and> FilterForListing \<lparr>al_Enabled = True, al_Models = [''Claude-Opus-4-5'']\<rparr> [''claude-opus-4-5-20251101''] = []
   \<and> FilterForListing \<lparr>al_Enabled = True, al_Models = [''claude-opus-4-5'']\<rparr> [''claude-opus-4-5-20251101''] = [''claude-opus-4-5'']
   \<and> Allows \<lparr>al_Enabled = True, al_Models = [''gpt-5.4'']\<rparr> ''gpt-5.4-high''"
  by code_simp

end
