(* ===== verification/AccountQuota.thy ===== *)
theory AccountQuota
  imports SubscriptionWindows
begin

text \<open>
  The quotas of an account of the pool: the fields under \<open>extra\<close> as \<open>service/account.go\<close> reads them,
  and the SQL that increments them in \<open>repository/account_repo.go\<close> and \<open>usage_billing_repo.go\<close>.

  \<^item> A daily or weekly quota rolls (its period starts with the first use after the last one ended) or
    is fixed (it resets at an hour, of a weekday, in a time zone). The Go code decides by the start of
    the period whether it is over, the SQL by the time of the next reset that it stored.
  \<^item> The JSON object is a record whose fields may be absent; values of a wrong JSON type are not
    modelled. Amounts are whole numbers of 1e-8. Time zone names are looked up by a parameter; a
    statement that uses an unknown one fails.
\<close>

section \<open>The fields\<close>

record quotaPeriod =
  qp_Used :: "int option"
  qp_Limit :: "int option"
  qp_Start :: "time option"
  qp_ResetMode :: "string option"
  qp_ResetAt :: "time option"
  qp_ResetHour :: "int option"
  qp_ResetDay :: "int option"

record quotaExtra =
  qe_Used :: "int option"
  qe_Limit :: "int option"
  qe_Daily :: quotaPeriod
  qe_Weekly :: quotaPeriod
  qe_Timezone :: "string option"

type_synonym zones = "string \<Rightarrow> zone option"

definition coalesce :: "'a option \<Rightarrow> 'a \<Rightarrow> 'a" where
  "coalesce x y = (case x of Some v \<Rightarrow> v | None \<Rightarrow> y)"

definition utcZone :: zone where "utcZone = (\<lambda>_. 0)"

definition fixedMode :: string where "fixedMode = ''fixed''"
definition rollingMode :: string where "rollingMode = ''rolling''"

lemma coalesce_simps [simp]: "coalesce (Some v) y = v" "coalesce None y = y"
  by (simp_all add: coalesce_def)

section \<open>The view of the Go code\<close>

definition GetQuotaResetMode :: "quotaPeriod \<Rightarrow> string" where
  "GetQuotaResetMode p = (if coalesce (qp_ResetMode p) [] = fixedMode then fixedMode else rollingMode)"

definition GetQuotaResetHour :: "quotaPeriod \<Rightarrow> int" where
  "GetQuotaResetHour p = coalesce (qp_ResetHour p) 0"

definition GetQuotaWeeklyResetDay :: "quotaPeriod \<Rightarrow> int" where
  "GetQuotaWeeklyResetDay p = coalesce (qp_ResetDay p) 1"

definition GetQuotaResetTimezone :: "quotaExtra \<Rightarrow> string" where
  "GetQuotaResetTimezone e = (let tz = coalesce (qe_Timezone e) [] in if tz \<noteq> [] then tz else ''UTC'')"

text \<open>\<open>LoadLocation\<close>, with UTC for a name it does not know.\<close>

definition quotaZone :: "zones \<Rightarrow> quotaExtra \<Rightarrow> zone" where
  "quotaZone tzs e = coalesce (tzs (GetQuotaResetTimezone e)) utcZone"

text \<open>\<open>time.Date\<close> with the date of an instant and the given hour; \<open>Weekday\<close> (0 is Sunday, and 1970 began
on a Thursday).\<close>

definition dayAtHour :: "zone \<Rightarrow> time \<Rightarrow> int \<Rightarrow> time" where
  "dayAtHour z t h = dateIn z (wallClock z t div day * day + h * hour)"

definition weekday :: "zone \<Rightarrow> time \<Rightarrow> int" where
  "weekday z t = (wallClock z t div day + 4) mod 7"

definition nextFixedDailyReset :: "int \<Rightarrow> zone \<Rightarrow> time \<Rightarrow> time" where
  "nextFixedDailyReset h z t =
    (let today = dayAtHour z t h in if \<not> t < today then AddDays z today 1 else today)"

definition lastFixedDailyReset :: "int \<Rightarrow> zone \<Rightarrow> time \<Rightarrow> time" where
  "lastFixedDailyReset h z now =
    (let today = dayAtHour z now h in if now < today then AddDays z today (- 1) else today)"

definition nextFixedWeeklyReset :: "int \<Rightarrow> int \<Rightarrow> zone \<Rightarrow> time \<Rightarrow> time" where
  "nextFixedWeeklyReset d h z t =
    (let todayReset = dayAtHour z t h; daysForward = go_mod (d - weekday z todayReset + 7) 7
     in AddDays z todayReset (if daysForward = 0 \<and> \<not> t < todayReset then 7 else daysForward))"

definition lastFixedWeeklyReset :: "int \<Rightarrow> int \<Rightarrow> zone \<Rightarrow> time \<Rightarrow> time" where
  "lastFixedWeeklyReset d h z now =
    (let todayReset = dayAtHour z now h; daysBack = go_mod (weekday z todayReset - d + 7) 7
     in AddDays z todayReset (- (if daysBack = 0 \<and> now < todayReset then 7 else daysBack)))"

definition isPeriodExpired :: "time option \<Rightarrow> duration \<Rightarrow> time \<Rightarrow> bool" where
  "isPeriodExpired start dur now \<longleftrightarrow> (case start of None \<Rightarrow> True | Some s \<Rightarrow> dur \<le> t_sub now s)"

definition isFixedDailyPeriodExpired :: "zones \<Rightarrow> quotaExtra \<Rightarrow> time option \<Rightarrow> time \<Rightarrow> bool" where
  "isFixedDailyPeriodExpired tzs e start now \<longleftrightarrow>
    (case start of None \<Rightarrow> True
     | Some s \<Rightarrow> s < lastFixedDailyReset (GetQuotaResetHour (qe_Daily e)) (quotaZone tzs e) now)"

definition isFixedWeeklyPeriodExpired :: "zones \<Rightarrow> quotaExtra \<Rightarrow> time option \<Rightarrow> time \<Rightarrow> bool" where
  "isFixedWeeklyPeriodExpired tzs e start now \<longleftrightarrow>
    (case start of None \<Rightarrow> True
     | Some s \<Rightarrow> s < lastFixedWeeklyReset (GetQuotaWeeklyResetDay (qe_Weekly e))
                      (GetQuotaResetHour (qe_Weekly e)) (quotaZone tzs e) now)"

definition IsDailyQuotaPeriodExpired :: "zones \<Rightarrow> quotaExtra \<Rightarrow> time \<Rightarrow> bool" where
  "IsDailyQuotaPeriodExpired tzs e now =
    (let start = qp_Start (qe_Daily e)
     in if GetQuotaResetMode (qe_Daily e) = fixedMode then isFixedDailyPeriodExpired tzs e start now
        else isPeriodExpired start (24 * hour) now)"

definition IsWeeklyQuotaPeriodExpired :: "zones \<Rightarrow> quotaExtra \<Rightarrow> time \<Rightarrow> bool" where
  "IsWeeklyQuotaPeriodExpired tzs e now =
    (let start = qp_Start (qe_Weekly e)
     in if GetQuotaResetMode (qe_Weekly e) = fixedMode then isFixedWeeklyPeriodExpired tzs e start now
        else isPeriodExpired start (7 * 24 * hour) now)"

definition HasAnyQuotaLimit :: "quotaExtra \<Rightarrow> bool" where
  "HasAnyQuotaLimit e \<longleftrightarrow> 0 < coalesce (qe_Limit e) 0 \<or> 0 < coalesce (qp_Limit (qe_Daily e)) 0
     \<or> 0 < coalesce (qp_Limit (qe_Weekly e)) 0"

definition IsQuotaExceeded :: "zones \<Rightarrow> quotaExtra \<Rightarrow> time \<Rightarrow> bool" where
  "IsQuotaExceeded tzs e now =
    (if 0 < coalesce (qe_Limit e) 0 \<and> coalesce (qe_Limit e) 0 \<le> coalesce (qe_Used e) 0 then True
     else if 0 < coalesce (qp_Limit (qe_Daily e)) 0 \<and> \<not> IsDailyQuotaPeriodExpired tzs e now
       \<and> coalesce (qp_Limit (qe_Daily e)) 0 \<le> coalesce (qp_Used (qe_Daily e)) 0 then True
     else 0 < coalesce (qp_Limit (qe_Weekly e)) 0 \<and> \<not> IsWeeklyQuotaPeriodExpired tzs e now
       \<and> coalesce (qp_Limit (qe_Weekly e)) 0 \<le> coalesce (qp_Used (qe_Weekly e)) 0)"

section \<open>Saving a configuration\<close>

definition clampHour :: "int \<Rightarrow> int" where "clampHour h = (if h < 0 \<or> 23 < h then 0 else h)"
definition clampDay :: "int \<Rightarrow> int" where "clampDay d = (if d < 0 \<or> 6 < d then 1 else d)"

definition ComputeQuotaResetAt :: "zones \<Rightarrow> time \<Rightarrow> quotaExtra \<Rightarrow> quotaExtra" where
  "ComputeQuotaResetAt tzs now e =
    (let z = quotaZone tzs e; dp = qe_Daily e; wp = qe_Weekly e
     in e\<lparr>qe_Daily := dp\<lparr>qp_ResetAt :=
             (if coalesce (qp_ResetMode dp) [] = fixedMode
              then Some (nextFixedDailyReset (clampHour (GetQuotaResetHour dp)) z now) else None)\<rparr>,
          qe_Weekly := wp\<lparr>qp_ResetAt :=
             (if coalesce (qp_ResetMode wp) [] = fixedMode
              then Some (nextFixedWeeklyReset (clampDay (GetQuotaWeeklyResetDay wp))
                          (clampHour (GetQuotaResetHour wp)) z now) else None)\<rparr>\<rparr>)"

definition normalizeStart :: "time \<Rightarrow> quotaPeriod \<Rightarrow> quotaPeriod" where
  "normalizeStart lastReset p =
    (if (case qp_Start p of None \<Rightarrow> True | Some s \<Rightarrow> s < lastReset)
     then p\<lparr>qp_Used := Some 0, qp_Start := Some lastReset\<rparr> else p)"

definition NormalizeFixedQuotaWindows :: "zones \<Rightarrow> time \<Rightarrow> quotaExtra \<Rightarrow> quotaExtra" where
  "NormalizeFixedQuotaWindows tzs now e =
    (let z = quotaZone tzs e; dp = qe_Daily e; wp = qe_Weekly e
     in e\<lparr>qe_Daily :=
            (if coalesce (qp_ResetMode dp) [] = fixedMode \<and> 0 < coalesce (qp_Limit dp) 0
             then normalizeStart (lastFixedDailyReset (clampHour (GetQuotaResetHour dp)) z now) dp else dp),
          qe_Weekly :=
            (if coalesce (qp_ResetMode wp) [] = fixedMode \<and> 0 < coalesce (qp_Limit wp) 0
             then normalizeStart (lastFixedWeeklyReset (clampDay (GetQuotaWeeklyResetDay wp))
                                    (clampHour (GetQuotaResetHour wp)) z now) wp else wp)\<rparr>)"

definition validMode :: "string option \<Rightarrow> bool" where
  "validMode m \<longleftrightarrow> (case m of None \<Rightarrow> True | Some s \<Rightarrow> s = rollingMode \<or> s = fixedMode)"

definition validHour :: "int option \<Rightarrow> bool" where
  "validHour h \<longleftrightarrow> (case h of None \<Rightarrow> True | Some n \<Rightarrow> \<not> (n < 0 \<or> 23 < n))"

definition ValidateQuotaResetConfig :: "zones \<Rightarrow> quotaExtra \<Rightarrow> string option" where
  "ValidateQuotaResetConfig tzs e =
    (let tz = coalesce (qe_Timezone e) []; dp = qe_Daily e; wp = qe_Weekly e
     in if tz \<noteq> [] \<and> tzs tz = None then Some ''invalid quota_reset_timezone: must be a valid IANA timezone name''
        else if \<not> validMode (qp_ResetMode dp) then Some (''quota_daily_reset_mode must be 'rolling' or 'fixed'' @ [CHR 39])
        else if \<not> validHour (qp_ResetHour dp) then Some ''quota_daily_reset_hour must be between 0 and 23''
        else if \<not> validMode (qp_ResetMode wp) then Some (''quota_weekly_reset_mode must be 'rolling' or 'fixed'' @ [CHR 39])
        else if (case qp_ResetDay wp of None \<Rightarrow> False | Some n \<Rightarrow> n < 0 \<or> 6 < n)
        then Some ''quota_weekly_reset_day must be between 0 (Sunday) and 6 (Saturday)''
        else if \<not> validHour (qp_ResetHour wp) then Some ''quota_weekly_reset_hour must be between 0 and 23''
        else None)"

section \<open>The SQL of an increment\<close>

definition sqlFixed :: "quotaPeriod \<Rightarrow> bool" where
  "sqlFixed p \<longleftrightarrow> coalesce (qp_ResetMode p) rollingMode = fixedMode"

definition dailyExpiredExpr :: "time \<Rightarrow> quotaPeriod \<Rightarrow> bool" where
  "dailyExpiredExpr now p =
    (if sqlFixed p then coalesce (qp_ResetAt p) 0 \<le> now else coalesce (qp_Start p) 0 + 24 * hour \<le> now)"

definition weeklyExpiredExpr :: "time \<Rightarrow> quotaPeriod \<Rightarrow> bool" where
  "weeklyExpiredExpr now p =
    (if sqlFixed p then coalesce (qp_ResetAt p) 0 \<le> now else coalesce (qp_Start p) 0 + 168 * hour \<le> now)"

text \<open>\<open>date_trunc('day', NOW() AT TIME ZONE tz)\<close> plus hours, as a wall clock.\<close>

definition todayWall :: "zone \<Rightarrow> time \<Rightarrow> int \<Rightarrow> time" where
  "todayWall z now h = wallClock z now div day * day + h * hour"

definition nextDailyResetAtExpr :: "zone \<Rightarrow> time \<Rightarrow> quotaPeriod \<Rightarrow> time" where
  "nextDailyResetAtExpr z now p =
    (let w = todayWall z now (coalesce (qp_ResetHour p) 0)
     in if dateIn z w \<le> now then dateIn z (w + day) else dateIn z w)"

definition nextWeeklyResetAtExpr :: "zone \<Rightarrow> time \<Rightarrow> quotaPeriod \<Rightarrow> time" where
  "nextWeeklyResetAtExpr z now p =
    (let w = todayWall z now (coalesce (qp_ResetHour p) 0);
         forward = go_mod (coalesce (qp_ResetDay p) 1 - weekday z now + 7) 7
     in if forward = 0 \<and> dateIn z w \<le> now then dateIn z (w + 7 * day) else dateIn z (w + forward * day))"

text \<open>What an increment does to a period; \<open>next\<close> is the new \<open>reset_at\<close>, NULL when the quota rolls.\<close>

definition bumpPeriod :: "bool \<Rightarrow> time option \<Rightarrow> time \<Rightarrow> int \<Rightarrow> quotaPeriod \<Rightarrow> quotaPeriod" where
  "bumpPeriod expired next now amount p =
    (if 0 < coalesce (qp_Limit p) 0
     then p\<lparr>qp_Used := Some (if expired then amount else coalesce (qp_Used p) 0 + amount),
            qp_Start := Some (if expired then now else coalesce (qp_Start p) now),
            qp_ResetAt := (if expired \<and> next \<noteq> None then next else qp_ResetAt p)\<rparr>
     else p)"

text \<open>A reset time is computed only in a fixed period that is over; the zone is needed only then.\<close>

definition needsZone :: "bool \<Rightarrow> quotaPeriod \<Rightarrow> bool" where
  "needsZone expired p \<longleftrightarrow> 0 < coalesce (qp_Limit p) 0 \<and> expired \<and> sqlFixed p"

definition incrementQuotaSQL :: "zones \<Rightarrow> time \<Rightarrow> int \<Rightarrow> quotaExtra \<Rightarrow> quotaExtra option" where
  "incrementQuotaSQL tzs now amount e =
    (let dp = qe_Daily e; wp = qe_Weekly e;
         dx = dailyExpiredExpr now dp; wx = weeklyExpiredExpr now wp;
         zone = tzs (coalesce (qe_Timezone e) ''UTC'')
     in if (needsZone dx dp \<or> needsZone wx wp) \<and> zone = None then None
        else (let z = coalesce zone utcZone
              in Some (e\<lparr>qe_Used := Some (coalesce (qe_Used e) 0 + amount),
                   qe_Daily := bumpPeriod dx (if sqlFixed dp then Some (nextDailyResetAtExpr z now dp) else None) now amount dp,
                   qe_Weekly := bumpPeriod wx (if sqlFixed wp then Some (nextWeeklyResetAtExpr z now wp) else None) now amount wp\<rparr>)))"

text \<open>The columns an increment returns, and the dimensions it took from below their limit to it.\<close>

record quotaState =
  qs_TotalUsed :: int
  qs_TotalLimit :: int
  qs_DailyUsed :: int
  qs_DailyLimit :: int
  qs_WeeklyUsed :: int
  qs_WeeklyLimit :: int

definition quotaStateOf :: "quotaExtra \<Rightarrow> quotaState" where
  "quotaStateOf e = \<lparr>qs_TotalUsed = coalesce (qe_Used e) 0, qs_TotalLimit = coalesce (qe_Limit e) 0,
     qs_DailyUsed = coalesce (qp_Used (qe_Daily e)) 0, qs_DailyLimit = coalesce (qp_Limit (qe_Daily e)) 0,
     qs_WeeklyUsed = coalesce (qp_Used (qe_Weekly e)) 0, qs_WeeklyLimit = coalesce (qp_Limit (qe_Weekly e)) 0\<rparr>"

definition crossed :: "int \<Rightarrow> int \<Rightarrow> int \<Rightarrow> bool" where
  "crossed limit used amount \<longleftrightarrow> 0 < limit \<and> limit \<le> used \<and> used - amount < limit"

definition quotaCrossed :: "quotaState \<Rightarrow> int \<Rightarrow> bool" where
  "quotaCrossed s amount \<longleftrightarrow> crossed (qs_TotalLimit s) (qs_TotalUsed s) amount
     \<or> crossed (qs_DailyLimit s) (qs_DailyUsed s) amount \<or> crossed (qs_WeeklyLimit s) (qs_WeeklyUsed s) amount"

text \<open>\<open>IncrementQuotaUsed\<close> of \<open>account_repo.go\<close>: it runs the same statement, but looks at the total only.\<close>

definition legacyCrossed :: "quotaState \<Rightarrow> int \<Rightarrow> bool" where
  "legacyCrossed s amount \<longleftrightarrow> crossed (qs_TotalLimit s) (qs_TotalUsed s) amount"

definition resetQuotaSQL :: "quotaExtra \<Rightarrow> quotaExtra" where
  "resetQuotaSQL e =
     e\<lparr>qe_Used := Some 0,
       qe_Daily := (qe_Daily e)\<lparr>qp_Used := Some 0, qp_Start := None, qp_ResetAt := None\<rparr>,
       qe_Weekly := (qe_Weekly e)\<lparr>qp_Used := Some 0, qp_Start := None, qp_ResetAt := None\<rparr>\<rparr>"

end
