(* ===== verification/AccountQuotaFacts.thy ===== *)
theory AccountQuotaFacts
  imports AccountQuota
begin

text \<open>
  The two views of an account's quota periods agree, and the scheduler is told when a quota is used up.

  \<^item> The reset points of a fixed quota are the instants congruent to one of them modulo a day or a week
    (\<open>point\<close>); the code's case analyses yield the last one and the next one.
  \<^item> Zones have a fixed offset here.
\<close>

section \<open>Periodic points\<close>

definition point :: "int \<Rightarrow> int \<Rightarrow> int \<Rightarrow> int" where
  "point w c t = (t - c) div w * w + c"

lemma point_le: assumes "0 < w" shows "point w c t \<le> t"
  using minus_mod_eq_div_mult [of "t - c" w] pos_mod_sign [OF assms, of "t - c"] unfolding point_def by linarith

lemma point_next: assumes "0 < w" shows "t < point w c t + w"
  using minus_mod_eq_div_mult [of "t - c" w] pos_mod_bound [OF assms, of "t - c"] unfolding point_def by linarith

lemma point_unique:
  assumes "0 < w" and "p = k * w + c" and "p \<le> t" and "t < p + w"
  shows "p = point w c t"
proof -
  have "(t - c) div w = k"
    using assms by (intro int_div_pos_eq [of _ _ _ "t - p"]) simp_all
  then show ?thesis by (simp add: point_def assms(2))
qed

lemma point_mono: "0 < w \<Longrightarrow> s \<le> t \<Longrightarrow> point w c s \<le> point w c t"
  by (simp add: point_def zdiv_mono1 mult_right_mono)

lemma point_less:
  assumes w: "0 < w"
  shows "s < point w c t \<longleftrightarrow> point w c s + w \<le> t"
proof
  assume "s < point w c t"
  then have "point w c s < point w c t" using point_le [OF w, of c s] by linarith
  then have "(s - c) div w < (t - c) div w" using w by (simp add: point_def)
  then have "((s - c) div w + 1) * w \<le> (t - c) div w * w" using w by (intro mult_right_mono) simp_all
  then show "point w c s + w \<le> t" using point_le [OF w, of c t] by (simp add: point_def distrib_right)
next
  assume le: "point w c s + w \<le> t"
  have "point w c (point w c s + w) = point w c s + w"
    using w by (simp add: point_def distrib_right)
  then have "point w c s + w \<le> point w c t"
    using point_mono [OF w le, of c] by simp
  then show "s < point w c t" using point_next [OF w, of s c] by linarith
qed

section \<open>The reset points of a fixed quota\<close>

abbreviation (input) "dailyPoint h z \<equiv> point day (h * hour - z 0)"
abbreviation (input) "weeklyPoint d h z \<equiv> point (7 * day) ((d - 4) * day + h * hour - z 0)"

lemma hours_in_day: "0 \<le> h \<Longrightarrow> h < 24 \<Longrightarrow> 0 \<le> h * hour \<and> h * hour < day"
  by (simp add: day_def hour_def minute_def second_def)

lemma dayAtHour_fixed: "fixed_zone z \<Longrightarrow> dayAtHour z t h = (t + z 0) div day * day + h * hour - z 0"
  using fixed_zoneD [of z t] by (simp add: dayAtHour_def dateIn_fixed wallClock_def)

lemma dayAtHour_near:
  assumes "fixed_zone z" and "0 \<le> h" and "h < 24"
  shows "t < dayAtHour z t h + day" and "dayAtHour z t h \<le> t + day"
  using assms hours_in_day [of h] StartOfDay_le [of z t] StartOfDay_next [of z t]
  by (simp_all add: dayAtHour_fixed StartOfDay_fixed)

lemma lastFixedDailyReset_point:
  assumes "fixed_zone z" and "0 \<le> h" and "h < 24"
  shows "lastFixedDailyReset h z t = dailyPoint h z t"
proof -
  have p: "lastFixedDailyReset h z t
      = ((t + z 0) div day - (if t < dayAtHour z t h then 1 else 0)) * day + (h * hour - z 0)"
    using assms(1) by (simp add: lastFixedDailyReset_def Let_def AddDays_fixed dayAtHour_fixed algebra_simps)
  show ?thesis
    by (rule point_unique [OF day_pos p])
      (use dayAtHour_near [OF assms, of t] assms(1) in \<open>simp_all add: lastFixedDailyReset_def Let_def AddDays_fixed\<close>)
qed

lemma nextFixedDailyReset_point:
  assumes "fixed_zone z" and "0 \<le> h" and "h < 24"
  shows "nextFixedDailyReset h z t = dailyPoint h z t + day"
  using assms lastFixedDailyReset_point [OF assms, of t]
  by (auto simp: lastFixedDailyReset_def nextFixedDailyReset_def Let_def AddDays_fixed split: if_splits)

lemma weekday_fixed: "fixed_zone z \<Longrightarrow> weekday z t = ((t + z 0) div day + 4) mod 7"
  using fixed_zoneD [of z t] by (simp add: weekday_def wallClock_def)

lemma weekday_dayAtHour:
  assumes "fixed_zone z" and "0 \<le> h" and "h < 24"
  shows "weekday z (dayAtHour z t h) = weekday z t"
proof -
  have "((t + z 0) div day * day + h * hour) div day = (t + z 0) div day"
    using hours_in_day [OF assms(2,3)] day_pos by (simp add: div_pos_pos_trivial)
  then show ?thesis
    by (simp add: weekday_fixed [OF assms(1)] dayAtHour_fixed [OF assms(1)])
qed

text \<open>How many days the last and the next day \<open>d\<close> of the week are away.\<close>

lemma go_mod_week: "0 \<le> a \<Longrightarrow> b < 7 \<Longrightarrow> go_mod (a - b + 7) 7 = (a - b) mod 7"
  by (simp add: go_mod_nonneg)

lemma days_back:
  assumes "fixed_zone z" and "0 \<le> d" and "d < 7"
  shows "go_mod (weekday z t - d + 7) 7 = ((t + z 0) div day + 4 - d) mod 7"
  using assms by (simp add: weekday_fixed go_mod_week mod_diff_left_eq)

lemma days_forward:
  assumes "fixed_zone z" and "0 \<le> d" and "d < 7"
  shows "go_mod (d - weekday z t + 7) 7 = (- ((t + z 0) div day + 4 - d)) mod 7"
  using assms by (simp add: weekday_fixed go_mod_week mod_diff_right_eq)

lemma back_window:
  assumes "0 \<le> m" and "m < 7" and "t < T + w" and "T \<le> t + w" and w: "0 < (w :: int)"
  shows "T - (if m = 0 \<and> t < T then 7 else m) * w \<le> t"
    and "t < T - (if m = 0 \<and> t < T then 7 else m) * w + 7 * w"
proof -
  let ?b = "if m = 0 \<and> t < T then 7 else m"
  have up: "m * w \<le> 6 * w" and down: "m \<noteq> 0 \<Longrightarrow> 1 * w \<le> m * w"
    using assms by (auto intro: mult_right_mono)
  have "T - ?b * w \<le> t \<and> t < T - ?b * w + 7 * w"
  proof (cases "m = 0")
    case True
    then show ?thesis using assms by auto
  next
    case False
    then have b: "?b = m" by simp
    show ?thesis unfolding b using up down [OF False] assms(3,4) by linarith
  qed
  then show "T - ?b * w \<le> t" and "t < T - ?b * w + 7 * w" by blast+
qed

lemma lastFixedWeeklyReset_point:
  assumes z: "fixed_zone z" and h: "0 \<le> h" "h < 24" and d: "0 \<le> d" "d < 7"
  shows "lastFixedWeeklyReset d h z t = weeklyPoint d h z t"
proof -
  let ?n = "(t + z 0) div day + 4 - d" and ?T = "dayAtHour z t h"
  let ?b = "if ?n mod 7 = 0 \<and> t < ?T then 7 else ?n mod 7"
  have "go_mod (weekday z ?T - d + 7) 7 = ?n mod 7"
    by (simp only: weekday_dayAtHour [OF z h] days_back [OF z d])
  then have last: "lastFixedWeeklyReset d h z t = ?T - ?b * day"
    using z by (simp add: lastFixedWeeklyReset_def Let_def AddDays_fixed)
  have "?n - ?b = 7 * (?n div 7 - (if ?n mod 7 = 0 \<and> t < ?T then 1 else 0))"
    using minus_mod_eq_mult_div [of ?n 7] by simp
  then have "(?n - ?b) * day = (?n div 7 - (if ?n mod 7 = 0 \<and> t < ?T then 1 else 0)) * (7 * day)"
    by simp
  then have p: "lastFixedWeeklyReset d h z t
      = (?n div 7 - (if ?n mod 7 = 0 \<and> t < ?T then 1 else 0)) * (7 * day) + ((d - 4) * day + h * hour - z 0)"
    unfolding last dayAtHour_fixed [OF z] by (simp add: algebra_simps)
  have near: "?T - ?b * day \<le> t" "t < ?T - ?b * day + 7 * day"
    using back_window [OF _ _ dayAtHour_near [OF z h] day_pos, of "?n mod 7" t] by simp_all
  show ?thesis
    by (rule point_unique [OF _ p]) (unfold last, use near day_pos in simp_all)
qed

lemma week_complement:
  "(if - n mod 7 = 0 \<and> \<not> b then 7 else - n mod (7 :: int)) = 7 - (if n mod 7 = 0 \<and> b then 7 else n mod 7)"
  using pos_mod_bound [of 7 n] by (simp add: zmod_zminus1_eq_if del: pos_mod_bound)

lemma nextFixedWeeklyReset_point:
  assumes z: "fixed_zone z" and h: "0 \<le> h" "h < 24" and d: "0 \<le> d" "d < 7"
  shows "nextFixedWeeklyReset d h z t = weeklyPoint d h z t + 7 * day"
proof -
  let ?n = "(t + z 0) div day + 4 - d" and ?T = "dayAtHour z t h"
  let ?b = "if ?n mod 7 = 0 \<and> t < ?T then 7 else ?n mod 7"
  have before: "go_mod (weekday z ?T - d + 7) 7 = ?n mod 7" and ahead: "go_mod (d - weekday z ?T + 7) 7 = - ?n mod 7"
    by (simp_all only: weekday_dayAtHour [OF z h] days_back [OF z d] days_forward [OF z d])
  have "nextFixedWeeklyReset d h z t = ?T + (7 - ?b) * day"
    unfolding nextFixedWeeklyReset_def Let_def ahead AddDays_fixed [OF z] week_complement [of ?n "t < ?T"] ..
  moreover have "lastFixedWeeklyReset d h z t = ?T - ?b * day"
    unfolding lastFixedWeeklyReset_def Let_def before AddDays_fixed [OF z] by simp
  ultimately have "nextFixedWeeklyReset d h z t = lastFixedWeeklyReset d h z t + 7 * day"
    by (simp only: left_diff_distrib)
  then show ?thesis by (simp only: lastFixedWeeklyReset_point [OF assms])
qed

lemma point_between:
  assumes w: "0 < w" and "point w c t \<le> s" and "s \<le> t"
  shows "point w c s = point w c t"
proof -
  have "point w c (point w c t) = point w c t" using w by (simp add: point_def)
  then show ?thesis using point_mono [OF w assms(2), of c] point_mono [OF w assms(3), of c] by linarith
qed

section \<open>Periods aligned with their reset times\<close>

text \<open>The configuration of an account, the part that an increment leaves alone, and what a saved one fulfils.\<close>

definition dailyNext :: "zones \<Rightarrow> quotaExtra \<Rightarrow> time \<Rightarrow> time" where
  "dailyNext tzs e = nextFixedDailyReset (GetQuotaResetHour (qe_Daily e)) (quotaZone tzs e)"

definition weeklyNext :: "zones \<Rightarrow> quotaExtra \<Rightarrow> time \<Rightarrow> time" where
  "weeklyNext tzs e = nextFixedWeeklyReset (GetQuotaWeeklyResetDay (qe_Weekly e)) (GetQuotaResetHour (qe_Weekly e)) (quotaZone tzs e)"

definition quotaConfig :: "zones \<Rightarrow> quotaExtra \<Rightarrow> bool" where
  "quotaConfig tzs e \<longleftrightarrow>
     0 \<le> GetQuotaResetHour (qe_Daily e) \<and> GetQuotaResetHour (qe_Daily e) < 24
   \<and> 0 \<le> GetQuotaResetHour (qe_Weekly e) \<and> GetQuotaResetHour (qe_Weekly e) < 24
   \<and> 0 \<le> GetQuotaWeeklyResetDay (qe_Weekly e) \<and> GetQuotaWeeklyResetDay (qe_Weekly e) < 7
   \<and> fixed_zone (quotaZone tzs e)
   \<and> tzs (coalesce (qe_Timezone e) ''UTC'') \<in> {None, Some (quotaZone tzs e)}"

text \<open>A fixed period with a limit has started, and its stored reset is the first one after its start.\<close>

definition periodAligned :: "(time \<Rightarrow> time) \<Rightarrow> time \<Rightarrow> quotaPeriod \<Rightarrow> bool" where
  "periodAligned next t p \<longleftrightarrow> coalesce (qp_Limit p) 0 \<le> 0 \<or>
     (case qp_Start p of
        None \<Rightarrow> \<not> sqlFixed p
      | Some s \<Rightarrow> s \<le> t \<and> qp_ResetAt p \<in> (if sqlFixed p then {Some (next s)} else UNIV))"

definition quotaAligned :: "zones \<Rightarrow> time \<Rightarrow> quotaExtra \<Rightarrow> bool" where
  "quotaAligned tzs t e \<longleftrightarrow>
     periodAligned (dailyNext tzs e) t (qe_Daily e) \<and> periodAligned (weeklyNext tzs e) t (qe_Weekly e)"

fun incrementsSQL :: "zones \<Rightarrow> (time \<times> int) list \<Rightarrow> quotaExtra \<Rightarrow> quotaExtra option" where
  "incrementsSQL tzs [] e = Some e"
| "incrementsSQL tzs ((now, amount) # us) e =
    (case incrementQuotaSQL tzs now amount e of None \<Rightarrow> None | Some e1 \<Rightarrow> incrementsSQL tzs us e1)"

lemma fixedMode_iff: "GetQuotaResetMode p = fixedMode \<longleftrightarrow> sqlFixed p"
  by (simp add: GetQuotaResetMode_def sqlFixed_def fixedMode_def rollingMode_def coalesce_def split: option.splits)

lemma nextDaily_SQL:
  "fixed_zone z \<Longrightarrow> nextDailyResetAtExpr z now p = nextFixedDailyReset (GetQuotaResetHour p) z now"
  by (simp add: nextDailyResetAtExpr_def nextFixedDailyReset_def todayWall_def dayAtHour_def AddDays_fixed
      dateIn_fixed GetQuotaResetHour_def Let_def not_less)

lemma nextWeekly_SQL:
  assumes "fixed_zone z" and "0 \<le> GetQuotaResetHour p" and "GetQuotaResetHour p < 24"
  shows "nextWeeklyResetAtExpr z now p
    = nextFixedWeeklyReset (GetQuotaWeeklyResetDay p) (GetQuotaResetHour p) z now"
  using assms weekday_dayAtHour [OF assms, of now]
  by (simp add: nextWeeklyResetAtExpr_def nextFixedWeeklyReset_def todayWall_def dayAtHour_def AddDays_fixed
      dateIn_fixed GetQuotaResetHour_def GetQuotaWeeklyResetDay_def Let_def not_less)

lemma bumpPeriod_config [simp]:
  "qp_Limit (bumpPeriod x n now a p) = qp_Limit p"
  "qp_ResetMode (bumpPeriod x n now a p) = qp_ResetMode p"
  "qp_ResetHour (bumpPeriod x n now a p) = qp_ResetHour p"
  "qp_ResetDay (bumpPeriod x n now a p) = qp_ResetDay p"
  by (simp_all add: bumpPeriod_def)

lemma bumpPeriod_aligned:
  assumes "periodAligned next t p" and "t \<le> now"
    and "0 < coalesce (qp_Limit p) 0 \<Longrightarrow> x \<Longrightarrow> n = (if sqlFixed p then Some (next now) else None)"
  shows "periodAligned next now (bumpPeriod x n now a p)"
  using assms by (auto simp: periodAligned_def bumpPeriod_def sqlFixed_def split: option.splits if_splits)

lemma incrementQuotaSQL_fields:
  assumes "incrementQuotaSQL tzs now a e = Some e1"
  shows "qe_Timezone e1 = qe_Timezone e" and "qe_Limit e1 = qe_Limit e"
    and "qe_Used e1 = Some (coalesce (qe_Used e) 0 + a)"
    and "\<exists>n. qe_Daily e1 = bumpPeriod (dailyExpiredExpr now (qe_Daily e)) n now a (qe_Daily e)"
    and "\<exists>n. qe_Weekly e1 = bumpPeriod (weeklyExpiredExpr now (qe_Weekly e)) n now a (qe_Weekly e)"
  using assms by (auto simp: incrementQuotaSQL_def Let_def split: if_splits)

lemma increment_config:
  assumes "incrementQuotaSQL tzs now a e = Some e1"
  shows "quotaZone tzs e1 = quotaZone tzs e" and "dailyNext tzs e1 = dailyNext tzs e"
    and "weeklyNext tzs e1 = weeklyNext tzs e" and "quotaConfig tzs e1 = quotaConfig tzs e"
  using incrementQuotaSQL_fields [OF assms]
  by (auto simp: quotaZone_def GetQuotaResetTimezone_def dailyNext_def weeklyNext_def quotaConfig_def
      GetQuotaResetHour_def GetQuotaWeeklyResetDay_def)

lemma increment_aligned:
  assumes inc: "incrementQuotaSQL tzs now a e = Some e1" and cfg: "quotaConfig tzs e"
    and al: "quotaAligned tzs t e" and t: "t \<le> now"
  shows "quotaAligned tzs now e1"
proof -
  let ?dp = "qe_Daily e" and ?wp = "qe_Weekly e" and ?z = "coalesce (tzs (coalesce (qe_Timezone e) ''UTC'')) utcZone"
  let ?dx = "dailyExpiredExpr now ?dp" and ?wx = "weeklyExpiredExpr now ?wp"
  let ?dn = "if sqlFixed ?dp then Some (nextDailyResetAtExpr ?z now ?dp) else None"
  let ?wn = "if sqlFixed ?wp then Some (nextWeeklyResetAtExpr ?z now ?wp) else None"
  have e1: "qe_Daily e1 = bumpPeriod ?dx ?dn now a ?dp" "qe_Weekly e1 = bumpPeriod ?wx ?wn now a ?wp"
    and z: "needsZone ?dx ?dp \<or> needsZone ?wx ?wp \<Longrightarrow> ?z = quotaZone tzs e"
    using inc cfg by (auto simp: incrementQuotaSQL_def quotaConfig_def Let_def split: if_splits)
  have "periodAligned (dailyNext tzs e) now (qe_Daily e1)"
    unfolding e1
    by (rule bumpPeriod_aligned [OF _ t])
      (use al cfg z in \<open>auto simp: quotaAligned_def quotaConfig_def needsZone_def dailyNext_def nextDaily_SQL\<close>)
  moreover have "periodAligned (weeklyNext tzs e) now (qe_Weekly e1)"
    unfolding e1
    by (rule bumpPeriod_aligned [OF _ t])
      (use al cfg z in \<open>auto simp: quotaAligned_def quotaConfig_def needsZone_def weeklyNext_def nextWeekly_SQL\<close>)
  ultimately show ?thesis by (simp add: quotaAligned_def increment_config [OF inc])
qed

lemma increments_aligned:
  "incrementsSQL tzs us e = Some e1 \<Longrightarrow> quotaConfig tzs e \<Longrightarrow> quotaAligned tzs t e \<Longrightarrow> sorted (t # map fst us)
    \<Longrightarrow> quotaConfig tzs e1 \<and> quotaAligned tzs (last (t # map fst us)) e1"
proof (induction us arbitrary: e t)
  case (Cons u us)
  obtain now a where u: "u = (now, a)" by (cases u)
  obtain e' where e': "incrementQuotaSQL tzs now a e = Some e'" "incrementsSQL tzs us e' = Some e1"
    using Cons.prems(1) u by (auto split: option.splits)
  have "quotaConfig tzs e1 \<and> quotaAligned tzs (last (now # map fst us)) e1"
    using Cons.prems u e'(1) increment_config(4) [OF e'(1)]
    by (intro Cons.IH [OF e'(2)]) (auto intro: increment_aligned)
  then show ?case using u by simp
qed simp

text \<open>Under alignment both sides agree on whether a period is over.\<close>

lemma rolling_agree: "d \<le> max_duration \<Longrightarrow> 0 < d \<Longrightarrow> d \<le> t_sub t s \<longleftrightarrow> s + d \<le> t"
  using t_sub_less [of d t s] by (auto simp: min_duration_def not_less [symmetric])

lemma daily_views_agree:
  assumes "quotaConfig tzs e" and "quotaAligned tzs t0 e" and "t0 \<le> t" and "7 * day \<le> t"
    and "0 < coalesce (qp_Limit (qe_Daily e)) 0"
  shows "IsDailyQuotaPeriodExpired tzs e t \<longleftrightarrow> dailyExpiredExpr t (qe_Daily e)"
proof (cases "qp_Start (qe_Daily e)")
  case None
  then show ?thesis using assms
    by (simp add: IsDailyQuotaPeriodExpired_def dailyExpiredExpr_def fixedMode_iff quotaAligned_def
        periodAligned_def isPeriodExpired_def day_def hour_def minute_def second_def)
next
  case (Some s)
  have "24 * hour \<le> t_sub t s \<longleftrightarrow> s + 24 * hour \<le> t"
    by (rule rolling_agree) (simp_all add: duration_defs)
  then show ?thesis using assms Some
    by (cases "sqlFixed (qe_Daily e)")
      (simp_all add: IsDailyQuotaPeriodExpired_def dailyExpiredExpr_def fixedMode_iff quotaAligned_def quotaConfig_def
        periodAligned_def isPeriodExpired_def isFixedDailyPeriodExpired_def dailyNext_def
        lastFixedDailyReset_point nextFixedDailyReset_point point_less day_pos)
qed

lemma weekly_views_agree:
  assumes "quotaConfig tzs e" and "quotaAligned tzs t0 e" and "t0 \<le> t" and "7 * day \<le> t"
    and "0 < coalesce (qp_Limit (qe_Weekly e)) 0"
  shows "IsWeeklyQuotaPeriodExpired tzs e t \<longleftrightarrow> weeklyExpiredExpr t (qe_Weekly e)"
proof (cases "qp_Start (qe_Weekly e)")
  case None
  then show ?thesis using assms
    by (simp add: IsWeeklyQuotaPeriodExpired_def weeklyExpiredExpr_def fixedMode_iff quotaAligned_def
        periodAligned_def isPeriodExpired_def day_def)
next
  case (Some s)
  have "168 * hour \<le> t_sub t s \<longleftrightarrow> s + 168 * hour \<le> t"
    by (rule rolling_agree) (simp_all add: duration_defs)
  then show ?thesis using assms Some
    by (cases "sqlFixed (qe_Weekly e)")
      (simp_all add: IsWeeklyQuotaPeriodExpired_def weeklyExpiredExpr_def fixedMode_iff quotaAligned_def quotaConfig_def
        periodAligned_def isPeriodExpired_def isFixedWeeklyPeriodExpired_def weeklyNext_def
        lastFixedWeeklyReset_point nextFixedWeeklyReset_point point_less day_pos)
qed

section \<open>Saving a configuration\<close>

definition savedQuota :: "zones \<Rightarrow> time \<Rightarrow> quotaExtra \<Rightarrow> quotaExtra" where
  "savedQuota tzs now e = NormalizeFixedQuotaWindows tzs now (ComputeQuotaResetAt tzs now e)"

definition startedBy :: "time \<Rightarrow> quotaPeriod \<Rightarrow> bool" where
  "startedBy t p \<longleftrightarrow> (case qp_Start p of None \<Rightarrow> True | Some s \<Rightarrow> s \<le> t)"

lemma clamp_id [simp]: "0 \<le> h \<Longrightarrow> h < 24 \<Longrightarrow> clampHour h = h" "0 \<le> d \<Longrightarrow> d < 7 \<Longrightarrow> clampDay d = d"
  by (simp_all add: clampHour_def clampDay_def)

lemma savedMode: "coalesce (qp_ResetMode p) [] = fixedMode \<longleftrightarrow> sqlFixed p"
  by (simp add: sqlFixed_def fixedMode_def rollingMode_def coalesce_def split: option.splits)

lemma normalizeStart_config [simp]:
  "qp_Limit (normalizeStart l p) = qp_Limit p" "qp_ResetMode (normalizeStart l p) = qp_ResetMode p"
  "qp_ResetHour (normalizeStart l p) = qp_ResetHour p" "qp_ResetDay (normalizeStart l p) = qp_ResetDay p"
  "qp_ResetAt (normalizeStart l p) = qp_ResetAt p"
  by (simp_all add: normalizeStart_def)

lemma saved_fields:
  "qe_Timezone (savedQuota tzs now e) = qe_Timezone e"
  "qp_Limit (qe_Daily (savedQuota tzs now e)) = qp_Limit (qe_Daily e)"
  "qp_Limit (qe_Weekly (savedQuota tzs now e)) = qp_Limit (qe_Weekly e)"
  "qp_ResetMode (qe_Daily (savedQuota tzs now e)) = qp_ResetMode (qe_Daily e)"
  "qp_ResetMode (qe_Weekly (savedQuota tzs now e)) = qp_ResetMode (qe_Weekly e)"
  "qp_ResetHour (qe_Daily (savedQuota tzs now e)) = qp_ResetHour (qe_Daily e)"
  "qp_ResetHour (qe_Weekly (savedQuota tzs now e)) = qp_ResetHour (qe_Weekly e)"
  "qp_ResetDay (qe_Weekly (savedQuota tzs now e)) = qp_ResetDay (qe_Weekly e)"
  by (simp_all add: savedQuota_def NormalizeFixedQuotaWindows_def ComputeQuotaResetAt_def Let_def)

lemma saved_config:
  "quotaZone tzs (savedQuota tzs now e) = quotaZone tzs e" "dailyNext tzs (savedQuota tzs now e) = dailyNext tzs e"
  "weeklyNext tzs (savedQuota tzs now e) = weeklyNext tzs e" "quotaConfig tzs (savedQuota tzs now e) = quotaConfig tzs e"
  by (simp_all add: quotaZone_def GetQuotaResetTimezone_def dailyNext_def weeklyNext_def quotaConfig_def
      GetQuotaResetHour_def GetQuotaWeeklyResetDay_def saved_fields)

lemma normalizeStart_aligned:
  assumes w: "0 < w" and "\<And>t. next t = point w c t + w" and "startedBy now p" and "qp_ResetAt p = Some (next now)"
  shows "periodAligned next now (normalizeStart (point w c now) p)"
proof -
  let ?l = "point w c now" and ?p = "normalizeStart (point w c now) p"
  obtain s where s: "qp_Start ?p = Some s" "?l \<le> s" "s \<le> now"
  proof (cases "qp_Start p")
    case None
    then show ?thesis using that point_le [OF w, of c now] by (simp add: normalizeStart_def)
  next
    case (Some s0)
    then show ?thesis using that assms(3) point_le [OF w, of c now]
      by (cases "s0 < ?l") (simp_all add: normalizeStart_def startedBy_def)
  qed
  have "next s = next now" using point_between [OF w s(2,3)] by (simp add: assms(2))
  then show ?thesis using s(1,3) assms(4) by (simp add: periodAligned_def)
qed

lemma rolling_aligned: "\<not> sqlFixed p \<Longrightarrow> startedBy now p \<Longrightarrow> periodAligned next now p"
  by (auto simp: periodAligned_def startedBy_def split: option.splits)

lemma saved_aligned:
  assumes cfg: "quotaConfig tzs e" and st: "startedBy now (qe_Daily e)" "startedBy now (qe_Weekly e)"
  shows "quotaAligned tzs now (savedQuota tzs now e)"
proof -
  let ?e1 = "ComputeQuotaResetAt tzs now e" and ?e2 = "savedQuota tzs now e"
  let ?dp = "qe_Daily ?e1" and ?wp = "qe_Weekly ?e1" and ?z = "quotaZone tzs e"
  let ?h = "GetQuotaResetHour (qe_Daily e)" and ?k = "GetQuotaResetHour (qe_Weekly e)"
    and ?d = "GetQuotaWeeklyResetDay (qe_Weekly e)"
  have c: "fixed_zone ?z" "0 \<le> ?h" "?h < 24" "0 \<le> ?k" "?k < 24" "0 \<le> ?d" "?d < 7"
    using cfg by (simp_all add: quotaConfig_def)
  have nexts: "dailyNext tzs e t = dailyPoint ?h ?z t + day" "weeklyNext tzs e t = weeklyPoint ?d ?k ?z t + 7 * day" for t
    using c by (simp_all add: dailyNext_def weeklyNext_def nextFixedDailyReset_point nextFixedWeeklyReset_point)
  have z1: "quotaZone tzs ?e1 = ?z"
    by (simp add: ComputeQuotaResetAt_def Let_def quotaZone_def GetQuotaResetTimezone_def)
  have e1: "startedBy now ?dp" "startedBy now ?wp" "sqlFixed ?dp \<Longrightarrow> qp_ResetAt ?dp = Some (dailyNext tzs e now)"
    "sqlFixed ?wp \<Longrightarrow> qp_ResetAt ?wp = Some (weeklyNext tzs e now)"
    "GetQuotaResetHour ?dp = ?h" "GetQuotaResetHour ?wp = ?k" "GetQuotaWeeklyResetDay ?wp = ?d"
    using st c by (auto simp: ComputeQuotaResetAt_def Let_def savedMode startedBy_def sqlFixed_def dailyNext_def
        weeklyNext_def GetQuotaResetHour_def GetQuotaWeeklyResetDay_def)
  have e2: "qe_Daily ?e2 = (if sqlFixed ?dp \<and> 0 < coalesce (qp_Limit ?dp) 0
                             then normalizeStart (dailyPoint ?h ?z now) ?dp else ?dp)"
    "qe_Weekly ?e2 = (if sqlFixed ?wp \<and> 0 < coalesce (qp_Limit ?wp) 0
                      then normalizeStart (weeklyPoint ?d ?k ?z now) ?wp else ?wp)"
    using c by (simp_all add: savedQuota_def NormalizeFixedQuotaWindows_def Let_def savedMode z1 e1(5-7)
        lastFixedDailyReset_point lastFixedWeeklyReset_point)
  have "periodAligned (dailyNext tzs e) now (qe_Daily ?e2)"
    unfolding e2 using e1 normalizeStart_aligned [OF day_pos nexts(1) e1(1)] rolling_aligned [OF _ e1(1)]
    by (cases "sqlFixed ?dp") (simp_all, simp add: periodAligned_def)
  moreover have "periodAligned (weeklyNext tzs e) now (qe_Weekly ?e2)"
    unfolding e2 using e1 normalizeStart_aligned [OF _ nexts(2) e1(2)] day_pos rolling_aligned [OF _ e1(2)]
    by (cases "sqlFixed ?wp") (simp_all, simp add: periodAligned_def)
  ultimately show ?thesis by (simp add: quotaAligned_def saved_config)
qed

lemma valid_config:
  assumes "ValidateQuotaResetConfig tzs e = None" and "qe_Timezone e \<noteq> Some []"
    and "\<And>n z. tzs n = Some z \<Longrightarrow> fixed_zone z"
  shows "quotaConfig tzs e"
proof -
  have "fixed_zone (quotaZone tzs e)"
    using assms(3) by (auto simp: quotaZone_def coalesce_def utcZone_def fixed_zone_def split: option.splits)
  moreover have "tzs (coalesce (qe_Timezone e) ''UTC'') \<in> {None, Some (quotaZone tzs e)}"
    using assms(2) by (auto simp: quotaZone_def GetQuotaResetTimezone_def Let_def coalesce_def split: option.splits)
  ultimately show ?thesis
    using assms(1)
    by (auto simp: quotaConfig_def ValidateQuotaResetConfig_def Let_def validHour_def GetQuotaResetHour_def
        GetQuotaWeeklyResetDay_def coalesce_def split: if_splits option.splits)
qed

section \<open>Histories\<close>

text \<open>A valid configuration is saved at \<open>t0\<close>, then come increments, and \<open>t\<close> is now. The first condition on the
time zones says that their offsets do not change; the second excludes the empty name, which only the Go code
takes for UTC.\<close>

definition quotaHistory ::
  "zones \<Rightarrow> time \<Rightarrow> quotaExtra \<Rightarrow> (time \<times> int) list \<Rightarrow> time \<Rightarrow> quotaExtra \<Rightarrow> bool" where
  "quotaHistory tzs t0 e0 us t e \<longleftrightarrow>
     (\<forall>n. case tzs n of None \<Rightarrow> True | Some z \<Rightarrow> fixed_zone z) \<and> qe_Timezone e0 \<noteq> Some []
   \<and> ValidateQuotaResetConfig tzs e0 = None
   \<and> startedBy t0 (qe_Daily e0) \<and> startedBy t0 (qe_Weekly e0) \<and> 7 * day \<le> t0
   \<and> sorted (t0 # map fst us @ [t]) \<and> incrementsSQL tzs us (savedQuota tzs t0 e0) = Some e"

lemma quotaHistory_aligned:
  assumes "quotaHistory tzs t0 e0 us t e"
  obtains t1 where "quotaConfig tzs e" "quotaAligned tzs t1 e" "t1 \<le> t" "7 * day \<le> t"
proof
  have cfg: "quotaConfig tzs e0"
    by (rule valid_config) (use assms in \<open>auto simp: quotaHistory_def split: option.splits dest: spec\<close>)
  have "sorted (t0 # map fst us @ [t])" "7 * day \<le> t0" using assms by (simp_all add: quotaHistory_def)
  then show "last (t0 # map fst us) \<le> t" "7 * day \<le> t"
    using last_in_set [of us] by (auto simp: sorted_append last_map)
  have "quotaConfig tzs e \<and> quotaAligned tzs (last (t0 # map fst us)) e"
    using assms cfg saved_aligned [OF cfg]
    by (intro increments_aligned [of _ us "savedQuota tzs t0 e0"]) (auto simp: quotaHistory_def saved_config sorted_append)
  then show "quotaConfig tzs e" "quotaAligned tzs (last (t0 # map fst us)) e" by blast+
qed

section \<open>One increment\<close>

definition visibleDaily :: "zones \<Rightarrow> quotaExtra \<Rightarrow> time \<Rightarrow> int" where
  "visibleDaily tzs e t = (if IsDailyQuotaPeriodExpired tzs e t then 0 else coalesce (qp_Used (qe_Daily e)) 0)"

definition visibleWeekly :: "zones \<Rightarrow> quotaExtra \<Rightarrow> time \<Rightarrow> int" where
  "visibleWeekly tzs e t = (if IsWeeklyQuotaPeriodExpired tzs e t then 0 else coalesce (qp_Used (qe_Weekly e)) 0)"

lemma bumpPeriod_used:
  "0 < coalesce (qp_Limit p) 0 \<Longrightarrow>
     coalesce (qp_Used (bumpPeriod x n now a p)) 0 = (if x then 0 else coalesce (qp_Used p) 0) + a"
  by (simp add: bumpPeriod_def)

text \<open>Right after an increment no limited period is over.\<close>

lemma bumpPeriod_fresh:
  assumes "periodAligned next now (bumpPeriod x n now a p)" and "0 < coalesce (qp_Limit p) 0" and "now < next now"
    and "x \<longleftrightarrow> (if sqlFixed p then coalesce (qp_ResetAt p) 0 \<le> now else coalesce (qp_Start p) 0 + d \<le> now)"
    and "x \<Longrightarrow> sqlFixed p \<Longrightarrow> n \<noteq> None" and "0 < d"
  shows "\<not> (if sqlFixed p then coalesce (qp_ResetAt (bumpPeriod x n now a p)) 0 \<le> now
            else coalesce (qp_Start (bumpPeriod x n now a p)) 0 + d \<le> now)"
  using assms by (auto simp: periodAligned_def bumpPeriod_def sqlFixed_def coalesce_def split: if_splits option.splits)

lemma next_later:
  assumes "quotaConfig tzs e"
  shows "t < dailyNext tzs e t" and "t < weeklyNext tzs e t"
  using assms point_next [of day t] point_next [of "7 * day" t] day_pos
  by (simp_all add: quotaConfig_def dailyNext_def weeklyNext_def nextFixedDailyReset_point nextFixedWeeklyReset_point)

lemma incrementQuotaSQL_bump:
  assumes "incrementQuotaSQL tzs now a e = Some e1"
  obtains z where
    "qe_Daily e1 = bumpPeriod (dailyExpiredExpr now (qe_Daily e))
       (if sqlFixed (qe_Daily e) then Some (nextDailyResetAtExpr z now (qe_Daily e)) else None) now a (qe_Daily e)"
    "qe_Weekly e1 = bumpPeriod (weeklyExpiredExpr now (qe_Weekly e))
       (if sqlFixed (qe_Weekly e) then Some (nextWeeklyResetAtExpr z now (qe_Weekly e)) else None) now a (qe_Weekly e)"
  using assms by (auto simp: incrementQuotaSQL_def Let_def split: if_splits)

lemma increment_fresh:
  assumes inc: "incrementQuotaSQL tzs now a e = Some e1" and cfg: "quotaConfig tzs e"
    and al: "quotaAligned tzs t e" and t: "t \<le> now"
  shows "0 < coalesce (qp_Limit (qe_Daily e)) 0 \<Longrightarrow> \<not> dailyExpiredExpr now (qe_Daily e1)"
    and "0 < coalesce (qp_Limit (qe_Weekly e)) 0 \<Longrightarrow> \<not> weeklyExpiredExpr now (qe_Weekly e1)"
proof -
  obtain z where e1:
    "qe_Daily e1 = bumpPeriod (dailyExpiredExpr now (qe_Daily e))
       (if sqlFixed (qe_Daily e) then Some (nextDailyResetAtExpr z now (qe_Daily e)) else None) now a (qe_Daily e)"
    "qe_Weekly e1 = bumpPeriod (weeklyExpiredExpr now (qe_Weekly e))
       (if sqlFixed (qe_Weekly e) then Some (nextWeeklyResetAtExpr z now (qe_Weekly e)) else None) now a (qe_Weekly e)"
    by (rule incrementQuotaSQL_bump [OF inc])
  have al1: "periodAligned (dailyNext tzs e) now (qe_Daily e1)" "periodAligned (weeklyNext tzs e) now (qe_Weekly e1)"
    using increment_aligned [OF inc cfg al t] by (simp_all add: quotaAligned_def increment_config [OF inc])
  show "\<not> dailyExpiredExpr now (qe_Daily e1)" if "0 < coalesce (qp_Limit (qe_Daily e)) 0"
    using bumpPeriod_fresh [OF al1(1) [unfolded e1] that next_later(1) [OF cfg] dailyExpiredExpr_def]
    by (auto simp: e1 dailyExpiredExpr_def sqlFixed_def hour_def minute_def second_def)
  show "\<not> weeklyExpiredExpr now (qe_Weekly e1)" if "0 < coalesce (qp_Limit (qe_Weekly e)) 0"
    using bumpPeriod_fresh [OF al1(2) [unfolded e1] that next_later(2) [OF cfg] weeklyExpiredExpr_def]
    by (auto simp: e1 weeklyExpiredExpr_def sqlFixed_def hour_def minute_def second_def)
qed

lemma increment_used:
  assumes "incrementQuotaSQL tzs now a e = Some e1"
  shows "0 < coalesce (qp_Limit (qe_Daily e)) 0 \<Longrightarrow> coalesce (qp_Used (qe_Daily e1)) 0
      = (if dailyExpiredExpr now (qe_Daily e) then 0 else coalesce (qp_Used (qe_Daily e)) 0) + a"
    and "0 < coalesce (qp_Limit (qe_Weekly e)) 0 \<Longrightarrow> coalesce (qp_Used (qe_Weekly e1)) 0
      = (if weeklyExpiredExpr now (qe_Weekly e) then 0 else coalesce (qp_Used (qe_Weekly e)) 0) + a"
    and "qp_Limit (qe_Daily e1) = qp_Limit (qe_Daily e)" and "qp_Limit (qe_Weekly e1) = qp_Limit (qe_Weekly e)"
  using incrementQuotaSQL_fields(4,5) [OF assms] by (auto simp: bumpPeriod_used)

section \<open>Properties\<close>

text \<open>A concrete account: resets at 8:00 and on Mondays, Shanghai time.\<close>

definition exampleZones :: zones where
  "exampleZones n = (if n = ''UTC'' then Some utcZone else if n = ''Asia/Shanghai'' then Some shanghai else None)"

definition exampleQuota :: quotaExtra where
  "exampleQuota = \<lparr>qe_Used = None, qe_Limit = None,
     qe_Daily = \<lparr>qp_Used = None, qp_Limit = Some 500, qp_Start = None, qp_ResetMode = Some fixedMode, qp_ResetAt = None,
                 qp_ResetHour = Some 8, qp_ResetDay = None\<rparr>,
     qe_Weekly = \<lparr>qp_Used = None, qp_Limit = Some 900, qp_Start = None, qp_ResetMode = Some fixedMode, qp_ResetAt = None,
                  qp_ResetHour = None, qp_ResetDay = None\<rparr>,
     qe_Timezone = Some ''Asia/Shanghai''\<rparr>"

abbreviation "exampleStart \<equiv> 1750000000 * second"
abbreviation "exampleIncrements \<equiv> [(exampleStart + hour, 300)]"
abbreviation "exampleState \<equiv> the (incrementsSQL exampleZones exampleIncrements
  (savedQuota exampleZones exampleStart exampleQuota))"

lemma exampleHistory:
  "quotaHistory exampleZones exampleStart exampleQuota exampleIncrements (exampleStart + 2 * hour) exampleState"
proof -
  have "fixed_zone utcZone" by (simp add: fixed_zone_def utcZone_def)
  then have "\<forall>n. case exampleZones n of None \<Rightarrow> True | Some z \<Rightarrow> fixed_zone z"
    by (simp add: exampleZones_def fixed_shanghai)
  moreover have "qe_Timezone exampleQuota \<noteq> Some [] \<and> ValidateQuotaResetConfig exampleZones exampleQuota = None
     \<and> startedBy exampleStart (qe_Daily exampleQuota) \<and> startedBy exampleStart (qe_Weekly exampleQuota)
     \<and> 7 * day \<le> exampleStart \<and> sorted (exampleStart # map fst exampleIncrements @ [exampleStart + 2 * hour])
     \<and> incrementsSQL exampleZones exampleIncrements (savedQuota exampleZones exampleStart exampleQuota) = Some exampleState"
    by code_simp
  ultimately show ?thesis unfolding quotaHistory_def by blast
qed

text \<open>C22. The Go code, which looks at the start of a quota period, and the SQL, which looks at the stored time
of the next reset, agree on whether the period is over: for a valid configuration, saved at \<open>t0\<close>, after
any increments, at any later instant. So the scheduler sees a quota free up exactly when the next
increment will start a new period.\<close>

theorem quota_views_agree:
  assumes "quotaHistory tzs t0 e0 us t e"
  shows "(0 < coalesce (qp_Limit (qe_Daily e)) 0 \<longrightarrow>
            IsDailyQuotaPeriodExpired tzs e t = dailyExpiredExpr t (qe_Daily e))
       \<and> (0 < coalesce (qp_Limit (qe_Weekly e)) 0 \<longrightarrow>
            IsWeeklyQuotaPeriodExpired tzs e t = weeklyExpiredExpr t (qe_Weekly e))"
  using assms by (elim quotaHistory_aligned) (simp add: daily_views_agree weekly_views_agree)

theorem quota_views_agree_witness:
  "IsDailyQuotaPeriodExpired exampleZones exampleState (exampleStart + 2 * hour)
     = dailyExpiredExpr (exampleStart + 2 * hour) (qe_Daily exampleState)"
proof -
  have "0 < coalesce (qp_Limit (qe_Daily exampleState)) 0" by code_simp
  then show ?thesis using quota_views_agree [OF exampleHistory] by blast
qed

text \<open>C23. An increment shows: what the Go code reads as the usage of a limited period (nothing, once the
period is over) grows by exactly the amount, in whatever way the period ends.\<close>

theorem quota_increment_visible:
  assumes "quotaHistory tzs t0 e0 us t e" and "incrementQuotaSQL tzs t amount e = Some e1"
  shows "(0 < coalesce (qp_Limit (qe_Daily e)) 0 \<longrightarrow> visibleDaily tzs e1 t = visibleDaily tzs e t + amount)
       \<and> (0 < coalesce (qp_Limit (qe_Weekly e)) 0 \<longrightarrow> visibleWeekly tzs e1 t = visibleWeekly tzs e t + amount)
       \<and> coalesce (qe_Used e1) 0 = coalesce (qe_Used e) 0 + amount"
  using assms(1)
proof (elim quotaHistory_aligned)
  fix t1
  assume e: "quotaConfig tzs e" "quotaAligned tzs t1 e" "t1 \<le> t" "7 * day \<le> t"
  note e1 = increment_aligned [OF assms(2) e(1-3)] increment_config(4) [OF assms(2)]
  show ?thesis
    using e e1 increment_used [OF assms(2)] increment_fresh [OF assms(2) e(1-3)] incrementQuotaSQL_fields(3) [OF assms(2)]
    by (auto simp: visibleDaily_def visibleWeekly_def daily_views_agree [of tzs e t1] weekly_views_agree [of tzs e t1]
        daily_views_agree [of tzs e1 t] weekly_views_agree [of tzs e1 t])
qed

theorem quota_increment_visible_witness:
  "let t = exampleStart + 2 * hour; e1 = the (incrementQuotaSQL exampleZones t 400 exampleState)
   in visibleDaily exampleZones e1 t = visibleDaily exampleZones exampleState t + 400"
proof -
  have "incrementQuotaSQL exampleZones (exampleStart + 2 * hour) 400 exampleState
      = Some (the (incrementQuotaSQL exampleZones (exampleStart + 2 * hour) 400 exampleState))
    \<and> 0 < coalesce (qp_Limit (qe_Daily exampleState)) 0"
    by code_simp
  then show ?thesis using quota_increment_visible [OF exampleHistory] by (simp add: Let_def)
qed



text \<open>The other path to the same statement, \<open>IncrementQuotaUsed\<close> of the account repository, compares
the total only: an increment that uses up the daily quota is not announced.\<close>

theorem legacy_increment_unannounced:
  "\<exists>e e1 t amount. incrementQuotaSQL exampleZones t amount e = Some e1
     \<and> \<not> IsQuotaExceeded exampleZones e t \<and> IsQuotaExceeded exampleZones e1 t
     \<and> quotaCrossed (quotaStateOf e1) amount \<and> \<not> legacyCrossed (quotaStateOf e1) amount"
proof (intro exI)
  let ?e1 = "the (incrementQuotaSQL exampleZones (exampleStart + 2 * hour) 400 exampleState)"
  show "incrementQuotaSQL exampleZones (exampleStart + 2 * hour) 400 exampleState = Some ?e1
     \<and> \<not> IsQuotaExceeded exampleZones exampleState (exampleStart + 2 * hour)
     \<and> IsQuotaExceeded exampleZones ?e1 (exampleStart + 2 * hour)
     \<and> quotaCrossed (quotaStateOf ?e1) 400 \<and> \<not> legacyCrossed (quotaStateOf ?e1) 400"
    by code_simp
qed

end
