(* ===== verification/KeyLimits.thy ===== *)
theory KeyLimits
  imports SubscriptionWindows
begin

text \<open>
  The quota and the rate limits of an API key: \<open>service/api_key.go\<close>, the statements of
  \<open>repository/api_key_repo.go\<close> that count usage, and the checks of \<open>billing_cache_service.go\<close>.

  \<^item> A key has a lifetime quota and limits per window of 5 hours, a day and 7 days; 0 is no limit. A
    window starts with the first use after the last one ended (the day's and the week's at midnight).
  \<^item> Amounts are whole numbers of 1e-8. \<open>z\<close> is the time zone of the database session. Of an API key,
    the fields of identity, addresses and loaded objects are left out.
\<close>

section \<open>Keys\<close>

definition StatusAPIKeyActive :: string where "StatusAPIKeyActive = ''active''"
definition StatusAPIKeyDisabled :: string where "StatusAPIKeyDisabled = ''disabled''"
definition StatusAPIKeyQuotaExhausted :: string where "StatusAPIKeyQuotaExhausted = ''quota_exhausted''"
definition StatusAPIKeyExpired :: string where "StatusAPIKeyExpired = ''expired''"

lemmas keyStatuses =
  StatusAPIKeyActive_def StatusAPIKeyDisabled_def StatusAPIKeyQuotaExhausted_def StatusAPIKeyExpired_def

definition RateLimitWindow5h :: duration where "RateLimitWindow5h = 5 * hour"
definition RateLimitWindow1d :: duration where "RateLimitWindow1d = 24 * hour"
definition RateLimitWindow7d :: duration where "RateLimitWindow7d = 7 * 24 * hour"

record apiKey =
  ak_Status :: string
  ak_ExpiresAt :: "time option"
  ak_Quota :: int
  ak_QuotaUsed :: int
  ak_RateLimit5h :: int
  ak_RateLimit1d :: int
  ak_RateLimit7d :: int
  ak_Usage5h :: int
  ak_Usage1d :: int
  ak_Usage7d :: int
  ak_Window5hStart :: "time option"
  ak_Window1dStart :: "time option"
  ak_Window7dStart :: "time option"
  ak_Deleted :: bool

definition IsWindowExpired :: "time option \<Rightarrow> duration \<Rightarrow> time \<Rightarrow> bool" where
  "IsWindowExpired start d now \<longleftrightarrow> (case start of None \<Rightarrow> True | Some s \<Rightarrow> d \<le> t_sub now s)"

definition KeyIsActive :: "apiKey \<Rightarrow> bool" where
  "KeyIsActive k \<longleftrightarrow> ak_Status k = StatusAPIKeyActive"

definition HasRateLimits :: "apiKey \<Rightarrow> bool" where
  "HasRateLimits k \<longleftrightarrow> 0 < ak_RateLimit5h k \<or> 0 < ak_RateLimit1d k \<or> 0 < ak_RateLimit7d k"

definition KeyIsExpired :: "time \<Rightarrow> apiKey \<Rightarrow> bool" where
  "KeyIsExpired now k \<longleftrightarrow> (case ak_ExpiresAt k of None \<Rightarrow> False | Some t \<Rightarrow> t_after now t)"

definition IsQuotaExhausted :: "apiKey \<Rightarrow> bool" where
  "IsQuotaExhausted k \<longleftrightarrow> (if ak_Quota k \<le> 0 then False else ak_Quota k \<le> ak_QuotaUsed k)"

definition GetQuotaRemaining :: "apiKey \<Rightarrow> int" where
  "GetQuotaRemaining k =
    (if ak_Quota k \<le> 0 then - (10 ^ 8)
     else let remaining = ak_Quota k - ak_QuotaUsed k in if remaining < 0 then 0 else remaining)"

definition GetDaysUntilExpiry :: "time \<Rightarrow> apiKey \<Rightarrow> int" where
  "GetDaysUntilExpiry now k =
    (case ak_ExpiresAt k of
       None \<Rightarrow> - 1
     | Some t \<Rightarrow> let d = t_sub t now in if d < 0 then 0 else d div (24 * hour))"

definition EffectiveUsage5h :: "time \<Rightarrow> apiKey \<Rightarrow> int" where
  "EffectiveUsage5h now k = (if IsWindowExpired (ak_Window5hStart k) RateLimitWindow5h now then 0 else ak_Usage5h k)"

definition EffectiveUsage1d :: "time \<Rightarrow> apiKey \<Rightarrow> int" where
  "EffectiveUsage1d now k = (if IsWindowExpired (ak_Window1dStart k) RateLimitWindow1d now then 0 else ak_Usage1d k)"

definition EffectiveUsage7d :: "time \<Rightarrow> apiKey \<Rightarrow> int" where
  "EffectiveUsage7d now k = (if IsWindowExpired (ak_Window7dStart k) RateLimitWindow7d now then 0 else ak_Usage7d k)"

definition ErrAPIKeyNotFound :: string where "ErrAPIKeyNotFound = ''API_KEY_NOT_FOUND''"
definition ErrAPIKeyExpired :: string where "ErrAPIKeyExpired = ''API_KEY_EXPIRED''"
definition ErrAPIKeyQuotaExhausted :: string where "ErrAPIKeyQuotaExhausted = ''API_KEY_QUOTA_EXHAUSTED''"
definition ErrAPIKeyRateLimit5hExceeded :: string where "ErrAPIKeyRateLimit5hExceeded = ''API_KEY_RATE_5H_EXCEEDED''"
definition ErrAPIKeyRateLimit1dExceeded :: string where "ErrAPIKeyRateLimit1dExceeded = ''API_KEY_RATE_1D_EXCEEDED''"
definition ErrAPIKeyRateLimit7dExceeded :: string where "ErrAPIKeyRateLimit7dExceeded = ''API_KEY_RATE_7D_EXCEEDED''"
definition ErrBillingServiceUnavailable :: string where "ErrBillingServiceUnavailable = ''BILLING_SERVICE_ERROR''"

lemmas keyErrors =
  ErrAPIKeyNotFound_def ErrAPIKeyExpired_def ErrAPIKeyQuotaExhausted_def ErrAPIKeyRateLimit5hExceeded_def
  ErrAPIKeyRateLimit1dExceeded_def ErrAPIKeyRateLimit7dExceeded_def ErrBillingServiceUnavailable_def

definition CheckAPIKeyQuotaAndExpiry :: "time \<Rightarrow> apiKey \<Rightarrow> string option" where
  "CheckAPIKeyQuotaAndExpiry now k =
    (if KeyIsExpired now k then Some ErrAPIKeyExpired
     else if IsQuotaExhausted k then Some ErrAPIKeyQuotaExhausted else None)"

section \<open>Statements\<close>

text \<open>A window of the row: its usage and start. SQL's \<open>+ INTERVAL\<close> gives the instant at which it ends;
a window without a start has no end.\<close>

definition sqlOver :: "(time \<Rightarrow> time) \<Rightarrow> time \<Rightarrow> time option \<Rightarrow> bool" where
  "sqlOver endOf now start \<longleftrightarrow> (case start of None \<Rightarrow> False | Some s \<Rightarrow> endOf s \<le> now)"

definition bumpWindow ::
  "(time \<Rightarrow> time) \<Rightarrow> time \<Rightarrow> time \<Rightarrow> int \<Rightarrow> int \<times> time option \<Rightarrow> int \<times> time option" where
  "bumpWindow endOf fresh now cost w = (case w of (usage, start) \<Rightarrow>
     (if sqlOver endOf now start then cost else usage + cost,
      if start = None \<or> sqlOver endOf now start then Some fresh else start))"

definition resetKeyWindow :: "(time \<Rightarrow> time) \<Rightarrow> time \<Rightarrow> time \<Rightarrow> int \<times> time option \<Rightarrow> int \<times> time option" where
  "resetKeyWindow endOf fresh now w = (case w of (usage, start) \<Rightarrow>
     (if sqlOver endOf now start then 0 else usage, if sqlOver endOf now start then Some fresh else start))"

definition end5h :: "time \<Rightarrow> time" where "end5h s = s + 5 * hour"
definition end1d :: "time \<Rightarrow> time" where "end1d s = s + 24 * hour"
definition end7d :: "zone \<Rightarrow> time \<Rightarrow> time" where "end7d z s = AddDays z s 7"

definition mapWindows ::
  "zone \<Rightarrow> time \<Rightarrow> ((time \<Rightarrow> time) \<Rightarrow> time \<Rightarrow> time \<Rightarrow> int \<times> time option \<Rightarrow> int \<times> time option) \<Rightarrow> apiKey \<Rightarrow> apiKey" where
  "mapWindows z now f k =
    (let w5 = f end5h now now (ak_Usage5h k, ak_Window5hStart k);
         w1 = f end1d (StartOfDay z now) now (ak_Usage1d k, ak_Window1dStart k);
         w7 = f (end7d z) (StartOfDay z now) now (ak_Usage7d k, ak_Window7dStart k)
     in k\<lparr>ak_Usage5h := fst w5, ak_Window5hStart := snd w5, ak_Usage1d := fst w1, ak_Window1dStart := snd w1,
          ak_Usage7d := fst w7, ak_Window7dStart := snd w7\<rparr>)"

definition rateLimitIncrement :: "zone \<Rightarrow> time \<Rightarrow> int \<Rightarrow> apiKey \<Rightarrow> apiKey" where
  "rateLimitIncrement z now cost = mapWindows z now (\<lambda>endOf fresh t. bumpWindow endOf fresh t cost)"

definition rateLimitReset :: "zone \<Rightarrow> time \<Rightarrow> apiKey \<Rightarrow> apiKey" where
  "rateLimitReset z now = mapWindows z now resetKeyWindow"

type_synonym keyTable = "int \<rightharpoonup> apiKey"

text \<open>An update of the row with an id that is not deleted; \<open>None\<close> when there is none.\<close>

definition updateKey :: "int \<Rightarrow> (apiKey \<Rightarrow> apiKey) \<Rightarrow> keyTable \<Rightarrow> (apiKey \<times> apiKey \<times> keyTable) option" where
  "updateKey kid f ks =
    (case ks kid of
       None \<Rightarrow> None
     | Some k \<Rightarrow> if ak_Deleted k then None else Some (k, f k, ks(kid \<mapsto> f k)))"

definition IncrementRateLimitUsage :: "zone \<Rightarrow> time \<Rightarrow> int \<Rightarrow> int \<Rightarrow> keyTable \<Rightarrow> keyTable" where
  "IncrementRateLimitUsage z now kid cost ks =
    (case updateKey kid (rateLimitIncrement z now cost) ks of None \<Rightarrow> ks | Some (_, _, ks1) \<Rightarrow> ks1)"

definition ResetRateLimitWindows :: "zone \<Rightarrow> time \<Rightarrow> int \<Rightarrow> keyTable \<Rightarrow> keyTable" where
  "ResetRateLimitWindows z now kid ks =
    (case updateKey kid (rateLimitReset z now) ks of None \<Rightarrow> ks | Some (_, _, ks1) \<Rightarrow> ks1)"

text \<open>The row that \<open>GetRateLimitData\<close> returns is read with the same functions as a key.\<close>

definition GetRateLimitData :: "int \<Rightarrow> keyTable \<Rightarrow> string + apiKey" where
  "GetRateLimitData kid ks =
    (case ks kid of
       None \<Rightarrow> Inl ErrAPIKeyNotFound
     | Some k \<Rightarrow> if ak_Deleted k then Inl ErrAPIKeyNotFound else Inr k)"

definition KeyIncrementQuotaUsed :: "int \<Rightarrow> int \<Rightarrow> keyTable \<Rightarrow> string + (int \<times> keyTable)" where
  "KeyIncrementQuotaUsed kid amount ks =
    (case updateKey kid (\<lambda>k. k\<lparr>ak_QuotaUsed := ak_QuotaUsed k + amount\<rparr>) ks of
       None \<Rightarrow> Inl ErrAPIKeyNotFound
     | Some (_, k1, ks1) \<Rightarrow> Inr (ak_QuotaUsed k1, ks1))"

definition IncrementQuotaUsedAndGetState :: "int \<Rightarrow> int \<Rightarrow> keyTable \<Rightarrow> string + (apiKey \<times> keyTable)" where
  "IncrementQuotaUsedAndGetState kid amount ks =
    (case updateKey kid (\<lambda>k. k\<lparr>ak_QuotaUsed := ak_QuotaUsed k + amount,
          ak_Status := (if 0 < ak_Quota k \<and> ak_Quota k \<le> ak_QuotaUsed k + amount
                        then StatusAPIKeyQuotaExhausted else ak_Status k)\<rparr>) ks of
       None \<Rightarrow> Inl ErrAPIKeyNotFound
     | Some (_, k1, ks1) \<Rightarrow> Inr (k1, ks1))"

section \<open>Checks before a request\<close>

definition rateLimitVerdict :: "apiKey \<Rightarrow> int \<Rightarrow> int \<Rightarrow> int \<Rightarrow> string option" where
  "rateLimitVerdict k usage5h usage1d usage7d =
    (if 0 < ak_RateLimit5h k \<and> ak_RateLimit5h k \<le> usage5h then Some ErrAPIKeyRateLimit5hExceeded
     else if 0 < ak_RateLimit1d k \<and> ak_RateLimit1d k \<le> usage1d then Some ErrAPIKeyRateLimit1dExceeded
     else if 0 < ak_RateLimit7d k \<and> ak_RateLimit7d k \<le> usage7d then Some ErrAPIKeyRateLimit7dExceeded
     else None)"

text \<open>\<open>evaluateRateLimits\<close> also says whether it starts the reset of the row in the background; \<open>data\<close> has the
usage and the windows, \<open>k\<close> the limits.\<close>

definition evaluateRateLimits :: "time \<Rightarrow> apiKey \<Rightarrow> apiKey \<Rightarrow> string option \<times> bool" where
  "evaluateRateLimits now k data =
    (let x5 = IsWindowExpired (ak_Window5hStart data) RateLimitWindow5h now;
         x1 = IsWindowExpired (ak_Window1dStart data) RateLimitWindow1d now;
         x7 = IsWindowExpired (ak_Window7dStart data) RateLimitWindow7d now
     in (rateLimitVerdict k (if x5 then 0 else ak_Usage5h data) (if x1 then 0 else ak_Usage1d data)
           (if x7 then 0 else ak_Usage7d data), x5 \<or> x1 \<or> x7))"

definition checkSimpleModeAPIKeyRateLimits :: "time \<Rightarrow> apiKey option \<Rightarrow> (string + apiKey) option \<Rightarrow> string option" where
  "checkSimpleModeAPIKeyRateLimits now key loaded =
    (case key of
       None \<Rightarrow> None
     | Some k \<Rightarrow>
         if \<not> HasRateLimits k then None
         else (case loaded of
             Some (Inr data) \<Rightarrow> rateLimitVerdict k (EffectiveUsage5h now data) (EffectiveUsage1d now data) (EffectiveUsage7d now data)
           | _ \<Rightarrow> Some ErrBillingServiceUnavailable))"

end
