(* ===== verification/UsageBilling.thy ===== *)
theory UsageBilling
  imports SubscriptionStore PaymentCurrency AccountQuota KeyLimits
begin

text \<open>
  What a request costs is written to the database: \<open>service/usage_billing.go\<close>, the parts of
  \<open>service/gateway_usage_billing.go\<close> that build the command, \<open>repository/usage_billing_repo.go\<close> and
  the cleanup of the claims in \<open>repository/dashboard_aggregation_repo.go\<close>.

  \<^item> \<open>Apply\<close> is one transaction: it claims the pair of request and API key in a table, then increments the
    subscription, deducts the balance and counts quotas. The holds of batch image jobs on a balance go through
    the same claims. The row locks of the claim and of the updates make transactions on the same rows run one
    after another, so that a transaction is one step; \<open>txFate\<close> says whether it fails, commits, or commits
    and loses its reply.
  \<^item> Amounts of a command are exact numbers; columns hold whole numbers of 1e-8 (\<open>NUMERIC(20,8)\<close>), and
    storing a number rounds it half away from zero. NaN and infinities are left out.
  \<^item> SHA-256 (in hexadecimal), the decimal library and the time zones are parameters. The log of what was
    committed is read by no operation.
\<close>

section \<open>Amounts\<close>

definition storeUnits :: "rat \<Rightarrow> int" where
  "storeUnits x = (let y = x * 10 ^ 8 in if y < 0 then - \<lfloor>- y + 1 / 2\<rfloor> else \<lfloor>y + 1 / 2\<rfloor>)"

definition UsageBillingMonetaryScale :: nat where "UsageBillingMonetaryScale = 8"

definition QuantizeUsageBillingAmount :: "decimalLib \<Rightarrow> rat \<Rightarrow> rat" where
  "QuantizeUsageBillingAmount L v = (if v = 0 then v else dc_Round L v UsageBillingMonetaryScale)"

text \<open>\<open>%0.10f\<close>: the nearest number with ten digits after the point, the even one of two.\<close>

definition roundHalfEven :: "rat \<Rightarrow> int" where
  "roundHalfEven x =
    (let f = \<lfloor>x\<rfloor>; r = x - of_int f
     in if r < 1 / 2 then f else if 1 / 2 < r then f + 1 else if even f then f else f + 1)"

definition format10f :: "rat \<Rightarrow> string" where
  "format10f x =
    (let n = nat (roundHalfEven (\<bar>x\<bar> * 10 ^ 10)); fraction = nat_digits (n mod 10 ^ 10)
     in (if x < 0 then ''-'' else []) @ nat_digits (n div 10 ^ 10) @ ''.''
        @ replicate (10 - length fraction) CHR ''0'' @ fraction)"

section \<open>Commands\<close>

record usageCmd =
  uc_RequestID :: string
  uc_APIKeyID :: int
  uc_RequestFingerprint :: string
  uc_RequestPayloadHash :: string
  uc_UserID :: int
  uc_AccountID :: int
  uc_SubscriptionID :: "int option"
  uc_AccountType :: string
  uc_Model :: string
  uc_ServiceTier :: string
  uc_ReasoningEffort :: string
  uc_BillingType :: int
  uc_InputTokens :: int
  uc_OutputTokens :: int
  uc_CacheCreationTokens :: int
  uc_CacheReadTokens :: int
  uc_ImageCount :: int
  uc_MediaType :: string
  uc_BalanceCost :: rat
  uc_SubscriptionCost :: rat
  uc_APIKeyQuotaCost :: rat
  uc_APIKeyRateLimitCost :: rat
  uc_AccountQuotaCost :: rat

record billEnv =
  be_SHA :: "string \<Rightarrow> string"
  be_Decimal :: decimalLib
  be_Zone :: zone
  be_Zones :: zones

definition valueOrZero :: "int option \<Rightarrow> int" where
  "valueOrZero v = (case v of None \<Rightarrow> 0 | Some n \<Rightarrow> n)"

definition joinBar :: "string list \<Rightarrow> string" where
  "joinBar ss = (case ss of [] \<Rightarrow> [] | s # rest \<Rightarrow> fold (\<lambda>x acc. acc @ ''|'' @ x) rest s)"

definition withPayload :: "string \<Rightarrow> string \<Rightarrow> string" where
  "withPayload payload raw = (let h = trim_space payload in if h \<noteq> [] then raw @ ''|'' @ h else raw)"

definition HashUsageRequestPayload :: "billEnv \<Rightarrow> string \<Rightarrow> string" where
  "HashUsageRequestPayload E payload = (if payload = [] then [] else be_SHA E payload)"

definition buildUsageBillingFingerprint :: "billEnv \<Rightarrow> usageCmd \<Rightarrow> string" where
  "buildUsageBillingFingerprint E c = be_SHA E (withPayload (uc_RequestPayloadHash c) (joinBar
     [itoa (uc_UserID c), itoa (uc_AccountID c), itoa (uc_APIKeyID c), trim_space (uc_AccountType c),
      trim_space (uc_Model c), trim_space (uc_ServiceTier c), trim_space (uc_ReasoningEffort c), itoa (uc_BillingType c),
      itoa (uc_InputTokens c), itoa (uc_OutputTokens c), itoa (uc_CacheCreationTokens c), itoa (uc_CacheReadTokens c),
      itoa (uc_ImageCount c), trim_space (uc_MediaType c), itoa (valueOrZero (uc_SubscriptionID c)),
      format10f (uc_BalanceCost c), format10f (uc_SubscriptionCost c), format10f (uc_APIKeyQuotaCost c),
      format10f (uc_APIKeyRateLimitCost c), format10f (uc_AccountQuotaCost c)]))"

definition quantizeMonetaryFields :: "decimalLib \<Rightarrow> usageCmd \<Rightarrow> usageCmd" where
  "quantizeMonetaryFields L c =
     c\<lparr>uc_BalanceCost := QuantizeUsageBillingAmount L (uc_BalanceCost c),
       uc_SubscriptionCost := QuantizeUsageBillingAmount L (uc_SubscriptionCost c),
       uc_APIKeyQuotaCost := QuantizeUsageBillingAmount L (uc_APIKeyQuotaCost c),
       uc_APIKeyRateLimitCost := QuantizeUsageBillingAmount L (uc_APIKeyRateLimitCost c),
       uc_AccountQuotaCost := QuantizeUsageBillingAmount L (uc_AccountQuotaCost c)\<rparr>"

definition NormalizeUsage :: "billEnv \<Rightarrow> usageCmd \<Rightarrow> usageCmd" where
  "NormalizeUsage E c =
    (let c1 = c\<lparr>uc_RequestID := trim_space (uc_RequestID c)\<rparr>;
         c2 = (if trim_space (uc_RequestFingerprint c1) = []
               then c1\<lparr>uc_RequestFingerprint := buildUsageBillingFingerprint E c1\<rparr> else c1)
     in quantizeMonetaryFields (be_Decimal E) c2)"

record holdCmd =
  hc_RequestID :: string
  hc_APIKeyID :: int
  hc_RequestFingerprint :: string
  hc_RequestPayloadHash :: string
  hc_UserID :: int
  hc_BatchID :: string
  hc_HoldAmount :: rat
  hc_ActualAmount :: rat

definition buildBatchImageBalanceHoldFingerprint :: "billEnv \<Rightarrow> holdCmd \<Rightarrow> string" where
  "buildBatchImageBalanceHoldFingerprint E c = be_SHA E (withPayload (hc_RequestPayloadHash c) (joinBar
     [itoa (hc_UserID c), itoa (hc_APIKeyID c), trim_space (hc_BatchID c), format10f (hc_HoldAmount c),
      format10f (hc_ActualAmount c)]))"

definition NormalizeHold :: "billEnv \<Rightarrow> holdCmd \<Rightarrow> holdCmd" where
  "NormalizeHold E c =
    (let c1 = c\<lparr>hc_RequestID := trim_space (hc_RequestID c), hc_BatchID := trim_space (hc_BatchID c)\<rparr>
     in if trim_space (hc_RequestFingerprint c1) = []
        then c1\<lparr>hc_RequestFingerprint := buildBatchImageBalanceHoldFingerprint E c1\<rparr> else c1)"

section \<open>Building the command of a request\<close>

record usageLogRow =
  ul_Model :: string
  ul_BillingType :: int
  ul_InputTokens :: int
  ul_OutputTokens :: int
  ul_CacheCreationTokens :: int
  ul_CacheReadTokens :: int
  ul_ImageCount :: int
  ul_ServiceTier :: "string option"
  ul_ReasoningEffort :: "string option"
  ul_SubscriptionID :: "int option"

record billingParams =
  bp_TotalCost :: rat
  bp_ActualCost :: rat
  bp_UserID :: int
  bp_APIKeyID :: int
  bp_APIKey :: apiKey
  bp_AccountID :: int
  bp_AccountType :: string
  bp_AccountExtra :: quotaExtra
  bp_SubscriptionID :: "int option"
  bp_RequestPayloadHash :: string
  bp_IsSubscriptionBill :: bool
  bp_AccountRateMultiplier :: rat
  bp_APIKeyService :: bool
  bp_SimpleModeKeyRateLimitOnly :: bool

definition AccountTypeAPIKey :: string where "AccountTypeAPIKey = ''apikey''"
definition AccountTypeBedrock :: string where "AccountTypeBedrock = ''bedrock''"

definition IsAPIKeyOrBedrock :: "string \<Rightarrow> bool" where
  "IsAPIKeyOrBedrock t \<longleftrightarrow> t = AccountTypeAPIKey \<or> t = AccountTypeBedrock"

definition shouldDeductAPIKeyQuota :: "billingParams \<Rightarrow> bool" where
  "shouldDeductAPIKeyQuota p \<longleftrightarrow> 0 < bp_ActualCost p \<and> 0 < ak_Quota (bp_APIKey p) \<and> bp_APIKeyService p"

definition shouldUpdateRateLimits :: "billingParams \<Rightarrow> bool" where
  "shouldUpdateRateLimits p \<longleftrightarrow> 0 < bp_ActualCost p \<and> HasRateLimits (bp_APIKey p) \<and> bp_APIKeyService p"

definition shouldUpdateAccountQuota :: "billingParams \<Rightarrow> bool" where
  "shouldUpdateAccountQuota p \<longleftrightarrow> 0 < bp_TotalCost p \<and> IsAPIKeyOrBedrock (bp_AccountType p) \<and> HasAnyQuotaLimit (bp_AccountExtra p)"

definition buildUsageBillingCommand :: "billEnv \<Rightarrow> string \<Rightarrow> usageLogRow option \<Rightarrow> billingParams \<Rightarrow> usageCmd" where
  "buildUsageBillingCommand E requestID ul p =
    (let text = (\<lambda>f. case ul of None \<Rightarrow> [] | Some l \<Rightarrow> f l); num = (\<lambda>f. case ul of None \<Rightarrow> 0 | Some l \<Rightarrow> f l);
         opt = (\<lambda>v. case v of None \<Rightarrow> [] | Some s \<Rightarrow> s);
         logSub = (case ul of None \<Rightarrow> None | Some l \<Rightarrow> ul_SubscriptionID l);
         bySub = bp_IsSubscriptionBill p \<and> bp_SubscriptionID p \<noteq> None \<and> 0 < bp_TotalCost p;
         simple = bp_SimpleModeKeyRateLimitOnly p
     in NormalizeUsage E \<lparr>uc_RequestID = requestID, uc_APIKeyID = bp_APIKeyID p, uc_RequestFingerprint = [],
          uc_RequestPayloadHash = trim_space (bp_RequestPayloadHash p), uc_UserID = bp_UserID p, uc_AccountID = bp_AccountID p,
          uc_SubscriptionID = (if \<not> simple \<and> bySub then bp_SubscriptionID p else logSub),
          uc_AccountType = bp_AccountType p, uc_Model = text ul_Model,
          uc_ServiceTier = text (opt \<circ> ul_ServiceTier), uc_ReasoningEffort = text (opt \<circ> ul_ReasoningEffort),
          uc_BillingType = num ul_BillingType, uc_InputTokens = num ul_InputTokens, uc_OutputTokens = num ul_OutputTokens,
          uc_CacheCreationTokens = num ul_CacheCreationTokens, uc_CacheReadTokens = num ul_CacheReadTokens,
          uc_ImageCount = num ul_ImageCount, uc_MediaType = [],
          uc_BalanceCost = (if \<not> simple \<and> \<not> bySub \<and> 0 < bp_ActualCost p then bp_ActualCost p else 0),
          uc_SubscriptionCost = (if \<not> simple \<and> bySub then bp_ActualCost p else 0),
          uc_APIKeyQuotaCost = (if \<not> simple \<and> shouldDeductAPIKeyQuota p then bp_ActualCost p else 0),
          uc_APIKeyRateLimitCost =
            (if simple then (if 0 < bp_ActualCost p \<and> HasRateLimits (bp_APIKey p) then bp_ActualCost p else 0)
             else if shouldUpdateRateLimits p then bp_ActualCost p else 0),
          uc_AccountQuotaCost =
            (if \<not> simple \<and> shouldUpdateAccountQuota p then bp_TotalCost p * bp_AccountRateMultiplier p else 0)\<rparr>)"

text \<open>The id under which a request is billed; \<open>client\<close> and \<open>local\<close> are the ids of the context.\<close>

definition isForcedUsageBillingRequestID :: "string \<Rightarrow> bool" where
  "isForcedUsageBillingRequestID requestID \<longleftrightarrow>
    (let rid = trim_space requestID
     in has_prefix rid ''web_search:'' \<or> has_prefix rid ''grok-video:'' \<or> has_prefix rid ''grok_audio:''
        \<or> has_prefix rid ''grok_realtime:'')"

definition contextID :: "string option \<Rightarrow> string option \<Rightarrow> string option" where
  "contextID client local =
    (if trim_space (coalesce client []) \<noteq> [] then Some (''client:'' @ trim_space (coalesce client []))
     else if trim_space (coalesce local []) \<noteq> [] then Some (''local:'' @ trim_space (coalesce local []))
     else None)"

definition resolveUsageBillingRequestID ::
  "string \<Rightarrow> string option \<Rightarrow> string option \<Rightarrow> string \<Rightarrow> string" where
  "resolveUsageBillingRequestID generated client local upstream =
    (if trim_space upstream \<noteq> [] \<and> isForcedUsageBillingRequestID (trim_space upstream) then trim_space upstream
     else case contextID client local of
        Some rid \<Rightarrow> rid
      | None \<Rightarrow> if trim_space upstream \<noteq> [] then trim_space upstream else ''generated:'' @ generated)"

definition resolveUsageBillingPayloadFingerprint :: "string option \<Rightarrow> string option \<Rightarrow> string \<Rightarrow> string" where
  "resolveUsageBillingPayloadFingerprint client local payload =
    (if trim_space payload \<noteq> [] then trim_space payload else coalesce (contextID client local) [])"

definition StableGrokBillingRequestID :: "string \<Rightarrow> string \<Rightarrow> string \<Rightarrow> string" where
  "StableGrokBillingRequestID kind generated upstream =
    (let u = trim_space upstream
     in if has_prefix u kind then u else kind @ (if u = [] then generated else u))"

definition StableGrokAudioBillingRequestID :: "string \<Rightarrow> string \<Rightarrow> string" where
  "StableGrokAudioBillingRequestID = StableGrokBillingRequestID ''grok_audio:''"

definition StableGrokRealtimeBillingRequestID :: "string \<Rightarrow> string \<Rightarrow> string" where
  "StableGrokRealtimeBillingRequestID = StableGrokBillingRequestID ''grok_realtime:''"

section \<open>The tables\<close>

record billUser =
  bu_Balance :: int
  bu_Frozen :: int
  bu_Deleted :: bool

record billAccount =
  ba_Extra :: quotaExtra
  ba_RateLimitedAt :: "time option"
  ba_RateLimitResetAt :: "time option"
  ba_Deleted :: bool

record dedupRow =
  dr_RequestID :: string
  dr_APIKeyID :: int
  dr_RequestFingerprint :: string
  dr_CreatedAt :: time

record outboxRow =
  ob_EventType :: string
  ob_AccountID :: "int option"
  ob_GroupID :: "int option"
  ob_Payload :: string
  ob_DedupKey :: "string option"

text \<open>The log: a charge with its normalised command, and what the holds did, with their claim, user and amounts.\<close>

datatype billEvent =
    Charged usageCmd
  | Held "string \<times> int" int rat
  | Captured "string \<times> int" int rat rat
  | Released "string \<times> int" int rat

record billDB =
  bd_dedup :: "dedupRow list"
  bd_archive :: "dedupRow list"
  bd_users :: "int \<rightharpoonup> billUser"
  bd_keys :: keyTable
  bd_accounts :: "int \<rightharpoonup> billAccount"
  bd_subs :: subDB
  bd_outbox :: "outboxRow list"
  bd_log :: "billEvent list"

definition ErrUsageBillingRequestIDRequired :: string where
  "ErrUsageBillingRequestIDRequired = ''usage billing request_id is required''"
definition ErrUsageBillingRequestConflict :: string where
  "ErrUsageBillingRequestConflict = ''usage billing request fingerprint conflict''"
definition ErrBillingUserNotFound :: string where "ErrBillingUserNotFound = ''USER_NOT_FOUND''"
definition ErrAccountNotFound :: string where "ErrAccountNotFound = ''ACCOUNT_NOT_FOUND''"
definition ErrBatchImageInsufficientBalance :: string where
  "ErrBatchImageInsufficientBalance = ''BATCH_IMAGE_INSUFFICIENT_BALANCE''"
definition ErrBatchImageSettlementCostExceedsHold :: string where
  "ErrBatchImageSettlementCostExceedsHold = ''BATCH_IMAGE_SETTLEMENT_COST_EXCEEDS_HOLD''"
definition errFrozenInsufficient :: string where
  "errFrozenInsufficient = ''batch image frozen balance is insufficient''"

lemmas billErrors =
  ErrUsageBillingRequestIDRequired_def ErrUsageBillingRequestConflict_def ErrBillingUserNotFound_def
  ErrAccountNotFound_def ErrBatchImageInsufficientBalance_def ErrBatchImageSettlementCostExceedsHold_def
  errFrozenInsufficient_def

definition bindE :: "'e + 'a \<Rightarrow> ('a \<Rightarrow> 'e + 'b) \<Rightarrow> 'e + 'b" where
  "bindE m f = (case m of Inl e \<Rightarrow> Inl e | Inr x \<Rightarrow> f x)"

lemma bindE_simps [simp]: "bindE (Inl e) f = Inl e" "bindE (Inr x) f = f x"
  by (simp_all add: bindE_def)

lemma bindE_Inr: "bindE m f = Inr y \<longleftrightarrow> (\<exists>x. m = Inr x \<and> f x = Inr y)"
  by (cases m) auto

section \<open>Claims\<close>

definition findClaim :: "string \<Rightarrow> int \<Rightarrow> dedupRow list \<Rightarrow> dedupRow option" where
  "findClaim rid kid rows = find (\<lambda>r. dr_RequestID r = rid \<and> dr_APIKeyID r = kid) rows"

text \<open>The insert is rolled back with the transaction when the archive has the claim already.\<close>

definition claimUsageBillingRequest :: "time \<Rightarrow> string \<Rightarrow> int \<Rightarrow> string \<Rightarrow> billDB \<Rightarrow> string + (bool \<times> billDB)" where
  "claimUsageBillingRequest now rid kid fp d =
    (let known = (\<lambda>r. if trim_space (dr_RequestFingerprint r) \<noteq> trim_space fp
                      then Inl ErrUsageBillingRequestConflict else Inr (False, d))
     in case findClaim rid kid (bd_dedup d) of
          Some r \<Rightarrow> known r
        | None \<Rightarrow>
            (case findClaim rid kid (bd_archive d) of
               Some r \<Rightarrow> known r
             | None \<Rightarrow> Inr (True, d\<lparr>bd_dedup := bd_dedup d @ [\<lparr>dr_RequestID = rid, dr_APIKeyID = kid,
                                  dr_RequestFingerprint = fp, dr_CreatedAt = now\<rparr>]\<rparr>)))"

definition usageBillingDedupCleanupBatchSize :: nat where "usageBillingDedupCleanupBatchSize = 10000"

definition archiveRows :: "dedupRow list \<Rightarrow> dedupRow list \<Rightarrow> dedupRow list" where
  "archiveRows = fold (\<lambda>r arch. case findClaim (dr_RequestID r) (dr_APIKeyID r) arch of None \<Rightarrow> arch @ [r] | Some _ \<Rightarrow> arch)"

text \<open>One round moves up to a batch of old claims; \<open>LIMIT\<close> picks them in the order of the table here.\<close>

definition dedupVictims :: "time \<Rightarrow> nat \<Rightarrow> dedupRow list \<Rightarrow> dedupRow list" where
  "dedupVictims cutoff n rows = take n (filter (\<lambda>r. dr_CreatedAt r < cutoff) rows)"

fun dropVictims :: "time \<Rightarrow> nat \<Rightarrow> dedupRow list \<Rightarrow> dedupRow list" where
  "dropVictims cutoff n [] = []"
| "dropVictims cutoff n (r # rows) =
    (if dr_CreatedAt r < cutoff \<and> 0 < n then dropVictims cutoff (n - 1) rows else r # dropVictims cutoff n rows)"

definition cleanupRound :: "time \<Rightarrow> billDB \<Rightarrow> nat \<times> billDB" where
  "cleanupRound cutoff d =
    (let n = usageBillingDedupCleanupBatchSize; victims = dedupVictims cutoff n (bd_dedup d)
     in (length victims,
         d\<lparr>bd_archive := archiveRows victims (bd_archive d), bd_dedup := dropVictims cutoff n (bd_dedup d)\<rparr>))"

lemma dedupVictims_length: "length (dedupVictims cutoff n rows) \<le> length rows"
  by (simp add: dedupVictims_def min.coboundedI1)

lemma dropVictims_length: "length (dropVictims cutoff n rows) + length (dedupVictims cutoff n rows) = length rows"
proof (induction rows arbitrary: n)
  case (Cons r rows)
  show ?case using Cons.IH [of n] Cons.IH [of "n - 1"] by (cases n) (auto simp: dedupVictims_def)
qed (simp add: dedupVictims_def)

lemma cleanupRound_less:
  assumes "cleanupRound cutoff d = (affected, d1)" and "\<not> affected < usageBillingDedupCleanupBatchSize"
  shows "length (bd_dedup d1) < length (bd_dedup d)"
  using assms dropVictims_length [of cutoff usageBillingDedupCleanupBatchSize "bd_dedup d"]
  by (auto simp: cleanupRound_def Let_def usageBillingDedupCleanupBatchSize_def)

function CleanupUsageBillingDedup :: "time \<Rightarrow> billDB \<Rightarrow> billDB" where
  "CleanupUsageBillingDedup cutoff d =
    (case cleanupRound cutoff d of
       (affected, d1) \<Rightarrow>
         if affected < usageBillingDedupCleanupBatchSize then d1 else CleanupUsageBillingDedup cutoff d1)"
  by pat_completeness auto
termination
  by (relation "measure (\<lambda>(cutoff, d). length (bd_dedup d))") (auto dest: cleanupRound_less [OF sym])

declare CleanupUsageBillingDedup.simps [simp del]

section \<open>Effects of a charge\<close>

definition updateBillUser :: "int \<Rightarrow> (billUser \<Rightarrow> bool) \<Rightarrow> (billUser \<Rightarrow> billUser) \<Rightarrow> billDB \<Rightarrow> (billUser \<times> billDB) option" where
  "updateBillUser uid P f d =
    (case bd_users d uid of
       None \<Rightarrow> None
     | Some u \<Rightarrow> if \<not> bu_Deleted u \<and> P u then Some (f u, d\<lparr>bd_users := (bd_users d)(uid \<mapsto> f u)\<rparr>) else None)"

definition userExistsForBilling :: "int \<Rightarrow> billDB \<Rightarrow> bool" where
  "userExistsForBilling uid d \<longleftrightarrow> (case bd_users d uid of None \<Rightarrow> False | Some u \<Rightarrow> \<not> bu_Deleted u)"

definition incrementUsageBillingSubscription :: "int \<Rightarrow> rat \<Rightarrow> billDB \<Rightarrow> string + billDB" where
  "incrementUsageBillingSubscription sid cost d =
     bindE (IncrementUsage sid (100 * storeUnits cost) (bd_subs d)) (\<lambda>subs. Inr (d\<lparr>bd_subs := subs\<rparr>))"

definition takeBillBalance :: "rat \<Rightarrow> billUser \<Rightarrow> billUser" where
  "takeBillBalance amount u = u\<lparr>bu_Balance := storeUnits (fromUnits (bu_Balance u) - amount)\<rparr>"

definition deductUsageBillingBalance :: "int \<Rightarrow> rat \<Rightarrow> billDB \<Rightarrow> string + (int \<times> bool \<times> billDB)" where
  "deductUsageBillingBalance uid amount d =
    (case updateBillUser uid (\<lambda>u. amount \<le> fromUnits (bu_Balance u)) (takeBillBalance amount) d of
       Some (u, d1) \<Rightarrow> Inr (bu_Balance u, True, d1)
     | None \<Rightarrow>
         (case updateBillUser uid (\<lambda>_. True) (takeBillBalance amount) d of
            Some (u, d1) \<Rightarrow> Inr (bu_Balance u, False, d1)
          | None \<Rightarrow> Inl ErrBillingUserNotFound))"

text \<open>The right-hand sides of \<open>SET\<close> see the old row, \<open>RETURNING\<close> the new one.\<close>

definition addQuotaUsed :: "rat \<Rightarrow> apiKey \<Rightarrow> apiKey" where
  "addQuotaUsed amount k =
     k\<lparr>ak_QuotaUsed := storeUnits (fromUnits (ak_QuotaUsed k) + amount),
       ak_Status := (if 0 < ak_Quota k \<and> ak_Status k = StatusAPIKeyActive \<and> ak_QuotaUsed k < ak_Quota k
                        \<and> fromUnits (ak_Quota k) \<le> fromUnits (ak_QuotaUsed k) + amount
                     then StatusAPIKeyQuotaExhausted else ak_Status k)\<rparr>"

definition incrementUsageBillingAPIKeyQuota :: "int \<Rightarrow> rat \<Rightarrow> billDB \<Rightarrow> string + (bool \<times> billDB)" where
  "incrementUsageBillingAPIKeyQuota kid amount d =
    (case updateKey kid (addQuotaUsed amount) (bd_keys d) of
       None \<Rightarrow> Inl ErrAPIKeyNotFound
     | Some (_, k, ks) \<Rightarrow>
         Inr (0 < ak_Quota k \<and> ak_Quota k \<le> ak_QuotaUsed k
              \<and> fromUnits (ak_QuotaUsed k) - amount < fromUnits (ak_Quota k), d\<lparr>bd_keys := ks\<rparr>))"

definition incrementUsageBillingAPIKeyRateLimit :: "zone \<Rightarrow> time \<Rightarrow> int \<Rightarrow> rat \<Rightarrow> billDB \<Rightarrow> string + billDB" where
  "incrementUsageBillingAPIKeyRateLimit z now kid cost d =
    (case updateKey kid (rateLimitIncrement z now (storeUnits cost)) (bd_keys d) of
       None \<Rightarrow> Inl ErrAPIKeyNotFound
     | Some (_, _, ks) \<Rightarrow> Inr (d\<lparr>bd_keys := ks\<rparr>))"

definition SchedulerOutboxEventAccountChanged :: string where
  "SchedulerOutboxEventAccountChanged = ''account_changed''"
definition SchedulerOutboxEventGroupChanged :: string where "SchedulerOutboxEventGroupChanged = ''group_changed''"
definition SchedulerOutboxEventFullRebuild :: string where "SchedulerOutboxEventFullRebuild = ''full_rebuild''"

definition schedulerOutboxEventSupportsDedup :: "string \<Rightarrow> bool" where
  "schedulerOutboxEventSupportsDedup t \<longleftrightarrow> t \<in> set [SchedulerOutboxEventAccountChanged,
     SchedulerOutboxEventGroupChanged, SchedulerOutboxEventFullRebuild]"

definition schedulerOutboxDedupKey :: "billEnv \<Rightarrow> string \<Rightarrow> int option \<Rightarrow> int option \<Rightarrow> string \<Rightarrow> string" where
  "schedulerOutboxDedupKey E t aid gid payload =
    (let num = (\<lambda>v. case v of None \<Rightarrow> [] | Some n \<Rightarrow> itoa n)
     in ''scheduler_outbox:'' @ be_SHA E (t @ [CHR 0x00] @ num aid @ [CHR 0x00] @ num gid @ [CHR 0x00] @ payload))"

definition enqueueSchedulerOutbox ::
  "billEnv \<Rightarrow> string \<Rightarrow> int option \<Rightarrow> int option \<Rightarrow> string \<Rightarrow> outboxRow list \<Rightarrow> outboxRow list" where
  "enqueueSchedulerOutbox E t aid gid payload rows =
    (let key = (if schedulerOutboxEventSupportsDedup t then Some (schedulerOutboxDedupKey E t aid gid payload) else None)
     in if key \<noteq> None \<and> (\<exists>r\<in>set rows. ob_DedupKey r = key) then rows
        else rows @ [\<lparr>ob_EventType = t, ob_AccountID = aid, ob_GroupID = gid, ob_Payload = payload, ob_DedupKey = key\<rparr>])"

definition incrementUsageBillingAccountQuota ::
  "billEnv \<Rightarrow> time \<Rightarrow> int \<Rightarrow> rat \<Rightarrow> billDB \<Rightarrow> string + (quotaState \<times> billDB)" where
  "incrementUsageBillingAccountQuota E now aid amount d =
    (case bd_accounts d aid of
       None \<Rightarrow> Inl ErrAccountNotFound
     | Some a \<Rightarrow>
         if ba_Deleted a then Inl ErrAccountNotFound
         else (case incrementQuotaSQL (be_Zones E) now (storeUnits amount) (ba_Extra a) of
             None \<Rightarrow> Inl ''time zone not recognized''
           | Some e \<Rightarrow>
               (let d1 = d\<lparr>bd_accounts := (bd_accounts d)(aid \<mapsto> a\<lparr>ba_Extra := e\<rparr>)\<rparr>; s = quotaStateOf e
                in Inr (s, if quotaCrossed s (storeUnits amount)
                           then d1\<lparr>bd_outbox := enqueueSchedulerOutbox E SchedulerOutboxEventAccountChanged
                                                (Some aid) None [] (bd_outbox d1)\<rparr>
                           else d1))))"

text \<open>\<open>IncrementQuotaUsed\<close> and \<open>ResetQuotaUsedAndClearRateLimitCooldown\<close> of the account repository.\<close>

definition AccountIncrementQuotaUsed :: "billEnv \<Rightarrow> time \<Rightarrow> int \<Rightarrow> int \<Rightarrow> billDB \<Rightarrow> string + billDB" where
  "AccountIncrementQuotaUsed E now aid amount d =
    (case bd_accounts d aid of
       None \<Rightarrow> Inr d
     | Some a \<Rightarrow>
         if ba_Deleted a then Inr d
         else (case incrementQuotaSQL (be_Zones E) now amount (ba_Extra a) of
             None \<Rightarrow> Inl ''time zone not recognized''
           | Some e \<Rightarrow>
               (let d1 = d\<lparr>bd_accounts := (bd_accounts d)(aid \<mapsto> a\<lparr>ba_Extra := e\<rparr>)\<rparr>
                in Inr (if legacyCrossed (quotaStateOf e) amount
                        then d1\<lparr>bd_outbox := enqueueSchedulerOutbox E SchedulerOutboxEventAccountChanged
                                             (Some aid) None [] (bd_outbox d1)\<rparr>
                        else d1))))"

definition ResetQuotaUsedAndClearRateLimitCooldown :: "billEnv \<Rightarrow> int \<Rightarrow> billDB \<Rightarrow> string + billDB" where
  "ResetQuotaUsedAndClearRateLimitCooldown E aid d =
    (case bd_accounts d aid of
       None \<Rightarrow> Inl ErrAccountNotFound
     | Some a \<Rightarrow>
         if ba_Deleted a then Inl ErrAccountNotFound
         else Inr (d\<lparr>bd_accounts := (bd_accounts d)(aid \<mapsto> a\<lparr>ba_Extra := resetQuotaSQL (ba_Extra a),
                       ba_RateLimitedAt := None, ba_RateLimitResetAt := None\<rparr>),
                     bd_outbox := enqueueSchedulerOutbox E SchedulerOutboxEventAccountChanged (Some aid) None [] (bd_outbox d)\<rparr>))"

record usageResult =
  ur_Applied :: bool
  ur_APIKeyQuotaExhausted :: bool
  ur_NewBalance :: "int option"
  ur_BalanceOverdrafted :: bool
  ur_QuotaState :: "quotaState option"

definition notApplied :: usageResult where
  "notApplied = \<lparr>ur_Applied = False, ur_APIKeyQuotaExhausted = False, ur_NewBalance = None,
     ur_BalanceOverdrafted = False, ur_QuotaState = None\<rparr>"

definition chargeSubscription :: "usageCmd \<Rightarrow> billDB \<Rightarrow> string + billDB" where
  "chargeSubscription c d =
    (case uc_SubscriptionID c of
       Some sid \<Rightarrow> if 0 < uc_SubscriptionCost c then incrementUsageBillingSubscription sid (uc_SubscriptionCost c) d else Inr d
     | None \<Rightarrow> Inr d)"

definition chargeBalance :: "usageCmd \<Rightarrow> usageResult \<times> billDB \<Rightarrow> string + (usageResult \<times> billDB)" where
  "chargeBalance c = (\<lambda>(r, d).
     if 0 < uc_BalanceCost c
     then bindE (deductUsageBillingBalance (uc_UserID c) (uc_BalanceCost c) d)
            (\<lambda>(b, sufficient, d1). Inr (r\<lparr>ur_NewBalance := Some b, ur_BalanceOverdrafted := \<not> sufficient\<rparr>, d1))
     else Inr (r, d))"

definition chargeKeyQuota :: "usageCmd \<Rightarrow> usageResult \<times> billDB \<Rightarrow> string + (usageResult \<times> billDB)" where
  "chargeKeyQuota c = (\<lambda>(r, d).
     if 0 < uc_APIKeyQuotaCost c
     then bindE (incrementUsageBillingAPIKeyQuota (uc_APIKeyID c) (uc_APIKeyQuotaCost c) d)
            (\<lambda>(exhausted, d1). Inr (r\<lparr>ur_APIKeyQuotaExhausted := exhausted\<rparr>, d1))
     else Inr (r, d))"

definition chargeRateLimit :: "billEnv \<Rightarrow> time \<Rightarrow> usageCmd \<Rightarrow> usageResult \<times> billDB \<Rightarrow> string + (usageResult \<times> billDB)" where
  "chargeRateLimit E now c = (\<lambda>(r, d).
     if 0 < uc_APIKeyRateLimitCost c
     then bindE (incrementUsageBillingAPIKeyRateLimit (be_Zone E) now (uc_APIKeyID c) (uc_APIKeyRateLimitCost c) d)
            (\<lambda>d1. Inr (r, d1))
     else Inr (r, d))"

definition chargeAccountQuota :: "billEnv \<Rightarrow> time \<Rightarrow> usageCmd \<Rightarrow> usageResult \<times> billDB \<Rightarrow> string + (usageResult \<times> billDB)" where
  "chargeAccountQuota E now c = (\<lambda>(r, d).
     if 0 < uc_AccountQuotaCost c
        \<and> (equal_fold (uc_AccountType c) AccountTypeAPIKey \<or> equal_fold (uc_AccountType c) AccountTypeBedrock)
     then bindE (incrementUsageBillingAccountQuota E now (uc_AccountID c) (uc_AccountQuotaCost c) d)
            (\<lambda>(s, d1). Inr (r\<lparr>ur_QuotaState := Some s\<rparr>, d1))
     else Inr (r, d))"

definition applyUsageBillingEffects :: "billEnv \<Rightarrow> time \<Rightarrow> usageCmd \<Rightarrow> billDB \<Rightarrow> string + (usageResult \<times> billDB)" where
  "applyUsageBillingEffects E now c d =
     bindE (chargeSubscription c d) (\<lambda>d1.
     bindE (chargeBalance c (notApplied\<lparr>ur_Applied := True\<rparr>, d1)) (\<lambda>s2.
     bindE (chargeKeyQuota c s2) (\<lambda>s3.
     bindE (chargeRateLimit E now c s3) (\<lambda>s4.
     chargeAccountQuota E now c s4))))"

section \<open>Transactions\<close>

text \<open>A transaction is rolled back by an error on the way, commits, or commits although the caller gets an
error because the reply was lost.\<close>

datatype txFate = TxBroken string | TxCommits | TxReplyLost string

definition logBill :: "billEvent \<Rightarrow> billDB \<Rightarrow> billDB" where
  "logBill ev d = d\<lparr>bd_log := bd_log d @ [ev]\<rparr>"

definition claimed ::
  "txFate \<Rightarrow> time \<Rightarrow> string \<Rightarrow> int \<Rightarrow> string \<Rightarrow> (billDB \<Rightarrow> string + ('r \<times> billDB)) \<Rightarrow> 'r \<Rightarrow> billDB \<Rightarrow> (string + 'r) \<times> billDB" where
  "claimed fate now rid kid fp effects unapplied d =
    (case fate of
       TxBroken err \<Rightarrow> (Inl err, d)
     | _ \<Rightarrow>
         (case claimUsageBillingRequest now rid kid fp d of
            Inl err \<Rightarrow> (Inl err, d)
          | Inr (False, _) \<Rightarrow> (Inr unapplied, d)
          | Inr (True, d1) \<Rightarrow>
              (case effects d1 of
                 Inl err \<Rightarrow> (Inl err, d)
               | Inr (r, d2) \<Rightarrow> (case fate of TxReplyLost err \<Rightarrow> (Inl err, d2) | _ \<Rightarrow> (Inr r, d2)))))"

definition Apply :: "billEnv \<Rightarrow> time \<Rightarrow> txFate \<Rightarrow> usageCmd \<Rightarrow> billDB \<Rightarrow> (string + usageResult) \<times> billDB" where
  "Apply E now fate cmd d =
    (let c = NormalizeUsage E cmd
     in if uc_RequestID c = [] then (Inl ErrUsageBillingRequestIDRequired, d)
        else claimed fate now (uc_RequestID c) (uc_APIKeyID c) (uc_RequestFingerprint c)
               (\<lambda>d1. bindE (applyUsageBillingEffects E now c d1) (\<lambda>(r, d2). Inr (r, logBill (Charged c) d2)))
               notApplied d)"

section \<open>Holds of batch image jobs\<close>

record holdResult =
  hr_Applied :: bool
  hr_NewBalance :: "int option"
  hr_FrozenBalance :: "int option"

definition emptyHold :: holdResult where
  "emptyHold = \<lparr>hr_Applied = False, hr_NewBalance = None, hr_FrozenBalance = None\<rparr>"

definition updateHold ::
  "int \<Rightarrow> (billUser \<Rightarrow> bool) \<Rightarrow> (billUser \<Rightarrow> billUser) \<Rightarrow> string \<Rightarrow> billEvent \<Rightarrow> billDB \<Rightarrow> string + (holdResult \<times> billDB)" where
  "updateHold uid P f refused ev d =
    (case updateBillUser uid P f d of
       Some (u, d1) \<Rightarrow> Inr (\<lparr>hr_Applied = False, hr_NewBalance = Some (bu_Balance u), hr_FrozenBalance = Some (bu_Frozen u)\<rparr>,
                           logBill ev d1)
     | None \<Rightarrow> Inl (if userExistsForBilling uid d then refused else ErrBillingUserNotFound))"

definition reserveUsageBillingBatchImageBalance :: "holdCmd \<Rightarrow> billDB \<Rightarrow> string + (holdResult \<times> billDB)" where
  "reserveUsageBillingBatchImageBalance c d =
    (let h = hc_HoldAmount c
     in if h \<le> 0 then Inr (emptyHold, d)
        else updateHold (hc_UserID c) (\<lambda>u. h \<le> fromUnits (bu_Balance u))
               (\<lambda>u. u\<lparr>bu_Balance := storeUnits (fromUnits (bu_Balance u) - h),
                      bu_Frozen := storeUnits (fromUnits (bu_Frozen u) + h)\<rparr>)
               ErrBatchImageInsufficientBalance (Held (hc_RequestID c, hc_APIKeyID c) (hc_UserID c) h) d)"

definition captureUsageBillingBatchImageBalance :: "holdCmd \<Rightarrow> billDB \<Rightarrow> string + (holdResult \<times> billDB)" where
  "captureUsageBillingBatchImageBalance c d =
    (let h = hc_HoldAmount c; a = hc_ActualAmount c
     in if h \<le> 0 \<and> a \<le> 0 then Inr (emptyHold, d)
        else if 1 / 10 ^ 8 < a - h then Inl ErrBatchImageSettlementCostExceedsHold
        else updateHold (hc_UserID c) (\<lambda>u. h \<le> fromUnits (bu_Frozen u))
               (\<lambda>u. u\<lparr>bu_Balance := storeUnits (fromUnits (bu_Balance u) + (if a < h then h - a else 0) - (if h < a then a - h else 0)),
                      bu_Frozen := storeUnits (fromUnits (bu_Frozen u) - h)\<rparr>)
               errFrozenInsufficient (Captured (hc_RequestID c, hc_APIKeyID c) (hc_UserID c) h a) d)"

definition BatchImageHoldRequestID :: "string \<Rightarrow> string" where
  "BatchImageHoldRequestID batchID = ''batch_image_hold:'' @ trim_space batchID"
definition BatchImageCaptureRequestID :: "string \<Rightarrow> string" where
  "BatchImageCaptureRequestID batchID = ''batch_image_capture:'' @ trim_space batchID"
definition BatchImageReleaseRequestID :: "string \<Rightarrow> string" where
  "BatchImageReleaseRequestID batchID = ''batch_image_release:'' @ trim_space batchID"

definition batchImageHoldClaimExists :: "string \<Rightarrow> int \<Rightarrow> billDB \<Rightarrow> bool" where
  "batchImageHoldClaimExists rid kid d \<longleftrightarrow>
     findClaim rid kid (bd_dedup d) \<noteq> None \<or> findClaim rid kid (bd_archive d) \<noteq> None"

definition releaseUsageBillingBatchImageBalance :: "holdCmd \<Rightarrow> billDB \<Rightarrow> string + (holdResult \<times> billDB)" where
  "releaseUsageBillingBatchImageBalance c d =
    (let h = hc_HoldAmount c
     in if h \<le> 0 then Inr (emptyHold, d)
        else if \<not> batchImageHoldClaimExists (BatchImageHoldRequestID (hc_BatchID c)) (hc_APIKeyID c) d
        then Inr (emptyHold, d)
        else updateHold (hc_UserID c) (\<lambda>u. h \<le> fromUnits (bu_Frozen u))
               (\<lambda>u. u\<lparr>bu_Balance := storeUnits (fromUnits (bu_Balance u) + h),
                      bu_Frozen := storeUnits (fromUnits (bu_Frozen u) - h)\<rparr>)
               errFrozenInsufficient (Released (hc_RequestID c, hc_APIKeyID c) (hc_UserID c) h) d)"

definition applyBatchImageBalanceHold ::
  "(holdCmd \<Rightarrow> billDB \<Rightarrow> string + (holdResult \<times> billDB)) \<Rightarrow> billEnv \<Rightarrow> time \<Rightarrow> txFate \<Rightarrow> holdCmd \<Rightarrow> billDB
     \<Rightarrow> (string + holdResult) \<times> billDB" where
  "applyBatchImageBalanceHold effect E now fate cmd d =
    (let c = NormalizeHold E cmd
     in if hc_RequestID c = [] then (Inl ErrUsageBillingRequestIDRequired, d)
        else claimed fate now (hc_RequestID c) (hc_APIKeyID c) (hc_RequestFingerprint c)
               (\<lambda>d1. bindE (effect c d1) (\<lambda>(r, d2). Inr (r\<lparr>hr_Applied := True\<rparr>, d2)))
               emptyHold d)"

definition ReserveBatchImageBalance :: "billEnv \<Rightarrow> time \<Rightarrow> txFate \<Rightarrow> holdCmd \<Rightarrow> billDB \<Rightarrow> (string + holdResult) \<times> billDB" where
  "ReserveBatchImageBalance = applyBatchImageBalanceHold reserveUsageBillingBatchImageBalance"

definition CaptureBatchImageBalance :: "billEnv \<Rightarrow> time \<Rightarrow> txFate \<Rightarrow> holdCmd \<Rightarrow> billDB \<Rightarrow> (string + holdResult) \<times> billDB" where
  "CaptureBatchImageBalance = applyBatchImageBalanceHold captureUsageBillingBatchImageBalance"

definition ReleaseBatchImageBalance :: "billEnv \<Rightarrow> time \<Rightarrow> txFate \<Rightarrow> holdCmd \<Rightarrow> billDB \<Rightarrow> (string + holdResult) \<times> billDB" where
  "ReleaseBatchImageBalance = applyBatchImageBalanceHold releaseUsageBillingBatchImageBalance"

end
