(* ===== verification/UsageBillingFacts.thy ===== *)
theory UsageBillingFacts
  imports UsageBilling
begin

text \<open>
  The books of billing balance: every charge and every step of a hold happens at most once, whatever is
  retried, fails or loses its reply, and the balances and counters differ from the initial ones by exactly
  what was done.

  \<^item> \<open>billStep\<close> is a transaction, or one round of the cleanup of claims; a history is a list of them.
  \<^item> A number is on the grid if it has at most eight digits after the point. A charge always is, since it is
    quantised first; the amount of a hold need not be, and the last theorem shows what happens then.
\<close>

section \<open>Numbers on the grid\<close>

abbreviation onGrid :: "rat \<Rightarrow> bool" where "onGrid x \<equiv> places 8 x"

lemma onGrid_iff: "onGrid x \<longleftrightarrow> (\<exists>n. x = fromUnits n)"
  by (auto simp: places_def fromUnits_def field_simps)

lemma onGrid_fromUnits [simp]: "onGrid (fromUnits n)"
  by (auto simp: onGrid_iff)

lemma onGrid_add: "onGrid x \<Longrightarrow> onGrid y \<Longrightarrow> onGrid (x + y)"
  and onGrid_diff: "onGrid x \<Longrightarrow> onGrid y \<Longrightarrow> onGrid (x - y)"
  by (auto simp: onGrid_iff fromUnits_def simp flip: of_int_add of_int_diff add_divide_distrib diff_divide_distrib)

lemma storeUnits_fromUnits [simp]: "storeUnits (fromUnits n) = n"
proof -
  have "\<lfloor>(of_int m :: rat) + 1 / 2\<rfloor> = m" for m :: int by linarith
  from this [of n] this [of "- n"] show ?thesis by (simp add: storeUnits_def fromUnits_def Let_def)
qed

lemma fromUnits_storeUnits: "onGrid x \<Longrightarrow> fromUnits (storeUnits x) = x"
  by (auto simp: onGrid_iff)

lemma onGrid_quantized:
  assumes "decimal_laws L" shows "onGrid (QuantizeUsageBillingAmount L v)"
proof (cases "v = 0")
  case True
  then show ?thesis using onGrid_fromUnits [of 0] by (simp add: QuantizeUsageBillingAmount_def fromUnits_def)
next
  case False
  then show ?thesis using assms
    by (auto simp: QuantizeUsageBillingAmount_def UsageBillingMonetaryScale_def decimal_laws_def)
qed

section \<open>Histories\<close>

datatype billOp =
    DoApply time txFate usageCmd
  | DoReserve time txFate holdCmd
  | DoCapture time txFate holdCmd
  | DoRelease time txFate holdCmd
  | DoCleanup time

fun billStep :: "billEnv \<Rightarrow> billOp \<Rightarrow> billDB \<Rightarrow> billDB" where
  "billStep E (DoApply now fate c) d = snd (Apply E now fate c d)"
| "billStep E (DoReserve now fate c) d = snd (ReserveBatchImageBalance E now fate c d)"
| "billStep E (DoCapture now fate c) d = snd (CaptureBatchImageBalance E now fate c d)"
| "billStep E (DoRelease now fate c) d = snd (ReleaseBatchImageBalance E now fate c d)"
| "billStep E (DoCleanup cutoff) d = snd (cleanupRound cutoff d)"

abbreviation holdOnGrid :: "holdCmd \<Rightarrow> bool" where
  "holdOnGrid c \<equiv> onGrid (hc_HoldAmount c) \<and> onGrid (hc_ActualAmount c)"

fun opOnGrid :: "billOp \<Rightarrow> bool" where
  "opOnGrid (DoReserve _ _ c) = holdOnGrid c"
| "opOnGrid (DoCapture _ _ c) = holdOnGrid c"
| "opOnGrid (DoRelease _ _ c) = holdOnGrid c"
| "opOnGrid _ = True"

text \<open>The books: what a user has, what is frozen of it, what a key has used, and what the log says about each.\<close>

definition wealth :: "int \<Rightarrow> billDB \<Rightarrow> rat" where
  "wealth uid d = (case bd_users d uid of None \<Rightarrow> 0 | Some u \<Rightarrow> fromUnits (bu_Balance u) + fromUnits (bu_Frozen u))"

definition frozen :: "int \<Rightarrow> billDB \<Rightarrow> rat" where
  "frozen uid d = (case bd_users d uid of None \<Rightarrow> 0 | Some u \<Rightarrow> fromUnits (bu_Frozen u))"

definition quotaUsed :: "int \<Rightarrow> billDB \<Rightarrow> rat" where
  "quotaUsed kid d = (case bd_keys d kid of None \<Rightarrow> 0 | Some k \<Rightarrow> fromUnits (ak_QuotaUsed k))"

fun eventKey :: "billEvent \<Rightarrow> string \<times> int" where
  "eventKey (Charged c) = (uc_RequestID c, uc_APIKeyID c)"
| "eventKey (Held k _ _) = k"
| "eventKey (Captured k _ _ _) = k"
| "eventKey (Released k _ _) = k"

fun paid :: "int \<Rightarrow> billEvent \<Rightarrow> rat" where
  "paid uid (Charged c) = (if uc_UserID c = uid \<and> 0 < uc_BalanceCost c then uc_BalanceCost c else 0)"
| "paid uid (Captured _ u _ a) = (if u = uid then a else 0)"
| "paid uid _ = 0"

fun frozenBy :: "int \<Rightarrow> billEvent \<Rightarrow> rat" where
  "frozenBy uid (Held _ u h) = (if u = uid then h else 0)"
| "frozenBy uid (Captured _ u h _) = (if u = uid then - h else 0)"
| "frozenBy uid (Released _ u h) = (if u = uid then - h else 0)"
| "frozenBy uid (Charged _) = 0"

fun usedBy :: "int \<Rightarrow> billEvent \<Rightarrow> rat" where
  "usedBy kid (Charged c) = (if uc_APIKeyID c = kid \<and> 0 < uc_APIKeyQuotaCost c then uc_APIKeyQuotaCost c else 0)"
| "usedBy kid _ = 0"

definition claimKnown :: "string \<times> int \<Rightarrow> billDB \<Rightarrow> bool" where
  "claimKnown k d \<longleftrightarrow> batchImageHoldClaimExists (fst k) (snd k) d"

lemma findClaim_iff:
  "findClaim rid kid rows \<noteq> None \<longleftrightarrow> (\<exists>r\<in>set rows. dr_RequestID r = rid \<and> dr_APIKeyID r = kid)"
  by (auto simp: findClaim_def find_None_iff2 find_None_iff)

lemma claimKnown_iff:
  "claimKnown k d \<longleftrightarrow> (\<exists>r\<in>set (bd_dedup d) \<union> set (bd_archive d). (dr_RequestID r, dr_APIKeyID r) = k)"
  by (cases k) (simp only: claimKnown_def batchImageHoldClaimExists_def findClaim_iff, auto)

section \<open>The cleanup keeps the claims\<close>

lemma dropVictims_0 [simp]: "dropVictims cutoff 0 rows = rows"
  by (induction rows) auto

lemma dedup_split: "set (dedupVictims cutoff n rows) \<union> set (dropVictims cutoff n rows) = set rows"
proof (induction rows arbitrary: n)
  case (Cons r rows)
  show ?case
    using Cons.IH [of n] Cons.IH [of "n - 1"] by (cases n) (auto simp: dedupVictims_def)
qed (simp add: dedupVictims_def)

lemma archiveRows_claims:
  "(\<exists>r\<in>set (archiveRows vs arch). (dr_RequestID r, dr_APIKeyID r) = k)
     \<longleftrightarrow> (\<exists>r\<in>set vs \<union> set arch. (dr_RequestID r, dr_APIKeyID r) = k)"
proof (induction vs arbitrary: arch)
  case (Cons v vs)
  show ?case
    using Cons [of arch] Cons [of "arch @ [v]"] findClaim_iff [of "dr_RequestID v" "dr_APIKeyID v" arch]
    by (cases "findClaim (dr_RequestID v) (dr_APIKeyID v) arch") (auto simp: archiveRows_def)
qed (simp add: archiveRows_def)

lemma cleanup_claims: "claimKnown k (snd (cleanupRound cutoff d)) = claimKnown k d"
  using archiveRows_claims [of _ "bd_archive d" k] dedup_split [of cutoff usageBillingDedupCleanupBatchSize "bd_dedup d"]
  by (auto simp: claimKnown_iff cleanupRound_def Let_def bex_Un)

lemma cleanup_books:
  "bd_log (snd (cleanupRound cutoff d)) = bd_log d" "bd_users (snd (cleanupRound cutoff d)) = bd_users d"
  "bd_keys (snd (cleanupRound cutoff d)) = bd_keys d"
  by (simp_all add: cleanupRound_def Let_def)


section \<open>Claims last\<close>

abbreviation claimKey :: "dedupRow \<Rightarrow> string \<times> int" where
  "claimKey r \<equiv> (dr_RequestID r, dr_APIKeyID r)"

abbreviation claimRows :: "billDB \<Rightarrow> dedupRow list" where
  "claimRows d \<equiv> bd_dedup d @ bd_archive d"

text \<open>The unique key of the table and the archive, and that no claim is in both.\<close>

definition claimsDistinct :: "billDB \<Rightarrow> bool" where
  "claimsDistinct d \<longleftrightarrow> distinct (map claimKey (claimRows d))"

lemma findClaim_unique:
  assumes "distinct (map claimKey rows)" and "r \<in> set rows"
  shows "findClaim (dr_RequestID r) (dr_APIKeyID r) rows = Some r"
  using assms by (induction rows) (auto simp: findClaim_def)

lemma findClaim_None: "findClaim rid kid rows = None \<longleftrightarrow> (rid, kid) \<notin> claimKey ` set rows"
  by (auto simp: findClaim_def find_None_iff)

lemma archiveRows_fresh:
  "distinct (map claimKey (vs @ arch)) \<Longrightarrow> archiveRows vs arch = arch @ vs"
proof (induction vs arbitrary: arch)
  case (Cons v vs)
  have "findClaim (dr_RequestID v) (dr_APIKeyID v) arch = None"
    using Cons.prems by (auto simp: findClaim_None)
  moreover have "archiveRows vs (arch @ [v]) = (arch @ [v]) @ vs" using Cons.prems by (intro Cons.IH) auto
  ultimately show ?case by (simp add: archiveRows_def)
qed (simp add: archiveRows_def)

lemma victims_mset: "mset (dedupVictims cutoff n rows) + mset (dropVictims cutoff n rows) = mset rows"
proof (induction rows arbitrary: n)
  case (Cons r rows)
  show ?case using Cons.IH [of n] Cons.IH [of "n - 1"] by (cases n) (auto simp: dedupVictims_def)
qed (simp add: dedupVictims_def)

definition claimsKept :: "billDB \<Rightarrow> billDB \<Rightarrow> bool" where
  "claimsKept d d' \<longleftrightarrow> (claimsDistinct d \<longrightarrow> claimsDistinct d' \<and> set (claimRows d) \<subseteq> set (claimRows d'))"

lemma claimsKept_same: "bd_dedup d' = bd_dedup d \<Longrightarrow> bd_archive d' = bd_archive d \<Longrightarrow> claimsKept d d'"
  by (simp add: claimsKept_def claimsDistinct_def)

lemma claimsKept_trans: "claimsKept d d1 \<Longrightarrow> claimsKept d1 d2 \<Longrightarrow> claimsKept d d2"
  by (auto simp: claimsKept_def)

lemma cleanup_claimsKept: "claimsKept d (snd (cleanupRound cutoff d))"
  unfolding claimsKept_def
proof
  assume distinct: "claimsDistinct d"
  define vs where "vs = dedupVictims cutoff usageBillingDedupCleanupBatchSize (bd_dedup d)"
  define rest where "rest = dropVictims cutoff usageBillingDedupCleanupBatchSize (bd_dedup d)"
  have all: "mset vs + mset rest = mset (bd_dedup d)" using victims_mset by (simp add: vs_def rest_def)
  have same: "distinct (map claimKey xs)" if "mset xs = mset (claimRows d)" for xs
    using mset_eq_imp_distinct_iff [of "map claimKey xs" "map claimKey (claimRows d)"] distinct that
    by (simp add: claimsDistinct_def)
  have "archiveRows vs (bd_archive d) = bd_archive d @ vs"
    using same [of "rest @ vs @ bd_archive d"] by (intro archiveRows_fresh) (auto simp: all [symmetric])
  then have after: "bd_dedup (snd (cleanupRound cutoff d)) = rest" "bd_archive (snd (cleanupRound cutoff d)) = bd_archive d @ vs"
    by (simp_all add: cleanupRound_def Let_def vs_def rest_def)
  have "set (bd_dedup d) = set vs \<union> set rest" using arg_cong [OF all, of set_mset] by simp
  moreover have "claimsDistinct (snd (cleanupRound cutoff d))"
    unfolding claimsDistinct_def by (rule same) (simp add: after all [symmetric])
  ultimately show "claimsDistinct (snd (cleanupRound cutoff d)) \<and> set (claimRows d) \<subseteq> set (claimRows (snd (cleanupRound cutoff d)))"
    by (auto simp: after)
qed

lemma claim_taken:
  assumes "claimUsageBillingRequest now rid kid fp d = Inr (True, d1)"
  shows "\<not> claimKnown (rid, kid) d" (is ?free)
    and "claimKnown k d1 \<longleftrightarrow> claimKnown k d \<or> k = (rid, kid)"
    and "d1 = d\<lparr>bd_dedup := bd_dedup d1\<rparr>"
proof -
  show ?free using assms
    by (auto simp: claimUsageBillingRequest_def Let_def claimKnown_def batchImageHoldClaimExists_def
        split: option.splits if_splits)
  obtain r where d1: "d1 = d\<lparr>bd_dedup := bd_dedup d @ [r]\<rparr>" and r: "(dr_RequestID r, dr_APIKeyID r) = (rid, kid)"
    using assms by (auto simp: claimUsageBillingRequest_def Let_def split: option.splits if_splits)
  show "claimKnown k d1 \<longleftrightarrow> claimKnown k d \<or> k = (rid, kid)" using r by (auto simp: claimKnown_iff d1)
  show "d1 = d\<lparr>bd_dedup := bd_dedup d1\<rparr>" by (simp add: d1)
qed

lemma claim_claimsKept:
  assumes "claimUsageBillingRequest now rid kid fp d = Inr (True, d1)"
  shows "claimsKept d d1"
    and "\<exists>r\<in>set (claimRows d1). claimKey r = (rid, kid) \<and> dr_RequestFingerprint r = fp"
proof -
  have d1: "d1 = d\<lparr>bd_dedup := bd_dedup d @ [\<lparr>dr_RequestID = rid, dr_APIKeyID = kid, dr_RequestFingerprint = fp,
      dr_CreatedAt = now\<rparr>]\<rparr>"
    using assms by (auto simp: claimUsageBillingRequest_def Let_def split: option.splits if_splits)
  have "\<not> claimKnown (rid, kid) d" by (rule claim_taken(1) [OF assms])
  then show "claimsKept d d1" by (auto simp: claimsKept_def claimsDistinct_def claimKnown_iff d1 image_iff)
  show "\<exists>r\<in>set (claimRows d1). claimKey r = (rid, kid) \<and> dr_RequestFingerprint r = fp" by (simp add: d1)
qed

lemma claim_again:
  assumes "claimsDistinct d" and "r \<in> set (claimRows d)" and "claimKey r = (rid, kid)"
  shows "claimUsageBillingRequest now rid kid fp d
    = (if trim_space (dr_RequestFingerprint r) = trim_space fp then Inr (False, d) else Inl ErrUsageBillingRequestConflict)"
proof (cases "r \<in> set (bd_dedup d)")
  case True
  then have "findClaim rid kid (bd_dedup d) = Some r"
    using assms findClaim_unique [of "bd_dedup d" r] by (auto simp: claimsDistinct_def)
  then show ?thesis by (simp add: claimUsageBillingRequest_def Let_def)
next
  case False
  then have "findClaim rid kid (bd_archive d) = Some r" "findClaim rid kid (bd_dedup d) = None"
    using assms findClaim_unique [of "bd_archive d" r] by (auto simp: claimsDistinct_def findClaim_None image_iff)
  then show ?thesis by (simp add: claimUsageBillingRequest_def Let_def)
qed


section \<open>One step of the books\<close>

text \<open>What a step, or a history, adds to the log and to the books; the claims of what it adds were free before
and are taken after.\<close>

definition booked :: "billDB \<Rightarrow> billDB \<Rightarrow> billEvent list \<Rightarrow> bool" where
  "booked d d' evs \<longleftrightarrow>
     bd_log d' = bd_log d @ evs \<and> distinct (map eventKey evs)
   \<and> (\<forall>k. claimKnown k d \<longrightarrow> claimKnown k d') \<and> claimsKept d d'
   \<and> (\<forall>ev\<in>set evs. \<not> claimKnown (eventKey ev) d \<and> claimKnown (eventKey ev) d')
   \<and> (\<forall>uid. wealth uid d' = wealth uid d - sum_list (map (paid uid) evs)
          \<and> frozen uid d' = frozen uid d + sum_list (map (frozenBy uid) evs))
   \<and> (\<forall>kid. quotaUsed kid d' = quotaUsed kid d + sum_list (map (usedBy kid) evs))"

lemma booked_refl: "booked d d []"
  by (simp add: booked_def claimsKept_same)

lemma booked_trans: "booked d d1 e1 \<Longrightarrow> booked d1 d2 e2 \<Longrightarrow> booked d d2 (e1 @ e2)"
  by (auto simp: booked_def claimsKept_trans simp del: split_paired_All)

lemma cleanup_booked: "booked d (snd (cleanupRound cutoff d)) []"
  by (simp add: booked_def cleanup_claims cleanup_claimsKept cleanup_books wealth_def frozen_def quotaUsed_def)

lemma claimed_cases:
  assumes "claimed fate now rid kid fp eff unapplied d = (res, d')"
  shows "d' = d
    \<or> (\<exists>d1 r. claimUsageBillingRequest now rid kid fp d = Inr (True, d1) \<and> eff d1 = Inr (r, d'))"
  using assms by (auto simp: claimed_def split: txFate.splits sum.splits prod.splits bool.splits)


text \<open>A claimed transaction is booked if its effects are, with claims left alone and events under its own claim.\<close>

definition effectBooked :: "billDB \<Rightarrow> billDB \<Rightarrow> (string \<times> int) \<Rightarrow> billEvent list \<Rightarrow> bool" where
  "effectBooked d d' k evs \<longleftrightarrow>
     bd_log d' = bd_log d @ evs \<and> length evs \<le> 1 \<and> (\<forall>ev\<in>set evs. eventKey ev = k)
   \<and> bd_dedup d' = bd_dedup d \<and> bd_archive d' = bd_archive d
   \<and> (\<forall>uid. wealth uid d' = wealth uid d - sum_list (map (paid uid) evs)
          \<and> frozen uid d' = frozen uid d + sum_list (map (frozenBy uid) evs))
   \<and> (\<forall>kid. quotaUsed kid d' = quotaUsed kid d + sum_list (map (usedBy kid) evs))"

lemma books_of_claim:
  "wealth uid (d\<lparr>bd_dedup := x\<rparr>) = wealth uid d" "frozen uid (d\<lparr>bd_dedup := x\<rparr>) = frozen uid d"
  "quotaUsed kid (d\<lparr>bd_dedup := x\<rparr>) = quotaUsed kid d"
  by (simp_all add: wealth_def frozen_def quotaUsed_def)

lemma claimed_booked:
  assumes "\<And>d1 r d2. eff d1 = Inr (r, d2) \<Longrightarrow> \<exists>evs. effectBooked d1 d2 (rid, kid) evs"
  shows "\<exists>evs. booked d (snd (claimed fate now rid kid fp eff unapplied d)) evs"
proof -
  obtain res d' where c: "claimed fate now rid kid fp eff unapplied d = (res, d')" by fastforce
  from claimed_cases [OF c] show ?thesis
  proof
    assume "d' = d" then show ?thesis using booked_refl by (auto simp: c)
  next
    assume "\<exists>d1 r. claimUsageBillingRequest now rid kid fp d = Inr (True, d1) \<and> eff d1 = Inr (r, d')"
    then obtain d1 r where new: "claimUsageBillingRequest now rid kid fp d = Inr (True, d1)"
      and eff: "eff d1 = Inr (r, d')" by blast
    obtain evs where e: "effectBooked d1 d' (rid, kid) evs" using assms [OF eff] by blast
    have d1: "d1 = d\<lparr>bd_dedup := bd_dedup d1\<rparr>" by (rule claim_taken(3) [OF new])
    have known: "claimKnown k d' \<longleftrightarrow> claimKnown k d \<or> k = (rid, kid)" for k
      using e claim_taken(2) [OF new, of k] by (simp add: effectBooked_def claimKnown_iff)
    have "distinct (map eventKey evs)" using e by (cases evs) (auto simp: effectBooked_def)
    moreover have "bd_log d1 = bd_log d" "wealth uid d1 = wealth uid d" "frozen uid d1 = frozen uid d"
      "quotaUsed kid d1 = quotaUsed kid d" for uid kid
      by (subst d1, simp add: books_of_claim)+
    moreover have "claimsKept d d'"
      using claimsKept_trans [OF claim_claimsKept(1) [OF new] claimsKept_same] e by (simp add: effectBooked_def)
    ultimately have "booked d d' evs"
      using e claim_taken(1) [OF new] unfolding booked_def effectBooked_def known by auto
    then show ?thesis by (auto simp: c)
  qed
qed


section \<open>The effects\<close>

lemma updateBillUser_Some:
  assumes "updateBillUser uid P f d = Some (u, d')"
  obtains u0 where "bd_users d uid = Some u0" "u = f u0" "P u0" "d' = d\<lparr>bd_users := (bd_users d)(uid \<mapsto> f u0)\<rparr>"
  using assms by (auto simp: updateBillUser_def split: option.splits if_splits)

lemma store_add: "onGrid x \<Longrightarrow> fromUnits (storeUnits (fromUnits n + x)) = fromUnits n + x"
  and store_diff: "onGrid x \<Longrightarrow> fromUnits (storeUnits (fromUnits n - x)) = fromUnits n - x"
  by (simp_all add: fromUnits_storeUnits onGrid_add onGrid_diff)

text \<open>What one part of a charge does to the books.\<close>

definition sameRest :: "billDB \<Rightarrow> billDB \<Rightarrow> bool" where
  "sameRest d d' \<longleftrightarrow> bd_log d' = bd_log d \<and> bd_dedup d' = bd_dedup d \<and> bd_archive d' = bd_archive d"

definition moves :: "billDB \<Rightarrow> billDB \<Rightarrow> (int \<Rightarrow> rat) \<Rightarrow> (int \<Rightarrow> rat) \<Rightarrow> (int \<Rightarrow> rat) \<Rightarrow> bool" where
  "moves d d' w f q \<longleftrightarrow> sameRest d d'
     \<and> (\<forall>i. wealth i d' = wealth i d + w i \<and> frozen i d' = frozen i d + f i \<and> quotaUsed i d' = quotaUsed i d + q i)"

abbreviation "none \<equiv> \<lambda>_. 0 :: rat"

lemma moves_refl: "moves d d none none none"
  by (simp add: moves_def sameRest_def)

lemma moves_trans:
  "moves d d1 w f q \<Longrightarrow> moves d1 d2 w' f' q' \<Longrightarrow> moves d d2 (\<lambda>i. w i + w' i) (\<lambda>i. f i + f' i) (\<lambda>i. q i + q' i)"
  by (auto simp: moves_def sameRest_def)

lemma moves_subscription: "chargeSubscription c d = Inr d' \<Longrightarrow> moves d d' none none none"
  by (auto simp: chargeSubscription_def incrementUsageBillingSubscription_def bindE_Inr moves_def sameRest_def
      wealth_def frozen_def quotaUsed_def split: option.splits if_splits)

lemma moves_takeBalance:
  assumes "updateBillUser uid P (takeBillBalance a) d = Some (u, d')" and "onGrid a"
  shows "moves d d' (\<lambda>i. if i = uid then - a else 0) none none"
  using assms
  by (elim updateBillUser_Some)
    (auto simp: moves_def sameRest_def wealth_def frozen_def quotaUsed_def takeBillBalance_def store_diff)

lemma moves_balance:
  assumes "chargeBalance c (r, d) = Inr (r', d')" and "onGrid (uc_BalanceCost c)"
  shows "moves d d' (\<lambda>i. - paid i (Charged c)) none none"
proof (cases "0 < uc_BalanceCost c")
  case True
  then obtain b s where "deductUsageBillingBalance (uc_UserID c) (uc_BalanceCost c) d = Inr (b, s, d')"
    using assms(1) by (auto simp: chargeBalance_def bindE_Inr)
  then obtain P u where "updateBillUser (uc_UserID c) P (takeBillBalance (uc_BalanceCost c)) d = Some (u, d')"
    by (auto simp: deductUsageBillingBalance_def split: option.splits prod.splits)
  from moves_takeBalance [OF this assms(2)] show ?thesis
    using True by (auto simp: moves_def)
next
  case False
  then show ?thesis using assms(1) moves_refl [of d] by (auto simp: chargeBalance_def moves_def)
qed

lemma updateKey_Some:
  assumes "updateKey kid f ks = Some (k0, k, ks')"
  shows "ks kid = Some k0" and "k = f k0" and "ks' = ks(kid \<mapsto> f k0)"
  using assms by (auto simp: updateKey_def split: option.splits if_splits)

lemma moves_keyQuota:
  assumes "chargeKeyQuota c (r, d) = Inr (r', d')" and "onGrid (uc_APIKeyQuotaCost c)"
  shows "moves d d' none none (\<lambda>i. usedBy i (Charged c))"
proof (cases "0 < uc_APIKeyQuotaCost c")
  case True
  then obtain x where "incrementUsageBillingAPIKeyQuota (uc_APIKeyID c) (uc_APIKeyQuotaCost c) d = Inr (x, d')"
    using assms(1) by (auto simp: chargeKeyQuota_def bindE_Inr)
  then obtain k0 k ks where u: "updateKey (uc_APIKeyID c) (addQuotaUsed (uc_APIKeyQuotaCost c)) (bd_keys d) = Some (k0, k, ks)"
    and d': "d' = d\<lparr>bd_keys := ks\<rparr>"
    by (auto simp: incrementUsageBillingAPIKeyQuota_def split: option.splits)
  show ?thesis using True updateKey_Some [OF u] assms(2)
    by (auto simp: d' moves_def sameRest_def wealth_def frozen_def quotaUsed_def addQuotaUsed_def store_add)
next
  case False
  then show ?thesis using assms(1) moves_refl [of d] by (auto simp: chargeKeyQuota_def moves_def)
qed

lemma rateLimitIncrement_quota [simp]: "ak_QuotaUsed (rateLimitIncrement z now x k) = ak_QuotaUsed k"
  by (simp add: rateLimitIncrement_def mapWindows_def Let_def)

lemma moves_rateLimit:
  assumes "chargeRateLimit E now c (r, d) = Inr (r', d')" shows "moves d d' none none none"
proof (cases "0 < uc_APIKeyRateLimitCost c")
  case True
  then have "incrementUsageBillingAPIKeyRateLimit (be_Zone E) now (uc_APIKeyID c) (uc_APIKeyRateLimitCost c) d = Inr d'"
    using assms by (auto simp: chargeRateLimit_def bindE_Inr)
  then obtain k0 k ks where
    u: "updateKey (uc_APIKeyID c) (rateLimitIncrement (be_Zone E) now (storeUnits (uc_APIKeyRateLimitCost c))) (bd_keys d)
          = Some (k0, k, ks)" and d': "d' = d\<lparr>bd_keys := ks\<rparr>"
    by (auto simp: incrementUsageBillingAPIKeyRateLimit_def split: option.splits)
  show ?thesis using updateKey_Some [OF u]
    by (auto simp: d' moves_def sameRest_def wealth_def frozen_def quotaUsed_def)
next
  case False
  then show ?thesis using assms moves_refl [of d] by (auto simp: chargeRateLimit_def)
qed

lemma moves_accountQuota: "chargeAccountQuota E now c (r, d) = Inr (r', d') \<Longrightarrow> moves d d' none none none"
  by (auto simp: chargeAccountQuota_def incrementUsageBillingAccountQuota_def bindE_Inr moves_def sameRest_def
      wealth_def frozen_def quotaUsed_def Let_def split: option.splits if_splits)


lemma effects_moves:
  assumes "applyUsageBillingEffects E now c d = Inr (r, d')"
    and "onGrid (uc_BalanceCost c)" "onGrid (uc_APIKeyQuotaCost c)"
  shows "moves d d' (\<lambda>i. - paid i (Charged c)) none (\<lambda>i. usedBy i (Charged c))"
proof -
  obtain d1 r2 d2 r3 d3 r4 d4 where
    1: "chargeSubscription c d = Inr d1" and 2: "chargeBalance c (notApplied\<lparr>ur_Applied := True\<rparr>, d1) = Inr (r2, d2)"
    and 3: "chargeKeyQuota c (r2, d2) = Inr (r3, d3)" and 4: "chargeRateLimit E now c (r3, d3) = Inr (r4, d4)"
    and 5: "chargeAccountQuota E now c (r4, d4) = Inr (r, d')"
    using assms(1) unfolding applyUsageBillingEffects_def bindE_Inr by fast
  note steps = moves_subscription [OF 1] moves_balance [OF 2 assms(2)] moves_keyQuota [OF 3 assms(3)]
    moves_rateLimit [OF 4] moves_accountQuota [OF 5]
  show ?thesis
    using moves_trans [OF moves_trans [OF moves_trans [OF moves_trans [OF steps(1,2)] steps(3)] steps(4)] steps(5)]
    by (simp del: paid.simps usedBy.simps)
qed

lemma charge_booked:
  assumes L: "decimal_laws (be_Decimal E)" shows "\<exists>evs. booked d (snd (Apply E now fate c d)) evs"
proof (cases "uc_RequestID (NormalizeUsage E c) = []")
  case True
  then show ?thesis using booked_refl by (auto simp: Apply_def)
next
  case False
  let ?c = "NormalizeUsage E c"
  have grid: "onGrid (uc_BalanceCost ?c)" "onGrid (uc_APIKeyQuotaCost ?c)"
    by (simp_all add: NormalizeUsage_def quantizeMonetaryFields_def Let_def onGrid_quantized [OF L])
  have "\<exists>evs. effectBooked d1 d2 (uc_RequestID ?c, uc_APIKeyID ?c) evs"
    if eff: "bindE (applyUsageBillingEffects E now ?c d1) (\<lambda>(r, d2). Inr (r, logBill (Charged ?c) d2)) = Inr (r, d2)"
    for d1 r d2
  proof -
    obtain d3 where d3: "applyUsageBillingEffects E now ?c d1 = Inr (r, d3)" and d2: "d2 = logBill (Charged ?c) d3"
      using eff by (auto simp: bindE_Inr)
    show ?thesis using effects_moves [OF d3 grid]
      by (intro exI [of _ "[Charged ?c]"])
        (auto simp: effectBooked_def moves_def sameRest_def d2 logBill_def wealth_def frozen_def quotaUsed_def
          simp del: paid.simps usedBy.simps)
  qed
  then show ?thesis using False by (simp add: Apply_def Let_def claimed_booked)
qed

lemma updateHold_booked:
  assumes "updateHold uid P f refused ev d = Inr (r, d')" and "eventKey ev = k"
    and "\<And>u i. P u \<Longrightarrow> (if i = uid then fromUnits (bu_Balance (f u)) + fromUnits (bu_Frozen (f u))
                              - (fromUnits (bu_Balance u) + fromUnits (bu_Frozen u)) else 0) = - paid i ev"
    and "\<And>u i. P u \<Longrightarrow> (if i = uid then fromUnits (bu_Frozen (f u)) - fromUnits (bu_Frozen u) else 0) = frozenBy i ev"
    and "\<And>i. usedBy i ev = 0"
  shows "effectBooked d d' k [ev]"
proof -
  obtain u d1 where u: "updateBillUser uid P f d = Some (u, d1)" and d': "d' = logBill ev d1"
    using assms(1) by (auto simp: updateHold_def split: option.splits if_splits)
  from u obtain u0 where u0: "bd_users d uid = Some u0" "P u0" "d1 = d\<lparr>bd_users := (bd_users d)(uid \<mapsto> f u0)\<rparr>"
    by (elim updateBillUser_Some) blast
  have "wealth i d' = wealth i d - paid i ev" "frozen i d' = frozen i d + frozenBy i ev" for i
    using assms(3,4) [OF u0(2), of i] u0(1)
    by (auto simp: d' u0(3) logBill_def wealth_def frozen_def split: if_splits)
  then show ?thesis using assms(2,5)
    by (auto simp: effectBooked_def d' u0(3) logBill_def quotaUsed_def)
qed


lemma effectBooked_refl: "effectBooked d d k []"
  by (simp add: effectBooked_def)

lemma reserve_booked:
  assumes "reserveUsageBillingBatchImageBalance c d = Inr (r, d')" and "onGrid (hc_HoldAmount c)"
  shows "\<exists>evs. effectBooked d d' (hc_RequestID c, hc_APIKeyID c) evs"
proof (cases "hc_HoldAmount c \<le> 0")
  case True
  then show ?thesis using assms(1) effectBooked_refl
    by (auto simp: reserveUsageBillingBatchImageBalance_def Let_def)
next
  case False
  note held = assms(1) [unfolded reserveUsageBillingBatchImageBalance_def Let_def if_not_P [OF False]]
  show ?thesis
    by (rule exI, rule updateHold_booked [OF held]) (use assms(2) in \<open>auto simp: store_add store_diff\<close>)
qed

lemma capture_booked:
  assumes "captureUsageBillingBatchImageBalance c d = Inr (r, d')" and "holdOnGrid c"
  shows "\<exists>evs. effectBooked d d' (hc_RequestID c, hc_APIKeyID c) evs"
proof (cases "hc_HoldAmount c \<le> 0 \<and> hc_ActualAmount c \<le> 0")
  case True
  then show ?thesis using assms(1) effectBooked_refl
    by (auto simp: captureUsageBillingBatchImageBalance_def Let_def)
next
  case False
  let ?h = "hc_HoldAmount c" and ?a = "hc_ActualAmount c"
  have grid: "onGrid ?h" "onGrid (?h - ?a)" using assms(2) by (auto intro: onGrid_diff)
  have both: "b + (if ?a < ?h then ?h - ?a else 0) - (if ?h < ?a then ?a - ?h else 0) = b + (?h - ?a)" for b by simp
  have covered: "\<not> 1 / 10 ^ 8 < ?a - ?h"
    using False assms(1) by (auto simp: captureUsageBillingBatchImageBalance_def Let_def split: if_splits)
  note captured = assms(1) [unfolded captureUsageBillingBatchImageBalance_def Let_def if_not_P [OF False]
      if_not_P [OF covered]]
  show ?thesis
    by (rule exI, rule updateHold_booked [OF captured]) (auto simp: both store_add store_diff grid)
qed

lemma release_booked:
  assumes "releaseUsageBillingBatchImageBalance c d = Inr (r, d')" and "onGrid (hc_HoldAmount c)"
  shows "\<exists>evs. effectBooked d d' (hc_RequestID c, hc_APIKeyID c) evs"
proof (cases "hc_HoldAmount c \<le> 0 \<or> \<not> batchImageHoldClaimExists (BatchImageHoldRequestID (hc_BatchID c)) (hc_APIKeyID c) d")
  case True
  then show ?thesis using assms(1) effectBooked_refl
    by (auto simp: releaseUsageBillingBatchImageBalance_def Let_def split: if_splits)
next
  case False
  then have "\<not> hc_HoldAmount c \<le> 0"
    "\<not> \<not> batchImageHoldClaimExists (BatchImageHoldRequestID (hc_BatchID c)) (hc_APIKeyID c) d" by auto
  note released = assms(1) [unfolded releaseUsageBillingBatchImageBalance_def Let_def if_not_P [OF this(1)]
      if_not_P [OF this(2)]]
  show ?thesis
    by (rule exI, rule updateHold_booked [OF released]) (use assms(2) in \<open>auto simp: store_add store_diff\<close>)
qed

lemma hold_booked:
  assumes "\<And>c d r d'. holdOnGrid c \<Longrightarrow> effect c d = Inr (r, d') \<Longrightarrow> \<exists>evs. effectBooked d d' (hc_RequestID c, hc_APIKeyID c) evs"
    and "holdOnGrid c"
  shows "\<exists>evs. booked d (snd (applyBatchImageBalanceHold effect E now fate c d)) evs"
proof (cases "hc_RequestID (NormalizeHold E c) = []")
  case True
  then show ?thesis using booked_refl by (auto simp: applyBatchImageBalanceHold_def)
next
  case False
  have "holdOnGrid (NormalizeHold E c)" using assms(2) by (simp add: NormalizeHold_def Let_def)
  then show ?thesis using False assms(1)
    by (auto simp: applyBatchImageBalanceHold_def Let_def bindE_Inr intro!: claimed_booked)
qed

lemma step_booked:
  assumes "decimal_laws (be_Decimal E)" and "opOnGrid op"
  shows "\<exists>evs. booked d (billStep E op d) evs"
proof (cases op)
  case (DoApply now fate c)
  show ?thesis using charge_booked [OF assms(1)] by (simp add: DoApply)
next
  case (DoReserve now fate c)
  then show ?thesis using assms(2) reserve_booked
    by (auto simp: ReserveBatchImageBalance_def intro!: hold_booked)
next
  case (DoCapture now fate c)
  then show ?thesis using assms(2) capture_booked
    by (auto simp: CaptureBatchImageBalance_def intro!: hold_booked)
next
  case (DoRelease now fate c)
  then show ?thesis using assms(2) release_booked
    by (auto simp: ReleaseBatchImageBalance_def intro!: hold_booked)
next
  case (DoCleanup cutoff)
  then show ?thesis using cleanup_booked by auto
qed

lemma history_booked:
  assumes "decimal_laws (be_Decimal E)" and "\<forall>op\<in>set ops. opOnGrid op"
  shows "\<exists>evs. booked d (fold (billStep E) ops d) evs"
  using assms(2)
proof (induction ops arbitrary: d)
  case Nil
  show ?case using booked_refl by auto
next
  case (Cons op ops)
  from Cons.prems step_booked [OF assms(1)] obtain e1 where "booked d (billStep E op d) e1" by fastforce
  moreover from Cons obtain e2 where "booked (billStep E op d) (fold (billStep E) ops (billStep E op d)) e2" by fastforce
  ultimately show ?case using booked_trans by fastforce
qed

text \<open>C3. Whatever charges, holds and cleanups run, in any order, retried under the same request id, failing or
losing their replies: no request is charged twice and no step of a hold is done twice for an API key, what a user
has in the balance and frozen changes by exactly the charges and captures that were done, the frozen part by
exactly the holds taken, captured and released, and the quota a key has used by exactly its charges.\<close>

theorem usage_charged_once:
  assumes "decimal_laws (be_Decimal E)" and "\<forall>op\<in>set ops. opOnGrid op" and "bd_log d0 = []"
  defines "d \<equiv> fold (billStep E) ops d0"
  shows "distinct (map eventKey (bd_log d))
    \<and> wealth uid d = wealth uid d0 - sum_list (map (paid uid) (bd_log d))
    \<and> frozen uid d = frozen uid d0 + sum_list (map (frozenBy uid) (bd_log d))
    \<and> quotaUsed kid d = quotaUsed kid d0 + sum_list (map (usedBy kid) (bd_log d))"
proof -
  obtain evs where b: "booked d0 d evs" using history_booked [OF assms(1,2)] by (auto simp: d_def)
  then have "bd_log d = evs" using assms(3) by (simp add: booked_def)
  with b show ?thesis by (simp add: booked_def)
qed



section \<open>Retries\<close>

lemma charged_claim:
  assumes "Apply E now fate c d = (res, d1)" and "bd_log d1 \<noteq> bd_log d" and "decimal_laws (be_Decimal E)"
  defines "n \<equiv> NormalizeUsage E c"
  shows "\<exists>r\<in>set (claimRows d1). claimKey r = (uc_RequestID n, uc_APIKeyID n)
           \<and> dr_RequestFingerprint r = uc_RequestFingerprint n"
proof -
  have "uc_RequestID n \<noteq> []" using assms(1,2) by (auto simp: Apply_def Let_def n_def)
  then obtain d0 r where new: "claimUsageBillingRequest now (uc_RequestID n) (uc_APIKeyID n) (uc_RequestFingerprint n) d
      = Inr (True, d0)"
    and eff: "bindE (applyUsageBillingEffects E now n d0) (\<lambda>(r, d2). Inr (r, logBill (Charged n) d2)) = Inr (r, d1)"
    using assms(1,2) by (auto simp: Apply_def Let_def n_def dest!: claimed_cases)
  have "onGrid (uc_BalanceCost n)" "onGrid (uc_APIKeyQuotaCost n)"
    by (simp_all add: n_def NormalizeUsage_def quantizeMonetaryFields_def Let_def onGrid_quantized [OF assms(3)])
  with eff have "claimRows d1 = claimRows d0"
    by (auto simp: bindE_Inr logBill_def dest!: effects_moves simp: moves_def sameRest_def)
  then show ?thesis using claim_claimsKept(2) [OF new] by simp
qed

lemma NormalizeUsage_id:
  "uc_RequestID (NormalizeUsage E c) = trim_space (uc_RequestID c)" "uc_APIKeyID (NormalizeUsage E c) = uc_APIKeyID c"
  by (simp_all add: NormalizeUsage_def quantizeMonetaryFields_def Let_def)

text \<open>C4. Once a request has been charged, even if the reply of its transaction was lost, a retry under the same
request id and API key changes nothing, whatever happened in between and however old the claim: it reports that
nothing was applied, or a conflict if its content has another fingerprint.\<close>

theorem retried_charge_not_repeated:
  assumes L: "decimal_laws (be_Decimal E)" and "claimsDistinct d" and first: "Apply E now fate c d = (res, d1)"
    and charged: "bd_log d1 \<noteq> bd_log d" and ops: "\<forall>op\<in>set ops. opOnGrid op"
    and same: "trim_space (uc_RequestID c') = trim_space (uc_RequestID c)" "uc_APIKeyID c' = uc_APIKeyID c"
  defines "d2 \<equiv> fold (billStep E) ops d1"
    and "fp \<equiv> \<lambda>x. trim_space (uc_RequestFingerprint (NormalizeUsage E x))"
  shows "Apply E later TxCommits c' d2
    = (if fp c = fp c' then Inr notApplied else Inl ErrUsageBillingRequestConflict, d2)"
proof -
  obtain r where r: "r \<in> set (claimRows d1)" "claimKey r = (trim_space (uc_RequestID c'), uc_APIKeyID c')"
    "dr_RequestFingerprint r = uc_RequestFingerprint (NormalizeUsage E c)"
    using charged_claim [OF first charged L] same by (auto simp: NormalizeUsage_id)
  obtain e1 where "booked d d1 e1" using step_booked [OF L, of "DoApply now fate c" d] first by auto
  then have "claimsDistinct d1" using assms(2) by (auto simp: booked_def claimsKept_def)
  moreover obtain e2 where "booked d1 d2 e2" using history_booked [OF L ops] by (auto simp: d2_def)
  ultimately have d2: "claimsDistinct d2" "r \<in> set (claimRows d2)" using r(1) by (auto simp: booked_def claimsKept_def)
  have "trim_space (uc_RequestID c') \<noteq> []"
    using first charged same by (auto simp: Apply_def Let_def NormalizeUsage_id)
  then show ?thesis using claim_again [OF d2 r(2)] r(3)
    by (simp add: Apply_def Let_def NormalizeUsage_id claimed_def fp_def)
qed

section \<open>What a charge reports\<close>

lemma fromUnits_le [simp]: "fromUnits m \<le> fromUnits n \<longleftrightarrow> m \<le> n"
  and fromUnits_less [simp]: "fromUnits m < fromUnits n \<longleftrightarrow> m < n"
  by (auto simp: fromUnits_def divide_le_cancel divide_less_cancel)

definition liveUser :: "billDB \<Rightarrow> int \<Rightarrow> billUser option" where
  "liveUser d uid = (case bd_users d uid of None \<Rightarrow> None | Some u \<Rightarrow> if bu_Deleted u then None else Some u)"

lemma liveUser_iff: "liveUser d uid = Some u \<longleftrightarrow> bd_users d uid = Some u \<and> \<not> bu_Deleted u"
  by (auto simp: liveUser_def split: option.splits)

lemma balance_reports:
  assumes "chargeBalance c (r, d) = Inr (r', d')" and grid: "onGrid (uc_BalanceCost c)"
  shows "bd_keys d' = bd_keys d" and "ur_APIKeyQuotaExhausted r' = ur_APIKeyQuotaExhausted r"
    and "0 < uc_BalanceCost c \<Longrightarrow> \<exists>u b. liveUser d (uc_UserID c) = Some u \<and> ur_NewBalance r' = Some b
            \<and> fromUnits b = fromUnits (bu_Balance u) - uc_BalanceCost c
            \<and> (ur_BalanceOverdrafted r' \<longleftrightarrow> fromUnits (bu_Balance u) < uc_BalanceCost c)"
    and "uc_BalanceCost c \<le> 0 \<Longrightarrow> r' = r"
  using assms
  by (auto simp: chargeBalance_def bindE_Inr deductUsageBillingBalance_def updateBillUser_def takeBillBalance_def
      liveUser_iff store_diff split: option.splits if_splits)

lemma keyQuota_reports:
  assumes "chargeKeyQuota c (r, d) = Inr (r', d')" and grid: "onGrid (uc_APIKeyQuotaCost c)"
  shows "ur_NewBalance r' = ur_NewBalance r" and "ur_BalanceOverdrafted r' = ur_BalanceOverdrafted r"
    and "0 < uc_APIKeyQuotaCost c \<Longrightarrow> \<exists>k k1. bd_keys d (uc_APIKeyID c) = Some k \<and> bd_keys d' (uc_APIKeyID c) = Some k1
            \<and> (ur_APIKeyQuotaExhausted r' \<longleftrightarrow> \<not> IsQuotaExhausted k \<and> IsQuotaExhausted k1)
            \<and> ak_Status k1 = (if ur_APIKeyQuotaExhausted r' \<and> ak_Status k = StatusAPIKeyActive
                              then StatusAPIKeyQuotaExhausted else ak_Status k)"
    and "uc_APIKeyQuotaCost c \<le> 0 \<Longrightarrow> r' = r"
proof -
  let ?x = "uc_APIKeyQuotaCost c"
  show "ur_NewBalance r' = ur_NewBalance r" "ur_BalanceOverdrafted r' = ur_BalanceOverdrafted r" "?x \<le> 0 \<Longrightarrow> r' = r"
    using assms(1) by (auto simp: chargeKeyQuota_def bindE_Inr split: if_splits)
  assume pos: "0 < ?x"
  then obtain k where k: "bd_keys d (uc_APIKeyID c) = Some k" "bd_keys d' (uc_APIKeyID c) = Some (addQuotaUsed ?x k)"
    and r': "ur_APIKeyQuotaExhausted r' \<longleftrightarrow> 0 < ak_Quota k \<and> ak_Quota k \<le> ak_QuotaUsed (addQuotaUsed ?x k)
               \<and> fromUnits (ak_QuotaUsed (addQuotaUsed ?x k)) - ?x < fromUnits (ak_Quota k)"
    using assms(1) by (auto simp: chargeKeyQuota_def bindE_Inr incrementUsageBillingAPIKeyQuota_def updateKey_def
        addQuotaUsed_def split: option.splits if_splits)
  have used: "fromUnits (ak_QuotaUsed (addQuotaUsed ?x k)) = fromUnits (ak_QuotaUsed k) + ?x"
    using grid by (simp add: addQuotaUsed_def store_add)
  then have over: "fromUnits (ak_Quota k) \<le> fromUnits (ak_QuotaUsed k) + ?x \<longleftrightarrow> ak_Quota k \<le> ak_QuotaUsed (addQuotaUsed ?x k)"
    by (metis fromUnits_le)
  have status: "ak_Status (addQuotaUsed ?x k) = (if 0 < ak_Quota k \<and> ak_Status k = StatusAPIKeyActive
      \<and> ak_QuotaUsed k < ak_Quota k \<and> ak_Quota k \<le> ak_QuotaUsed (addQuotaUsed ?x k) then StatusAPIKeyQuotaExhausted else ak_Status k)"
    "ak_Quota (addQuotaUsed ?x k) = ak_Quota k"
    using over by (simp_all add: addQuotaUsed_def)
  show "\<exists>k k1. bd_keys d (uc_APIKeyID c) = Some k \<and> bd_keys d' (uc_APIKeyID c) = Some k1
            \<and> (ur_APIKeyQuotaExhausted r' \<longleftrightarrow> \<not> IsQuotaExhausted k \<and> IsQuotaExhausted k1)
            \<and> ak_Status k1 = (if ur_APIKeyQuotaExhausted r' \<and> ak_Status k = StatusAPIKeyActive
                              then StatusAPIKeyQuotaExhausted else ak_Status k)"
    using k r' used status by (auto simp: IsQuotaExhausted_def)
qed

lemma rateLimit_reports:
  assumes "chargeRateLimit E now c (r, d) = Inr (r', d')"
  shows "r' = r" and "\<exists>f. bd_keys d' kid = map_option f (bd_keys d kid)
    \<and> (\<forall>k. ak_Status (f k) = ak_Status k \<and> IsQuotaExhausted (f k) = IsQuotaExhausted k)"
proof -
  show "r' = r" using assms by (auto simp: chargeRateLimit_def bindE_Inr split: if_splits)
  show "\<exists>f. bd_keys d' kid = map_option f (bd_keys d kid)
    \<and> (\<forall>k. ak_Status (f k) = ak_Status k \<and> IsQuotaExhausted (f k) = IsQuotaExhausted k)"
  proof (cases "bd_keys d' kid = bd_keys d kid")
    case True
    then show ?thesis by (intro exI [of _ "\<lambda>k. k"]) (simp add: option.map_ident)
  next
    case False
    then have "bd_keys d' kid = map_option (rateLimitIncrement (be_Zone E) now (storeUnits (uc_APIKeyRateLimitCost c))) (bd_keys d kid)"
      using assms by (auto simp: chargeRateLimit_def bindE_Inr incrementUsageBillingAPIKeyRateLimit_def updateKey_def
          split: option.splits if_splits)
    then show ?thesis
      by (intro exI conjI) (auto simp: rateLimitIncrement_def mapWindows_def Let_def IsQuotaExhausted_def)
  qed
qed

lemma accountQuota_reports:
  assumes "chargeAccountQuota E now c (r, d) = Inr (r', d')"
  shows "bd_keys d' = bd_keys d" "ur_NewBalance r' = ur_NewBalance r" "ur_BalanceOverdrafted r' = ur_BalanceOverdrafted r"
    "ur_APIKeyQuotaExhausted r' = ur_APIKeyQuotaExhausted r"
  using assms by (auto simp: chargeAccountQuota_def bindE_Inr incrementUsageBillingAccountQuota_def Let_def
      split: option.splits if_splits)

lemma subscription_reports:
  "chargeSubscription c d = Inr d' \<Longrightarrow> bd_keys d' = bd_keys d \<and> bd_users d' = bd_users d"
  by (auto simp: chargeSubscription_def incrementUsageBillingSubscription_def bindE_Inr split: option.splits if_splits)

text \<open>C5. A charge that was applied reports the balance it left, flags an overdraft exactly when the balance did
not cover the cost, and flags the API key as exhausted exactly when this charge is the one that takes the key
from under its quota to it; only then, and only if the key was active, does its status become exhausted.\<close>

theorem charge_reports_exactly:
  assumes L: "decimal_laws (be_Decimal E)" and applied: "Apply E now TxCommits c d = (Inr r, d1)" and "ur_Applied r"
  defines "n \<equiv> NormalizeUsage E c"
  shows "(0 < uc_BalanceCost n \<longrightarrow> (\<exists>u b. liveUser d (uc_UserID n) = Some u \<and> ur_NewBalance r = Some b
            \<and> fromUnits b = fromUnits (bu_Balance u) - uc_BalanceCost n
            \<and> (ur_BalanceOverdrafted r \<longleftrightarrow> fromUnits (bu_Balance u) < uc_BalanceCost n)))
       \<and> (uc_BalanceCost n \<le> 0 \<longrightarrow> ur_NewBalance r = None \<and> \<not> ur_BalanceOverdrafted r)
       \<and> (0 < uc_APIKeyQuotaCost n \<longrightarrow> (\<exists>k k1. bd_keys d (uc_APIKeyID n) = Some k \<and> bd_keys d1 (uc_APIKeyID n) = Some k1
            \<and> (ur_APIKeyQuotaExhausted r \<longleftrightarrow> \<not> IsQuotaExhausted k \<and> IsQuotaExhausted k1)
            \<and> ak_Status k1 = (if ur_APIKeyQuotaExhausted r \<and> ak_Status k = StatusAPIKeyActive
                              then StatusAPIKeyQuotaExhausted else ak_Status k)))
       \<and> (uc_APIKeyQuotaCost n \<le> 0 \<longrightarrow> \<not> ur_APIKeyQuotaExhausted r)"
proof -
  have id: "uc_RequestID n \<noteq> []" using applied by (auto simp: Apply_def Let_def n_def)
  obtain d0 d5 where new: "d0 = d\<lparr>bd_dedup := bd_dedup d0\<rparr>" and eff: "applyUsageBillingEffects E now n d0 = Inr (r, d5)"
    and d1: "d1 = logBill (Charged n) d5"
    using applied assms(3) id by (auto simp: Apply_def Let_def n_def claimed_def notApplied_def bindE_Inr
        dest!: claim_taken(3) split: sum.splits bool.splits prod.splits)
  obtain da rb db rc dc rd dd where
    1: "chargeSubscription n d0 = Inr da" and 2: "chargeBalance n (notApplied\<lparr>ur_Applied := True\<rparr>, da) = Inr (rb, db)"
    and 3: "chargeKeyQuota n (rb, db) = Inr (rc, dc)" and 4: "chargeRateLimit E now n (rc, dc) = Inr (rd, dd)"
    and 5: "chargeAccountQuota E now n (rd, dd) = Inr (r, d5)"
    using eff unfolding applyUsageBillingEffects_def bindE_Inr by fast
  have grid: "onGrid (uc_BalanceCost n)" "onGrid (uc_APIKeyQuotaCost n)"
    by (simp_all add: n_def NormalizeUsage_def quantizeMonetaryFields_def Let_def onGrid_quantized [OF L])
  have "bd_keys d0 = bd_keys d" "bd_users d0 = bd_users d" by (subst new, simp)+
  then have keys: "bd_keys db = bd_keys d" "bd_keys d1 = bd_keys dd" and users: "bd_users da = bd_users d"
    using subscription_reports [OF 1] balance_reports(1) [OF 2 grid(1)] accountQuota_reports(1) [OF 5]
    by (simp_all add: d1 logBill_def)
  obtain f where f: "bd_keys d1 (uc_APIKeyID n) = map_option f (bd_keys dc (uc_APIKeyID n))"
    "\<And>k. ak_Status (f k) = ak_Status k \<and> IsQuotaExhausted (f k) = IsQuotaExhausted k"
    using rateLimit_reports(2) [OF 4] keys(2) by metis
  have live: "liveUser da = liveUser d" by (simp add: fun_eq_iff liveUser_def users)
  have r: "ur_NewBalance r = ur_NewBalance rb" "ur_BalanceOverdrafted r = ur_BalanceOverdrafted rb"
    "ur_APIKeyQuotaExhausted r = ur_APIKeyQuotaExhausted rc"
    using accountQuota_reports(2-4) [OF 5] rateLimit_reports(1) [OF 4] keyQuota_reports(1,2) [OF 3 grid(2)] by simp_all
  note balance = balance_reports [OF 2 grid(1), unfolded live]
  note quota = keyQuota_reports [OF 3 grid(2), unfolded keys]
  show ?thesis unfolding r
  proof (intro conjI impI)
    assume "0 < uc_BalanceCost n" then show "\<exists>u b. liveUser d (uc_UserID n) = Some u \<and> ur_NewBalance rb = Some b
        \<and> fromUnits b = fromUnits (bu_Balance u) - uc_BalanceCost n
        \<and> (ur_BalanceOverdrafted rb \<longleftrightarrow> fromUnits (bu_Balance u) < uc_BalanceCost n)" by (rule balance(3))
  next
    assume "0 < uc_APIKeyQuotaCost n"
    then obtain k k1 where k: "bd_keys d (uc_APIKeyID n) = Some k" "bd_keys dc (uc_APIKeyID n) = Some k1"
      "ur_APIKeyQuotaExhausted rc \<longleftrightarrow> \<not> IsQuotaExhausted k \<and> IsQuotaExhausted k1"
      "ak_Status k1 = (if ur_APIKeyQuotaExhausted rc \<and> ak_Status k = StatusAPIKeyActive
                       then StatusAPIKeyQuotaExhausted else ak_Status k)" using quota(3) by blast
    show "\<exists>k k1. bd_keys d (uc_APIKeyID n) = Some k \<and> bd_keys d1 (uc_APIKeyID n) = Some k1
      \<and> (ur_APIKeyQuotaExhausted rc \<longleftrightarrow> \<not> IsQuotaExhausted k \<and> IsQuotaExhausted k1)
      \<and> ak_Status k1 = (if ur_APIKeyQuotaExhausted rc \<and> ak_Status k = StatusAPIKeyActive
                        then StatusAPIKeyQuotaExhausted else ak_Status k)"
      by (intro exI [of _ k] exI [of _ "f k1"] conjI) (simp_all only: k f option.map)
  qed (use balance(2,4) quota(4) in \<open>simp_all add: notApplied_def\<close>)
qed

end
