(* ===== verification/KeyLimitsFacts.thy ===== *)
theory KeyLimitsFacts
  imports KeyLimits
begin

text \<open>
  The usage that the windows of an API key show is what was charged since each began.

  \<^item> The locale \<open>rate_window\<close> has what the three windows share and is interpreted for each of them.
  \<^item> The database session's time zone has a fixed offset, except in the last theorem, which shows what
    a change of the offset does to the daily window.
\<close>

section \<open>A window against the history of charges\<close>

text \<open>What was charged from an instant on.\<close>

definition chargedFrom :: "(time \<times> int) list \<Rightarrow> time \<Rightarrow> int" where
  "chargedFrom H s = sum_list (map snd (filter (\<lambda>(t, c). s \<le> t) H))"

lemma chargedFrom_none: "(\<And>t c. (t, c) \<in> set H \<Longrightarrow> t < s) \<Longrightarrow> chargedFrom H s = 0"
  unfolding chargedFrom_def by (subst filter_False) fastforce+

lemma chargedFrom_snoc: "chargedFrom (H @ [(t, c)]) s = chargedFrom H s + (if s \<le> t then c else 0)"
  by (simp add: chargedFrom_def)

lemma expired_iff:
  "0 < d \<Longrightarrow> d \<le> max_duration \<Longrightarrow> IsWindowExpired (Some s) d now \<longleftrightarrow> s + d \<le> now"
  using t_sub_less [of d now s] by (auto simp: IsWindowExpired_def min_duration_def not_less [symmetric])

text \<open>What the three windows share: how long one lasts and where a new one starts.\<close>

locale rate_window =
  fixes d :: duration and endOf :: "time \<Rightarrow> time" and fresh :: "time \<Rightarrow> time"
  assumes d: "0 < d" "d \<le> max_duration"
    and endOf: "endOf s = s + d"
    and fresh: "fresh t \<le> t" "t < fresh t + d"
    and after: "fresh t + d \<le> u \<Longrightarrow> fresh t + d \<le> fresh u"
begin

definition counts :: "(time \<times> int) list \<Rightarrow> time \<Rightarrow> int \<times> time option \<Rightarrow> bool" where
  "counts H now w \<longleftrightarrow> (case snd w of
     None \<Rightarrow> fst w = 0 \<and> H = []
   | Some s \<Rightarrow> fst w = chargedFrom H s \<and> (\<exists>t. s = fresh t \<and> t \<le> now) \<and> (\<forall>(t, c)\<in>set H. t < s + d))"

lemma counts_later: "counts H t w \<Longrightarrow> t \<le> now \<Longrightarrow> counts H now w"
  by (fastforce simp: counts_def split: option.splits)

text \<open>When a window is over, all earlier charges lie before the one opened now.\<close>

lemma over_before:
  assumes "counts H now (u, Some s)" and "s + d \<le> now"
  shows "chargedFrom H (fresh now) = 0"
proof (rule chargedFrom_none)
  fix t c
  assume "(t, c) \<in> set H"
  moreover obtain t0 where "s = fresh t0" using assms(1) by (auto simp: counts_def)
  ultimately show "t < fresh now" using assms after [of t0 now] by (fastforce simp: counts_def)
qed

lemma counts_before: "counts H now (u, Some s) \<Longrightarrow> (t, c) \<in> set H \<Longrightarrow> t < s + d"
  by (auto simp: counts_def)

lemma counts_start: "counts H now (u, Some s) \<Longrightarrow> s \<le> now"
  by (auto simp: counts_def intro: order_trans [OF fresh(1)])

lemma counts_reset:
  assumes "counts H now w"
  shows "counts H now (resetKeyWindow endOf (fresh now) now w)"
proof (cases w)
  case (Pair u start)
  show ?thesis
  proof (cases start)
    case None
    then show ?thesis using assms Pair by (simp add: resetKeyWindow_def sqlOver_def)
  next
    case (Some s)
    have "s + d \<le> now \<Longrightarrow> t < fresh now + d" if "(t, c) \<in> set H" for t c
      using counts_before [of H now u s] that assms Pair Some fresh(2) [of now] by fastforce
    then show ?thesis
      using assms Pair Some over_before [of H now u s]
      by (cases "s + d \<le> now") (auto simp: resetKeyWindow_def sqlOver_def endOf counts_def)
  qed
qed

lemma counts_bump:
  assumes "counts H now w"
  shows "counts (H @ [(now, c)]) now (bumpWindow endOf (fresh now) now c w)"
proof (cases w)
  case (Pair u start)
  show ?thesis
  proof (cases start)
    case None
    then show ?thesis using assms Pair fresh [of now]
      by (auto simp: bumpWindow_def sqlOver_def counts_def chargedFrom_def)
  next
    case (Some s)
    have "s + d \<le> now \<Longrightarrow> t < fresh now + d" if "(t, c) \<in> set H" for t c
      using counts_before [of H now u s] that assms Pair Some fresh(2) [of now] by fastforce
    then show ?thesis
      using assms Pair Some over_before [of H now u s] counts_start [of H now u s] fresh [of now]
      by (cases "s + d \<le> now") (auto simp: bumpWindow_def sqlOver_def endOf counts_def chargedFrom_snoc)
  qed
qed

lemma visible_counts:
  assumes "counts H now (u, start)"
  shows "(if IsWindowExpired start d now then 0 else u)
    = (case start of None \<Rightarrow> 0 | Some s \<Rightarrow> if s + d \<le> now then 0 else chargedFrom H s)"
  using assms by (cases start) (auto simp: counts_def expired_iff [OF d])

end

lemma week_fixed: "RateLimitWindow7d = 7 * day" "RateLimitWindow1d = day" "RateLimitWindow5h = 5 * hour"
  by (simp_all add: RateLimitWindow7d_def RateLimitWindow1d_def RateLimitWindow5h_def day_def)

section \<open>The three windows\<close>

lemma hour_windows: "0 < 5 * hour" "5 * hour \<le> max_duration" "0 < 7 * day" "7 * day \<le> max_duration" "day \<le> max_duration"
  by (simp_all add: duration_defs day_def)

interpretation five: rate_window "5 * hour" end5h "\<lambda>t. t"
  by unfold_locales (use hour_windows in \<open>auto simp: end5h_def\<close>)

lemma StartOfDay_reached:
  assumes z: "fixed_zone z" and u: "StartOfDay z t + n * day \<le> u"
  shows "StartOfDay z t + n * day \<le> StartOfDay z u"
proof -
  have "StartOfDay z (StartOfDay z t + n * day) = StartOfDay z t + n * day"
    using day_pos by (simp add: StartOfDay_fixed [OF z]) (simp add: distrib_right)
  then show ?thesis using StartOfDay_mono [OF z u] by simp
qed

lemma daily_window:
  assumes z: "fixed_zone z"
  shows "rate_window day end1d (StartOfDay z)"
proof
  show "StartOfDay z t + day \<le> u \<Longrightarrow> StartOfDay z t + day \<le> StartOfDay z u" for t u
    using StartOfDay_reached [OF z, of t 1 u] by simp
  show "end1d s = s + day" for s by (simp add: end1d_def day_def)
qed (use hour_windows day_pos StartOfDay_le [OF z] StartOfDay_next [OF z] in auto)

lemma weekly_window:
  assumes z: "fixed_zone z"
  shows "rate_window (7 * day) (end7d z) (StartOfDay z)"
proof
  show "StartOfDay z t + 7 * day \<le> u \<Longrightarrow> StartOfDay z t + 7 * day \<le> StartOfDay z u" for t u
    by (rule StartOfDay_reached [OF z])
  show "end7d z s = s + 7 * day" for s by (simp add: end7d_def AddDays_fixed [OF z])
  show "t < StartOfDay z t + 7 * day" for t using StartOfDay_next [OF z, of t] day_pos by linarith
qed (use hour_windows StartOfDay_le [OF z] in auto)

interpretation daily: rate_window day end1d "StartOfDay shanghai"
  by (rule daily_window [OF fixed_shanghai])

interpretation weekly: rate_window "7 * day" "end7d shanghai" "StartOfDay shanghai"
  by (rule weekly_window [OF fixed_shanghai])

section \<open>A key's life\<close>

datatype keyOp = KeyCharge time int | KeyReset time

fun keyOpTime :: "keyOp \<Rightarrow> time" where
  "keyOpTime (KeyCharge t _) = t" | "keyOpTime (KeyReset t) = t"

fun keyStep :: "zone \<Rightarrow> keyOp \<Rightarrow> apiKey \<Rightarrow> apiKey" where
  "keyStep z (KeyCharge t c) k = rateLimitIncrement z t c k"
| "keyStep z (KeyReset t) k = rateLimitReset z t k"

definition keyCharges :: "keyOp list \<Rightarrow> (time \<times> int) list" where
  "keyCharges ops = concat (map (\<lambda>op. case op of KeyCharge t c \<Rightarrow> [(t, c)] | KeyReset _ \<Rightarrow> []) ops)"

definition freshKey :: "apiKey \<Rightarrow> bool" where
  "freshKey k \<longleftrightarrow> ak_Usage5h k = 0 \<and> ak_Usage1d k = 0 \<and> ak_Usage7d k = 0
     \<and> ak_Window5hStart k = None \<and> ak_Window1dStart k = None \<and> ak_Window7dStart k = None"

definition keyCounts :: "zone \<Rightarrow> (time \<times> int) list \<Rightarrow> time \<Rightarrow> apiKey \<Rightarrow> bool" where
  "keyCounts z H now k \<longleftrightarrow>
     rate_window.counts (5 * hour) (\<lambda>t. t) H now (ak_Usage5h k, ak_Window5hStart k)
   \<and> rate_window.counts day (StartOfDay z) H now (ak_Usage1d k, ak_Window1dStart k)
   \<and> rate_window.counts (7 * day) (StartOfDay z) H now (ak_Usage7d k, ak_Window7dStart k)"

lemma keyCounts_later:
  assumes "fixed_zone z" and "keyCounts z H t k" and "t \<le> now"
  shows "keyCounts z H now k"
  using assms(2) five.counts_later [OF _ assms(3)] rate_window.counts_later [OF daily_window [OF assms(1)] _ assms(3)]
    rate_window.counts_later [OF weekly_window [OF assms(1)] _ assms(3)]
  unfolding keyCounts_def by blast

lemma keyCounts_step:
  assumes z: "fixed_zone z" and k: "keyCounts z (keyCharges ops) t k" and t: "t \<le> keyOpTime op"
  shows "keyCounts z (keyCharges (ops @ [op])) (keyOpTime op) (keyStep z op k)"
proof -
  note bump = five.counts_bump rate_window.counts_bump [OF daily_window [OF z]] rate_window.counts_bump [OF weekly_window [OF z]]
  note reset = five.counts_reset rate_window.counts_reset [OF daily_window [OF z]] rate_window.counts_reset [OF weekly_window [OF z]]
  have now: "keyCounts z (keyCharges ops) (keyOpTime op) k"
    by (rule keyCounts_later [OF z k t])
  show ?thesis
  proof (cases op)
    case (KeyCharge u c)
    then show ?thesis using now bump
      by (simp add: keyCounts_def keyCharges_def rateLimitIncrement_def mapWindows_def Let_def)
  next
    case (KeyReset u)
    then show ?thesis using now reset
      by (simp add: keyCounts_def keyCharges_def rateLimitReset_def mapWindows_def Let_def)
  qed
qed

lemma keyCounts_run:
  assumes "fixed_zone z" and "freshKey k0" and "sorted (map keyOpTime ops @ [now])"
  shows "keyCounts z (keyCharges ops) now (fold (keyStep z) ops k0)"
  using assms(3)
proof (induction ops arbitrary: now rule: rev_induct)
  case Nil
  then show ?case using assms(2)
    by (simp add: keyCounts_def freshKey_def keyCharges_def five.counts_def
        rate_window.counts_def [OF daily_window [OF assms(1)]] rate_window.counts_def [OF weekly_window [OF assms(1)]])
next
  case (snoc op ops)
  have "keyCounts z (keyCharges (ops @ [op])) (keyOpTime op) (keyStep z op (fold (keyStep z) ops k0))"
    using keyCounts_step [OF assms(1) snoc.IH [of "keyOpTime op"], of op] snoc.prems by (simp add: sorted_append)
  moreover have "keyOpTime op \<le> now" using snoc.prems by (simp add: sorted_append)
  ultimately show ?case using keyCounts_later [OF assms(1)] by simp
qed

section \<open>Properties\<close>

definition windowUsage :: "(time \<times> int) list \<Rightarrow> duration \<Rightarrow> time \<Rightarrow> time option \<Rightarrow> int" where
  "windowUsage H d now start =
    (case start of None \<Rightarrow> 0 | Some s \<Rightarrow> if s + d \<le> now then 0 else chargedFrom H s)"

definition exampleKey :: apiKey where
  "exampleKey = \<lparr>ak_Status = StatusAPIKeyActive, ak_ExpiresAt = None, ak_Quota = 100, ak_QuotaUsed = 0, ak_RateLimit5h = 0,
     ak_RateLimit1d = 0, ak_RateLimit7d = 0, ak_Usage5h = 0, ak_Usage1d = 0, ak_Usage7d = 0, ak_Window5hStart = None,
     ak_Window1dStart = None, ak_Window7dStart = None, ak_Deleted = False\<rparr>"

text \<open>C25. The usage that the checks of a request see in a window of an API key is exactly what was charged
since the window began, and nothing once it has ended: for a key created without usage and any charges
and background resets since, in the order of time.\<close>

theorem key_usage_exact:
  assumes "fixed_zone z" and "freshKey k0" and "sorted (map keyOpTime ops @ [now])"
    and "k = fold (keyStep z) ops k0"
  shows "EffectiveUsage5h now k = windowUsage (keyCharges ops) RateLimitWindow5h now (ak_Window5hStart k)
       \<and> EffectiveUsage1d now k = windowUsage (keyCharges ops) RateLimitWindow1d now (ak_Window1dStart k)
       \<and> EffectiveUsage7d now k = windowUsage (keyCharges ops) RateLimitWindow7d now (ak_Window7dStart k)"
  using keyCounts_run [OF assms(1-3)] five.visible_counts rate_window.visible_counts [OF daily_window [OF assms(1)]]
    rate_window.visible_counts [OF weekly_window [OF assms(1)]]
  by (simp add: keyCounts_def assms(4) windowUsage_def EffectiveUsage5h_def EffectiveUsage1d_def EffectiveUsage7d_def week_fixed)

theorem key_usage_exact_witness:
  "EffectiveUsage1d (30 * hour) (fold (keyStep shanghai) [KeyCharge (10 * hour) 5, KeyReset (20 * hour), KeyCharge (29 * hour) 7] exampleKey)
     = windowUsage [(10 * hour, 5), (29 * hour, 7)] RateLimitWindow1d (30 * hour) (Some (16 * hour))"
proof -
  let ?ops = "[KeyCharge (10 * hour) 5, KeyReset (20 * hour), KeyCharge (29 * hour) 7]"
  have "freshKey exampleKey \<and> sorted (map keyOpTime ?ops @ [30 * hour])
    \<and> ak_Window1dStart (fold (keyStep shanghai) ?ops exampleKey) = Some (16 * hour)"
    by code_simp
  then show ?thesis
    using key_usage_exact [OF fixed_shanghai, of exampleKey ?ops "30 * hour" "fold (keyStep shanghai) ?ops exampleKey"]
    by (simp add: keyCharges_def)
qed

text \<open>In a time zone with summer time the daily limit does not bind in the last hour of the day on which
clocks go back: the window opened at midnight is over after 24 hours, the one opened then begins at the same
midnight, so every charge is forgotten at once.\<close>

definition berlin :: zone where
  "berlin t = (if t < 1761440400 * second then 2 * hour else hour)"

theorem long_day_last_hour_uncounted:
  "let midnight = 1761429600 * second; now = midnight + 24 * hour + 30 * minute;
       k = keyStep berlin (KeyCharge now 80) (keyStep berlin (KeyCharge (now - minute) 90) exampleKey)
   in StartOfDay berlin now = midnight \<and> EffectiveUsage1d now k = 0"
  by code_simp

end
