(* ===== verification/HoldFacts.thy ===== *)
theory HoldFacts
  imports UsageBillingFacts KeyLimitsFacts
begin

text \<open>
  Holds of batch image jobs and the cleanup of claims: bounds and cases that show what the code does at its
  edges, and the examples on which the properties of UsageBillingFacts are evaluated.
\<close>

section \<open>The frozen part of a balance\<close>

definition frozenOK :: "billDB \<Rightarrow> bool" where
  "frozenOK d \<longleftrightarrow> (\<forall>uid u. bd_users d uid = Some u \<longrightarrow> 0 \<le> bu_Frozen u)"

lemma storeUnits_nonneg: "0 \<le> x \<Longrightarrow> 0 \<le> storeUnits x"
  by (simp add: storeUnits_def Let_def)

lemma fromUnits_nonneg: "0 \<le> n \<Longrightarrow> 0 \<le> fromUnits n"
  by (simp add: fromUnits_def)

lemma claimed_keeps:
  assumes "I d" and "\<And>d1. I d \<Longrightarrow> I (d\<lparr>bd_dedup := d1\<rparr>)"
    and "\<And>d1 r d2. I d1 \<Longrightarrow> eff d1 = Inr (r, d2) \<Longrightarrow> I d2"
  shows "I (snd (claimed fate now rid kid fp eff unapplied d))"
proof -
  obtain res d' where c: "claimed fate now rid kid fp eff unapplied d = (res, d')" by fastforce
  from claimed_cases [OF c] have "I d'"
    using assms by (elim disjE exE conjE) (simp, metis claim_taken(3))
  then show ?thesis by (simp add: c)
qed

lemma updateBillUser_frozen:
  assumes "frozenOK d" and "updateBillUser uid P f d = Some (u, d')"
    and "\<And>u. 0 \<le> bu_Frozen u \<Longrightarrow> P u \<Longrightarrow> 0 \<le> bu_Frozen (f u)"
  shows "frozenOK d'"
  using assms by (auto simp: updateBillUser_def frozenOK_def split: option.splits if_splits)

lemma frozenOK_same: "frozenOK d \<Longrightarrow> bd_users d' = bd_users d \<Longrightarrow> frozenOK d'"
  by (simp add: frozenOK_def)

lemma frozenOK_log [simp]: "frozenOK (logBill ev d) = frozenOK d" "frozenOK (d\<lparr>bd_dedup := x\<rparr>) = frozenOK d"
  by (simp_all add: frozenOK_def logBill_def)

lemma balance_frozen: "frozenOK d \<Longrightarrow> chargeBalance c (r, d) = Inr (r', d') \<Longrightarrow> frozenOK d'"
  by (auto simp: chargeBalance_def bindE_Inr deductUsageBillingBalance_def takeBillBalance_def
      elim!: updateBillUser_frozen split: option.splits if_splits)


lemma effects_frozen:
  assumes "applyUsageBillingEffects E now c d = Inr (r, d')" and "frozenOK d"
  shows "frozenOK d'"
proof -
  obtain d1 r2 d2 r3 d3 r4 d4 where
    1: "chargeSubscription c d = Inr d1" and 2: "chargeBalance c (notApplied\<lparr>ur_Applied := True\<rparr>, d1) = Inr (r2, d2)"
    and 3: "chargeKeyQuota c (r2, d2) = Inr (r3, d3)" and 4: "chargeRateLimit E now c (r3, d3) = Inr (r4, d4)"
    and 5: "chargeAccountQuota E now c (r4, d4) = Inr (r, d')"
    using assms(1) unfolding applyUsageBillingEffects_def bindE_Inr by fast
  have "bd_users d1 = bd_users d" using subscription_reports [OF 1] by simp
  moreover have "bd_users d3 = bd_users d2"
    using 3 by (auto simp: chargeKeyQuota_def bindE_Inr incrementUsageBillingAPIKeyQuota_def split: option.splits if_splits)
  moreover have "bd_users d4 = bd_users d3"
    using 4 by (auto simp: chargeRateLimit_def bindE_Inr incrementUsageBillingAPIKeyRateLimit_def split: option.splits if_splits)
  moreover have "bd_users d' = bd_users d4"
    using 5 by (auto simp: chargeAccountQuota_def bindE_Inr incrementUsageBillingAccountQuota_def Let_def
        split: option.splits if_splits)
  ultimately show ?thesis using assms(2) balance_frozen [OF _ 2] by (metis frozenOK_same)
qed

lemma updateHold_frozen:
  assumes "updateHold uid P f refused ev d = Inr (r, d')" and "frozenOK d"
    and "\<And>u. 0 \<le> bu_Frozen u \<Longrightarrow> P u \<Longrightarrow> 0 \<le> bu_Frozen (f u)"
  shows "frozenOK d'"
proof -
  obtain u d1 where "updateBillUser uid P f d = Some (u, d1)" "d' = logBill ev d1"
    using assms(1) by (auto simp: updateHold_def split: option.splits if_splits)
  then show ?thesis using updateBillUser_frozen [OF assms(2)] assms(3) by simp
qed

lemma hold_effects_frozen:
  "reserveUsageBillingBatchImageBalance c d = Inr (r, d') \<Longrightarrow> frozenOK d \<Longrightarrow> frozenOK d'"
  "captureUsageBillingBatchImageBalance c d = Inr (r, d') \<Longrightarrow> frozenOK d \<Longrightarrow> frozenOK d'"
  "releaseUsageBillingBatchImageBalance c d = Inr (r, d') \<Longrightarrow> frozenOK d \<Longrightarrow> frozenOK d'"
  by (auto simp: reserveUsageBillingBatchImageBalance_def captureUsageBillingBatchImageBalance_def
      releaseUsageBillingBatchImageBalance_def Let_def fromUnits_nonneg
      intro!: storeUnits_nonneg elim!: updateHold_frozen split: if_splits)

lemma applyHold_frozen:
  assumes "frozenOK d" and "\<And>c d r d'. effect c d = Inr (r, d') \<Longrightarrow> frozenOK d \<Longrightarrow> frozenOK d'"
  shows "frozenOK (snd (applyBatchImageBalanceHold effect E now fate c d))"
  using assms
  by (auto simp: applyBatchImageBalanceHold_def Let_def bindE_Inr intro!: claimed_keeps [where I = frozenOK])

lemma step_frozen: "frozenOK d \<Longrightarrow> frozenOK (billStep E op d)"
proof (cases op)
  case (DoApply now fate c)
  assume "frozenOK d"
  then have "frozenOK (snd (Apply E now fate c d))"
    by (auto simp: Apply_def Let_def bindE_Inr
        intro!: claimed_keeps [where I = frozenOK] dest!: effects_frozen)
  then show ?thesis by (simp add: DoApply)
qed (simp_all add: ReserveBatchImageBalance_def CaptureBatchImageBalance_def ReleaseBatchImageBalance_def
      applyHold_frozen hold_effects_frozen frozenOK_same cleanup_books)

text \<open>C29. The frozen part of a balance never becomes negative: however often holds are captured or released,
failing or retried, and whatever their amounts, no user gets back or pays from a hold more than is frozen.\<close>

theorem frozen_never_negative:
  assumes "frozenOK d0" and "bd_users (fold (billStep E) ops d0) uid = Some u"
  shows "0 \<le> bu_Frozen u"
proof -
  have "frozenOK (fold (billStep E) ops d0)" using assms(1)
    by (induction ops arbitrary: d0) (simp_all add: step_frozen)
  then show ?thesis using assms(2) by (simp add: frozenOK_def)
qed

section \<open>The cleanup\<close>

lemma dropVictims_filter:
  "filter (\<lambda>r. cutoff \<le> dr_CreatedAt r) (dropVictims cutoff n rows) = filter (\<lambda>r. cutoff \<le> dr_CreatedAt r) rows"
  by (induction rows arbitrary: n) auto

lemma dropVictims_all:
  "length (filter (\<lambda>r. dr_CreatedAt r < cutoff) rows) \<le> n
     \<Longrightarrow> dropVictims cutoff n rows = filter (\<lambda>r. cutoff \<le> dr_CreatedAt r) rows"
proof (induction rows arbitrary: n)
  case (Cons r rows)
  then show ?case using Cons.IH [of n] Cons.IH [of "n - 1"] by (auto simp del: dropVictims_0)
qed simp

text \<open>C30. The cleanup of claims ends with none older than the cutoff left in the table; the newer ones stay as
they were and every claim is still known, in the table or the archive.\<close>

theorem cleanup_archives_all:
  "bd_dedup (CleanupUsageBillingDedup cutoff d) = filter (\<lambda>r. cutoff \<le> dr_CreatedAt r) (bd_dedup d)
     \<and> (\<forall>k. claimKnown k (CleanupUsageBillingDedup cutoff d) = claimKnown k d)"
proof (induction cutoff d rule: CleanupUsageBillingDedup.induct)
  case (1 cutoff d)
  obtain affected d1 where round: "cleanupRound cutoff d = (affected, d1)" by fastforce
  note kept = cleanup_claims [of _ cutoff d, unfolded round snd_conv]
  have split: "filter (\<lambda>r. cutoff \<le> dr_CreatedAt r) (bd_dedup d1) = filter (\<lambda>r. cutoff \<le> dr_CreatedAt r) (bd_dedup d)"
    using round by (auto simp: cleanupRound_def Let_def dropVictims_filter)
  show ?case
  proof (cases "affected < usageBillingDedupCleanupBatchSize")
    case True
    then have "bd_dedup d1 = filter (\<lambda>r. cutoff \<le> dr_CreatedAt r) (bd_dedup d)"
      using round by (auto simp: cleanupRound_def Let_def dedupVictims_def dropVictims_all)
    then show ?thesis using True round kept by (simp add: CleanupUsageBillingDedup.simps [of cutoff d])
  next
    case False
    then show ?thesis using 1 [OF round [symmetric] False] round kept split
      by (simp add: CleanupUsageBillingDedup.simps [of cutoff d])
  qed
qed


section \<open>Examples\<close>

definition demoBillEnv :: billEnv where
  "demoBillEnv = \<lparr>be_SHA = (\<lambda>s. s), be_Decimal = demoDecimal, be_Zone = shanghai, be_Zones = (\<lambda>_. Some shanghai)\<rparr>"

definition demoBill :: billDB where
  "demoBill = \<lparr>bd_dedup = [], bd_archive = [],
     bd_users = [1 \<mapsto> \<lparr>bu_Balance = 10 * 10 ^ 8, bu_Frozen = 0, bu_Deleted = False\<rparr>],
     bd_keys = [7 \<mapsto> exampleKey\<lparr>ak_Quota := 3 * 10 ^ 8\<rparr>], bd_accounts = (\<lambda>_. None),
     bd_subs = \<lparr>sd_rows = [], sd_groups = [], sd_nextID = 1\<rparr>, bd_outbox = [], bd_log = []\<rparr>"

definition demoCharge :: "string \<Rightarrow> rat \<Rightarrow> usageCmd" where
  "demoCharge rid cost = \<lparr>uc_RequestID = rid, uc_APIKeyID = 7, uc_RequestFingerprint = ''fp'', uc_RequestPayloadHash = [],
     uc_UserID = 1, uc_AccountID = 5, uc_SubscriptionID = None, uc_AccountType = ''oauth'', uc_Model = ''m'',
     uc_ServiceTier = [], uc_ReasoningEffort = [], uc_BillingType = 0, uc_InputTokens = 1, uc_OutputTokens = 1,
     uc_CacheCreationTokens = 0, uc_CacheReadTokens = 0, uc_ImageCount = 0, uc_MediaType = [], uc_BalanceCost = cost,
     uc_SubscriptionCost = 0, uc_APIKeyQuotaCost = cost, uc_APIKeyRateLimitCost = 0, uc_AccountQuotaCost = 0\<rparr>"

definition demoHold :: "(string \<Rightarrow> string) \<Rightarrow> string \<Rightarrow> rat \<Rightarrow> rat \<Rightarrow> holdCmd" where
  "demoHold step batch hold actual = \<lparr>hc_RequestID = step batch, hc_APIKeyID = 7, hc_RequestFingerprint = ''fp'',
     hc_RequestPayloadHash = [], hc_UserID = 1, hc_BatchID = batch, hc_HoldAmount = hold, hc_ActualAmount = actual\<rparr>"

abbreviation "holdOf \<equiv> demoHold BatchImageHoldRequestID"
abbreviation "captureOf \<equiv> demoHold BatchImageCaptureRequestID"
abbreviation "releaseOf \<equiv> demoHold BatchImageReleaseRequestID"

lemma NormalizeHold_fields [simp]:
  "hc_RequestID (NormalizeHold E c) = trim_space (hc_RequestID c)" "hc_BatchID (NormalizeHold E c) = trim_space (hc_BatchID c)"
  "hc_APIKeyID (NormalizeHold E c) = hc_APIKeyID c" "hc_UserID (NormalizeHold E c) = hc_UserID c"
  "hc_HoldAmount (NormalizeHold E c) = hc_HoldAmount c" "hc_ActualAmount (NormalizeHold E c) = hc_ActualAmount c"
  by (simp_all add: NormalizeHold_def Let_def)

lemma short_updateHold:
  assumes "liveUser d uid = Some u" and "\<not> P u"
  shows "updateHold uid P f refused ev d = Inl refused"
  using assms by (auto simp: updateHold_def updateBillUser_def liveUser_iff userExistsForBilling_def)

lemma liveUser_dedup [simp]: "liveUser (d\<lparr>bd_dedup := rows\<rparr>) uid = liveUser d uid"
  by (simp add: liveUser_def)

text \<open>A step of a hold that is refused leaves everything as it was, its own claim included.\<close>

lemma refused_hold:
  assumes "\<not> claimKnown (trim_space (hc_RequestID c), hc_APIKeyID c) d" and "trim_space (hc_RequestID c) \<noteq> []"
    and "\<And>r. effect (NormalizeHold E c) (d\<lparr>bd_dedup := bd_dedup d @ [r]\<rparr>) = Inl err"
  shows "applyBatchImageBalanceHold effect E now TxCommits c d = (Inl err, d)"
  using assms by (auto simp: applyBatchImageBalanceHold_def Let_def claimed_def claimUsageBillingRequest_def
      claimKnown_def batchImageHoldClaimExists_def)

lemma short_capture:
  assumes "\<not> claimKnown (trim_space (hc_RequestID c), hc_APIKeyID c) d" and "trim_space (hc_RequestID c) \<noteq> []"
    and "liveUser d (hc_UserID c) = Some u" and "fromUnits (bu_Frozen u) < hc_HoldAmount c"
    and "0 < hc_HoldAmount c" and "hc_ActualAmount c \<le> hc_HoldAmount c"
  shows "CaptureBatchImageBalance E now TxCommits c d = (Inl errFrozenInsufficient, d)"
  unfolding CaptureBatchImageBalance_def
proof (rule refused_hold [OF assms(1,2)])
  have "\<not> 1 / 10 ^ 8 < hc_ActualAmount c - hc_HoldAmount c" using assms(6) by simp
  then show "captureUsageBillingBatchImageBalance (NormalizeHold E c) (d\<lparr>bd_dedup := bd_dedup d @ [r]\<rparr>)
      = Inl errFrozenInsufficient" for r
    unfolding captureUsageBillingBatchImageBalance_def Let_def using assms(3-5)
    by (simp add: short_updateHold [where u = u])
qed

lemma short_release:
  assumes "\<not> claimKnown (trim_space (hc_RequestID c), hc_APIKeyID c) d" and "trim_space (hc_RequestID c) \<noteq> []"
    and "liveUser d (hc_UserID c) = Some u" and "fromUnits (bu_Frozen u) < hc_HoldAmount c"
    and "claimKnown (BatchImageHoldRequestID (trim_space (hc_BatchID c)), hc_APIKeyID c) d"
    and "0 < hc_HoldAmount c"
  shows "ReleaseBatchImageBalance E now TxCommits c d = (Inl errFrozenInsufficient, d)"
  unfolding ReleaseBatchImageBalance_def
proof (rule refused_hold [OF assms(1,2)])
  have "claimKnown (BatchImageHoldRequestID (trim_space (hc_BatchID c)), hc_APIKeyID c) (d\<lparr>bd_dedup := bd_dedup d @ [r]\<rparr>)" for r
    using assms(5) by (auto simp: claimKnown_iff)
  then show "releaseUsageBillingBatchImageBalance (NormalizeHold E c) (d\<lparr>bd_dedup := bd_dedup d @ [r]\<rparr>)
      = Inl errFrozenInsufficient" for r
    using assms(3,4,6) by (simp add: releaseUsageBillingBatchImageBalance_def Let_def claimKnown_def short_updateHold [where u = u])
qed

definition demoHistory :: "billOp list" where
  "demoHistory =
    [DoApply 0 (TxReplyLost ''reply lost'') (demoCharge ''r'' 2), DoApply 1 TxCommits (demoCharge ''r'' 2),
     DoReserve 2 TxCommits (holdOf ''b'' 3 0), DoCapture 3 TxCommits (captureOf ''b'' 3 1)]"

lemma demo_history_grid: "\<forall>op\<in>set demoHistory. opOnGrid op"
proof -
  have "onGrid 1" "onGrid 3" "onGrid 0" using onGrid_fromUnits [of 100000000] onGrid_fromUnits [of 300000000]
      onGrid_fromUnits [of 0] by (simp_all add: fromUnits_def)
  then show ?thesis by (simp add: demoHistory_def demoHold_def)
qed

lemma demo_laws_bill: "decimal_laws (be_Decimal demoBillEnv)"
  by (simp add: demoBillEnv_def demo_decimal_laws)

theorem usage_charged_once_witness:
  "let d = fold (billStep demoBillEnv) demoHistory demoBill
   in distinct (map eventKey (bd_log d)) \<and> length (bd_log d) = 3
    \<and> wealth 1 d = 10 - (2 + 1) \<and> frozen 1 d = 0 \<and> quotaUsed 7 d = 2"
proof -
  define d where "d = fold (billStep demoBillEnv) demoHistory demoBill"
  have "map (\<lambda>ev. (paid 1 ev, frozenBy 1 ev, usedBy 7 ev)) (bd_log d) = [(2, 0, 2), (0, 3, 0), (1, - 3, 0)]"
    unfolding d_def by code_simp
  then have log: "map (paid 1) (bd_log d) = [2, 0, 1]" "map (frozenBy 1) (bd_log d) = [0, 3, - 3]"
    "map (usedBy 7) (bd_log d) = [2, 0, 0]" "length (bd_log d) = 3" by auto
  moreover have "bd_log demoBill = [] \<and> wealth 1 demoBill = 10 \<and> frozen 1 demoBill = 0 \<and> quotaUsed 7 demoBill = 0" by code_simp
  ultimately show ?thesis
    using usage_charged_once [OF demo_laws_bill demo_history_grid, of demoBill 1 7] log
    by (simp add: Let_def flip: d_def)
qed

theorem retried_charge_not_repeated_witness:
  "let d1 = snd (Apply demoBillEnv 0 (TxReplyLost ''reply lost'') (demoCharge ''r'' 2) demoBill);
       d2 = fold (billStep demoBillEnv) [DoCleanup 9] d1
   in Apply demoBillEnv 99 TxCommits (demoCharge '' r'' 2) d2 = (Inr notApplied, d2)"
proof -
  define res d1 where "res = fst (Apply demoBillEnv 0 (TxReplyLost ''reply lost'') (demoCharge ''r'' 2) demoBill)"
    and "d1 = snd (Apply demoBillEnv 0 (TxReplyLost ''reply lost'') (demoCharge ''r'' 2) demoBill)"
  have "length (bd_log d1) = 1" unfolding d1_def by code_simp
  then have "bd_log d1 \<noteq> bd_log demoBill" by (auto simp: demoBill_def)
  moreover have "claimsDistinct demoBill" by code_simp
  moreover have "trim_space (uc_RequestID (demoCharge '' r'' 2)) = trim_space (uc_RequestID (demoCharge ''r'' 2))
    \<and> uc_APIKeyID (demoCharge '' r'' 2) = uc_APIKeyID (demoCharge ''r'' 2)
    \<and> trim_space (uc_RequestFingerprint (NormalizeUsage demoBillEnv (demoCharge ''r'' 2)))
       = trim_space (uc_RequestFingerprint (NormalizeUsage demoBillEnv (demoCharge '' r'' 2)))" by code_simp
  moreover have "Apply demoBillEnv 0 (TxReplyLost ''reply lost'') (demoCharge ''r'' 2) demoBill = (res, d1)"
    by (simp add: res_def d1_def)
  ultimately show ?thesis
    using retried_charge_not_repeated [OF demo_laws_bill, of demoBill 0 "TxReplyLost ''reply lost''" "demoCharge ''r'' 2" res d1
        "[DoCleanup 9]" "demoCharge '' r'' 2" 99]
    by (simp add: Let_def flip: d1_def)
qed

theorem charge_reports_exactly_witness:
  "let r = fst (Apply demoBillEnv 0 TxCommits (demoCharge ''r'' 3) demoBill)
   in \<exists>b. ur_NewBalance (projr r) = Some b \<and> fromUnits b = 7 \<and> \<not> ur_BalanceOverdrafted (projr r)"
proof -
  define r d1 where "r = fst (Apply demoBillEnv 0 TxCommits (demoCharge ''r'' 3) demoBill)"
    and "d1 = snd (Apply demoBillEnv 0 TxCommits (demoCharge ''r'' 3) demoBill)"
  have "isl r = False \<and> ur_Applied (projr r)" unfolding r_def by code_simp
  then have r: "Apply demoBillEnv 0 TxCommits (demoCharge ''r'' 3) demoBill = (Inr (projr r), d1)" "ur_Applied (projr r)"
    by (cases r; simp add: r_def d1_def prod_eq_iff)+
  have n: "uc_BalanceCost (NormalizeUsage demoBillEnv (demoCharge ''r'' 3)) = 3
    \<and> uc_UserID (NormalizeUsage demoBillEnv (demoCharge ''r'' 3)) = 1" by code_simp
  have "liveUser demoBill 1 = Some (the (liveUser demoBill 1)) \<and> fromUnits (bu_Balance (the (liveUser demoBill 1))) = 10"
    by code_simp
  then obtain u where "liveUser demoBill 1 = Some u" "fromUnits (bu_Balance u) = 10" by blast
  then show ?thesis using charge_reports_exactly [OF demo_laws_bill r] n
    by (auto simp: Let_def simp flip: r_def)
qed

theorem frozen_never_negative_witness:
  "\<exists>u. bd_users (fold (billStep demoBillEnv) [DoReserve 0 TxCommits (holdOf ''b'' 3 0), DoCapture 1 TxCommits (captureOf ''b'' 3 1)] demoBill) 1 = Some u \<and> 0 \<le> bu_Frozen u"
proof -
  have "bd_users (fold (billStep demoBillEnv) [DoReserve 0 TxCommits (holdOf ''b'' 3 0), DoCapture 1 TxCommits (captureOf ''b'' 3 1)] demoBill) 1
    = Some (the (bd_users (fold (billStep demoBillEnv) [DoReserve 0 TxCommits (holdOf ''b'' 3 0), DoCapture 1 TxCommits (captureOf ''b'' 3 1)] demoBill) 1))" by code_simp
  moreover have "frozenOK demoBill" by (simp add: frozenOK_def demoBill_def)
  ultimately show ?thesis using frozen_never_negative by blast
qed

definition fineHold :: rat where "fineHold = 300000012 / 10 ^ 10"




end
